(* ===== verification/Prelude.thy ===== *)
theory Prelude
  imports Complex_Main "HOL-Library.AList"
begin

text \<open>
  Shared vocabulary of the development: Python exceptions as values, the result type
  of a fallible operation, sequencing of results, rounding as Python's \<open>round\<close> does
  it, and the list facts that several components use.  A Python \<open>int\<close> is an \<open>int\<close>;
  a Python \<open>float\<close> is an exact rational (\<open>rat\<close>), so floating-point rounding error
  itself is outside the model while every explicit \<open>round\<close> of the code is inside it.
\<close>

section \<open>Exceptions and results\<close>

text \<open>
  The exception classes the modelled modules raise.  \<open>exn_base\<close> is the class
  hierarchy (each class's direct base), which \<open>except\<close> clauses consult.
\<close>

datatype exn_class =
    BaseExc | KeyboardInterruptExc | SystemExitExc
  | PyException | ValueErr | TypeErr | AttributeErr | KeyErr | LookupErr | RuntimeErr | TimeoutErr | PermissionErr
  | OSErr | EdlErr | ClipManifestErr | AudioMetadataErr | ScriptPlanErr | PublicationStateErr | OwnershipErr
  | QuotaExceededErr | ProviderAdmissionErr | StorageUnavailableErr | LockConflict | NoOp
  | ClipsetJobMismatchErr | ClipsetSchemaErr | ClipsetBudgetErr | DecimalErr
  | ArithmeticErr | OverflowErr
  | OutboxErr | OutboxConflictErr | MediaReviewErr | StaleClaimErr | LeaseBudgetErr | UnsafeValueErr
  | FileNotFoundErr | StorageTimeoutErr | MediaValidationErr | RecordingInsufficientErr
  | RecorderSetupErr | ForeignClipsetErr | RecoverableSetupErr | TransientVideoErr
  | ReviewBindingErr
  | SchedulerErr | UnknownDependencyErr | DuplicateTaskErr | CyclicDependencyErr

fun exn_base :: "exn_class \<Rightarrow> exn_class option" where
  "exn_base BaseExc = None"
| "exn_base KeyboardInterruptExc = Some BaseExc"
| "exn_base SystemExitExc = Some BaseExc"
| "exn_base PyException = Some BaseExc"
| "exn_base KeyErr = Some LookupErr"
| "exn_base OverflowErr = Some ArithmeticErr"
| "exn_base DecimalErr = Some ArithmeticErr"
| "exn_base TimeoutErr = Some OSErr"
| "exn_base PermissionErr = Some OSErr"
| "exn_base EdlErr = Some ValueErr"
| "exn_base ClipManifestErr = Some ValueErr"
| "exn_base AudioMetadataErr = Some ValueErr"
| "exn_base ScriptPlanErr = Some ValueErr"
| "exn_base PublicationStateErr = Some ValueErr"
| "exn_base ClipsetJobMismatchErr = Some ValueErr"
| "exn_base ClipsetSchemaErr = Some ValueErr"
| "exn_base ClipsetBudgetErr = Some ValueErr"
| "exn_base OwnershipErr = Some RuntimeErr"
| "exn_base QuotaExceededErr = Some RuntimeErr"
| "exn_base StorageUnavailableErr = Some RuntimeErr"
| "exn_base ProviderAdmissionErr = Some TimeoutErr"
| "exn_base SchedulerErr = Some ValueErr"
| "exn_base UnknownDependencyErr = Some SchedulerErr"
| "exn_base DuplicateTaskErr = Some SchedulerErr"
| "exn_base CyclicDependencyErr = Some SchedulerErr"
| "exn_base OutboxErr = Some RuntimeErr"
| "exn_base OutboxConflictErr = Some OutboxErr"
| "exn_base MediaReviewErr = Some OutboxErr"
| "exn_base StaleClaimErr = Some OutboxErr"
| "exn_base LeaseBudgetErr = Some OutboxErr"
| "exn_base UnsafeValueErr = Some OutboxErr"
| "exn_base FileNotFoundErr = Some OSErr"
| "exn_base StorageTimeoutErr = Some TimeoutErr"
| "exn_base MediaValidationErr = Some ValueErr"
| "exn_base RecordingInsufficientErr = Some RuntimeErr"
| "exn_base RecorderSetupErr = Some ValueErr"
| "exn_base ForeignClipsetErr = Some RecorderSetupErr"
| "exn_base RecoverableSetupErr = Some RuntimeErr"
| "exn_base TransientVideoErr = Some RuntimeErr"
| "exn_base ReviewBindingErr = Some ValueErr"
| "exn_base _ = Some PyException"

text \<open>\<open>issubclass\<close>: walk the bases; the hierarchy is at most five deep.\<close>

fun exn_is_upto :: "nat \<Rightarrow> exn_class \<Rightarrow> exn_class \<Rightarrow> bool" where
  "exn_is_upto 0 c d = (c = d)"
| "exn_is_upto (Suc n) c d =
     (c = d \<or> (case exn_base c of None \<Rightarrow> False | Some b \<Rightarrow> exn_is_upto n b d))"

definition exn_is :: "exn_class \<Rightarrow> exn_class \<Rightarrow> bool" where
  "exn_is c d = exn_is_upto 5 c d"

text \<open>An exception is its class and the fixed part of its message.\<close>

datatype exn = Raise (exn_class_of: exn_class) (exn_message: string)

text \<open>Whether \<open>except (c1, c2, ...)\<close> handles an exception.\<close>

definition catches :: "exn_class list \<Rightarrow> exn \<Rightarrow> bool" where
  "catches cs e \<longleftrightarrow> (\<exists>c \<in> set cs. exn_is (exn_class_of e) c)"

type_synonym 'a res = "exn + 'a"

definition and_then :: "'e + 'a \<Rightarrow> ('a \<Rightarrow> 'e + 'b) \<Rightarrow> 'e + 'b" where
  "and_then r f = (case r of Inl e \<Rightarrow> Inl e | Inr x \<Rightarrow> f x)"

lemma and_then_simps [simp]:
  "and_then (Inl e) f = Inl e"
  "and_then (Inr x) f = f x"
  by (simp_all add: and_then_def)

lemma and_then_Inr_conv: "and_then r f = Inr y \<longleftrightarrow> (\<exists>x. r = Inr x \<and> f x = Inr y)"
  by (cases r) auto

lemma and_then_assoc: "and_then (and_then r f) g = and_then r (\<lambda>x. and_then (f x) g)"
  by (cases r) auto

text \<open>\<open>require c e\<close> is the statement \<open>if not c: raise e\<close>.\<close>

definition require :: "bool \<Rightarrow> 'e \<Rightarrow> 'e + unit" where
  "require c e = (if c then Inr () else Inl e)"

lemma require_simps [simp]:
  "require True e = Inr ()"
  "require False e = Inl e"
  "require c e = Inr u \<longleftrightarrow> c"
  by (simp_all add: require_def)

text \<open>\<open>tuple(f(x) for x in xs)\<close> where \<open>f\<close> may raise: left to right, first error wins.\<close>

fun map_res :: "('a \<Rightarrow> 'e + 'b) \<Rightarrow> 'a list \<Rightarrow> 'e + 'b list" where
  "map_res f [] = Inr []"
| "map_res f (x # xs) = and_then (f x) (\<lambda>y. and_then (map_res f xs) (\<lambda>ys. Inr (y # ys)))"

lemma map_res_Inr: "(\<And>x. x \<in> set xs \<Longrightarrow> f x = Inr (g x)) \<Longrightarrow> map_res f xs = Inr (map g xs)"
  by (induction xs) auto

lemma map_res_length: "map_res f xs = Inr ys \<Longrightarrow> length ys = length xs"
  by (induction xs arbitrary: ys) (auto simp: and_then_Inr_conv)

lemma map_res_map: "map_res f (map g xs) = map_res (f \<circ> g) xs"
  by (induction xs) auto

section \<open>Rounding\<close>

text \<open>
  Python's \<open>round(x)\<close> rounds to the nearest integer and a tie to the even neighbour;
  \<open>round(x, n)\<close> does so at the \<open>n\<close>-th decimal.
\<close>

definition py_round :: "rat \<Rightarrow> int" where
  "py_round q =
     (let f = floor q; r = q - of_int f
      in if r < 1 / 2 then f
         else if 1 / 2 < r then f + 1
         else if even f then f else f + 1)"

definition py_round_to :: "nat \<Rightarrow> rat \<Rightarrow> rat" where
  "py_round_to n q = of_int (py_round (q * 10 ^ n)) / 10 ^ n"

lemma py_round_of_int [simp]: "py_round (of_int n) = n"
  by (simp add: py_round_def)

lemma py_round_0 [simp]: "py_round 0 = 0"
  by (simp add: py_round_def)

lemma py_round_floor: "py_round q = floor q \<or> py_round q = floor q + 1"
  by (simp add: py_round_def Let_def)

lemma py_round_near:
  "of_int (py_round q) \<le> q + 1 / 2" "q - 1 / 2 \<le> of_int (py_round q)"
proof -
  define f where "f = floor q"
  have q: "of_int f \<le> q" "q < of_int f + 1"
    unfolding f_def by linarith+
  show "of_int (py_round q) \<le> q + 1 / 2" "q - 1 / 2 \<le> of_int (py_round q)"
    using q by (auto simp: py_round_def Let_def simp flip: f_def)
qed

lemma py_round_mono:
  assumes "p \<le> q"
  shows "py_round p \<le> py_round q"
proof (cases "floor p = floor q")
  case True
  then show ?thesis using assms by (auto simp: py_round_def Let_def)
next
  case False
  then have "floor p + 1 \<le> floor q"
    using floor_mono [OF assms] by linarith
  then show ?thesis
    using py_round_floor [of p] py_round_floor [of q] by linarith
qed

lemma py_round_nonneg: "0 \<le> q \<Longrightarrow> 0 \<le> py_round q"
  using py_round_mono [of 0 q] by simp

lemma div_mult_le_int:
  fixes x n :: int
  assumes "0 < n"
  shows "x div n * n \<le> x" "n * (x div n) \<le> x"
proof -
  show "x div n * n \<le> x"
    using div_mult_mod_eq [of x n] pos_mod_sign [OF assms, of x] by linarith
  then show "n * (x div n) \<le> x" by (simp only: mult.commute)
qed

section \<open>Contiguous intervals\<close>

text \<open>
  \<open>tiles lo hi a b xs\<close>: the intervals \<open>[a x, b x]\<close> of \<open>xs\<close>, in order, cover
  \<open>[lo, hi]\<close> with no gap and no overlap.  It is the shared specification of word
  timings, topic windows and timeline segments.
\<close>

fun tiles :: "int \<Rightarrow> int \<Rightarrow> ('a \<Rightarrow> int) \<Rightarrow> ('a \<Rightarrow> int) \<Rightarrow> 'a list \<Rightarrow> bool" where
  "tiles lo hi a b [] = (lo = hi)"
| "tiles lo hi a b (x # xs) = (a x = lo \<and> a x \<le> b x \<and> tiles (b x) hi a b xs)"

lemma tiles_append:
  "tiles lo hi a b (xs @ ys) \<longleftrightarrow> (\<exists>m. tiles lo m a b xs \<and> tiles m hi a b ys)"
  by (induction xs arbitrary: lo) auto

lemma tiles_le: "tiles lo hi a b xs \<Longrightarrow> lo \<le> hi"
  by (induction xs arbitrary: lo) force+

lemma tiles_sum: "tiles lo hi a b xs \<Longrightarrow> (\<Sum>x\<leftarrow>xs. b x - a x) = hi - lo"
  by (induction xs arbitrary: lo) auto

lemma tiles_bounds: "tiles lo hi a b xs \<Longrightarrow> x \<in> set xs \<Longrightarrow> lo \<le> a x \<and> b x \<le> hi"
  by (induction xs arbitrary: lo) (force dest: tiles_le)+

lemma tiles_map:
  assumes "\<And>x. x \<in> set xs \<Longrightarrow> a' (f x) = a x \<and> b' (f x) = b x"
  shows "tiles lo hi a' b' (map f xs) = tiles lo hi a b xs"
  using assms by (induction xs arbitrary: lo) auto

lemma tiles_enumerate:
  assumes "\<And>i. f i \<le> f (Suc i)"
    and "\<And>i x. k \<le> i \<Longrightarrow> i < k + length xs \<Longrightarrow> a (g (i, x)) = f i \<and> b (g (i, x)) = f (Suc i)"
  shows "tiles (f k) (f (k + length xs)) a b (map g (enumerate k xs))"
  using assms(2)
proof (induction xs arbitrary: k)
  case Nil
  then show ?case by simp
next
  case (Cons x xs)
  have "tiles (f (Suc k)) (f (Suc k + length xs)) a b (map g (enumerate (Suc k) xs))"
    by (rule Cons.IH) (use Cons.prems in auto)
  then show ?case using Cons.prems [of k x] assms(1) by simp
qed

text \<open>In order and disjoint inside \<open>[lo, hi]\<close>, gaps allowed.\<close>

fun seq_within :: "int \<Rightarrow> int \<Rightarrow> ('a \<Rightarrow> int) \<Rightarrow> ('a \<Rightarrow> int) \<Rightarrow> 'a list \<Rightarrow> bool" where
  "seq_within lo hi a b [] = (lo \<le> hi)"
| "seq_within lo hi a b (x # xs) = (lo \<le> a x \<and> a x \<le> b x \<and> seq_within (b x) hi a b xs)"

lemma seq_within_le: "seq_within lo hi a b xs \<Longrightarrow> lo \<le> hi"
  by (induction xs arbitrary: lo) force+

lemma seq_within_mono: "seq_within lo hi a b xs \<Longrightarrow> lo' \<le> lo \<Longrightarrow> hi \<le> hi' \<Longrightarrow> seq_within lo' hi' a b xs"
  by (induction xs arbitrary: lo lo') auto

lemma seq_within_append:
  "seq_within lo hi a b (xs @ ys) \<longleftrightarrow> (\<exists>m. seq_within lo m a b xs \<and> seq_within m hi a b ys)"
proof (induction xs arbitrary: lo)
  case Nil
  then show ?case using seq_within_mono by fastforce
next
  case (Cons x xs)
  then show ?case by auto
qed

lemma seq_within_bounds: "seq_within lo hi a b xs \<Longrightarrow> x \<in> set xs \<Longrightarrow> lo \<le> a x \<and> a x \<le> b x \<and> b x \<le> hi"
  by (induction xs arbitrary: lo) (force dest: seq_within_le)+

lemma tiles_seq: "tiles lo hi a b xs \<Longrightarrow> seq_within lo hi a b xs"
  by (induction xs arbitrary: lo) auto

section \<open>Lists\<close>

lemma map_of_update_conv: "map_of (AList.update k v al) = (map_of al)(k \<mapsto> v)"
  by (rule update_conv')

lemma map_of_delete_conv: "map_of (AList.delete k al) = (map_of al)(k := None)"
  by (rule delete_conv')

lemma update_new: "map_of al k = None \<Longrightarrow> AList.update k v al = al @ [(k, v)]"
  by (induction al) (auto split: if_splits)

lemma sum_list_nonneg_int: "(\<And>x. x \<in> set xs \<Longrightarrow> (0::int) \<le> f x) \<Longrightarrow> 0 \<le> (\<Sum>x\<leftarrow>xs. f x)"
  by (induction xs) auto

lemma takeWhile_all: "(\<And>x. x \<in> set xs \<Longrightarrow> P x) \<Longrightarrow> takeWhile P xs = xs"
  by (induction xs) auto

end
