(* ===== verification/Datetime.thy ===== *)
theory Datetime
  imports PyText
begin

text \<open>
  What the modules use of \<open>datetime\<close>.  An aware \<open>datetime\<close> is its UTC instant, an
  integer number of microseconds since 0001-01-01T00:00:00Z; a naive one is a wall-clock
  reading on the same scale.  \<open>isoformat\<close> and \<open>fromisoformat\<close> are modelled for the
  extended ISO format (\<open>YYYY-MM-DD\<close>, any separator, \<open>HH[:MM[:SS[.f]]]\<close>, \<open>Z\<close> or an
  offset), the only one the modules write; the compact and week-date forms that newer
  interpreters also read are taken as malformed.  The main result is the round trip.
\<close>

section \<open>The proleptic Gregorian calendar\<close>

definition is_leap :: "nat \<Rightarrow> bool" where
  "is_leap y = (y mod 4 = 0 \<and> (y mod 100 \<noteq> 0 \<or> y mod 400 = 0))"

definition days_before_year :: "nat \<Rightarrow> nat" where
  "days_before_year y = (let p = y - 1 in p * 365 + p div 4 + p div 400 - p div 100)"

definition days_before_month :: "bool \<Rightarrow> nat \<Rightarrow> nat" where
  "days_before_month leap m =
     [0, 31, 59, 90, 120, 151, 181, 212, 243, 273, 304, 334] ! (m - 1)
     + (if leap \<and> 2 < m then 1 else 0)"

definition days_in_month :: "bool \<Rightarrow> nat \<Rightarrow> nat" where
  "days_in_month leap m =
     (if leap \<and> m = 2 then 29 else [31, 28, 31, 30, 31, 30, 31, 31, 30, 31, 30, 31] ! (m - 1))"

definition date_ok :: "nat \<Rightarrow> nat \<Rightarrow> nat \<Rightarrow> bool" where
  "date_ok y m d \<longleftrightarrow> 1 \<le> y \<and> y \<le> 9999 \<and> 1 \<le> m \<and> m \<le> 12 \<and> 1 \<le> d \<and> d \<le> days_in_month (is_leap y) m"

definition ymd_ord :: "nat \<Rightarrow> nat \<Rightarrow> nat \<Rightarrow> nat" where
  "ymd_ord y m d = days_before_year y + days_before_month (is_leap y) m + d"

definition month_of_day :: "bool \<Rightarrow> nat \<Rightarrow> nat" where
  "month_of_day leap r =
     (let b = days_before_month leap
      in if b 12 \<le> r then 12 else if b 11 \<le> r then 11 else if b 10 \<le> r then 10
         else if b 9 \<le> r then 9 else if b 8 \<le> r then 8 else if b 7 \<le> r then 7
         else if b 6 \<le> r then 6 else if b 5 \<le> r then 5 else if b 4 \<le> r then 4
         else if b 3 \<le> r then 3 else if b 2 \<le> r then 2 else 1)"

text \<open>The year and the zero-based day within it, from a zero-based day count.\<close>

definition split_year :: "nat \<Rightarrow> nat \<times> nat" where
  "split_year n =
     (let n400 = n div 146097; r400 = n mod 146097;
          n100 = min 3 (r400 div 36524); r100 = r400 - n100 * 36524;
          n4 = r100 div 1461; r4 = r100 mod 1461;
          n1 = min 3 (r4 div 365)
      in (400 * n400 + 100 * n100 + 4 * n4 + n1 + 1, r4 - n1 * 365))"

definition ord_ymd :: "nat \<Rightarrow> nat \<times> nat \<times> nat" where
  "ord_ymd n = (let (y, r) = split_year (n - 1); m = month_of_day (is_leap y) r
     in (y, m, r - days_before_month (is_leap y) m + 1))"

definition month_split_ok :: "bool \<Rightarrow> nat \<Rightarrow> bool" where
  "month_split_ok leap r =
     (let m = month_of_day leap r
      in 1 \<le> m \<and> m \<le> 12 \<and> days_before_month leap m \<le> r
         \<and> r - days_before_month leap m + 1 \<le> days_in_month leap m)"

lemma month_split: "r < (if leap then 366 else 365) \<Longrightarrow> month_split_ok leap r"
  by (cases leap)
    (auto simp: month_split_ok_def month_of_day_def days_before_month_def days_in_month_def Let_def)

lemma year_quads:
  fixes a b c d :: nat
  assumes "b \<le> 3" "c \<le> 24" "d \<le> 3"
  defines "p \<equiv> 400 * a + 100 * b + 4 * c + d"
  shows "p div 4 = 100 * a + 25 * b + c" "p div 100 = 4 * a + b" "p div 400 = a"
proof -
  have "p = 4 * (100 * a + 25 * b + c) + d" "p = 100 * (4 * a + b) + (4 * c + d)"
    "p = 400 * a + (100 * b + 4 * c + d)"
    by (simp_all add: p_def)
  moreover have "d < 4" "4 * c + d < 100" "100 * b + 4 * c + d < 400"
    using assms by linarith+
  ultimately show "p div 4 = 100 * a + 25 * b + c" "p div 100 = 4 * a + b" "p div 400 = a"
    by simp_all
qed

lemma is_leap_quads:
  fixes a b c d :: nat
  assumes "b \<le> 3" "c \<le> 24" "d \<le> 3"
  shows "is_leap (400 * a + 100 * b + 4 * c + d + 1) \<longleftrightarrow> d = 3 \<and> (c \<noteq> 24 \<or> b = 3)"
proof -
  have "400 * a + 100 * b + 4 * c + d + 1 = d + 1 + 4 * (100 * a + 25 * b + c)"
    "400 * a + 100 * b + 4 * c + d + 1 = 4 * c + d + 1 + 100 * (4 * a + b)"
    "400 * a + 100 * b + 4 * c + d + 1 = 100 * b + 4 * c + d + 1 + 400 * a"
    by simp_all
  then have m: "(400 * a + 100 * b + 4 * c + d + 1) mod 4 = (d + 1) mod 4"
    "(400 * a + 100 * b + 4 * c + d + 1) mod 100 = (4 * c + d + 1) mod 100"
    "(400 * a + 100 * b + 4 * c + d + 1) mod 400 = (100 * b + 4 * c + d + 1) mod 400"
    by (metis mod_mult_self2)+
  have "(d + 1) mod 4 = 0 \<longleftrightarrow> d = 3"
    using assms(3) by (cases "d = 3") simp_all
  moreover have "(4 * c + d + 1) mod 100 = 0 \<longleftrightarrow> 4 * c + d = 99"
    using assms by (cases "4 * c + d = 99") simp_all
  moreover have "(100 * b + 4 * c + d + 1) mod 400 = 0 \<longleftrightarrow> 100 * b + 4 * c + d = 399"
    using assms by (cases "100 * b + 4 * c + d = 399") simp_all
  ultimately show ?thesis
    unfolding is_leap_def m using assms by auto
qed

lemma split_year:
  assumes "split_year n = (y, r)"
  shows "days_before_year y + r = n" "r < (if is_leap y then 366 else 365)" "1 \<le> y"
proof -
  define a where "a = n div 146097"
  define r400 where "r400 = n mod 146097"
  define b where "b = min 3 (r400 div 36524)"
  define r100 where "r100 = r400 - b * 36524"
  define c where "c = r100 div 1461"
  define r4 where "r4 = r100 mod 1461"
  define d where "d = min 3 (r4 div 365)"
  have y: "y = 400 * a + 100 * b + 4 * c + d + 1" and r: "r = r4 - d * 365"
    using assms unfolding split_year_def Let_def a_def r400_def b_def r100_def c_def r4_def d_def
    by auto
  have n: "n = 146097 * a + r400" "r400 < 146097"
    by (simp_all add: a_def r400_def)
  have b: "b \<le> 3" "b * 36524 \<le> r400" "b < 3 \<Longrightarrow> r100 < 36524" "b = 3 \<Longrightarrow> r100 < 36525"
    using n(2) unfolding b_def r100_def by linarith+
  have r4: "r100 = 1461 * c + r4" "r4 < 1461"
    by (simp_all add: c_def r4_def)
  have c: "c \<le> 24"
    using b r4 by linarith
  have d: "d \<le> 3" "d * 365 \<le> r4" "r4 - d * 365 \<le> 365" "d < 3 \<Longrightarrow> r4 - d * 365 < 365"
    using r4(2) unfolding d_def by linarith+
  have q: "(y - 1) div 4 = 100 * a + 25 * b + c" "(y - 1) div 100 = 4 * a + b" "(y - 1) div 400 = a"
    using year_quads [OF b(1) c d(1), of a] by (simp_all add: y)
  show "1 \<le> y" by (simp add: y)
  have "r400 = b * 36524 + r100" "r4 = d * 365 + r"
    using b(2) d(2) by (simp_all add: r100_def r)
  then show "days_before_year y + r = n"
    unfolding days_before_year_def Let_def q using n(1) r4(1) by (simp add: y)
  have leap: "is_leap y \<longleftrightarrow> d = 3 \<and> (c \<noteq> 24 \<or> b = 3)"
    unfolding y by (rule is_leap_quads [OF b(1) c d(1)])
  show "r < (if is_leap y then 366 else 365)"
  proof (cases "d = 3 \<and> c = 24 \<and> b < 3")
    case True
    then have "r4 < 1460" using b(3) r4(1) by linarith
    with True r have "r < 365" by simp
    then show ?thesis by simp
  next
    case False
    then show ?thesis using leap d b(1) r by auto
  qed
qed

lemma ord_ymd_ord:
  assumes "1 \<le> n" "ord_ymd n = (y, m, d)"
  shows "ymd_ord y m d = n" "1 \<le> m" "m \<le> 12" "1 \<le> d" "d \<le> days_in_month (is_leap y) m" "1 \<le> y"
proof -
  obtain r where yr: "split_year (n - 1) = (y, r)"
    and m: "m = month_of_day (is_leap y) r" and d: "d = r - days_before_month (is_leap y) m + 1"
    using assms(2) by (auto simp: ord_ymd_def Let_def split: prod.splits)
  note ms = month_split [OF split_year(2) [OF yr], unfolded month_split_ok_def Let_def, folded m]
  show "1 \<le> m" "m \<le> 12" "1 \<le> d" "d \<le> days_in_month (is_leap y) m"
    using ms by (simp_all add: d)
  show "ymd_ord y m d = n"
    using ms split_year(1) [OF yr] assms(1) by (simp add: ymd_ord_def d)
  show "1 \<le> y" by (rule split_year(3) [OF yr])
qed

lemma year_le_9999:
  assumes "n < 3652059" "split_year n = (y, r)"
  shows "y \<le> 9999"
proof (rule ccontr)
  assume "\<not> y \<le> 9999"
  then have "9999 \<le> y - 1" by simp
  moreover define p where "p = y - 1"
  ultimately have p: "9999 \<le> p" by simp
  have "p div 100 \<le> p div 4" by (simp add: div_le_mono2)
  then have "p * 365 + p div 4 + p div 400 - p div 100 \<ge> 9999 * 365 + (p div 4 - p div 100) + p div 400"
    using p by linarith
  moreover have "p div 400 \<ge> 24"
    using div_le_mono [OF p, of 400] by simp
  moreover have "p div 4 - p div 100 \<ge> 2400"
  proof -
    define q k where "q = p div 4" and "k = q div 25"
    have "p div 100 = k" unfolding k_def q_def by (simp add: div_mult2_eq [symmetric])
    moreover have "2499 \<le> q" using div_le_mono [OF p, of 4] by (simp add: q_def)
    moreover have "25 * k \<le> q" by (simp add: k_def)
    ultimately show ?thesis unfolding q_def by (cases "k \<le> 99") linarith+
  qed
  ultimately have "3652059 \<le> days_before_year y"
    unfolding days_before_year_def Let_def p_def [symmetric] by linarith
  with split_year(1) [OF assms(2)] assms(1) show False by linarith
qed

section \<open>Instants and stamps\<close>

datatype stamp = Aware int | Naive int

definition micros_per_day :: int where
  "micros_per_day = 86400000000"

definition valid_instant :: "int \<Rightarrow> bool" where
  "valid_instant t \<longleftrightarrow> 0 \<le> t \<and> t < 3652059 * micros_per_day"

text \<open>\<open>timedelta(seconds=n)\<close> and \<open>timedelta.total_seconds()\<close>.\<close>

definition micros :: "int \<Rightarrow> int" where
  "micros n = n * 1000000"

definition total_seconds :: "int \<Rightarrow> rat" where
  "total_seconds d = of_int d / 1000000"

lemma total_seconds_simps [simp]:
  "total_seconds (micros n) = of_int n" "total_seconds 0 = 0"
  by (simp_all add: total_seconds_def micros_def)

lemma total_seconds_le: "total_seconds a \<le> total_seconds b \<longleftrightarrow> a \<le> b"
  by (simp add: total_seconds_def divide_right_mono field_simps)

section \<open>Writing and reading the extended ISO format\<close>

text \<open>\<open>old\<close> to \<open>new\<close> in a string, as \<open>str.replace\<close> does: left to right, no overlap.\<close>

function py_replace :: "string \<Rightarrow> string \<Rightarrow> string \<Rightarrow> string" where
  "py_replace old new s =
     (if old = [] \<or> s = [] then s
      else if starts_with old s then new @ py_replace old new (drop (length old) s)
      else hd s # py_replace old new (tl s))"
  by pat_completeness auto
termination
  by (relation "measure (\<lambda>(old, new, s). length s)") (auto simp: neq_Nil_conv)

declare py_replace.simps [simp del]

lemma py_replace_end:
  assumes "old \<noteq> []" "hd old \<notin> set s"
  shows "py_replace old new (s @ old) = s @ new"
  using assms(2)
proof (induction s)
  case Nil
  then show ?case
    using assms(1)
    by (simp add: py_replace.simps [of old new old] py_replace.simps [of old new "[]"] starts_with_def)
next
  case (Cons c s)
  then have "\<not> starts_with old (c # s @ old)"
    using assms(1) by (cases old) (auto simp: starts_with_def)
  with Cons assms(1) show ?case
    by (simp add: py_replace.simps [of old new "c # s @ old"])
qed

definition iso_date :: "nat \<Rightarrow> string" where
  "iso_date day = (let (y, m, d) = ord_ymd (day + 1)
     in digits_fixed 4 y @ ''-'' @ digits_fixed 2 m @ ''-'' @ digits_fixed 2 d)"

definition iso_time :: "nat \<Rightarrow> string" where
  "iso_time u =
     (let s = u div 1000000; f = u mod 1000000
      in digits_fixed 2 (s div 3600) @ '':'' @ digits_fixed 2 (s div 60 mod 60) @ '':''
         @ digits_fixed 2 (s mod 60) @ (if f = 0 then [] else ''.'' @ digits_fixed 6 f))"

definition iso_body :: "int \<Rightarrow> string" where
  "iso_body t = iso_date (nat (t div micros_per_day)) @ ''T'' @ iso_time (nat (t mod micros_per_day))"

text \<open>\<open>datetime.isoformat()\<close> of a UTC instant, and with \<open>.replace("+00:00", "Z")\<close>.\<close>

definition isoformat_utc :: "int \<Rightarrow> string" where
  "isoformat_utc t = iso_body t @ ''+00:00''"

definition iso_z :: "int \<Rightarrow> string" where
  "iso_z t = py_replace ''+00:00'' ''Z'' (isoformat_utc t)"

text \<open>\<open>.replace(microsecond=0)\<close> / \<open>isoformat(timespec="seconds")\<close>: drop the fraction.\<close>

definition whole_second :: "int \<Rightarrow> int" where
  "whole_second t = t - t mod 1000000"

definition take_num :: "nat \<Rightarrow> string \<Rightarrow> (nat \<times> string) option" where
  "take_num w s =
     (if length s < w then None
      else map_option (\<lambda>n. (n, drop w s)) (digits_value 0 (take w s)))"

definition take_char :: "char \<Rightarrow> string \<Rightarrow> string option" where
  "take_char c s = (case s of [] \<Rightarrow> None | x # xs \<Rightarrow> if x = c then Some xs else None)"

definition parse_frac :: "string \<Rightarrow> (nat \<times> string) option" where
  "parse_frac s = (case s of [] \<Rightarrow> Some (0, [])
     | c # cs \<Rightarrow> if c = CHR ''.'' \<or> c = CHR '',''
        then (let ds = takeWhile is_digit cs
              in if ds = [] then None
                 else map_option (\<lambda>f. (f, dropWhile is_digit cs))
                        (digits_value 0 (take 6 (ds @ ''000000''))))
        else Some (0, c # cs))"

definition parse_hms :: "string \<Rightarrow> (nat \<times> string) option" where
  "parse_hms s = (case take_num 2 s of None \<Rightarrow> None | Some (h, s1) \<Rightarrow>
     if 24 \<le> h then None else
     (case take_char (CHR '':'') s1 of None \<Rightarrow> Some (h * 3600000000, s1) | Some s2 \<Rightarrow>
       (case take_num 2 s2 of None \<Rightarrow> None | Some (m, s3) \<Rightarrow>
         if 60 \<le> m then None else
         (case take_char (CHR '':'') s3 of None \<Rightarrow> Some ((h * 60 + m) * 60000000, s3) | Some s4 \<Rightarrow>
           (case take_num 2 s4 of None \<Rightarrow> None | Some (sec, s5) \<Rightarrow>
             if 60 \<le> sec then None else
             map_option (\<lambda>(f, s6). (((h * 60 + m) * 60 + sec) * 1000000 + f, s6)) (parse_frac s5))))))"

definition parse_date :: "string \<Rightarrow> (nat \<times> string) option" where
  "parse_date s = (case take_num 4 s of None \<Rightarrow> None | Some (y, s1) \<Rightarrow>
     (case take_char (CHR ''-'') s1 of None \<Rightarrow> None | Some s2 \<Rightarrow>
       (case take_num 2 s2 of None \<Rightarrow> None | Some (m, s3) \<Rightarrow>
         (case take_char (CHR ''-'') s3 of None \<Rightarrow> None | Some s4 \<Rightarrow>
           (case take_num 2 s4 of None \<Rightarrow> None | Some (d, s5) \<Rightarrow>
             if date_ok y m d then Some (ymd_ord y m d - 1, s5) else None)))))"

definition fromisoformat :: "string \<Rightarrow> stamp option" where
  "fromisoformat s = (case parse_date s of None \<Rightarrow> None | Some (day, rest) \<Rightarrow>
     (let t0 = int day * micros_per_day
      in case rest of [] \<Rightarrow> Some (Naive t0) | sep # ts \<Rightarrow>
        (case parse_hms ts of None \<Rightarrow> None | Some (u, tz) \<Rightarrow>
          (case tz of [] \<Rightarrow> Some (Naive (t0 + int u))
           | c # os \<Rightarrow>
              if c = CHR ''Z'' then (if os = [] then Some (Aware (t0 + int u)) else None)
              else if c = CHR ''+'' \<or> c = CHR ''-'' then
                (case parse_hms os of Some (off, []) \<Rightarrow>
                   Some (Aware (if c = CHR ''+'' then t0 + int u - int off else t0 + int u + int off))
                 | _ \<Rightarrow> None)
              else None))))"

section \<open>The round trip\<close>

lemma take_num_fixed [simp]: "n < 10 ^ w \<Longrightarrow> take_num w (digits_fixed w n @ rest) = Some (n, rest)"
  by (simp add: take_num_def digits_value_fixed)

lemma take_char_Cons [simp]: "take_char c (c # s) = Some s"
  by (simp add: take_char_def)

lemma is_digit_fixed: "\<forall>c \<in> set (digits_fixed w n). is_digit c"
  by (induction w arbitrary: n) (auto simp: is_digit_def)

lemma not_digit_sign: "\<not> is_digit CHR ''+''" "\<not> is_digit CHR ''Z''"
  by code_simp+

lemma days_in_month_le:
  assumes "1 \<le> m" "m \<le> 12"
  shows "days_in_month leap m \<le> 99"
proof -
  let ?t = "[31, 28, 31, 30, 31, 30, 31, 31, 30, 31, 30, 31] :: nat list"
  have "m - 1 < length ?t" using assms by simp
  then have "?t ! (m - 1) \<in> set ?t" by (rule nth_mem)
  moreover have "\<forall>k \<in> set ?t. k \<le> 99" by simp
  ultimately have "?t ! (m - 1) \<le> 99" by blast
  then show ?thesis by (simp add: days_in_month_def)
qed

lemma parse_date_iso:
  assumes "day < 3652059"
  shows "parse_date (iso_date day @ rest) = Some (day, rest)"
proof -
  obtain y m d where ymd: "ord_ymd (day + 1) = (y, m, d)"
    by (cases "ord_ymd (day + 1)") auto
  have "1 \<le> day + 1" by simp
  note o = ord_ymd_ord [OF this ymd]
  obtain r where "split_year day = (y, r)"
    using ymd by (auto simp: ord_ymd_def Let_def split: prod.splits)
  then have y: "y \<le> 9999" using assms by (blast intro: year_le_9999)
  have d: "d < 100" using o(5) days_in_month_le [OF o(2) o(3), of "is_leap y"] by linarith
  have ok: "date_ok y m d" using o y by (simp add: date_ok_def)
  show ?thesis
    using y d o(1,3) ok by (simp add: iso_date_def ymd [simplified] parse_date_def)
qed

lemma parse_frac_sign:
  assumes "f < 1000000" "c = CHR ''+'' \<or> c = CHR ''Z''"
  shows "parse_frac ((if f = 0 then [] else ''.'' @ digits_fixed 6 f) @ c # rest) = Some (f, c # rest)"
proof -
  have c: "c \<noteq> CHR ''.''" "c \<noteq> CHR '',''" "\<not> is_digit c"
    using assms(2) not_digit_sign by auto
  have tw: "takeWhile is_digit (digits_fixed 6 f @ c # rest) = digits_fixed 6 f"
    "dropWhile is_digit (digits_fixed 6 f @ c # rest) = c # rest"
    using is_digit_fixed [of 6 f] c(3) by (simp_all add: takeWhile_append2 dropWhile_append2)
  have "digits_fixed 6 f \<noteq> []"
    by (metis length_digits_fixed list.size(3) zero_neq_numeral)
  then show ?thesis
    using c tw assms(1) digits_value_fixed [of f 6] by (simp add: parse_frac_def)
qed

lemma parse_hms_parts:
  assumes "h < 24" "m < 60" "sec < 60" "parse_frac fs = Some (f, rest)"
  shows "parse_hms (digits_fixed 2 h @ CHR '':'' # digits_fixed 2 m @ CHR '':'' # digits_fixed 2 sec @ fs)
    = Some (((h * 60 + m) * 60 + sec) * 1000000 + f, rest)"
proof -
  have "h < 10 ^ 2" "m < 10 ^ 2" "sec < 10 ^ 2" "\<not> 24 \<le> h" "\<not> 60 \<le> m" "\<not> 60 \<le> sec"
    using assms(1-3) by simp_all
  then show ?thesis by (simp add: parse_hms_def assms(4) del: power2_eq_square)
qed

lemma parse_hms_iso:
  assumes "u < 86400000000" "c = CHR ''+'' \<or> c = CHR ''Z''"
  shows "parse_hms (iso_time u @ c # rest) = Some (u, c # rest)"
proof -
  define s f where "s = u div 1000000" and "f = u mod 1000000"
  have h: "s div 3600 < 24" using assms(1) unfolding s_def by linarith
  have f: "f < 1000000" by (simp add: f_def)
  have u: "((s div 3600 * 60 + s div 60 mod 60) * 60 + s mod 60) * 1000000 + f = u"
  proof -
    have "s div 3600 = s div 60 div 60" by (simp add: div_mult2_eq [symmetric])
    then have "(s div 3600 * 60 + s div 60 mod 60) * 60 + s mod 60 = s"
      by simp
    then show ?thesis by (simp add: s_def f_def)
  qed
  have "s div 60 mod 60 < 60" "s mod 60 < 60" by simp_all
  note parts = parse_hms_parts [OF h this parse_frac_sign [OF f assms(2), of rest], unfolded u]
  have "iso_time u @ c # rest = digits_fixed 2 (s div 3600) @ CHR '':'' # digits_fixed 2 (s div 60 mod 60)
     @ CHR '':'' # digits_fixed 2 (s mod 60) @ (if f = 0 then [] else ''.'' @ digits_fixed 6 f) @ c # rest"
    unfolding iso_time_def Let_def s_def f_def by simp
  then show ?thesis by (simp only: parts)
qed

lemma nat_div_day: "valid_instant t \<Longrightarrow> nat (t div micros_per_day) < 3652059"
proof -
  assume t: "valid_instant t"
  have "t div 86400000000 * 86400000000 + t mod 86400000000 = t" "0 \<le> t mod 86400000000"
    by simp_all
  then have "t div 86400000000 < 3652059"
    using t unfolding valid_instant_def micros_per_day_def by linarith
  then show ?thesis by (simp add: micros_per_day_def nat_less_iff)
qed

lemma nat_mod_day: "nat (t mod micros_per_day) < 86400000000"
  by (simp add: micros_per_day_def nat_less_iff)

lemma day_split:
  "valid_instant t \<Longrightarrow>
   int (nat (t div micros_per_day)) * micros_per_day + int (nat (t mod micros_per_day)) = t"
  by (simp add: valid_instant_def micros_per_day_def pos_imp_zdiv_nonneg_iff)

theorem fromisoformat_isoformat: "valid_instant t \<Longrightarrow> fromisoformat (isoformat_utc t) = Some (Aware t)"
proof -
  assume t: "valid_instant t"
  have zero: "parse_hms ''00:00'' = Some (0, [])"
    by (simp add: parse_hms_def take_num_def take_char_def digit_val_def Let_def)
  show ?thesis
    using day_split [OF t] parse_date_iso [OF nat_div_day [OF t]]
      parse_hms_iso [OF nat_mod_day [of t], of "CHR ''+''" "''00:00''"] zero
    by (simp add: fromisoformat_def isoformat_utc_def iso_body_def)
qed

lemma no_plus_digits: "c \<notin> set (digits_fixed w n)" if "\<not> is_digit c"
  using is_digit_fixed that by blast

lemma iso_body_chars: "CHR ''+'' \<notin> set (iso_body t)" "CHR ''Z'' \<notin> set (iso_body t)"
  using no_plus_digits [OF not_digit_sign(1)] no_plus_digits [OF not_digit_sign(2)]
  by (auto simp: iso_body_def iso_date_def iso_time_def Let_def split: prod.splits)

lemma iso_z_eq: "iso_z t = iso_body t @ ''Z''"
  unfolding iso_z_def isoformat_utc_def
  by (rule py_replace_end) (use iso_body_chars in auto)

lemma iso_z_offset: "py_replace ''Z'' ''+00:00'' (iso_z t) = isoformat_utc t"
  unfolding iso_z_eq isoformat_utc_def by (rule py_replace_end) (use iso_body_chars in auto)

theorem fromisoformat_iso_z: "valid_instant t \<Longrightarrow> fromisoformat (iso_z t) = Some (Aware t)"
proof -
  assume t: "valid_instant t"
  show ?thesis
    using day_split [OF t] parse_date_iso [OF nat_div_day [OF t]]
      parse_hms_iso [OF nat_mod_day [of t], of "CHR ''Z''" "[]"]
    by (simp add: fromisoformat_def iso_z_eq iso_body_def)
qed

lemma whole_second_valid:
  assumes "valid_instant t"
  shows "valid_instant (whole_second t)" "whole_second t \<le> t"
proof -
  have "0 \<le> t mod 1000000" "t mod 1000000 \<le> t"
    using assms by (simp_all add: valid_instant_def zmod_le_nonneg_dividend)
  then show "valid_instant (whole_second t)" "whole_second t \<le> t"
    using assms unfolding valid_instant_def whole_second_def by linarith+
qed

end
