(* ===== verification/Json.thy ===== *)
theory Json
  imports Datetime
begin

text \<open>
  JSON documents as Python sees them after \<open>json.loads\<close>: \<open>None\<close>, booleans, integers,
  floats (exact rationals), strings, lists and dictionaries.  A dictionary is an
  association list in insertion order with distinct keys.  The functions below are the
  dictionary operations, truthiness and conversions the modules apply to \<open>Any\<close>-typed
  values, with the exceptions Python raises on a value of the wrong shape.
\<close>

datatype json =
    JNull
  | JBool bool
  | JInt int
  | JFloat rat
  | JStr string
  | JList "json list"
  | JObj "(string \<times> json) list"

type_synonym dict = "(string \<times> json) list"

section \<open>Dictionaries\<close>

text \<open>\<open>d.get(k)\<close> and \<open>d.get(k, default)\<close>; an absent key reads as \<open>None\<close> in the first.\<close>

definition dget :: "dict \<Rightarrow> string \<Rightarrow> json" where
  "dget d k = (case map_of d k of None \<Rightarrow> JNull | Some v \<Rightarrow> v)"

definition dget_or :: "dict \<Rightarrow> string \<Rightarrow> json \<Rightarrow> json" where
  "dget_or d k v = (case map_of d k of None \<Rightarrow> v | Some x \<Rightarrow> x)"

definition dhas :: "dict \<Rightarrow> string \<Rightarrow> bool" where
  "dhas d k = (map_of d k \<noteq> None)"

text \<open>\<open>d[k]\<close>, raising \<open>KeyError\<close>.\<close>

definition dindex :: "dict \<Rightarrow> string \<Rightarrow> json res" where
  "dindex d k = (case map_of d k of None \<Rightarrow> Inl (Raise KeyErr k) | Some v \<Rightarrow> Inr v)"

text \<open>\<open>d[k] = v\<close> keeps the position of an existing key; \<open>d.pop(k, None)\<close> removes it.\<close>

definition dset :: "string \<Rightarrow> json \<Rightarrow> dict \<Rightarrow> dict" where
  "dset k v d = AList.update k v d"

definition dpop :: "string \<Rightarrow> dict \<Rightarrow> dict" where
  "dpop k d = AList.delete k d"

text \<open>\<open>d.update(e)\<close>: the entries of \<open>e\<close> one after the other.\<close>

definition dupdate :: "dict \<Rightarrow> dict \<Rightarrow> dict" where
  "dupdate d e = fold (\<lambda>(k, v) acc. dset k v acc) e d"

lemma map_of_dset [simp]: "map_of (dset k v d) = (map_of d)(k \<mapsto> v)"
  by (simp add: dset_def map_of_update_conv)

lemma map_of_dpop [simp]: "map_of (dpop k d) = (map_of d)(k := None)"
  by (simp add: dpop_def map_of_delete_conv)

lemma dget_dset [simp]: "dget (dset k v d) j = (if j = k then v else dget d j)"
  by (simp add: dget_def)

lemma dget_dpop [simp]: "dget (dpop k d) j = (if j = k then JNull else dget d j)"
  by (simp add: dget_def)

lemma dget_Cons [simp]: "dget ((k, v) # d) j = (if j = k then v else dget d j)"
  by (simp add: dget_def)

lemma dget_Nil [simp]: "dget [] j = JNull"
  by (simp add: dget_def)

lemma dhas_dset [simp]: "dhas (dset k v d) j = (j = k \<or> dhas d j)"
  by (simp add: dhas_def)

lemma dhas_Cons [simp]: "dhas ((k, v) # d) j = (j = k \<or> dhas d j)"
  by (simp add: dhas_def)

lemma dhas_Nil [simp]: "dhas [] j = False"
  by (simp add: dhas_def)

lemma dupdate_Nil [simp]: "dupdate d [] = d"
  by (simp add: dupdate_def)

lemma dupdate_Cons [simp]: "dupdate d ((k, v) # e) = dupdate (dset k v d) e"
  by (simp add: dupdate_def)

lemma dupdate_fresh: "distinct (map fst (d @ e)) \<Longrightarrow> dupdate d e = d @ e"
proof (induction e arbitrary: d)
  case (Cons kv e)
  obtain k v where kv: "kv = (k, v)" by fastforce
  have "map_of d k = None" using Cons.prems by (auto simp: kv map_of_eq_None_iff)
  then have "dset k v d = d @ [(k, v)]" by (simp add: dset_def update_new)
  then show ?case using Cons.IH [of "d @ [(k, v)]"] Cons.prems by (simp add: kv)
qed simp

section \<open>Shapes, truth and equality\<close>

fun is_dict :: "json \<Rightarrow> bool" where
  "is_dict (JObj _) = True"
| "is_dict _ = False"

fun is_str :: "json \<Rightarrow> bool" where
  "is_str (JStr _) = True"
| "is_str _ = False"

text \<open>\<open>isinstance(x, int)\<close> holds of booleans too; \<open>type(x) is int\<close> does not.\<close>

fun is_int :: "json \<Rightarrow> bool" where
  "is_int (JInt _) = True"
| "is_int (JBool _) = True"
| "is_int _ = False"

fun is_exact_int :: "json \<Rightarrow> bool" where
  "is_exact_int (JInt _) = True"
| "is_exact_int _ = False"

fun int_value :: "json \<Rightarrow> int" where
  "int_value (JInt n) = n"
| "int_value (JBool b) = (if b then 1 else 0)"
| "int_value _ = 0"

fun truthy :: "json \<Rightarrow> bool" where
  "truthy JNull = False"
| "truthy (JBool b) = b"
| "truthy (JInt n) = (n \<noteq> 0)"
| "truthy (JFloat r) = (r \<noteq> 0)"
| "truthy (JStr s) = (s \<noteq> [])"
| "truthy (JList xs) = (xs \<noteq> [])"
| "truthy (JObj d) = (d \<noteq> [])"

fun num_of :: "json \<Rightarrow> rat option" where
  "num_of (JBool b) = Some (if b then 1 else 0)"
| "num_of (JInt n) = Some (of_int n)"
| "num_of (JFloat r) = Some r"
| "num_of _ = None"

text \<open>\<open>x == y\<close> where at least one side is a scalar: numbers compare by value.\<close>

definition py_eq :: "json \<Rightarrow> json \<Rightarrow> bool" where
  "py_eq x y = (case num_of x of None \<Rightarrow> x = y
     | Some a \<Rightarrow> (case num_of y of None \<Rightarrow> False | Some b \<Rightarrow> a = b))"

lemma py_eq_simps [simp]:
  "py_eq x (JStr s) = (x = JStr s)"
  "py_eq (JStr s) y = (y = JStr s)"
  "py_eq (JInt m) (JInt n) = (m = n)"
  "py_eq x JNull = (x = JNull)"
  by (cases x; auto simp: py_eq_def split: option.splits)+

section \<open>Conversions\<close>

text \<open>\<open>int(x)\<close>: floats truncate towards zero, strings parse, the rest is a \<open>TypeError\<close>.\<close>

definition trunc_rat :: "rat \<Rightarrow> int" where
  "trunc_rat r = (if r < 0 then - floor (- r) else floor r)"

fun py_int :: "json \<Rightarrow> int res" where
  "py_int (JInt n) = Inr n"
| "py_int (JBool b) = Inr (if b then 1 else 0)"
| "py_int (JFloat r) = Inr (trunc_rat r)"
| "py_int (JStr s) = (case int_of_string s of None \<Rightarrow> Inl (Raise ValueErr ''invalid literal for int()'')
     | Some n \<Rightarrow> Inr n)"
| "py_int _ = Inl (Raise TypeErr ''int() argument'')"

text \<open>
  \<open>float(x)\<close>: numbers by value; the value of a decimal text is the parameter \<open>ftext\<close>, Python's
  parser of float literals, whose results \<open>nan\<close> and \<open>inf\<close> no document of the program holds.
\<close>

fun py_float :: "(string \<Rightarrow> rat res) \<Rightarrow> json \<Rightarrow> rat res" where
  "py_float ftext (JFloat r) = Inr r"
| "py_float ftext (JInt n) = Inr (of_int n)"
| "py_float ftext (JBool b) = Inr (if b then 1 else 0)"
| "py_float ftext (JStr s) = ftext s"
| "py_float ftext _ = Inl (Raise TypeErr ''float() argument'')"

text \<open>
  \<open>str(x)\<close>.  The text of a float, a list or a dictionary is Python's \<open>repr\<close>, which the
  parameter \<open>repr\<close> supplies; the documents the program writes hold strings there.
\<close>

fun py_str :: "(json \<Rightarrow> string) \<Rightarrow> json \<Rightarrow> string" where
  "py_str repr (JStr s) = s"
| "py_str repr (JInt n) = int_str n"
| "py_str repr (JBool b) = (if b then ''True'' else ''False'')"
| "py_str repr JNull = ''None''"
| "py_str repr x = repr x"

text \<open>\<open>str(d[k]) if d.get(k) else None\<close>, the idiom for optional string fields.\<close>

definition opt_str_field :: "(json \<Rightarrow> string) \<Rightarrow> dict \<Rightarrow> string \<Rightarrow> string option" where
  "opt_str_field repr d k = (if truthy (dget d k) then Some (py_str repr (dget d k)) else None)"

definition json_of_opt_str :: "string option \<Rightarrow> json" where
  "json_of_opt_str s = (case s of None \<Rightarrow> JNull | Some x \<Rightarrow> JStr x)"

definition json_of_opt_int :: "int option \<Rightarrow> json" where
  "json_of_opt_int s = (case s of None \<Rightarrow> JNull | Some x \<Rightarrow> JInt x)"

lemma json_of_opt_str_simps [simp]:
  "json_of_opt_str None = JNull" "json_of_opt_str (Some s) = JStr s"
  "json_of_opt_str o1 = JNull \<longleftrightarrow> o1 = None" "json_of_opt_str o1 = JStr x \<longleftrightarrow> o1 = Some x"
  by (auto simp: json_of_opt_str_def split: option.splits)

text \<open>\<open>d.get(k, [])\<close> iterated: a list's elements; iterating a number or \<open>None\<close> is a \<open>TypeError\<close>.\<close>

definition iter_field :: "dict \<Rightarrow> string \<Rightarrow> json list res" where
  "iter_field d k = (case dget_or d k (JList []) of JList xs \<Rightarrow> Inr xs
     | JStr s \<Rightarrow> Inr (map (\<lambda>c. JStr [c]) s)
     | JObj e \<Rightarrow> Inr (map (\<lambda>kv. JStr (fst kv)) e)
     | _ \<Rightarrow> Inl (Raise TypeErr ''object is not iterable''))"

text \<open>\<open>x[k]\<close> with a string key needs a dictionary (\<open>TypeError\<close>), \<open>x.get\<close> too (\<open>AttributeError\<close>).\<close>

definition as_dict :: "json \<Rightarrow> dict res" where
  "as_dict x = (case x of JObj d \<Rightarrow> Inr d | _ \<Rightarrow> Inl (Raise TypeErr ''not subscriptable by a string''))"

definition attr_dict :: "json \<Rightarrow> dict res" where
  "attr_dict x = (case x of JObj d \<Rightarrow> Inr d | _ \<Rightarrow> Inl (Raise AttributeErr ''get''))"

lemma as_dict_simps [simp]: "as_dict (JObj d) = Inr d" "attr_dict (JObj d) = Inr d"
  by (simp_all add: as_dict_def attr_dict_def)

section \<open>Codecs\<close>

text \<open>
  The interface of a \<open>to_dict\<close>/\<open>from_dict\<close> pair: reading back what was written gives the
  value, for the values the writer's type allows.
\<close>

locale codec =
  fixes to_dict :: "'a \<Rightarrow> json"
    and from_dict :: "json \<Rightarrow> 'a res"
    and wf :: "'a \<Rightarrow> bool"
  assumes decode_encode: "wf x \<Longrightarrow> from_dict (to_dict x) = Inr x"
begin

lemma decode_list: "(\<And>x. x \<in> set xs \<Longrightarrow> wf x) \<Longrightarrow> map_res from_dict (map to_dict xs) = Inr xs"
  by (induction xs) (auto simp: decode_encode)

lemma encode_inj: "wf x \<Longrightarrow> wf y \<Longrightarrow> to_dict x = to_dict y \<Longrightarrow> x = y"
  by (metis decode_encode sum.inject(2))

lemma encode_list_inj:
  "(\<And>x. x \<in> set xs \<union> set ys \<Longrightarrow> wf x) \<Longrightarrow> map to_dict xs = map to_dict ys \<Longrightarrow> xs = ys"
  by (metis UnCI decode_list sum.inject(2))

end

section \<open>Timestamps\<close>

text \<open>
  The interface of a timestamp field: a printed instant reads back as itself.  \<open>read\<close> takes the
  JSON value of the field, so a value of another shape is one of its errors.
\<close>

locale instant_notation =
  fixes print :: "int \<Rightarrow> string"
    and read :: "json \<Rightarrow> int res"
  assumes read_print: "valid_instant t \<Longrightarrow> read (JStr (print t)) = Inr t"
begin

lemma print_inj: "valid_instant t \<Longrightarrow> valid_instant u \<Longrightarrow> print t = print u \<Longrightarrow> t = u"
  by (metis read_print sum.inject(2))

text \<open>An optional timestamp field, \<open>None\<close> or a printed instant.\<close>

lemma read_optional:
  "(\<And>t. x = Some t \<Longrightarrow> valid_instant t) \<Longrightarrow>
   (case x of None \<Rightarrow> Inr None | Some t \<Rightarrow> and_then (read (JStr (print t))) (\<lambda>t. Inr (Some t))) = Inr x"
  by (cases x) (auto simp: read_print)

end

end
