(* ===== verification/BlobStore.thy ===== *)
theory BlobStore
  imports Json
begin

text \<open>
  Durable blobs and the storage backend's \<open>update_bytes\<close> (\<open>podcaster/storage.py\<close>).  A blob
  is what reading it gives: the empty byte string, bytes that \<open>json.loads\<close> rejects, or a
  document.  \<open>update_bytes(path, type, f)\<close> applies a callback to the current content and
  writes its result.  Callbacks also fill variables of the enclosing function (\<open>captured\<close>,
  \<open>decision_holder\<close>), so a callback here takes and returns that captured state.  The local
  backend runs the callback once under a file lock; the Azure backend reads content and
  ETag, runs the callback, writes conditionally, and runs it again after a conflict.
\<close>

datatype blob = Empty | Corrupt | Doc json

type_synonym store = "string \<Rightarrow> blob option"

type_synonym 'c callback = "'c \<Rightarrow> blob option \<Rightarrow> 'c \<times> blob res"

text \<open>\<open>json.loads(raw.decode("utf-8"))\<close>; \<open>None\<close> is the \<open>ValueError\<close> it raises.\<close>

fun loads :: "blob \<Rightarrow> json option" where
  "loads (Doc j) = Some j"
| "loads _ = None"

section \<open>The local backend\<close>

definition local_update :: "'c callback \<Rightarrow> 'c \<Rightarrow> store \<Rightarrow> string \<Rightarrow> unit res \<times> 'c \<times> store" where
  "local_update f c st p =
     (case f c (st p) of
        (c', Inl e) \<Rightarrow> (Inl e, c', st)
      | (c', Inr b) \<Rightarrow> (Inr (), c', st(p \<mapsto> b)))"

text \<open>A storage fault before anything was written, or after the write landed.\<close>

datatype fault = NoFault | FailBefore exn | FailAfter exn

definition faulty_update ::
  "fault \<Rightarrow> 'c callback \<Rightarrow> 'c \<Rightarrow> store \<Rightarrow> string \<Rightarrow> unit res \<times> 'c \<times> store" where
  "faulty_update flt f c st p =
     (case flt of
        NoFault \<Rightarrow> local_update f c st p
      | FailBefore e \<Rightarrow> (Inl e, c, st)
      | FailAfter e \<Rightarrow>
          (case local_update f c st p of
             (Inl e', c', st') \<Rightarrow> (Inl e', c', st')
           | (Inr _, c', st') \<Rightarrow> (Inl e, c', st')))"

section \<open>The interface the clients rely on\<close>

locale atomic_store =
  fixes update :: "'c callback \<Rightarrow> 'c \<Rightarrow> 's \<Rightarrow> string \<Rightarrow> unit res \<times> 'c \<times> 's"
    and get :: "'s \<Rightarrow> string \<Rightarrow> blob option"
  assumes update_written: "f c (get s p) = (c', Inr b) \<Longrightarrow>
      \<exists>s'. update f c s p = (Inr (), c', s') \<and> get s' = (get s)(p \<mapsto> b)"
    and update_aborted: "f c (get s p) = (c', Inl e) \<Longrightarrow> update f c s p = (Inl e, c', s)"
begin

lemma update_frame: "update f c s p = (r, c', s') \<Longrightarrow> q \<noteq> p \<Longrightarrow> get s' q = get s q"
  by (cases "f c (get s p)"; cases "snd (f c (get s p))")
    (auto dest: update_written update_aborted)

text \<open>An abort leaves the store as it was: the callback raised and nothing was written.\<close>

lemma update_error_unchanged: "update f c s p = (Inl e, c', s') \<Longrightarrow> s' = s"
  by (cases "f c (get s p)"; cases "snd (f c (get s p))")
    (auto dest: update_written update_aborted)

text \<open>A property of one blob that every successful callback keeps is kept by the update.\<close>

lemma update_keeps:
  assumes "I (get s p)" "\<And>c' b. f c (get s p) = (c', Inr b) \<Longrightarrow> I (Some b)"
    and "update f c s p = (r, c', s')"
  shows "I (get s' p)"
proof (cases "f c (get s p)")
  case (Pair c1 r1)
  then show ?thesis
    using assms update_written [of f c s p c1] update_aborted [of f c s p c1]
    by (cases r1) auto
qed

end

interpretation local_store: atomic_store local_update "\<lambda>st p. st p"
  by unfold_locales (auto simp: local_update_def)

lemmas local_update_frame = local_store.update_frame
  and local_update_error = local_store.update_error_unchanged
  and local_update_keeps = local_store.update_keeps

text \<open>A fault never writes anything the callback did not return.\<close>

lemma faulty_update_store:
  "faulty_update flt f c st p = (r, c', st') \<Longrightarrow>
   st' = st \<or> (\<exists>c1 b. f c (st p) = (c1, Inr b) \<and> st' = st(p \<mapsto> b))"
  by (auto simp: faulty_update_def local_update_def split: fault.splits prod.splits sum.splits)

section \<open>The Azure backend\<close>

text \<open>
  One blob with its ETag; every write gives a new one, so the ETag is a counter.  What
  happens between the read and the conditional write of one attempt is the environment:
  other writers may act, and a request may fail.
\<close>

record cell =
  cl_content :: "blob option"
  cl_version :: nat

definition etag :: "cell \<Rightarrow> nat option" where
  "etag s = (if cl_content s = None then None else Some (cl_version s))"

definition write_cell :: "blob \<Rightarrow> cell \<Rightarrow> cell" where
  "write_cell b s = s\<lparr>cl_content := Some b, cl_version := Suc (cl_version s)\<rparr>"

datatype attempt =
    Turn "cell \<Rightarrow> cell"
  | ReadFault exn
  | PutFault "cell \<Rightarrow> cell" exn bool

definition conflict_exn :: exn where
  "conflict_exn = Raise RuntimeErr ''concurrent updates did not settle''"

text \<open>
  The loop of \<open>update_bytes\<close> with the attempts left and what the environment does in each:
  \<open>If-Match\<close> on the ETag read, \<open>If-None-Match: *\<close> where the blob was absent.
\<close>

fun azure_loop :: "nat \<Rightarrow> (nat \<Rightarrow> attempt) \<Rightarrow> 'c callback \<Rightarrow> 'c \<Rightarrow> cell \<Rightarrow> unit res \<times> 'c \<times> cell" where
  "azure_loop 0 env f c s = (Inl conflict_exn, c, s)"
| "azure_loop (Suc n) env f c s =
     (case env n of
        ReadFault e \<Rightarrow> (Inl e, c, s)
      | Turn others \<Rightarrow>
          (case f c (cl_content s) of
             (c', Inl e) \<Rightarrow> (Inl e, c', s)
           | (c', Inr b) \<Rightarrow>
               (let s' = others s
                in if etag s' = etag s then (Inr (), c', write_cell b s')
                   else azure_loop n env f c' s'))
      | PutFault others e landed \<Rightarrow>
          (case f c (cl_content s) of
             (c', Inl e') \<Rightarrow> (Inl e', c', s)
           | (c', Inr b) \<Rightarrow>
               (let s' = others s
                in (Inl e, c', if landed \<and> etag s' = etag s then write_cell b s' else s'))))"

definition azure_update :: "(nat \<Rightarrow> attempt) \<Rightarrow> 'c callback \<Rightarrow> 'c \<Rightarrow> cell \<Rightarrow> unit res \<times> 'c \<times> cell" where
  "azure_update env f c s = azure_loop 5 env f c s"

text \<open>What other writers may do: leave the blob alone or give it a new ETag.\<close>

definition honest :: "(cell \<Rightarrow> cell) \<Rightarrow> bool" where
  "honest others \<longleftrightarrow> (\<forall>s. others s = s \<or> cl_version s < cl_version (others s))"

definition honest_env :: "(nat \<Rightarrow> attempt) \<Rightarrow> bool" where
  "honest_env env \<longleftrightarrow> (\<forall>n. case env n of Turn others \<Rightarrow> honest others
     | PutFault others _ _ \<Rightarrow> honest others | ReadFault _ \<Rightarrow> True)"

text \<open>An unchanged ETag means unchanged content.\<close>

lemma honest_etag: "honest others \<Longrightarrow> etag (others s) = etag s \<Longrightarrow> cl_content (others s) = cl_content s"
  unfolding honest_def etag_def by (metis less_irrefl_nat option.distinct(1) option.inject)

text \<open>
  A callback is \<^emph>\<open>resettable\<close> when its outcome does not depend on what an earlier, lost
  attempt captured, and a successful run overwrites what was captured.  For such callbacks the loop is one atomic update, at the moment of
  the write, of a content the blob had then.
\<close>

definition resettable :: "'c callback \<Rightarrow> bool" where
  "resettable f \<longleftrightarrow> (\<forall>c c' b. snd (f c b) = snd (f c' b) \<and> (\<forall>x. snd (f c b) = Inr x \<longrightarrow> f c b = f c' b))"

text \<open>The contents the other writers can leave between the attempts.\<close>

fun env_reaches :: "nat \<Rightarrow> (nat \<Rightarrow> attempt) \<Rightarrow> cell \<Rightarrow> cell set" where
  "env_reaches 0 env s = {s}"
| "env_reaches (Suc n) env s = insert s
     (case env n of Turn others \<Rightarrow> env_reaches n env (others s)
      | PutFault others _ _ \<Rightarrow> {others s} | ReadFault _ \<Rightarrow> {})"

lemma env_reaches_self: "s \<in> env_reaches n env s"
  by (cases n) simp_all

lemma azure_loop_linear:
  assumes "honest_env env" "resettable f" "azure_loop n env f c s = (Inr (), c', s')"
  shows "\<exists>s0 b. s0 \<in> env_reaches n env s \<and> f c0 (cl_content s0) = (c', Inr b) \<and> s' = write_cell b s0"
  using assms(3)
proof (induction n arbitrary: c s)
  case 0
  then show ?case by simp
next
  case (Suc n)
  show ?case
  proof (cases "env n")
    case (Turn others)
    then have h: "honest others" using assms(1) by (auto simp: honest_env_def dest: spec [of _ n])
    obtain c1 r where f: "f c (cl_content s) = (c1, r)" by (cases "f c (cl_content s)")
    with Suc.prems Turn obtain b where r: "r = Inr b"
      by (cases r) auto
    show ?thesis
    proof (cases "etag (others s) = etag s")
      case True
      then have "cl_content (others s) = cl_content s" by (rule honest_etag [OF h])
      moreover have "f c0 (cl_content s) = (c1, Inr b)"
        using assms(2) f r unfolding resettable_def by (metis snd_conv)
      ultimately have "f c0 (cl_content (others s)) = (c1, Inr b)"
        by simp
      then show ?thesis
        using Suc.prems Turn f r True by (auto intro!: exI [of _ "others s"] simp: env_reaches_self)
    next
      case False
      then have "azure_loop n env f c1 (others s) = (Inr (), c', s')"
        using Suc.prems Turn f r by simp
      from Suc.IH [OF this] show ?thesis using Turn by auto
    qed
  qed (use Suc.prems in \<open>auto split: prod.splits sum.splits simp: Let_def\<close>)
qed

text \<open>With nobody else writing, the first attempt succeeds.\<close>

lemma azure_update_alone:
  assumes "env 4 = Turn (\<lambda>s. s)"
  shows "azure_update env f c s =
    (case f c (cl_content s) of (c', Inl e) \<Rightarrow> (Inl e, c', s)
     | (c', Inr b) \<Rightarrow> (Inr (), c', write_cell b s))"
  using assms by (simp add: azure_update_def eval_nat_numeral split: prod.splits sum.splits)

text \<open>The only effect of a failed update on the blob is the environment's or a landed write.\<close>

lemma azure_loop_error:
  assumes "azure_loop n env f c s = (Inl e, c', s')"
    and "\<And>k others x landed. env k = PutFault others x landed \<Longrightarrow> \<not> landed"
  shows "s' \<in> env_reaches n env s"
  using assms(1)
proof (induction n arbitrary: c s)
  case 0
  then show ?case by simp
next
  case (Suc n)
  then show ?case
    using assms(2) by (cases "env n") (auto split: prod.splits sum.splits if_splits simp: Let_def)
qed

text \<open>The write of one attempt: the callback ran, with what earlier attempts captured, on the content at the write.\<close>

definition captures :: "'c callback \<Rightarrow> 'c \<Rightarrow> 'c \<Rightarrow> bool" where
  "captures f = (\<lambda>c c'. \<exists>x b. f c x = (c', Inr b))\<^sup>*\<^sup>*"

definition one_write :: "nat \<Rightarrow> (nat \<Rightarrow> attempt) \<Rightarrow> 'c callback \<Rightarrow> 'c \<Rightarrow> cell \<Rightarrow> 'c \<Rightarrow> cell \<Rightarrow> bool" where
  "one_write n env f c s c' s' \<longleftrightarrow>
     (\<exists>s0 b c0. s0 \<in> env_reaches n env s \<and> captures f c c0 \<and> f c0 (cl_content s0) = (c', Inr b) \<and> s' = write_cell b s0)"

lemma one_write_later:
  assumes "env n = Turn others" "f c x = (c1, Inr b)" "one_write n env f c1 (others s) c' s'"
  shows "one_write (Suc n) env f c s c' s'"
proof -
  have "captures f c c0" if "captures f c1 c0" for c0
    using that assms(2) unfolding captures_def by (metis (mono_tags, lifting) converse_rtranclp_into_rtranclp)
  then show ?thesis using assms(1,3) unfolding one_write_def by auto
qed

lemma one_write_now:
  assumes "honest others" "s1 = others s" "s1 \<in> env_reaches n env s" "f c (cl_content s) = (c1, Inr b)" "etag s1 = etag s"
  shows "one_write n env f c s c1 (write_cell b s1)"
proof -
  have "f c (cl_content s1) = (c1, Inr b)" using honest_etag [OF assms(1)] assms(2,4,5) by simp
  then show ?thesis
    unfolding one_write_def captures_def using assms(3)
    by (intro exI [of _ s1] exI [of _ b] exI [of _ c] conjI) simp_all
qed

lemma azure_loop_outcome:
  assumes "honest_env env" "azure_loop n env f c s = (r, c', s')"
  shows "case r of
      Inr _ \<Rightarrow> one_write n env f c s c' s'
    | Inl e \<Rightarrow> s' \<in> env_reaches n env s \<or> (\<exists>k others. env k = PutFault others e True) \<and> one_write n env f c s c' s'"
  using assms(2)
proof (induction n arbitrary: c s)
  case (Suc n)
  show ?case
  proof (cases "env n")
    case (Turn others)
    have h: "honest others" using assms(1) Turn by (auto simp: honest_env_def dest: spec [of _ n])
    obtain c1 x where f: "f c (cl_content s) = (c1, x)" by fastforce
    show ?thesis
    proof (cases x)
      case (Inl e)
      then show ?thesis using Suc.prems Turn f by auto
    next
      case (Inr b)
      show ?thesis
      proof (cases "etag (others s) = etag s")
        case True
        have "others s \<in> env_reaches (Suc n) env s" using Turn by (simp add: env_reaches_self)
        from one_write_now [where f = f, OF h refl this f [unfolded Inr] True] show ?thesis
          using Suc.prems Turn f Inr True by auto
      next
        case False
        then have "azure_loop n env f c1 (others s) = (r, c', s')" using Suc.prems Turn f Inr by simp
        note rest = Suc.IH [OF this]
        have later: "one_write (Suc n) env f c s c' s'" if "one_write n env f c1 (others s) c' s'"
          using one_write_later [where env = env and n = n and f = f and x = "cl_content s", OF Turn] f Inr that by blast
        show ?thesis using rest Turn later by (cases r) auto
      qed
    qed
  next
    case (PutFault others e landed)
    have h: "honest others" using assms(1) PutFault by (auto simp: honest_env_def dest: spec [of _ n])
    obtain c1 x where f: "f c (cl_content s) = (c1, x)" by fastforce
    have there: "others s \<in> env_reaches (Suc n) env s" using PutFault by simp
    have now: "one_write (Suc n) env f c s c1 (write_cell b (others s))" if "x = Inr b" "etag (others s) = etag s" for b
      using one_write_now [where f = f, OF h refl there f [unfolded that(1)] that(2)] .
    show ?thesis
      using Suc.prems PutFault f now by (cases x) (auto simp: Let_def split: if_splits)
  qed (use Suc.prems in auto)
qed auto

text \<open>Claim C23: conditional updates are atomic.  Whatever a callback captures, whatever other writers do between the
  requests of the at most five attempts -- as long as every write gives the blob a new ETag -- and whatever
  request fails: a successful \<open>update_bytes\<close> on the Azure backend is one write, of a result that the callback
  computed from the content the blob had at the moment of the write, with the captured state that it leaves.  A failed
  one leaves the blob as the other writers left it, unless the very request that failed had landed; then it is that
  one write.  (The captured state may come from attempts that were lost, which is what callbacks that are not
  resettable get wrong.)\<close>

theorem azure_update_atomic:
  assumes "honest_env env" and "azure_update env f c s = (r, c', s')"
  shows "case r of
      Inr _ \<Rightarrow> one_write 5 env f c s c' s'
    | Inl e \<Rightarrow> s' \<in> env_reaches 5 env s \<or> (\<exists>k others. env k = PutFault others e True) \<and> one_write 5 env f c s c' s'"
  using azure_loop_outcome [OF assms(1), of 5 f c s r c' s'] assms(2)
  by (cases r) (auto simp: azure_update_def)

definition count_up :: "unit callback" where
  "count_up c b = (c, Inr (case b of Some (Doc (JInt n)) \<Rightarrow> Doc (JInt (n + 1)) | _ \<Rightarrow> Doc (JInt 0)))"

definition rival_once :: "nat \<Rightarrow> attempt" where
  "rival_once n = (if n = 4 then Turn (write_cell (Doc (JInt 7))) else Turn (\<lambda>s. s))"

theorem azure_update_atomic_witness:
  "azure_update rival_once count_up () \<lparr>cl_content = None, cl_version = 0\<rparr>
      = (Inr (), (), \<lparr>cl_content = Some (Doc (JInt 8)), cl_version = 2\<rparr>)
    \<and> one_write 5 rival_once count_up () \<lparr>cl_content = None, cl_version = 0\<rparr> () \<lparr>cl_content = Some (Doc (JInt 8)), cl_version = 2\<rparr>"
proof -
  have run: "azure_update rival_once count_up () \<lparr>cl_content = None, cl_version = 0\<rparr>
      = (Inr (), (), \<lparr>cl_content = Some (Doc (JInt 8)), cl_version = 2\<rparr>)"
    by (simp add: azure_update_def eval_nat_numeral rival_once_def count_up_def etag_def write_cell_def)
  have env: "honest_env rival_once"
    by (auto simp: honest_env_def honest_def rival_once_def write_cell_def)
  show ?thesis using run azure_update_atomic [OF env run] by simp
qed

end
