(* ===== verification/Retry.thy ===== *)
theory Retry
  imports BlobStore
begin

text \<open>
  \<open>podcaster/retry.py\<close>: bounded retries with exponential backoff.  A task is a function of
  the world that returns the next world and a value or an exception.  The result also
  carries the delays that were slept, in order, and the number of calls of the task.
\<close>

section \<open>Environment integers\<close>

text \<open>\<open>_env_int\<close>: an unset, blank or unparsable variable gives the default.\<close>

definition env_int :: "(string \<Rightarrow> string option) \<Rightarrow> string \<Rightarrow> int \<Rightarrow> int" where
  "env_int env name dflt =
     (case env name of None \<Rightarrow> dflt
      | Some raw \<Rightarrow>
          if py_strip raw = [] then dflt
          else (case int_of_string raw of None \<Rightarrow> dflt | Some n \<Rightarrow> n))"

definition default_task_retries :: "(string \<Rightarrow> string option) \<Rightarrow> int" where
  "default_task_retries env = max 1 (env_int env ''PODCASTER_TASK_RETRIES'' 3)"

section \<open>The retry loop\<close>

record retry_policy =
  rp_attempts :: int
  rp_base_delay :: rat
  rp_backoff :: rat
  rp_max_delay :: rat
  rp_jitter :: rat
  rp_retry_on :: "exn_class list"
  rp_give_up_on :: "exn_class list"

definition default_policy :: "int \<Rightarrow> retry_policy" where
  "default_policy n = \<lparr>rp_attempts = n, rp_base_delay = 1 / 2, rp_backoff = 2, rp_max_delay = 30,
     rp_jitter = 1 / 10, rp_retry_on = [PyException], rp_give_up_on = []\<rparr>"

text \<open>\<open>except C1, C2\<close> catches an exception of any listed class or a subclass of one.\<close>

definition caught_by :: "exn \<Rightarrow> exn_class list \<Rightarrow> bool" where
  "caught_by e cs = list_ex (exn_is (exn_class_of e)) cs"

text \<open>
  The \<open>except\<close> clauses in order: \<open>give_up_on\<close>, then interrupts, then \<open>retry_on\<close>; only an
  exception that reaches the last one is retried.
\<close>

definition retried :: "retry_policy \<Rightarrow> exn \<Rightarrow> bool" where
  "retried p e =
     (if caught_by e (rp_give_up_on p) then False
      else if caught_by e [KeyboardInterruptExc, SystemExitExc] then False
      else caught_by e (rp_retry_on p))"

text \<open>
  The delay after failed attempt \<open>k\<close> (from 1), with \<open>u\<close> the uniform draw in [0, 1] behind
  \<open>random.uniform\<close>: capped, jittered, capped again.
\<close>

definition retry_delay :: "retry_policy \<Rightarrow> rat \<Rightarrow> nat \<Rightarrow> rat" where
  "retry_delay p u k =
     (let j = max 0 (rp_jitter p);
          d = min (rp_max_delay p) (rp_base_delay p * rp_backoff p ^ (k - 1))
      in if j = 0 then d else min (rp_max_delay p) (d + u * (j * d)))"

text \<open>
  The loop body for attempt \<open>k\<close> with \<open>r\<close> attempts left after it.  \<open>on_retry\<close> may raise,
  which ends the loop with its exception.
\<close>

fun retry_from :: "retry_policy \<Rightarrow> ('w \<Rightarrow> 'w \<times> 'a res) \<Rightarrow> (nat \<Rightarrow> exn \<Rightarrow> 'w \<Rightarrow> 'w \<times> unit res)
    \<Rightarrow> (rat \<Rightarrow> 'w \<Rightarrow> 'w) \<Rightarrow> (nat \<Rightarrow> rat) \<Rightarrow> nat \<Rightarrow> nat \<Rightarrow> 'w \<Rightarrow> 'w \<times> 'a res \<times> rat list \<times> nat" where
  "retry_from p fn on_retry sleep rnd 0 k w =
     (case fn w of (w1, r) \<Rightarrow> (w1, r, [], 1))"
| "retry_from p fn on_retry sleep rnd (Suc r) k w =
     (case fn w of
        (w1, Inr x) \<Rightarrow> (w1, Inr x, [], 1)
      | (w1, Inl e) \<Rightarrow>
          if \<not> retried p e then (w1, Inl e, [], 1)
          else
            (let d = retry_delay p (rnd k) k
             in case on_retry k e w1 of
                  (w2, Inl e') \<Rightarrow> (w2, Inl e', [], 1)
                | (w2, Inr _) \<Rightarrow>
                    (case retry_from p fn on_retry sleep rnd r (Suc k) (sleep d w2) of
                       (w3, res, ds, n) \<Rightarrow> (w3, res, d # ds, Suc n))))"

definition retry_call :: "retry_policy \<Rightarrow> ('w \<Rightarrow> 'w \<times> 'a res) \<Rightarrow> (nat \<Rightarrow> exn \<Rightarrow> 'w \<Rightarrow> 'w \<times> unit res)
    \<Rightarrow> (rat \<Rightarrow> 'w \<Rightarrow> 'w) \<Rightarrow> (nat \<Rightarrow> rat) \<Rightarrow> 'w \<Rightarrow> 'w \<times> 'a res \<times> rat list \<times> nat" where
  "retry_call p fn on_retry sleep rnd w =
     retry_from p fn on_retry sleep rnd (nat (max 1 (rp_attempts p)) - 1) 1 w"

section \<open>Bounds\<close>

lemma retry_delay_le: "retry_delay p u k \<le> rp_max_delay p"
  by (simp add: retry_delay_def Let_def)

lemma retry_delay_nonneg:
  assumes "0 \<le> rp_max_delay p" "0 \<le> rp_base_delay p" "0 \<le> rp_backoff p" "0 \<le> u"
  shows "0 \<le> retry_delay p u k"
  using assms by (auto simp: retry_delay_def Let_def intro!: add_nonneg_nonneg mult_nonneg_nonneg)

lemma retry_from_bounds:
  "retry_from p fn onr sl rnd r k w = (w', res, ds, n) \<Longrightarrow>
   n \<le> Suc r \<and> length ds \<le> n \<and> n \<le> Suc (length ds) \<and> list_all (\<lambda>d. d \<le> rp_max_delay p) ds"
  by (induction r arbitrary: k w w' res ds n)
    (fastforce split: prod.splits sum.splits if_splits simp: Let_def retry_delay_le)+

lemma retry_from_calls: "retry_from p fn onr sl rnd r k w = (w', res, ds, n) \<Longrightarrow> 1 \<le> n"
  by (cases r) (auto split: prod.splits sum.splits if_splits simp: Let_def)

text \<open>A task with a given list of outcomes, one per call.\<close>

definition scripted :: "'a res list \<Rightarrow> 'a res list \<times> 'a res" where
  "scripted os = (tl os, hd os)"

lemma scripted_Cons [simp]: "scripted (x # xs) = (xs, x)"
  by (simp add: scripted_def)

lemma retry_from_decisive:
  assumes "list_all (retried p) fails" "length fails \<le> r"
    and "\<And>e. x = Inl e \<Longrightarrow> \<not> retried p e"
  shows "retry_from p scripted (\<lambda>_ _ w. (w, Inr ())) (\<lambda>_ w. w) rnd r k (map Inl fails @ x # rest) =
    (rest, x, map (\<lambda>i. retry_delay p (rnd (k + i)) (k + i)) [0..<length fails], Suc (length fails))"
  using assms(1,2)
proof (induction fails arbitrary: r k)
  case Nil
  then show ?case using assms(3) by (cases r; cases x) auto
next
  case (Cons e es)
  then obtain r' where r: "r = Suc r'" by (cases r) auto
  show ?case
    using Cons r by (simp add: Let_def map_upt_Suc del: upt_Suc)
qed

lemma retry_from_exhausted:
  assumes "list_all (retried p) fails" "length fails = Suc r"
  shows "retry_from p scripted (\<lambda>_ _ w. (w, Inr ())) (\<lambda>_ w. w) rnd r k (map Inl fails @ rest) =
    (rest, Inl (last fails), map (\<lambda>i. retry_delay p (rnd (k + i)) (k + i)) [0..<length fails - 1], length fails)"
  using assms
proof (induction r arbitrary: fails k)
  case 0
  then show ?case by (cases fails) auto
next
  case (Suc r)
  then obtain e es where f: "fails = e # es" "length es = Suc r"
    by (cases fails) auto
  then have "es \<noteq> []" by auto
  with f show ?case
    using Suc by (simp add: Let_def map_upt_Suc del: upt_Suc)
qed

text \<open>Bounded attempts and bounded backoff.  However the task, the callback, the
  sleep and the random draws behave, \<open>retry_call\<close> calls the task at least once and at most
  \<open>max(1, attempts)\<close> times, sleeps between two calls only, and never sleeps longer than
  \<open>max_delay\<close>.\<close>

theorem retry_call_bounded:
  assumes "retry_call p fn on_retry sleep rnd w = (w', res, ds, n)"
  shows "1 \<le> n \<and> n \<le> nat (max 1 (rp_attempts p)) \<and> length ds \<le> n \<and> n \<le> Suc (length ds)
    \<and> list_all (\<lambda>d. d \<le> rp_max_delay p) ds"
proof -
  have "Suc (nat (max 1 (rp_attempts p)) - 1) = nat (max 1 (rp_attempts p))" by simp
  then show ?thesis
    using retry_from_bounds [OF assms [unfolded retry_call_def]]
      retry_from_calls [OF assms [unfolded retry_call_def]] by simp
qed

theorem retry_call_bounded_witness:
  "1 \<le> (2::nat) \<and> (2::nat) \<le> nat (max 1 (rp_attempts (default_policy 3))) \<and> length [retry_delay (default_policy 3) 0 1] \<le> 2
    \<and> 2 \<le> Suc (length [retry_delay (default_policy 3) 0 1])
    \<and> list_all (\<lambda>d. d \<le> rp_max_delay (default_policy 3)) [retry_delay (default_policy 3) 0 1]"
  by (rule retry_call_bounded [where fn = scripted and on_retry = "\<lambda>_ _ w. (w, Inr ())"
        and sleep = "\<lambda>_ w. w" and rnd = "\<lambda>_. 0" and w = "[Inl (Raise OSErr ''reset''), Inr (7::int)]"
        and w' = "[]" and res = "Inr 7"])
    (simp add: retry_call_def default_policy_def scripted_def retried_def caught_by_def exn_is_def eval_nat_numeral)

section \<open>Which outcome is returned\<close>

text \<open>\<open>retry_call\<close> is the first decisive outcome.  When the task fails
  retryably a number of times below the limit and then returns a value or raises something
  that is not to be retried (a \<open>give_up_on\<close> class, an interrupt, or a class outside
  \<open>retry_on\<close>), that outcome is the result, after one sleep per failure.\<close>

theorem retry_call_first_decisive:
  assumes "list_all (retried p) fails" "int (length fails) < max 1 (rp_attempts p)"
    and "\<And>e. r = Inl e \<Longrightarrow> \<not> retried p e"
  shows "retry_call p scripted (\<lambda>_ _ w. (w, Inr ())) (\<lambda>_ w. w) rnd (map Inl fails @ r # rest) =
    (rest, r, map (\<lambda>i. retry_delay p (rnd (Suc i)) (Suc i)) [0..<length fails], Suc (length fails))"
proof -
  have "length fails \<le> nat (max 1 (rp_attempts p)) - 1"
    using assms(2) by linarith
  then show ?thesis
    using retry_from_decisive [OF assms(1) _ assms(3), of "nat (max 1 (rp_attempts p)) - 1" r rnd 1 rest]
    by (simp add: retry_call_def)
qed

theorem retry_call_first_decisive_witness:
  "retry_call (default_policy 3) scripted (\<lambda>_ _ w. (w, Inr ())) (\<lambda>_ w. w) (\<lambda>_. 0)
     (map Inl [Raise OSErr ''reset''] @ Inr (7::int) # []) =
   ([], Inr 7, map (\<lambda>i. retry_delay (default_policy 3) 0 (Suc i)) [0..<length [Raise OSErr ''reset'']],
    Suc (length [Raise OSErr ''reset'']))"
  by (rule retry_call_first_decisive [where rnd = "\<lambda>_. 0"])
    (simp_all add: default_policy_def retried_def caught_by_def exn_is_def eval_nat_numeral)

text \<open>Exhaustion.  When every allowed attempt fails retryably, the exception of
  the last attempt is raised and no further call is made.\<close>

theorem retry_call_exhausted:
  assumes "list_all (retried p) fails" "int (length fails) = max 1 (rp_attempts p)"
  shows "retry_call p scripted (\<lambda>_ _ w. (w, Inr ())) (\<lambda>_ w. w) rnd (map Inl fails @ rest) =
    (rest, Inl (last fails), map (\<lambda>i. retry_delay p (rnd (Suc i)) (Suc i)) [0..<length fails - 1],
     length fails)"
proof -
  have "length fails = Suc (nat (max 1 (rp_attempts p)) - 1)"
    using assms(2) by linarith
  then show ?thesis
    using retry_from_exhausted [OF assms(1), of "nat (max 1 (rp_attempts p)) - 1" rnd 1 rest]
    by (simp add: retry_call_def)
qed

theorem retry_call_exhausted_witness:
  "retry_call (default_policy 2) scripted (\<lambda>_ _ w. (w, Inr ())) (\<lambda>_ w. w) (\<lambda>_. 0)
     (map Inl [Raise OSErr ''a'', Raise ValueErr ''b''] @ [Inr (7::int)]) =
   ([Inr 7], Inl (last [Raise OSErr ''a'', Raise ValueErr ''b'']),
    map (\<lambda>i. retry_delay (default_policy 2) 0 (Suc i)) [0..<length [Raise OSErr ''a'', Raise ValueErr ''b''] - 1],
    length [Raise OSErr ''a'', Raise ValueErr ''b''])"
  by (rule retry_call_exhausted [where rnd = "\<lambda>_. 0"])
    (simp_all add: default_policy_def retried_def caught_by_def exn_is_def eval_nat_numeral)

end
