(* ===== verification/CreateSafety.thy ===== *)
theory CreateSafety
  imports BlobStore
begin

text \<open>
  The create-safety part of \<open>podcaster/publication_state.py\<close>: what a provider mutation claim
  remembers about the provider's episodes before it creates one, written into a durable record
  and parsed back fail-closed.  The \<open>type(x) is C\<close> checks on values of the classes themselves are
  the types of the model; the checks on values read from a record are all here.
\<close>

section \<open>Closed sets\<close>

datatype provenance = RECONCILIATION_BACKED | BLIND_UNRECONCILED | UPLOAD_DISPATCH

fun provenance_value :: "provenance \<Rightarrow> string" where
  "provenance_value RECONCILIATION_BACKED = ''reconciliation_backed''"
| "provenance_value BLIND_UNRECONCILED = ''blind_unreconciled''"
| "provenance_value UPLOAD_DISPATCH = ''upload_dispatch''"

datatype completeness = ABSENT | TRUNCATED | COMPLETE

fun completeness_value :: "completeness \<Rightarrow> string" where
  "completeness_value ABSENT = ''absent''"
| "completeness_value TRUNCATED = ''truncated''"
| "completeness_value COMPLETE = ''complete''"

datatype snapshot_source = SPOTIFY_EPISODE_LISTING | LEGACY_PRE_CREATE_SNAPSHOT

fun source_value :: "snapshot_source \<Rightarrow> string" where
  "source_value SPOTIFY_EPISODE_LISTING = ''spotify_episode_listing''"
| "source_value LEGACY_PRE_CREATE_SNAPSHOT = ''legacy_pre_create_snapshot''"

datatype mutation = NOT_POSSIBLE | POSSIBLE | CONFIRMED

fun mutation_value :: "mutation \<Rightarrow> string" where
  "mutation_value NOT_POSSIBLE = ''not_possible''"
| "mutation_value POSSIBLE = ''possible''"
| "mutation_value CONFIRMED = ''confirmed''"

text \<open>\<open>_closed_set_member\<close>: only the exact string of a member is that member.\<close>

definition closed_set_member :: "('a \<Rightarrow> string) \<Rightarrow> 'a list \<Rightarrow> json \<Rightarrow> 'a option" where
  "closed_set_member value_of members v =
     (case v of JStr s \<Rightarrow> find (\<lambda>m. value_of m = s) members | _ \<Rightarrow> None)"

abbreviation read_provenance :: "json \<Rightarrow> provenance option" where
  "read_provenance \<equiv> closed_set_member provenance_value [RECONCILIATION_BACKED, BLIND_UNRECONCILED, UPLOAD_DISPATCH]"

abbreviation read_completeness :: "json \<Rightarrow> completeness option" where
  "read_completeness \<equiv> closed_set_member completeness_value [ABSENT, TRUNCATED, COMPLETE]"

abbreviation read_source :: "json \<Rightarrow> snapshot_source option" where
  "read_source \<equiv> closed_set_member source_value [SPOTIFY_EPISODE_LISTING, LEGACY_PRE_CREATE_SNAPSHOT]"

abbreviation read_mutation :: "json \<Rightarrow> mutation option" where
  "read_mutation \<equiv> closed_set_member mutation_value [NOT_POSSIBLE, POSSIBLE, CONFIRMED]"

text \<open>The interface of such a parser: it reads a member back from its value and nothing else.\<close>

locale closed_set =
  fixes value_of :: "'a \<Rightarrow> string" and read_member :: "json \<Rightarrow> 'a option"
  assumes read_value: "read_member (JStr (value_of m)) = Some m"
    and read_only: "read_member v = Some m \<Longrightarrow> v = JStr (value_of m)"
begin

lemma read_iff: "read_member v = Some m \<longleftrightarrow> v = JStr (value_of m)"
  using read_value read_only by blast

lemma value_inj: "value_of m = value_of n \<longleftrightarrow> m = n"
  by (metis option.inject read_value)

end

lemma closed_set_member_only: "closed_set_member f ms v = Some m \<Longrightarrow> v = JStr (f m)"
  by (auto simp: closed_set_member_def find_Some_iff split: json.splits)

interpretation provenances: closed_set provenance_value read_provenance
proof (unfold_locales, goal_cases)
  case (1 m)
  show ?case by (cases m) (simp_all add: closed_set_member_def)
next
  case (2 v m)
  then show ?case by (rule closed_set_member_only)
qed

interpretation completenesses: closed_set completeness_value read_completeness
proof (unfold_locales, goal_cases)
  case (1 m)
  show ?case by (cases m) (simp_all add: closed_set_member_def)
next
  case (2 v m)
  then show ?case by (rule closed_set_member_only)
qed

interpretation sources: closed_set source_value read_source
proof (unfold_locales, goal_cases)
  case (1 m)
  show ?case by (cases m) (simp_all add: closed_set_member_def)
next
  case (2 v m)
  then show ?case by (rule closed_set_member_only)
qed

interpretation mutations: closed_set mutation_value read_mutation
proof (unfold_locales, goal_cases)
  case (1 m)
  show ?case by (cases m) (simp_all add: closed_set_member_def)
next
  case (2 v m)
  then show ?case by (rule closed_set_member_only)
qed

section \<open>Provider snapshots\<close>

definition pub_err :: "string \<Rightarrow> exn" where
  "pub_err msg = Raise PublicationStateErr msg"

record provider_snapshot =
  sn_ids :: "int list"
  sn_completeness :: completeness
  sn_source :: "snapshot_source option"

text \<open>\<open>_trusted_provider_snapshot_values\<close>: the stored state every reader demands.\<close>

definition trusted_snapshot :: "provider_snapshot \<Rightarrow> unit res" where
  "trusted_snapshot s =
     (if sorted_list_of_set (set (sn_ids s)) \<noteq> sn_ids s
      then Inl (pub_err ''snapshot episode ids have invalid stored state'')
      else if sn_completeness s = ABSENT
      then (if sn_ids s \<noteq> [] \<or> sn_source s \<noteq> None then Inl (pub_err ''absent snapshot has invalid stored state'')
            else Inr ())
      else if sn_source s = None then Inl (pub_err ''observed snapshot has invalid stored evidence source'')
      else Inr ())"

fun exact_id :: "string \<Rightarrow> string \<Rightarrow> json \<Rightarrow> int res" where
  "exact_id bool_msg other_msg (JInt n) = Inr n"
| "exact_id bool_msg other_msg (JBool b) = Inl (pub_err bool_msg)"
| "exact_id bool_msg other_msg _ = Inl (pub_err other_msg)"

text \<open>\<open>ProviderSnapshot(...)\<close>: the constructor with its \<open>__post_init__\<close>.\<close>

definition make_snapshot :: "json list \<Rightarrow> completeness \<Rightarrow> snapshot_source option \<Rightarrow> provider_snapshot res" where
  "make_snapshot raw_ids completeness source =
     and_then (map_res (exact_id ''snapshot episode id cannot be a boolean'' ''snapshot episode id is unreadable'') raw_ids)
       (\<lambda>ids. let unique = sorted_list_of_set (set ids);
                 s = \<lparr>sn_ids = unique, sn_completeness = completeness, sn_source = source\<rparr>
             in if length unique \<noteq> length ids then Inl (pub_err ''snapshot episode ids must be unique'')
                else if completeness = ABSENT \<and> unique \<noteq> [] then Inl (pub_err ''absent snapshot cannot carry episode ids'')
                else if completeness \<noteq> ABSENT \<and> source = None
                then Inl (pub_err ''observed snapshot requires an evidence source'')
                else and_then (trusted_snapshot s) (\<lambda>_. Inr s))"

definition absent_snapshot :: provider_snapshot where
  "absent_snapshot = \<lparr>sn_ids = [], sn_completeness = ABSENT, sn_source = None\<rparr>"

definition require_evidence_source :: "provider_snapshot \<Rightarrow> snapshot_source res" where
  "require_evidence_source s =
     (case sn_source s of None \<Rightarrow> Inl (pub_err ''absent snapshot has no evidence source'') | Some x \<Rightarrow> Inr x)"

definition snapshot_to_details :: "provider_snapshot \<Rightarrow> dict res" where
  "snapshot_to_details s = and_then (trusted_snapshot s) (\<lambda>_. Inr (
     [(''snapshot_completeness'', JStr (completeness_value (sn_completeness s)))]
     @ (if sn_ids s \<noteq> [] \<or> sn_completeness s \<noteq> ABSENT then [(''pre_create_episode_ids'', JList (map JInt (sn_ids s)))] else [])
     @ (case sn_source s of
          Some src \<Rightarrow> (if sn_completeness s \<noteq> ABSENT then [(''snapshot_evidence_source'', JStr (source_value src))] else [])
        | None \<Rightarrow> [])))"

section \<open>Create safety states\<close>

record create_safety =
  cs_provenance :: provenance
  cs_snapshot :: provider_snapshot
  cs_mutation :: mutation
  cs_degraded :: bool

definition make_create_safety ::
  "provenance \<Rightarrow> provider_snapshot \<Rightarrow> mutation \<Rightarrow> bool \<Rightarrow> create_safety res" where
  "make_create_safety p s m degraded =
     and_then (trusted_snapshot s) (\<lambda>_.
     if degraded \<and> sn_completeness s \<noteq> ABSENT then Inl (pub_err ''only an absent snapshot can be marked degraded'')
     else Inr \<lparr>cs_provenance = p, cs_snapshot = s, cs_mutation = m, cs_degraded = degraded\<rparr>)"

definition reconciliation_backed :: "provider_snapshot \<Rightarrow> create_safety res" where
  "reconciliation_backed s = make_create_safety RECONCILIATION_BACKED s NOT_POSSIBLE False"

definition unreconciled_override :: "create_safety res" where
  "unreconciled_override = make_create_safety BLIND_UNRECONCILED absent_snapshot POSSIBLE False"

definition upload_dispatch :: "create_safety res" where
  "upload_dispatch = make_create_safety UPLOAD_DISPATCH absent_snapshot POSSIBLE False"

definition provider_confirmed :: "provenance \<Rightarrow> provider_snapshot option \<Rightarrow> create_safety res" where
  "provider_confirmed p s = make_create_safety p (case s of None \<Rightarrow> absent_snapshot | Some x \<Rightarrow> x) CONFIRMED False"

definition safety_to_details :: "create_safety \<Rightarrow> dict res" where
  "safety_to_details s =
     and_then (snapshot_to_details (cs_snapshot s)) (\<lambda>sd.
     let details = [(''create_provenance'', JStr (provenance_value (cs_provenance s))),
                    (''mutation_possibility'', JStr (mutation_value (cs_mutation s)))] @ sd
     in if cs_degraded s
        then (if sn_completeness (cs_snapshot s) \<noteq> ABSENT then Inl (pub_err ''only an absent snapshot can be marked degraded'')
              else Inr (details @ [(''snapshot_degraded'', JBool True)]))
        else Inr details)"

section \<open>Reading a record\<close>

text \<open>\<open>_OPERATION_PROVENANCE.get(operation)\<close>.\<close>

definition operation_provenance :: "json \<Rightarrow> provenance list option" where
  "operation_provenance operation =
     (if operation = JStr ''create_episode_intent'' then Some [RECONCILIATION_BACKED, UPLOAD_DISPATCH]
      else if operation = JStr ''unreconciled_create_intent'' then Some [BLIND_UNRECONCILED]
      else if operation = JStr ''upload_intent'' then Some [UPLOAD_DISPATCH]
      else None)"

definition validate_mutation :: "provenance \<Rightarrow> mutation \<Rightarrow> bool \<Rightarrow> unit res" where
  "validate_mutation p m has_provider_id =
     (if m = CONFIRMED \<and> \<not> has_provider_id
      then Inl (pub_err ''create safety evidence confirms a mutation without a provider identity'')
      else if m = NOT_POSSIBLE \<and> p \<in> {BLIND_UNRECONCILED, UPLOAD_DISPATCH}
      then Inl (pub_err ''create safety evidence denies a possible mutation for a non-reconciled create'')
      else Inr ())"

definition parse_snapshot_ids :: "json \<Rightarrow> int list res" where
  "parse_snapshot_ids raw = (case raw of
     JList xs \<Rightarrow> map_res (exact_id ''create safety evidence contains an invalid boolean id''
                          ''create safety evidence contains an unreadable id'') xs
   | _ \<Rightarrow> Inl (pub_err ''create safety evidence has no episode id snapshot''))"

definition record_details :: "dict \<Rightarrow> dict res" where
  "record_details r = (case dget r ''details'' of
     JNull \<Rightarrow> Inr [] | JObj d \<Rightarrow> Inr d | _ \<Rightarrow> Inl (pub_err ''create safety evidence details are not an object''))"

text \<open>The provenance, \<open>None\<close> for an operation that is no create intent.\<close>

definition record_provenance :: "dict \<Rightarrow> dict \<Rightarrow> provenance option res" where
  "record_provenance r details =
     (let operation = dget r ''operation''
      in if dhas details ''create_provenance''
         then (case read_provenance (dget details ''create_provenance'') of
                 None \<Rightarrow> Inl (pub_err ''create safety evidence has unknown provenance'')
               | Some p \<Rightarrow>
                   (case operation_provenance operation of
                      Some allowed \<Rightarrow> (if p \<in> set allowed then Inr (Some p)
                        else Inl (pub_err ''create safety evidence provenance does not match its recording operation''))
                    | None \<Rightarrow> Inr (Some p)))
         else if operation = JStr ''upload_intent'' then Inr (Some UPLOAD_DISPATCH)
         else if operation = JStr ''unreconciled_create_intent'' then Inr (Some BLIND_UNRECONCILED)
         else if operation = JStr ''create_episode_intent'' then Inr (Some RECONCILIATION_BACKED)
         else Inr None)"

definition observed_keys :: "string list" where
  "observed_keys = [''pre_create_episode_ids'', ''pre_create_snapshot_complete'', ''snapshot_evidence_source'']"

definition has_observed :: "dict \<Rightarrow> bool" where
  "has_observed details = list_ex (dhas details) observed_keys"

text \<open>The snapshot and whether it was degraded to absent.\<close>

definition record_snapshot :: "dict \<Rightarrow> (provider_snapshot \<times> bool) res" where
  "record_snapshot details =
     (if dhas details ''snapshot_completeness''
      then (case read_completeness (dget details ''snapshot_completeness'') of
              None \<Rightarrow> Inl (pub_err ''create safety evidence has unknown snapshot state'')
            | Some ABSENT \<Rightarrow> Inr (absent_snapshot, has_observed details)
            | Some c \<Rightarrow>
                (case read_source (dget details ''snapshot_evidence_source'') of
                   None \<Rightarrow> Inr (absent_snapshot, True)
                 | Some src \<Rightarrow>
                     and_then (parse_snapshot_ids (dget details ''pre_create_episode_ids'')) (\<lambda>ids.
                     and_then (make_snapshot (map JInt ids) c (Some src)) (\<lambda>s. Inr (s, False)))))
      else if dhas details ''pre_create_snapshot_complete''
      then (if dhas details ''snapshot_evidence_source''
            then Inl (pub_err ''legacy create safety evidence carries a snapshot evidence source'')
            else (case dget details ''pre_create_snapshot_complete'' of
                    JBool whole \<Rightarrow>
                      and_then (parse_snapshot_ids (dget details ''pre_create_episode_ids'')) (\<lambda>ids.
                      and_then (make_snapshot (map JInt ids) (if whole then COMPLETE else TRUNCATED)
                        (Some LEGACY_PRE_CREATE_SNAPSHOT)) (\<lambda>s. Inr (s, False)))
                  | _ \<Rightarrow> Inl (pub_err ''legacy create safety evidence has no boolean snapshot completeness'')))
      else Inr (absent_snapshot, has_observed details))"

definition record_degraded :: "dict \<Rightarrow> bool \<Rightarrow> bool res" where
  "record_degraded details degraded =
     (if dhas details ''snapshot_degraded''
      then (case dget details ''snapshot_degraded'' of
              JBool b \<Rightarrow>
                (if b \<and> dget details ''snapshot_completeness'' \<noteq> JStr (completeness_value ABSENT)
                 then Inl (pub_err ''create safety evidence marks a non-absent snapshot as degraded'')
                 else Inr (b \<or> degraded))
            | _ \<Rightarrow> Inl (pub_err ''create safety evidence has a non-boolean degraded flag''))
      else Inr degraded)"

definition has_provider :: "dict \<Rightarrow> bool" where
  "has_provider r = (truthy (dget r ''provider_artifact_id'') \<or> truthy (dget r ''provider_id''))"

definition record_mutation :: "dict \<Rightarrow> dict \<Rightarrow> provenance \<Rightarrow> mutation res" where
  "record_mutation r details p =
     (if dhas details ''mutation_possibility''
      then (case read_mutation (dget details ''mutation_possibility'') of
              None \<Rightarrow> Inl (pub_err ''create safety evidence has unknown mutation state'') | Some m \<Rightarrow> Inr m)
      else if has_provider r then Inr CONFIRMED
      else if p \<in> {BLIND_UNRECONCILED, UPLOAD_DISPATCH} then Inr POSSIBLE else Inr NOT_POSSIBLE)"

definition create_safety_state_from_record :: "dict \<Rightarrow> create_safety option res" where
  "create_safety_state_from_record r =
     and_then (record_details r) (\<lambda>details.
     and_then (record_provenance r details) (\<lambda>found.
     case found of
       None \<Rightarrow> Inr None
     | Some p \<Rightarrow>
         and_then (record_snapshot details) (\<lambda>(snapshot, degraded0).
         and_then (record_degraded details degraded0) (\<lambda>degraded.
         and_then (record_mutation r details p) (\<lambda>m.
         and_then (validate_mutation p m (has_provider r)) (\<lambda>_.
         and_then (make_create_safety p snapshot m degraded) (\<lambda>s. Inr (Some s))))))))"

section \<open>What a parsed state is\<close>

lemma map_res_exact_id [simp]: "map_res (exact_id a b) (map JInt ids) = Inr ids"
  by (induction ids) auto

lemma trusted_cases: "trusted_snapshot s = Inr u \<longleftrightarrow>
    sorted_list_of_set (set (sn_ids s)) = sn_ids s
    \<and> (if sn_completeness s = ABSENT then sn_ids s = [] \<and> sn_source s = None else sn_source s \<noteq> None)"
  by (auto simp: trusted_snapshot_def)

lemma trusted_absent [simp]: "trusted_snapshot absent_snapshot = Inr ()"
  by (simp add: trusted_snapshot_def absent_snapshot_def)

lemma absent_snapshot_simps [simp]:
  "sn_ids absent_snapshot = []" "sn_completeness absent_snapshot = ABSENT" "sn_source absent_snapshot = None"
  by (simp_all add: absent_snapshot_def)

lemma absent_unique: "trusted_snapshot s = Inr u \<Longrightarrow> sn_completeness s = ABSENT \<Longrightarrow> s = absent_snapshot"
  by (cases s) (auto simp: trusted_cases absent_snapshot_def)

lemma make_snapshot_Inr: "make_snapshot raw c src = Inr s \<Longrightarrow>
    trusted_snapshot s = Inr () \<and> sn_completeness s = c \<and> sn_source s = src"
  by (auto simp: make_snapshot_def Let_def and_then_Inr_conv split: if_splits)

text \<open>The constructor accepts exactly what it would store: a trusted snapshot is rebuilt from its parts.\<close>

lemma make_snapshot_trusted:
  assumes "trusted_snapshot s = Inr u"
  shows "make_snapshot (map JInt (sn_ids s)) (sn_completeness s) (sn_source s) = Inr s"
proof -
  have ids: "sorted_list_of_set (set (sn_ids s)) = sn_ids s" using assms by (simp add: trusted_cases)
  have s: "\<lparr>sn_ids = sn_ids s, sn_completeness = sn_completeness s, sn_source = sn_source s\<rparr> = s" by simp
  show ?thesis
    using assms assms [unfolded trusted_cases]
    unfolding make_snapshot_def map_res_exact_id and_then_simps Let_def ids s
    by (auto split: if_splits)
qed

lemma make_snapshot_ids: "make_snapshot (map JInt ids) c src = Inr s \<Longrightarrow> sn_ids s = sorted_list_of_set (set ids)"
  by (auto simp: make_snapshot_def Let_def and_then_Inr_conv split: if_splits)

lemma record_snapshot_reads:
  assumes "record_snapshot details = Inr (s, degraded)" "sn_completeness s \<noteq> ABSENT"
  shows "(\<exists>ids. parse_snapshot_ids (dget details ''pre_create_episode_ids'') = Inr ids \<and> sn_ids s = sorted_list_of_set (set ids))
    \<and> (if dhas details ''snapshot_completeness''
       then dget details ''snapshot_completeness'' = JStr (completeness_value (sn_completeness s))
         \<and> (\<exists>src. sn_source s = Some src \<and> dget details ''snapshot_evidence_source'' = JStr (source_value src))
       else dget details ''pre_create_snapshot_complete'' = JBool (sn_completeness s = COMPLETE)
         \<and> \<not> dhas details ''snapshot_evidence_source'' \<and> sn_source s = Some LEGACY_PRE_CREATE_SNAPSHOT)"
  using assms
  by (auto simp: record_snapshot_def and_then_Inr_conv sources.read_iff completenesses.read_iff
      dest: make_snapshot_Inr make_snapshot_ids split: if_splits option.splits completeness.splits json.splits)

lemma record_snapshot_absent:
  assumes "record_snapshot details = Inr (s, degraded)" "sn_completeness s = ABSENT"
  shows "degraded \<or> \<not> has_observed details"
  using assms
  by (auto simp: record_snapshot_def and_then_Inr_conv has_observed_def observed_keys_def dest!: make_snapshot_Inr
      split: if_splits option.splits completeness.splits json.splits)

lemma record_snapshot_Inr:
  assumes "record_snapshot details = Inr (s, degraded)"
  shows "trusted_snapshot s = Inr () \<and> (degraded \<longrightarrow> s = absent_snapshot)
    \<and> (sn_completeness s \<noteq> ABSENT \<longrightarrow>
         (\<exists>src. sn_source s = Some src
            \<and> (dget details ''snapshot_evidence_source'' = JStr (source_value src)
                 \<and> dget details ''snapshot_completeness'' = JStr (completeness_value (sn_completeness s))
               \<or> src = LEGACY_PRE_CREATE_SNAPSHOT \<and> \<not> dhas details ''snapshot_completeness'')))"
  using assms
  by (auto simp: record_snapshot_def and_then_Inr_conv sources.read_iff completenesses.read_iff
      dest!: make_snapshot_Inr split: if_splits option.splits completeness.splits json.splits)

lemma make_create_safety_Inr: "make_create_safety p s m g = Inr c \<longleftrightarrow>
    trusted_snapshot s = Inr () \<and> (g \<longrightarrow> sn_completeness s = ABSENT)
    \<and> c = \<lparr>cs_provenance = p, cs_snapshot = s, cs_mutation = m, cs_degraded = g\<rparr>"
  by (auto simp: make_create_safety_def and_then_Inr_conv)

lemma record_provenance_reads:
  assumes "record_provenance r d = Inr (Some p)"
  shows "if dhas d ''create_provenance'' then dget d ''create_provenance'' = JStr (provenance_value p)
      \<and> (\<forall>allowed. operation_provenance (dget r ''operation'') = Some allowed \<longrightarrow> p \<in> set allowed)
    else operation_provenance (dget r ''operation'') \<noteq> None \<and> p = (if dget r ''operation'' = JStr ''upload_intent'' then UPLOAD_DISPATCH
      else if dget r ''operation'' = JStr ''unreconciled_create_intent'' then BLIND_UNRECONCILED else RECONCILIATION_BACKED)"
  using assms
  by (auto simp: record_provenance_def Let_def provenances.read_iff operation_provenance_def split: if_splits option.splits)

lemma record_mutation_reads:
  assumes "record_mutation r d p = Inr m"
  shows "if dhas d ''mutation_possibility'' then dget d ''mutation_possibility'' = JStr (mutation_value m)
    else m = (if has_provider r then CONFIRMED else if p = RECONCILIATION_BACKED then NOT_POSSIBLE else POSSIBLE)"
  using assms by (cases p) (auto simp: record_mutation_def mutations.read_iff split: if_splits option.splits)

text \<open>Claim C34: a parsed state claims what its record proves.  A snapshot is said to be complete, or truncated, only
  when the record says exactly that, names an exact evidence source (or has the legacy shape, which names none) and
  lists readable ids; the ids of the snapshot are those, sorted and distinct.  A snapshot is absent without a mark only
  when the record shows nothing of one.  The provenance is the one the record names, and allowed for its operation,
  or the one its operation implies.  The state of the mutation is the one the record names or, when it names none, what
  the provider id and the provenance imply; a confirmed mutation has a provider id, and \<open>not possible\<close> is only said of
  a reconciliation-backed create.\<close>

theorem parsed_state_is_safe:
  assumes "create_safety_state_from_record r = Inr (Some s)"
  shows "\<exists>d. (dget r ''details'' = JObj d \<or> dget r ''details'' = JNull \<and> d = [])
    \<and> (sn_completeness (cs_snapshot s) \<noteq> ABSENT \<longrightarrow>
         (\<exists>ids. parse_snapshot_ids (dget d ''pre_create_episode_ids'') = Inr ids
            \<and> sn_ids (cs_snapshot s) = sorted_list_of_set (set ids))
       \<and> (if dhas d ''snapshot_completeness''
          then dget d ''snapshot_completeness'' = JStr (completeness_value (sn_completeness (cs_snapshot s)))
            \<and> (\<exists>src. sn_source (cs_snapshot s) = Some src \<and> dget d ''snapshot_evidence_source'' = JStr (source_value src))
          else dget d ''pre_create_snapshot_complete'' = JBool (sn_completeness (cs_snapshot s) = COMPLETE)
            \<and> \<not> dhas d ''snapshot_evidence_source'' \<and> sn_source (cs_snapshot s) = Some LEGACY_PRE_CREATE_SNAPSHOT))
    \<and> (sn_completeness (cs_snapshot s) = ABSENT \<longrightarrow> cs_snapshot s = absent_snapshot \<and> (cs_degraded s \<or> \<not> has_observed d))
    \<and> (cs_degraded s \<longrightarrow> cs_snapshot s = absent_snapshot)
    \<and> (if dhas d ''create_provenance'' then dget d ''create_provenance'' = JStr (provenance_value (cs_provenance s))
         \<and> (\<forall>allowed. operation_provenance (dget r ''operation'') = Some allowed \<longrightarrow> cs_provenance s \<in> set allowed)
       else operation_provenance (dget r ''operation'') \<noteq> None
         \<and> cs_provenance s = (if dget r ''operation'' = JStr ''upload_intent'' then UPLOAD_DISPATCH
           else if dget r ''operation'' = JStr ''unreconciled_create_intent'' then BLIND_UNRECONCILED else RECONCILIATION_BACKED))
    \<and> (if dhas d ''mutation_possibility'' then dget d ''mutation_possibility'' = JStr (mutation_value (cs_mutation s))
       else cs_mutation s = (if has_provider r then CONFIRMED
         else if cs_provenance s = RECONCILIATION_BACKED then NOT_POSSIBLE else POSSIBLE))
    \<and> (cs_mutation s = CONFIRMED \<longrightarrow> has_provider r)
    \<and> (cs_mutation s = NOT_POSSIBLE \<longrightarrow> cs_provenance s = RECONCILIATION_BACKED)"
proof -
  obtain d p snap g0 g m where parts: "record_details r = Inr d" "record_provenance r d = Inr (Some p)"
      "record_snapshot d = Inr (snap, g0)" "record_degraded d g0 = Inr g" "record_mutation r d p = Inr m"
      "validate_mutation p m (has_provider r) = Inr ()" "make_create_safety p snap m g = Inr s"
    using assms by (auto simp: create_safety_state_from_record_def and_then_Inr_conv split: option.splits prod.splits)
  have s: "s = \<lparr>cs_provenance = p, cs_snapshot = snap, cs_mutation = m, cs_degraded = g\<rparr>" "g \<longrightarrow> sn_completeness snap = ABSENT"
    using parts(7) by (simp_all add: make_create_safety_Inr)
  have d: "dget r ''details'' = JObj d \<or> dget r ''details'' = JNull \<and> d = []"
    using parts(1) by (auto simp: record_details_def split: json.splits)
  have absent: "sn_completeness snap = ABSENT \<Longrightarrow> snap = absent_snapshot"
    using record_snapshot_Inr [OF parts(3)] absent_unique by blast
  have marked: "g0 \<Longrightarrow> g" using parts(4) by (auto simp: record_degraded_def split: if_splits json.splits)
  have m: "m = CONFIRMED \<longrightarrow> has_provider r" "m = NOT_POSSIBLE \<longrightarrow> p = RECONCILIATION_BACKED"
    using parts(6) by (cases p; auto simp: validate_mutation_def split: if_splits)+
  have degraded: "g \<longrightarrow> snap = absent_snapshot" using s(2) absent by blast
  have unmarked: "sn_completeness snap = ABSENT \<longrightarrow> snap = absent_snapshot \<and> (g \<or> \<not> has_observed d)"
    using record_snapshot_absent [OF parts(3)] marked absent by blast
  show ?thesis
    unfolding s(1) create_safety.select_convs
    by (intro exI [of _ d] conjI d impI record_snapshot_reads [OF parts(3), THEN conjunct1] record_snapshot_reads [OF parts(3), THEN conjunct2]
        unmarked degraded record_provenance_reads [OF parts(2)] record_mutation_reads [OF parts(5)] m
        unmarked [rule_format, THEN conjunct1] unmarked [rule_format, THEN conjunct2] degraded [rule_format] m [rule_format])
qed

lemma written_details:
  assumes "safety_to_details s = Inr d"
  shows "dget d ''create_provenance'' = JStr (provenance_value (cs_provenance s)) \<and> dhas d ''create_provenance''
    \<and> dget d ''mutation_possibility'' = JStr (mutation_value (cs_mutation s)) \<and> dhas d ''mutation_possibility''
    \<and> dget d ''snapshot_completeness'' = JStr (completeness_value (sn_completeness (cs_snapshot s)))
    \<and> dhas d ''snapshot_completeness''
    \<and> dhas d ''snapshot_degraded'' = cs_degraded s \<and> (cs_degraded s \<longrightarrow> dget d ''snapshot_degraded'' = JBool True)
    \<and> (cs_degraded s \<longrightarrow> sn_completeness (cs_snapshot s) = ABSENT)
    \<and> (sn_completeness (cs_snapshot s) = ABSENT \<longrightarrow> \<not> has_observed d)
    \<and> (sn_completeness (cs_snapshot s) \<noteq> ABSENT \<longrightarrow>
         dget d ''pre_create_episode_ids'' = JList (map JInt (sn_ids (cs_snapshot s)))
         \<and> (\<exists>src. sn_source (cs_snapshot s) = Some src \<and> dget d ''snapshot_evidence_source'' = JStr (source_value src)))"
proof -
  obtain sd where sd: "snapshot_to_details (cs_snapshot s) = Inr sd" "trusted_snapshot (cs_snapshot s) = Inr ()"
    using assms by (auto simp: safety_to_details_def snapshot_to_details_def and_then_Inr_conv)
  show ?thesis
  proof (cases "sn_completeness (cs_snapshot s) = ABSENT")
    case True
    then have "d = [(''create_provenance'', JStr (provenance_value (cs_provenance s))),
        (''mutation_possibility'', JStr (mutation_value (cs_mutation s))), (''snapshot_completeness'', JStr ''absent'')]
        @ (if cs_degraded s then [(''snapshot_degraded'', JBool True)] else [])"
      using assms absent_unique [OF sd(2)] by (auto simp: safety_to_details_def snapshot_to_details_def Let_def)
    then show ?thesis using True by (simp add: has_observed_def observed_keys_def)
  next
    case False
    then obtain src where src: "sn_source (cs_snapshot s) = Some src"
      using sd(2) by (auto simp: trusted_cases)
    then have "d = [(''create_provenance'', JStr (provenance_value (cs_provenance s))),
        (''mutation_possibility'', JStr (mutation_value (cs_mutation s))),
        (''snapshot_completeness'', JStr (completeness_value (sn_completeness (cs_snapshot s)))),
        (''pre_create_episode_ids'', JList (map JInt (sn_ids (cs_snapshot s)))),
        (''snapshot_evidence_source'', JStr (source_value src))]" "\<not> cs_degraded s"
      using assms False sd(2) by (auto simp: safety_to_details_def snapshot_to_details_def Let_def split: if_splits)
    then show ?thesis using False src by simp
  qed
qed

text \<open>Create-safety round trip.  The details a valid state is written as, in a record of an
  operation that may carry its provenance and whose provider id fits, read back as that very state,
  the degradation flag included.\<close>

theorem create_safety_round_trip:
  assumes "safety_to_details s = Inr d" and "dget r ''details'' = JObj d"
    and "\<And>ps. operation_provenance (dget r ''operation'') = Some ps \<Longrightarrow> cs_provenance s \<in> set ps"
    and "validate_mutation (cs_provenance s) (cs_mutation s) (has_provider r) = Inr ()"
  shows "create_safety_state_from_record r = Inr (Some s)"
proof -
  note out = assms(1)
  obtain sd where sd: "snapshot_to_details (cs_snapshot s) = Inr sd" "trusted_snapshot (cs_snapshot s) = Inr ()"
    using out by (auto simp: safety_to_details_def snapshot_to_details_def and_then_Inr_conv)
  note w = written_details [OF out]
  have "record_provenance r d = Inr (Some (cs_provenance s))"
    using assms(3) w by (auto simp: record_provenance_def Let_def provenances.read_value split: option.splits)
  moreover have "record_mutation r d (cs_provenance s) = Inr (cs_mutation s)"
    using w by (simp add: record_mutation_def mutations.read_value)
  moreover have "record_snapshot d = Inr (cs_snapshot s, False)"
  proof -
    have rc: "read_completeness (dget d ''snapshot_completeness'') = Some (sn_completeness (cs_snapshot s))"
      using w completenesses.read_value by metis
    show ?thesis
    proof (cases "sn_completeness (cs_snapshot s) = ABSENT")
      case True
      then show ?thesis using w rc absent_unique [OF sd(2)] by (simp add: record_snapshot_def)
    next
      case False
      then obtain src where src: "sn_source (cs_snapshot s) = Some src"
          "dget d ''snapshot_evidence_source'' = JStr (source_value src)" using w by blast
      have rs: "read_source (dget d ''snapshot_evidence_source'') = Some src"
        unfolding src(2) by (rule sources.read_value)
      show ?thesis
        using False w rc rs src(1) make_snapshot_trusted [OF sd(2)]
        by (cases "sn_completeness (cs_snapshot s)") (simp_all add: record_snapshot_def parse_snapshot_ids_def)
    qed
  qed
  moreover have "record_degraded d False = Inr (cs_degraded s)"
    using w by (auto simp: record_degraded_def)
  moreover have "make_create_safety (cs_provenance s) (cs_snapshot s) (cs_mutation s) (cs_degraded s) = Inr s"
    using w sd(2) by (simp add: make_create_safety_Inr)
  moreover have "record_details r = Inr d"
    using assms(2) by (simp add: record_details_def)
  ultimately show ?thesis using assms(4) by (simp add: create_safety_state_from_record_def)
qed

definition dispatch_record :: dict where
  "dispatch_record = [(''operation'', JStr ''upload_intent''), (''details'', JObj
     [(''create_provenance'', JStr ''upload_dispatch''), (''mutation_possibility'', JStr ''possible''),
      (''snapshot_completeness'', JStr ''absent'')])]"

definition dispatch_state :: create_safety where
  "dispatch_state = \<lparr>cs_provenance = UPLOAD_DISPATCH, cs_snapshot = absent_snapshot, cs_mutation = POSSIBLE,
     cs_degraded = False\<rparr>"

theorem create_safety_round_trip_witness:
  "upload_dispatch = Inr dispatch_state \<and> create_safety_state_from_record dispatch_record = Inr (Some dispatch_state)"
proof
  show "upload_dispatch = Inr dispatch_state"
    by (simp add: upload_dispatch_def make_create_safety_Inr dispatch_state_def)
  show "create_safety_state_from_record dispatch_record = Inr (Some dispatch_state)"
    by (rule create_safety_round_trip)
      (auto simp: dispatch_state_def dispatch_record_def safety_to_details_def snapshot_to_details_def
        operation_provenance_def validate_mutation_def)
qed

theorem parsed_state_is_safe_witness:
  "\<exists>s. create_safety_state_from_record [(''operation'', JStr ''create_episode_intent''),
        (''details'', JObj [(''snapshot_completeness'', JStr ''complete''), (''pre_create_episode_ids'', JList [JInt 5]),
           (''snapshot_evidence_source'', JStr ''spotify_episode_listing '')])] = Inr (Some s)
     \<and> cs_degraded s \<and> cs_snapshot s = absent_snapshot"
proof -
  have "\<exists>s. create_safety_state_from_record [(''operation'', JStr ''create_episode_intent''),
        (''details'', JObj [(''snapshot_completeness'', JStr ''complete''), (''pre_create_episode_ids'', JList [JInt 5]),
           (''snapshot_evidence_source'', JStr ''spotify_episode_listing '')])] = Inr (Some s) \<and> cs_degraded s"
    by (simp add: create_safety_state_from_record_def record_details_def record_provenance_def record_snapshot_def
        closed_set_member_def record_degraded_def record_mutation_def has_provider_def validate_mutation_def make_create_safety_def)
  then show ?thesis using parsed_state_is_safe by blast
qed

end
