(* ===== verification/Publication.thy ===== *)
theory Publication
  imports CreateSafety
begin

text \<open>
  \<open>podcaster/publication_state.py\<close>: canonical outcomes, the identity of a publication, and the
  append-only evidence log of a job with its claims.  Outcomes and operations are strings as in the
  code.  The caller's \<open>authorize\<close> hook is its result, the time of the call is an instant, and an
  artifact id is the text it is stored as.  Regular expressions are the predicates they decide.
\<close>

section \<open>Outcomes\<close>

definition UPLOADED :: string where "UPLOADED = ''uploaded''"

definition DRAFT_CREATED :: string where "DRAFT_CREATED = ''draft_created''"

definition MANUAL_HANDOFF_REQUIRED :: string where "MANUAL_HANDOFF_REQUIRED = ''manual_handoff_required''"

definition PUBLISHED :: string where "PUBLISHED = ''published''"

definition PUBLICATION_UNKNOWN :: string where "PUBLICATION_UNKNOWN = ''publication_unknown''"

definition CANONICAL_OUTCOMES :: "string list" where
  "CANONICAL_OUTCOMES = [UPLOADED, DRAFT_CREATED, MANUAL_HANDOFF_REQUIRED, PUBLISHED, PUBLICATION_UNKNOWN]"

definition EVIDENCE_SCHEMA_VERSION :: string where
  "EVIDENCE_SCHEMA_VERSION = ''squadscope-podcaster-publication-evidence-v1''"

definition VERIFICATION_STATES :: "string list" where
  "VERIFICATION_STATES = [''none'', ''provider_readback'', ''external_verified'']"

definition REARMABLE_CLAIM_OPERATIONS :: "string list" where
  "REARMABLE_CLAIM_OPERATIONS = [''upload_intent'', ''create_episode_intent'']"

definition validate_outcome :: "string \<Rightarrow> string res" where
  "validate_outcome outcome =
     (if outcome \<in> set CANONICAL_OUTCOMES then Inr outcome else Inl (pub_err ''unknown publication outcome''))"

text \<open>\<open>str(x or "")\<close> of an optional string.\<close>

definition str_or_empty :: "string option \<Rightarrow> string" where
  "str_or_empty s = (case s of None \<Rightarrow> [] | Some x \<Rightarrow> x)"

definition provider_status :: "string \<Rightarrow> string \<Rightarrow> string option \<Rightarrow> string res" where
  "provider_status outcome verification native =
     (if verification \<notin> set VERIFICATION_STATES then Inl (pub_err ''unknown verification state'')
      else let n = py_lower (py_strip (str_or_empty native))
           in if outcome = PUBLISHED then Inr (if verification = ''external_verified'' then ''public'' else ''pending'')
              else if outcome = DRAFT_CREATED
              then Inr (if n \<in> {''private'', ''unlisted'', ''draft''} then n else ''draft'')
              else if outcome = UPLOADED then Inr ''pending''
              else if outcome = MANUAL_HANDOFF_REQUIRED then Inr ''gated''
              else if outcome = PUBLICATION_UNKNOWN then Inr ''unknown''
              else Inl (pub_err ''cannot normalize publication outcome''))"

definition outcome_from_publish_status :: "string option \<Rightarrow> bool \<Rightarrow> string option" where
  "outcome_from_publish_status status confirmed =
     (if status = Some ''published'' then Some (if confirmed then PUBLISHED else PUBLICATION_UNKNOWN)
      else if status \<in> {Some ''draft'', Some ''scheduled''} then Some DRAFT_CREATED
      else if status = Some ''failed'' then Some MANUAL_HANDOFF_REQUIRED
      else None)"

definition outcome_from_distribution_status :: "string option \<Rightarrow> string option" where
  "outcome_from_distribution_status status = None"

definition outcome_from_spotify_terminal_state :: "string option \<Rightarrow> string option" where
  "outcome_from_spotify_terminal_state state =
     (if state \<in> {Some ''published'', Some ''already_published''} then Some PUBLISHED
      else if state = Some ''publication_state_unknown'' then Some PUBLICATION_UNKNOWN
      else if state = Some ''draft_gate_denied'' then Some DRAFT_CREATED
      else if state \<in> {Some ''blocked_protected_historical_draft'', Some ''manual_handoff_required'', Some ''failed''}
      then Some MANUAL_HANDOFF_REQUIRED
      else None)"

section \<open>The identity of a publication\<close>

record publication_identity =
  pi_job_id :: string
  pi_week :: string
  pi_run_id :: string
  pi_article :: string
  pi_manifest :: string

definition is_hex :: "char \<Rightarrow> bool" where
  "is_hex c = (is_digit c \<or> (97 \<le> (of_char c :: nat) \<and> (of_char c :: nat) \<le> 102))"

definition is_sha256 :: "string \<Rightarrow> bool" where
  "is_sha256 s = (length s = 64 \<and> list_all is_hex s)"

definition is_run_id :: "string \<Rightarrow> bool" where
  "is_run_id s = (s \<noteq> [] \<and> list_all is_digit s)"

text \<open>\<open>\d{4}-W(?:0[1-9]|[1-4]\d|5[0-3])\<close>.\<close>

definition is_week :: "string \<Rightarrow> bool" where
  "is_week s = (length s = 8 \<and> list_all is_digit (take 4 s) \<and> take 2 (drop 4 s) = ''-W'' \<and> list_all is_digit (drop 6 s)
     \<and> (let n = the (digits_value 0 (drop 6 s)) in 1 \<le> n \<and> n \<le> 53))"

definition identity_ok :: "publication_identity \<Rightarrow> bool" where
  "identity_ok i = (py_strip (pi_job_id i) \<noteq> [] \<and> \<not> ends_with ''-dry-run'' (pi_job_id i)
     \<and> is_week (pi_week i) \<and> is_run_id (pi_run_id i) \<and> is_sha256 (pi_article i) \<and> is_sha256 (pi_manifest i))"

definition validate_video_publication_identity ::
  "publication_identity \<Rightarrow> string option \<Rightarrow> string option \<Rightarrow> publication_identity res" where
  "validate_video_publication_identity i job run =
     (if \<not> identity_ok i \<or> (job \<noteq> None \<and> job \<noteq> Some (pi_job_id i)) \<or> (run \<noteq> None \<and> run \<noteq> Some (pi_run_id i))
      then Inl (pub_err ''valid coherent video publication identity is required'') else Inr i)"

definition canonical_identity_requested :: "dict \<Rightarrow> bool" where
  "canonical_identity_requested request =
     (dget request ''publication_identity_mode'' = JStr ''canonical'' \<or> dget request ''publish_run_id'' \<noteq> JNull
      \<or> dget request ''manifest_sha256'' \<noteq> JNull)"

text \<open>\<open>str(request.get(k) or "").strip()\<close>.\<close>

definition text_field :: "(json \<Rightarrow> string) \<Rightarrow> dict \<Rightarrow> string \<Rightarrow> string" where
  "text_field repr d k = py_strip (if truthy (dget d k) then py_str repr (dget d k) else [])"

fun to_accepted :: "json \<Rightarrow> bool" where
  "to_accepted (JObj d) = (dget d ''to'' = JStr ''accepted'')"
| "to_accepted _ = False"

definition accepted_lifecycle :: "dict \<Rightarrow> bool" where
  "accepted_lifecycle manifest =
     (case dget manifest ''lifecycle'' of
        JObj l \<Rightarrow> (case dget l ''transitions'' of JList ts \<Rightarrow> list_ex to_accepted ts | _ \<Rightarrow> False)
      | _ \<Rightarrow> False)"

definition publication_identity_of ::
  "(json \<Rightarrow> string) \<Rightarrow> dict \<Rightarrow> string \<Rightarrow> string \<Rightarrow> publication_identity res" where
  "publication_identity_of repr manifest job run =
     (if job = [] \<or> dget manifest ''job_id'' \<noteq> JStr job then Inl (pub_err ''accepted job_id does not match manifest'')
      else case dget manifest ''request'' of
        JObj request \<Rightarrow>
          (if dget request ''dry_run'' = JBool True
           then Inl (pub_err ''publication evidence requires an accepted non-dry-run job'')
           else let mode = dget request ''publication_identity_mode''
           in if mode = JStr ''legacy'' then Inl (pub_err ''legacy requests cannot create canonical publication evidence'')
           else if mode \<notin> {JNull, JStr ''canonical''} then Inl (pub_err ''publication identity mode is malformed'')
           else if \<not> accepted_lifecycle manifest \<or> ends_with ''-dry-run'' job
           then Inl (pub_err ''manifest does not contain accepted job identity'')
           else case dget request ''publish_run_id'' of
             JStr manifest_run \<Rightarrow>
               (let week = text_field repr request ''week'';
                    article = text_field repr request ''article_sha256'';
                    sha = text_field repr request ''manifest_sha256''
                in if manifest_run = [] then Inl (pub_err ''manifest publish_run_id is missing'')
                   else if run \<noteq> [] \<and> run \<noteq> manifest_run then Inl (pub_err ''publish_run_id conflicts with manifest identity'')
                   else if \<not> is_week week then Inl (pub_err ''manifest week is malformed'')
                   else if \<not> is_sha256 article then Inl (pub_err ''manifest article_sha256 is malformed'')
                   else if \<not> is_sha256 sha then Inl (pub_err ''manifest manifest_sha256 is malformed'')
                   else if \<not> is_run_id manifest_run then Inl (pub_err ''publish_run_id is malformed'')
                   else Inr \<lparr>pi_job_id = job, pi_week = week, pi_run_id = manifest_run, pi_article = article,
                             pi_manifest = sha\<rparr>)
           | _ \<Rightarrow> Inl (pub_err ''manifest publish_run_id is missing''))
      | _ \<Rightarrow> Inl (pub_err ''publication evidence requires an accepted non-dry-run job''))"

section \<open>Documents and details\<close>

definition evidence_path :: "string \<Rightarrow> string" where
  "evidence_path job = ''publication-evidence/'' @ job @ ''.json''"

definition legacy_evidence_path :: "string \<Rightarrow> string" where
  "legacy_evidence_path job = ''jobs/'' @ job @ ''/publication-evidence.json''"

definition fresh_evidence :: "string \<Rightarrow> dict" where
  "fresh_evidence job = [(''schema_version'', JStr EVIDENCE_SCHEMA_VERSION), (''job_id'', JStr job),
     (''minimum_retention_days'', JInt 28), (''retention_policy'', JStr ''append_only_no_count_eviction''),
     (''updated_at'', JNull), (''records'', JList [])]"

fun is_list :: "json \<Rightarrow> bool" where
  "is_list (JList _) = True"
| "is_list _ = False"

definition load_evidence :: "blob option \<Rightarrow> string \<Rightarrow> bool \<Rightarrow> dict res" where
  "load_evidence raw job strict =
     (let refuse = (\<lambda>msg. if strict then Inl (pub_err msg) else Inr (fresh_evidence job @ [(''corrupt'', JBool True)]))
      in case raw of
           None \<Rightarrow> Inr (fresh_evidence job)
         | Some b \<Rightarrow>
             (case loads b of
                None \<Rightarrow> refuse ''publication evidence is corrupt''
              | Some (JObj d) \<Rightarrow>
                  (if dget d ''schema_version'' \<noteq> JStr EVIDENCE_SCHEMA_VERSION \<or> dget d ''job_id'' \<noteq> JStr job
                      \<or> \<not> is_list (dget d ''records'')
                   then refuse ''publication evidence identity/schema is invalid'' else Inr d)
              | Some _ \<Rightarrow> refuse ''publication evidence identity/schema is invalid''))"

definition records_of :: "dict \<Rightarrow> json list" where
  "records_of d = (case dget d ''records'' of JList xs \<Rightarrow> xs | _ \<Rightarrow> [])"

text \<open>\<open>p in s\<close> for strings, and the search for an unsafe word in a detail's name.\<close>

definition contains :: "string \<Rightarrow> string \<Rightarrow> bool" where
  "contains p s = list_ex (\<lambda>k. starts_with p (drop k s)) [0..<Suc (length s)]"

definition signed_url :: "string \<Rightarrow> bool" where
  "signed_url s = (contains ''signedurl'' s
     \<or> list_ex (\<lambda>k. starts_with ''signed'' (drop k s) \<and> starts_with ''url'' (drop (k + 7) s)
          \<and> k + 7 \<le> length s \<and> s ! (k + 6) \<noteq> CHR 0x0A) [0..<length s])"

definition unsafe_detail_key :: "string \<Rightarrow> bool" where
  "unsafe_detail_key name = (let n = py_lower name in signed_url n
     \<or> list_ex (\<lambda>w. contains w n) [''authorization'', ''bearer'', ''cookie'', ''credential'', ''secret'', ''token'',
          ''body'', ''content''])"

fun is_number :: "json \<Rightarrow> bool" where
  "is_number (JBool _) = True"
| "is_number (JInt _) = True"
| "is_number (JFloat _) = True"
| "is_number _ = False"

definition safe_detail :: "string \<Rightarrow> json \<Rightarrow> json option" where
  "safe_detail name v =
     (if unsafe_detail_key name then None
      else if is_number v \<or> v = JNull then Some v
      else case v of
        JStr t \<Rightarrow> (if contains ''://'' t then None else Some (JStr (take 256 t)))
      | JList xs \<Rightarrow>
          (if name = ''pre_create_episode_ids'' \<and> list_all is_exact_int xs then Some v
           else if list_all (\<lambda>x. is_number x \<or> x = JNull) xs then Some (JList (take 100 xs)) else None)
      | _ \<Rightarrow> None)"

definition safe_details :: "dict \<Rightarrow> dict" where
  "safe_details details =
     fold (\<lambda>(k, v) acc. case safe_detail (take 64 k) v of None \<Rightarrow> acc | Some x \<Rightarrow> dset (take 64 k) x acc) details []"

definition CREATE_SAFETY_DETAIL_KEYS :: "string list" where
  "CREATE_SAFETY_DETAIL_KEYS = [''create_provenance'', ''mutation_possibility'', ''pre_create_episode_ids'',
     ''pre_create_snapshot_complete'', ''snapshot_completeness'', ''snapshot_degraded'', ''snapshot_evidence_source'']"

section \<open>Appending evidence\<close>

text \<open>The arguments of \<open>append_evidence\<close>.\<close>

record evidence_request =
  ev_platform :: string
  ev_media_kind :: string
  ev_operation :: string
  ev_outcome :: string
  ev_artifact :: "string option"
  ev_mutation_attempted :: bool
  ev_confirmation :: "string option"
  ev_verification :: string
  ev_native_state :: "string option"
  ev_transport :: "string option"
  ev_source :: "string option"
  ev_retry_blocked :: bool
  ev_code :: "string option"
  ev_details :: dict
  ev_create_safety :: "create_safety option"
  ev_at :: int
  ev_expected_seq :: "int option"
  ev_rearmable :: bool

definition nonempty :: "string option \<Rightarrow> bool" where
  "nonempty s = (s \<noteq> None \<and> s \<noteq> Some [])"

definition opt_text :: "nat \<Rightarrow> string option \<Rightarrow> json" where
  "opt_text n s = (if nonempty s then JStr (take n (the s)) else JNull)"

definition effective_verification :: "evidence_request \<Rightarrow> string" where
  "effective_verification q =
     (if nonempty (ev_confirmation q) \<and> ev_verification q = ''none'' then ''provider_readback'' else ev_verification q)"

text \<open>Everything \<open>append_evidence\<close> checks and computes before the update: the details and the status.\<close>

definition create_safety_details :: "evidence_request \<Rightarrow> dict \<Rightarrow> dict res" where
  "create_safety_details q details =
     (case ev_create_safety q of
        None \<Rightarrow> Inr details
      | Some s \<Rightarrow>
          (if (case operation_provenance (JStr (ev_operation q)) of None \<Rightarrow> False | Some ps \<Rightarrow> cs_provenance s \<notin> set ps)
           then Inl (pub_err ''create safety state provenance does not match its recording operation'')
           else and_then (validate_mutation (cs_provenance s) (cs_mutation s) (nonempty (ev_artifact q))) (\<lambda>_.
                and_then (safety_to_details s) (\<lambda>d. Inr (dupdate details d)))))"

definition prepare_evidence :: "evidence_request \<Rightarrow> (dict \<times> string) res" where
  "prepare_evidence q =
     and_then (validate_outcome (ev_outcome q)) (\<lambda>_.
     if list_ex (dhas (ev_details q)) CREATE_SAFETY_DETAIL_KEYS
     then Inl (pub_err ''create safety details must be persisted through create_safety_state'')
     else and_then (create_safety_details q (safe_details (ev_details q))) (\<lambda>details.
          and_then (provider_status (ev_outcome q) (effective_verification q) (ev_native_state q)) (\<lambda>status.
          Inr (details, status))))"

definition or_empty :: "json \<Rightarrow> json" where
  "or_empty v = (if truthy v then v else JStr [])"

text \<open>\<open>existing_key == dedupe_key\<close>.\<close>

definition same_target :: "publication_identity \<Rightarrow> evidence_request \<Rightarrow> dict \<Rightarrow> bool" where
  "same_target i q r = (dget r ''job_id'' = JStr (pi_job_id i) \<and> dget r ''week'' = JStr (pi_week i)
     \<and> dget r ''article_sha256'' = JStr (pi_article i) \<and> dget r ''manifest_sha256'' = JStr (pi_manifest i)
     \<and> dget r ''publish_run_id'' = JStr (pi_run_id i) \<and> dget r ''platform'' = JStr (ev_platform q)
     \<and> dget r ''media_kind'' = JStr (ev_media_kind q))"

definition same_key :: "publication_identity \<Rightarrow> evidence_request \<Rightarrow> dict \<Rightarrow> bool" where
  "same_key i q r = (same_target i q r \<and> dget r ''operation'' = JStr (ev_operation q)
     \<and> dget r ''outcome'' = JStr (ev_outcome q)
     \<and> or_empty (dget r ''provider_artifact_id'') = JStr (str_or_empty (ev_artifact q)))"

definition is_claim :: "dict \<Rightarrow> bool" where
  "is_claim r = list_ex (\<lambda>op. dget r ''operation'' = JStr op) REARMABLE_CLAIM_OPERATIONS"

text \<open>\<open>records[duplicate_index + 1:]\<close> for the last record with the key.\<close>

fun after_last :: "('a \<Rightarrow> bool) \<Rightarrow> 'a list \<Rightarrow> 'a list option" where
  "after_last P [] = None"
| "after_last P (x # xs) =
     (case after_last P xs of Some ys \<Rightarrow> Some ys | None \<Rightarrow> if P x then Some xs else None)"

text \<open>The record a re-armable claim finds after the last claim of its target.\<close>

definition retry_authorization :: "dict list \<Rightarrow> dict option" where
  "retry_authorization rs = fold (\<lambda>r a. if is_claim r then None else Some r) rs None"

definition replayed :: "publication_identity \<Rightarrow> evidence_request \<Rightarrow> dict list \<Rightarrow> bool" where
  "replayed i q rs =
     (case after_last (same_key i q) rs of
        None \<Rightarrow> False
      | Some later \<Rightarrow>
          (let same = filter (same_target i q) later
           in if ev_rearmable q
              then (case retry_authorization same of None \<Rightarrow> True | Some r \<Rightarrow> dget r ''retry_blocked'' \<noteq> JBool False)
              else ev_retry_blocked q \<or> \<not> list_ex is_claim same))"

text \<open>\<open>str(v).isdigit()\<close>; the text of the other values is never all digits.\<close>

definition py_isdigit :: "char \<Rightarrow> bool" where
  "py_isdigit c = (is_digit c \<or> (of_char c :: nat) \<in> {178, 179, 185})"

fun seq_isdigit :: "json \<Rightarrow> bool" where
  "seq_isdigit (JInt n) = (0 \<le> n)"
| "seq_isdigit (JStr s) = (s \<noteq> [] \<and> list_all py_isdigit s)"
| "seq_isdigit _ = False"

definition next_evidence_seq :: "dict list \<Rightarrow> int res" where
  "next_evidence_seq rs =
     and_then (map_res (\<lambda>r. py_int (dget r ''seq'')) (filter (\<lambda>r. seq_isdigit (dget r ''seq'')) rs))
       (\<lambda>ns. Inr (fold max ns 0 + 1))"

definition without_nulls :: "dict \<Rightarrow> dict" where
  "without_nulls d = filter (\<lambda>kv. snd kv \<noteq> JNull) d"

text \<open>\<open>PublicationEvidence(...).to_dict()\<close>.\<close>

definition evidence_record ::
  "publication_identity \<Rightarrow> evidence_request \<Rightarrow> dict \<Rightarrow> string \<Rightarrow> int \<Rightarrow> dict" where
  "evidence_record i q details status n =
     (let ts = JStr (iso_z (ev_at q)); confirmed = nonempty (ev_confirmation q) in without_nulls
     [(''seq'', JInt n), (''at'', ts), (''week'', JStr (pi_week i)), (''publish_run_id'', JStr (pi_run_id i)),
      (''article_sha256'', JStr (pi_article i)), (''manifest_sha256'', JStr (pi_manifest i)),
      (''job_id'', JStr (pi_job_id i)), (''platform'', JStr (take 64 (ev_platform q))),
      (''media_kind'', JStr (take 32 (ev_media_kind q))), (''operation'', JStr (take 64 (ev_operation q))),
      (''outcome'', JStr (ev_outcome q)), (''status'', JStr status),
      (''transport_status'', JStr (take 64 (if nonempty (ev_transport q) then the (ev_transport q)
         else if ev_mutation_attempted q then ''mutation_attempted'' else ''not_attempted''))),
      (''native_state'', opt_text 64 (ev_native_state q)), (''verification'', JStr (effective_verification q)),
      (''evidence_source'', opt_text 64 (if nonempty (ev_source q) then ev_source q else ev_confirmation q)),
      (''provider_id'', json_of_opt_str (ev_artifact q)), (''provider_artifact_id'', json_of_opt_str (ev_artifact q)),
      (''mutation_attempted'', JBool (ev_mutation_attempted q)),
      (''confirmation_source'', opt_text 64 (ev_confirmation q)),
      (''confirmed_at'', if confirmed then ts else JNull), (''retry_blocked'', JBool (ev_retry_blocked q)),
      (''code'', opt_text 64 (ev_code q)), (''checked_at'', ts), (''last_error_code'', opt_text 64 (ev_code q)),
      (''details'', if details = [] then JNull else JObj details)])"

text \<open>The \<open>seq\<close> of the last record of the platform and kind, \<open>None\<close> where there is none.\<close>

definition scoped_seq :: "evidence_request \<Rightarrow> json list \<Rightarrow> json" where
  "scoped_seq q rs = fold (\<lambda>x a. case x of
     JObj r \<Rightarrow> (if dget r ''platform'' = JStr (ev_platform q) \<and> dget r ''media_kind'' = JStr (ev_media_kind q)
               then dget r ''seq'' else a)
   | _ \<Rightarrow> a) rs JNull"

fun as_record :: "json \<Rightarrow> dict res" where
  "as_record (JObj d) = Inr d"
| "as_record _ = Inl (pub_err ''publication evidence contains a malformed record'')"

text \<open>The content a replay writes back: \<open>raw if raw is not None else legacy_raw or b""\<close>.\<close>

definition unchanged :: "blob option \<Rightarrow> blob option \<Rightarrow> blob" where
  "unchanged raw legacy = (case raw of Some b \<Rightarrow> b | None \<Rightarrow> (case legacy of Some b \<Rightarrow> b | None \<Rightarrow> Empty))"

text \<open>The content an update sees: the blob, or the legacy blob read before the update.\<close>

definition current_raw :: "blob option \<Rightarrow> blob option \<Rightarrow> blob option" where
  "current_raw raw legacy = (case raw of Some b \<Rightarrow> Some b | None \<Rightarrow> legacy)"

definition appended :: "dict \<Rightarrow> json list \<Rightarrow> dict \<Rightarrow> int \<Rightarrow> dict" where
  "appended document records record time = dupdate document
     [(''minimum_retention_days'', JInt 28), (''retention_policy'', JStr ''append_only_no_count_eviction''),
      (''records'', JList (records @ [JObj record])), (''updated_at'', JStr (iso_z time))]"

text \<open>\<open>_apply\<close> up to its result: the document and the record to append, none for a replay.\<close>

definition evidence_step ::
  "publication_identity \<Rightarrow> evidence_request \<Rightarrow> dict \<times> string \<Rightarrow> unit res \<Rightarrow> blob option \<Rightarrow> (dict \<times> dict option) res" where
  "evidence_step i q prepared authorize raw =
     and_then authorize (\<lambda>_.
     and_then (load_evidence raw (pi_job_id i) True) (\<lambda>document.
     if ev_expected_seq q \<noteq> None \<and> \<not> py_eq (scoped_seq q (records_of document)) (JInt (the (ev_expected_seq q)))
     then Inl (pub_err ''publication evidence changed since preconditions were checked'')
     else and_then (map_res as_record (records_of document)) (\<lambda>rs.
          if replayed i q rs then Inr (document, None)
          else and_then (next_evidence_seq rs) (\<lambda>n.
               Inr (document, Some (evidence_record i q (fst prepared) (snd prepared) n))))))"

text \<open>\<open>_apply\<close>.  A replay returns before \<open>captured\<close> is filled, whatever an earlier attempt left in it.\<close>

definition evidence_apply ::
  "publication_identity \<Rightarrow> evidence_request \<Rightarrow> dict \<times> string \<Rightarrow> unit res \<Rightarrow> blob option \<Rightarrow> dict callback" where
  "evidence_apply i q prepared authorize legacy captured raw =
     (case evidence_step i q prepared authorize (current_raw raw legacy) of
        Inl e \<Rightarrow> (captured, Inl e)
      | Inr (document, None) \<Rightarrow> (captured, Inr (unchanged raw legacy))
      | Inr (document, Some record) \<Rightarrow>
          (dupdate captured record, Inr (Doc (JObj (appended document (records_of document) record (ev_at q))))))"

text \<open>The result: the captured record, or nothing.  The update is the backend's.\<close>

definition finish_append :: "unit res \<times> dict \<times> 's \<Rightarrow> dict option res \<times> 's" where
  "finish_append x = (case x of
     (Inl e, captured, st) \<Rightarrow> (Inl e, st)
   | (Inr _, captured, st) \<Rightarrow> (Inr (if captured = [] then None else Some captured), st))"

definition append_evidence ::
  "store \<Rightarrow> publication_identity \<Rightarrow> evidence_request \<Rightarrow> unit res \<Rightarrow> dict option res \<times> store" where
  "append_evidence st i q authorize =
     (case prepare_evidence q of
        Inl e \<Rightarrow> (Inl e, st)
      | Inr prepared \<Rightarrow> finish_append (local_update
          (evidence_apply i q prepared authorize (st (legacy_evidence_path (pi_job_id i)))) [] st (evidence_path (pi_job_id i))))"

text \<open>The same call on the Azure backend, on the blob at \<open>evidence_path\<close>.\<close>

definition append_evidence_azure ::
  "(nat \<Rightarrow> attempt) \<Rightarrow> cell \<Rightarrow> blob option \<Rightarrow> publication_identity \<Rightarrow> evidence_request \<Rightarrow> unit res \<Rightarrow> dict option res \<times> cell" where
  "append_evidence_azure env c legacy i q authorize =
     (case prepare_evidence q of
        Inl e \<Rightarrow> (Inl e, c)
      | Inr prepared \<Rightarrow> finish_append (azure_update env (evidence_apply i q prepared authorize legacy) [] c))"

section \<open>Claims\<close>

definition claim_request :: "evidence_request \<Rightarrow> evidence_request" where
  "claim_request q = q\<lparr>ev_outcome := PUBLICATION_UNKNOWN, ev_mutation_attempted := False, ev_code := Some ''mutation_intent'',
     ev_artifact := None, ev_confirmation := None, ev_verification := ''none'', ev_native_state := None,
     ev_transport := None, ev_source := None, ev_expected_seq := None, ev_rearmable := True\<rparr>"

definition claim_evidence :: "store \<Rightarrow> publication_identity \<Rightarrow> evidence_request \<Rightarrow> dict option res \<times> store" where
  "claim_evidence st i q =
     (if ev_operation q \<notin> set REARMABLE_CLAIM_OPERATIONS then (Inl (pub_err ''operation is not a re-armable claim''), st)
      else append_evidence st i (claim_request q) (Inr ()))"

definition claim_evidence_azure ::
  "(nat \<Rightarrow> attempt) \<Rightarrow> cell \<Rightarrow> blob option \<Rightarrow> publication_identity \<Rightarrow> evidence_request \<Rightarrow> dict option res \<times> cell" where
  "claim_evidence_azure env c legacy i q =
     (if ev_operation q \<notin> set REARMABLE_CLAIM_OPERATIONS then (Inl (pub_err ''operation is not a re-armable claim''), c)
      else append_evidence_azure env c legacy i (claim_request q) (Inr ()))"

section \<open>Reading\<close>

definition read_evidence :: "store \<Rightarrow> string \<Rightarrow> dict option res" where
  "read_evidence st job =
     (case (case st (evidence_path job) of Some b \<Rightarrow> Some b | None \<Rightarrow> st (legacy_evidence_path job)) of
        None \<Rightarrow> Inr None
      | Some b \<Rightarrow> and_then (load_evidence (Some b) job False) (\<lambda>d. Inr (Some d)))"

definition outcome_key :: "string \<Rightarrow> string \<Rightarrow> string" where
  "outcome_key platform kind = platform @ '':'' @ kind"

text \<open>\<open>latest_outcomes\<close> as a dictionary from key to record.\<close>

definition note_outcome :: "json \<Rightarrow> dict \<Rightarrow> dict" where
  "note_outcome x acc = (case x of
     JObj r \<Rightarrow> (case (dget r ''platform'', dget r ''media_kind'') of
         (JStr p, JStr k) \<Rightarrow> dset (outcome_key p k) (JObj r) acc | _ \<Rightarrow> acc)
   | _ \<Rightarrow> acc)"

definition latest_outcomes :: "dict option \<Rightarrow> dict" where
  "latest_outcomes document = (case document of None \<Rightarrow> [] | Some d \<Rightarrow> fold note_outcome (records_of d) [])"

definition canonical_outcome :: "json \<Rightarrow> bool" where
  "canonical_outcome v = list_ex (\<lambda>x. v = JStr x) CANONICAL_OUTCOMES"

definition blocks_retry :: "dict \<Rightarrow> bool" where
  "blocks_retry r = (canonical_outcome (dget r ''outcome'') \<and> truthy (dget_or r ''retry_blocked'' (JBool True)))"

definition retry_is_blocked :: "dict option \<Rightarrow> string \<Rightarrow> string \<Rightarrow> bool" where
  "retry_is_blocked document platform kind =
     (case dget (latest_outcomes document) (outcome_key platform kind) of
        JObj r \<Rightarrow> r \<noteq> [] \<and> blocks_retry r | _ \<Rightarrow> False)"

definition safe_reconciliation_intent :: "dict \<Rightarrow> bool" where
  "safe_reconciliation_intent r =
     (dget r ''operation'' = JStr ''create_episode_intent'' \<and> dget r ''outcome'' = JStr PUBLICATION_UNKNOWN
      \<and> dget r ''mutation_attempted'' = JBool False \<and> \<not> truthy (dget r ''provider_id'')
      \<and> \<not> truthy (dget r ''provider_artifact_id'') \<and> dget r ''code'' = JStr ''mutation_intent''
      \<and> (case dget r ''details'' of
            JObj d \<Rightarrow> is_list (dget d ''pre_create_episode_ids'') \<and> dget d ''pre_create_snapshot_complete'' = JBool True
          | _ \<Rightarrow> False))"

fun blocking_record :: "json list \<Rightarrow> dict option" where
  "blocking_record [] = None"
| "blocking_record (x # xs) =
     (case x of
        JObj r \<Rightarrow>
          (if dget r ''platform'' \<noteq> JStr ''spotify'' \<or> dget r ''media_kind'' \<noteq> JStr ''video'' then blocking_record xs
           else if safe_reconciliation_intent r then None
           else if blocks_retry r then Some r else None)
      | _ \<Rightarrow> blocking_record xs)"

definition spotify_video_retry_blocking_record :: "dict option \<Rightarrow> dict option" where
  "spotify_video_retry_blocking_record document =
     (case document of None \<Rightarrow> None | Some d \<Rightarrow> blocking_record (rev (records_of d)))"

definition spotify_video_retry_is_blocked :: "dict option \<Rightarrow> bool" where
  "spotify_video_retry_is_blocked document = (spotify_video_retry_blocking_record document \<noteq> None)"

section \<open>The log\<close>

lemma dget_without_nulls: "distinct (map fst d) \<Longrightarrow> dget (without_nulls d) k = dget d k"
proof (induction d)
  case (Cons kv d)
  have "map_of d (fst kv) = None" using Cons.prems by (simp add: map_of_eq_None_iff)
  then have "dget d (fst kv) = JNull" by (simp add: dget_def)
  then show ?case using Cons by (cases kv) (auto simp: without_nulls_def)
qed (simp add: without_nulls_def)

lemma distinct_without_nulls: "distinct (map fst d) \<Longrightarrow> distinct (map fst (without_nulls d))"
  by (auto simp: without_nulls_def distinct_map inj_on_def intro!: distinct_filter)

text \<open>The fields a later reader looks at.\<close>

lemma evidence_record_fields:
  "dget (evidence_record i q details status n) ''seq'' = JInt n"
  "dget (evidence_record i q details status n) ''job_id'' = JStr (pi_job_id i)"
  "dget (evidence_record i q details status n) ''week'' = JStr (pi_week i)"
  "dget (evidence_record i q details status n) ''article_sha256'' = JStr (pi_article i)"
  "dget (evidence_record i q details status n) ''manifest_sha256'' = JStr (pi_manifest i)"
  "dget (evidence_record i q details status n) ''publish_run_id'' = JStr (pi_run_id i)"
  "dget (evidence_record i q details status n) ''platform'' = JStr (take 64 (ev_platform q))"
  "dget (evidence_record i q details status n) ''media_kind'' = JStr (take 32 (ev_media_kind q))"
  "dget (evidence_record i q details status n) ''operation'' = JStr (take 64 (ev_operation q))"
  "dget (evidence_record i q details status n) ''outcome'' = JStr (ev_outcome q)"
  "dget (evidence_record i q details status n) ''provider_artifact_id'' = json_of_opt_str (ev_artifact q)"
  "dget (evidence_record i q details status n) ''retry_blocked'' = JBool (ev_retry_blocked q)"
  unfolding evidence_record_def Let_def by (subst dget_without_nulls; simp)+

lemma evidence_record_distinct: "distinct (map fst (evidence_record i q details status n))"
  unfolding evidence_record_def Let_def by (rule distinct_without_nulls) simp

lemma evidence_record_nonempty: "evidence_record i q details status n \<noteq> []"
  using evidence_record_fields(1) [of i q details status n] by (auto simp del: evidence_record_fields)

lemma captured_record: "dupdate [] (evidence_record i q details status n) = evidence_record i q details status n"
  using dupdate_fresh [of "[]" "evidence_record i q details status n"] evidence_record_distinct [of i q details status n]
  by simp

text \<open>The log a pair of blobs stands for: the new path when it exists, else the legacy one.\<close>

definition log_of :: "blob option \<Rightarrow> string \<Rightarrow> json list" where
  "log_of raw job = (case load_evidence raw job True of Inr d \<Rightarrow> records_of d | Inl _ \<Rightarrow> [])"

definition log_in :: "store \<Rightarrow> string \<Rightarrow> json list" where
  "log_in st job = log_of (current_raw (st (evidence_path job)) (st (legacy_evidence_path job))) job"

lemma load_strict_Inr: "load_evidence raw job True = Inr d \<Longrightarrow>
    dget d ''schema_version'' = JStr EVIDENCE_SCHEMA_VERSION \<and> dget d ''job_id'' = JStr job
    \<and> is_list (dget d ''records'') \<and> (raw = None \<and> d = fresh_evidence job \<or> raw = Some (Doc (JObj d)))"
  by (cases raw; cases "the raw")
    (auto simp: load_evidence_def Let_def fresh_evidence_def split: json.splits if_splits)

lemma load_strict_Doc: "load_evidence (Some (Doc (JObj d))) job True = Inr d \<longleftrightarrow>
    dget d ''schema_version'' = JStr EVIDENCE_SCHEMA_VERSION \<and> dget d ''job_id'' = JStr job \<and> is_list (dget d ''records'')"
  by (auto simp: load_evidence_def Let_def)

lemma load_appended:
  "load_evidence raw job True = Inr d \<Longrightarrow>
   load_evidence (Some (Doc (JObj (appended d (records_of d) r t)))) job True = Inr (appended d (records_of d) r t)
   \<and> records_of (appended d (records_of d) r t) = records_of d @ [JObj r]"
  by (drule load_strict_Inr) (simp add: load_strict_Doc appended_def records_of_def)

text \<open>What one run of the callback does.\<close>

lemma map_res_as_record [simp]: "map_res as_record xs = Inr rs \<longleftrightarrow> xs = map JObj rs"
proof (induction xs arbitrary: rs)
  case (Cons x xs)
  then show ?case by (cases x; cases rs) (auto simp: and_then_Inr_conv)
qed auto

lemma evidence_step_Inr:
  "evidence_step i q prepared authorize raw = Inr (d, found) \<longleftrightarrow>
     authorize = Inr () \<and> load_evidence raw (pi_job_id i) True = Inr d
     \<and> \<not> (ev_expected_seq q \<noteq> None \<and> \<not> py_eq (scoped_seq q (records_of d)) (JInt (the (ev_expected_seq q))))
     \<and> (\<exists>rs. records_of d = map JObj rs
          \<and> (if replayed i q rs then found = None
             else \<exists>n. next_evidence_seq rs = Inr n \<and> found = Some (evidence_record i q (fst prepared) (snd prepared) n)))"
  by (auto simp: evidence_step_def and_then_Inr_conv split: if_splits)

lemma replayed_content:
  assumes "load_evidence (current_raw raw legacy) (pi_job_id i) True = Inr d" "records_of d = map JObj rs" "replayed i q rs"
  shows "current_raw (Some (unchanged raw legacy)) legacy = current_raw raw legacy"
proof -
  have "rs \<noteq> []" using assms(3) by (auto simp: replayed_def)
  then have "current_raw raw legacy \<noteq> None"
    using load_strict_Inr [OF assms(1)] assms(2) by (auto simp: fresh_evidence_def records_of_def)
  then show ?thesis by (auto simp: current_raw_def unchanged_def split: option.splits)
qed

text \<open>The update of the local store, on every branch.\<close>

lemma append_evidence_effect:
  assumes "append_evidence st i q authorize = (r, st')"
  shows "case r of
      Inl e \<Rightarrow> st' = st
    | Inr None \<Rightarrow> log_in st' (pi_job_id i) = log_in st (pi_job_id i)
        \<and> (\<exists>rs. log_in st (pi_job_id i) = map JObj rs \<and> replayed i q rs)
    | Inr (Some rec) \<Rightarrow> \<exists>rs prepared n. log_in st (pi_job_id i) = map JObj rs \<and> \<not> replayed i q rs
        \<and> prepare_evidence q = Inr prepared \<and> next_evidence_seq rs = Inr n
        \<and> rec = evidence_record i q (fst prepared) (snd prepared) n
        \<and> log_in st' (pi_job_id i) = log_in st (pi_job_id i) @ [JObj rec]"
proof (cases "prepare_evidence q")
  case (Inl e)
  then show ?thesis using assms by (auto simp: append_evidence_def)
next
  case (Inr prepared)
  let ?job = "pi_job_id i" let ?p = "evidence_path ?job" let ?l = "st (legacy_evidence_path ?job)"
  have paths: "legacy_evidence_path ?job \<noteq> ?p" by (simp add: evidence_path_def legacy_evidence_path_def)
  show ?thesis
  proof (cases "evidence_step i q prepared authorize (current_raw (st ?p) ?l)")
    case (Inl e)
    then have "evidence_apply i q prepared authorize ?l [] (st ?p) = ([], Inl e)" by (simp add: evidence_apply_def)
    then show ?thesis using assms Inr by (auto simp: append_evidence_def finish_append_def local_update_def)
  next
    case step: (Inr x)
    obtain d found where x: "x = (d, found)" by fastforce
    note facts = step [unfolded x evidence_step_Inr]
    then obtain rs where rs: "load_evidence (current_raw (st ?p) ?l) ?job True = Inr d" "records_of d = map JObj rs"
       "if replayed i q rs then found = None
        else \<exists>n. next_evidence_seq rs = Inr n \<and> found = Some (evidence_record i q (fst prepared) (snd prepared) n)"
      by blast
    have log: "log_in st ?job = map JObj rs" using rs(1,2) by (simp add: log_in_def log_of_def)
    show ?thesis
    proof (cases "replayed i q rs")
      case True
      then have "evidence_apply i q prepared authorize ?l [] (st ?p) = ([], Inr (unchanged (st ?p) ?l))"
        using step rs(3) by (simp add: x evidence_apply_def)
      then have "r = Inr None" "st' = st(?p \<mapsto> unchanged (st ?p) ?l)"
        using assms Inr by (auto simp: append_evidence_def finish_append_def local_update_def)
      then show ?thesis
        using True log replayed_content [OF rs(1,2) True] paths by (simp add: log_in_def) blast
    next
      case False
      then obtain n where n: "next_evidence_seq rs = Inr n"
          "found = Some (evidence_record i q (fst prepared) (snd prepared) n)" using rs(3) by auto
      let ?rec = "evidence_record i q (fst prepared) (snd prepared) n"
      have "evidence_apply i q prepared authorize ?l [] (st ?p)
          = (?rec, Inr (Doc (JObj (appended d (records_of d) ?rec (ev_at q)))))"
        using step n by (simp add: x evidence_apply_def captured_record)
      then have r: "r = Inr (Some ?rec)" "st' = st(?p \<mapsto> Doc (JObj (appended d (records_of d) ?rec (ev_at q))))"
        using assms Inr evidence_record_nonempty by (auto simp: append_evidence_def finish_append_def local_update_def)
      have "log_in st' ?job = log_in st ?job @ [JObj ?rec]"
        using load_appended [OF rs(1), of ?rec "ev_at q"] rs(2) log paths
        by (simp add: r(2) log_in_def log_of_def current_raw_def)
      then show ?thesis using r(1) log False n(1) Inr by auto
    qed
  qed
qed

lemma fold_max_ge: "m \<le> fold max ns m \<and> (\<forall>x \<in> set ns. x \<le> fold max ns (m :: int))"
proof (induction ns arbitrary: m)
  case (Cons a ns)
  have "max a m \<le> fold max ns (max a m)" "\<forall>x \<in> set ns. x \<le> fold max ns (max a m)"
    using Cons.IH [of "max a m"] by blast+
  then show ?case by simp
qed simp

lemma fold_max_le: "x \<in> insert m (set ns) \<Longrightarrow> x \<le> fold max ns (m :: int)"
  using fold_max_ge [of m ns] by auto

lemma map_res_mem: "map_res f xs = Inr ys \<Longrightarrow> x \<in> set xs \<Longrightarrow> \<exists>y \<in> set ys. f x = Inr y"
  by (induction xs arbitrary: ys) (auto simp: and_then_Inr_conv)

lemma next_evidence_seq_fresh:
  assumes "next_evidence_seq rs = Inr n" "r \<in> set rs" "dget r ''seq'' = JInt m"
  shows "m < n"
proof -
  obtain ns where ns: "map_res (\<lambda>r. py_int (dget r ''seq'')) (filter (\<lambda>r. seq_isdigit (dget r ''seq'')) rs) = Inr ns"
      "n = fold max ns 0 + 1"
    using assms(1) by (auto simp: next_evidence_seq_def and_then_Inr_conv)
  show ?thesis
  proof (cases "0 \<le> m")
    case True
    then have "m \<in> set ns" using map_res_mem [OF ns(1), of r] assms(2,3) by auto
    then show ?thesis using fold_max_le [of m 0 ns] ns(2) by simp
  next
    case False
    then show ?thesis using fold_max_le [of 0 0 ns] ns(2) by simp
  qed
qed

text \<open>The evidence log is append-only.  Every call of \<open>append_evidence\<close> raises and changes
  nothing, or returns nothing and keeps the log, or returns exactly the one record it appended, whose
  sequence number exceeds every integer number in the log.\<close>

theorem evidence_is_append_only:
  "case append_evidence st i q authorize of
     (Inl e, st') \<Rightarrow> st' = st
   | (Inr None, st') \<Rightarrow> log_in st' (pi_job_id i) = log_in st (pi_job_id i)
   | (Inr (Some rec), st') \<Rightarrow> log_in st' (pi_job_id i) = log_in st (pi_job_id i) @ [JObj rec]
       \<and> (\<exists>n. dget rec ''seq'' = JInt n
            \<and> list_all (\<lambda>x. case x of JObj r \<Rightarrow> (case dget r ''seq'' of JInt m \<Rightarrow> m < n | _ \<Rightarrow> True) | _ \<Rightarrow> True)
                (log_in st (pi_job_id i)))"
proof (cases "append_evidence st i q authorize")
  case (Pair r st')
  note eff = append_evidence_effect [OF Pair]
  show ?thesis
  proof (cases r)
    case (Inl e)
    then show ?thesis using eff Pair by simp
  next
    case ok: (Inr found)
    show ?thesis
    proof (cases found)
      case None
      then show ?thesis using eff Pair ok by simp
    next
      case (Some rec)
      then obtain rs prepared n where n: "log_in st (pi_job_id i) = map JObj rs" "next_evidence_seq rs = Inr n"
          "rec = evidence_record i q (fst prepared) (snd prepared) n"
          "log_in st' (pi_job_id i) = log_in st (pi_job_id i) @ [JObj rec]"
        using eff ok by auto
      have "dget rec ''seq'' = JInt n" by (simp add: n(3) evidence_record_fields)
      moreover have "list_all (\<lambda>x. case x of JObj r \<Rightarrow> (case dget r ''seq'' of JInt m \<Rightarrow> m < n | _ \<Rightarrow> True) | _ \<Rightarrow> True)
          (log_in st (pi_job_id i))"
        using next_evidence_seq_fresh [OF n(2)] by (auto simp: n(1) list_all_iff split: json.splits)
      ultimately show ?thesis using Pair ok Some n(4) by simp
    qed
  qed
qed

section \<open>Claims\<close>

lemma after_last_append: "after_last P (xs @ ys) =
    (case after_last P ys of Some zs \<Rightarrow> Some zs | None \<Rightarrow> map_option (\<lambda>zs. zs @ ys) (after_last P xs))"
  by (induction xs) (auto split: option.splits)

lemma after_last_suffix: "after_last P xs = Some ys \<Longrightarrow> \<exists>zs x. xs = zs @ x # ys \<and> P x \<and> \<not> list_ex P ys"
proof (induction xs)
  case (Cons x xs)
  have none: "after_last P xs = None \<Longrightarrow> \<not> list_ex P xs"
    by (induction xs) (auto split: option.splits if_splits)
  show ?case
  proof (cases "after_last P xs")
    case None
    then show ?thesis using Cons.prems none by (auto split: if_splits intro: exI [of _ "[]"])
  next
    case (Some zs)
    then show ?thesis using Cons by (auto intro: exI [of _ "x # _"])
  qed
qed simp

lemma retry_authorization_Some:
  "retry_authorization rs = Some r \<Longrightarrow> r \<in> set rs \<and> \<not> is_claim r"
proof (induction rs rule: rev_induct)
  case (snoc x xs)
  then show ?case by (auto simp: retry_authorization_def split: if_splits)
qed (simp add: retry_authorization_def)

text \<open>What may follow a claim without authorizing the next one.\<close>

definition authorizes :: "publication_identity \<Rightarrow> evidence_request \<Rightarrow> dict \<Rightarrow> bool" where
  "authorizes i q r \<longleftrightarrow> same_target i q r \<and> \<not> is_claim r \<and> dget r ''retry_blocked'' = JBool False"

lemma replayed_after_claim:
  assumes "ev_rearmable q" "same_key i q r" "\<not> list_ex (authorizes i q) later"
  shows "replayed i q (rs @ r # later)"
proof -
  obtain zs where zs: "after_last (same_key i q) (rs @ r # later) = Some zs"
      "set zs \<subseteq> set later"
  proof (cases "after_last (same_key i q) later")
    case None
    then have "after_last (same_key i q) (rs @ r # later) = Some later"
      using assms(2) by (simp add: after_last_append)
    then show ?thesis using that by blast
  next
    case (Some ys)
    then obtain as x where "later = as @ x # ys" using after_last_suffix by blast
    then show ?thesis using that [of ys] Some by (auto simp: after_last_append)
  qed
  show ?thesis
  proof (cases "retry_authorization (filter (same_target i q) zs)")
    case None
    then show ?thesis using zs(1) assms(1) by (simp add: replayed_def Let_def)
  next
    case (Some a)
    have "\<not> authorizes i q a"
      using retry_authorization_Some [OF Some] zs(2) assms(3) by (auto simp: list_ex_iff)
    then show ?thesis
      using zs(1) assms(1) Some retry_authorization_Some [OF Some]
      by (auto simp: replayed_def Let_def authorizes_def)
  qed
qed

text \<open>The record of a claim has the claim's key: nothing of it is cut off.\<close>

definition short_target :: "evidence_request \<Rightarrow> bool" where
  "short_target q \<longleftrightarrow> length (ev_platform q) \<le> 64 \<and> length (ev_media_kind q) \<le> 32 \<and> length (ev_operation q) \<le> 64"

lemma same_key_record:
  "short_target q \<Longrightarrow> ev_artifact q \<noteq> Some [] \<Longrightarrow> same_key i q (evidence_record i q details status n)"
  by (auto simp: same_key_def same_target_def evidence_record_fields short_target_def or_empty_def str_or_empty_def
      json_of_opt_str_def split: option.splits)

lemma same_key_cong:
  "ev_platform p = ev_platform q \<Longrightarrow> ev_media_kind p = ev_media_kind q \<Longrightarrow> same_target i p = same_target i q"
  by (simp add: same_target_def fun_eq_iff)

text \<open>Claim C21: a claim consumes its authorization.  After a granted claim, as long as no record that follows
  it in the log authorizes a retry of its target, no later claim of the same publication, provider, media kind and
  operation is granted: the call returns nothing and keeps the log, or fails.  Each call is one update that nobody
  contends, with names that fit their fields; a claim of the other operation is a claim of its own.\<close>

theorem claim_consumes_authorization:
  assumes "claim_evidence st i q = (Inr (Some rec), st1)" and "short_target q"
    and "log_in st2 (pi_job_id i) = log_in st1 (pi_job_id i) @ map JObj later"
    and "\<not> list_ex (authorizes i (claim_request q)) later"
    and "claim_evidence st2 i q' = (r, st3)"
    and "ev_platform q' = ev_platform q" "ev_media_kind q' = ev_media_kind q" "ev_operation q' = ev_operation q"
  shows "(\<exists>e. r = Inl e) \<and> st3 = st2 \<or> r = Inr None \<and> log_in st3 (pi_job_id i) = log_in st2 (pi_job_id i)"
proof -
  have op: "ev_operation q \<in> set REARMABLE_CLAIM_OPERATIONS"
    using assms(1) by (auto simp: claim_evidence_def split: if_splits)
  have a1: "append_evidence st i (claim_request q) (Inr ()) = (Inr (Some rec), st1)"
    using assms(1) op by (simp add: claim_evidence_def)
  have a2: "append_evidence st2 i (claim_request q') (Inr ()) = (r, st3)"
    using assms(5,8) op by (simp add: claim_evidence_def)
  obtain rs details status n where rs: "log_in st1 (pi_job_id i) = map JObj (rs @ [rec])"
      "rec = evidence_record i (claim_request q) details status n"
    using append_evidence_effect [OF a1] by auto
  have "same_key i (claim_request q) rec"
    unfolding rs(2) using assms(2) by (intro same_key_record) (simp_all add: claim_request_def short_target_def)
  then have key: "same_key i (claim_request q') rec"
    using assms(6-8) by (simp add: same_key_def same_target_def claim_request_def)
  have tgt: "authorizes i (claim_request q') = authorizes i (claim_request q)"
    using assms(6,7) by (simp add: authorizes_def same_target_def claim_request_def fun_eq_iff)
  have "ev_rearmable (claim_request q')" by (simp add: claim_request_def)
  then have replay: "replayed i (claim_request q') (rs @ rec # later)"
    using key assms(4) unfolding tgt [symmetric] by (rule replayed_after_claim)
  have log: "log_in st2 (pi_job_id i) = map JObj (rs @ rec # later)" using assms(3) rs(1) by simp
  show ?thesis
  proof (cases r)
    case (Inl e)
    then show ?thesis using append_evidence_effect [OF a2] by simp
  next
    case (Inr found)
    show ?thesis
    proof (cases found)
      case None
      then show ?thesis using append_evidence_effect [OF a2] Inr by simp
    next
      case (Some x)
      then obtain rs' where rs': "log_in st2 (pi_job_id i) = map JObj rs'" "\<not> replayed i (claim_request q') rs'"
        using append_evidence_effect [OF a2] Inr by auto
      have "rs' = rs @ rec # later"
        using rs'(1) log by (metis (mono_tags, lifting) json.inject(6) list.inj_map_strong)
      then show ?thesis using rs'(2) replay by simp
    qed
  qed
qed

section \<open>Retry blocking\<close>

lemma dget_or_dget: "dget r k \<noteq> JNull \<Longrightarrow> dget_or r k v = dget r k"
  by (auto simp: dget_def dget_or_def split: option.splits)

text \<open>Recorded outcomes gate retries.  After an appended record, the evidence reads back and a retry
  of its platform and kind is blocked exactly when the record says so.\<close>

theorem append_gates_retry:
  assumes "append_evidence st i q authorize = (Inr (Some rec), st')" and "short_target q"
  shows "\<exists>d. read_evidence st' (pi_job_id i) = Inr (Some d)
    \<and> retry_is_blocked (Some d) (ev_platform q) (ev_media_kind q) = ev_retry_blocked q"
proof -
  obtain rs prepared n where rec: "prepare_evidence q = Inr prepared"
      "rec = evidence_record i q (fst prepared) (snd prepared) n"
      "log_in st' (pi_job_id i) = log_in st (pi_job_id i) @ [JObj rec]"
    using append_evidence_effect [OF assms(1)] by auto
  have out: "ev_outcome q \<in> set CANONICAL_OUTCOMES"
    using rec(1) by (auto simp: prepare_evidence_def validate_outcome_def split: if_splits)
  obtain d where d: "load_evidence (current_raw (st' (evidence_path (pi_job_id i))) (st' (legacy_evidence_path (pi_job_id i)))) (pi_job_id i) True = Inr d"
      "records_of d = log_in st (pi_job_id i) @ [JObj rec]"
    using rec(3) by (auto simp: log_in_def log_of_def split: sum.splits)
  have raw: "current_raw (st' (evidence_path (pi_job_id i))) (st' (legacy_evidence_path (pi_job_id i))) = Some (Doc (JObj d))"
    using load_strict_Inr [OF d(1)] d(2) by (auto simp: fresh_evidence_def records_of_def)
  have "read_evidence st' (pi_job_id i) = Inr (Some d)"
    using d(1) raw by (auto simp: read_evidence_def current_raw_def load_evidence_def Let_def split: option.splits if_splits)
  moreover have "dget (latest_outcomes (Some d)) (outcome_key (ev_platform q) (ev_media_kind q)) = JObj rec"
    using d(2) assms(2)
    by (simp add: latest_outcomes_def note_outcome_def rec(2) evidence_record_fields short_target_def)
  moreover have "blocks_retry rec = ev_retry_blocked q"
    using out by (auto simp: blocks_retry_def rec(2) evidence_record_fields dget_or_dget canonical_outcome_def list_ex_iff)
  moreover have "rec \<noteq> []" unfolding rec(2) by (rule evidence_record_nonempty)
  ultimately show ?thesis by (auto simp: retry_is_blocked_def)
qed

section \<open>A contended claim\<close>

definition idle :: "nat \<Rightarrow> attempt" where
  "idle n = Turn (\<lambda>s. s)"

text \<open>A rival writes between the first read and the first conditional write, and nobody does afterwards.\<close>

definition contended :: "cell \<Rightarrow> nat \<Rightarrow> attempt" where
  "contended rival n = Turn (if n = 4 then (\<lambda>_. rival) else (\<lambda>s. s))"

lemma claim_azure_idle:
  assumes "claim_evidence_azure idle c legacy i q = (Inr (Some rec), c1)"
  obtains prepared d rs n where "ev_operation q \<in> set REARMABLE_CLAIM_OPERATIONS"
    "prepare_evidence (claim_request q) = Inr prepared"
    "load_evidence (current_raw (cl_content c) legacy) (pi_job_id i) True = Inr d" "records_of d = map JObj rs"
    "rec = evidence_record i (claim_request q) (fst prepared) (snd prepared) n"
    "evidence_apply i (claim_request q) prepared (Inr ()) legacy [] (cl_content c)
       = (rec, Inr (Doc (JObj (appended d (records_of d) rec (ev_at q)))))"
    "c1 = write_cell (Doc (JObj (appended d (records_of d) rec (ev_at q)))) c"
proof -
  have op: "ev_operation q \<in> set REARMABLE_CLAIM_OPERATIONS"
    using assms by (auto simp: claim_evidence_azure_def split: if_splits)
  obtain prepared where prep: "prepare_evidence (claim_request q) = Inr prepared"
    using assms op by (auto simp: claim_evidence_azure_def append_evidence_azure_def split: sum.splits)
  let ?f = "evidence_apply i (claim_request q) prepared (Inr ()) legacy"
  have run: "finish_append (case ?f [] (cl_content c) of (c', Inl e) \<Rightarrow> (Inl e, c', c)
      | (c', Inr b) \<Rightarrow> (Inr (), c', write_cell b c)) = (Inr (Some rec), c1)"
    using assms op prep azure_update_alone [of idle ?f "[]" c]
    by (simp add: claim_evidence_azure_def append_evidence_azure_def idle_def)
  obtain captured x where fx: "?f [] (cl_content c) = (captured, x)" by (cases "?f [] (cl_content c)")
  obtain b where "x = Inr b" using run [unfolded fx] by (cases x) (simp_all add: finish_append_def)
  then have f: "?f [] (cl_content c) = (captured, Inr b)" "captured = rec" "rec \<noteq> []" "c1 = write_cell b c"
    using fx run [unfolded fx] by (simp_all add: finish_append_def split: if_splits)
  let ?step = "evidence_step i (claim_request q) prepared (Inr ()) (current_raw (cl_content c) legacy)"
  obtain d found where step: "?step = Inr (d, found)"
    using f(1) by (cases ?step) (auto simp: evidence_apply_def)
  have "found \<noteq> None" using f(1-3) step by (cases found) (auto simp: evidence_apply_def)
  then obtain n rs where n: "found = Some (evidence_record i (claim_request q) (fst prepared) (snd prepared) n)"
      "load_evidence (current_raw (cl_content c) legacy) (pi_job_id i) True = Inr d" "records_of d = map JObj rs"
    using step [unfolded evidence_step_Inr] by (metis option.inject)
  have req: "ev_at (claim_request q) = ev_at q" by (simp add: claim_request_def)
  have run1: "?f [] (cl_content c) = (evidence_record i (claim_request q) (fst prepared) (snd prepared) n,
      Inr (Doc (JObj (appended d (records_of d) (evidence_record i (claim_request q) (fst prepared) (snd prepared) n) (ev_at q)))))"
    by (simp add: evidence_apply_def step n(1) captured_record req)
  then have rec: "rec = evidence_record i (claim_request q) (fst prepared) (snd prepared) n" using f(1,2) by simp
  show ?thesis
    by (rule that [OF op prep n(2,3) rec]) (use run1 f in \<open>auto simp: rec\<close>)
qed

text \<open>Claim C33: a contended claim is granted twice.  Two workers claim the same provider mutation on the Azure
  backend and each alone would get it.  When one of them writes between the other's read and conditional
  write, the loser's second attempt finds the rival's claim and writes nothing new, but \<open>captured\<close> still
  holds the record of its first attempt: both calls return a record, and the log holds only the rival's.\<close>

theorem contended_claim_granted_twice:
  assumes "claim_evidence_azure idle c legacy i q = (Inr (Some rec), c0)"
    and "claim_evidence_azure idle c legacy i rival = (Inr (Some rec'), c1)"
    and "ev_platform rival = ev_platform q" "ev_media_kind rival = ev_media_kind q" "ev_operation rival = ev_operation q"
    and "short_target q"
  shows "\<exists>c2. claim_evidence_azure (contended c1) c legacy i q = (Inr (Some rec), c2) \<and> cl_content c2 = cl_content c1"
proof -
  obtain prepared d rs n where q: "ev_operation q \<in> set REARMABLE_CLAIM_OPERATIONS"
    "prepare_evidence (claim_request q) = Inr prepared"
    "load_evidence (current_raw (cl_content c) legacy) (pi_job_id i) True = Inr d" "records_of d = map JObj rs"
    "rec = evidence_record i (claim_request q) (fst prepared) (snd prepared) n"
    "evidence_apply i (claim_request q) prepared (Inr ()) legacy [] (cl_content c)
       = (rec, Inr (Doc (JObj (appended d (records_of d) rec (ev_at q)))))"
    by (rule claim_azure_idle [OF assms(1)])
  obtain prepared' n' where r: "rec' = evidence_record i (claim_request rival) (fst prepared') (snd prepared') n'"
    "c1 = write_cell (Doc (JObj (appended d (records_of d) rec' (ev_at rival)))) c"
    by (rule claim_azure_idle [OF assms(2)]) (use q(3) in auto)
  let ?b = "Doc (JObj (appended d (records_of d) rec' (ev_at rival)))"
  let ?f = "evidence_apply i (claim_request q) prepared (Inr ()) legacy"
  have loaded: "load_evidence (current_raw (Some ?b) legacy) (pi_job_id i) True = Inr (appended d (records_of d) rec' (ev_at rival))"
      "records_of (appended d (records_of d) rec' (ev_at rival)) = map JObj (rs @ [rec'])"
    using load_appended [OF q(3), of rec' "ev_at rival"] q(4) by (simp_all add: current_raw_def)
  have "same_key i (claim_request rival) rec'"
    unfolding r(1) using assms(3-6) by (intro same_key_record) (simp_all add: claim_request_def short_target_def)
  then have "same_key i (claim_request q) rec'"
    using assms(3-5) by (simp add: same_key_def same_target_def claim_request_def)
  have expected: "ev_expected_seq (claim_request q) = None" by (simp add: claim_request_def)
  from \<open>same_key i (claim_request q) rec'\<close> have "replayed i (claim_request q) (rs @ rec' # [])"
    by (intro replayed_after_claim) (simp_all add: claim_request_def)
  then have "evidence_step i (claim_request q) prepared (Inr ()) (current_raw (Some ?b) legacy)
      = Inr (appended d (records_of d) rec' (ev_at rival), None)"
    using loaded by (auto simp: evidence_step_Inr expected intro!: exI [of _ "rs @ [rec']"])
  then have second: "?f rec (Some ?b) = (rec, Inr ?b)"
    by (simp add: evidence_apply_def unchanged_def)
  have e: "etag c1 \<noteq> etag c" by (simp add: r(2) etag_def write_cell_def)
  have "azure_update (contended c1) ?f [] c = (Inr (), rec, write_cell ?b c1)"
    using q(6) second e
    by (simp add: azure_update_def eval_nat_numeral contended_def Let_def r(2) write_cell_def)
  then have "claim_evidence_azure (contended c1) c legacy i q = (Inr (Some rec), write_cell ?b c1)"
    using q(1,2,5) evidence_record_nonempty by (simp add: claim_evidence_azure_def append_evidence_azure_def finish_append_def)
  then show ?thesis by (simp add: r(2) write_cell_def)
qed

definition sample_identity :: publication_identity where
  "sample_identity = \<lparr>pi_job_id = ''j'', pi_week = ''2026-W07'', pi_run_id = ''7'', pi_article = ''a'', pi_manifest = ''m''\<rparr>"

definition sample_claim :: evidence_request where
  "sample_claim = \<lparr>ev_platform = ''youtube'', ev_media_kind = ''video'', ev_operation = ''upload_intent'',
     ev_outcome = PUBLICATION_UNKNOWN, ev_artifact = None, ev_mutation_attempted = False, ev_confirmation = None,
     ev_verification = ''none'', ev_native_state = None, ev_transport = None, ev_source = None, ev_retry_blocked = True,
     ev_code = None, ev_details = [], ev_create_safety = None, ev_at = 0, ev_expected_seq = None, ev_rearmable = False\<rparr>"

definition later_claim :: evidence_request where
  "later_claim = sample_claim\<lparr>ev_at := micros 1\<rparr>"

lemma sample_short: "short_target sample_claim"
  by (simp add: sample_claim_def short_target_def)

lemma prepare_sample [simp]: "prepare_evidence (claim_request (sample_claim\<lparr>ev_at := t\<rparr>)) = Inr ([], ''unknown'')"
  by (simp add: prepare_evidence_def claim_request_def sample_claim_def validate_outcome_def CANONICAL_OUTCOMES_def
      create_safety_details_def safe_details_def provider_status_def effective_verification_def nonempty_def
      VERIFICATION_STATES_def PUBLISHED_def DRAFT_CREATED_def UPLOADED_def MANUAL_HANDOFF_REQUIRED_def
      PUBLICATION_UNKNOWN_def Let_def CREATE_SAFETY_DETAIL_KEYS_def)

lemma step_fresh: "evidence_step i (claim_request (sample_claim\<lparr>ev_at := t\<rparr>)) prepared (Inr ()) None
    = Inr (fresh_evidence (pi_job_id i), Some (evidence_record i (claim_request (sample_claim\<lparr>ev_at := t\<rparr>)) (fst prepared) (snd prepared) 1))"
  by (simp add: evidence_step_def load_evidence_def Let_def fresh_evidence_def records_of_def replayed_def next_evidence_seq_def)
    (simp add: claim_request_def)

lemma sample_claim_granted:
  "\<exists>rec c1. claim_evidence_azure idle \<lparr>cl_content = None, cl_version = 0\<rparr> None sample_identity (sample_claim\<lparr>ev_at := t\<rparr>)
     = (Inr (Some rec), c1)"
proof -
  have op: "ev_operation (sample_claim\<lparr>ev_at := t\<rparr>) \<in> set REARMABLE_CLAIM_OPERATIONS"
    by (simp add: sample_claim_def REARMABLE_CLAIM_OPERATIONS_def)
  have run: "azure_update idle f c s = (case f c (cl_content s) of (c', Inl e) \<Rightarrow> (Inl e, c', s)
      | (c', Inr b) \<Rightarrow> (Inr (), c', write_cell b s))" for f :: "dict callback" and c s
    by (rule azure_update_alone) (simp add: idle_def)
  show ?thesis
    unfolding claim_evidence_azure_def append_evidence_azure_def run prepare_sample
    using op by (simp add: finish_append_def evidence_apply_def current_raw_def step_fresh captured_record evidence_record_nonempty)
qed

theorem contended_claim_granted_twice_witness:
  "\<exists>rec rec' c1 c2. claim_evidence_azure idle \<lparr>cl_content = None, cl_version = 0\<rparr> None sample_identity later_claim = (Inr (Some rec'), c1)
     \<and> claim_evidence_azure (contended c1) \<lparr>cl_content = None, cl_version = 0\<rparr> None sample_identity sample_claim = (Inr (Some rec), c2)
     \<and> cl_content c2 = cl_content c1"
proof -
  have same: "sample_claim\<lparr>ev_at := 0\<rparr> = sample_claim" by (simp add: sample_claim_def)
  obtain rec c0 where 1: "claim_evidence_azure idle \<lparr>cl_content = None, cl_version = 0\<rparr> None sample_identity sample_claim
      = (Inr (Some rec), c0)" using sample_claim_granted [of 0] unfolding same by blast
  obtain rec' c1 where 2: "claim_evidence_azure idle \<lparr>cl_content = None, cl_version = 0\<rparr> None sample_identity later_claim
      = (Inr (Some rec'), c1)" using sample_claim_granted [of "micros 1"] unfolding later_claim_def by blast
  have "\<exists>c2. claim_evidence_azure (contended c1) \<lparr>cl_content = None, cl_version = 0\<rparr> None sample_identity sample_claim
      = (Inr (Some rec), c2) \<and> cl_content c2 = cl_content c1"
    by (rule contended_claim_granted_twice [OF 1 2 _ _ _ sample_short]) (simp_all add: later_claim_def)
  then show ?thesis using 2 by blast
qed

lemma sample_local:
  "\<exists>rec st1. claim_evidence Map.empty sample_identity sample_claim = (Inr (Some rec), st1)
     \<and> append_evidence Map.empty sample_identity (claim_request sample_claim) (Inr ()) = (Inr (Some rec), st1)"
proof -
  have same: "sample_claim\<lparr>ev_at := 0\<rparr> = sample_claim" by (simp add: sample_claim_def)
  have prep: "prepare_evidence (claim_request sample_claim) = Inr ([], ''unknown'')"
    using prepare_sample [of 0] by (simp only: same)
  have "\<exists>rec st1. append_evidence Map.empty sample_identity (claim_request sample_claim) (Inr ()) = (Inr (Some rec), st1)"
    using step_fresh [of sample_identity 0]
    by (simp add: same append_evidence_def prep finish_append_def local_update_def evidence_apply_def current_raw_def
        captured_record evidence_record_nonempty)
  moreover have "ev_operation sample_claim \<in> set REARMABLE_CLAIM_OPERATIONS"
    by (simp add: sample_claim_def REARMABLE_CLAIM_OPERATIONS_def)
  ultimately show ?thesis by (auto simp: claim_evidence_def)
qed

theorem claim_consumes_authorization_witness:
  "\<exists>rec st1 r st2. claim_evidence Map.empty sample_identity sample_claim = (Inr (Some rec), st1)
     \<and> claim_evidence st1 sample_identity later_claim = (r, st2) \<and> (r = Inr None \<or> (\<exists>e. r = Inl e))"
proof -
  obtain rec st1 where 1: "claim_evidence Map.empty sample_identity sample_claim = (Inr (Some rec), st1)"
    using sample_local by blast
  obtain r st2 where 2: "claim_evidence st1 sample_identity later_claim = (r, st2)" by fastforce
  have "(\<exists>e. r = Inl e) \<and> st2 = st1
      \<or> r = Inr None \<and> log_in st2 (pi_job_id sample_identity) = log_in st1 (pi_job_id sample_identity)"
    by (rule claim_consumes_authorization [OF 1 sample_short _ _ 2, of "[]"]) (simp_all add: later_claim_def)
  then show ?thesis using 1 2 by blast
qed

theorem append_gates_retry_witness:
  "\<exists>rec st1 d. append_evidence Map.empty sample_identity (claim_request sample_claim) (Inr ()) = (Inr (Some rec), st1)
     \<and> read_evidence st1 ''j'' = Inr (Some d) \<and> retry_is_blocked (Some d) ''youtube'' ''video''"
proof -
  obtain rec st1 where 1: "append_evidence Map.empty sample_identity (claim_request sample_claim) (Inr ()) = (Inr (Some rec), st1)"
    using sample_local by blast
  have "short_target (claim_request sample_claim)" by (simp add: sample_claim_def short_target_def claim_request_def)
  from append_gates_retry [OF 1 this] 1 show ?thesis
    by (auto simp: sample_identity_def claim_request_def sample_claim_def)
qed

theorem evidence_is_append_only_witness:
  "\<exists>rec st1. append_evidence Map.empty sample_identity (claim_request sample_claim) (Inr ()) = (Inr (Some rec), st1)
     \<and> log_in st1 ''j'' = [JObj rec]"
proof -
  obtain rec st1 where 1: "append_evidence Map.empty sample_identity (claim_request sample_claim) (Inr ()) = (Inr (Some rec), st1)"
    using sample_local by blast
  have "log_in Map.empty ''j'' = []"
    by (simp add: log_in_def log_of_def current_raw_def load_evidence_def Let_def fresh_evidence_def records_of_def)
  then show ?thesis
    using evidence_is_append_only [of Map.empty sample_identity "claim_request sample_claim" "Inr ()"] 1
    by (simp add: sample_identity_def)
qed

end
