(* ===== verification/ClipManifest.thy ===== *)
theory ClipManifest
  imports Json
begin

text \<open>
  \<open>podcaster/video/clip_manifest.py\<close>: what a recorded clip contains and where it may be cut
  or looped.  Times are whole milliseconds.  \<open>TrimRange\<close> and \<open>LoopSection\<close> (and
  \<open>SourceRange\<close> of \<open>edl.py\<close>) have the same two fields and methods, so they are one record.
\<close>

section \<open>Data\<close>

record ms_range =
  rg_start :: int
  rg_end :: int

type_synonym trim_range = ms_range
type_synonym loop_section = ms_range
type_synonym source_range = ms_range

abbreviation ms_range :: "int \<Rightarrow> int \<Rightarrow> ms_range" where
  "ms_range a b \<equiv> \<lparr>rg_start = a, rg_end = b\<rparr>"

definition rg_duration :: "ms_range \<Rightarrow> int" where
  "rg_duration r = rg_end r - rg_start r"

record clip_chapter =
  ch_label :: string
  ch_start :: int
  ch_end :: int

record clip_manifest =
  cm_clip_id :: string
  cm_duration_ms :: int
  cm_repo_url :: "string option"
  cm_chapters :: "clip_chapter list"
  cm_trim_ranges :: "trim_range list"
  cm_loop_sections :: "loop_section list"
  cm_is_fallback :: bool
  cm_schema_version :: string

definition CLIP_MANIFEST_SCHEMA_VERSION :: string where
  "CLIP_MANIFEST_SCHEMA_VERSION = ''1.0''"

definition trimmable_ms :: "clip_manifest \<Rightarrow> int" where
  "trimmable_ms m = (\<Sum>r\<leftarrow>cm_trim_ranges m. rg_duration r)"

definition min_trimmed_duration_ms :: "clip_manifest \<Rightarrow> int" where
  "min_trimmed_duration_ms m = cm_duration_ms m - trimmable_ms m"

text \<open>\<open>ClipManifest.covers\<close>, with the discussion length in seconds.\<close>

definition covers :: "clip_manifest \<Rightarrow> rat \<Rightarrow> bool" where
  "covers m discussion = (py_round (discussion * 1000) \<le> cm_duration_ms m)"

definition required_clip_seconds :: "rat \<Rightarrow> rat" where
  "required_clip_seconds d = (if d < 0 then 60 else max 60 (d * (3 / 2)))"

section \<open>Serialisation\<close>

definition range_to_dict :: "ms_range \<Rightarrow> json" where
  "range_to_dict r = JObj [(''start_ms'', JInt (rg_start r)), (''end_ms'', JInt (rg_end r))]"

definition range_from_dict :: "json \<Rightarrow> ms_range res" where
  "range_from_dict data =
     and_then (as_dict data) (\<lambda>d.
     and_then (and_then (dindex d ''start_ms'') py_int) (\<lambda>a.
     and_then (and_then (dindex d ''end_ms'') py_int) (\<lambda>b.
     Inr (ms_range a b))))"

definition chapter_to_dict :: "clip_chapter \<Rightarrow> json" where
  "chapter_to_dict c = JObj [(''label'', JStr (ch_label c)), (''start_ms'', JInt (ch_start c)),
     (''end_ms'', JInt (ch_end c))]"

definition chapter_from_dict :: "(json \<Rightarrow> string) \<Rightarrow> json \<Rightarrow> clip_chapter res" where
  "chapter_from_dict repr data =
     and_then (as_dict data) (\<lambda>d.
     and_then (dindex d ''label'') (\<lambda>l.
     and_then (and_then (dindex d ''start_ms'') py_int) (\<lambda>a.
     and_then (and_then (dindex d ''end_ms'') py_int) (\<lambda>b.
     Inr \<lparr>ch_label = py_str repr l, ch_start = a, ch_end = b\<rparr>))))"

text \<open>\<open>_parse_bool\<close>: real booleans, 0 and 1, and common spellings; anything else is refused.\<close>

definition true_tokens :: "string list" where
  "true_tokens = [''true'', ''t'', ''yes'', ''y'', ''1'']"

definition false_tokens :: "string list" where
  "false_tokens = [''false'', ''f'', ''no'', ''n'', ''0'', '''']"

fun parse_bool :: "json \<Rightarrow> bool res" where
  "parse_bool (JBool b) = Inr b"
| "parse_bool (JInt n) =
     (if n = 0 then Inr False else if n = 1 then Inr True
      else Inl (Raise ClipManifestErr ''non-boolean int value''))"
| "parse_bool (JStr s) =
     (let token = py_lower (py_strip s)
      in if token \<in> set true_tokens then Inr True
         else if token \<in> set false_tokens then Inr False
         else Inl (Raise ClipManifestErr ''unrecognized boolean value''))"
| "parse_bool _ = Inl (Raise ClipManifestErr ''unrecognized boolean value'')"

definition manifest_to_dict :: "clip_manifest \<Rightarrow> json" where
  "manifest_to_dict m = JObj
     [(''schema_version'', JStr (cm_schema_version m)),
      (''clip_id'', JStr (cm_clip_id m)),
      (''repo_url'', json_of_opt_str (cm_repo_url m)),
      (''duration_ms'', JInt (cm_duration_ms m)),
      (''is_fallback'', JBool (cm_is_fallback m)),
      (''chapters'', JList (map chapter_to_dict (cm_chapters m))),
      (''trim_ranges'', JList (map range_to_dict (cm_trim_ranges m))),
      (''loop_sections'', JList (map range_to_dict (cm_loop_sections m)))]"

definition manifest_from_dict :: "(json \<Rightarrow> string) \<Rightarrow> json \<Rightarrow> clip_manifest res" where
  "manifest_from_dict repr data =
     and_then (attr_dict data) (\<lambda>d.
     if dget d ''schema_version'' \<noteq> JStr CLIP_MANIFEST_SCHEMA_VERSION
     then Inl (Raise ClipManifestErr ''unknown or legacy clip manifest schema version'')
     else
       and_then (dindex d ''clip_id'') (\<lambda>cid.
       and_then (and_then (dindex d ''duration_ms'') py_int) (\<lambda>dur.
       and_then (and_then (iter_field d ''chapters'') (map_res (chapter_from_dict repr))) (\<lambda>chs.
       and_then (and_then (iter_field d ''trim_ranges'') (map_res range_from_dict)) (\<lambda>trs.
       and_then (and_then (iter_field d ''loop_sections'') (map_res range_from_dict)) (\<lambda>lss.
       and_then (parse_bool (dget_or d ''is_fallback'' (JBool False))) (\<lambda>fb.
       Inr \<lparr>cm_clip_id = py_str repr cid, cm_duration_ms = dur,
            cm_repo_url = opt_str_field repr d ''repo_url'', cm_chapters = chs,
            cm_trim_ranges = trs, cm_loop_sections = lss, cm_is_fallback = fb,
            cm_schema_version = py_str repr (dget d ''schema_version'')\<rparr>)))))))"

section \<open>Construction\<close>

definition safe_interior :: "int \<Rightarrow> int \<Rightarrow> int \<Rightarrow> int \<Rightarrow> (int \<times> int) option" where
  "safe_interior a b margin min_span =
     (let i = a + margin; j = b - margin in if min_span \<le> j - i then Some (i, j) else None)"

fun validate_chapters_from :: "int \<Rightarrow> int \<Rightarrow> clip_chapter list \<Rightarrow> unit res" where
  "validate_chapters_from dur prev_end [] = Inr ()"
| "validate_chapters_from dur prev_end (c # cs) =
     (if ch_end c \<le> ch_start c then Inl (Raise ClipManifestErr ''has non-positive duration'')
      else if ch_start c < 0 \<or> dur < ch_end c then Inl (Raise ClipManifestErr ''is outside the clip'')
      else if ch_start c < prev_end then Inl (Raise ClipManifestErr ''overlaps the previous chapter'')
      else validate_chapters_from dur (ch_end c) cs)"

definition validate_chapters :: "clip_chapter list \<Rightarrow> int \<Rightarrow> unit res" where
  "validate_chapters cs dur = validate_chapters_from dur 0 cs"

fun chapter_ranges :: "int \<Rightarrow> int \<Rightarrow> clip_chapter list \<Rightarrow> ms_range list" where
  "chapter_ranges margin min_span [] = []"
| "chapter_ranges margin min_span (c # cs) =
     (case safe_interior (ch_start c) (ch_end c) margin min_span of
        None \<Rightarrow> chapter_ranges margin min_span cs
      | Some (i, j) \<Rightarrow> ms_range i j # chapter_ranges margin min_span cs)"

definition build_clip_manifest ::
  "string \<Rightarrow> int \<Rightarrow> string option \<Rightarrow> clip_chapter list \<Rightarrow> bool \<Rightarrow> int \<Rightarrow> int \<Rightarrow> clip_manifest res" where
  "build_clip_manifest cid dur url chs fb margin min_span =
     (if dur \<le> 0 then Inl (Raise ClipManifestErr ''must have a positive duration'')
      else if fb \<and> (chs \<noteq> [] \<or> (url \<noteq> None \<and> url \<noteq> Some []))
      then Inl (Raise ClipManifestErr ''must be a static card with no chapters or repo_url'')
      else
        and_then (validate_chapters chs dur) (\<lambda>_.
        let rs = (if chs \<noteq> [] then chapter_ranges margin min_span chs
                  else if fb then [ms_range 0 dur] else [])
        in Inr \<lparr>cm_clip_id = cid, cm_duration_ms = dur, cm_repo_url = url, cm_chapters = chs,
                cm_trim_ranges = rs, cm_loop_sections = rs, cm_is_fallback = fb,
                cm_schema_version = CLIP_MANIFEST_SCHEMA_VERSION\<rparr>))"

section \<open>Well-formed manifests\<close>

text \<open>Ranges in timeline order, each of positive length, disjoint, inside \<open>[lo, hi]\<close>.\<close>

fun ranges_within :: "int \<Rightarrow> int \<Rightarrow> ms_range list \<Rightarrow> bool" where
  "ranges_within lo hi [] = (lo \<le> hi)"
| "ranges_within lo hi (r # rs) = (lo \<le> rg_start r \<and> rg_start r < rg_end r \<and> ranges_within (rg_end r) hi rs)"

definition manifest_ok :: "clip_manifest \<Rightarrow> bool" where
  "manifest_ok m \<longleftrightarrow> 0 < cm_duration_ms m
     \<and> ranges_within 0 (cm_duration_ms m) (cm_trim_ranges m)
     \<and> ranges_within 0 (cm_duration_ms m) (cm_loop_sections m)"

lemma ranges_within_le: "ranges_within lo hi rs \<Longrightarrow> lo \<le> hi"
  by (induction rs arbitrary: lo) force+

lemma ranges_within_mono: "ranges_within lo hi rs \<Longrightarrow> lo' \<le> lo \<Longrightarrow> ranges_within lo' hi rs"
  by (cases rs) auto

lemma ranges_within_bounds:
  "ranges_within lo hi rs \<Longrightarrow> r \<in> set rs \<Longrightarrow> lo \<le> rg_start r \<and> rg_start r < rg_end r \<and> rg_end r \<le> hi"
proof (induction rs arbitrary: lo)
  case Nil
  then show ?case by simp
next
  case (Cons x xs)
  then show ?case using ranges_within_le [of "rg_end x" hi xs] by fastforce
qed

lemma chapter_ranges_within:
  assumes "0 \<le> margin" "0 < min_span"
  shows "validate_chapters_from dur p cs = Inr () \<Longrightarrow> p \<le> dur \<Longrightarrow>
    ranges_within p dur (chapter_ranges margin min_span cs)"
proof (induction cs arbitrary: p)
  case Nil
  then show ?case by simp
next
  case (Cons c cs)
  then have c: "p \<le> ch_start c" "ch_start c < ch_end c" "ch_end c \<le> dur"
    and v: "validate_chapters_from dur (ch_end c) cs = Inr ()"
    by (auto split: if_splits)
  have IH: "ranges_within (ch_end c) dur (chapter_ranges margin min_span cs)"
    using Cons.IH [OF v] c by simp
  show ?case
    using c assms ranges_within_mono [OF IH] by (auto simp: safe_interior_def Let_def)
qed

text \<open>Manifest construction.  Every manifest that \<open>build_clip_manifest\<close> returns has
  a positive duration, and its derived trim ranges and loop sections are in order, pairwise
  disjoint, of positive length and inside the clip, whatever the chapters.\<close>

theorem build_clip_manifest_ok:
  assumes "build_clip_manifest cid dur url chs fb margin min_span = Inr m" "0 \<le> margin" "0 < min_span"
  shows "manifest_ok m \<and> cm_duration_ms m = dur \<and> cm_trim_ranges m = cm_loop_sections m"
  using assms chapter_ranges_within [OF assms(2,3), of dur 0 chs]
  by (auto simp: build_clip_manifest_def validate_chapters_def manifest_ok_def and_then_Inr_conv
      Let_def split: if_splits)

definition sample_manifest :: clip_manifest where
  "sample_manifest = \<lparr>cm_clip_id = ''clip-000'', cm_duration_ms = 60000, cm_repo_url = Some ''r'',
     cm_chapters = [\<lparr>ch_label = ''readme'', ch_start = 0, ch_end = 60000\<rparr>],
     cm_trim_ranges = [ms_range 500 59500], cm_loop_sections = [ms_range 500 59500],
     cm_is_fallback = False, cm_schema_version = ''1.0''\<rparr>"

lemma sample_manifest_built:
  "build_clip_manifest ''clip-000'' 60000 (Some ''r'') [\<lparr>ch_label = ''readme'', ch_start = 0, ch_end = 60000\<rparr>]
     False 500 1000 = Inr sample_manifest"
  by (simp add: build_clip_manifest_def validate_chapters_def safe_interior_def sample_manifest_def
      CLIP_MANIFEST_SCHEMA_VERSION_def Let_def)

theorem build_clip_manifest_ok_witness:
  "manifest_ok sample_manifest \<and> cm_duration_ms sample_manifest = 60000
    \<and> cm_trim_ranges sample_manifest = cm_loop_sections sample_manifest"
  by (rule build_clip_manifest_ok [OF sample_manifest_built]) simp_all

text \<open>Generate long, trim to fit.  A clip recorded for at least
  \<open>required_clip_seconds\<close> of its discussion covers the discussion, and the required length is
  never below a minute nor below one and a half times the discussion.\<close>

theorem required_clip_covers:
  assumes "1000 * required_clip_seconds s \<le> of_int (cm_duration_ms m)"
  shows "covers m s \<and> 60 \<le> required_clip_seconds s \<and> s * 3 / 2 \<le> required_clip_seconds s"
proof -
  have r: "60 \<le> required_clip_seconds s" "s * 3 / 2 \<le> required_clip_seconds s"
    by (auto simp: required_clip_seconds_def)
  then have "s \<le> required_clip_seconds s" by linarith
  then have "s * 1000 \<le> of_int (cm_duration_ms m)" using assms by linarith
  then have "py_round (s * 1000) \<le> py_round (of_int (cm_duration_ms m))"
    by (rule py_round_mono)
  then show ?thesis using r by (simp add: covers_def)
qed

theorem required_clip_covers_witness:
  "covers sample_manifest 40 \<and> 60 \<le> required_clip_seconds 40 \<and> 40 * 3 / 2 \<le> required_clip_seconds 40"
  by (rule required_clip_covers) (simp add: required_clip_seconds_def sample_manifest_def)

section \<open>Round trip\<close>

text \<open>
  An optional string read with \<open>str(x) if x else None\<close> loses the empty string, so a value
  that round-trips has no empty optional string.
\<close>

definition opt_nonempty :: "string option \<Rightarrow> bool" where
  "opt_nonempty s = (s \<noteq> Some [])"

lemma opt_str_field_json [simp]:
  assumes "dget d k = json_of_opt_str s" "opt_nonempty s"
  shows "opt_str_field repr d k = s"
  using assms by (cases s) (auto simp: opt_str_field_def opt_nonempty_def)

lemma iter_field_list [simp]:
  "map_of d k = Some (JList xs) \<Longrightarrow> iter_field d k = Inr xs"
  by (simp add: iter_field_def dget_or_def)

interpretation range_codec: codec range_to_dict range_from_dict "\<lambda>_. True"
  by unfold_locales (simp add: range_to_dict_def range_from_dict_def dindex_def)

interpretation chapter_codec: codec chapter_to_dict "chapter_from_dict repr" "\<lambda>_. True" for repr
  by unfold_locales (simp add: chapter_to_dict_def chapter_from_dict_def dindex_def)

definition manifest_wf :: "clip_manifest \<Rightarrow> bool" where
  "manifest_wf m \<longleftrightarrow> cm_schema_version m = CLIP_MANIFEST_SCHEMA_VERSION \<and> opt_nonempty (cm_repo_url m)"

interpretation manifest_codec: codec manifest_to_dict "manifest_from_dict repr" manifest_wf for repr
proof (unfold_locales, goal_cases)
  case (1 m)
  have t: "map_res range_from_dict (map range_to_dict xs) = Inr xs" for xs
    by (rule range_codec.decode_list) simp
  have c: "map_res (chapter_from_dict repr) (map chapter_to_dict xs) = Inr xs" for xs
    by (rule chapter_codec.decode_list) simp
  from 1 show ?case
    by (simp add: manifest_to_dict_def manifest_from_dict_def manifest_wf_def dindex_def t c dget_or_def)
qed

end
