(* ===== verification/AudioMetadata.thy ===== *)
theory AudioMetadata
  imports ClipManifest
begin

text \<open>
  \<open>podcaster/audio_metadata.py\<close>, with the timeline primitive of \<open>podcaster/audio.py\<close> and the
  plan segments of \<open>podcaster/script_plan.py\<close> it reads: realized utterance timings, word
  timings, and topic ranges.  Durations are exact seconds, positions whole milliseconds.
\<close>

section \<open>Data\<close>

datatype visual_mode = REPO | ARTICLE | INTERMISSION

fun vm_value :: "visual_mode \<Rightarrow> string" where
  "vm_value REPO = ''repo''"
| "vm_value ARTICLE = ''article''"
| "vm_value INTERMISSION = ''intermission''"

text \<open>\<open>VisualMode.from_value\<close> of a JSON value: \<open>str(value).strip().lower()\<close> names the member.\<close>

definition vm_from_value :: "(json \<Rightarrow> string) \<Rightarrow> json \<Rightarrow> visual_mode res" where
  "vm_from_value repr v =
     (let s = py_lower (py_strip (py_str repr v))
      in if s = ''repo'' then Inr REPO
         else if s = ''article'' then Inr ARTICLE
         else if s = ''intermission'' then Inr INTERMISSION
         else Inl (Raise ScriptPlanErr ''unknown visual_mode''))"

record plan_segment =
  sg_index :: int
  sg_speaker :: string
  sg_text :: string
  sg_visual_mode :: visual_mode
  sg_repo_url :: "string option"
  sg_additional :: "string list"
  sg_section_id :: "string option"

record word_timing =
  wt_text :: string
  wt_start :: int
  wt_end :: int

record utterance =
  ut_index :: int
  ut_speaker :: string
  ut_speaker_id :: string
  ut_text :: string
  ut_start :: int
  ut_end :: int
  ut_visual_mode :: visual_mode
  ut_repo_url :: "string option"
  ut_additional :: "string list"
  ut_section_id :: "string option"
  ut_words :: "word_timing list"

record topic =
  tp_visual_mode :: visual_mode
  tp_start :: int
  tp_end :: int
  tp_indices :: "int list"
  tp_repo_url :: "string option"
  tp_section_id :: "string option"

record audio_metadata =
  am_utterances :: "utterance list"
  am_topics :: "topic list"
  am_gap_ms :: int
  am_speech_offset_ms :: int
  am_total_duration_ms :: int
  am_schema_version :: string

definition AUDIO_METADATA_SCHEMA_VERSION :: string where
  "AUDIO_METADATA_SCHEMA_VERSION = ''1.0''"

definition tp_duration :: "topic \<Rightarrow> int" where
  "tp_duration t = tp_end t - tp_start t"

definition repo_topics :: "audio_metadata \<Rightarrow> topic list" where
  "repo_topics m = filter (\<lambda>t. tp_visual_mode t = REPO) (am_topics m)"

section \<open>Timeline and words\<close>

definition to_ms :: "rat \<Rightarrow> int" where
  "to_ms s = py_round (max 0 s * 1000)"

text \<open>\<open>_segment_timeline\<close>: start of every segment and the tot, with the gap between segments.\<close>

fun timeline_from :: "rat \<Rightarrow> rat \<Rightarrow> rat list \<Rightarrow> rat list \<times> rat" where
  "timeline_from gap cur [] = ([], cur)"
| "timeline_from gap cur (d # ds) =
     (let nxt = cur + d + (if 0 < gap \<and> ds \<noteq> [] then gap else 0);
          (starts, tot) = timeline_from gap nxt ds
      in (cur # starts, tot))"

definition segment_timeline :: "rat list \<Rightarrow> rat \<Rightarrow> (rat list \<times> rat) res" where
  "segment_timeline durations gap =
     (if gap < 0 then Inl (Raise ValueErr ''gap_seconds must be non-negative'')
      else if list_ex (\<lambda>d. d < 0) durations
      then Inl (Raise ValueErr ''segment durations must be non-negative'')
      else Inr (timeline_from gap 0 durations))"

text \<open>The loop of \<open>distribute_word_timings\<close>: weights, cumulated weight, cursor.\<close>

definition word_weight :: "string \<Rightarrow> int" where
  "word_weight w = max (int (length w)) 1"

fun word_loop :: "int \<Rightarrow> int \<Rightarrow> int \<Rightarrow> int \<Rightarrow> int \<Rightarrow> string list \<Rightarrow> word_timing list" where
  "word_loop s e tot cumulative cursor [] = []"
| "word_loop s e tot cumulative cursor (w # ws) =
     (let cum = cumulative + word_weight w;
          b0 = (if ws = [] then e else s + py_round (of_int ((e - s) * cum) / of_int tot));
          b = min (max b0 cursor) e
      in \<lparr>wt_text = w, wt_start = cursor, wt_end = b\<rparr> # word_loop s e tot cum b ws)"

definition distribute_word_timings :: "string \<Rightarrow> int \<Rightarrow> int \<Rightarrow> word_timing list" where
  "distribute_word_timings text s e =
     (let words = py_split text
      in if words = [] \<or> e - s \<le> 0 then []
         else word_loop s e (\<Sum>w\<leftarrow>words. word_weight w) 0 s words)"

section \<open>Speakers\<close>

definition role_name :: "nat \<Rightarrow> string" where
  "role_name i = (if i < 26 then ''host_'' @ [char_of (97 + i)] else ''host_'' @ nat_str i)"

definition speaker_key :: "string \<Rightarrow> string" where
  "speaker_key s = py_lower (py_strip s)"

definition assign_speaker :: "plan_segment \<Rightarrow> (string \<times> string) list \<times> nat \<Rightarrow> (string \<times> string) list \<times> nat" where
  "assign_speaker seg acc =
     (let (ids, used) = acc; key = speaker_key (sg_speaker seg)
      in if map_of ids key = None then (AList.update key (role_name used) ids, Suc used) else acc)"

definition resolve_speaker_ids :: "plan_segment list \<Rightarrow> string list option \<Rightarrow> (string \<times> string) list" where
  "resolve_speaker_ids segs labels =
     (let ids0 = (case labels of Some (a # b # _) \<Rightarrow>
                    AList.update (speaker_key b) (role_name 1) [(speaker_key a, role_name 0)]
                  | _ \<Rightarrow> []);
          used = length (remdups (map snd ids0))
      in fst (fold assign_speaker segs (ids0, used)))"

section \<open>Topics\<close>

definition MULTI_REPO_MIN_WINDOW_MS :: int where
  "MULTI_REPO_MIN_WINDOW_MS = 12000"

definition MULTI_REPO_START_SCAN_MS :: int where
  "MULTI_REPO_START_SCAN_MS = 15000"

text \<open>A set of lower-cased URLs seen so far and the URLs kept, in order.\<close>

definition keep_new :: "string \<Rightarrow> string list \<times> string list \<Rightarrow> string list \<times> string list" where
  "keep_new url acc = (let (seen, kept) = acc; key = py_lower url
     in if key \<in> set seen then acc else (key # seen, kept @ [url]))"

definition additional_repos_near_run_start :: "utterance list \<Rightarrow> string list" where
  "additional_repos_near_run_start run =
     (case run of [] \<Rightarrow> [] | first # _ \<Rightarrow>
       (let seen = (case ut_repo_url first of None \<Rightarrow> [] | Some u \<Rightarrow> if u = [] then [] else [py_lower u]);
            cutoff = ut_start first + MULTI_REPO_START_SCAN_MS;
            near = takeWhile (\<lambda>u. ut_start u < cutoff) run
        in snd (fold keep_new (concat (map ut_additional near)) (seen, []))))"

definition windows :: "topic \<Rightarrow> string list \<Rightarrow> int \<Rightarrow> topic list" where
  "windows base repos n =
     (let s = tp_start base; d = tp_end base - tp_start base
      in map (\<lambda>(i, url). base\<lparr>tp_repo_url := Some url,
             tp_start := s + (d * int i) div n,
             tp_end := (if int i = n - 1 then tp_end base else s + (d * (int i + 1)) div n)\<rparr>)
           (enumerate 0 (take (nat n) repos)))"

definition topic_windows_for_run :: "topic \<Rightarrow> string list \<Rightarrow> topic list" where
  "topic_windows_for_run base additional =
     (case tp_repo_url base of None \<Rightarrow> [base] | Some url \<Rightarrow>
       if tp_visual_mode base \<noteq> REPO \<or> url = [] \<or> additional = [] then [base]
       else
         (let repos = snd (fold keep_new (url # additional) ([], []));
              d = tp_end base - tp_start base;
              n = min (int (length repos)) (d div MULTI_REPO_MIN_WINDOW_MS)
          in if n < 2 then [base] else windows base repos n))"

definition flush_run :: "utterance list \<Rightarrow> topic list" where
  "flush_run run =
     (case run of [] \<Rightarrow> [] | first # _ \<Rightarrow>
       topic_windows_for_run
         \<lparr>tp_visual_mode = ut_visual_mode first, tp_start = ut_start first, tp_end = ut_end (last run),
          tp_indices = map ut_index run, tp_repo_url = ut_repo_url first, tp_section_id = ut_section_id first\<rparr>
         (additional_repos_near_run_start run))"

definition topic_key :: "utterance \<Rightarrow> visual_mode \<times> string option" where
  "topic_key u = (ut_visual_mode u, if ut_visual_mode u = REPO then ut_repo_url u else None)"

fun topics_loop :: "utterance list \<Rightarrow> (visual_mode \<times> string option) option \<Rightarrow> utterance list \<Rightarrow> topic list" where
  "topics_loop run key [] = flush_run run"
| "topics_loop run key (u # us) =
     (if run \<noteq> [] \<and> Some (topic_key u) \<noteq> key
      then flush_run run @ topics_loop [u] (Some (topic_key u)) us
      else topics_loop (run @ [u]) (Some (topic_key u)) us)"

definition build_topics :: "utterance list \<Rightarrow> topic list" where
  "build_topics us = topics_loop [] None us"

section \<open>Extraction\<close>

definition realize :: "rat \<Rightarrow> (string \<times> string) list \<Rightarrow> plan_segment \<times> rat \<times> rat \<Rightarrow> utterance" where
  "realize offset ids x =
     (let (seg, start, dur) = x;
          s = to_ms (start + offset);
          e = to_ms (start + dur + offset)
      in \<lparr>ut_index = sg_index seg, ut_speaker = sg_speaker seg,
          ut_speaker_id = the (map_of ids (speaker_key (sg_speaker seg))),
          ut_text = sg_text seg, ut_start = s, ut_end = e, ut_visual_mode = sg_visual_mode seg,
          ut_repo_url = sg_repo_url seg, ut_additional = sg_additional seg,
          ut_section_id = sg_section_id seg, ut_words = distribute_word_timings (sg_text seg) s e\<rparr>)"

definition extract_realized_audio_metadata ::
  "plan_segment list \<Rightarrow> rat list \<Rightarrow> rat \<Rightarrow> rat \<Rightarrow> string list option \<Rightarrow> audio_metadata res" where
  "extract_realized_audio_metadata segs durations gap offset labels =
     (if length durations \<noteq> length segs
      then Inl (Raise AudioMetadataErr ''segment_durations must be parallel to plan.segments'')
      else if list_ex (\<lambda>d. d < 0) durations
      then Inl (Raise AudioMetadataErr ''segment durations must be non-negative'')
      else if offset < 0 then Inl (Raise AudioMetadataErr ''speech_offset_seconds must be non-negative'')
      else if gap < 0 then Inl (Raise AudioMetadataErr ''gap_seconds must be non-negative'')
      else
        and_then (segment_timeline durations gap) (\<lambda>(starts, tot).
        let ids = resolve_speaker_ids segs labels;
            us = map (realize offset ids) (zip segs (zip starts durations))
        in Inr \<lparr>am_utterances = us, am_topics = build_topics us, am_gap_ms = to_ms gap,
                am_speech_offset_ms = to_ms offset, am_total_duration_ms = to_ms (tot + offset),
                am_schema_version = AUDIO_METADATA_SCHEMA_VERSION\<rparr>))"

section \<open>Word timings\<close>

lemma word_loop_tiles:
  assumes "s \<le> e"
  shows "cursor \<le> e \<Longrightarrow> ws \<noteq> [] \<Longrightarrow> tiles cursor e wt_start wt_end (word_loop s e tot cum cursor ws)"
proof (induction ws arbitrary: cum cursor)
  case Nil
  then show ?case by simp
next
  case (Cons w ws)
  show ?case
  proof (cases "ws = []")
    case True
    then show ?thesis using Cons.prems by (simp add: Let_def)
  next
    case False
    then show ?thesis using Cons.IH [OF _ False] Cons.prems by (simp add: Let_def)
  qed
qed

lemma word_loop_texts: "map wt_text (word_loop s e tot cum cursor ws) = ws"
  by (induction ws arbitrary: cum cursor) (simp_all add: Let_def)

text \<open>Word timings.  For a turn with at least one word and a positive span, the
  estimated word spans cover \<open>[start_ms, end_ms]\<close> with no gap and no overlap, in the order of
  the words, with no rounding drift at the end, and their texts are the words of the turn.\<close>

theorem word_timings_tile:
  assumes "py_split text \<noteq> []" "s < e"
  shows "tiles s e wt_start wt_end (distribute_word_timings text s e)
    \<and> map wt_text (distribute_word_timings text s e) = py_split text
    \<and> (\<Sum>w\<leftarrow>distribute_word_timings text s e. wt_end w - wt_start w) = e - s"
proof -
  have d: "distribute_word_timings text s e
      = word_loop s e (\<Sum>w\<leftarrow>py_split text. word_weight w) 0 s (py_split text)"
    using assms by (simp add: distribute_word_timings_def Let_def)
  have t: "tiles s e wt_start wt_end (distribute_word_timings text s e)"
    unfolding d by (rule word_loop_tiles) (use assms in auto)
  show ?thesis
    using t tiles_sum [OF t] by (simp add: d word_loop_texts)
qed

theorem word_timings_tile_witness:
  "tiles 100 1100 wt_start wt_end (distribute_word_timings ''hi there'' 100 1100)
    \<and> map wt_text (distribute_word_timings ''hi there'' 100 1100) = py_split ''hi there''
    \<and> (\<Sum>w\<leftarrow>distribute_word_timings ''hi there'' 100 1100. wt_end w - wt_start w) = 1100 - 100"
  by (rule word_timings_tile) (simp_all add: py_split.simps [of "''hi there''"] py_isspace_def)

section \<open>Topic ranges\<close>

lemma windows_step:
  fixes d i n :: int
  assumes "0 < n" "0 \<le> d" "0 \<le> i"
  shows "(d * i) div n \<le> (d * (i + 1)) div n" "d div n \<le> (d * (i + 1)) div n - (d * i) div n"
proof -
  have "n * (d * i div n) \<le> d * i" "n * (d div n) \<le> d"
    using assms(1) by (simp_all add: div_mult_le_int)
  then have "n * (d * i div n + d div n) \<le> d * i + d"
    by (simp add: algebra_simps)
  then have "(n * (d * i div n + d div n)) div n \<le> (d * i + d) div n"
    using assms(1) by (rule zdiv_mono1)
  then have "(d * i) div n + d div n \<le> (d * i + d) div n"
    using assms(1) by simp
  then show "d div n \<le> (d * (i + 1)) div n - (d * i) div n"
    by (simp add: algebra_simps)
  moreover have "0 \<le> d div n" using assms by (simp add: pos_imp_zdiv_nonneg_iff)
  ultimately show "(d * i) div n \<le> (d * (i + 1)) div n" by linarith
qed

lemma windows_tile:
  assumes "1 \<le> n" "n \<le> int (length repos)" "tp_start base \<le> tp_end base"
  shows "tiles (tp_start base) (tp_end base) tp_start tp_end (windows base repos n)"
proof -
  define d where "d = tp_end base - tp_start base"
  define f where "f = (\<lambda>i::nat. tp_start base + (d * int i) div n)"
  have len: "length (take (nat n) repos) = nat n" using assms(2) by simp
  have step: "f i \<le> f (Suc i)" for i
    using windows_step(1) [of n d "int i"] assms by (simp add: f_def d_def algebra_simps)
  have last: "(tp_end base - tp_start base) * (1 + int i) div n = tp_end base - tp_start base"
    if "int i = n - 1" for i
    using that assms(1) by (simp add: add.commute)
  have "f 0 = tp_start base" "f (0 + length (take (nat n) repos)) = tp_end base"
    using assms len by (simp_all add: f_def d_def)
  moreover have "tiles (f 0) (f (0 + length (take (nat n) repos))) tp_start tp_end (windows base repos n)"
    unfolding windows_def Let_def d_def [symmetric]
    by (rule tiles_enumerate [where f = f and k = 0, OF step]) (use len assms(1) last in \<open>auto simp: f_def d_def add.commute\<close>)
  ultimately show ?thesis by simp
qed

lemma windows_long:
  assumes "1 \<le> n" "n \<le> (tp_end base - tp_start base) div w" "0 < w" "tp_start base \<le> tp_end base"
    and "t \<in> set (windows base repos n)"
  shows "w \<le> tp_duration t"
proof -
  obtain d where d: "d = tp_end base - tp_start base" "0 \<le> d" using assms(4) by simp
  obtain i :: nat where t: "tp_start t = tp_start base + (d * int i) div n"
      "tp_end t = (if int i = n - 1 then tp_end base else tp_start base + (d * (int i + 1)) div n)"
    using assms(5) by (auto simp: windows_def Let_def d(1) in_set_enumerate_eq)
  have "tp_end t = tp_start base + (d * (int i + 1)) div n"
    using assms(1) by (auto simp: t d(1))
  then have "d div n \<le> tp_duration t"
    using windows_step(2) [of n d "int i"] assms(1) d(2) by (simp add: tp_duration_def t)
  moreover have "w \<le> d div n"
  proof -
    have "n * w \<le> d div w * w" using assms(2,3) by (simp add: d(1))
    also have "\<dots> \<le> d" using assms(3) by (simp add: div_mult_le_int)
    finally have "(n * w) div n \<le> d div n" using assms(1) by (intro zdiv_mono1) auto
    then show ?thesis using assms(1) by simp
  qed
  ultimately show ?thesis by linarith
qed

text \<open>The windows of one run: one range over the whole run, or several repository windows.\<close>

lemma topic_windows_cases:
  "topic_windows_for_run base additional = [base] \<or>
   (\<exists>repos n. topic_windows_for_run base additional = windows base repos n \<and> 2 \<le> n
      \<and> n \<le> int (length repos) \<and> n \<le> (tp_end base - tp_start base) div MULTI_REPO_MIN_WINDOW_MS)"
proof (cases "topic_windows_for_run base additional = [base]")
  case False
  then have *: "topic_windows_for_run base additional =
      (let repos = snd (fold keep_new (the (tp_repo_url base) # additional) ([], []));
           n = min (int (length repos)) ((tp_end base - tp_start base) div MULTI_REPO_MIN_WINDOW_MS)
       in if n < 2 then [base] else windows base repos n)"
    by (auto simp: topic_windows_for_run_def Let_def split: option.splits if_splits)
  obtain repos n where rn: "repos = snd (fold keep_new (the (tp_repo_url base) # additional) ([], []))"
      "n = min (int (length repos)) ((tp_end base - tp_start base) div MULTI_REPO_MIN_WINDOW_MS)"
    by blast
  then have "topic_windows_for_run base additional = (if n < 2 then [base] else windows base repos n)"
    by (simp only: * Let_def)
  with False have "topic_windows_for_run base additional = windows base repos n" "2 \<le> n"
    by (auto split: if_splits)
  moreover have "n \<le> int (length repos)" "n \<le> (tp_end base - tp_start base) div MULTI_REPO_MIN_WINDOW_MS"
    unfolding rn(2) by simp_all
  ultimately show ?thesis by blast
qed simp

text \<open>Topic windows of a run.  The windows of a run cover the run exactly, in
  order, and whenever a run is split among several repositories each window lasts at least
  \<open>MULTI_REPO_MIN_WINDOW_MS\<close>, so none falls below the EDL's minimum on-screen time.\<close>

theorem topic_windows_tile:
  assumes "tp_start base \<le> tp_end base"
  shows "tiles (tp_start base) (tp_end base) tp_start tp_end (topic_windows_for_run base additional)
    \<and> (topic_windows_for_run base additional = [base]
       \<or> list_all (\<lambda>t. MULTI_REPO_MIN_WINDOW_MS \<le> tp_duration t) (topic_windows_for_run base additional))"
  using topic_windows_cases [of base additional]
proof (elim disjE exE conjE)
  assume "topic_windows_for_run base additional = [base]"
  then show ?thesis using assms by simp
next
  fix repos n
  assume w: "topic_windows_for_run base additional = windows base repos n" and n: "2 \<le> n"
    "n \<le> int (length repos)" "n \<le> (tp_end base - tp_start base) div MULTI_REPO_MIN_WINDOW_MS"
  have "list_all (\<lambda>t. MULTI_REPO_MIN_WINDOW_MS \<le> tp_duration t) (windows base repos n)"
    using windows_long [OF _ n(3)] n(1) assms
    by (auto simp: list_all_iff MULTI_REPO_MIN_WINDOW_MS_def)
  moreover have "tiles (tp_start base) (tp_end base) tp_start tp_end (windows base repos n)"
    by (rule windows_tile) (use n assms in auto)
  ultimately show ?thesis unfolding w by blast
qed

definition sample_topic :: topic where
  "sample_topic = \<lparr>tp_visual_mode = REPO, tp_start = 1000, tp_end = 31001, tp_indices = [0],
     tp_repo_url = Some ''a'', tp_section_id = None\<rparr>"

theorem topic_windows_tile_witness:
  "tiles 1000 31001 tp_start tp_end (topic_windows_for_run sample_topic [''b''])
    \<and> (topic_windows_for_run sample_topic [''b''] = [sample_topic]
       \<or> list_all (\<lambda>t. MULTI_REPO_MIN_WINDOW_MS \<le> tp_duration t) (topic_windows_for_run sample_topic [''b'']))"
  using topic_windows_tile [of sample_topic "[''b'']"] by (simp add: sample_topic_def)

section \<open>The realized timeline\<close>

lemma to_ms_mono: "p \<le> q \<Longrightarrow> to_ms p \<le> to_ms q"
  unfolding to_ms_def by (rule py_round_mono) (simp add: max_def)

lemma realize_bounds [simp]:
  "ut_start (realize off ids (seg, s, d)) = to_ms (s + off)"
  "ut_end (realize off ids (seg, s, d)) = to_ms (s + d + off)"
  by (simp_all add: realize_def Let_def)

lemma realize_seq:
  assumes "0 \<le> gap"
  shows "length ds = length segs \<Longrightarrow> list_all (\<lambda>d. 0 \<le> d) ds \<Longrightarrow> timeline_from gap cur ds = (starts, tot)
    \<Longrightarrow> cur \<le> tot \<and> seq_within (to_ms (cur + off)) (to_ms (tot + off)) ut_start ut_end
         (map (realize off ids) (zip segs (zip starts ds)))"
proof (induction ds arbitrary: segs cur starts)
  case Nil
  then show ?case by simp
next
  case (Cons d ds)
  obtain g segs' where segs: "segs = g # segs'" using Cons.prems(1) by (cases segs) auto
  define nxt where "nxt = cur + d + (if 0 < gap \<and> ds \<noteq> [] then gap else 0)"
  obtain st where st: "timeline_from gap nxt ds = (st, tot)" "starts = cur # st"
    using Cons.prems(3) by (auto simp: nxt_def Let_def split: prod.splits)
  have le: "cur \<le> cur + d" "cur + d \<le> nxt"
    using Cons.prems(2) assms by (auto simp: nxt_def)
  have "nxt \<le> tot \<and> seq_within (to_ms (nxt + off)) (to_ms (tot + off)) ut_start ut_end
         (map (realize off ids) (zip segs' (zip st ds)))"
    by (rule Cons.IH [OF _ _ st(1)]) (use Cons.prems in \<open>auto simp: segs\<close>)
  moreover have "to_ms (cur + off) \<le> to_ms (cur + d + off)" "to_ms (cur + d + off) \<le> to_ms (nxt + off)"
    using le by (auto intro!: to_ms_mono)
  ultimately show ?case
    using le by (auto simp: st(2) segs elim!: seq_within_mono)
qed

lemma timeline_length: "timeline_from gap cur ds = (starts, tot) \<Longrightarrow> length starts = length ds"
  by (induction gap cur ds arbitrary: starts rule: timeline_from.induct) (auto simp: Let_def split: prod.splits)

section \<open>Topics of the timeline\<close>

lemma flush_run_tiles:
  assumes "run \<noteq> []" "seq_within lo hi ut_start ut_end run"
  shows "tiles (ut_start (hd run)) (ut_end (last run)) tp_start tp_end (flush_run run)"
proof -
  have le: "ut_start (hd run) \<le> ut_end (last run)"
    using assms
  proof (induction run arbitrary: lo)
    case (Cons u run)
    show ?case
    proof (cases "run = []")
      case False
      then have "ut_start (hd run) \<le> ut_end (last run)" "ut_end u \<le> ut_start (hd run)"
        using Cons by (auto simp: neq_Nil_conv)
      then show ?thesis using Cons.prems False by auto
    qed (use Cons.prems in simp)
  qed simp
  obtain u us where run: "run = u # us" using assms(1) by (cases run) auto
  define base where "base = \<lparr>tp_visual_mode = ut_visual_mode u, tp_start = ut_start u, tp_end = ut_end (last run),
          tp_indices = map ut_index run, tp_repo_url = ut_repo_url u, tp_section_id = ut_section_id u\<rparr>"
  have "flush_run run = topic_windows_for_run base (additional_repos_near_run_start run)"
    by (simp add: flush_run_def base_def run)
  moreover have "tp_start base \<le> tp_end base" using le by (simp add: base_def run)
  ultimately show ?thesis
    using topic_windows_cases [of base "additional_repos_near_run_start run"] windows_tile [of _ _ base]
    by (auto simp: base_def run)
qed

lemma seq_within_ends:
  "run \<noteq> [] \<Longrightarrow> seq_within lo hi a b run \<Longrightarrow> lo \<le> a (hd run) \<and> b (last run) \<le> hi"
  by (induction run arbitrary: lo) (auto dest: seq_within_le split: if_splits)

lemma flush_run_seq:
  assumes "run \<noteq> []" "seq_within lo hi ut_start ut_end run"
  shows "seq_within lo hi tp_start tp_end (flush_run run)"
  using seq_within_mono [OF tiles_seq [OF flush_run_tiles [OF assms]]] seq_within_ends [OF assms] by blast

lemma topics_loop_seq:
  "seq_within lo hi ut_start ut_end (run @ us) \<Longrightarrow> seq_within lo hi tp_start tp_end (topics_loop run key us)"
proof (induction run key us arbitrary: lo rule: topics_loop.induct)
  case (1 run key)
  show ?case
  proof (cases "run = []")
    case True
    then show ?thesis using 1 by (simp add: flush_run_def)
  next
    case False
    then show ?thesis using 1 by (simp add: flush_run_seq)
  qed
next
  case (2 run key u us)
  show ?case
  proof (cases "run \<noteq> [] \<and> Some (topic_key u) \<noteq> key")
    case True
    from "2.prems" obtain m where m: "seq_within lo m ut_start ut_end run"
        "seq_within m hi ut_start ut_end ([u] @ us)"
      by (auto simp: seq_within_append)
    have "seq_within lo m tp_start tp_end (flush_run run)"
      using True m(1) by (simp add: flush_run_seq)
    moreover have "seq_within m hi tp_start tp_end (topics_loop [u] (Some (topic_key u)) us)"
      using "2.IH"(1) [OF True m(2)] .
    ultimately show ?thesis using True by (auto simp: seq_within_append)
  next
    case False
    then show ?thesis using "2.IH"(2) [OF False] "2.prems" by auto
  qed
qed

text \<open>Every utterance is in a topic of its own visual context.\<close>

definition in_topic :: "topic list \<Rightarrow> utterance \<Rightarrow> bool" where
  "in_topic ts u \<longleftrightarrow> list_ex (\<lambda>t. ut_index u \<in> set (tp_indices t) \<and> tp_visual_mode t = ut_visual_mode u) ts"

lemma windows_fields:
  "t \<in> set (windows base repos n) \<Longrightarrow> tp_indices t = tp_indices base \<and> tp_visual_mode t = tp_visual_mode base"
  by (auto simp: windows_def Let_def)

lemma windows_nonempty: "2 \<le> n \<Longrightarrow> n \<le> int (length repos) \<Longrightarrow> windows base repos n \<noteq> []"
  by (cases repos) (auto simp: windows_def Let_def take_Cons' enumerate_eq_zip)

lemma flush_run_in_topic:
  assumes "u \<in> set run" "\<And>v. v \<in> set run \<Longrightarrow> topic_key v = k"
  shows "in_topic (flush_run run) u"
proof -
  obtain f us where run: "run = f # us" using assms(1) by (cases run) auto
  define base where "base = \<lparr>tp_visual_mode = ut_visual_mode f, tp_start = ut_start f, tp_end = ut_end (last run),
          tp_indices = map ut_index run, tp_repo_url = ut_repo_url f, tp_section_id = ut_section_id f\<rparr>"
  have "topic_key u = topic_key f" using assms run by auto
  then have vm: "ut_visual_mode u = tp_visual_mode base" by (simp add: topic_key_def base_def)
  have ix: "ut_index u \<in> set (tp_indices base)" using assms(1) by (auto simp: base_def)
  have fl: "flush_run run = topic_windows_for_run base (additional_repos_near_run_start run)"
    by (simp add: flush_run_def base_def run)
  have "flush_run run \<noteq> [] \<and> (\<forall>t\<in>set (flush_run run). tp_indices t = tp_indices base
      \<and> tp_visual_mode t = tp_visual_mode base)"
    using topic_windows_cases [of base "additional_repos_near_run_start run"]
    unfolding fl by (metis in_set_conv_nth list.distinct(1) list.set_intros(1) set_ConsD
      empty_iff list.set(1) windows_fields windows_nonempty)
  then show ?thesis using vm ix by (cases "flush_run run") (auto simp: in_topic_def)
qed

lemma in_topic_append [simp]: "in_topic (xs @ ys) u \<longleftrightarrow> in_topic xs u \<or> in_topic ys u"
  by (auto simp: in_topic_def)

lemma topics_loop_in_topic:
  assumes "\<And>v. v \<in> set run \<Longrightarrow> Some (topic_key v) = key" "u \<in> set (run @ us)"
  shows "in_topic (topics_loop run key us) u"
  using assms
proof (induction run key us rule: topics_loop.induct)
  case (1 run key)
  then show ?case using flush_run_in_topic [of u run "the key"] by (metis append_Nil2 option.sel topics_loop.simps(1))
next
  case (2 run key v us)
  show ?case
  proof (cases "run \<noteq> [] \<and> Some (topic_key v) \<noteq> key")
    case True
    show ?thesis
    proof (cases "u \<in> set run")
      case ur: True
      have "in_topic (flush_run run) u"
        by (rule flush_run_in_topic [OF ur, of "the key"]) (metis "2.prems"(1) option.sel)
      then show ?thesis using True by simp
    next
      case False
      then have "in_topic (topics_loop [v] (Some (topic_key v)) us) u"
        by (intro "2.IH"(1) [OF True]) (use "2.prems"(2) in auto)
      then show ?thesis using True by simp
    qed
  next
    case False
    then have "\<And>w. w \<in> set (run @ [v]) \<Longrightarrow> Some (topic_key w) = Some (topic_key v)"
      using "2.prems"(1) by (metis UnE empty_iff list.set(1) set_ConsD set_append)
    then have "in_topic (topics_loop (run @ [v]) (Some (topic_key v)) us) u"
      using "2.IH"(2) [OF False] "2.prems"(2) by (simp only: append.assoc append_Cons append_Nil)
    then show ?thesis using False by (simp only: topics_loop.simps if_False)
  qed
qed

section \<open>Speaker roles\<close>

definition roles_fresh :: "(string \<times> string) list \<times> nat \<Rightarrow> bool" where
  "roles_fresh acc \<longleftrightarrow> distinct (map fst (fst acc)) \<and> map snd (fst acc) = map role_name [0..<snd acc]"

lemma role_name_inj: "role_name i = role_name j \<Longrightarrow> i = j"
proof -
  have letter: "digit_val (char_of (97 + i)) = None" if "i < 26" for i :: nat
    using that by (simp add: digit_val_def Let_def of_char_of)
  assume "role_name i = role_name j"
  moreover have "digits_value 0 (drop 5 (role_name k)) = (if k < 26 then None else Some k)" for k
    by (simp add: role_name_def letter digits_value_nat_str)
  moreover have "(of_char (hd (drop 5 (role_name k))) :: nat) = 97 + k" if "k < 26" for k
    using that by (simp add: role_name_def of_char_of)
  ultimately show ?thesis
    by (metis add_left_cancel option.inject option.distinct(1))
qed

lemma assign_speaker_fresh:
  assumes "roles_fresh acc"
  shows "roles_fresh (assign_speaker seg acc)"
proof (cases "map_of (fst acc) (speaker_key (sg_speaker seg)) = None")
  case True
  then have new: "AList.update (speaker_key (sg_speaker seg)) r (fst acc)
      = fst acc @ [(speaker_key (sg_speaker seg), r)]" for r
    by (rule update_new)
  show ?thesis
    using assms True
    by (auto simp: assign_speaker_def Let_def split_beta roles_fresh_def new map_of_eq_None_iff)
next
  case False
  then show ?thesis using assms by (auto simp: assign_speaker_def Let_def split_beta)
qed

lemma assign_speaker_keeps:
  "map_of (fst acc) k = Some r \<Longrightarrow> map_of (fst (assign_speaker seg acc)) k = Some r"
  by (auto simp: assign_speaker_def Let_def split_beta map_of_update_conv)

lemma fold_assign_fresh: "roles_fresh acc \<Longrightarrow> roles_fresh (fold assign_speaker segs acc)"
  by (induction segs arbitrary: acc) (auto simp: assign_speaker_fresh)

lemma fold_assign_keeps:
  "map_of (fst acc) k = Some r \<Longrightarrow> map_of (fst (fold assign_speaker segs acc)) k = Some r"
  by (induction segs arbitrary: acc) (auto simp: assign_speaker_keeps)

lemma assign_speaker_has: "\<exists>r. map_of (fst (assign_speaker seg acc)) (speaker_key (sg_speaker seg)) = Some r"
  by (auto simp: assign_speaker_def Let_def split_beta map_of_update_conv)

lemma fold_assign_has:
  "s \<in> set segs \<Longrightarrow> \<exists>r. map_of (fst (fold assign_speaker segs acc)) (speaker_key (sg_speaker s)) = Some r"
proof (induction segs arbitrary: acc)
  case (Cons g segs)
  show ?case
  proof (cases "s = g")
    case True
    obtain r where "map_of (fst (assign_speaker g acc)) (speaker_key (sg_speaker g)) = Some r"
      using assign_speaker_has by blast
    from fold_assign_keeps [OF this] show ?thesis unfolding True by auto
  next
    case False
    then show ?thesis using Cons.prems Cons.IH [of "assign_speaker g acc"] by simp
  qed
qed simp

lemma roles_fresh_inj:
  assumes "roles_fresh (ids, n)" "map_of ids j = Some r" "map_of ids k = Some r"
  shows "j = k"
proof -
  have "distinct (map snd ids)"
    using assms(1) role_name_inj by (auto simp: roles_fresh_def distinct_map inj_on_def)
  moreover have "(j, r) \<in> set ids" "(k, r) \<in> set ids" using assms(2,3) by (auto dest: map_of_SomeD)
  ultimately show ?thesis by (metis Pair_inject distinct_map inj_onD snd_conv)
qed

text \<open>The labels the caller pins: absent, or two labels naming different hosts.\<close>

definition labels_distinct :: "string list option \<Rightarrow> bool" where
  "labels_distinct labels = (case labels of Some (a # b # _) \<Rightarrow> speaker_key a \<noteq> speaker_key b | _ \<Rightarrow> True)"

text \<open>Speaker roles.  Every speaker of the plan gets a role (the lookup of
  \<open>extract_realized_audio_metadata\<close> cannot raise \<open>KeyError\<close>), pinned labels keep \<open>host_a\<close> and
  \<open>host_b\<close>, and when the pinned labels differ no two speakers share a role.\<close>

theorem speaker_roles:
  assumes "labels_distinct labels"
  shows "(\<forall>s. s \<in> set segs \<longrightarrow> map_of (resolve_speaker_ids segs labels) (speaker_key (sg_speaker s)) \<noteq> None)
    \<and> (\<forall>j k r. map_of (resolve_speaker_ids segs labels) j = Some r
         \<and> map_of (resolve_speaker_ids segs labels) k = Some r \<longrightarrow> j = k)
    \<and> (\<forall>a b rest. labels = Some (a # b # rest) \<longrightarrow>
         map_of (resolve_speaker_ids segs labels) (speaker_key a) = Some ''host_a''
         \<and> map_of (resolve_speaker_ids segs labels) (speaker_key b) = Some ''host_b'')"
proof -
  define ids0 where "ids0 = (case labels of Some (a # b # _) \<Rightarrow>
      AList.update (speaker_key b) (role_name 1) [(speaker_key a, role_name 0)] | _ \<Rightarrow> [])"
  define used where "used = length (remdups (map snd ids0))"
  have ids: "resolve_speaker_ids segs labels = fst (fold assign_speaker segs (ids0, used))"
    by (simp only: resolve_speaker_ids_def ids0_def used_def Let_def)
  have "role_name 0 \<noteq> role_name (Suc 0)" using role_name_inj by blast
  then have "roles_fresh (ids0, used)"
    using assms
    by (auto simp: ids0_def used_def roles_fresh_def labels_distinct_def split: option.splits list.splits)
  then have "roles_fresh (fold assign_speaker segs (ids0, used))" by (rule fold_assign_fresh)
  then have inj: "j = k" if "map_of (resolve_speaker_ids segs labels) j = Some r"
      "map_of (resolve_speaker_ids segs labels) k = Some r" for j k r
    using roles_fresh_inj that by (metis ids prod.collapse)
  have pinned: "map_of (resolve_speaker_ids segs labels) (speaker_key a) = Some ''host_a''
      \<and> map_of (resolve_speaker_ids segs labels) (speaker_key b) = Some ''host_b''"
    if "labels = Some (a # b # rest)" for a b rest
  proof -
    have "role_name 0 = ''host_a''" "role_name (Suc 0) = ''host_b''" by code_simp+
    then show ?thesis
      using that assms unfolding ids
      by (auto intro!: fold_assign_keeps simp: ids0_def labels_distinct_def map_of_update_conv)
  qed
  have has: "map_of (resolve_speaker_ids segs labels) (speaker_key (sg_speaker s)) \<noteq> None" if "s \<in> set segs" for s
    unfolding ids using fold_assign_has [OF that] by auto
  show ?thesis using inj pinned has by blast
qed

definition sample_segment :: "int \<Rightarrow> string \<Rightarrow> visual_mode \<Rightarrow> string option \<Rightarrow> plan_segment" where
  "sample_segment i who vm url = \<lparr>sg_index = i, sg_speaker = who, sg_text = ''hi there'', sg_visual_mode = vm,
     sg_repo_url = url, sg_additional = [], sg_section_id = None\<rparr>"

theorem speaker_roles_witness:
  "let ids = resolve_speaker_ids [sample_segment 0 ''Theo'' ARTICLE None] (Some [''Ann'', ''Bo''])
   in map_of ids (speaker_key ''Theo'') \<noteq> None \<and> map_of ids (speaker_key ''Ann'') = Some ''host_a''"
proof -
  have d: "labels_distinct (Some [''Ann'', ''Bo''])" by code_simp
  show ?thesis
    using speaker_roles [OF d, of "[sample_segment 0 ''Theo'' ARTICLE None]"]
    by (auto simp: Let_def sample_segment_def)
qed

section \<open>What extraction promises\<close>

text \<open>Claim C27: realized timeline.  Extraction succeeds exactly on parallel, non-negative inputs;
  then utterances and topics lie in order, without overlap, inside
  \<open>[speech_offset_ms, total_duration_ms]\<close>, there is one utterance per planned segment with its text,
  index and visual context, and every utterance belongs to a topic of its own visual mode.\<close>

theorem extract_timeline:
  "case extract_realized_audio_metadata segs durations gap off labels of
     Inl e \<Rightarrow> exn_class_of e = AudioMetadataErr
        \<and> \<not> (length durations = length segs \<and> list_all (\<lambda>d. 0 \<le> d) durations \<and> 0 \<le> off \<and> 0 \<le> gap)
   | Inr m \<Rightarrow> length durations = length segs \<and> list_all (\<lambda>d. 0 \<le> d) durations \<and> 0 \<le> off \<and> 0 \<le> gap
        \<and> seq_within (am_speech_offset_ms m) (am_total_duration_ms m) ut_start ut_end (am_utterances m)
        \<and> seq_within (am_speech_offset_ms m) (am_total_duration_ms m) tp_start tp_end (am_topics m)
        \<and> map (\<lambda>u. (ut_index u, ut_text u, ut_visual_mode u, ut_repo_url u)) (am_utterances m)
            = map (\<lambda>g. (sg_index g, sg_text g, sg_visual_mode g, sg_repo_url g)) segs
        \<and> list_all (in_topic (am_topics m)) (am_utterances m)"
proof (cases "length durations = length segs \<and> list_all (\<lambda>d. 0 \<le> d) durations \<and> 0 \<le> off \<and> 0 \<le> gap")
  case False
  then show ?thesis
    by (auto simp: extract_realized_audio_metadata_def list_all_iff list_ex_iff not_less)
next
  case True
  obtain starts tot where tl: "timeline_from gap 0 durations = (starts, tot)" by (cases "timeline_from gap 0 durations")
  have ok: "\<not> list_ex (\<lambda>d. d < 0) durations" using True by (auto simp: list_all_iff list_ex_iff not_less)
  define us where "us = map (realize off (resolve_speaker_ids segs labels)) (zip segs (zip starts durations))"
  have ex: "extract_realized_audio_metadata segs durations gap off labels
      = Inr \<lparr>am_utterances = us, am_topics = build_topics us, am_gap_ms = to_ms gap,
                am_speech_offset_ms = to_ms off, am_total_duration_ms = to_ms (tot + off),
                am_schema_version = AUDIO_METADATA_SCHEMA_VERSION\<rparr>"
    using True ok by (simp add: extract_realized_audio_metadata_def segment_timeline_def tl us_def Let_def)
  have seq: "seq_within (to_ms off) (to_ms (tot + off)) ut_start ut_end us"
    using realize_seq [of gap durations segs 0 starts tot off "resolve_speaker_ids segs labels"] True tl
    by (simp add: us_def)
  moreover have "seq_within (to_ms off) (to_ms (tot + off)) tp_start tp_end (build_topics us)"
    using topics_loop_seq [of _ _ "[]" us None] seq by (simp add: build_topics_def)
  moreover have "list_all (in_topic (build_topics us)) us"
    using topics_loop_in_topic [of "[]" None] by (simp add: build_topics_def list_all_iff)
  moreover have "length starts = length durations"
    using timeline_length [OF tl] .
  then have "map (\<lambda>u. (ut_index u, ut_text u, ut_visual_mode u, ut_repo_url u)) us
      = map (\<lambda>g. (sg_index g, sg_text g, sg_visual_mode g, sg_repo_url g)) segs"
    using True by (auto intro!: nth_equalityI simp: us_def realize_def Let_def)
  ultimately show ?thesis using True by (simp add: ex)
qed

section \<open>Serialisation\<close>

definition word_to_dict :: "word_timing \<Rightarrow> json" where
  "word_to_dict w = JObj [(''text'', JStr (wt_text w)), (''start_ms'', JInt (wt_start w)),
     (''end_ms'', JInt (wt_end w))]"

definition word_from_dict :: "(json \<Rightarrow> string) \<Rightarrow> json \<Rightarrow> word_timing res" where
  "word_from_dict repr data =
     and_then (as_dict data) (\<lambda>d.
     and_then (dindex d ''text'') (\<lambda>t.
     and_then (and_then (dindex d ''start_ms'') py_int) (\<lambda>a.
     and_then (and_then (dindex d ''end_ms'') py_int) (\<lambda>b.
     Inr \<lparr>wt_text = py_str repr t, wt_start = a, wt_end = b\<rparr>))))"

definition utterance_to_dict :: "utterance \<Rightarrow> json" where
  "utterance_to_dict u = JObj
     [(''index'', JInt (ut_index u)),
      (''speaker'', JStr (ut_speaker u)),
      (''speaker_id'', JStr (ut_speaker_id u)),
      (''text'', JStr (ut_text u)),
      (''start_ms'', JInt (ut_start u)),
      (''end_ms'', JInt (ut_end u)),
      (''visual_mode'', JStr (vm_value (ut_visual_mode u))),
      (''repo_url'', json_of_opt_str (ut_repo_url u)),
      (''additional_repo_urls'', JList (map JStr (ut_additional u))),
      (''section_id'', json_of_opt_str (ut_section_id u)),
      (''words'', JList (map word_to_dict (ut_words u)))]"

definition utterance_from_dict :: "(json \<Rightarrow> string) \<Rightarrow> json \<Rightarrow> utterance res" where
  "utterance_from_dict repr data =
     and_then (as_dict data) (\<lambda>d.
     and_then (and_then (dindex d ''index'') py_int) (\<lambda>i.
     and_then (dindex d ''speaker'') (\<lambda>sp.
     and_then (dindex d ''speaker_id'') (\<lambda>sid.
     and_then (dindex d ''text'') (\<lambda>t.
     and_then (and_then (dindex d ''start_ms'') py_int) (\<lambda>a.
     and_then (and_then (dindex d ''end_ms'') py_int) (\<lambda>b.
     and_then (and_then (dindex d ''visual_mode'') (vm_from_value repr)) (\<lambda>vm.
     and_then (iter_field d ''additional_repo_urls'') (\<lambda>urls.
     and_then (and_then (iter_field d ''words'') (map_res (word_from_dict repr))) (\<lambda>ws.
     Inr \<lparr>ut_index = i, ut_speaker = py_str repr sp, ut_speaker_id = py_str repr sid,
          ut_text = py_str repr t, ut_start = a, ut_end = b, ut_visual_mode = vm,
          ut_repo_url = opt_str_field repr d ''repo_url'', ut_additional = map (py_str repr) urls,
          ut_section_id = opt_str_field repr d ''section_id'', ut_words = ws\<rparr>))))))))))"

definition topic_to_dict :: "topic \<Rightarrow> json" where
  "topic_to_dict t = JObj
     [(''visual_mode'', JStr (vm_value (tp_visual_mode t))),
      (''repo_url'', json_of_opt_str (tp_repo_url t)),
      (''section_id'', json_of_opt_str (tp_section_id t)),
      (''start_ms'', JInt (tp_start t)),
      (''end_ms'', JInt (tp_end t)),
      (''utterance_indices'', JList (map JInt (tp_indices t)))]"

definition topic_from_dict :: "(json \<Rightarrow> string) \<Rightarrow> json \<Rightarrow> topic res" where
  "topic_from_dict repr data =
     and_then (as_dict data) (\<lambda>d.
     and_then (and_then (dindex d ''visual_mode'') (vm_from_value repr)) (\<lambda>vm.
     and_then (and_then (dindex d ''start_ms'') py_int) (\<lambda>a.
     and_then (and_then (dindex d ''end_ms'') py_int) (\<lambda>b.
     and_then (and_then (iter_field d ''utterance_indices'') (map_res py_int)) (\<lambda>ix.
     Inr \<lparr>tp_visual_mode = vm, tp_start = a, tp_end = b, tp_indices = ix,
          tp_repo_url = opt_str_field repr d ''repo_url'',
          tp_section_id = opt_str_field repr d ''section_id''\<rparr>)))))"

definition metadata_to_dict :: "audio_metadata \<Rightarrow> json" where
  "metadata_to_dict m = JObj
     [(''schema_version'', JStr (am_schema_version m)),
      (''gap_ms'', JInt (am_gap_ms m)),
      (''speech_offset_ms'', JInt (am_speech_offset_ms m)),
      (''total_duration_ms'', JInt (am_total_duration_ms m)),
      (''utterances'', JList (map utterance_to_dict (am_utterances m))),
      (''topics'', JList (map topic_to_dict (am_topics m)))]"

definition metadata_from_dict :: "(json \<Rightarrow> string) \<Rightarrow> json \<Rightarrow> audio_metadata res" where
  "metadata_from_dict repr data =
     and_then (attr_dict data) (\<lambda>d.
     and_then (and_then (iter_field d ''utterances'') (map_res (utterance_from_dict repr))) (\<lambda>us.
     and_then (and_then (iter_field d ''topics'') (map_res (topic_from_dict repr))) (\<lambda>ts.
     and_then (py_int (dget_or d ''gap_ms'' (JInt 350))) (\<lambda>gap.
     and_then (py_int (dget_or d ''speech_offset_ms'' (JInt 0))) (\<lambda>off.
     and_then (py_int (dget_or d ''total_duration_ms'' (JInt 0))) (\<lambda>tot.
     Inr \<lparr>am_utterances = us, am_topics = ts, am_gap_ms = gap, am_speech_offset_ms = off,
          am_total_duration_ms = tot,
          am_schema_version = py_str repr (dget_or d ''schema_version'' (JStr AUDIO_METADATA_SCHEMA_VERSION))\<rparr>))))))"

text \<open>Optional strings that survive the \<open>if data.get(k)\<close> test: absent or non-empty.\<close>

definition utterance_wf :: "utterance \<Rightarrow> bool" where
  "utterance_wf u \<longleftrightarrow> opt_nonempty (ut_repo_url u) \<and> opt_nonempty (ut_section_id u)"

definition topic_wf :: "topic \<Rightarrow> bool" where
  "topic_wf t \<longleftrightarrow> opt_nonempty (tp_repo_url t) \<and> opt_nonempty (tp_section_id t)"

definition metadata_wf :: "audio_metadata \<Rightarrow> bool" where
  "metadata_wf m \<longleftrightarrow> list_all utterance_wf (am_utterances m) \<and> list_all topic_wf (am_topics m)"

lemma vm_from_value_of [simp]: "vm_from_value repr (JStr (vm_value vm)) = Inr vm"
proof -
  have "py_lower (py_strip (vm_value vm)) = vm_value vm"
  proof (cases vm)
    case REPO
    show ?thesis unfolding REPO by code_simp
  next
    case ARTICLE
    show ?thesis unfolding ARTICLE by code_simp
  next
    case INTERMISSION
    show ?thesis unfolding INTERMISSION by code_simp
  qed
  then show ?thesis by (cases vm) (simp_all add: vm_from_value_def)
qed

lemma map_py_str [simp]: "map (py_str repr \<circ> JStr) xs = xs"
  by (induction xs) auto

interpretation word_codec: codec word_to_dict "word_from_dict repr" "\<lambda>_. True" for repr
  by unfold_locales (simp add: word_to_dict_def word_from_dict_def dindex_def)

interpretation utterance_codec: codec utterance_to_dict "utterance_from_dict repr" utterance_wf for repr
proof (unfold_locales, goal_cases)
  case (1 u)
  have w: "map_res (word_from_dict repr) (map word_to_dict xs) = Inr xs" for xs
    by (rule word_codec.decode_list) simp
  from 1 show ?case
    by (simp add: utterance_to_dict_def utterance_from_dict_def utterance_wf_def dindex_def w)
qed

interpretation topic_codec: codec topic_to_dict "topic_from_dict repr" topic_wf for repr
proof (unfold_locales, goal_cases)
  case (1 t)
  have i: "map_res py_int (map JInt xs) = Inr xs" for xs by (induction xs) auto
  from 1 show ?case
    by (simp add: topic_to_dict_def topic_from_dict_def topic_wf_def dindex_def i)
qed

interpretation metadata_codec: codec metadata_to_dict "metadata_from_dict repr" metadata_wf for repr
proof (unfold_locales, goal_cases)
  case (1 m)
  then have "map_res (utterance_from_dict repr) (map utterance_to_dict (am_utterances m)) = Inr (am_utterances m)"
      "map_res (topic_from_dict repr) (map topic_to_dict (am_topics m)) = Inr (am_topics m)"
    by (auto intro!: utterance_codec.decode_list topic_codec.decode_list simp: metadata_wf_def list_all_iff)
  then show ?case
    by (simp add: metadata_to_dict_def metadata_from_dict_def dget_or_def)
qed

text \<open>Claim C30: metadata round trip.  Layer 3 reads back exactly the metadata that Layer 2 wrote,
  and two well-formed metadata values with the same serialised document are equal.\<close>

theorem metadata_round_trip:
  assumes "metadata_wf m" "metadata_wf n"
  shows "metadata_from_dict repr (metadata_to_dict m) = Inr m
    \<and> (metadata_to_dict m = metadata_to_dict n) = (m = n)"
  using metadata_codec.decode_encode [OF assms(1)] metadata_codec.encode_inj [OF assms] by blast

definition sample_metadata :: audio_metadata where
  "sample_metadata = \<lparr>am_utterances = [realize 0 [(''theo'', ''host_a'')] (sample_segment 0 ''Theo'' REPO (Some ''u''), 0, 2)],
     am_topics = [sample_topic], am_gap_ms = 350, am_speech_offset_ms = 0, am_total_duration_ms = 2000,
     am_schema_version = AUDIO_METADATA_SCHEMA_VERSION\<rparr>"

theorem metadata_round_trip_witness:
  "\<forall>repr. metadata_from_dict repr (metadata_to_dict sample_metadata) = Inr sample_metadata"
proof -
  have "metadata_wf sample_metadata"
    by (simp add: metadata_wf_def sample_metadata_def utterance_wf_def topic_wf_def opt_nonempty_def
        realize_def Let_def sample_segment_def sample_topic_def)
  from metadata_round_trip [OF this this] show ?thesis by blast
qed

end
