(* ===== verification/Edl.thy ===== *)
theory Edl
  imports AudioMetadata "HOL-Library.Product_Lexorder" "HOL-Library.Multiset"
begin

text \<open>
  \<open>podcaster/video/edl.py\<close>: the timeline planner.  Topic ranges become visual blocks, short
  blocks are merged, the blocks are stretched to tile the audio, and each block becomes a segment
  of a clip (trimmed or looped to the exact length) or of a fallback.  Mappings the caller passes
  (\<open>clips\<close>, \<open>section_titles\<close>, \<open>screenshots\<close>, \<open>repo_labels\<close>) are partial functions; an absent mapping
  is the empty one.
\<close>

section \<open>Data\<close>

definition EDL_SCHEMA_VERSION :: string where
  "EDL_SCHEMA_VERSION = ''1.0''"

definition DEFAULT_MIN_VISUAL_MS :: int where
  "DEFAULT_MIN_VISUAL_MS = 8000"

definition DEFAULT_CROSSFADE_MS :: int where
  "DEFAULT_CROSSFADE_MS = 500"

definition DEFAULT_TITLE_CARD_MS :: int where
  "DEFAULT_TITLE_CARD_MS = 2000"

datatype edl_kind = CLIP | SCREENSHOT | CARD | INTERMISSION_FILL

fun kind_value :: "edl_kind \<Rightarrow> string" where
  "kind_value CLIP = ''clip''"
| "kind_value SCREENSHOT = ''screenshot''"
| "kind_value CARD = ''card''"
| "kind_value INTERMISSION_FILL = ''intermission''"

definition DEFAULT_FALLBACK_CHAIN :: "edl_kind list" where
  "DEFAULT_FALLBACK_CHAIN = [SCREENSHOT, CARD, INTERMISSION_FILL]"

record title_card =
  tc_text :: string
  tc_duration :: int

record edl_segment =
  es_kind :: edl_kind
  es_start :: int
  es_end :: int
  es_visual_mode :: visual_mode
  es_clip_id :: "string option"
  es_repo_url :: "string option"
  es_section_id :: "string option"
  es_sources :: "source_range list"
  es_looped :: bool
  es_crossfade_in :: int
  es_title_card :: "title_card option"
  es_is_fallback :: bool
  es_image_id :: "string option"
  es_text :: "string option"

record edl =
  ed_segments :: "edl_segment list"
  ed_total_duration_ms :: int
  ed_crossfade_ms :: int
  ed_min_visual_ms :: int
  ed_schema_version :: string

definition es_duration :: "edl_segment \<Rightarrow> int" where
  "es_duration s = es_end s - es_start s"

section \<open>Visual blocks\<close>

record block =
  bk_mode :: visual_mode
  bk_start :: int
  bk_end :: int
  bk_repo_url :: "string option"
  bk_section_id :: "string option"

definition bk_duration :: "block \<Rightarrow> int" where
  "bk_duration b = bk_end b - bk_start b"

definition block_of_topic :: "topic \<Rightarrow> block" where
  "block_of_topic t = \<lparr>bk_mode = tp_visual_mode t, bk_start = tp_start t, bk_end = tp_end t,
     bk_repo_url = tp_repo_url t, bk_section_id = tp_section_id t\<rparr>"

definition too_short :: "int \<Rightarrow> block \<Rightarrow> bool" where
  "too_short min_ms b = (bk_mode b \<noteq> INTERMISSION \<and> bk_duration b < min_ms)"

text \<open>The first loop of \<open>_merge_short_topics\<close>: a short topic extends the previous block.\<close>

fun merge_loop :: "int \<Rightarrow> block list \<Rightarrow> topic list \<Rightarrow> block list" where
  "merge_loop min_ms blocks [] = blocks"
| "merge_loop min_ms blocks (t # ts) =
     (let b = block_of_topic t
      in if too_short min_ms b \<and> blocks \<noteq> []
         then merge_loop min_ms (butlast blocks @ [(last blocks)\<lparr>bk_end := bk_end b\<rparr>]) ts
         else merge_loop min_ms (blocks @ [b]) ts)"

text \<open>Its second loop: a short leading block is absorbed by the next one.\<close>

fun absorb_leading :: "int \<Rightarrow> block list \<Rightarrow> block list" where
  "absorb_leading min_ms (b # c # bs) =
     (if too_short min_ms b then absorb_leading min_ms (c\<lparr>bk_start := bk_start b\<rparr> # bs) else b # c # bs)"
| "absorb_leading min_ms bs = bs"

definition merge_short_topics :: "topic list \<Rightarrow> int \<Rightarrow> block list" where
  "merge_short_topics topics min_ms = absorb_leading min_ms (merge_loop min_ms [] topics)"

text \<open>\<open>_fill_gaps\<close>: each block ends where the next starts, the last at the total.\<close>

fun fill_ends :: "int \<Rightarrow> block list \<Rightarrow> block list" where
  "fill_ends tot [] = []"
| "fill_ends tot [b] = [b\<lparr>bk_end := tot\<rparr>]"
| "fill_ends tot (b # c # bs) = b\<lparr>bk_end := bk_start c\<rparr> # fill_ends tot (c # bs)"

definition fill_gaps :: "block list \<Rightarrow> int \<Rightarrow> block list" where
  "fill_gaps blocks tot = (case blocks of [] \<Rightarrow> [] | b # bs \<Rightarrow> fill_ends tot (b\<lparr>bk_start := 0\<rparr> # bs))"

section \<open>Source ranges\<close>

text \<open>The two loops of \<open>_excise\<close>: clip and merge the removed intervals, then keep the rest.\<close>

fun merge_removed :: "int \<Rightarrow> int \<Rightarrow> (int \<times> int) list \<Rightarrow> (int \<times> int) list \<Rightarrow> (int \<times> int) list" where
  "merge_removed s e merged [] = merged"
| "merge_removed s e merged ((lo, hi) # rest) =
     (let l = max lo s; h = min hi e
      in if h \<le> l then merge_removed s e merged rest
         else if merged \<noteq> [] \<and> l \<le> snd (last merged)
         then merge_removed s e (butlast merged @ [(fst (last merged), max (snd (last merged)) h)]) rest
         else merge_removed s e (merged @ [(l, h)]) rest)"

fun keep_outside :: "int \<Rightarrow> int \<Rightarrow> (int \<times> int) list \<Rightarrow> source_range list" where
  "keep_outside cursor e [] = (if cursor < e then [ms_range cursor e] else [])"
| "keep_outside cursor e ((lo, hi) # rest) =
     (if cursor < lo then [ms_range cursor lo] else []) @ keep_outside (max cursor hi) e rest"

definition excise :: "int \<Rightarrow> int \<Rightarrow> (int \<times> int) list \<Rightarrow> source_range list" where
  "excise s e removed = keep_outside s e (merge_removed s e [] (sort removed))"

text \<open>Trim ranges, the longest first, each cut from its tail until the excess is gone.\<close>

fun take_trims :: "int \<Rightarrow> ms_range list \<Rightarrow> (int \<times> int) list \<times> int" where
  "take_trims excess [] = ([], excess)"
| "take_trims excess (r # rs) =
     (if excess \<le> 0 then ([], excess)
      else let cut = min excess (rg_duration r); (removed, left) = take_trims (excess - cut) rs
           in ((rg_end r - cut, rg_end r) # removed, left))"

definition longest_first :: "ms_range list \<Rightarrow> ms_range list" where
  "longest_first rs = sort_key (\<lambda>r. (- rg_duration r, rg_start r)) rs"

text \<open>Repetition of loop sections under the guard, then of the whole clip.\<close>

fun loop_sections_fill :: "nat \<Rightarrow> nat \<Rightarrow> ms_range list \<Rightarrow> int \<Rightarrow> source_range list \<times> int" where
  "loop_sections_fill guard i loops deficit =
     (if deficit \<le> 0 \<or> guard = 0 then ([], deficit)
      else let section = loops ! (i mod length loops);
               cut = min deficit (rg_duration section);
               (rs, left) = loop_sections_fill (guard - 1) (Suc i) loops (deficit - cut)
           in (ms_range (rg_start section) (rg_start section + cut) # rs, left))"

declare loop_sections_fill.simps [simp del]

text \<open>The caller has refused a clip of non-positive duration, so the loop ends.\<close>

function whole_clip_fill :: "int \<Rightarrow> int \<Rightarrow> source_range list" where
  "whole_clip_fill duration deficit =
     (if deficit \<le> 0 \<or> duration \<le> 0 then []
      else ms_range 0 (min deficit duration) # whole_clip_fill duration (deficit - min deficit duration))"
  by pat_completeness auto
termination by (relation "measure (\<lambda>(_, deficit). nat deficit)") auto

declare whole_clip_fill.simps [simp del]

definition loop_guard :: nat where
  "loop_guard = 100000"

definition plan_source_ranges :: "clip_manifest \<Rightarrow> int \<Rightarrow> (source_range list \<times> bool) res" where
  "plan_source_ranges m target =
     (let duration = cm_duration_ms m
      in if duration \<le> 0 then Inl (Raise ValueErr ''cannot plan source ranges'')
         else if target \<le> 0 then Inr ([], False)
         else if target = duration then Inr ([ms_range 0 duration], False)
         else if target < duration then
           (let (removed, left) = take_trims (duration - target) (longest_first (cm_trim_ranges m));
                cuts = (if 0 < left then removed @ [(duration - left, duration)] else removed)
            in Inr (excise 0 duration cuts, False))
         else
           (let loops = longest_first (cm_loop_sections m);
                (rs, left) = (if loops = [] then ([], target - duration)
                              else loop_sections_fill loop_guard 0 loops (target - duration))
            in Inr (ms_range 0 duration # rs @ whole_clip_fill duration left, True)))"

section \<open>Fallbacks\<close>

record fallback_resolution =
  fr_kind :: edl_kind
  fr_image_id :: "string option"
  fr_text :: "string option"

definition opt_truthy :: "string option \<Rightarrow> bool" where
  "opt_truthy s = (case s of None \<Rightarrow> False | Some x \<Rightarrow> x \<noteq> [])"

definition repo_short_name :: "string \<Rightarrow> string" where
  "repo_short_name url =
     (let trimmed = py_rstrip_char CHR ''/'' (py_strip url);
          parts = filter (\<lambda>p. p \<noteq> []) (py_split_on CHR ''/'' trimmed)
      in if trimmed = [] then url
         else case rev parts of
                b # a # _ \<Rightarrow> a @ ''/'' @ b
              | [b] \<Rightarrow> b
              | [] \<Rightarrow> url)"

definition default_card_text ::
  "visual_mode \<Rightarrow> string option \<Rightarrow> string option \<Rightarrow> (string \<rightharpoonup> string) \<Rightarrow> (string \<rightharpoonup> string) \<Rightarrow> string option" where
  "default_card_text vm url sid labels titles =
     (if vm = REPO \<and> opt_truthy url then
        (case labels (the url) of
           Some l \<Rightarrow> if l \<noteq> [] then Some l else Some (repo_short_name (the url))
         | None \<Rightarrow> Some (repo_short_name (the url)))
      else if vm = ARTICLE then
        (if opt_truthy sid \<and> titles (the sid) \<noteq> None then titles (the sid)
         else Some ''This week's highlights'')
      else None)"

fun resolve_fallback :: "string option \<Rightarrow> string option \<Rightarrow> edl_kind list \<Rightarrow> fallback_resolution" where
  "resolve_fallback shot txt [] = \<lparr>fr_kind = INTERMISSION_FILL, fr_image_id = None, fr_text = None\<rparr>"
| "resolve_fallback shot txt (k # ks) =
     (if k = SCREENSHOT \<and> opt_truthy shot then \<lparr>fr_kind = k, fr_image_id = shot, fr_text = None\<rparr>
      else if k = CARD \<and> opt_truthy txt then \<lparr>fr_kind = k, fr_image_id = None, fr_text = txt\<rparr>
      else if k = INTERMISSION_FILL then \<lparr>fr_kind = INTERMISSION_FILL, fr_image_id = None, fr_text = None\<rparr>
      else resolve_fallback shot txt ks)"

section \<open>Planning\<close>

text \<open>The keyword arguments of \<open>plan_edl\<close>.\<close>

record edl_options =
  op_clips :: "string \<rightharpoonup> clip_manifest"
  op_article :: "clip_manifest option"
  op_titles :: "string \<rightharpoonup> string"
  op_screenshots :: "string \<rightharpoonup> string"
  op_labels :: "string \<rightharpoonup> string"
  op_chain :: "edl_kind list option"
  op_min_visual :: int
  op_crossfade :: int
  op_title_card :: int

definition block_manifest :: "edl_options \<Rightarrow> block \<Rightarrow> clip_manifest option" where
  "block_manifest opts b =
     (if bk_mode b = REPO \<and> opt_truthy (bk_repo_url b) then op_clips opts (the (bk_repo_url b))
      else if bk_mode b = ARTICLE then op_article opts else None)"

definition plan_block_segment ::
  "edl_options \<Rightarrow> block \<Rightarrow> int \<Rightarrow> int \<Rightarrow> title_card option \<Rightarrow> edl_segment res" where
  "plan_block_segment opts b target crossfade_in overlay =
     (let base = \<lparr>es_kind = INTERMISSION_FILL, es_start = bk_start b, es_end = bk_end b,
            es_visual_mode = bk_mode b, es_clip_id = None, es_repo_url = bk_repo_url b,
            es_section_id = bk_section_id b, es_sources = [], es_looped = False,
            es_crossfade_in = crossfade_in, es_title_card = overlay, es_is_fallback = False,
            es_image_id = None, es_text = None\<rparr>
      in if bk_mode b = INTERMISSION then Inr base
         else case block_manifest opts b of
           None \<Rightarrow>
             (let res = resolve_fallback
                    (if opt_truthy (bk_repo_url b) then op_screenshots opts (the (bk_repo_url b)) else None)
                    (default_card_text (bk_mode b) (bk_repo_url b) (bk_section_id b) (op_labels opts) (op_titles opts))
                    (case op_chain opts of None \<Rightarrow> DEFAULT_FALLBACK_CHAIN | Some ch \<Rightarrow> ch)
              in Inr (base\<lparr>es_kind := fr_kind res, es_is_fallback := True,
                      es_image_id := fr_image_id res, es_text := fr_text res\<rparr>))
         | Some m \<Rightarrow>
             and_then (plan_source_ranges m target) (\<lambda>(rs, looped).
             Inr (base\<lparr>es_kind := CLIP, es_clip_id := Some (cm_clip_id m), es_sources := rs,
                    es_looped := looped, es_is_fallback := cm_is_fallback m\<rparr>)))"

text \<open>The loop over blocks, with the previous section and the first-block flag.\<close>

definition block_title_card :: "edl_options \<Rightarrow> string option \<Rightarrow> block \<Rightarrow> title_card option" where
  "block_title_card opts prev b =
     (if opt_truthy (bk_section_id b) \<and> bk_section_id b \<noteq> prev \<and> 0 < op_title_card opts
      then (let sid = the (bk_section_id b)
            in Some \<lparr>tc_text = (case op_titles opts sid of None \<Rightarrow> sid | Some t \<Rightarrow> t),
                     tc_duration = min (op_title_card opts) (bk_duration b)\<rparr>)
      else None)"

fun plan_blocks :: "edl_options \<Rightarrow> string option \<Rightarrow> bool \<Rightarrow> block list \<Rightarrow> edl_segment list res" where
  "plan_blocks opts prev first [] = Inr []"
| "plan_blocks opts prev first (b # bs) =
     (let target = bk_duration b;
          crossfade_in = (if first then 0 else min (op_crossfade opts) target)
      in and_then (plan_block_segment opts b target crossfade_in (block_title_card opts prev b)) (\<lambda>seg.
         and_then (plan_blocks opts (bk_section_id b) False bs) (\<lambda>segs. Inr (seg # segs))))"

definition plan_edl :: "audio_metadata \<Rightarrow> edl_options \<Rightarrow> edl res" where
  "plan_edl md opts =
     (if op_min_visual opts < 0 \<or> op_crossfade opts < 0 \<or> op_title_card opts < 0
      then Inl (Raise EdlErr ''must be non-negative'')
      else let tot = am_total_duration_ms md
      in if am_topics md = [] \<or> tot \<le> 0
         then Inr \<lparr>ed_segments = [], ed_total_duration_ms = max tot 0, ed_crossfade_ms = op_crossfade opts,
                   ed_min_visual_ms = op_min_visual opts, ed_schema_version = EDL_SCHEMA_VERSION\<rparr>
         else and_then (plan_blocks opts None True
                (fill_gaps (merge_short_topics (am_topics md) (op_min_visual opts)) tot)) (\<lambda>segs.
              Inr \<lparr>ed_segments = segs, ed_total_duration_ms = tot, ed_crossfade_ms = op_crossfade opts,
                   ed_min_visual_ms = op_min_visual opts, ed_schema_version = EDL_SCHEMA_VERSION\<rparr>))"

section \<open>Validation\<close>

fun validate_segments :: "int \<Rightarrow> int \<Rightarrow> int \<Rightarrow> edl_segment list \<Rightarrow> unit res" where
  "validate_segments min_ms tot cursor [] =
     (if cursor \<noteq> tot then Inl (Raise EdlErr ''timeline ends early or late'') else Inr ())"
| "validate_segments min_ms tot cursor (s # ss) =
     (if es_start s \<noteq> cursor then Inl (Raise EdlErr ''gap/overlap'')
      else if es_end s \<le> es_start s then Inl (Raise EdlErr ''segment has non-positive duration'')
      else if es_kind s = CLIP \<and> (\<Sum>r\<leftarrow>es_sources s. rg_duration r) \<noteq> es_duration s
      then Inl (Raise EdlErr ''clip segment source ranges do not cover the segment'')
      else if es_visual_mode s \<noteq> INTERMISSION \<and> es_duration s < min_ms
      then Inl (Raise EdlErr ''segment is below min_visual_ms'')
      else validate_segments min_ms tot (es_end s) ss)"

definition validate_edl :: "edl \<Rightarrow> unit res" where
  "validate_edl x =
     (if ed_segments x = []
      then (if ed_total_duration_ms x \<noteq> 0 then Inl (Raise EdlErr ''non-empty timeline has no segments'') else Inr ())
      else validate_segments (ed_min_visual_ms x) (ed_total_duration_ms x) 0 (ed_segments x))"

section \<open>Excision\<close>

text \<open>The instants of a list of half-open intervals, and how many intervals hold an instant.\<close>

definition points :: "(int \<times> int) list \<Rightarrow> int set" where
  "points xs = {t. \<exists>x\<in>set xs. fst x \<le> t \<and> t < snd x}"

definition hits :: "(int \<times> int) list \<Rightarrow> int \<Rightarrow> nat" where
  "hits xs t = length (filter (\<lambda>x. fst x \<le> t \<and> t < snd x) xs)"

definition span :: "(int \<times> int) list \<Rightarrow> int" where
  "span xs = (\<Sum>x\<leftarrow>xs. snd x - fst x)"

definition range_points :: "ms_range list \<Rightarrow> int set" where
  "range_points rs = points (map (\<lambda>r. (rg_start r, rg_end r)) rs)"

lemma points_simps [simp]:
  "points [] = {}"
  "points (x # xs) = {fst x..<snd x} \<union> points xs"
  "points (xs @ ys) = points xs \<union> points ys"
  by (auto simp: points_def)

lemma range_points_simps [simp]:
  "range_points [] = {}"
  "range_points (r # rs) = {rg_start r..<rg_end r} \<union> range_points rs"
  "range_points (rs @ rs') = range_points rs \<union> range_points rs'"
  by (auto simp: range_points_def)

lemma hits_simps [simp]:
  "hits [] t = 0"
  "hits (x # xs) t = (if fst x \<le> t \<and> t < snd x then Suc (hits xs t) else hits xs t)"
  "hits (xs @ ys) t = hits xs t + hits ys t"
  by (auto simp: hits_def)

lemma span_simps [simp]:
  "span [] = 0" "span (x # xs) = snd x - fst x + span xs" "span (xs @ ys) = span xs + span ys"
  by (auto simp: span_def)

lemma hits_pos_iff: "0 < hits xs t \<longleftrightarrow> t \<in> points xs"
  by (induction xs) auto

lemma finite_points: "finite (points xs)"
  by (induction xs) auto

lemma hits_perm: "mset xs = mset ys \<Longrightarrow> hits xs t = hits ys t"
  by (simp add: hits_def flip: size_mset)

text \<open>Disjoint intervals: the total length is the number of instants.\<close>

lemma span_card:
  assumes "\<And>t. hits xs t \<le> 1" "\<And>x. x \<in> set xs \<Longrightarrow> fst x \<le> snd x"
  shows "span xs = int (card (points xs))"
  using assms
proof (induction xs)
  case Nil
  then show ?case by simp
next
  case (Cons x xs)
  have le: "hits xs t \<le> 1" for t using Cons.prems(1) [of t] by (simp split: if_splits)
  have "{fst x..<snd x} \<inter> points xs = {}"
  proof (rule ccontr)
    assume "{fst x..<snd x} \<inter> points xs \<noteq> {}"
    then obtain t where "fst x \<le> t" "t < snd x" "0 < hits xs t" by (auto simp: hits_pos_iff)
    then show False using Cons.prems(1) [of t] by simp
  qed
  then have "int (card (points (x # xs))) = int (card {fst x..<snd x}) + int (card (points xs))"
    by (simp add: card_Un_disjoint finite_points)
  moreover have "span xs = int (card (points xs))" by (rule Cons.IH [OF le]) (use Cons.prems in auto)
  ultimately show ?case using Cons.prems(2) [of x] by simp
qed

lemma seq_hits:
  "seq_within lo hi fst snd xs \<Longrightarrow> hits xs t \<le> 1 \<and> (t < lo \<longrightarrow> hits xs t = 0)"
proof (induction xs arbitrary: lo)
  case (Cons x xs)
  then show ?case using Cons.IH [of "snd x"] by (simp del: One_nat_def)
qed simp

lemma seq_last: "seq_within lo hi fst snd xs \<Longrightarrow> xs \<noteq> [] \<Longrightarrow> lo \<le> fst (last xs) \<and> snd (last xs) \<le> hi"
  using seq_within_bounds [of lo hi fst snd xs "last xs"] by auto

lemma merge_removed_spec:
  assumes "seq_within s e fst snd merged" "sorted (map fst rest)" "s \<le> e"
    and "merged \<noteq> [] \<Longrightarrow> (\<And>x. x \<in> set rest \<Longrightarrow> fst (last merged) \<le> max (fst x) s)"
  shows "seq_within s e fst snd (merge_removed s e merged rest)
    \<and> points (merge_removed s e merged rest) = points merged \<union> (points rest \<inter> {s..<e})"
  using assms
proof (induction s e merged rest rule: merge_removed.induct)
  case (1 s e merged)
  then show ?case by simp
next
  case (2 s e merged lo hi rest)
  define l h where lh: "l = max lo s" "h = min hi e"
  have srt: "sorted (map fst rest)" "\<And>x. x \<in> set rest \<Longrightarrow> lo \<le> fst x" using "2.prems"(2) by auto
  consider (empty) "h \<le> l" | (overlap) "\<not> h \<le> l" "merged \<noteq> [] \<and> l \<le> snd (last merged)"
    | (new) "\<not> h \<le> l" "\<not> (merged \<noteq> [] \<and> l \<le> snd (last merged))" by blast
  then show ?case
  proof cases
    case empty
    then have none: "{lo..<hi} \<inter> {s..<e} = {}" by (auto simp: lh)
    have step: "merge_removed s e merged ((lo, hi) # rest) = merge_removed s e merged rest"
      using empty by (simp add: lh [symmetric] Let_def)
    have "points ((lo, hi) # rest) \<inter> {s..<e} = points rest \<inter> {s..<e}" using none by auto
    moreover have "seq_within s e fst snd (merge_removed s e merged rest)
        \<and> points (merge_removed s e merged rest) = points merged \<union> (points rest \<inter> {s..<e})"
    proof (rule "2.IH"(1) [OF lh empty "2.prems"(1) srt(1) "2.prems"(3)])
      show "fst (last merged) \<le> max (fst x) s" if "merged \<noteq> []" "x \<in> set rest" for x
        using "2.prems"(4) [OF that(1), of x] that(2) by simp
    qed
    ultimately show ?thesis by (simp only: step)
  next
    case overlap
    obtain ms a b where m: "merged = ms @ [(a, b)]"
      using overlap by (metis append_butlast_last_id surj_pair)
    have a: "a \<le> l" "l \<le> b" using "2.prems"(4) [of "(lo, hi)"] overlap by (auto simp: m lh)
    obtain k where k: "seq_within s k fst snd ms" "k \<le> a" "a \<le> b" "b \<le> e"
      using "2.prems"(1) by (auto simp: m seq_within_append)
    have eq: "butlast merged @ [(fst (last merged), max (snd (last merged)) h)] = ms @ [(a, max b h)]"
      by (simp add: m)
    have step: "merge_removed s e merged ((lo, hi) # rest) = merge_removed s e (ms @ [(a, max b h)]) rest"
      using overlap a by (simp add: m lh [symmetric] Let_def)
    have "seq_within s e fst snd (merge_removed s e (ms @ [(a, max b h)]) rest)
        \<and> points (merge_removed s e (ms @ [(a, max b h)]) rest)
            = points (ms @ [(a, max b h)]) \<union> (points rest \<inter> {s..<e})"
    proof (rule "2.IH"(2) [OF lh overlap, unfolded eq, OF _ srt(1) "2.prems"(3)])
      show "seq_within s e fst snd (ms @ [(a, max b h)])"
        using k by (auto simp: seq_within_append lh intro!: exI [of _ k])
      show "fst (last (ms @ [(a, max b h)])) \<le> max (fst x) s" if "x \<in> set rest" for x
        using srt(2) [OF that] a(1) by (simp add: lh)
    qed
    moreover have "points (ms @ [(a, max b h)]) = points merged \<union> ({lo..<hi} \<inter> {s..<e})"
    proof -
      have "{a..<max b h} = {a..<b} \<union> {l..<h}" using a by auto
      moreover have "{l..<h} = {lo..<hi} \<inter> {s..<e}" by (auto simp: lh)
      ultimately show ?thesis by (simp add: m Un_assoc)
    qed
    then have "points (ms @ [(a, max b h)]) \<union> (points rest \<inter> {s..<e})
        = points merged \<union> (points ((lo, hi) # rest) \<inter> {s..<e})"
      by (simp only: points_simps fst_conv snd_conv Int_Un_distrib2 Un_assoc)
    ultimately show ?thesis by (simp only: step)
  next
    case new
    have step: "merge_removed s e merged ((lo, hi) # rest) = merge_removed s e (merged @ [(l, h)]) rest"
      using new by (auto simp: lh [symmetric] Let_def)
    have "seq_within s e fst snd (merge_removed s e (merged @ [(l, h)]) rest)
        \<and> points (merge_removed s e (merged @ [(l, h)]) rest)
            = points (merged @ [(l, h)]) \<union> (points rest \<inter> {s..<e})"
    proof (rule "2.IH"(3) [OF lh new _ srt(1) "2.prems"(3)])
      have "seq_within s l fst snd merged"
      proof (cases "merged = []")
        case False
        then show ?thesis using "2.prems"(1) new(2)
          by (cases merged rule: rev_cases) (auto simp: seq_within_append)
      qed (simp add: lh)
      then show "seq_within s e fst snd (merged @ [(l, h)])"
        using new(1) by (auto simp: seq_within_append lh intro!: exI [of _ l])
      show "fst (last (merged @ [(l, h)])) \<le> max (fst x) s" if "x \<in> set rest" for x
        using srt(2) [OF that] by (simp add: lh)
    qed
    moreover have "{l..<h} = {lo..<hi} \<inter> {s..<e}" by (auto simp: lh)
    then have "points (merged @ [(l, h)]) \<union> (points rest \<inter> {s..<e})
        = points merged \<union> (points ((lo, hi) # rest) \<inter> {s..<e})"
      by (simp only: points_simps fst_conv snd_conv Int_Un_distrib2 Un_assoc Un_empty_right Un_empty_left)
    ultimately show ?thesis by (simp only: step)
  qed
qed

lemma keep_outside_spec:
  "seq_within c e fst snd xs \<Longrightarrow>
    seq_within c e rg_start rg_end (keep_outside c e xs)
    \<and> range_points (keep_outside c e xs) = {c..<e} - points xs
    \<and> (\<Sum>r\<leftarrow>keep_outside c e xs. rg_duration r) = e - c - span xs
    \<and> (\<forall>r\<in>set (keep_outside c e xs). 0 < rg_duration r)"
proof (induction c e xs rule: keep_outside.induct)
  case (1 c e)
  then show ?case by (auto simp: rg_duration_def)
next
  case (2 c e lo hi rest)
  then have b: "c \<le> lo" "lo \<le> hi" "hi \<le> e" and s: "seq_within hi e fst snd rest"
    by (auto dest: seq_within_le)
  have m: "max c hi = hi" using b by simp
  have out: "points rest \<inter> {..<hi} = {}" using s by (auto simp: hits_pos_iff [symmetric] dest: seq_hits)
  note IH = "2.IH" [unfolded m, OF s]
  have "seq_within lo e rg_start rg_end (keep_outside hi e rest)"
    using IH b by (auto elim: seq_within_mono)
  then show ?case using IH b out
    by (auto simp: m rg_duration_def)
qed

lemma merge_key_sorted: "sorted (map fst (sort xs))" for xs :: "(int \<times> int) list"
proof (rule sorted_map_mono [OF sorted_sort])
qed (auto intro!: monoI simp: less_eq_prod_def mono_on_def)

lemma points_perm: "mset xs = mset ys \<Longrightarrow> points xs = points ys"
  using mset_eq_setD [of xs ys] by (simp add: points_def)

lemma excise_spec:
  assumes "s \<le> e"
  shows "range_points (excise s e removed) = {s..<e} - points removed
    \<and> seq_within s e rg_start rg_end (excise s e removed)
    \<and> (\<Sum>r\<leftarrow>excise s e removed. rg_duration r) = e - s - int (card (points removed \<inter> {s..<e}))
    \<and> (\<forall>r\<in>set (excise s e removed). 0 < rg_duration r)"
proof -
  define ms where "ms = merge_removed s e [] (sort removed)"
  have "seq_within s e fst snd ms \<and> points ms = points [] \<union> (points (sort removed) \<inter> {s..<e})"
    unfolding ms_def by (rule merge_removed_spec) (use assms merge_key_sorted in auto)
  then have ms: "seq_within s e fst snd ms" "points ms = points removed \<inter> {s..<e}"
    using points_perm [of "sort removed" removed] by simp_all
  have "span ms = int (card (points ms))"
  proof (rule span_card)
    show "hits ms t \<le> 1" for t using seq_hits [OF ms(1), of t] by simp
    show "fst x \<le> snd x" if "x \<in> set ms" for x using seq_within_bounds [OF ms(1) that] by simp
  qed
  then show ?thesis
    using keep_outside_spec [OF ms(1)] by (auto simp: excise_def ms(2) simp flip: ms_def)
qed

text \<open>Excision.  What \<open>_excise\<close> keeps is exactly the clip interval minus the removed
  intervals, whatever their order and overlap, in order and in ranges of positive length.\<close>

theorem excise_keeps_the_rest:
  assumes "s \<le> e"
  shows "range_points (excise s e removed) = {s..<e} - points removed
    \<and> seq_within s e rg_start rg_end (excise s e removed)
    \<and> list_all (\<lambda>r. 0 < rg_duration r) (excise s e removed)"
  using excise_spec [OF assms, of removed] by (auto simp: list_all_iff)

theorem excise_keeps_the_rest_witness:
  "range_points (excise 0 100 [(60, 80), (10, 20), (15, 30)]) = {0..<100} - points [(60, 80), (10, 20), (15, 30)]
    \<and> seq_within 0 100 rg_start rg_end (excise 0 100 [(60, 80), (10, 20), (15, 30)])
    \<and> list_all (\<lambda>r. 0 < rg_duration r) (excise 0 100 [(60, 80), (10, 20), (15, 30)])"
  by (rule excise_keeps_the_rest) simp

section \<open>Trim to fit, loop to fill\<close>

lemma take_trims_spec:
  assumes "\<And>r. r \<in> set rs \<Longrightarrow> 0 \<le> rg_duration r" "0 \<le> excess" "take_trims excess rs = (removed, left)"
  shows "span removed = excess - left \<and> left = max 0 (excess - (\<Sum>r\<leftarrow>rs. rg_duration r))
    \<and> (\<forall>t. hits removed t \<le> hits (map (\<lambda>r. (rg_start r, rg_end r)) rs) t)
    \<and> (\<forall>x\<in>set removed. fst x \<le> snd x \<and> (\<exists>r\<in>set rs. rg_start r \<le> fst x \<and> snd x = rg_end r))"
  using assms
proof (induction rs arbitrary: excess removed)
  case Nil
  then show ?case by simp
next
  case (Cons r rs)
  have nn: "0 \<le> (\<Sum>r\<leftarrow>rs. rg_duration r)"
    by (rule sum_list_nonneg_int) (use Cons.prems(1) in auto)
  show ?case
  proof (cases "excess = 0")
    case True
    then show ?thesis using Cons.prems(1) [of r] Cons.prems(3) nn by auto
  next
    case False
    define cut where "cut = min excess (rg_duration r)"
    obtain rem' where t: "take_trims (excess - cut) rs = (rem', left)" "removed = (rg_end r - cut, rg_end r) # rem'"
      using Cons.prems(2,3) False by (auto simp: cut_def Let_def split: prod.splits)
    have c: "0 \<le> cut" "cut \<le> rg_duration r" "0 \<le> excess - cut"
      using Cons.prems(1) [of r] Cons.prems(2) by (auto simp: cut_def)
    have IH: "span rem' = excess - cut - left" "left = max 0 (excess - cut - (\<Sum>r\<leftarrow>rs. rg_duration r))"
        "\<And>t. hits rem' t \<le> hits (map (\<lambda>r. (rg_start r, rg_end r)) rs) t"
        "\<And>x. x \<in> set rem' \<Longrightarrow> fst x \<le> snd x \<and> (\<exists>r\<in>set rs. rg_start r \<le> fst x \<and> snd x = rg_end r)"
      using Cons.IH [OF _ c(3) t(1)] Cons.prems(1) by auto
    have "left = max 0 (excess - (\<Sum>r\<leftarrow>r # rs. rg_duration r))"
      unfolding IH(2) using nn by (auto simp: cut_def)
    moreover have "hits removed t \<le> hits (map (\<lambda>r. (rg_start r, rg_end r)) (r # rs)) t" for t
      using IH(3) [of t] c(2) by (auto simp: t(2) rg_duration_def)
    moreover have "span removed = excess - left" using IH(1) by (simp add: t(2))
    moreover have "fst x \<le> snd x \<and> (\<exists>q\<in>set (r # rs). rg_start q \<le> fst x \<and> snd x = rg_end q)"
      if "x \<in> set removed" for x
      using that IH(4) [of x] c by (auto simp: t(2) rg_duration_def)
    ultimately show ?thesis by blast
  qed
qed

definition inside_clip :: "clip_manifest \<Rightarrow> ms_range \<Rightarrow> bool" where
  "inside_clip m r \<longleftrightarrow> 0 \<le> rg_start r \<and> rg_start r < rg_end r \<and> rg_end r \<le> cm_duration_ms m"

text \<open>The hard trim of the tail does not reach back into a trim range.\<close>

definition trim_fits :: "clip_manifest \<Rightarrow> int \<Rightarrow> bool" where
  "trim_fits m target \<longleftrightarrow> list_all (\<lambda>r. rg_end r \<le> target + trimmable_ms m) (cm_trim_ranges m)"

lemma ranges_within_hits:
  "ranges_within lo hi rs \<Longrightarrow> hits (map (\<lambda>r. (rg_start r, rg_end r)) rs) t \<le> 1"
proof -
  assume "ranges_within lo hi rs"
  then have "seq_within lo hi fst snd (map (\<lambda>r. (rg_start r, rg_end r)) rs)"
    by (induction rs arbitrary: lo) auto
  then show ?thesis using seq_hits by blast
qed

lemma sum_list_perm_int:
  fixes f :: "'a \<Rightarrow> int"
  assumes "mset xs = mset ys"
  shows "(\<Sum>x\<leftarrow>xs. f x) = (\<Sum>x\<leftarrow>ys. f x)"
  using assms by (metis mset_map sum_mset_sum_list)

lemma longest_first_perm: "mset (longest_first rs) = mset rs"
  by (simp add: longest_first_def)

lemma set_longest_first [simp]: "set (longest_first rs) = set rs"
  by (simp add: longest_first_def)

lemma trimmable_nonneg: "manifest_ok m \<Longrightarrow> 0 \<le> trimmable_ms m"
  unfolding trimmable_ms_def
  by (rule sum_list_nonneg_int) (auto simp: manifest_ok_def rg_duration_def dest: ranges_within_bounds)

lemma trim_sum:
  assumes "manifest_ok m" "trim_fits m target" "0 < target" "target < cm_duration_ms m"
    and "take_trims (cm_duration_ms m - target) (longest_first (cm_trim_ranges m)) = (removed, left)"
    and "cuts = (if 0 < left then removed @ [(cm_duration_ms m - left, cm_duration_ms m)] else removed)"
  shows "int (card (points cuts \<inter> {0..<cm_duration_ms m})) = cm_duration_ms m - target"
proof -
  let ?dur = "cm_duration_ms m" and ?pairs = "map (\<lambda>r. (rg_start r, rg_end r))"
  have rw: "ranges_within 0 ?dur (cm_trim_ranges m)" using assms(1) by (simp add: manifest_ok_def)
  have nn: "0 \<le> rg_duration r" if "r \<in> set (longest_first (cm_trim_ranges m))" for r
    using ranges_within_bounds [OF rw, of r] that by (simp add: rg_duration_def)
  note tt = take_trims_spec [OF nn _ assms(5)]
  have tr: "(\<Sum>r\<leftarrow>longest_first (cm_trim_ranges m). rg_duration r) = trimmable_ms m"
    unfolding trimmable_ms_def by (rule sum_list_perm_int [OF longest_first_perm])
  have t: "span removed = ?dur - target - left" "left = max 0 (?dur - target - trimmable_ms m)"
      "\<And>t. hits removed t \<le> hits (?pairs (longest_first (cm_trim_ranges m))) t"
      "\<And>x. x \<in> set removed \<Longrightarrow> fst x \<le> snd x \<and> (\<exists>r\<in>set (cm_trim_ranges m). rg_start r \<le> fst x \<and> snd x = rg_end r)"
    using tt assms(4) tr by auto
  have one: "hits removed t \<le> 1" for t
    using t(3) [of t] hits_perm [of "?pairs (longest_first (cm_trim_ranges m))" "?pairs (cm_trim_ranges m)" t]
      ranges_within_hits [OF rw, of t] by (simp add: longest_first_perm)
  have bounds: "0 \<le> fst x \<and> snd x \<le> ?dur \<and> snd x \<le> target + trimmable_ms m" if "x \<in> set removed" for x
    using t(4) [OF that] ranges_within_bounds [OF rw] assms(2) by (fastforce simp: trim_fits_def list_all_iff)
  have tail: "hits removed t = 0" if "0 < left" "?dur - left \<le> t" for t
  proof -
    have "?dur - left = target + trimmable_ms m" using that(1) t(2) by simp
    then have "t \<notin> points removed" using bounds that(2) by (fastforce simp: points_def)
    then show ?thesis by (simp flip: hits_pos_iff)
  qed
  have "hits cuts t \<le> 1" for t
    using one [of t] tail [of t] by (auto simp: assms(6))
  moreover have "fst x \<le> snd x" if "x \<in> set cuts" for x
    using that t(4) [of x] by (auto simp: assms(6) split: if_splits)
  ultimately have "span cuts = int (card (points cuts))" by (rule span_card)
  moreover have "span cuts = ?dur - target" using t(1,2) by (auto simp: assms(6))
  moreover have "left \<le> ?dur" using t(2) assms(3,4) trimmable_nonneg [OF assms(1)] by simp
  then have "points cuts \<subseteq> {0..<?dur}"
    using bounds by (fastforce simp: points_def assms(6) split: if_splits)
  then have "points cuts \<inter> {0..<?dur} = points cuts" by blast
  ultimately show ?thesis by simp
qed

lemma loop_sections_fill_spec:
  "loops \<noteq> [] \<Longrightarrow> list_all (inside_clip m) loops \<Longrightarrow> 0 \<le> deficit \<Longrightarrow> loop_sections_fill guard i loops deficit = (rs, left) \<Longrightarrow>
    0 \<le> left \<and> (\<Sum>r\<leftarrow>rs. rg_duration r) = deficit - left \<and> (\<forall>r\<in>set rs. inside_clip m r)"
proof (induction guard i loops deficit arbitrary: rs rule: loop_sections_fill.induct)
  case (1 guard i loops deficit)
  show ?case
  proof (cases "deficit \<le> 0 \<or> guard = 0")
    case True
    then show ?thesis using "1.prems" by (auto simp: loop_sections_fill.simps [of guard])
  next
    case False
    define sec where "sec = loops ! (i mod length loops)"
    define cut where "cut = min deficit (rg_duration sec)"
    obtain qs where q: "loop_sections_fill (guard - 1) (Suc i) loops (deficit - cut) = (qs, left)"
        "rs = ms_range (rg_start sec) (rg_start sec + cut) # qs"
      using "1.prems"(4) False
      by (auto simp: loop_sections_fill.simps [of guard] sec_def cut_def Let_def split: prod.splits)
    have "sec \<in> set loops" using "1.prems"(1) by (simp add: sec_def)
    then have sec: "inside_clip m sec" using "1.prems"(2) by (simp add: list_all_iff)
    have "0 < cut" using sec False by (simp add: cut_def inside_clip_def rg_duration_def)
    moreover have "cut \<le> rg_duration sec" "0 \<le> deficit - cut" by (auto simp: cut_def)
    ultimately show ?thesis
      using "1.IH" [OF False sec_def cut_def "1.prems"(1,2) _ q(1)] sec
      by (auto simp: q(2) rg_duration_def inside_clip_def)
  qed
qed

lemma whole_clip_fill_spec:
  "0 < cm_duration_ms m \<Longrightarrow> 0 \<le> deficit \<Longrightarrow>
    (\<Sum>r\<leftarrow>whole_clip_fill (cm_duration_ms m) deficit. rg_duration r) = deficit
    \<and> (\<forall>r\<in>set (whole_clip_fill (cm_duration_ms m) deficit). inside_clip m r)"
proof (induction "cm_duration_ms m" deficit rule: whole_clip_fill.induct)
  case (1 deficit)
  show ?case
  proof (cases "deficit = 0")
    case False
    then show ?thesis
      using "1.hyps" "1.prems"
      by (subst (1 2) whole_clip_fill.simps) (auto simp: rg_duration_def inside_clip_def)
  qed (simp add: whole_clip_fill.simps)
qed

lemma source_ranges_sum:
  assumes "manifest_ok m" "0 < target" "trim_fits m target"
  shows "\<exists>rs. plan_source_ranges m target = Inr (rs, cm_duration_ms m < target)
    \<and> (\<Sum>r\<leftarrow>rs. rg_duration r) = target \<and> list_all (inside_clip m) rs"
proof -
  let ?dur = "cm_duration_ms m"
  have dur: "0 < ?dur" using assms(1) by (simp add: manifest_ok_def)
  consider (eq) "target = ?dur" | (trim) "target < ?dur" | (loop) "?dur < target" by linarith
  then show ?thesis
  proof cases
    case eq
    then show ?thesis using dur by (simp add: plan_source_ranges_def Let_def rg_duration_def inside_clip_def)
  next
    case trim
    obtain removed left where t: "take_trims (?dur - target) (longest_first (cm_trim_ranges m)) = (removed, left)"
      by fastforce
    define cuts where "cuts = (if 0 < left then removed @ [(?dur - left, ?dur)] else removed)"
    have plan: "plan_source_ranges m target = Inr (excise 0 ?dur cuts, False)"
      using dur trim assms(2) t by (simp add: plan_source_ranges_def Let_def cuts_def)
    have e: "(\<Sum>r\<leftarrow>excise 0 ?dur cuts. rg_duration r) = target"
      using excise_spec [of 0 ?dur cuts] trim_sum [OF assms(1,3,2) trim t cuts_def] dur by simp
    have "list_all (inside_clip m) (excise 0 ?dur cuts)"
      using excise_spec [of 0 ?dur cuts] dur seq_within_bounds [of 0 ?dur rg_start rg_end "excise 0 ?dur cuts"]
      by (auto simp: list_all_iff inside_clip_def rg_duration_def)
    then show ?thesis using plan e trim by simp
  next
    case loop
    let ?loops = "longest_first (cm_loop_sections m)"
    obtain rs left where l: "(if ?loops = [] then ([], target - ?dur)
        else loop_sections_fill loop_guard 0 ?loops (target - ?dur)) = (rs, left)" by fastforce
    have plan: "plan_source_ranges m target = Inr (ms_range 0 ?dur # rs @ whole_clip_fill ?dur left, True)"
      using dur loop assms(2) l by (simp add: plan_source_ranges_def Let_def)
    have ins: "inside_clip m r" if "r \<in> set ?loops" for r
      using that assms(1) ranges_within_bounds [of 0 ?dur "cm_loop_sections m" r]
      by (simp add: manifest_ok_def inside_clip_def)
    have "0 \<le> left \<and> (\<Sum>r\<leftarrow>rs. rg_duration r) = target - ?dur - left \<and> (\<forall>r\<in>set rs. inside_clip m r)"
    proof (cases "?loops = []")
      case True
      then show ?thesis using l loop by auto
    next
      case False
      then show ?thesis using l loop by (intro loop_sections_fill_spec [OF False]) (auto simp: list_all_iff ins)
    qed
    then show ?thesis
      using plan loop dur whole_clip_fill_spec [OF dur, of left]
      by (auto simp: rg_duration_def list_all_iff inside_clip_def)
  qed
qed

text \<open>Claim C22: trim to fit, loop to fill.  For a well-formed manifest whose tail cut stays clear of
  its trim ranges, the planned source ranges last exactly the target, each lies inside the clip
  and has positive length, and the clip is looped exactly when it is shorter than the target.
  A clip of non-positive duration is refused.\<close>

theorem plan_source_ranges_exact:
  assumes "manifest_ok m" "0 < target" "trim_fits m target"
  shows "\<exists>rs. plan_source_ranges m target = Inr (rs, cm_duration_ms m < target)
    \<and> (\<Sum>r\<leftarrow>rs. rg_duration r) = target \<and> list_all (inside_clip m) rs"
  using source_ranges_sum [OF assms] .

theorem plan_source_ranges_exact_witness:
  "\<exists>rs. plan_source_ranges sample_manifest 70000 = Inr (rs, cm_duration_ms sample_manifest < 70000)
    \<and> (\<Sum>r\<leftarrow>rs. rg_duration r) = 70000 \<and> list_all (inside_clip sample_manifest) rs"
  by (rule plan_source_ranges_exact)
    (simp_all add: sample_manifest_def manifest_ok_def trim_fits_def trimmable_ms_def rg_duration_def)

definition one_chapter_manifest :: "string \<Rightarrow> int \<Rightarrow> string option \<Rightarrow> string \<Rightarrow> int \<Rightarrow> clip_manifest" where
  "one_chapter_manifest cid dur url label margin = \<lparr>cm_clip_id = cid, cm_duration_ms = dur, cm_repo_url = url,
     cm_chapters = [\<lparr>ch_label = label, ch_start = 0, ch_end = dur\<rparr>],
     cm_trim_ranges = [ms_range margin (dur - margin)], cm_loop_sections = [ms_range margin (dur - margin)],
     cm_is_fallback = False, cm_schema_version = CLIP_MANIFEST_SCHEMA_VERSION\<rparr>"

lemma overlapping_cuts:
  assumes "0 < x" "0 < margin" "margin < dur - margin" "x < dur - margin"
  shows "excise 0 dur [(margin, dur - margin), (x, dur)] = [ms_range 0 (min margin x)]"
  using assms by (auto simp: excise_def min_def max_def less_eq_prod_def)

text \<open>
  Claim C32: the tail cut overlaps the trim ranges.  Without that side condition the promise of
  \<open>plan_source_ranges\<close> fails on manifests that \<open>build_clip_manifest\<close> itself produces: every clip of one chapter that
  has a trim range, cut to a target shorter than the safety margin, lasts longer than the target, because the
  tail cut and the trim cut overlap.
\<close>

theorem plan_source_ranges_overlong:
  assumes "0 < min_span" "min_span \<le> dur - 2 * margin" "0 < target" "target < margin"
  shows "build_clip_manifest cid dur url [\<lparr>ch_label = label, ch_start = 0, ch_end = dur\<rparr>] False margin min_span
      = Inr (one_chapter_manifest cid dur url label margin)
    \<and> (\<exists>rs. plan_source_ranges (one_chapter_manifest cid dur url label margin) target = Inr (rs, False)
       \<and> target < (\<Sum>r\<leftarrow>rs. rg_duration r) \<and> (\<Sum>r\<leftarrow>rs. rg_duration r) = min margin (dur - 2 * margin + target))"
proof
  show "build_clip_manifest cid dur url [\<lparr>ch_label = label, ch_start = 0, ch_end = dur\<rparr>] False margin min_span
      = Inr (one_chapter_manifest cid dur url label margin)"
    using assms by (simp add: build_clip_manifest_def validate_chapters_def safe_interior_def one_chapter_manifest_def Let_def)
  have same: "dur - (2 * margin - target) = dur - 2 * margin + target" by simp
  have "excise 0 dur [(margin, dur - margin), (dur - (2 * margin - target), dur)] = [ms_range 0 (min margin (dur - 2 * margin + target))]"
    unfolding same using assms by (intro overlapping_cuts) auto
  moreover have "take_trims (dur - target) [ms_range margin (dur - margin)] = ([(margin, dur - margin)], 2 * margin - target)"
    using assms by (simp add: rg_duration_def min_def)
  moreover have "longest_first [ms_range margin (dur - margin)] = [ms_range margin (dur - margin)]"
    by (simp add: longest_first_def)
  ultimately have "plan_source_ranges (one_chapter_manifest cid dur url label margin) target
      = Inr ([ms_range 0 (min margin (dur - 2 * margin + target))], False)"
    using assms by (simp add: plan_source_ranges_def one_chapter_manifest_def)
  then show "\<exists>rs. plan_source_ranges (one_chapter_manifest cid dur url label margin) target = Inr (rs, False)
       \<and> target < (\<Sum>r\<leftarrow>rs. rg_duration r) \<and> (\<Sum>r\<leftarrow>rs. rg_duration r) = min margin (dur - 2 * margin + target)"
    using assms by (auto simp: rg_duration_def min_def)
qed

theorem plan_source_ranges_overlong_witness:
  "\<exists>rs. plan_source_ranges (one_chapter_manifest ''c'' 10000 None ''a'' 500) 300 = Inr (rs, False) \<and> (\<Sum>r\<leftarrow>rs. rg_duration r) = 500"
  using plan_source_ranges_overlong [of 1000 10000 500 300 "''c''" None "''a''"] by auto

section \<open>Blocks of the timeline\<close>

definition good_block :: "int \<Rightarrow> block \<Rightarrow> bool" where
  "good_block min_ms b \<longleftrightarrow> 0 < bk_duration b \<and> \<not> too_short min_ms b"

text \<open>Blocks in order inside the timeline, all of positive length, only the first possibly short.\<close>

definition blocks_ok :: "int \<Rightarrow> int \<Rightarrow> int \<Rightarrow> block list \<Rightarrow> bool" where
  "blocks_ok min_ms lo hi bs \<longleftrightarrow> seq_within lo hi bk_start bk_end bs
     \<and> list_all (\<lambda>b. 0 < bk_duration b) bs \<and> list_all (good_block min_ms) (tl bs)"

lemma block_of_topic_simps [simp]:
  "bk_start (block_of_topic t) = tp_start t" "bk_end (block_of_topic t) = tp_end t"
  by (simp_all add: block_of_topic_def)

lemma blocks_ok_snoc:
  "blocks_ok min_ms lo m bs \<Longrightarrow> m \<le> bk_start b \<Longrightarrow> bk_start b < bk_end b \<Longrightarrow> bs = [] \<or> \<not> too_short min_ms b
    \<Longrightarrow> blocks_ok min_ms lo (bk_end b) (bs @ [b])"
  by (cases bs) (auto simp: blocks_ok_def seq_within_append bk_duration_def good_block_def)

lemma blocks_ok_extend:
  assumes "blocks_ok min_ms lo m (bs @ [b])" "m \<le> e"
  shows "blocks_ok min_ms lo e (bs @ [b\<lparr>bk_end := e\<rparr>])"
  using assms
  by (cases bs) (auto simp: blocks_ok_def seq_within_append bk_duration_def good_block_def too_short_def)

lemma merge_loop_ok:
  "blocks_ok min_ms lo m bs \<Longrightarrow> seq_within m hi tp_start tp_end ts \<Longrightarrow> list_all (\<lambda>t. tp_start t < tp_end t) ts
    \<Longrightarrow> blocks_ok min_ms lo hi (merge_loop min_ms bs ts) \<and> (bs \<noteq> [] \<or> ts \<noteq> [] \<longrightarrow> merge_loop min_ms bs ts \<noteq> [])"
proof (induction min_ms bs ts arbitrary: m rule: merge_loop.induct)
  case (1 min_ms bs)
  then show ?case by (auto simp: blocks_ok_def elim: seq_within_mono)
next
  case (2 min_ms bs t ts)
  define b where "b = block_of_topic t"
  have t: "m \<le> tp_start t" "tp_start t < tp_end t" "seq_within (tp_end t) hi tp_start tp_end ts"
    using "2.prems" by auto
  show ?case
  proof (cases "too_short min_ms b \<and> bs \<noteq> []")
    case True
    then obtain cs c where c: "bs = cs @ [c]" by (metis append_butlast_last_id)
    have step: "merge_loop min_ms bs (t # ts) = merge_loop min_ms (cs @ [c\<lparr>bk_end := bk_end b\<rparr>]) ts"
      using True by (simp add: b_def [symmetric] c)
    have ok: "blocks_ok min_ms lo (bk_end b) (butlast bs @ [(last bs)\<lparr>bk_end := bk_end b\<rparr>])"
      using blocks_ok_extend "2.prems"(1) t by (auto simp: c b_def)
    have "seq_within (bk_end b) hi tp_start tp_end ts" using t by (simp add: b_def)
    from "2.IH"(1) [OF b_def True ok this] "2.prems"(3)
    show ?thesis unfolding step by (simp add: c)
  next
    case False
    have step: "merge_loop min_ms bs (t # ts) = merge_loop min_ms (bs @ [b]) ts"
      using False by (auto simp: b_def [symmetric] Let_def)
    have ok: "blocks_ok min_ms lo (bk_end b) (bs @ [b])"
      by (rule blocks_ok_snoc [OF "2.prems"(1)]) (use t False in \<open>auto simp: b_def\<close>)
    have "seq_within (bk_end b) hi tp_start tp_end ts" using t by (simp add: b_def)
    from "2.IH"(2) [OF b_def False ok this] "2.prems"(3)
    show ?thesis unfolding step by simp
  qed
qed

lemma absorb_leading_ok:
  "blocks_ok min_ms lo hi bs \<Longrightarrow> bs \<noteq> [] \<Longrightarrow>
    blocks_ok min_ms lo hi (absorb_leading min_ms bs) \<and> absorb_leading min_ms bs \<noteq> []
    \<and> (length (absorb_leading min_ms bs) = 1 \<or> list_all (good_block min_ms) (absorb_leading min_ms bs))"
proof (induction min_ms bs rule: absorb_leading.induct)
  case (1 min_ms b c bs)
  show ?case
  proof (cases "too_short min_ms b")
    case True
    have "blocks_ok min_ms lo hi (c\<lparr>bk_start := bk_start b\<rparr> # bs)"
      using "1.prems"(1) by (auto simp: blocks_ok_def bk_duration_def)
    from "1.IH" [OF True this] show ?thesis using True by simp
  next
    case False
    then have "good_block min_ms b" using "1.prems" by (simp add: blocks_ok_def good_block_def)
    then show ?thesis using "1.prems" False by (simp add: blocks_ok_def)
  qed
qed (auto simp: blocks_ok_def)

lemma fill_ends_ok:
  "seq_within lo tot bk_start bk_end bs \<Longrightarrow> bs \<noteq> [] \<Longrightarrow>
    tiles (bk_start (hd bs)) tot bk_start bk_end (fill_ends tot bs)
    \<and> (list_all (good_block min_ms) bs \<longrightarrow> list_all (good_block min_ms) (fill_ends tot bs))"
proof (induction tot bs arbitrary: lo rule: fill_ends.induct)
  case (1 tot)
  then show ?case by simp
next
  case (2 tot b)
  then show ?case by (auto simp: good_block_def too_short_def bk_duration_def)
next
  case (3 tot b c bs)
  then have s: "bk_start b \<le> bk_end b" "bk_end b \<le> bk_start c" "seq_within (bk_end b) tot bk_start bk_end (c # bs)"
    by auto
  from "3.IH" [OF s(3)] show ?case
    using s by (auto simp: good_block_def too_short_def bk_duration_def)
qed

lemma fill_gaps_ok:
  assumes "blocks_ok min_ms 0 tot bs" "bs \<noteq> []" "0 < tot" "min_ms \<le> tot"
    and "length bs = 1 \<or> list_all (good_block min_ms) bs"
  shows "tiles 0 tot bk_start bk_end (fill_gaps bs tot) \<and> list_all (good_block min_ms) (fill_gaps bs tot)
    \<and> fill_gaps bs tot \<noteq> []"
proof -
  obtain b cs where bs: "bs = b # cs" using assms(2) by (cases bs) auto
  define cs' where "cs' = b\<lparr>bk_start := 0\<rparr> # cs"
  have seq: "seq_within 0 tot bk_start bk_end cs'"
    using assms(1) by (auto simp: blocks_ok_def bs cs'_def)
  have ne: "fill_ends tot cs' \<noteq> []" by (cases cs) (simp_all add: cs'_def)
  have "list_all (good_block min_ms) (fill_ends tot cs')"
  proof (cases "cs = []")
    case True
    then show ?thesis using assms(3,4) by (simp add: cs'_def good_block_def too_short_def bk_duration_def)
  next
    case False
    then have "list_all (good_block min_ms) cs'"
      using assms(1,5) by (auto simp: bs cs'_def blocks_ok_def good_block_def too_short_def bk_duration_def)
    then show ?thesis using fill_ends_ok [OF seq, of min_ms] by (simp add: cs'_def)
  qed
  then show ?thesis
    using fill_ends_ok [OF seq] ne by (simp add: fill_gaps_def bs cs'_def)
qed

lemma timeline_blocks_ok:
  assumes "seq_within 0 tot tp_start tp_end ts" "list_all (\<lambda>t. tp_start t < tp_end t) ts" "ts \<noteq> []"
    and "0 < tot" "min_ms \<le> tot"
  shows "tiles 0 tot bk_start bk_end (fill_gaps (merge_short_topics ts min_ms) tot)
    \<and> list_all (good_block min_ms) (fill_gaps (merge_short_topics ts min_ms) tot)
    \<and> fill_gaps (merge_short_topics ts min_ms) tot \<noteq> []"
proof -
  have "blocks_ok min_ms 0 0 []" by (simp add: blocks_ok_def)
  from merge_loop_ok [OF this assms(1,2)] assms(3)
  have "blocks_ok min_ms 0 tot (merge_loop min_ms [] ts)" "merge_loop min_ms [] ts \<noteq> []" by simp_all
  from absorb_leading_ok [OF this] show ?thesis
    using assms(4,5) by (intro fill_gaps_ok) (auto simp: merge_short_topics_def)
qed

section \<open>The plan is valid\<close>

definition clip_usable :: "int \<Rightarrow> clip_manifest \<Rightarrow> bool" where
  "clip_usable min_ms m \<longleftrightarrow> manifest_ok m \<and> trim_fits m min_ms"

definition options_ok :: "edl_options \<Rightarrow> bool" where
  "options_ok opts \<longleftrightarrow> 0 \<le> op_min_visual opts \<and> 0 \<le> op_crossfade opts \<and> 0 \<le> op_title_card opts
     \<and> (\<forall>url m. op_clips opts url = Some m \<longrightarrow> clip_usable (op_min_visual opts) m)
     \<and> (\<forall>m. op_article opts = Some m \<longrightarrow> clip_usable (op_min_visual opts) m)"

lemma resolve_fallback_not_clip: "fr_kind (resolve_fallback shot txt ks) \<noteq> CLIP"
  by (induction ks) auto

lemma block_manifest_usable:
  "options_ok opts \<Longrightarrow> block_manifest opts b = Some m \<Longrightarrow> clip_usable (op_min_visual opts) m"
  by (auto simp: options_ok_def block_manifest_def split: if_splits)

lemma plan_block_segment_ok:
  assumes "options_ok opts" "good_block (op_min_visual opts) b"
  shows "\<exists>s. plan_block_segment opts b (bk_duration b) x ov = Inr s
    \<and> es_start s = bk_start b \<and> es_end s = bk_end b \<and> es_visual_mode s = bk_mode b
    \<and> es_crossfade_in s = x \<and> es_title_card s = ov
    \<and> (es_kind s = CLIP \<longrightarrow> (\<Sum>r\<leftarrow>es_sources s. rg_duration r) = bk_duration b)"
proof (cases "bk_mode b = INTERMISSION \<or> block_manifest opts b = None")
  case True
  then show ?thesis
    using resolve_fallback_not_clip by (auto simp: plan_block_segment_def Let_def)
next
  case False
  then obtain m where m: "block_manifest opts b = Some m" "bk_mode b \<noteq> INTERMISSION" by auto
  have "op_min_visual opts \<le> bk_duration b" "0 < bk_duration b"
    using assms(2) m(2) by (auto simp: good_block_def too_short_def)
  then have "trim_fits m (bk_duration b)" "manifest_ok m"
    using block_manifest_usable [OF assms(1) m(1)] by (auto simp: clip_usable_def trim_fits_def list_all_iff)
  then obtain rs where "plan_source_ranges m (bk_duration b) = Inr (rs, cm_duration_ms m < bk_duration b)"
      "(\<Sum>r\<leftarrow>rs. rg_duration r) = bk_duration b"
    using source_ranges_sum \<open>0 < bk_duration b\<close> by blast
  then show ?thesis using m by (simp add: plan_block_segment_def Let_def)
qed

text \<open>A segment's overlays fit in it.\<close>

definition overlays_fit :: "edl_segment \<Rightarrow> bool" where
  "overlays_fit s \<longleftrightarrow> 0 \<le> es_crossfade_in s \<and> es_crossfade_in s \<le> es_duration s
     \<and> (case es_title_card s of None \<Rightarrow> True | Some c \<Rightarrow> 0 < tc_duration c \<and> tc_duration c \<le> es_duration s)"

lemma plan_blocks_ok:
  assumes "options_ok opts"
  shows "tiles c tot bk_start bk_end bs \<Longrightarrow> list_all (good_block (op_min_visual opts)) bs \<Longrightarrow>
    \<exists>segs. plan_blocks opts prev first bs = Inr segs
      \<and> validate_segments (op_min_visual opts) tot c segs = Inr ()
      \<and> map (\<lambda>s. (es_start s, es_end s, es_visual_mode s)) segs = map (\<lambda>b. (bk_start b, bk_end b, bk_mode b)) bs
      \<and> list_all overlays_fit segs"
proof (induction bs arbitrary: c prev first)
  case Nil
  then show ?case by simp
next
  case (Cons b bs)
  define x where "x = (if first then 0 else min (op_crossfade opts) (bk_duration b))"
  define ov where "ov = block_title_card opts prev b"
  have b: "bk_start b = c" "good_block (op_min_visual opts) b" "tiles (bk_end b) tot bk_start bk_end bs"
    using Cons.prems by auto
  obtain s where s: "plan_block_segment opts b (bk_duration b) x ov = Inr s"
      "es_start s = bk_start b" "es_end s = bk_end b" "es_visual_mode s = bk_mode b"
      "es_crossfade_in s = x" "es_title_card s = ov"
      "es_kind s = CLIP \<longrightarrow> (\<Sum>r\<leftarrow>es_sources s. rg_duration r) = bk_duration b"
    using plan_block_segment_ok [OF assms b(2)] by blast
  obtain segs where segs: "plan_blocks opts (bk_section_id b) False bs = Inr segs"
      "validate_segments (op_min_visual opts) tot (bk_end b) segs = Inr ()"
      "map (\<lambda>s. (es_start s, es_end s, es_visual_mode s)) segs = map (\<lambda>b. (bk_start b, bk_end b, bk_mode b)) bs"
      "list_all overlays_fit segs"
    using Cons.IH [OF b(3)] Cons.prems(2) by force
  have d: "es_duration s = bk_duration b" by (simp add: es_duration_def bk_duration_def s)
  have "overlays_fit s"
    using b(2) assms
    by (auto simp: overlays_fit_def s d x_def ov_def block_title_card_def good_block_def options_ok_def Let_def)
  moreover have "validate_segments (op_min_visual opts) tot c (s # segs) = Inr ()"
    using b(2) s segs(2) d by (auto simp: b(1) good_block_def too_short_def bk_duration_def)
  ultimately show ?case
    using s segs by (simp add: x_def ov_def Let_def)
qed

lemma validate_segments_tiles:
  "validate_segments min_ms tot c segs = Inr () \<Longrightarrow> tiles c tot es_start es_end segs"
  by (induction min_ms tot c segs rule: validate_segments.induct) (auto split: if_splits)

text \<open>Claim C18: the planned EDL is valid.  For audio topics in order and of positive length, a
  total of at least the minimum visual length, options that are not negative, and clips that are missing or
  well-formed with their tail cut clear of their trim ranges, \<open>plan_edl\<close> returns, and its result passes
  \<open>validate_edl\<close>: the segments tile \<open>[0, total_duration_ms]\<close>, every clip segment's sources last exactly the segment, every
  non-intermission segment reaches the minimum, and crossfades and title cards fit their segment.\<close>

theorem plan_edl_valid:
  assumes "options_ok opts" "op_min_visual opts \<le> am_total_duration_ms md" "0 < am_total_duration_ms md"
    and "am_topics md \<noteq> []" "list_all (\<lambda>t. tp_start t < tp_end t) (am_topics md)"
    and "seq_within 0 (am_total_duration_ms md) tp_start tp_end (am_topics md)"
  shows "\<exists>x. plan_edl md opts = Inr x \<and> validate_edl x = Inr ()
    \<and> ed_total_duration_ms x = am_total_duration_ms md
    \<and> tiles 0 (am_total_duration_ms md) es_start es_end (ed_segments x)
    \<and> list_all overlays_fit (ed_segments x)"
proof -
  define bs where "bs = fill_gaps (merge_short_topics (am_topics md) (op_min_visual opts)) (am_total_duration_ms md)"
  have bs: "tiles 0 (am_total_duration_ms md) bk_start bk_end bs"
      "list_all (good_block (op_min_visual opts)) bs" "bs \<noteq> []"
    using timeline_blocks_ok [OF assms(6,5,4,3,2)] by (auto simp: bs_def)
  obtain segs where segs: "plan_blocks opts None True bs = Inr segs"
      "validate_segments (op_min_visual opts) (am_total_duration_ms md) 0 segs = Inr ()"
      "map (\<lambda>s. (es_start s, es_end s, es_visual_mode s)) segs = map (\<lambda>b. (bk_start b, bk_end b, bk_mode b)) bs"
      "list_all overlays_fit segs"
    using plan_blocks_ok [OF assms(1) bs(1,2)] by blast
  have "segs \<noteq> []" using segs(3) bs(3) by auto
  then show ?thesis
    using assms(1,3,4) segs validate_segments_tiles [OF segs(2)]
    by (simp add: plan_edl_def options_ok_def validate_edl_def Let_def flip: bs_def)
qed

definition sample_options :: edl_options where
  "sample_options = \<lparr>op_clips = (\<lambda>u. if u = ''r'' then Some sample_manifest else None), op_article = None,
     op_titles = (\<lambda>_. None), op_screenshots = (\<lambda>_. None), op_labels = (\<lambda>_. None), op_chain = None,
     op_min_visual = 8000, op_crossfade = 500, op_title_card = 2000\<rparr>"

definition timed_topic :: "visual_mode \<Rightarrow> string option \<Rightarrow> int \<Rightarrow> int \<Rightarrow> topic" where
  "timed_topic vm url a b = \<lparr>tp_visual_mode = vm, tp_start = a, tp_end = b, tp_indices = [],
     tp_repo_url = url, tp_section_id = Some ''sec''\<rparr>"

definition timed_metadata :: "topic list \<Rightarrow> int \<Rightarrow> audio_metadata" where
  "timed_metadata ts tot = \<lparr>am_utterances = [], am_topics = ts, am_gap_ms = 350, am_speech_offset_ms = 0,
     am_total_duration_ms = tot, am_schema_version = AUDIO_METADATA_SCHEMA_VERSION\<rparr>"

definition sample_topics :: "topic list" where
  "sample_topics = [timed_topic ARTICLE None 0 3000, timed_topic REPO (Some ''r'') 3350 40000,
     timed_topic INTERMISSION None 40350 41000, timed_topic REPO (Some ''missing'') 41350 61000]"

lemma sample_options_ok: "options_ok sample_options"
  by (auto simp: options_ok_def sample_options_def clip_usable_def sample_manifest_def manifest_ok_def
      trim_fits_def trimmable_ms_def rg_duration_def split: if_splits)

theorem plan_edl_valid_witness:
  "\<exists>x. plan_edl (timed_metadata sample_topics 62000) sample_options = Inr x \<and> validate_edl x = Inr ()
    \<and> ed_total_duration_ms x = 62000
    \<and> tiles 0 62000 es_start es_end (ed_segments x) \<and> list_all overlays_fit (ed_segments x)"
  using plan_edl_valid [OF sample_options_ok, of "timed_metadata sample_topics 62000"]
  by (simp add: timed_metadata_def sample_options_def sample_topics_def timed_topic_def)

text \<open>
  An episode shorter than the minimum.  One topic cannot be merged into a neighbour, so
  an episode of a single topic below \<open>min_visual_ms\<close> yields a non-intermission segment below the
  minimum, which \<open>validate_edl\<close> then refuses: the module's guarantee \<open>every non-intermission segment
  is at least min_visual_ms long\<close> needs the side condition that the total reaches it.
\<close>

theorem short_episode_rejected:
  "\<exists>x. plan_edl (timed_metadata [timed_topic ARTICLE None 0 5000] 5000) sample_options = Inr x
    \<and> map es_visual_mode (ed_segments x) = [ARTICLE] \<and> map es_duration (ed_segments x) = [5000]
    \<and> validate_edl x = Inl (Raise EdlErr ''segment is below min_visual_ms'')"
  by (simp add: plan_edl_def timed_metadata_def timed_topic_def sample_options_def merge_short_topics_def
      block_of_topic_def too_short_def bk_duration_def fill_gaps_def plan_block_segment_def block_manifest_def
      DEFAULT_FALLBACK_CHAIN_def opt_truthy_def default_card_text_def es_duration_def validate_edl_def Let_def)

text \<open>The fallback chain.  A missing clip always resolves to a fill, never to a clip: the
  poster frame when the chain tries it first and one exists, the card when there is a text, and
  otherwise an intermission; the fill carries exactly the asset its kind needs.\<close>

theorem resolve_fallback_total:
  "(let r = resolve_fallback shot txt chain
    in (fr_kind r = SCREENSHOT \<and> SCREENSHOT \<in> set chain \<and> opt_truthy shot \<and> fr_image_id r = shot \<and> fr_text r = None)
      \<or> (fr_kind r = CARD \<and> CARD \<in> set chain \<and> opt_truthy txt \<and> fr_text r = txt \<and> fr_image_id r = None)
      \<or> (fr_kind r = INTERMISSION_FILL \<and> fr_image_id r = None \<and> fr_text r = None))
   \<and> fr_kind (resolve_fallback shot txt DEFAULT_FALLBACK_CHAIN)
      = (if opt_truthy shot then SCREENSHOT else if opt_truthy txt then CARD else INTERMISSION_FILL)"
proof -
  have "(fr_kind r = SCREENSHOT \<and> SCREENSHOT \<in> set chain \<and> opt_truthy shot \<and> fr_image_id r = shot \<and> fr_text r = None)
      \<or> (fr_kind r = CARD \<and> CARD \<in> set chain \<and> opt_truthy txt \<and> fr_text r = txt \<and> fr_image_id r = None)
      \<or> (fr_kind r = INTERMISSION_FILL \<and> fr_image_id r = None \<and> fr_text r = None)"
    if "r = resolve_fallback shot txt chain" for r
    using that by (induction chain) (auto split: if_splits)
  then show ?thesis by (auto simp: Let_def DEFAULT_FALLBACK_CHAIN_def)
qed

section \<open>Serialisation\<close>

definition kind_from_value :: "(json \<Rightarrow> string) \<Rightarrow> json \<Rightarrow> edl_kind res" where
  "kind_from_value repr v =
     (let s = py_str repr v
      in if s = ''clip'' then Inr CLIP
         else if s = ''screenshot'' then Inr SCREENSHOT
         else if s = ''card'' then Inr CARD
         else if s = ''intermission'' then Inr INTERMISSION_FILL
         else Inl (Raise ValueErr ''is not a valid EdlSegmentKind''))"

definition title_card_to_dict :: "title_card \<Rightarrow> json" where
  "title_card_to_dict c = JObj [(''text'', JStr (tc_text c)), (''duration_ms'', JInt (tc_duration c))]"

definition title_card_from_dict :: "(json \<Rightarrow> string) \<Rightarrow> json \<Rightarrow> title_card res" where
  "title_card_from_dict repr data =
     and_then (as_dict data) (\<lambda>d.
     and_then (dindex d ''text'') (\<lambda>t.
     and_then (and_then (dindex d ''duration_ms'') py_int) (\<lambda>n.
     Inr \<lparr>tc_text = py_str repr t, tc_duration = n\<rparr>)))"

definition segment_to_dict :: "edl_segment \<Rightarrow> json" where
  "segment_to_dict s = JObj
     [(''kind'', JStr (kind_value (es_kind s))),
      (''timeline_start_ms'', JInt (es_start s)),
      (''timeline_end_ms'', JInt (es_end s)),
      (''visual_mode'', JStr (vm_value (es_visual_mode s))),
      (''clip_id'', json_of_opt_str (es_clip_id s)),
      (''repo_url'', json_of_opt_str (es_repo_url s)),
      (''section_id'', json_of_opt_str (es_section_id s)),
      (''source_ranges'', JList (map range_to_dict (es_sources s))),
      (''looped'', JBool (es_looped s)),
      (''crossfade_in_ms'', JInt (es_crossfade_in s)),
      (''title_card'', case es_title_card s of None \<Rightarrow> JNull | Some c \<Rightarrow> title_card_to_dict c),
      (''is_fallback'', JBool (es_is_fallback s)),
      (''fallback_image_id'', json_of_opt_str (es_image_id s)),
      (''fallback_text'', json_of_opt_str (es_text s))]"

definition segment_from_dict :: "(json \<Rightarrow> string) \<Rightarrow> json \<Rightarrow> edl_segment res" where
  "segment_from_dict repr data =
     and_then (attr_dict data) (\<lambda>d.
     let card = dget d ''title_card'' in
     and_then (and_then (dindex d ''kind'') (kind_from_value repr)) (\<lambda>k.
     and_then (and_then (dindex d ''timeline_start_ms'') py_int) (\<lambda>a.
     and_then (and_then (dindex d ''timeline_end_ms'') py_int) (\<lambda>b.
     and_then (and_then (dindex d ''visual_mode'') (vm_from_value repr)) (\<lambda>vm.
     and_then (and_then (iter_field d ''source_ranges'') (map_res range_from_dict)) (\<lambda>rs.
     and_then (py_int (dget_or d ''crossfade_in_ms'' (JInt 0))) (\<lambda>x.
     and_then (if truthy card then and_then (title_card_from_dict repr card) (\<lambda>c. Inr (Some c)) else Inr None) (\<lambda>c.
     Inr \<lparr>es_kind = k, es_start = a, es_end = b, es_visual_mode = vm,
          es_clip_id = opt_str_field repr d ''clip_id'', es_repo_url = opt_str_field repr d ''repo_url'',
          es_section_id = opt_str_field repr d ''section_id'', es_sources = rs,
          es_looped = truthy (dget_or d ''looped'' (JBool False)), es_crossfade_in = x, es_title_card = c,
          es_is_fallback = truthy (dget_or d ''is_fallback'' (JBool False)),
          es_image_id = opt_str_field repr d ''fallback_image_id'',
          es_text = opt_str_field repr d ''fallback_text''\<rparr>))))))))"

definition edl_to_dict :: "edl \<Rightarrow> json" where
  "edl_to_dict x = JObj
     [(''schema_version'', JStr (ed_schema_version x)),
      (''total_duration_ms'', JInt (ed_total_duration_ms x)),
      (''crossfade_ms'', JInt (ed_crossfade_ms x)),
      (''min_visual_ms'', JInt (ed_min_visual_ms x)),
      (''segments'', JList (map segment_to_dict (ed_segments x)))]"

definition edl_from_dict :: "(json \<Rightarrow> string) \<Rightarrow> json \<Rightarrow> edl res" where
  "edl_from_dict repr data =
     and_then (attr_dict data) (\<lambda>d.
     and_then (and_then (iter_field d ''segments'') (map_res (segment_from_dict repr))) (\<lambda>ss.
     and_then (py_int (dget_or d ''total_duration_ms'' (JInt 0))) (\<lambda>tot.
     and_then (py_int (dget_or d ''crossfade_ms'' (JInt DEFAULT_CROSSFADE_MS))) (\<lambda>x.
     and_then (py_int (dget_or d ''min_visual_ms'' (JInt DEFAULT_MIN_VISUAL_MS))) (\<lambda>mv.
     Inr \<lparr>ed_segments = ss, ed_total_duration_ms = tot, ed_crossfade_ms = x, ed_min_visual_ms = mv,
          ed_schema_version = py_str repr (dget_or d ''schema_version'' (JStr EDL_SCHEMA_VERSION))\<rparr>)))))"

definition segment_wf :: "edl_segment \<Rightarrow> bool" where
  "segment_wf s \<longleftrightarrow> opt_nonempty (es_clip_id s) \<and> opt_nonempty (es_repo_url s) \<and> opt_nonempty (es_section_id s)
     \<and> opt_nonempty (es_image_id s) \<and> opt_nonempty (es_text s)"

lemma kind_from_value_of [simp]: "kind_from_value repr (JStr (kind_value k)) = Inr k"
  by (cases k) (simp_all add: kind_from_value_def)

interpretation title_card_codec: codec title_card_to_dict "title_card_from_dict repr" "\<lambda>_. True" for repr
  by unfold_locales (simp add: title_card_to_dict_def title_card_from_dict_def dindex_def)

interpretation segment_codec: codec segment_to_dict "segment_from_dict repr" segment_wf for repr
proof (unfold_locales, goal_cases)
  case (1 s)
  have r: "map_res range_from_dict (map range_to_dict xs) = Inr xs" for xs
    by (rule range_codec.decode_list) simp
  have t: "truthy (title_card_to_dict c)" for c by (simp add: title_card_to_dict_def)
  from 1 show ?case
    by (cases "es_title_card s")
      (simp_all add: segment_to_dict_def segment_from_dict_def segment_wf_def dindex_def dget_or_def
        r t title_card_codec.decode_encode Let_def)
qed

interpretation edl_codec: codec edl_to_dict "edl_from_dict repr" "\<lambda>x. list_all segment_wf (ed_segments x)" for repr
proof (unfold_locales, goal_cases)
  case (1 x)
  then have "map_res (segment_from_dict repr) (map segment_to_dict (ed_segments x)) = Inr (ed_segments x)"
    by (auto intro!: segment_codec.decode_list simp: list_all_iff)
  then show ?case by (simp add: edl_to_dict_def edl_from_dict_def dget_or_def)
qed

text \<open>Claim C31: EDL round trip.  The renderer reads back exactly the EDL the planner wrote, for
  EDLs without empty optional strings.\<close>

theorem edl_round_trip:
  assumes "list_all segment_wf (ed_segments x)"
  shows "edl_from_dict repr (edl_to_dict x) = Inr x"
  using edl_codec.decode_encode [OF assms] .

theorem edl_round_trip_witness:
  "let x = \<lparr>ed_segments = [\<lparr>es_kind = CLIP, es_start = 0, es_end = 9000, es_visual_mode = REPO,
         es_clip_id = Some ''c'', es_repo_url = Some ''r'', es_section_id = None, es_sources = [ms_range 0 9000],
         es_looped = False, es_crossfade_in = 0, es_title_card = Some \<lparr>tc_text = ''t'', tc_duration = 2000\<rparr>,
         es_is_fallback = False, es_image_id = None, es_text = None\<rparr>],
       ed_total_duration_ms = 9000, ed_crossfade_ms = 500, ed_min_visual_ms = 8000, ed_schema_version = ''1.0''\<rparr>
   in \<forall>repr. edl_from_dict repr (edl_to_dict x) = Inr x"
  unfolding Let_def by (intro allI, rule edl_round_trip) (simp add: segment_wf_def opt_nonempty_def)

end
