(* ===== verification/Budget.thy ===== *)
theory Budget
  imports Json
begin

text \<open>
  \<open>podcaster/video/budget.py\<close>: the shared timing contract of a video run.  Stage cutoffs are
  seconds after the durable start; instants are microseconds since year 1 in UTC.  A clock reading
  is what one call of the monotonic clock and of the UTC clock return; an operation that reads the
  clocks several times takes several readings.
\<close>

section \<open>Stages and cutoffs\<close>

datatype video_stage =
  PREFLIGHT | FANIN | FALLBACK | RENDER | ARCHIVE | PROVIDER_ADMISSION | EVIDENCE | SHUTDOWN

fun stage_deadline :: "video_stage \<Rightarrow> int" where
  "stage_deadline PREFLIGHT = 300"
| "stage_deadline FANIN = 1200"
| "stage_deadline FALLBACK = 1500"
| "stage_deadline RENDER = 3300"
| "stage_deadline ARCHIVE = 3600"
| "stage_deadline PROVIDER_ADMISSION = 4500"
| "stage_deadline EVIDENCE = 4920"
| "stage_deadline SHUTDOWN = 5100"

definition JOB_DEADLINE_SECONDS :: int where
  "JOB_DEADLINE_SECONDS = 5100"

definition CLIP_LIFETIME_SECONDS :: int where
  "CLIP_LIFETIME_SECONDS = 720"

definition PROVIDER_RESERVE_SECONDS :: int where
  "PROVIDER_RESERVE_SECONDS = 1800"

definition BUDGET_SCHEMA_VERSION :: int where
  "BUDGET_SCHEMA_VERSION = 1"

definition CLIP_ADMISSION_SCHEMA_VERSION :: int where
  "CLIP_ADMISSION_SCHEMA_VERSION = 1"

datatype admission_reason =
    ADMITTED | STAGE_DEADLINE_REACHED | JOB_DEADLINE_REACHED | PROVIDER_DEADLINE_REACHED
  | PROVIDER_RESERVE_INSUFFICIENT | INVALID_DURABLE_PROJECTION

section \<open>Timestamps\<close>

text \<open>\<open>_require_utc\<close>: naive values are refused; an offset may push the instant out of range.\<close>

fun require_utc :: "stamp \<Rightarrow> int res" where
  "require_utc (Naive t) = Inl (Raise ValueErr ''must be timezone-aware'')"
| "require_utc (Aware t) =
     (if valid_instant t then Inr t else Inl (Raise OverflowErr ''date value out of range''))"

definition parse_utc :: "json \<Rightarrow> int res" where
  "parse_utc v = (case v of
     JStr s \<Rightarrow>
       (let normalized = (if ends_with ''Z'' s then butlast s @ ''+00:00'' else s)
        in case fromisoformat normalized of
             None \<Rightarrow> Inl (Raise ValueErr ''must be a valid ISO-8601 timestamp'')
           | Some t \<Rightarrow> require_utc t)
   | _ \<Rightarrow> Inl (Raise ValueErr ''must be an ISO-8601 string''))"

definition format_utc :: "int \<Rightarrow> string" where
  "format_utc t = iso_z t"

text \<open>\<open>value + timedelta(seconds=n)\<close>.\<close>

definition plus_seconds :: "int \<Rightarrow> int \<Rightarrow> int res" where
  "plus_seconds t n =
     (if valid_instant (t + micros n) then Inr (t + micros n)
      else Inl (Raise OverflowErr ''date value out of range''))"

interpretation utc_notation: instant_notation format_utc parse_utc
proof (unfold_locales, goal_cases)
  case (1 t)
  have "ends_with ''Z'' (iso_body t @ ''Z'')" by (simp add: ends_with_def)
  then have "parse_utc (JStr (format_utc t)) =
      (case fromisoformat (isoformat_utc t) of
         None \<Rightarrow> Inl (Raise ValueErr ''must be a valid ISO-8601 timestamp'') | Some t \<Rightarrow> require_utc t)"
    by (simp add: parse_utc_def format_utc_def iso_z_eq isoformat_utc_def butlast_append)
  then show ?case using 1 by (simp add: fromisoformat_isoformat)
qed

section \<open>The durable projection\<close>

record budget_projection =
  bp_started :: int
  bp_deadline :: int
  bp_version :: int

definition make_projection :: "stamp \<Rightarrow> stamp \<Rightarrow> int \<Rightarrow> budget_projection res" where
  "make_projection started deadline version =
     and_then (require_utc started) (\<lambda>s.
     and_then (require_utc deadline) (\<lambda>d.
     if version \<noteq> BUDGET_SCHEMA_VERSION then Inl (Raise ValueErr ''unsupported budget schema version'')
     else and_then (plus_seconds s JOB_DEADLINE_SECONDS) (\<lambda>expected.
       if d \<noteq> expected then Inl (Raise ValueErr ''durable job deadline does not match the shared lifetime'')
       else Inr \<lparr>bp_started = s, bp_deadline = d, bp_version = version\<rparr>)))"

definition projection_to_dict :: "budget_projection \<Rightarrow> dict" where
  "projection_to_dict p =
     [(''schema_version'', JInt (bp_version p)),
      (''started_at_utc'', JStr (format_utc (bp_started p))),
      (''deadline_at_utc'', JStr (format_utc (bp_deadline p)))]"

definition projection_from_dict :: "dict \<Rightarrow> budget_projection res" where
  "projection_from_dict d =
     and_then (py_int (dget_or d ''schema_version'' (JInt 0))) (\<lambda>v.
     and_then (parse_utc (dget d ''started_at_utc'')) (\<lambda>s.
     and_then (parse_utc (dget d ''deadline_at_utc'')) (\<lambda>e.
     make_projection (Aware s) (Aware e) v)))"

definition stage_deadline_at :: "budget_projection \<Rightarrow> video_stage \<Rightarrow> int res" where
  "stage_deadline_at p stage = plus_seconds (bp_started p) (stage_deadline stage)"

text \<open>What \<open>__post_init__\<close> leaves behind.\<close>

definition projection_ok :: "budget_projection \<Rightarrow> bool" where
  "projection_ok p \<longleftrightarrow> valid_instant (bp_started p) \<and> valid_instant (bp_deadline p)
     \<and> bp_version p = BUDGET_SCHEMA_VERSION \<and> bp_deadline p = bp_started p + micros JOB_DEADLINE_SECONDS"

lemma make_projection_iff:
  "make_projection s e v = Inr p \<longleftrightarrow>
     projection_ok p \<and> s = Aware (bp_started p) \<and> e = Aware (bp_deadline p) \<and> v = bp_version p"
  by (cases s; cases e; cases p)
    (auto simp: make_projection_def projection_ok_def plus_seconds_def and_then_Inr_conv)

lemma projection_from_dict_ok: "projection_from_dict d = Inr p \<Longrightarrow> projection_ok p"
  by (auto simp: projection_from_dict_def and_then_Inr_conv make_projection_iff)

lemma projection_round_trip:
  assumes "projection_ok p"
  shows "projection_from_dict (projection_to_dict p) = Inr p"
proof -
  have v: "parse_utc (JStr (format_utc (bp_started p))) = Inr (bp_started p)"
      "parse_utc (JStr (format_utc (bp_deadline p))) = Inr (bp_deadline p)"
    using assms unfolding projection_ok_def by (blast intro: utc_notation.read_print)+
  have "make_projection (Aware (bp_started p)) (Aware (bp_deadline p)) (bp_version p) = Inr p"
    using assms by (simp add: make_projection_iff)
  then show ?thesis by (simp add: projection_to_dict_def projection_from_dict_def dget_or_def v)
qed

interpretation projection_codec: codec "\<lambda>p. JObj (projection_to_dict p)"
  "\<lambda>j. and_then (as_dict j) projection_from_dict" projection_ok
  by unfold_locales (simp add: projection_round_trip)

section \<open>Clip admission\<close>

record clip_admission =
  ca_clip_id :: string
  ca_first :: int
  ca_version :: int

definition make_admission :: "string \<Rightarrow> stamp \<Rightarrow> int \<Rightarrow> clip_admission res" where
  "make_admission cid first version =
     (if py_strip cid = [] then Inl (Raise ValueErr ''clip_id must not be empty'')
      else if version \<noteq> CLIP_ADMISSION_SCHEMA_VERSION
      then Inl (Raise ValueErr ''unsupported clip admission schema version'')
      else and_then (require_utc first) (\<lambda>t.
        Inr \<lparr>ca_clip_id = cid, ca_first = t, ca_version = version\<rparr>))"

definition ca_deadline :: "clip_admission \<Rightarrow> int res" where
  "ca_deadline a = plus_seconds (ca_first a) CLIP_LIFETIME_SECONDS"

definition admission_to_dict :: "clip_admission \<Rightarrow> dict res" where
  "admission_to_dict a =
     and_then (ca_deadline a) (\<lambda>dl.
     Inr [(''schema_version'', JInt (ca_version a)),
          (''clip_id'', JStr (ca_clip_id a)),
          (''first_admitted_at_utc'', JStr (format_utc (ca_first a))),
          (''deadline_at_utc'', JStr (format_utc dl))])"

definition admission_from_dict :: "(json \<Rightarrow> string) \<Rightarrow> dict \<Rightarrow> clip_admission res" where
  "admission_from_dict repr d =
     and_then (py_int (dget_or d ''schema_version'' (JInt 0))) (\<lambda>v.
     let cid = py_str repr (dget_or d ''clip_id'' (JStr [])) in
     and_then (parse_utc (dget d ''first_admitted_at_utc'')) (\<lambda>t.
     and_then (make_admission cid (Aware t) v) (\<lambda>a.
     and_then (parse_utc (dget d ''deadline_at_utc'')) (\<lambda>persisted.
     and_then (ca_deadline a) (\<lambda>dl.
     if persisted \<noteq> dl then Inl (Raise ValueErr ''durable clip deadline does not match first admission'')
     else Inr a)))))"

text \<open>\<open>first_or_existing\<close>; \<open>now\<close> is the value of \<open>now_utc or _utc_now()\<close>.\<close>

definition first_or_existing :: "(json \<Rightarrow> string) \<Rightarrow> string \<Rightarrow> dict option \<Rightarrow> stamp \<Rightarrow> clip_admission res" where
  "first_or_existing repr cid existing now =
     (case existing of
        Some d \<Rightarrow> and_then (admission_from_dict repr d) (\<lambda>a.
          if ca_clip_id a \<noteq> cid then Inl (Raise ValueErr ''existing clip admission belongs to another clip'')
          else Inr a)
      | None \<Rightarrow> make_admission cid now CLIP_ADMISSION_SCHEMA_VERSION)"

definition admission_ok :: "clip_admission \<Rightarrow> bool" where
  "admission_ok a \<longleftrightarrow> py_strip (ca_clip_id a) \<noteq> [] \<and> ca_version a = CLIP_ADMISSION_SCHEMA_VERSION
     \<and> valid_instant (ca_first a) \<and> valid_instant (ca_first a + micros CLIP_LIFETIME_SECONDS)"

lemma make_admission_Inr:
  "make_admission cid first v = Inr a \<longleftrightarrow>
     py_strip cid \<noteq> [] \<and> v = CLIP_ADMISSION_SCHEMA_VERSION \<and> first = Aware (ca_first a) \<and> valid_instant (ca_first a)
     \<and> ca_clip_id a = cid \<and> ca_version a = v"
  by (cases first; cases a) (auto simp: make_admission_def)

lemma admission_from_dict_ok:
  "admission_from_dict repr d = Inr a \<Longrightarrow> admission_ok a \<and> parse_utc (dget d ''deadline_at_utc'')
     = Inr (ca_first a + micros CLIP_LIFETIME_SECONDS)"
  by (auto simp: admission_from_dict_def and_then_Inr_conv make_admission_Inr ca_deadline_def plus_seconds_def
      admission_ok_def Let_def split: if_splits)

lemma admission_round_trip:
  "admission_ok a \<Longrightarrow> \<exists>d. admission_to_dict a = Inr d \<and> admission_from_dict repr d = Inr a"
  by (simp add: admission_to_dict_def admission_from_dict_def ca_deadline_def plus_seconds_def admission_ok_def
      utc_notation.read_print dget_or_def make_admission_def)

section \<open>The recorder envelope\<close>

record timing_envelope =
  te_budget :: budget_projection
  te_clip :: clip_admission
  te_browser :: "int option"

definition make_envelope :: "budget_projection \<Rightarrow> clip_admission \<Rightarrow> stamp option \<Rightarrow> timing_envelope res" where
  "make_envelope b c browser =
     (case browser of
        None \<Rightarrow> Inr \<lparr>te_budget = b, te_clip = c, te_browser = None\<rparr>
      | Some s \<Rightarrow> and_then (require_utc s) (\<lambda>t. Inr \<lparr>te_budget = b, te_clip = c, te_browser = Some t\<rparr>))"

definition effective_deadline :: "timing_envelope \<Rightarrow> int res" where
  "effective_deadline e =
     and_then (ca_deadline (te_clip e)) (\<lambda>c.
     and_then (stage_deadline_at (te_budget e) FANIN) (\<lambda>f.
     Inr (case te_browser e of None \<Rightarrow> min c f | Some b \<Rightarrow> min (min c f) b)))"

definition envelope_to_dict :: "timing_envelope \<Rightarrow> dict res" where
  "envelope_to_dict e =
     and_then (admission_to_dict (te_clip e)) (\<lambda>clip.
     and_then (effective_deadline e) (\<lambda>eff.
     Inr [(''budget'', JObj (projection_to_dict (te_budget e))),
          (''clip'', JObj clip),
          (''browser_deadline_at_utc'', case te_browser e of None \<Rightarrow> JNull | Some t \<Rightarrow> JStr (format_utc t)),
          (''effective_deadline_at_utc'', JStr (format_utc eff))]))"

definition envelope_from_dict :: "(json \<Rightarrow> string) \<Rightarrow> dict \<Rightarrow> timing_envelope res" where
  "envelope_from_dict repr d =
     (case (dget d ''budget'', dget d ''clip'') of
        (JObj bd, JObj cd) \<Rightarrow>
          and_then (projection_from_dict bd) (\<lambda>b.
          and_then (admission_from_dict repr cd) (\<lambda>c.
          and_then (let raw = dget d ''browser_deadline_at_utc''
                    in if raw = JNull then Inr None else and_then (parse_utc raw) (\<lambda>t. Inr (Some t))) (\<lambda>browser.
          and_then (make_envelope b c (map_option Aware browser)) (\<lambda>e.
          and_then (parse_utc (dget d ''effective_deadline_at_utc'')) (\<lambda>persisted.
          and_then (effective_deadline e) (\<lambda>eff.
          if persisted \<noteq> eff then Inl (Raise ValueErr ''recorder effective deadline does not match timing facts'')
          else Inr e))))))
      | _ \<Rightarrow> Inl (Raise ValueErr ''recorder timing envelope is missing budget or clip timing''))"

section \<open>The run budget\<close>

record reading =
  rd_mono :: rat
  rd_utc :: stamp

record stage_budget =
  vb_projection :: budget_projection
  vb_started_mono :: rat
  vb_elapsed_at_start :: rat

record decision =
  ad_allowed :: bool
  ad_reason :: admission_reason
  ad_remaining :: rat

definition load_budget :: "budget_projection \<Rightarrow> stamp \<Rightarrow> rat \<Rightarrow> stage_budget res" where
  "load_budget p now mono0 =
     and_then (require_utc now) (\<lambda>t.
     let durable = total_seconds (t - bp_started p);
         elapsed = (if durable < 0 then of_int JOB_DEADLINE_SECONDS
                    else min (of_int JOB_DEADLINE_SECONDS) durable)
     in Inr \<lparr>vb_projection = p, vb_started_mono = mono0, vb_elapsed_at_start = elapsed\<rparr>)"

definition start_budget :: "stamp \<Rightarrow> rat \<Rightarrow> stage_budget res" where
  "start_budget now mono0 =
     and_then (require_utc now) (\<lambda>started.
     and_then (plus_seconds started JOB_DEADLINE_SECONDS) (\<lambda>deadline.
     and_then (make_projection (Aware started) (Aware deadline) BUDGET_SCHEMA_VERSION) (\<lambda>p.
     load_budget p (Aware started) mono0)))"

definition budget_from_dict :: "dict \<Rightarrow> stamp \<Rightarrow> rat \<Rightarrow> stage_budget res" where
  "budget_from_dict d now mono0 = and_then (projection_from_dict d) (\<lambda>p. load_budget p now mono0)"

definition local_elapsed :: "stage_budget \<Rightarrow> reading \<Rightarrow> rat" where
  "local_elapsed b r = max 0 (vb_elapsed_at_start b + (rd_mono r - vb_started_mono b))"

definition durable_elapsed :: "stage_budget \<Rightarrow> reading \<Rightarrow> rat res" where
  "durable_elapsed b r =
     and_then (require_utc (rd_utc r)) (\<lambda>t. Inr (max 0 (total_seconds (t - bp_started (vb_projection b)))))"

definition elapsed_seconds :: "stage_budget \<Rightarrow> reading \<Rightarrow> rat res" where
  "elapsed_seconds b r = and_then (durable_elapsed b r) (\<lambda>d. Inr (max (local_elapsed b r) d))"

definition remaining_seconds :: "stage_budget \<Rightarrow> video_stage \<Rightarrow> reading \<Rightarrow> rat res" where
  "remaining_seconds b stage r =
     (let cutoff = of_int (stage_deadline stage); local_remaining = cutoff - local_elapsed b r
      in and_then (durable_elapsed b r) (\<lambda>d. Inr (max 0 (min local_remaining (cutoff - d)))))"

definition operation_timeout :: "stage_budget \<Rightarrow> video_stage \<Rightarrow> rat option \<Rightarrow> reading \<Rightarrow> rat res" where
  "operation_timeout b stage requested r =
     and_then (remaining_seconds b stage r) (\<lambda>remaining.
     Inr (case requested of None \<Rightarrow> remaining | Some q \<Rightarrow> max 0 (min q remaining)))"

definition admit :: "stage_budget \<Rightarrow> video_stage \<Rightarrow> reading \<Rightarrow> decision res" where
  "admit b stage r =
     and_then (remaining_seconds b stage r) (\<lambda>remaining.
     if remaining \<le> 0
     then Inr \<lparr>ad_allowed = False,
            ad_reason = (if stage = SHUTDOWN then JOB_DEADLINE_REACHED else STAGE_DEADLINE_REACHED),
            ad_remaining = remaining\<rparr>
     else Inr \<lparr>ad_allowed = True, ad_reason = ADMITTED, ad_remaining = remaining\<rparr>)"

definition admit_provider_mutation :: "stage_budget \<Rightarrow> reading \<Rightarrow> reading \<Rightarrow> decision res" where
  "admit_provider_mutation b r1 r2 =
     and_then (remaining_seconds b PROVIDER_ADMISSION r1) (\<lambda>admission_remaining.
     and_then (remaining_seconds b SHUTDOWN r2) (\<lambda>parent_remaining.
     if admission_remaining \<le> 0
     then Inr \<lparr>ad_allowed = False, ad_reason = PROVIDER_DEADLINE_REACHED, ad_remaining = parent_remaining\<rparr>
     else if parent_remaining < of_int PROVIDER_RESERVE_SECONDS
     then Inr \<lparr>ad_allowed = False, ad_reason = PROVIDER_RESERVE_INSUFFICIENT, ad_remaining = parent_remaining\<rparr>
     else Inr \<lparr>ad_allowed = True, ad_reason = ADMITTED, ad_remaining = parent_remaining\<rparr>))"

definition require_provider_mutation :: "stage_budget \<Rightarrow> reading \<Rightarrow> reading \<Rightarrow> decision res" where
  "require_provider_mutation b r1 r2 =
     and_then (admit_provider_mutation b r1 r2) (\<lambda>d.
     if ad_allowed d then Inr d else Inl (Raise ProviderAdmissionErr ''provider mutation denied''))"

section \<open>Bounded evidence\<close>

text \<open>\<open>BoundedTimingEvidence\<close>, for events of any type.\<close>

record 'e evidence_buffer =
  eb_max :: int
  eb_events :: "'e list"
  eb_dropped :: nat

definition new_evidence :: "int \<Rightarrow> 'e evidence_buffer res" where
  "new_evidence n =
     (if n \<le> 0 then Inl (Raise ValueErr ''max_events must be positive'')
      else Inr \<lparr>eb_max = n, eb_events = [], eb_dropped = 0\<rparr>)"

definition append_evidence_event :: "'e \<Rightarrow> 'e evidence_buffer \<Rightarrow> 'e evidence_buffer \<times> bool" where
  "append_evidence_event e buf =
     (if eb_max buf \<le> int (length (eb_events buf))
      then (buf\<lparr>eb_dropped := eb_dropped buf + 1\<rparr>, False)
      else (buf\<lparr>eb_events := eb_events buf @ [e]\<rparr>, True))"

section \<open>Admission\<close>

text \<open>The time a run has used at a reading with a valid UTC clock.\<close>

definition used_seconds :: "stage_budget \<Rightarrow> reading \<Rightarrow> rat" where
  "used_seconds b r = max (local_elapsed b r)
     (case rd_utc r of Aware t \<Rightarrow> max 0 (total_seconds (t - bp_started (vb_projection b))) | Naive t \<Rightarrow> 0)"

definition clock_ok :: "reading \<Rightarrow> bool" where
  "clock_ok r \<longleftrightarrow> (case rd_utc r of Aware t \<Rightarrow> valid_instant t | Naive _ \<Rightarrow> False)"

text \<open>Neither clock went back between two readings.\<close>

definition later :: "reading \<Rightarrow> reading \<Rightarrow> bool" where
  "later r r' \<longleftrightarrow> rd_mono r \<le> rd_mono r'
     \<and> (case (rd_utc r, rd_utc r') of (Aware t, Aware t') \<Rightarrow> t \<le> t' | _ \<Rightarrow> False)"

lemma remaining_used:
  "clock_ok r \<Longrightarrow> remaining_seconds b stage r = Inr (max 0 (of_int (stage_deadline stage) - used_seconds b r))"
  by (cases "rd_utc r") (auto simp: remaining_seconds_def durable_elapsed_def used_seconds_def clock_ok_def Let_def
      max_def min_def)

lemma remaining_clock: "remaining_seconds b stage r = Inr x \<Longrightarrow> clock_ok r"
  by (cases "rd_utc r") (auto simp: remaining_seconds_def durable_elapsed_def clock_ok_def Let_def and_then_Inr_conv
      split: if_splits)

lemma used_later:
  assumes "later r r'"
  shows "used_seconds b r \<le> used_seconds b r'"
proof -
  obtain t t' where t: "rd_utc r = Aware t" "rd_utc r' = Aware t'" "t \<le> t'" "rd_mono r \<le> rd_mono r'"
    using assms by (auto simp: later_def split: stamp.splits)
  have "total_seconds (t - s) \<le> total_seconds (t' - s)" for s using t(3) by (simp add: total_seconds_le)
  moreover have "local_elapsed b r \<le> local_elapsed b r'" using t(4) by (simp add: local_elapsed_def)
  ultimately show ?thesis unfolding used_seconds_def t(1,2) stamp.case
    by (meson max.mono order_refl)
qed

text \<open>Claim C26: provider admission.  A provider mutation is admitted exactly when the run has used less
  than the 4500 s admission cutoff at the first clock reading and leaves the full 1800 s reserve at
  the second; with clocks that do not go back, the latest effective admission is at 3300 s.  Every
  refusal names the deadline or the reserve.\<close>

theorem provider_admission_cutoff:
  assumes "clock_ok r1" "clock_ok r2"
  shows "\<exists>d. admit_provider_mutation b r1 r2 = Inr d
    \<and> ad_allowed d = (used_seconds b r1 < 4500 \<and> used_seconds b r2 \<le> 3300)
    \<and> (later r1 r2 \<longrightarrow> ad_allowed d = (used_seconds b r2 \<le> 3300))
    \<and> (\<not> ad_allowed d \<longrightarrow> ad_reason d = (if 4500 \<le> used_seconds b r1 then PROVIDER_DEADLINE_REACHED
                                          else PROVIDER_RESERVE_INSUFFICIENT)
          \<and> require_provider_mutation b r1 r2 = Inl (Raise ProviderAdmissionErr ''provider mutation denied''))"
  using used_later [of r1 r2 b]
  by (auto simp: admit_provider_mutation_def remaining_used assms PROVIDER_RESERVE_SECONDS_def
      require_provider_mutation_def)

definition sample_budget :: stage_budget where
  "sample_budget = \<lparr>vb_projection = \<lparr>bp_started = 0, bp_deadline = micros 5100, bp_version = 1\<rparr>,
     vb_started_mono = 0, vb_elapsed_at_start = 0\<rparr>"

definition at_second :: "int \<Rightarrow> reading" where
  "at_second n = \<lparr>rd_mono = of_int n, rd_utc = Aware (micros n)\<rparr>"

lemma at_second_ok: "0 \<le> n \<Longrightarrow> n \<le> 1000000 \<Longrightarrow> clock_ok (at_second n)"
  by (simp add: clock_ok_def at_second_def valid_instant_def micros_def micros_per_day_def)

lemma used_at_second: "0 \<le> n \<Longrightarrow> used_seconds sample_budget (at_second n) = of_int n"
  by (simp add: used_seconds_def at_second_def sample_budget_def local_elapsed_def)

theorem provider_admission_cutoff_witness:
  "(\<exists>d. admit_provider_mutation sample_budget (at_second 3300) (at_second 3300) = Inr d \<and> ad_allowed d)
    \<and> (\<exists>d. admit_provider_mutation sample_budget (at_second 3301) (at_second 3301) = Inr d \<and> \<not> ad_allowed d)"
  using provider_admission_cutoff [of "at_second 3300" "at_second 3300" sample_budget]
    provider_admission_cutoff [of "at_second 3301" "at_second 3301" sample_budget]
  by (auto simp: at_second_ok used_at_second)

text \<open>A reached deadline stays reached.  With clocks that do not go back, a stage refused once
  is refused ever after, whatever the stage, and so is every stage whose cutoff is not later.\<close>

theorem denial_is_permanent:
  assumes "admit b stage r = Inr d" "\<not> ad_allowed d" "later r r'" "clock_ok r'"
    and "stage_deadline stage' \<le> stage_deadline stage"
  shows "\<exists>d'. admit b stage' r' = Inr d' \<and> \<not> ad_allowed d' \<and> ad_remaining d' = 0"
proof -
  have r: "clock_ok r" using assms(1) remaining_clock by (auto simp: admit_def and_then_Inr_conv)
  have "of_int (stage_deadline stage) \<le> used_seconds b r"
    using assms(1,2) by (auto simp: admit_def remaining_used r split: if_splits)
  then have "of_int (stage_deadline stage') \<le> used_seconds b r'"
    using used_later [OF assms(3), of b] assms(5) by (meson of_int_le_iff order_trans)
  then show ?thesis by (simp add: admit_def remaining_used assms(4))
qed

theorem denial_is_permanent_witness:
  "\<exists>d. admit sample_budget PREFLIGHT (at_second 400) = Inr d \<and> \<not> ad_allowed d \<and> ad_remaining d = 0"
proof -
  have "\<exists>d. admit sample_budget FANIN (at_second 1200) = Inr d \<and> \<not> ad_allowed d"
    by (simp add: admit_def remaining_used at_second_ok used_at_second)
  moreover have "\<exists>d. admit sample_budget PREFLIGHT (at_second 300) = Inr d \<and> \<not> ad_allowed d"
    by (simp add: admit_def remaining_used at_second_ok used_at_second)
  then obtain d where "admit sample_budget PREFLIGHT (at_second 300) = Inr d" "\<not> ad_allowed d" by blast
  from denial_is_permanent [OF this, of "at_second 400" PREFLIGHT]
  show ?thesis by (simp add: at_second_ok) (simp add: later_def at_second_def micros_def)
qed

text \<open>Claim C29: redelivery never extends a run.  A budget reloaded from its durable document grants, at
  any reading, no more than the durable start allows; reloaded under a clock that reads before the
  start, it grants nothing at all.\<close>

theorem reload_never_extends:
  assumes "budget_from_dict doc (Aware now) m = Inr b" "remaining_seconds b stage r = Inr x" "rd_utc r = Aware t"
  shows "x \<le> max 0 (of_int (stage_deadline stage) - total_seconds (t - bp_started (vb_projection b)))
    \<and> bp_deadline (vb_projection b) = bp_started (vb_projection b) + micros JOB_DEADLINE_SECONDS
    \<and> (now < bp_started (vb_projection b) \<longrightarrow> m \<le> rd_mono r \<longrightarrow> x = 0)"
proof -
  obtain p where p: "projection_from_dict doc = Inr p" "load_budget p (Aware now) m = Inr b"
    using assms(1) by (auto simp: budget_from_dict_def and_then_Inr_conv)
  have vb: "vb_projection b = p" "vb_started_mono b = m"
    using p(2) by (auto simp: load_budget_def Let_def split: if_splits)
  have cut: "stage_deadline stage \<le> 5100" by (cases stage) simp_all
  have used: "x = max 0 (of_int (stage_deadline stage) - used_seconds b r)"
    using assms(2) remaining_used [OF remaining_clock [OF assms(2)]] by simp
  have "total_seconds (t - bp_started p) \<le> used_seconds b r"
    by (simp add: used_seconds_def assms(3) vb)
  moreover have "x = 0" if "now < bp_started p" "m \<le> rd_mono r"
  proof -
    have "total_seconds (now - bp_started p) < 0"
      using that(1) by (simp add: total_seconds_def)
    then have "vb_elapsed_at_start b = 5100"
      using p(2) by (auto simp: load_budget_def Let_def JOB_DEADLINE_SECONDS_def split: if_splits)
    then have "5100 \<le> local_elapsed b r" using that(2) by (simp add: local_elapsed_def vb)
    then have "of_int (stage_deadline stage) \<le> used_seconds b r"
      using cut by (simp add: used_seconds_def)
    then show ?thesis by (simp add: used)
  qed
  ultimately show ?thesis
    using projection_from_dict_ok [OF p(1)] by (auto simp: used vb projection_ok_def)
qed

definition sample_projection :: budget_projection where
  "sample_projection = \<lparr>bp_started = micros 100, bp_deadline = micros 5200, bp_version = 1\<rparr>"

lemma sample_projection_ok: "projection_ok sample_projection"
  by (simp add: projection_ok_def sample_projection_def valid_instant_def micros_def micros_per_day_def
      BUDGET_SCHEMA_VERSION_def JOB_DEADLINE_SECONDS_def)

theorem reload_never_extends_witness:
  "\<exists>b x. budget_from_dict (projection_to_dict sample_projection) (Aware (micros 50)) 7 = Inr b
    \<and> remaining_seconds b RENDER \<lparr>rd_mono = 8, rd_utc = Aware (micros 200)\<rparr> = Inr x \<and> x = 0"
proof -
  have "projection_from_dict (projection_to_dict sample_projection) = Inr sample_projection"
    by (rule projection_round_trip [OF sample_projection_ok])
  then obtain b where b: "budget_from_dict (projection_to_dict sample_projection) (Aware (micros 50)) 7 = Inr b"
      "vb_projection b = sample_projection"
    by (simp add: budget_from_dict_def load_budget_def valid_instant_def micros_def micros_per_day_def Let_def)
  have c: "clock_ok \<lparr>rd_mono = 8, rd_utc = Aware (micros 200)\<rparr>"
    by (simp add: clock_ok_def valid_instant_def micros_def micros_per_day_def)
  obtain x where x: "remaining_seconds b RENDER \<lparr>rd_mono = 8, rd_utc = Aware (micros 200)\<rparr> = Inr x"
    using remaining_used [OF c] by blast
  from reload_never_extends [OF b(1) x] b x show ?thesis
    by (auto simp: sample_projection_def micros_def)
qed

text \<open>The first clip admission is reused.  The document written for an admission reads back as
  that admission whatever the clock of the redelivery says, a document of another clip is refused,
  and a document whose deadline is not 720 s after its first admission is never accepted.\<close>

theorem clip_admission_reused:
  assumes "admission_ok a"
  shows "(\<exists>doc. admission_to_dict a = Inr doc
      \<and> (\<forall>now. first_or_existing repr (ca_clip_id a) (Some doc) now = Inr a)
      \<and> (\<forall>cid now. cid \<noteq> ca_clip_id a \<longrightarrow> first_or_existing repr cid (Some doc) now
            = Inl (Raise ValueErr ''existing clip admission belongs to another clip'')))
    \<and> (\<forall>doc cid now a'. first_or_existing repr cid (Some doc) now = Inr a' \<longrightarrow>
          ca_clip_id a' = cid \<and> admission_ok a'
          \<and> parse_utc (dget doc ''deadline_at_utc'') = Inr (ca_first a' + micros CLIP_LIFETIME_SECONDS))"
proof -
  obtain doc where doc: "admission_to_dict a = Inr doc" "admission_from_dict repr doc = Inr a"
    using admission_round_trip [OF assms] by blast
  have reuse: "first_or_existing repr cid (Some doc) now = (if cid = ca_clip_id a then Inr a
      else Inl (Raise ValueErr ''existing clip admission belongs to another clip''))" for cid now
    by (simp add: first_or_existing_def doc)
  have accepted: "ca_clip_id a' = cid \<and> admission_ok a'
      \<and> parse_utc (dget e ''deadline_at_utc'') = Inr (ca_first a' + micros CLIP_LIFETIME_SECONDS)"
    if "first_or_existing repr cid (Some e) now = Inr a'" for e cid now a'
  proof -
    have a': "admission_from_dict repr e = Inr a'" "ca_clip_id a' = cid"
      using that by (auto simp: first_or_existing_def and_then_Inr_conv split: if_splits)
    show ?thesis using admission_from_dict_ok [OF a'(1)] a'(2) by simp
  qed
  show ?thesis
    using doc(1) reuse by (intro conjI allI impI exI [of _ doc]) (simp_all add: accepted)
qed

definition sample_admission :: clip_admission where
  "sample_admission = \<lparr>ca_clip_id = ''clip-001'', ca_first = micros 100, ca_version = 1\<rparr>"

lemma sample_admission_ok: "admission_ok sample_admission"
proof -
  have "py_strip ''clip-001'' \<noteq> []" by code_simp
  then show ?thesis
    by (simp add: admission_ok_def sample_admission_def valid_instant_def micros_def micros_per_day_def
      CLIP_ADMISSION_SCHEMA_VERSION_def CLIP_LIFETIME_SECONDS_def)
qed

theorem clip_admission_reused_witness:
  "\<forall>repr. \<exists>doc. admission_to_dict sample_admission = Inr doc
    \<and> first_or_existing repr ''clip-001'' (Some doc) (Naive 5) = Inr sample_admission"
proof -
  have cid: "ca_clip_id sample_admission = ''clip-001''" by (simp add: sample_admission_def)
  show ?thesis
    using conjunct1 [OF clip_admission_reused [OF sample_admission_ok]] unfolding cid by blast
qed

definition envelope_ok :: "timing_envelope \<Rightarrow> bool" where
  "envelope_ok e \<longleftrightarrow> projection_ok (te_budget e) \<and> admission_ok (te_clip e)
     \<and> (case te_browser e of None \<Rightarrow> True | Some t \<Rightarrow> valid_instant t)"

definition earliest_cutoff :: "timing_envelope \<Rightarrow> int" where
  "earliest_cutoff e =
     (let c = min (ca_first (te_clip e) + micros CLIP_LIFETIME_SECONDS) (bp_started (te_budget e) + micros 1200)
      in case te_browser e of None \<Rightarrow> c | Some b \<Rightarrow> min c b)"

lemma stage_deadline_at_ok: "projection_ok p \<Longrightarrow> stage_deadline_at p stage = Inr (bp_started p + micros (stage_deadline stage))"
  by (cases stage) (auto simp: stage_deadline_at_def plus_seconds_def projection_ok_def valid_instant_def micros_def
      JOB_DEADLINE_SECONDS_def)

lemma effective_deadline_ok:
  "envelope_ok e \<Longrightarrow> effective_deadline e = Inr (earliest_cutoff e)"
  by (auto simp: effective_deadline_def envelope_ok_def stage_deadline_at_ok ca_deadline_def plus_seconds_def
      admission_ok_def earliest_cutoff_def Let_def split: option.splits)

lemma earliest_cutoff_valid:
  assumes "envelope_ok e"
  shows "valid_instant (earliest_cutoff e)"
proof -
  have "valid_instant (ca_first (te_clip e) + micros CLIP_LIFETIME_SECONDS)"
      "valid_instant (bp_started (te_budget e) + micros 1200)"
    using assms by (auto simp: envelope_ok_def admission_ok_def projection_ok_def valid_instant_def micros_def
        JOB_DEADLINE_SECONDS_def)
  then show ?thesis
    using assms by (auto simp: earliest_cutoff_def envelope_ok_def min_def Let_def split: option.splits)
qed

text \<open>Recorder envelope.  The timing facts sent to a recorder read back unchanged, and any
  envelope that is accepted carries an effective deadline that is the earliest of the clip deadline,
  the fan-in cutoff of the run and the browser deadline.\<close>

theorem envelope_round_trip:
  assumes "envelope_ok e"
  shows "(\<exists>doc. envelope_to_dict e = Inr doc \<and> envelope_from_dict repr doc = Inr e)
    \<and> (\<forall>doc e'. envelope_from_dict repr doc = Inr e' \<longrightarrow> envelope_ok e'
          \<and> parse_utc (dget doc ''effective_deadline_at_utc'') = Inr (earliest_cutoff e'))"
proof
  obtain clip where clip: "admission_to_dict (te_clip e) = Inr clip" "admission_from_dict repr clip = Inr (te_clip e)"
    using admission_round_trip assms by (auto simp: envelope_ok_def)
  have p: "projection_from_dict (projection_to_dict (te_budget e)) = Inr (te_budget e)"
    by (rule projection_round_trip) (use assms in \<open>simp add: envelope_ok_def\<close>)
  have mk: "make_envelope (te_budget e) (te_clip e) (map_option Aware (te_browser e)) = Inr e"
    using assms by (cases e) (auto simp: make_envelope_def envelope_ok_def split: option.splits)
  have v: "parse_utc (JStr (format_utc (earliest_cutoff e))) = Inr (earliest_cutoff e)"
    by (rule utc_notation.read_print [OF earliest_cutoff_valid [OF assms]])
  show "\<exists>doc. envelope_to_dict e = Inr doc \<and> envelope_from_dict repr doc = Inr e"
  proof (cases "te_browser e")
    case None
    then have mk': "make_envelope (te_budget e) (te_clip e) None = Inr e" using mk by simp
    show ?thesis
      by (simp add: envelope_to_dict_def envelope_from_dict_def effective_deadline_ok [OF assms] clip p mk' v None)
  next
    case (Some t)
    then have mk': "make_envelope (te_budget e) (te_clip e) (Some (Aware t)) = Inr e" using mk by simp
    have "parse_utc (JStr (format_utc t)) = Inr t"
      by (rule utc_notation.read_print) (use assms Some in \<open>simp add: envelope_ok_def\<close>)
    then show ?thesis
      by (simp add: envelope_to_dict_def envelope_from_dict_def effective_deadline_ok [OF assms] clip p mk' v Some)
  qed
next
  have ok: "envelope_ok e'"
    if "projection_from_dict bd = Inr b" "admission_from_dict repr cd = Inr c" "make_envelope b c st = Inr e'"
    for bd b cd c st e'
  proof -
    have "require_utc x = Inr t \<Longrightarrow> valid_instant t" for x t by (cases x) (auto split: if_splits)
    then show ?thesis
      using that(3) projection_from_dict_ok [OF that(1)] admission_from_dict_ok [OF that(2)]
      by (cases st) (auto simp: make_envelope_def envelope_ok_def and_then_Inr_conv)
  qed
  show "\<forall>doc e'. envelope_from_dict repr doc = Inr e' \<longrightarrow> envelope_ok e'
      \<and> parse_utc (dget doc ''effective_deadline_at_utc'') = Inr (earliest_cutoff e')"
  proof (intro allI impI)
    fix doc e'
    assume "envelope_from_dict repr doc = Inr e'"
    then obtain bd cd b c st eff where x: "projection_from_dict bd = Inr b" "admission_from_dict repr cd = Inr c"
        "make_envelope b c st = Inr e'" "parse_utc (dget doc ''effective_deadline_at_utc'') = Inr eff"
        "effective_deadline e' = Inr eff"
      by (auto simp: envelope_from_dict_def and_then_Inr_conv Let_def split: json.splits if_splits)
    then show "envelope_ok e' \<and> parse_utc (dget doc ''effective_deadline_at_utc'') = Inr (earliest_cutoff e')"
      using ok [OF x(1-3)] effective_deadline_ok by simp
  qed
qed

definition sample_envelope :: timing_envelope where
  "sample_envelope = \<lparr>te_budget = sample_projection, te_clip = sample_admission, te_browser = Some (micros 300)\<rparr>"

theorem envelope_round_trip_witness:
  "\<forall>repr. \<exists>doc. envelope_to_dict sample_envelope = Inr doc \<and> envelope_from_dict repr doc = Inr sample_envelope"
proof -
  have "envelope_ok sample_envelope"
    by (simp add: envelope_ok_def sample_envelope_def sample_projection_ok sample_admission_ok valid_instant_def
        micros_def micros_per_day_def)
  from envelope_round_trip [OF this] show ?thesis by blast
qed

text \<open>Bounded evidence.  However many events are appended, the buffer holds the first
  \<open>max_events\<close> of them in order, counts the others as dropped, and never exceeds its cap.\<close>

theorem evidence_is_bounded:
  assumes "new_evidence n = Inr buf"
  shows "let buf' = fold (\<lambda>e b. fst (append_evidence_event e b)) es buf
    in eb_events buf' = take (nat n) es \<and> int (length (eb_events buf')) \<le> n
      \<and> eb_dropped buf' = length es - nat n"
proof -
  have n: "0 < n" "buf = \<lparr>eb_max = n, eb_events = [], eb_dropped = 0\<rparr>"
    using assms by (auto simp: new_evidence_def split: if_splits)
  have "fold (\<lambda>e b. fst (append_evidence_event e b)) es buf
      = \<lparr>eb_max = n, eb_events = take (nat n) es, eb_dropped = length es - nat n\<rparr>"
  proof (induction es rule: rev_induct)
    case Nil
    then show ?case by (simp add: n)
  next
    case (snoc e es)
    then show ?case using n(1) by (auto simp: append_evidence_event_def le_nat_iff nat_le_iff)
  qed
  then show ?thesis using n(1) by (simp add: Let_def)
qed

theorem evidence_is_bounded_witness:
  "let buf = fold (\<lambda>e b. fst (append_evidence_event e b)) [1, 2, 3 :: nat] \<lparr>eb_max = 2, eb_events = [], eb_dropped = 0\<rparr>
   in eb_events buf = [1, 2] \<and> eb_dropped buf = 1"
  using evidence_is_bounded [of 2 "\<lparr>eb_max = 2, eb_events = [], eb_dropped = 0\<rparr>" "[1, 2, 3 :: nat]"]
  by (simp add: new_evidence_def Let_def)

end
