(* ===== verification/Quota.thy ===== *)
theory Quota
  imports BlobStore
begin

text \<open>
  \<open>podcaster/youtube_quota.py\<close>: the daily YouTube quota ledger and its pre-flight reservation.  The
  Pacific calendar day of an instant comes from the time zone database (\<open>zoneinfo\<close>) and is the
  parameter \<open>pacific_day\<close>.  An operation that reads the clock twice takes both values.  A written
  document stands for its members; their order (\<open>sort_keys\<close>) is not modelled.
\<close>

section \<open>Costs\<close>

definition YOUTUBE_DAILY_QUOTA_UNITS :: int where
  "YOUTUBE_DAILY_QUOTA_UNITS = 10000"

definition QUOTA_SAFETY_RESERVE_UNITS :: int where
  "QUOTA_SAFETY_RESERVE_UNITS = 200"

definition QUOTA_COSTS :: "(string \<times> int) list" where
  "QUOTA_COSTS = [(''upload'', 1600), (''thumbnail_set'', 50), (''playlist_insert'', 50),
     (''video_update'', 50), (''list'', 1)]"

definition operation_cost :: "string \<Rightarrow> int \<Rightarrow> int res" where
  "operation_cost op count =
     (if count < 0 then Inl (Raise ValueErr ''count must be non-negative'')
      else case map_of QUOTA_COSTS op of
        None \<Rightarrow> Inl (Raise ValueErr ''unknown YouTube operation'')
      | Some c \<Rightarrow> Inr (c * count))"

definition estimate_episode_units :: "int \<Rightarrow> bool \<Rightarrow> bool \<Rightarrow> int \<Rightarrow> int res" where
  "estimate_episode_units languages thumbnail playlist retries =
     (if languages < 0 \<or> retries < 0 then Inl (Raise ValueErr ''must be non-negative'')
      else Inr ((1600 + (if thumbnail then 50 else 0) + (if playlist then 50 else 0)) * languages * (1 + retries)))"

section \<open>Ledger\<close>

text \<open>A naive \<open>now\<close> is taken as UTC.\<close>

fun utc_of :: "stamp \<Rightarrow> int" where
  "utc_of (Aware t) = t"
| "utc_of (Naive t) = t"

definition quota_day :: "(int \<Rightarrow> string) \<Rightarrow> stamp \<Rightarrow> string" where
  "quota_day pacific_day now = pacific_day (utc_of now)"

definition QUOTA_SCHEMA_VERSION :: string where
  "QUOTA_SCHEMA_VERSION = ''squadscope-podcaster-youtube-quota-v1''"

definition fresh_ledger :: "string \<Rightarrow> dict" where
  "fresh_ledger day = [(''schema_version'', JStr QUOTA_SCHEMA_VERSION), (''day'', JStr day),
     (''consumed_units'', JInt 0), (''operations'', JList [])]"

definition load_quota_ledger :: "blob option \<Rightarrow> string \<Rightarrow> dict res" where
  "load_quota_ledger content day =
     (case content of
        None \<Rightarrow> Inr (fresh_ledger day)
      | Some b \<Rightarrow>
         (case loads b of
            None \<Rightarrow> Inl (Raise ValueErr ''json.loads'')
          | Some (JObj l) \<Rightarrow>
              (if dget l ''day'' \<noteq> JStr day then Inl (Raise RuntimeErr ''ledger day did not match requested day'')
               else if \<not> is_int (dget l ''consumed_units'')
               then Inl (Raise RuntimeErr ''consumed_units was not an integer'')
               else (case dget l ''operations'' of JList _ \<Rightarrow> Inr l
                     | _ \<Rightarrow> Inl (Raise RuntimeErr ''operations was not an array'')))
          | Some _ \<Rightarrow> Inl (Raise RuntimeErr ''ledger was not a JSON object'')))"

record quota_decision =
  qd_allowed :: bool
  qd_day :: json
  qd_daily_quota :: int
  qd_reserve :: int
  qd_usable :: int
  qd_consumed :: int
  qd_planned :: int
  qd_projected :: int
  qd_remaining :: int
  qd_reason :: string

definition usable_units :: "int \<Rightarrow> int \<Rightarrow> int" where
  "usable_units daily_quota reserve = max (daily_quota - max reserve 0) 0"

definition quota_preflight :: "dict \<Rightarrow> int \<Rightarrow> int \<Rightarrow> int \<Rightarrow> quota_decision res" where
  "quota_preflight ledger planned daily_quota reserve =
     (if planned < 0 then Inl (Raise ValueErr ''planned_units must be non-negative'')
      else and_then (py_int (dget_or ledger ''consumed_units'' (JInt 0))) (\<lambda>consumed.
        let usable = usable_units daily_quota reserve;
            projected = consumed + planned;
            allowed = (projected \<le> usable)
        in Inr \<lparr>qd_allowed = allowed, qd_day = dget ledger ''day'', qd_daily_quota = daily_quota,
             qd_reserve = reserve, qd_usable = usable, qd_consumed = consumed, qd_planned = planned,
             qd_projected = projected, qd_remaining = max (usable - projected) 0,
             qd_reason = (if allowed then ''within_quota'' else if usable \<le> consumed then ''quota_exhausted''
                          else ''would_exceed_quota'')\<rparr>))"

definition usage_entry :: "string \<Rightarrow> int \<Rightarrow> string option \<Rightarrow> stamp \<Rightarrow> json" where
  "usage_entry op units job now = JObj [(''op'', JStr op), (''units'', JInt units),
     (''job_id'', json_of_opt_str job), (''at'', JStr (iso_z (whole_second (utc_of now))))]"

definition record_quota_usage :: "dict \<Rightarrow> int \<Rightarrow> string \<Rightarrow> string option \<Rightarrow> stamp \<Rightarrow> dict res" where
  "record_quota_usage ledger units op job now =
     (if units < 0 then Inl (Raise ValueErr ''units must be non-negative'')
      else and_then (py_int (dget_or ledger ''consumed_units'' (JInt 0))) (\<lambda>consumed.
        let updated = dset ''consumed_units'' (JInt (consumed + units)) ledger
        in case dget_or updated ''operations'' (JList []) of
             JList ops \<Rightarrow> Inr (dset ''operations'' (JList (ops @ [usage_entry op units job now])) updated)
           | _ \<Rightarrow> Inl (Raise RuntimeErr ''operations was not an array'')))"

record quota_snapshot =
  qs_day :: json
  qs_daily_quota :: int
  qs_consumed :: int
  qs_remaining :: int
  qs_utilization :: rat
  qs_utilization_pct :: rat
  qs_near_limit :: bool
  qs_exhausted :: bool
  qs_operation_count :: nat

definition quota_status :: "dict \<Rightarrow> int \<Rightarrow> quota_snapshot res" where
  "quota_status ledger daily_quota =
     and_then (py_int (dget_or ledger ''consumed_units'' (JInt 0))) (\<lambda>consumed.
     let utilization = (if 0 < daily_quota then of_int consumed / of_int daily_quota else 1)
     in Inr \<lparr>qs_day = dget ledger ''day'', qs_daily_quota = daily_quota, qs_consumed = consumed,
          qs_remaining = max (daily_quota - consumed) 0,
          qs_utilization = py_round_to 4 utilization, qs_utilization_pct = py_round_to 1 (utilization * 100),
          qs_near_limit = (85 / 100 \<le> utilization), qs_exhausted = (daily_quota \<le> consumed),
          qs_operation_count = (case dget ledger ''operations'' of JList ops \<Rightarrow> length ops | _ \<Rightarrow> 0)\<rparr>)"

definition quota_ledger_path :: "string \<Rightarrow> string" where
  "quota_ledger_path day = ''quota/youtube/'' @ day @ ''.json''"

section \<open>Reservation\<close>

text \<open>The callback \<open>_apply\<close>; what it captures is \<open>decision_holder\<close>.\<close>

definition reserve_apply ::
  "string \<Rightarrow> int \<Rightarrow> string \<Rightarrow> string option \<Rightarrow> stamp \<Rightarrow> int \<Rightarrow> int \<Rightarrow> quota_decision option callback" where
  "reserve_apply day planned op job now daily_quota reserve holder content =
     (case and_then (load_quota_ledger content day) (\<lambda>l.
             and_then (quota_preflight l planned daily_quota reserve) (\<lambda>d. Inr (l, d))) of
        Inl e \<Rightarrow> (holder, Inl e)
      | Inr (l, d) \<Rightarrow>
          (Some d,
           if \<not> qd_allowed d then Inl (Raise QuotaExceededErr ''YouTube quota would be exceeded'')
           else and_then (record_quota_usage l planned op job now) (\<lambda>l'. Inr (Doc (JObj l')))))"

definition reserve_quota ::
  "(int \<Rightarrow> string) \<Rightarrow> store \<Rightarrow> int \<Rightarrow> string \<Rightarrow> string option \<Rightarrow> stamp \<Rightarrow> stamp \<Rightarrow> int \<Rightarrow> int
     \<Rightarrow> quota_decision option res \<times> store" where
  "reserve_quota pacific_day st planned op job now1 now2 daily_quota reserve =
     (let day = quota_day pacific_day now1;
          (r, holder, st') = local_update (reserve_apply day planned op job now2 daily_quota reserve) None st
                               (quota_ledger_path day)
      in (and_then r (\<lambda>_. Inr holder), st'))"

definition current_quota_status :: "(int \<Rightarrow> string) \<Rightarrow> store \<Rightarrow> stamp \<Rightarrow> int \<Rightarrow> quota_snapshot res" where
  "current_quota_status pacific_day st now daily_quota =
     (let day = quota_day pacific_day now
      in and_then (load_quota_ledger (st (quota_ledger_path day)) day) (\<lambda>l. quota_status l daily_quota))"

section \<open>The ledger invariant\<close>

definition entry_units :: "json \<Rightarrow> int" where
  "entry_units e = (case e of JObj d \<Rightarrow> int_value (dget d ''units'') | _ \<Rightarrow> 0)"

text \<open>A ledger of the day whose counter is the sum of its entries and within the usable budget.\<close>

definition ledger_ok :: "string \<Rightarrow> int \<Rightarrow> dict \<Rightarrow> bool" where
  "ledger_ok day usable l \<longleftrightarrow> dget l ''day'' = JStr day
     \<and> (\<exists>n ops. map_of l ''consumed_units'' = Some (JInt n) \<and> map_of l ''operations'' = Some (JList ops)
          \<and> 0 \<le> n \<and> n \<le> usable \<and> n = (\<Sum>e\<leftarrow>ops. entry_units e))"

definition blob_ok :: "string \<Rightarrow> int \<Rightarrow> blob option \<Rightarrow> bool" where
  "blob_ok day usable b \<longleftrightarrow> (case b of None \<Rightarrow> True | Some (Doc (JObj l)) \<Rightarrow> ledger_ok day usable l | _ \<Rightarrow> False)"

text \<open>Units the ledger of a blob has booked.\<close>

definition booked :: "blob option \<Rightarrow> int" where
  "booked b = (case b of Some (Doc (JObj l)) \<Rightarrow> int_value (dget l ''consumed_units'') | _ \<Rightarrow> 0)"

lemma usable_nonneg: "0 \<le> usable_units q r"
  by (simp add: usable_units_def)

lemma load_ok:
  assumes "blob_ok day usable b" "0 \<le> usable"
  shows "\<exists>l. load_quota_ledger b day = Inr l \<and> ledger_ok day usable l \<and> dget l ''consumed_units'' = JInt (booked b)"
proof (cases b)
  case None
  then show ?thesis
    using assms(2) by (simp add: load_quota_ledger_def fresh_ledger_def ledger_ok_def booked_def)
next
  case (Some x)
  then obtain l where l: "x = Doc (JObj l)" "ledger_ok day usable l"
    using assms(1) by (auto simp: blob_ok_def split: blob.splits json.splits)
  then show ?thesis
    by (auto simp: Some load_quota_ledger_def booked_def ledger_ok_def dget_def)
qed

lemma record_ok:
  assumes "ledger_ok day usable l" "0 \<le> u" "dget l ''consumed_units'' = JInt n" "n + u \<le> usable"
  shows "\<exists>l'. record_quota_usage l u op job now = Inr l' \<and> ledger_ok day usable l'
    \<and> dget l' ''consumed_units'' = JInt (n + u)"
proof -
  obtain ops where l: "dget l ''day'' = JStr day" "map_of l ''consumed_units'' = Some (JInt n)"
      "map_of l ''operations'' = Some (JList ops)" "0 \<le> n" "n = (\<Sum>e\<leftarrow>ops. entry_units e)"
    using assms(1,3) by (auto simp: ledger_ok_def dget_def)
  have "entry_units (usage_entry op u job now) = u" by (simp add: entry_units_def usage_entry_def)
  then show ?thesis
    using l assms(2,4)
    by (auto simp: record_quota_usage_def dget_or_def ledger_ok_def)
qed

text \<open>One run of the callback on a well-formed ledger.\<close>

lemma reserve_apply_ok:
  assumes "blob_ok day (usable_units q r) b"
  shows "(\<exists>d x. reserve_apply day u op job now q r c b = (Some d, Inr x) \<and> qd_allowed d \<and> 0 \<le> u
            \<and> booked b + u \<le> usable_units q r \<and> blob_ok day (usable_units q r) (Some x)
            \<and> booked (Some x) = booked b + u \<and> qd_projected d = booked b + u)
       \<or> (\<exists>c' e. reserve_apply day u op job now q r c b = (c', Inl e)
            \<and> (u < 0 \<and> exn_class_of e = ValueErr
               \<or> 0 \<le> u \<and> usable_units q r < booked b + u \<and> exn_class_of e = QuotaExceededErr))"
proof -
  obtain l where l: "load_quota_ledger b day = Inr l" "ledger_ok day (usable_units q r) l"
      "dget l ''consumed_units'' = JInt (booked b)"
    using load_ok [OF assms usable_nonneg] by blast
  have m: "dget_or l ''consumed_units'' (JInt 0) = JInt (booked b)"
    using l(2,3) by (auto simp: ledger_ok_def dget_or_def dget_def)
  consider (neg) "u < 0" | (over) "0 \<le> u" "usable_units q r < booked b + u"
    | (fits) "0 \<le> u" "booked b + u \<le> usable_units q r" by linarith
  then show ?thesis
  proof cases
    case fits
    obtain l' where l': "record_quota_usage l u op job now = Inr l'" "ledger_ok day (usable_units q r) l'"
        "dget l' ''consumed_units'' = JInt (booked b + u)"
      using record_ok [OF l(2) fits(1) l(3) fits(2)] by blast
    then have "booked (Some (Doc (JObj l'))) = booked b + u" "blob_ok day (usable_units q r) (Some (Doc (JObj l')))"
      by (simp_all add: booked_def blob_ok_def)
    then show ?thesis
      using fits l(1) m l'(1) by (simp add: reserve_apply_def quota_preflight_def Let_def)
  qed (use l(1) m in \<open>auto simp: reserve_apply_def quota_preflight_def Let_def\<close>)
qed

lemma reserve_apply_resettable: "resettable (reserve_apply day u op job now q r)"
  unfolding resettable_def reserve_apply_def
  by (auto split: sum.splits prod.splits)

section \<open>What a reservation promises\<close>

text \<open>Quota reservation.  On a well-formed ledger of the day a reservation either books exactly
  the planned units, within the usable budget, keeps the ledger well-formed and touches no other
  blob, or it raises \<open>QuotaExceeded\<close> exactly when the budget would be exceeded (\<open>ValueError\<close> for a
  negative request) and leaves the store as it was.\<close>

theorem reserve_quota_within_budget:
  assumes "path = quota_ledger_path (quota_day pacific_day now1)"
    and "blob_ok (quota_day pacific_day now1) (usable_units q r) (st path)"
  shows "case reserve_quota pacific_day st u op job now1 now2 q r of
      (Inr h, st') \<Rightarrow> 0 \<le> u \<and> booked (st path) + u \<le> usable_units q r
        \<and> booked (st' path) = booked (st path) + u
        \<and> blob_ok (quota_day pacific_day now1) (usable_units q r) (st' path)
        \<and> (\<exists>d. h = Some d \<and> qd_allowed d \<and> qd_projected d = booked (st' path))
        \<and> st' = st(path := st' path)
    | (Inl e, st') \<Rightarrow> st' = st
        \<and> (u < 0 \<and> exn_class_of e = ValueErr
           \<or> 0 \<le> u \<and> usable_units q r < booked (st path) + u \<and> exn_class_of e = QuotaExceededErr)"
  using reserve_apply_ok [OF assms(2), of u op job now2 None]
  by (auto simp: reserve_quota_def local_update_def Let_def simp flip: assms(1))

definition sample_day :: "int \<Rightarrow> string" where
  "sample_day t = ''2026-01-05''"

theorem reserve_quota_within_budget_witness:
  "case reserve_quota sample_day (\<lambda>_. None) 1600 ''upload'' (Some ''j'') (Aware 0) (Aware 0) 10000 200 of
      (Inr h, st') \<Rightarrow> booked (st' (quota_ledger_path ''2026-01-05'')) = 1600
    | (Inl e, st') \<Rightarrow> False"
  using reserve_quota_within_budget [of "quota_ledger_path ''2026-01-05''" sample_day "Aware 0" 10000 200 "\<lambda>_. None"
      1600 "''upload''" "Some ''j''" "Aware 0"]
  by (auto simp: blob_ok_def booked_def quota_day_def sample_day_def usable_units_def
      split: prod.splits sum.splits)

text \<open>Any sequence of reservations on one day, one after the other, with the units each was granted.\<close>

fun run_reservations ::
  "(int \<Rightarrow> string) \<Rightarrow> stamp \<Rightarrow> int \<Rightarrow> int \<Rightarrow> (int \<times> string \<times> string option \<times> stamp) list \<Rightarrow> store \<Rightarrow> int list \<times> store" where
  "run_reservations pacific_day now q r [] st = ([], st)"
| "run_reservations pacific_day now q r ((u, op, job, now2) # rest) st =
     (case reserve_quota pacific_day st u op job now now2 q r of
        (res, st1) \<Rightarrow>
          (let (granted, st2) = run_reservations pacific_day now q r rest st1
           in ((case res of Inr _ \<Rightarrow> u | Inl _ \<Rightarrow> 0) # granted, st2)))"

lemma run_reservations_booked:
  assumes "path = quota_ledger_path (quota_day pacific_day now)"
  shows "blob_ok (quota_day pacific_day now) (usable_units q r) (st path) \<Longrightarrow>
    run_reservations pacific_day now q r reqs st = (granted, st') \<Longrightarrow>
    blob_ok (quota_day pacific_day now) (usable_units q r) (st' path)
    \<and> booked (st' path) = booked (st path) + sum_list granted \<and> list_all (\<lambda>g. 0 \<le> g) granted"
proof (induction reqs arbitrary: st granted)
  case Nil
  then show ?case by simp
next
  case (Cons x reqs)
  obtain u op job now2 where x: "x = (u, op, job, now2)" by (metis prod_cases4)
  obtain res st1 where one: "reserve_quota pacific_day st u op job now now2 q r = (res, st1)" by fastforce
  obtain gs where rest: "run_reservations pacific_day now q r reqs st1 = (gs, st')"
      "granted = (case res of Inr _ \<Rightarrow> u | Inl _ \<Rightarrow> 0) # gs"
    using Cons.prems(2) by (auto simp: x one split: prod.splits)
  have step: "case (res, st1) of
      (Inr h, st') \<Rightarrow> 0 \<le> u \<and> booked (st' path) = booked (st path) + u
        \<and> blob_ok (quota_day pacific_day now) (usable_units q r) (st' path)
    | (Inl e, st') \<Rightarrow> st' = st"
    using reserve_apply_ok [OF Cons.prems(1), of u op job now2 None] one
    by (auto simp: reserve_quota_def local_update_def Let_def simp flip: assms)
  then have "blob_ok (quota_day pacific_day now) (usable_units q r) (st1 path)"
    using Cons.prems(1) by (cases res) auto
  from Cons.IH [OF this rest(1)] step show ?case by (cases res) (auto simp: rest(2))
qed

lemma booked_bounds: "blob_ok day usable b \<Longrightarrow> 0 \<le> usable \<Longrightarrow> 0 \<le> booked b \<and> booked b \<le> usable"
  by (auto simp: blob_ok_def booked_def ledger_ok_def dget_def split: option.splits blob.splits json.splits)

text \<open>Claim C25: the daily ceiling.  Whatever reservations a day sees, in any order and with any refusals
  between, the ledger books exactly the sum of the granted units and that sum never exceeds the
  usable budget of the day.\<close>

theorem daily_ceiling:
  assumes "st (quota_ledger_path (quota_day pacific_day now)) = None"
    and "run_reservations pacific_day now q r reqs st = (granted, st')"
  shows "booked (st' (quota_ledger_path (quota_day pacific_day now))) = sum_list granted
    \<and> 0 \<le> sum_list granted \<and> sum_list granted \<le> usable_units q r"
proof -
  have "blob_ok (quota_day pacific_day now) (usable_units q r) (st (quota_ledger_path (quota_day pacific_day now)))"
    using assms(1) by (simp add: blob_ok_def)
  from run_reservations_booked [OF refl this assms(2)]
  have fin: "blob_ok (quota_day pacific_day now) (usable_units q r) (st' (quota_ledger_path (quota_day pacific_day now)))"
      "booked (st' (quota_ledger_path (quota_day pacific_day now)))
        = booked (st (quota_ledger_path (quota_day pacific_day now))) + sum_list granted" by auto
  have "booked (st (quota_ledger_path (quota_day pacific_day now))) = 0" by (simp add: assms(1) booked_def)
  then show ?thesis using fin(2) booked_bounds [OF fin(1) usable_nonneg] by simp
qed

lemma sample_run:
  "fst (run_reservations sample_day (Aware 0) 10000 200
     [(1600, ''upload'', None, Aware 0), (9000, ''upload'', None, Aware 0), (50, ''list'', None, Aware 0)] (\<lambda>_. None))
   = [1600, 0, 50]"
  by (simp add: reserve_quota_def local_update_def reserve_apply_def load_quota_ledger_def fresh_ledger_def
      quota_preflight_def record_quota_usage_def usable_units_def dget_or_def dset_def quota_day_def sample_day_def Let_def)

theorem daily_ceiling_witness:
  "\<exists>granted st'. run_reservations sample_day (Aware 0) 10000 200
     [(1600, ''upload'', None, Aware 0), (9000, ''upload'', None, Aware 0), (50, ''list'', None, Aware 0)] (\<lambda>_. None)
       = (granted, st')
    \<and> granted = [1600, 0, 50] \<and> booked (st' (quota_ledger_path (quota_day sample_day (Aware 0)))) = sum_list granted"
proof -
  let ?reqs = "[(1600, ''upload'', None, Aware 0), (9000, ''upload'', None, Aware 0), (50, ''list'', None, Aware 0)]"
  obtain st' where run: "run_reservations sample_day (Aware 0) 10000 200 ?reqs (\<lambda>_. None) = ([1600, 0, 50], st')"
    using sample_run by (cases "run_reservations sample_day (Aware 0) 10000 200 ?reqs (\<lambda>_. None)") simp
  from daily_ceiling [OF _ run] show ?thesis using run by simp
qed

text \<open>Concurrent reservations.  On the Azure backend, with other writers between the read and
  the conditional write who leave well-formed ledgers, a successful reservation books its units on
  the ledger the blob really held at the write, so the ceiling holds under concurrency too.\<close>

theorem concurrent_reservation:
  assumes "honest_env env"
    and "\<forall>s0 \<in> env_reaches 5 env s. blob_ok day (usable_units q r) (cl_content s0)"
    and "azure_update env (reserve_apply day u op job now q r) None s = (Inr (), holder, s')"
  shows "\<exists>s0 d. s0 \<in> env_reaches 5 env s \<and> holder = Some d \<and> qd_allowed d
    \<and> booked (cl_content s') = booked (cl_content s0) + u
    \<and> booked (cl_content s') \<le> usable_units q r
    \<and> blob_ok day (usable_units q r) (cl_content s')"
proof -
  obtain s0 x where s0: "s0 \<in> env_reaches 5 env s"
      "reserve_apply day u op job now q r None (cl_content s0) = (holder, Inr x)" "s' = write_cell x s0"
    using azure_loop_linear [OF assms(1) reserve_apply_resettable, of 5 day u op job now q r None s holder s' None] assms(3)
    by (auto simp: azure_update_def)
  have "blob_ok day (usable_units q r) (cl_content s0)" using assms(2) s0(1) by blast
  from reserve_apply_ok [OF this, of u op job now None] s0(2)
  show ?thesis using s0(1,3) by (auto simp: write_cell_def)
qed

theorem concurrent_reservation_witness:
  "\<exists>holder s'. azure_update (\<lambda>_. Turn (\<lambda>s. s)) (reserve_apply ''d'' 1600 ''upload'' None (Aware 0) 10000 200) None
      \<lparr>cl_content = None, cl_version = 0\<rparr> = (Inr (), holder, s') \<and> booked (cl_content s') = 1600"
proof -
  let ?s = "\<lparr>cl_content = None, cl_version = 0\<rparr>" and ?env = "\<lambda>_. Turn (\<lambda>s. s)"
  have ok: "blob_ok ''d'' (usable_units 10000 200) (None :: blob option)" by (simp add: blob_ok_def)
  have reach: "s0 = ?s" if "s0 \<in> env_reaches n ?env ?s" for s0 n
    using that by (induction n) auto
  obtain d x where dx: "reserve_apply ''d'' 1600 ''upload'' None (Aware 0) 10000 200 None None = (Some d, Inr x)"
    using reserve_apply_ok [OF ok, of 1600 "''upload''" None "Aware 0" None]
    by (auto simp: usable_units_def booked_def)
  then obtain s' where run: "azure_update ?env (reserve_apply ''d'' 1600 ''upload'' None (Aware 0) 10000 200) None ?s
      = (Inr (), Some d, s')"
    by (simp add: azure_update_alone)
  have h: "honest_env ?env" by (simp add: honest_env_def honest_def)
  have "\<forall>s0 \<in> env_reaches 5 ?env ?s. blob_ok ''d'' (usable_units 10000 200) (cl_content s0)"
    using reach ok by force
  from concurrent_reservation [OF h this run] show ?thesis
    using run reach by (force simp: booked_def)
qed

end
