(* ===== verification/PipelineLock.thy ===== *)
theory PipelineLock
  imports BlobStore
begin

text \<open>
  \<open>podcaster/pipeline_lock.py\<close>: the claim-based lock that keeps the audio and the video pipeline of a
  job apart.  The lock is a member of the job's manifest; claims and releases are callbacks of
  \<open>update_bytes\<close>, which may fail before or after its write (\<open>fault\<close>).
\<close>

section \<open>The manifest\<close>

definition PIPELINE_AUDIO :: string where
  "PIPELINE_AUDIO = ''audio''"

definition PIPELINE_VIDEO :: string where
  "PIPELINE_VIDEO = ''video''"

definition manifest_path :: "string \<Rightarrow> string" where
  "manifest_path job = ''jobs/'' @ job @ ''/manifest.json''"

text \<open>Absent, empty, undecodable or non-object content counts as an empty manifest.\<close>

definition manifest_doc :: "blob option \<Rightarrow> dict" where
  "manifest_doc content = (case content of Some (Doc (JObj d)) \<Rightarrow> d | _ \<Rightarrow> [])"

definition generation_of :: "dict \<Rightarrow> dict" where
  "generation_of doc = (case dget doc ''generation'' of JObj g \<Rightarrow> g | _ \<Rightarrow> [])"

definition synthesis_completed :: "dict \<Rightarrow> bool" where
  "synthesis_completed generation =
     (case dget generation ''synthesis_runner'' of
        JObj r \<Rightarrow> dget r ''status'' = JStr ''completed''
      | _ \<Rightarrow> False)"

text \<open>\<open>lock.get("pipeline")\<close> of a lock that is a dictionary, else nothing.\<close>

definition lock_owner :: "dict \<Rightarrow> json" where
  "lock_owner generation =
     (case dget generation ''pipeline_lock'' of JObj l \<Rightarrow> dget l ''pipeline'' | _ \<Rightarrow> JNull)"

section \<open>Claim and release\<close>

definition conflict_with :: "string \<Rightarrow> dict \<Rightarrow> bool" where
  "conflict_with pipeline generation =
     (let owner = lock_owner generation
      in truthy owner \<and> owner \<noteq> JStr pipeline
         \<and> \<not> (pipeline = PIPELINE_VIDEO \<and> owner = JStr PIPELINE_AUDIO \<and> synthesis_completed generation))"

definition claim_apply :: "string \<Rightarrow> int \<Rightarrow> unit callback" where
  "claim_apply pipeline now c content =
     (let doc = manifest_doc content; generation = generation_of doc
      in if conflict_with pipeline generation
         then (c, Inl (Raise LockConflict ''pipeline locked by another pipeline''))
         else (c, Inr (Doc (JObj (dset ''generation''
                (JObj (dset ''pipeline_lock''
                   (JObj [(''pipeline'', JStr pipeline), (''claimed_at'', JStr (iso_z (whole_second now)))])
                   generation)) doc)))))"

text \<open>
  The \<open>except\<close> clauses of both functions: a conflict and every other \<open>Exception\<close> give \<open>False\<close>
  (fail-closed), a \<open>BaseException\<close> propagates.
\<close>

definition claim_pipeline :: "fault \<Rightarrow> store \<Rightarrow> string \<Rightarrow> string \<Rightarrow> int \<Rightarrow> bool res \<times> store" where
  "claim_pipeline flt st job pipeline now =
     (case faulty_update flt (claim_apply pipeline now) () st (manifest_path job) of
        (Inr _, _, st') \<Rightarrow> (Inr True, st')
      | (Inl e, _, st') \<Rightarrow>
          (if exn_is (exn_class_of e) LockConflict then (Inr False, st')
           else if exn_is (exn_class_of e) PyException then (Inr False, st')
           else (Inl e, st')))"

definition release_apply :: "string \<Rightarrow> unit callback" where
  "release_apply pipeline c content =
     (let doc = manifest_doc content
      in case dget doc ''generation'' of
           JObj g \<Rightarrow>
             (case dget g ''pipeline_lock'' of
                JObj l \<Rightarrow>
                  (if dget l ''pipeline'' = JStr pipeline
                   then (c, Inr (Doc (JObj (dset ''generation'' (JObj (dpop ''pipeline_lock'' g)) doc))))
                   else (c, Inl (Raise NoOp ''not held'')))
              | _ \<Rightarrow> (c, Inl (Raise NoOp ''not held'')))
         | _ \<Rightarrow> (c, Inl (Raise NoOp ''not held'')))"

definition release_pipeline :: "fault \<Rightarrow> store \<Rightarrow> string \<Rightarrow> string \<Rightarrow> bool res \<times> store" where
  "release_pipeline flt st job pipeline =
     (case faulty_update flt (release_apply pipeline) () st (manifest_path job) of
        (Inr _, _, st') \<Rightarrow> (Inr True, st')
      | (Inl e, _, st') \<Rightarrow>
          (if exn_is (exn_class_of e) NoOp then (Inr True, st')
           else if exn_is (exn_class_of e) PyException then (Inr False, st')
           else (Inl e, st')))"

section \<open>Owner and completion in a store\<close>

definition owner_in :: "store \<Rightarrow> string \<Rightarrow> json" where
  "owner_in st job = lock_owner (generation_of (manifest_doc (st (manifest_path job))))"

definition completed_in :: "store \<Rightarrow> string \<Rightarrow> bool" where
  "completed_in st job = synthesis_completed (generation_of (manifest_doc (st (manifest_path job))))"

definition other_members_kept :: "store \<Rightarrow> store \<Rightarrow> string \<Rightarrow> bool" where
  "other_members_kept st st' job \<longleftrightarrow>
     (let d = manifest_doc (st (manifest_path job)); d' = manifest_doc (st' (manifest_path job))
      in (\<forall>k. k \<noteq> ''generation'' \<longrightarrow> map_of d' k = map_of d k)
         \<and> (\<forall>k. k \<noteq> ''pipeline_lock'' \<longrightarrow> map_of (generation_of d') k = map_of (generation_of d) k)
         \<and> (\<forall>p. p \<noteq> manifest_path job \<longrightarrow> st' p = st p))"

lemma other_members_kept_refl [simp]: "other_members_kept st st job"
  by (simp add: other_members_kept_def Let_def)

lemma kept_completed: "other_members_kept st st' job \<Longrightarrow> completed_in st' job = completed_in st job"
  by (simp add: other_members_kept_def completed_in_def synthesis_completed_def dget_def Let_def)

text \<open>One update by a claim: it writes exactly when there is no conflict.\<close>

lemma claim_update:
  "local_update (claim_apply p now) () st (manifest_path job) = (r, c, st') \<Longrightarrow>
     (case r of
        Inr _ \<Rightarrow> \<not> conflict_with p (generation_of (manifest_doc (st (manifest_path job))))
          \<and> owner_in st' job = JStr p \<and> other_members_kept st st' job
      | Inl e \<Rightarrow> st' = st \<and> exn_class_of e = LockConflict
          \<and> conflict_with p (generation_of (manifest_doc (st (manifest_path job)))))"
  by (auto simp: local_update_def claim_apply_def owner_in_def lock_owner_def manifest_doc_def generation_of_def
      other_members_kept_def Let_def split: if_splits sum.splits)

lemma release_apply_eq:
  "release_apply p c b =
     (let doc = manifest_doc b
      in if lock_owner (generation_of doc) = JStr p
         then (c, Inr (Doc (JObj (dset ''generation'' (JObj (dpop ''pipeline_lock'' (generation_of doc))) doc))))
         else (c, Inl (Raise NoOp ''not held'')))"
  unfolding release_apply_def Let_def lock_owner_def generation_of_def
  by (cases "dget (manifest_doc b) ''generation''") (simp_all split: json.splits)

lemma release_update:
  "local_update (release_apply p) () st (manifest_path job) = (r, c, st') \<Longrightarrow>
     (case r of
        Inr _ \<Rightarrow> owner_in st job = JStr p \<and> owner_in st' job = JNull \<and> other_members_kept st st' job
      | Inl e \<Rightarrow> st' = st \<and> exn_class_of e = NoOp \<and> owner_in st job \<noteq> JStr p)"
  by (auto simp: local_update_def release_apply_eq owner_in_def lock_owner_def manifest_doc_def generation_of_def
      other_members_kept_def Let_def split: if_splits sum.splits)

lemma exn_facts [simp]:
  "exn_is LockConflict LockConflict" "exn_is NoOp NoOp"
  by (simp_all add: exn_is_def eval_nat_numeral)

text \<open>Whatever the fault, the store is either as before or as after the callback's write.\<close>

lemma claim_outcome:
  assumes "claim_pipeline flt st job p now = (r, st')"
  shows "st' = st \<or> (\<not> conflict_with p (generation_of (manifest_doc (st (manifest_path job))))
      \<and> owner_in st' job = JStr p \<and> other_members_kept st st' job)"
    and "r = Inr True \<Longrightarrow> owner_in st' job = JStr p \<and> other_members_kept st st' job
      \<and> \<not> conflict_with p (generation_of (manifest_doc (st (manifest_path job))))"
proof -
  obtain q c s1 where one: "local_update (claim_apply p now) () st (manifest_path job) = (q, c, s1)"
    by (metis prod_cases3)
  note up = claim_update [OF one]
  show "st' = st \<or> (\<not> conflict_with p (generation_of (manifest_doc (st (manifest_path job))))
      \<and> owner_in st' job = JStr p \<and> other_members_kept st st' job)"
    using assms up
    by (cases flt; cases q) (auto simp: claim_pipeline_def faulty_update_def one split: if_splits)
  show "r = Inr True \<Longrightarrow> owner_in st' job = JStr p \<and> other_members_kept st st' job
      \<and> \<not> conflict_with p (generation_of (manifest_doc (st (manifest_path job))))"
    using assms up
    by (cases flt; cases q) (auto simp: claim_pipeline_def faulty_update_def one split: if_splits)
qed

lemma release_outcome:
  assumes "release_pipeline flt st job p = (r, st')"
  shows "st' = st \<or> (owner_in st job = JStr p \<and> owner_in st' job = JNull \<and> other_members_kept st st' job)"
proof -
  obtain q c s1 where one: "local_update (release_apply p) () st (manifest_path job) = (q, c, s1)"
    by (metis prod_cases3)
  note up = release_update [OF one]
  show ?thesis
    using assms up
    by (cases flt; cases q) (auto simp: release_pipeline_def faulty_update_def one split: if_splits)
qed

section \<open>Exclusion\<close>

text \<open>Claiming the lock.  Whatever the storage does, a claim that returns true leaves the job owned
  by the claimer, and it was free, already the claimer's, or held by audio with synthesis completed
  and claimed by video; a claim never changes anything else in the manifest or the store, and without
  a fault a refused claim changes nothing.\<close>

theorem claim_is_exclusive:
  assumes "claim_pipeline flt st job p now = (r, st')"
  shows "(r = Inr True \<longrightarrow> owner_in st' job = JStr p
      \<and> (\<not> truthy (owner_in st job) \<or> owner_in st job = JStr p
         \<or> p = PIPELINE_VIDEO \<and> owner_in st job = JStr PIPELINE_AUDIO \<and> completed_in st job))
    \<and> other_members_kept st st' job
    \<and> (flt = NoFault \<and> r \<noteq> Inr True \<longrightarrow> r = Inr False \<and> st' = st)"
proof -
  have "r = Inr False \<and> st' = st" if "flt = NoFault" "r \<noteq> Inr True"
  proof -
    obtain q c s1 where one: "local_update (claim_apply p now) () st (manifest_path job) = (q, c, s1)"
      by (metis prod_cases3)
    show ?thesis
      using claim_update [OF one] assms that
      by (cases q) (auto simp: claim_pipeline_def faulty_update_def one)
  qed
  then show ?thesis
    using claim_outcome [OF assms] unfolding conflict_with_def owner_in_def completed_in_def Let_def by auto
qed

definition audio_done :: store where
  "audio_done = (\<lambda>_. Some (Doc (JObj [(''generation'', JObj
     [(''synthesis_runner'', JObj [(''status'', JStr ''completed'')]),
      (''pipeline_lock'', JObj [(''pipeline'', JStr ''audio'')])])])))"

lemma audio_done_claim: "\<exists>st'. claim_pipeline NoFault audio_done ''j'' ''video'' 0 = (Inr True, st')"
  by (simp add: claim_pipeline_def faulty_update_def local_update_def claim_apply_def audio_done_def manifest_doc_def
      generation_of_def conflict_with_def lock_owner_def synthesis_completed_def PIPELINE_VIDEO_def PIPELINE_AUDIO_def Let_def)

theorem claim_is_exclusive_witness:
  "\<exists>st'. claim_pipeline NoFault audio_done ''j'' ''video'' 0 = (Inr True, st') \<and> owner_in st' ''j'' = JStr ''video''
    \<and> other_members_kept audio_done st' ''j''"
proof -
  obtain st' where "claim_pipeline NoFault audio_done ''j'' ''video'' 0 = (Inr True, st')"
    using audio_done_claim by blast
  from claim_is_exclusive [OF this] this show ?thesis by blast
qed

text \<open>Releasing the lock.  A release frees the job only for the pipeline that owns it: by any other
  pipeline it returns true and changes nothing, and without a fault the owner's release returns true
  and leaves the job free and claimable.\<close>

theorem release_is_owned:
  "(owner_in st job \<noteq> JStr p \<longrightarrow> release_pipeline NoFault st job p = (Inr True, st))
   \<and> (owner_in st job = JStr p \<longrightarrow> (\<exists>st'. release_pipeline NoFault st job p = (Inr True, st')
        \<and> owner_in st' job = JNull \<and> other_members_kept st st' job
        \<and> (\<exists>st''. claim_pipeline NoFault st' job q now = (Inr True, st''))))"
proof -
  obtain r c s1 where one: "local_update (release_apply p) () st (manifest_path job) = (r, c, s1)"
    by (metis prod_cases3)
  have free: "\<exists>st''. claim_pipeline NoFault st' job q now = (Inr True, st'')" if "owner_in st' job = JNull" for st'
    using that by (auto simp: claim_pipeline_def faulty_update_def local_update_def claim_apply_def conflict_with_def
        owner_in_def Let_def)
  show ?thesis
    using release_update [OF one] free
    by (cases r) (auto simp: release_pipeline_def faulty_update_def one)
qed

theorem release_is_owned_witness:
  "release_pipeline NoFault audio_done ''j'' ''video'' = (Inr True, audio_done)"
proof -
  have "owner_in audio_done ''j'' \<noteq> JStr ''video''"
    by (simp add: owner_in_def audio_done_def manifest_doc_def generation_of_def lock_owner_def)
  then show ?thesis using release_is_owned [of audio_done "''j''" "''video''"] by blast
qed

text \<open>
  The two pipelines of a job at work: the store and the pipelines whose claim returned true and that
  have not released since.  Other writers of the manifest keep the lock and never undo completion.
\<close>

inductive lock_step :: "string \<Rightarrow> store \<times> string set \<Rightarrow> store \<times> string set \<Rightarrow> bool" for job where
  claimed: "claim_pipeline flt st job p now = (Inr True, st') \<Longrightarrow> p \<in> {PIPELINE_AUDIO, PIPELINE_VIDEO}
    \<Longrightarrow> lock_step job (st, H) (st', insert p H)"
| refused: "claim_pipeline flt st job p now = (r, st') \<Longrightarrow> p \<in> {PIPELINE_AUDIO, PIPELINE_VIDEO} \<Longrightarrow> r \<noteq> Inr True
    \<Longrightarrow> lock_step job (st, H) (st', H)"
| released: "release_pipeline flt st job p = (r, st') \<Longrightarrow> lock_step job (st, H) (st', H - {p})"
| other_writer: "owner_in st' job = owner_in st job \<Longrightarrow> completed_in st job \<longrightarrow> completed_in st' job
    \<Longrightarrow> lock_step job (st, H) (st', H)"

definition working_ok :: "string \<Rightarrow> store \<times> string set \<Rightarrow> bool" where
  "working_ok job s \<longleftrightarrow> snd s \<subseteq> {PIPELINE_AUDIO, PIPELINE_VIDEO}
     \<and> (\<forall>p \<in> snd s. owner_in (fst s) job = JStr p \<or> p = PIPELINE_AUDIO \<and> completed_in (fst s) job)"

lemma claim_keeps_working:
  assumes "claim_pipeline flt st job p now = (r, st')" "working_ok job (st, H)" "p \<in> {PIPELINE_AUDIO, PIPELINE_VIDEO}"
  shows "working_ok job (st', H) \<and> (r = Inr True \<longrightarrow> working_ok job (st', insert p H))"
proof -
  have still: "owner_in st' job = JStr q \<or> q = PIPELINE_AUDIO \<and> completed_in st' job"
    if q: "q \<in> H" for q
  proof (cases "st' = st")
    case True
    then show ?thesis using assms(2) q by (auto simp: working_ok_def)
  next
    case False
    then have n: "\<not> conflict_with p (generation_of (manifest_doc (st (manifest_path job))))"
        "owner_in st' job = JStr p" "completed_in st' job = completed_in st job"
      using claim_outcome(1) [OF assms(1)] kept_completed by auto
    have "q \<noteq> []" using assms(2) q by (auto simp: working_ok_def PIPELINE_AUDIO_def PIPELINE_VIDEO_def)
    then show ?thesis
      using n assms(2) q
      by (auto simp: working_ok_def conflict_with_def owner_in_def completed_in_def Let_def)
  qed
  have still': "\<forall>q\<in>H. owner_in st' job = JStr q \<or> q = PIPELINE_AUDIO \<and> completed_in st' job"
    using still by blast
  show ?thesis
    using still' assms(2,3) claim_outcome(2) [OF assms(1)] unfolding working_ok_def fst_conv snd_conv by blast
qed

lemma lock_step_keeps:
  assumes "lock_step job s s'" "working_ok job s"
  shows "working_ok job s'"
  using assms(1)
proof (cases rule: lock_step.cases)
  case (claimed flt st p now st' H)
  then show ?thesis using claim_keeps_working [of flt st job p now "Inr True" st' H] assms(2) by simp
next
  case (refused flt st p now r st' H)
  then show ?thesis using claim_keeps_working [of flt st job p now r st' H] assms(2) by simp
next
  case (released flt st p r st' H)
  from release_outcome [OF released(3)] show ?thesis
  proof
    assume "st' = st"
    then show ?thesis using assms(2) by (auto simp: released working_ok_def)
  next
    assume f: "owner_in st job = JStr p \<and> owner_in st' job = JNull \<and> other_members_kept st st' job"
    then have "completed_in st' job = completed_in st job" using kept_completed by blast
    then show ?thesis using assms(2) f by (auto simp: released working_ok_def)
  qed
next
  case (other_writer st' st H)
  then show ?thesis using assms(2) by (auto simp: working_ok_def)
qed

text \<open>Claim C17: the pipelines exclude each other.  In every run of claims, refusals, releases and storage
  faults from a state in which nobody works, audio and video are both at work only after audio
  synthesis has completed, and a video claim that returns true before that means audio does not work.\<close>

theorem pipelines_exclude_each_other:
  assumes "(lock_step job)\<^sup>*\<^sup>* (st0, {}) (st, H)"
  shows "PIPELINE_AUDIO \<in> H \<and> PIPELINE_VIDEO \<in> H \<longrightarrow> completed_in st job"
proof -
  have "working_ok job s" if "(lock_step job)\<^sup>*\<^sup>* (st0, {}) s" for s
    using that
  proof induction
    case base
    show ?case by (simp add: working_ok_def)
  next
    case (step s s')
    then show ?case using lock_step_keeps by blast
  qed
  from this [OF assms] have ok: "working_ok job (st, H)" .
  have ne: "PIPELINE_AUDIO \<noteq> PIPELINE_VIDEO" by (simp add: PIPELINE_AUDIO_def PIPELINE_VIDEO_def)
  show ?thesis
  proof
    assume h: "PIPELINE_AUDIO \<in> H \<and> PIPELINE_VIDEO \<in> H"
    then have "owner_in st job = JStr PIPELINE_VIDEO"
      using ok ne unfolding working_ok_def fst_conv snd_conv by fastforce
    then show "completed_in st job"
      using ok h ne unfolding working_ok_def fst_conv snd_conv by auto
  qed
qed

theorem pipelines_exclude_each_other_witness:
  "\<exists>st. (lock_step ''j'')\<^sup>*\<^sup>* (audio_done, {}) (st, {PIPELINE_VIDEO, PIPELINE_AUDIO}) \<and> completed_in st ''j''"
proof -
  have "\<exists>st'. claim_pipeline NoFault audio_done ''j'' PIPELINE_AUDIO 0 = (Inr True, st') \<and> completed_in st' ''j''
      \<and> owner_in st' ''j'' = JStr PIPELINE_AUDIO"
    by (simp add: claim_pipeline_def faulty_update_def local_update_def claim_apply_def audio_done_def manifest_doc_def
      generation_of_def conflict_with_def lock_owner_def synthesis_completed_def PIPELINE_VIDEO_def PIPELINE_AUDIO_def
      Let_def completed_in_def owner_in_def)
  then obtain st1 where st1: "claim_pipeline NoFault audio_done ''j'' PIPELINE_AUDIO 0 = (Inr True, st1)"
      "completed_in st1 ''j''" "owner_in st1 ''j'' = JStr PIPELINE_AUDIO" by blast
  then have "\<exists>st2. claim_pipeline NoFault st1 ''j'' PIPELINE_VIDEO 0 = (Inr True, st2)"
    by (simp add: claim_pipeline_def faulty_update_def local_update_def claim_apply_def conflict_with_def owner_in_def
      completed_in_def Let_def)
  then obtain st2 where st2: "claim_pipeline NoFault st1 ''j'' PIPELINE_VIDEO 0 = (Inr True, st2)" by blast
  have "lock_step ''j'' (audio_done, {}) (st1, {PIPELINE_AUDIO})"
      "lock_step ''j'' (st1, {PIPELINE_AUDIO}) (st2, insert PIPELINE_VIDEO {PIPELINE_AUDIO})"
    using lock_step.claimed [OF st1(1), of "{}"] lock_step.claimed [OF st2, of "{PIPELINE_AUDIO}"] by auto
  then have run: "(lock_step ''j'')\<^sup>*\<^sup>* (audio_done, {}) (st2, {PIPELINE_VIDEO, PIPELINE_AUDIO})"
    by (meson converse_rtranclp_into_rtranclp rtranclp.rtrancl_refl)
  from pipelines_exclude_each_other [OF run] run show ?thesis by blast
qed

end
