(* ===== verification/Progress.thy ===== *)
theory Progress
  imports BlobStore "HOL-Library.Sublist"
begin

text \<open>
  \<open>podcaster/progress.py\<close> and \<open>podcaster/stage_progress.py\<close>: the durable stream of progress events of
  a job and the stage summary with its estimated completion derived from it.  Reading and emission
  tolerate a damaged document; what they make of it is part of the model.
\<close>

section \<open>Vocabulary\<close>

definition PROGRESS_SCHEMA_VERSION :: string where
  "PROGRESS_SCHEMA_VERSION = ''squadscope-podcaster-progress-v1''"

definition MAX_EVENTS :: nat where
  "MAX_EVENTS = 500"

definition stage_terminal :: "string list" where
  "stage_terminal = [''completed'', ''failed'']"

definition RUNNING :: string where
  "RUNNING = ''running''"

definition task_terminal :: "string list" where
  "task_terminal = [''done'', ''failed'']"

definition progress_path :: "string \<Rightarrow> string" where
  "progress_path job = ''jobs/'' @ job @ ''/progress.json''"

section \<open>Documents and events\<close>

text \<open>The caller's keyword arguments; \<open>at\<close> is the value of \<open>at or datetime.now(utc)\<close> as an instant.\<close>

record emission =
  em_stage :: string
  em_phase :: "string option"
  em_segment_index :: "int option"
  em_segment_total :: "int option"
  em_percent :: "rat option"
  em_task_id :: "string option"
  em_task_status :: "string option"
  em_message :: "string option"
  em_at :: int

definition iso_seconds :: "int \<Rightarrow> string" where
  "iso_seconds t = iso_z (whole_second t)"

definition derive_percent :: "rat option \<Rightarrow> int option \<Rightarrow> int option \<Rightarrow> rat option" where
  "derive_percent percent segment_index segment_total =
     (case percent of
        Some p \<Rightarrow> Some (max 0 (min 100 (py_round_to 1 p)))
      | None \<Rightarrow>
         (case (segment_index, segment_total) of
            (Some i, Some n) \<Rightarrow>
              (if 0 < n then Some (py_round_to 1 (100 * of_int (max 0 (min i n)) / of_int n)) else None)
          | _ \<Rightarrow> None))"

definition empty_document :: "string \<Rightarrow> dict" where
  "empty_document job = [(''schema_version'', JStr PROGRESS_SCHEMA_VERSION), (''job_id'', JStr job),
     (''updated_at'', JNull), (''current'', JNull), (''tasks'', JObj []), (''events'', JList [])]"

definition setdefault :: "string \<Rightarrow> json \<Rightarrow> dict \<Rightarrow> dict" where
  "setdefault k v d = (if dhas d k then d else dset k v d)"

fun is_list :: "json \<Rightarrow> bool" where
  "is_list (JList _) = True"
| "is_list _ = False"

fun list_of :: "json \<Rightarrow> json list" where
  "list_of (JList xs) = xs"
| "list_of _ = []"

fun dict_of :: "json \<Rightarrow> dict" where
  "dict_of (JObj d) = d"
| "dict_of _ = []"

definition load_document :: "blob option \<Rightarrow> string \<Rightarrow> dict" where
  "load_document raw job =
     (case raw of
        Some (Doc (JObj d)) \<Rightarrow>
          (let d1 = setdefault ''job_id'' (JStr job) (setdefault ''schema_version'' (JStr PROGRESS_SCHEMA_VERSION) d);
               d2 = (if is_list (dget d1 ''events'') then d1 else dset ''events'' (JList []) d1)
           in if is_dict (dget d2 ''tasks'') then d2 else dset ''tasks'' (JObj []) d2)
      | _ \<Rightarrow> empty_document job)"

definition safe_seq :: "json \<Rightarrow> int option" where
  "safe_seq event =
     (case event of
        JObj d \<Rightarrow> (case py_int (dget_or d ''seq'' (JInt 0)) of Inr n \<Rightarrow> Some n | Inl _ \<Rightarrow> None)
      | _ \<Rightarrow> None)"

fun max_seq :: "int \<Rightarrow> json list \<Rightarrow> int" where
  "max_seq m [] = m"
| "max_seq m (e # es) =
     max_seq (case safe_seq e of Some n \<Rightarrow> if m < n then n else m | None \<Rightarrow> m) es"

definition next_seq :: "json list \<Rightarrow> int" where
  "next_seq events = max_seq 0 events + 1"

definition filter_events_since :: "json list \<Rightarrow> int \<Rightarrow> json list" where
  "filter_events_since events after =
     filter (\<lambda>e. case safe_seq e of Some n \<Rightarrow> after < n | None \<Rightarrow> False) events"

section \<open>Emission\<close>

text \<open>The status an event carries: running by default for a task, none without a task.\<close>

definition resolved_status :: "emission \<Rightarrow> string option" where
  "resolved_status em =
     (case em_task_id em of
        None \<Rightarrow> None
      | Some _ \<Rightarrow> (case em_task_status em of None \<Rightarrow> Some RUNNING | Some s \<Rightarrow> Some s))"

definition event_to_dict :: "int \<Rightarrow> emission \<Rightarrow> dict" where
  "event_to_dict seq em = filter (\<lambda>kv. snd kv \<noteq> JNull)
     [(''seq'', JInt seq),
      (''at'', JStr (iso_seconds (em_at em))),
      (''stage'', JStr (em_stage em)),
      (''phase'', json_of_opt_str (em_phase em)),
      (''segment_index'', json_of_opt_int (em_segment_index em)),
      (''segment_total'', json_of_opt_int (em_segment_total em)),
      (''percent'', case derive_percent (em_percent em) (em_segment_index em) (em_segment_total em) of
          None \<Rightarrow> JNull | Some p \<Rightarrow> JFloat p),
      (''task_id'', json_of_opt_str (em_task_id em)),
      (''task_status'', json_of_opt_str (resolved_status em)),
      (''message'', json_of_opt_str (em_message em))]"

definition without_seq :: "dict \<Rightarrow> dict" where
  "without_seq e = filter (\<lambda>kv. fst kv \<noteq> ''seq'') e"

definition bounded_append :: "json list \<Rightarrow> json \<Rightarrow> json list" where
  "bounded_append events e =
     (let es = events @ [e] in if MAX_EVENTS < length es then drop (length es - MAX_EVENTS) es else es)"

definition update_tasks :: "emission \<Rightarrow> dict \<Rightarrow> dict \<Rightarrow> dict" where
  "update_tasks em event tasks =
     (case em_task_id em of
        None \<Rightarrow> tasks
      | Some tid \<Rightarrow>
         (if (case resolved_status em of None \<Rightarrow> False | Some s \<Rightarrow> s \<in> set task_terminal)
          then dpop tid tasks
          else dset tid (JObj (without_seq event)) tasks))"

definition emit_apply :: "string \<Rightarrow> emission \<Rightarrow> dict callback" where
  "emit_apply job em captured content =
     (let document = load_document content job;
          events = list_of (dget document ''events'');
          event = event_to_dict (next_seq events) em;
          d1 = dset ''events'' (JList (bounded_append events (JObj event))) document;
          d2 = dset ''current'' (JObj (without_seq event)) d1;
          d3 = dset ''updated_at'' (JStr (iso_seconds (em_at em))) d2;
          d4 = (if em_task_id em = None then d3
                else dset ''tasks'' (JObj (update_tasks em event (dict_of (dget d3 ''tasks'')))) d3)
      in (dupdate captured event, Inr (Doc (JObj d4))))"

definition emit_progress :: "fault \<Rightarrow> store \<Rightarrow> string \<Rightarrow> emission \<Rightarrow> dict option res \<times> store" where
  "emit_progress flt st job em =
     (case faulty_update flt (emit_apply job em) [] st (progress_path job) of
        (Inl e, _, st') \<Rightarrow> (if exn_is (exn_class_of e) PyException then Inr None else Inl e, st')
      | (Inr _, captured, st') \<Rightarrow> (Inr (if captured = [] then None else Some captured), st'))"

definition emit_task_progress :: "fault \<Rightarrow> store \<Rightarrow> string \<Rightarrow> string \<Rightarrow> string \<Rightarrow> string \<Rightarrow> string option
    \<Rightarrow> int option \<Rightarrow> int option \<Rightarrow> string option \<Rightarrow> int \<Rightarrow> dict option res \<times> store" where
  "emit_task_progress flt st job stage tid status phase si n msg moment =
     emit_progress flt st job \<lparr>em_stage = stage, em_phase = phase, em_segment_index = si, em_segment_total = n,
       em_percent = None, em_task_id = Some tid, em_task_status = Some status, em_message = msg, em_at = moment\<rparr>"

section \<open>Reading\<close>

definition read_progress :: "store \<Rightarrow> string \<Rightarrow> dict option" where
  "read_progress st job =
     (case st (progress_path job) of
        None \<Rightarrow> None
      | Some b \<Rightarrow> if b = Empty then None else Some (load_document (Some b) job))"

definition events_since :: "store \<Rightarrow> string \<Rightarrow> int \<Rightarrow> json list" where
  "events_since st job after =
     (case read_progress st job of
        None \<Rightarrow> []
      | Some d \<Rightarrow> if d = [] then []
                  else if is_list (dget d ''events'') then filter_events_since (list_of (dget d ''events'')) after
                  else [])"

definition is_terminal :: "dict option \<Rightarrow> bool" where
  "is_terminal doc =
     (case doc of
        None \<Rightarrow> False
      | Some d \<Rightarrow> (case dget d ''current'' of
            JObj c \<Rightarrow> list_ex (\<lambda>s. dget c ''stage'' = JStr s) stage_terminal
          | _ \<Rightarrow> False))"

definition in_flight_tasks :: "dict option \<Rightarrow> dict" where
  "in_flight_tasks doc =
     (case doc of
        None \<Rightarrow> []
      | Some d \<Rightarrow> (case dget d ''tasks'' of JObj t \<Rightarrow> t | _ \<Rightarrow> []))"

section \<open>Stage summary and estimate\<close>

text \<open>\<open>_parse_iso\<close>: a naive timestamp is taken as UTC; anything unreadable is \<open>None\<close>.\<close>

definition parse_iso :: "json \<Rightarrow> int option" where
  "parse_iso v = (case v of
     JStr s \<Rightarrow>
       (if s = [] then None
        else let text = py_strip s;
                 text = (if ends_with ''Z'' text then butlast text @ ''+00:00'' else text)
             in case fromisoformat text of
                  None \<Rightarrow> None
                | Some (Aware t) \<Rightarrow> Some t
                | Some (Naive t) \<Rightarrow> Some t)
   | _ \<Rightarrow> None)"

definition dict_events :: "dict \<Rightarrow> dict list" where
  "dict_events d = map dict_of (filter is_dict (list_of (dget d ''events'')))"

definition current_event :: "dict \<Rightarrow> dict" where
  "current_event d =
     (case dget d ''current'' of
        JObj c \<Rightarrow> c
      | _ \<Rightarrow> (let es = dict_events d in if es = [] then [] else last es))"

definition stage_started_at :: "dict list \<Rightarrow> json \<Rightarrow> int option" where
  "stage_started_at events stage =
     (case filter (\<lambda>e. py_eq (dget e ''stage'') stage) events of
        [] \<Rightarrow> None
      | e # _ \<Rightarrow> parse_iso (dget e ''at''))"

text \<open>\<open>stage in _TERMINAL\<close> on a set hashes the value: a list or a dictionary raises \<open>TypeError\<close>.\<close>

definition in_terminal_set :: "json \<Rightarrow> bool res" where
  "in_terminal_set stage =
     (case stage of
        JList _ \<Rightarrow> Inl (Raise TypeErr ''unhashable type'')
      | JObj _ \<Rightarrow> Inl (Raise TypeErr ''unhashable type'')
      | _ \<Rightarrow> Inr (list_ex (\<lambda>s. stage = JStr s) stage_terminal))"

text \<open>The extrapolation that ends \<open>compute_eta\<close>: elapsed time per done segment, over the rest.\<close>

definition project_eta :: "int \<Rightarrow> int \<Rightarrow> int \<Rightarrow> int \<Rightarrow> (rat option \<times> string option) res" where
  "project_eta now started don tot =
     (let elapsed = max (total_seconds (now - started)) 0
      in if elapsed \<le> 0 then Inr (None, None)
         else
           (let remaining = py_round_to 1 (elapsed / of_int don * of_int (tot - don));
                eta = now + py_round (remaining * 1000000)
            in if valid_instant eta then Inr (Some remaining, Some (iso_seconds eta))
               else Inl (Raise OverflowErr ''date value out of range'')))"

definition compute_eta :: "dict \<Rightarrow> int \<Rightarrow> (rat option \<times> string option) res" where
  "compute_eta document now =
     (let current = current_event document; stage = dget current ''stage''
      in and_then (in_terminal_set stage) (\<lambda>terminal.
         if terminal then Inr (Some 0, Some (iso_seconds now))
         else
           (let tot = dget current ''segment_total''; don = dget current ''segment_index''
            in if \<not> (is_int tot \<and> 0 < int_value tot \<and> is_int don \<and> 0 < int_value don \<and> int_value don \<le> int_value tot)
               then Inr (None, None)
               else if int_value tot \<le> int_value don then Inr (Some 0, Some (iso_seconds now))
               else (case stage_started_at (dict_events document) stage of
                  None \<Rightarrow> Inr (None, None)
                | Some started \<Rightarrow> project_eta now started (int_value don) (int_value tot)))))"

record stage_summary =
  ss_stage :: json
  ss_phase :: json
  ss_segment_index :: json
  ss_segment_total :: json
  ss_percent :: json
  ss_message :: json
  ss_updated_at :: json
  ss_terminal :: bool
  ss_eta :: "string option"
  ss_eta_seconds :: "rat option"

definition summarize :: "dict option \<Rightarrow> int \<Rightarrow> stage_summary res" where
  "summarize document now =
     (case document of
        None \<Rightarrow> Inr \<lparr>ss_stage = JNull, ss_phase = JStr ''pending'', ss_segment_index = JNull,
            ss_segment_total = JNull, ss_percent = JNull, ss_message = JNull, ss_updated_at = JNull,
            ss_terminal = False, ss_eta = None, ss_eta_seconds = None\<rparr>
      | Some d \<Rightarrow>
         (if d = [] then Inr \<lparr>ss_stage = JNull, ss_phase = JStr ''pending'', ss_segment_index = JNull,
            ss_segment_total = JNull, ss_percent = JNull, ss_message = JNull, ss_updated_at = JNull,
            ss_terminal = False, ss_eta = None, ss_eta_seconds = None\<rparr>
          else
            (let current = current_event d; stage = dget current ''stage''
             in and_then (compute_eta d now) (\<lambda>(remaining, eta).
                and_then (in_terminal_set stage) (\<lambda>terminal.
                Inr \<lparr>ss_stage = stage,
                  ss_phase = (if truthy (dget current ''phase'') then dget current ''phase''
                              else if stage = JNull then JStr ''pending'' else JNull),
                  ss_segment_index = dget current ''segment_index'',
                  ss_segment_total = dget current ''segment_total'',
                  ss_percent = dget current ''percent'', ss_message = dget current ''message'',
                  ss_updated_at = dget d ''updated_at'', ss_terminal = terminal,
                  ss_eta = eta, ss_eta_seconds = remaining\<rparr>)))))"

section \<open>Sequence numbers\<close>

lemma event_to_dict_seq:
  "\<exists>rest. event_to_dict n em = (''seq'', JInt n) # rest \<and> ''seq'' \<notin> fst ` set rest \<and> distinct (map fst rest)"
proof -
  define rest where "rest = filter (\<lambda>kv. snd kv \<noteq> JNull) (tl
     [(''seq'', JInt n),
      (''at'', JStr (iso_seconds (em_at em))),
      (''stage'', JStr (em_stage em)),
      (''phase'', json_of_opt_str (em_phase em)),
      (''segment_index'', json_of_opt_int (em_segment_index em)),
      (''segment_total'', json_of_opt_int (em_segment_total em)),
      (''percent'', case derive_percent (em_percent em) (em_segment_index em) (em_segment_total em) of
          None \<Rightarrow> JNull | Some p \<Rightarrow> JFloat p),
      (''task_id'', json_of_opt_str (em_task_id em)),
      (''task_status'', json_of_opt_str (resolved_status em)),
      (''message'', json_of_opt_str (em_message em))])"
  have "event_to_dict n em = (''seq'', JInt n) # rest"
    by (simp add: event_to_dict_def rest_def)
  moreover have "''seq'' \<notin> fst ` set rest" by (auto simp: rest_def)
  moreover have "distinct (map fst rest)"
    unfolding rest_def by (rule distinct_map_filter) simp
  ultimately show ?thesis by blast
qed

lemma captured_event: "dupdate [] (event_to_dict n em) = event_to_dict n em"
  using dupdate_fresh [of "[]" "event_to_dict n em"] event_to_dict_seq [of n em] by auto

lemma event_to_dict_nonempty: "event_to_dict n em \<noteq> []"
  using event_to_dict_seq [of n em] by auto

lemma safe_seq_event [simp]: "safe_seq (JObj (event_to_dict n em)) = Some n"
  using event_to_dict_seq [of n em] by (auto simp: safe_seq_def dget_or_def)

lemma max_seq_append: "max_seq m (xs @ ys) = max_seq (max_seq m xs) ys"
  by (induction xs arbitrary: m) auto

lemma max_seq_ge: "m \<le> max_seq m xs"
proof (induction xs arbitrary: m)
  case (Cons x xs)
  show ?case using Cons [of "case safe_seq x of Some n \<Rightarrow> if m < n then n else m | None \<Rightarrow> m"]
    by (auto split: option.splits if_splits)
qed simp

lemma max_seq_upper: "e \<in> set xs \<Longrightarrow> safe_seq e = Some n \<Longrightarrow> n \<le> max_seq m xs"
proof (induction xs arbitrary: m)
  case (Cons x xs)
  show ?case
  proof (cases "e = x")
    case True
    then have "max_seq m (x # xs) = max_seq (if m < n then n else m) xs" using Cons.prems(2) by simp
    moreover have "n \<le> (if m < n then n else m)" by simp
    ultimately show ?thesis using max_seq_ge order_trans by metis
  qed (use Cons in auto)
qed simp

lemma max_seq_less: "m < k \<Longrightarrow> (\<And>e n. e \<in> set xs \<Longrightarrow> safe_seq e = Some n \<Longrightarrow> n < k) \<Longrightarrow> max_seq m xs < k"
proof (induction xs arbitrary: m)
  case (Cons x xs)
  show ?case by (simp, rule Cons.IH) (use Cons.prems in \<open>auto split: option.splits\<close>)
qed simp

lemma next_seq_snoc:
  assumes "0 < k" "\<And>e n. e \<in> set xs \<Longrightarrow> safe_seq e = Some n \<Longrightarrow> n < k" "safe_seq x = Some k"
  shows "next_seq (xs @ [x]) = k + 1"
  using max_seq_less [of 0 k xs, OF assms(1,2)] by (simp add: next_seq_def max_seq_append assms(3))

lemma next_seq_bound: "e \<in> set xs \<Longrightarrow> safe_seq e = Some n \<Longrightarrow> n < next_seq xs"
  using max_seq_upper [of e xs n 0] by (simp add: next_seq_def)

lemma next_seq_pos: "0 < next_seq xs"
  using max_seq_ge [of 0 xs] by (simp add: next_seq_def)

section \<open>One emission\<close>

definition events_in :: "store \<Rightarrow> string \<Rightarrow> json list" where
  "events_in st job = list_of (dget (load_document (st (progress_path job)) job) ''events'')"

definition tasks_in :: "store \<Rightarrow> string \<Rightarrow> dict" where
  "tasks_in st job = dict_of (dget (load_document (st (progress_path job)) job) ''tasks'')"

lemma load_document_shape:
  "is_list (dget (load_document raw job) ''events'')" "is_dict (dget (load_document raw job) ''tasks'')"
  by (auto simp: load_document_def empty_document_def Let_def split: option.splits blob.splits json.splits)

lemma load_document_idem:
  assumes "dhas d ''schema_version''" "dhas d ''job_id''" "is_list (dget d ''events'')" "is_dict (dget d ''tasks'')"
  shows "load_document (Some (Doc (JObj d))) job = d"
  using assms by (simp add: load_document_def setdefault_def)

lemma load_document_cases: "(\<exists>d. raw = Some (Doc (JObj d))) \<or> load_document raw job = empty_document job"
  by (auto simp: load_document_def split: option.splits blob.splits json.splits)

lemma setdefault_has: "dhas (setdefault k v d) j \<longleftrightarrow> j = k \<or> dhas d j"
  by (auto simp: setdefault_def)

lemma load_document_has: "dhas (load_document raw job) ''schema_version''" "dhas (load_document raw job) ''job_id''"
proof -
  have "dhas (load_document raw job) ''schema_version'' \<and> dhas (load_document raw job) ''job_id''"
    using load_document_cases [of raw job]
  proof
    assume "load_document raw job = empty_document job"
    then show ?thesis by (simp add: empty_document_def dhas_def)
  next
    assume "\<exists>d. raw = Some (Doc (JObj d))"
    then obtain d where d: "raw = Some (Doc (JObj d))" by blast
    show ?thesis by (simp add: d load_document_def setdefault_has Let_def)
  qed
  then show "dhas (load_document raw job) ''schema_version''" "dhas (load_document raw job) ''job_id''" by simp_all
qed

lemma emit_progress_step:
  defines "ev \<equiv> \<lambda>st job em. event_to_dict (next_seq (events_in st job)) em"
  shows "\<exists>st'. emit_progress NoFault st job em = (Inr (Some (ev st job em)), st')
    \<and> events_in st' job = bounded_append (events_in st job) (JObj (ev st job em))
    \<and> tasks_in st' job = update_tasks em (ev st job em) (tasks_in st job)
    \<and> dget (load_document (st' (progress_path job)) job) ''current'' = JObj (without_seq (ev st job em))
    \<and> read_progress st' job = Some (load_document (st' (progress_path job)) job)
    \<and> (\<forall>p. p \<noteq> progress_path job \<longrightarrow> st' p = st p)"
proof -
  define doc where "doc = load_document (st (progress_path job)) job"
  define e where "e = ev st job em"
  have ev: "e = event_to_dict (next_seq (list_of (dget doc ''events''))) em"
    by (simp add: e_def ev_def events_in_def doc_def)
  define d3 where "d3 = dset ''updated_at'' (JStr (iso_seconds (em_at em))) (dset ''current'' (JObj (without_seq e))
      (dset ''events'' (JList (bounded_append (list_of (dget doc ''events'')) (JObj e))) doc))"
  define d4 where "d4 = (if em_task_id em = None then d3
      else dset ''tasks'' (JObj (update_tasks em e (dict_of (dget d3 ''tasks'')))) d3)"
  have run: "emit_apply job em [] (st (progress_path job)) = (e, Inr (Doc (JObj d4)))"
    by (simp add: emit_apply_def d4_def d3_def ev Let_def captured_event flip: doc_def)
  have t: "is_dict (dget doc ''tasks'')" "dhas doc ''schema_version''" "dhas doc ''job_id''"
    by (simp_all add: doc_def load_document_shape load_document_has)
  have d4: "load_document (Some (Doc (JObj d4))) job = d4"
    by (rule load_document_idem) (use t in \<open>auto simp: d4_def d3_def\<close>)
  have none: "update_tasks em e (dict_of (dget doc ''tasks'')) = dict_of (dget doc ''tasks'')" if "em_task_id em = None"
    using that by (simp add: update_tasks_def)
  define st' where "st' = st(progress_path job \<mapsto> Doc (JObj d4))"
  have "emit_progress NoFault st job em = (Inr (Some e), st')"
    by (simp add: emit_progress_def faulty_update_def local_update_def run st'_def ev event_to_dict_nonempty)
  moreover have "events_in st' job = bounded_append (events_in st job) (JObj e)"
    by (simp add: events_in_def st'_def d4 flip: doc_def) (simp add: d4_def d3_def)
  moreover have "tasks_in st' job = update_tasks em e (tasks_in st job)"
    using none by (simp add: tasks_in_def st'_def d4 flip: doc_def) (simp add: d4_def d3_def)
  moreover have "dget (load_document (st' (progress_path job)) job) ''current'' = JObj (without_seq e)"
    by (simp add: st'_def d4) (simp add: d4_def d3_def)
  moreover have "read_progress st' job = Some (load_document (st' (progress_path job)) job)"
    by (simp add: read_progress_def st'_def)
  ultimately show ?thesis unfolding e_def by (auto simp: st'_def)
qed

text \<open>Emission.  Whatever the stored document holds, an emission without a storage fault
  returns the stored event; its number is above every number in the log, it ends the log, the log
  keeps the newest events and at most \<open>MAX_EVENTS\<close>, and no other blob changes.  A storage error is
  swallowed and gives \<open>None\<close>.\<close>

theorem emit_appends_event:
  "(\<exists>ev st'. emit_progress NoFault st job em = (Inr (Some ev), st')
      \<and> safe_seq (JObj ev) = Some (next_seq (events_in st job))
      \<and> list_all (\<lambda>e. case safe_seq e of Some n \<Rightarrow> n < next_seq (events_in st job) | None \<Rightarrow> True) (events_in st job)
      \<and> suffix (events_in st' job) (events_in st job @ [JObj ev]) \<and> last (events_in st' job) = JObj ev
      \<and> length (events_in st' job) = min MAX_EVENTS (length (events_in st job) + 1)
      \<and> dget (load_document (st' (progress_path job)) job) ''current'' = JObj (without_seq ev)
      \<and> (\<forall>p. p \<noteq> progress_path job \<longrightarrow> st' p = st p))
   \<and> (exn_is c PyException \<longrightarrow> emit_progress (FailBefore (Raise c msg)) st job em = (Inr None, st))"
proof
  obtain st' where st': "emit_progress NoFault st job em = (Inr (Some (event_to_dict (next_seq (events_in st job)) em)), st')"
      "events_in st' job = bounded_append (events_in st job) (JObj (event_to_dict (next_seq (events_in st job)) em))"
      "dget (load_document (st' (progress_path job)) job) ''current''
        = JObj (without_seq (event_to_dict (next_seq (events_in st job)) em))"
      "\<forall>p. p \<noteq> progress_path job \<longrightarrow> st' p = st p"
    using emit_progress_step [of st job em] by blast
  have "list_all (\<lambda>e. case safe_seq e of Some n \<Rightarrow> n < next_seq (events_in st job) | None \<Rightarrow> True) (events_in st job)"
    by (auto simp: list_all_iff next_seq_bound split: option.splits)
  moreover have "suffix (bounded_append es e) (es @ [e])" "last (bounded_append es e) = e"
      "length (bounded_append es e) = min MAX_EVENTS (length es + 1)" for es e
    by (auto simp: bounded_append_def Let_def suffix_drop MAX_EVENTS_def)
  ultimately show "\<exists>ev st'. emit_progress NoFault st job em = (Inr (Some ev), st')
      \<and> safe_seq (JObj ev) = Some (next_seq (events_in st job))
      \<and> list_all (\<lambda>e. case safe_seq e of Some n \<Rightarrow> n < next_seq (events_in st job) | None \<Rightarrow> True) (events_in st job)
      \<and> suffix (events_in st' job) (events_in st job @ [JObj ev]) \<and> last (events_in st' job) = JObj ev
      \<and> length (events_in st' job) = min MAX_EVENTS (length (events_in st job) + 1)
      \<and> dget (load_document (st' (progress_path job)) job) ''current'' = JObj (without_seq ev)
      \<and> (\<forall>p. p \<noteq> progress_path job \<longrightarrow> st' p = st p)"
    using st' by (intro exI conjI) (assumption | simp)+
qed (simp add: emit_progress_def faulty_update_def)

definition sample_emission :: emission where
  "sample_emission = \<lparr>em_stage = ''synthesis'', em_phase = None, em_segment_index = Some 2, em_segment_total = Some 8,
     em_percent = None, em_task_id = Some ''t'', em_task_status = None, em_message = None, em_at = 0\<rparr>"

theorem emit_appends_event_witness:
  "\<exists>ev st'. emit_progress NoFault (\<lambda>_. Some Corrupt) ''j'' sample_emission = (Inr (Some ev), st')
      \<and> safe_seq (JObj ev) = Some 1"
proof -
  have "events_in (\<lambda>_. Some Corrupt) ''j'' = []" by (simp add: events_in_def load_document_def empty_document_def)
  then show ?thesis
    using emit_appends_event [of "\<lambda>_. Some Corrupt" "''j''" sample_emission ValueErr "[]"]
    by (auto simp: next_seq_def)
qed

section \<open>Polling\<close>

text \<open>A run of emissions: the events they returned and the final store.\<close>

fun run_emits :: "string \<Rightarrow> emission list \<Rightarrow> store \<Rightarrow> dict list \<times> store" where
  "run_emits job [] st = ([], st)"
| "run_emits job (em # ems) st =
     (case emit_progress NoFault st job em of
        (Inr (Some ev), st1) \<Rightarrow> (let (evs, st2) = run_emits job ems st1 in (ev # evs, st2))
      | (_, st1) \<Rightarrow> run_emits job ems st1)"

text \<open>The log is some older events, none above \<open>after\<close>, followed by the new ones numbered upwards.\<close>

definition log_since :: "int \<Rightarrow> dict list \<Rightarrow> json list \<Rightarrow> bool" where
  "log_since after new es \<longleftrightarrow> (\<exists>old. es = old @ map JObj new
     \<and> list_all (\<lambda>e. case safe_seq e of Some n \<Rightarrow> n \<le> after | None \<Rightarrow> True) old)
     \<and> map (\<lambda>e. safe_seq (JObj e)) new = map (\<lambda>i. Some (after + 1 + int i)) [0..<length new]
     \<and> next_seq es = after + 1 + int (length new)"

lemma log_since_append:
  assumes "log_since after new es" "length new < MAX_EVENTS" "0 \<le> after"
    and "ev = event_to_dict (next_seq es) em"
  shows "log_since after (new @ [ev]) (bounded_append es (JObj ev))"
proof -
  obtain old where old: "es = old @ map JObj new"
      "list_all (\<lambda>e. case safe_seq e of Some n \<Rightarrow> n \<le> after | None \<Rightarrow> True) old"
    using assms(1) by (auto simp: log_since_def)
  have seqs: "map (\<lambda>e. safe_seq (JObj e)) new = map (\<lambda>i. Some (after + 1 + int i)) [0..<length new]"
    and nxt: "next_seq es = after + 1 + int (length new)"
    using assms(1) by (auto simp: log_since_def)
  have ev: "safe_seq (JObj ev) = Some (after + 1 + int (length new))" by (simp add: assms(4) nxt)
  obtain k where k: "bounded_append es (JObj ev) = drop k old @ map JObj (new @ [ev])"
  proof
    show "bounded_append es (JObj ev) = drop (length es + 1 - MAX_EVENTS) old @ map JObj (new @ [ev])"
      using assms(2) by (auto simp: bounded_append_def Let_def old)
  qed
  have "list_all (\<lambda>e. case safe_seq e of Some n \<Rightarrow> n \<le> after | None \<Rightarrow> True) (drop k old)"
    using old(2) by (auto simp: list_all_iff dest: in_set_dropD)
  moreover have "next_seq (drop k old @ map JObj (new @ [ev])) = after + 1 + int (length new) + 1"
  proof -
    have "n < after + 1 + int (length new)" if "e \<in> set (drop k old @ map JObj new)" "safe_seq e = Some n" for e n
      using that next_seq_bound [of e es n] nxt by (auto simp: old(1) dest: in_set_dropD)
    then have "next_seq ((drop k old @ map JObj new) @ [JObj ev]) = after + 1 + int (length new) + 1"
      using assms(3) by (intro next_seq_snoc [OF _ _ ev]) auto
    then show ?thesis by simp
  qed
  ultimately show ?thesis
    using seqs ev unfolding log_since_def k by (intro conjI exI [of _ "drop k old"]) simp_all
qed

lemma run_emits_log:
  "log_since after new (events_in st job) \<Longrightarrow> length new + length ems \<le> MAX_EVENTS \<Longrightarrow> 0 \<le> after \<Longrightarrow>
   run_emits job ems st = (evs, st') \<Longrightarrow> log_since after (new @ evs) (events_in st' job) \<and> length evs = length ems
     \<and> (ems \<noteq> [] \<longrightarrow> (\<exists>d. read_progress st' job = Some d))"
proof (induction ems arbitrary: st new evs)
  case Nil
  then show ?case by simp
next
  case (Cons em ems)
  define ev where "ev = event_to_dict (next_seq (events_in st job)) em"
  obtain st1 where st1: "emit_progress NoFault st job em = (Inr (Some ev), st1)"
      "events_in st1 job = bounded_append (events_in st job) (JObj ev)"
      "read_progress st1 job = Some (load_document (st1 (progress_path job)) job)"
    using emit_progress_step [of st job em] by (auto simp: ev_def)
  obtain es where es: "run_emits job ems st1 = (es, st')" "evs = ev # es"
    using Cons.prems(4) by (auto simp: st1 split: prod.splits)
  have "log_since after (new @ [ev]) (events_in st1 job)"
    unfolding st1(2) by (rule log_since_append [OF Cons.prems(1)]) (use Cons.prems ev_def in auto)
  from Cons.IH [OF this _ Cons.prems(3) es(1)] Cons.prems(2) es st1(3) show ?case
    by (cases "ems = []") auto
qed

lemma log_since_start:
  "log_since (next_seq es - 1) [] es"
  using next_seq_bound [of _ es]
  by (auto simp: log_since_def list_all_iff split: option.splits)

lemma filter_log_since: "log_since after new es \<Longrightarrow> filter_events_since es after = map JObj new"
proof -
  assume l: "log_since after new es"
  then obtain old where old: "es = old @ map JObj new"
      "list_all (\<lambda>e. case safe_seq e of Some n \<Rightarrow> n \<le> after | None \<Rightarrow> True) old"
    by (auto simp: log_since_def)
  have seqs: "map (\<lambda>e. safe_seq (JObj e)) new = map (\<lambda>i. Some (after + 1 + int i)) [0..<length new]"
    using l by (simp add: log_since_def)
  have "\<exists>n. safe_seq (JObj e) = Some n \<and> after < n" if "e \<in> set new" for e
  proof -
    from that obtain i where i: "i < length new" "new ! i = e" by (auto simp: in_set_conv_nth)
    then have "safe_seq (JObj e) = Some (after + 1 + int i)"
      using arg_cong [OF seqs, of "\<lambda>xs. xs ! i"] by simp
    then show ?thesis by simp
  qed
  then have "filter_events_since (map JObj new) after = map JObj new"
    by (fastforce simp: filter_events_since_def intro!: filter_True)
  moreover have "filter_events_since old after = []"
    using old(2) by (auto simp: filter_events_since_def list_all_iff filter_empty_conv split: option.splits)
  ultimately show ?thesis by (simp add: filter_events_since_def old(1))
qed

text \<open>Polling loses and repeats nothing.  A consumer that has seen the log up to its highest
  number and polls after at most \<open>MAX_EVENTS\<close> further emissions receives exactly the emitted events, in
  order, numbered consecutively from there.\<close>

theorem poll_sees_exactly_the_new_events:
  assumes "run_emits job ems st = (evs, st')" "length ems \<le> MAX_EVENTS" "ems \<noteq> []"
  shows "events_since st' job (next_seq (events_in st job) - 1) = map JObj evs
    \<and> map (\<lambda>e. safe_seq (JObj e)) evs = map (\<lambda>i. Some (next_seq (events_in st job) + int i)) [0..<length ems]"
proof -
  define after where "after = next_seq (events_in st job) - 1"
  have a: "0 \<le> after" using next_seq_pos [of "events_in st job"] by (simp add: after_def)
  have l: "log_since after evs (events_in st' job)" "length evs = length ems"
      "\<exists>d. read_progress st' job = Some d"
    using run_emits_log [OF log_since_start [of "events_in st job"], folded after_def, of ems evs st'] assms a by auto
  then have r: "read_progress st' job = Some (load_document (st' (progress_path job)) job)"
    by (auto simp: read_progress_def split: option.splits if_splits)
  have "load_document (st' (progress_path job)) job \<noteq> []"
    using load_document_has(1) [of "st' (progress_path job)" job] by (auto simp: dhas_def)
  then have "events_since st' job after = filter_events_since (events_in st' job) after"
    by (simp add: events_since_def r load_document_shape events_in_def)
  then show ?thesis
    using filter_log_since [OF l(1)] l(1,2) by (simp add: log_since_def flip: after_def) (simp add: after_def)
qed

theorem poll_sees_exactly_the_new_events_witness:
  "\<exists>evs st'. run_emits ''j'' [sample_emission, sample_emission] (\<lambda>_. None) = (evs, st')
    \<and> events_since st' ''j'' 0 = map JObj evs \<and> map (\<lambda>e. safe_seq (JObj e)) evs = [Some 1, Some 2]"
proof -
  obtain evs st' where run: "run_emits ''j'' [sample_emission, sample_emission] (\<lambda>_. None) = (evs, st')" by fastforce
  have "next_seq (events_in (\<lambda>_. None) ''j'') = 1"
    by (simp add: events_in_def load_document_def empty_document_def next_seq_def)
  then show ?thesis
    using poll_sees_exactly_the_new_events [OF run] run by (simp add: MAX_EVENTS_def)
qed

section \<open>Tasks in flight\<close>

lemma tasks_read: "read_progress st job = Some (load_document (st (progress_path job)) job) \<Longrightarrow>
    in_flight_tasks (read_progress st job) = tasks_in st job"
  using load_document_shape(2) [of "st (progress_path job)" job]
  by (cases "dget (load_document (st (progress_path job)) job) ''tasks''") (auto simp: in_flight_tasks_def tasks_in_def)

text \<open>The in-flight map.  An emission for a task puts it in flight with its latest event unless its
  status is terminal, then it takes the task out; every other task stays as it was, and an emission
  without a task changes no task, whatever status it carries.\<close>

theorem in_flight_is_exact:
  "\<exists>ev st'. emit_progress NoFault st job em = (Inr (Some ev), st')
    \<and> (\<forall>k. map_of (in_flight_tasks (read_progress st' job)) k =
         (if em_task_id em \<noteq> Some k then map_of (tasks_in st job) k
          else if em_task_status em = Some ''done'' \<or> em_task_status em = Some ''failed'' then None
          else Some (JObj (without_seq ev))))
    \<and> (\<forall>k. em_task_id em = None \<longrightarrow> map_of ev ''task_status'' = None)"
proof -
  define ev where "ev = event_to_dict (next_seq (events_in st job)) em"
  obtain st' where st': "emit_progress NoFault st job em = (Inr (Some ev), st')"
      "tasks_in st' job = update_tasks em ev (tasks_in st job)"
      "read_progress st' job = Some (load_document (st' (progress_path job)) job)"
    using emit_progress_step [of st job em] by (auto simp: ev_def)
  have "map_of ev ''task_status'' = None" if "em_task_id em = None"
    using that by (auto simp: ev_def event_to_dict_def resolved_status_def map_of_eq_None_iff)
  then show ?thesis
    using st'(1) tasks_read [OF st'(3)] unfolding st'(2)
    by (auto simp: update_tasks_def resolved_status_def task_terminal_def RUNNING_def split: option.splits)
qed

theorem in_flight_is_exact_witness:
  "\<exists>ev st'. emit_progress NoFault (\<lambda>_. None) ''j'' (sample_emission\<lparr>em_task_id := None\<rparr>) = (Inr (Some ev), st')
    \<and> map_of ev ''task_status'' = None"
  using in_flight_is_exact [of "\<lambda>_. None" "''j''" "sample_emission\<lparr>em_task_id := None\<rparr>"] by auto

section \<open>Percent and estimate\<close>

lemma py_round_to_bounds:
  assumes "0 \<le> x" "x \<le> of_int b"
  shows "0 \<le> py_round_to 1 x" "py_round_to 1 x \<le> of_int b"
proof -
  have "0 \<le> py_round (x * 10)" using assms(1) by (intro py_round_nonneg) simp
  then show "0 \<le> py_round_to 1 x" by (simp add: py_round_to_def)
  have "x * 10 \<le> of_int (b * 10)" using assms(2) by simp
  then have "py_round (x * 10) \<le> py_round (of_int (b * 10))" by (rule py_round_mono)
  then have "py_round (x * 10) \<le> b * 10" by (simp only: py_round_of_int)
  then have "of_int (py_round (x * 10)) \<le> (of_int (b * 10) :: rat)" by (simp only: of_int_le_iff)
  then show "py_round_to 1 x \<le> of_int b" by (simp add: py_round_to_def)
qed

text \<open>Percent.  A stored percentage lies between 0 and 100 whatever the caller passes, is 100 once
  the segment counter reaches the total, and needs a given percentage or a positive total.\<close>

theorem percent_in_range:
  "(case derive_percent p i n of None \<Rightarrow> True | Some q \<Rightarrow> 0 \<le> q \<and> q \<le> 100)
   \<and> (derive_percent p i n = None) = (p = None \<and> (i = None \<or> n = None \<or> the n \<le> 0))
   \<and> (0 < m \<and> m \<le> k \<longrightarrow> derive_percent None (Some k) (Some m) = Some 100)"
proof -
  have b: "0 \<le> py_round_to 1 (100 * of_int (max 0 (min a b)) / of_int b) \<and>
      py_round_to 1 (100 * of_int (max 0 (min a b)) / of_int b) \<le> 100" if "0 < b" for a b :: int
  proof -
    define c where "c = max 0 (min a b)"
    have c: "0 \<le> c" "c \<le> b" using that by (auto simp: c_def)
    have "0 \<le> 100 * of_int c / (of_int b :: rat)" using c(1) that by simp
    moreover have "100 * of_int c / (of_int b :: rat) \<le> of_int 100"
      using c(2) that by (simp add: divide_le_eq)
    ultimately show ?thesis using py_round_to_bounds [of "100 * of_int c / of_int b" 100] by (simp add: c_def)
  qed
  have "derive_percent None (Some k) (Some m) = Some 100" if "0 < m" "m \<le> k"
  proof -
    have "max 0 (min k m) = m" using that by simp
    then show ?thesis using that(1) py_round_of_int [of 1000] by (simp add: derive_percent_def py_round_to_def)
  qed
  moreover have "case derive_percent p i n of None \<Rightarrow> True | Some q \<Rightarrow> 0 \<le> q \<and> q \<le> 100"
    using b by (simp add: derive_percent_def split: option.split)
  moreover have "(derive_percent p i n = None) = (p = None \<and> (i = None \<or> n = None \<or> the n \<le> 0))"
    by (auto simp: derive_percent_def split: option.splits)
  ultimately show ?thesis by blast
qed

theorem percent_in_range_witness: "derive_percent None (Some 9) (Some 8) = Some 100"
  using percent_in_range [of None None None 8 9] by simp

lemma project_eta_ok:
  assumes "project_eta now started don tot = Inr (remaining, eta)" "0 < don" "don < tot"
  shows "remaining = None \<and> eta = None
    \<or> (\<exists>r. remaining = Some r \<and> 0 \<le> r \<and> eta = Some (iso_seconds (now + py_round (r * 1000000))))"
proof -
  define x where "x = max (total_seconds (now - started)) 0 / of_int don * of_int (tot - don)"
  have "0 \<le> x" using assms(2,3) by (simp add: x_def)
  then have nn: "0 \<le> py_round_to 1 x" using py_round_nonneg [of "x * 10"] by (simp add: py_round_to_def)
  have step: "project_eta now started don tot =
      (if max (total_seconds (now - started)) 0 \<le> 0 then Inr (None, None)
       else if valid_instant (now + py_round (py_round_to 1 x * 1000000))
       then Inr (Some (py_round_to 1 x), Some (iso_seconds (now + py_round (py_round_to 1 x * 1000000))))
       else Inl (Raise OverflowErr ''date value out of range''))"
    unfolding project_eta_def Let_def x_def by (rule refl)
  show ?thesis
    using assms(1) nn unfolding step by (auto split: if_splits)
qed

text \<open>Estimate.  A computed estimate is never negative, and the completion time it names is exactly
  that many seconds from now; the two are given together or not at all, and a finished stage or a
  full segment counter gives zero remaining.\<close>

theorem eta_is_consistent:
  assumes "compute_eta doc now = Inr (remaining, eta)"
  shows "(remaining = None) = (eta = None)
    \<and> (case remaining of None \<Rightarrow> True
       | Some r \<Rightarrow> 0 \<le> r \<and> eta = Some (iso_seconds (now + py_round (r * 1000000))))
    \<and> (in_terminal_set (dget (current_event doc) ''stage'') = Inr True \<longrightarrow> remaining = Some 0)"
proof -
  have z: "now + py_round (0 * 1000000) = now" by simp
  obtain terminal where t: "in_terminal_set (dget (current_event doc) ''stage'') = Inr terminal"
    using assms by (auto simp: compute_eta_def Let_def and_then_Inr_conv)
  show ?thesis
  proof (cases terminal)
    case True
    then show ?thesis using assms t z by (auto simp: compute_eta_def Let_def)
  next
    case False
    have "remaining = None \<and> eta = None
        \<or> (\<exists>r. remaining = Some r \<and> 0 \<le> r \<and> eta = Some (iso_seconds (now + py_round (r * 1000000))))"
      using assms t False z
      by (auto simp: compute_eta_def Let_def simp del: mult_zero_left split: if_splits option.splits
          dest!: project_eta_ok)
    then show ?thesis using t False by auto
  qed
qed

definition sample_progress :: dict where
  "sample_progress = [(''current'', JObj [(''stage'', JStr ''completed'')]), (''events'', JList [])]"

theorem eta_is_consistent_witness:
  "\<exists>eta. compute_eta sample_progress 0 = Inr (Some 0, eta) \<and> eta = Some (iso_seconds (0 + py_round (0 * 1000000)))"
proof -
  have run: "compute_eta sample_progress 0 = Inr (Some 0, Some (iso_seconds 0))"
    by (simp add: compute_eta_def sample_progress_def current_event_def in_terminal_set_def stage_terminal_def Let_def)
  from eta_is_consistent [OF run] show ?thesis using run by simp
qed

end
