(* ===== verification/Ownership.thy ===== *)
theory Ownership
  imports BlobStore
begin

text \<open>
  \<open>podcaster/video/ownership.py\<close>: the durable, fenced claim on the downstream work of a video job and
  the permits for its boundaries.  A guard is its claim; the successive readings of its clock are the
  values \<open>clock 0\<close>, \<open>clock 1\<close>, \<dots> of one call, UUIDs are parameters.  \<open>datetime\<close> arithmetic with
  the five-second reserve is taken without the upper end of its range.
\<close>

section \<open>Data and timestamps\<close>

definition OWNERSHIP_SCHEMA_VERSION :: string where
  "OWNERSHIP_SCHEMA_VERSION = ''squadscope-video-downstream-ownership-v2''"

definition EXPIRY_RESERVE :: int where
  "EXPIRY_RESERVE = micros 5"

record ownership_claim =
  oc_job_id :: string
  oc_owner :: string
  oc_claim_id :: string
  oc_execution_id :: string
  oc_fencing_token :: int

record boundary_permit =
  pm_name :: string
  pm_permit_id :: string
  pm_fencing_token :: int
  pm_reconcile_only :: bool

definition own_err :: "string \<Rightarrow> exn" where
  "own_err msg = Raise OwnershipErr msg"

definition ownership_path :: "string \<Rightarrow> string" where
  "ownership_path job = ''jobs/'' @ job @ ''/video/downstream-ownership.json''"

fun iso_stamp :: "stamp \<Rightarrow> string res" where
  "iso_stamp (Naive t) = Inl (own_err ''ownership expiry must be timezone-aware'')"
| "iso_stamp (Aware t) = (if valid_instant t then Inr (iso_z t) else Inl (Raise OverflowErr ''date value out of range''))"

definition parse_time :: "json \<Rightarrow> int option res" where
  "parse_time v = (case v of
     JStr s \<Rightarrow>
       (case fromisoformat (py_replace ''Z'' ''+00:00'' s) of
          Some (Aware t) \<Rightarrow> (if valid_instant t then Inr (Some t) else Inl (Raise OverflowErr ''date value out of range''))
        | _ \<Rightarrow> Inr None)
   | _ \<Rightarrow> Inr None)"

interpretation expiry_notation: instant_notation iso_z
  "\<lambda>v. and_then (parse_time v) (\<lambda>t. case t of None \<Rightarrow> Inl (own_err ''ownership expiry is malformed'') | Some t \<Rightarrow> Inr t)"
  by unfold_locales (simp add: parse_time_def iso_z_offset fromisoformat_isoformat)

lemma parse_time_iso_z [simp]: "valid_instant t \<Longrightarrow> parse_time (JStr (iso_z t)) = Inr (Some t)"
  using expiry_notation.read_print [of t] by (auto simp: and_then_Inr_conv split: option.splits)

definition load_ownership :: "blob option \<Rightarrow> dict res" where
  "load_ownership raw =
     (case raw of
        None \<Rightarrow> Inr []
      | Some b \<Rightarrow>
         (case loads b of
            None \<Rightarrow> Inl (own_err ''ownership record is corrupt'')
          | Some (JObj d) \<Rightarrow>
              (if d \<noteq> [] \<and> dget d ''schema_version'' \<noteq> JStr OWNERSHIP_SCHEMA_VERSION
               then Inl (own_err ''ownership record schema is unsupported'') else Inr d)
          | Some _ \<Rightarrow> Inl (own_err ''ownership record is malformed'')))"

section \<open>The current claim\<close>

text \<open>\<open>a <= b\<close> where \<open>a\<close> may be \<open>None\<close>: comparing \<open>None\<close> raises \<open>TypeError\<close>.\<close>

definition le_time :: "int option \<Rightarrow> int \<Rightarrow> bool res" where
  "le_time a b = (case a of None \<Rightarrow> Inl (Raise TypeErr ''comparison with None'') | Some t \<Rightarrow> Inr (t \<le> b))"

definition claim_matches :: "ownership_claim \<Rightarrow> dict \<Rightarrow> dict \<Rightarrow> bool" where
  "claim_matches c document current \<longleftrightarrow>
     is_exact_int (dget document ''fencing_token'') \<and> is_exact_int (dget current ''fencing_token'')
     \<and> dget document ''job_id'' = JStr (oc_job_id c)
     \<and> dget document ''fencing_token'' = JInt (oc_fencing_token c)
     \<and> dget current ''owner'' = JStr (oc_owner c)
     \<and> dget current ''claim_id'' = JStr (oc_claim_id c)
     \<and> dget current ''execution_id'' = JStr (oc_execution_id c)
     \<and> dget current ''fencing_token'' = JInt (oc_fencing_token c)"

definition expired :: "dict \<Rightarrow> int option \<Rightarrow> int option \<Rightarrow> int option \<Rightarrow> int \<Rightarrow> bool" where
  "expired current visibility lease editor safe_now =
     (\<not> dhas current ''editor_expires_at''
      \<or> (dget current ''editor_expires_at'' \<noteq> JNull \<and> editor = None)
      \<or> visibility = None \<or> lease = None
      \<or> the visibility < the lease
      \<or> (case editor of None \<Rightarrow> False | Some e \<Rightarrow> e < the lease \<or> e \<le> safe_now)
      \<or> the visibility \<le> safe_now \<or> the lease \<le> safe_now)"

definition require_current :: "ownership_claim \<Rightarrow> dict \<Rightarrow> int \<Rightarrow> unit res" where
  "require_current c document now =
     (case dget document ''claim'' of
        JObj current \<Rightarrow>
          (if \<not> claim_matches c document current then Inl (own_err ''ownership claim is stale'')
           else
             and_then (parse_time (dget current ''visibility_expires_at'')) (\<lambda>visibility.
             and_then (parse_time (dget current ''lease_expires_at'')) (\<lambda>lease.
             and_then (if dget current ''editor_expires_at'' = JNull then Inr None
                       else parse_time (dget current ''editor_expires_at'')) (\<lambda>editor.
             if expired current visibility lease editor (now + EXPIRY_RESERVE)
             then Inl (own_err ''ownership claim has expired'') else Inr ()))))
      | _ \<Rightarrow> Inl (own_err ''ownership claim is missing''))"

definition assert_current :: "ownership_claim \<Rightarrow> store \<Rightarrow> int \<Rightarrow> unit res" where
  "assert_current c st now =
     (case st (ownership_path (oc_job_id c)) of
        None \<Rightarrow> Inl (own_err ''ownership readback is unavailable'')
      | Some b \<Rightarrow> and_then (load_ownership (Some b)) (\<lambda>d. require_current c d now))"

text \<open>Every guarded operation loads the record and demands the current claim first.\<close>

definition guarded :: "ownership_claim \<Rightarrow> blob option \<Rightarrow> int \<Rightarrow> dict res" where
  "guarded c raw now = and_then (load_ownership raw) (\<lambda>d. and_then (require_current c d now) (\<lambda>_. Inr d))"

section \<open>Acquisition\<close>

text \<open>\<open>return raw if raw is not None else b""\<close>.\<close>

definition raw_again :: "blob option \<Rightarrow> blob" where
  "raw_again raw = (case raw of None \<Rightarrow> Empty | Some b \<Rightarrow> b)"

text \<open>What the caller passes and what \<open>acquire\<close> computed of it before the update.\<close>

record acquisition =
  aq_job_id :: string
  aq_owner :: string
  aq_execution_id :: string
  aq_visibility :: string
  aq_lease :: string
  aq_editor :: json
  aq_claimed_at :: int
  aq_uuid :: string

text \<open>The live claim the record already holds: \<open>None\<close> when there is none or it has run out.\<close>

definition live_claim :: "dict \<Rightarrow> int \<Rightarrow> dict option res" where
  "live_claim document claimed_at =
     (case dget document ''claim'' of
        JObj current \<Rightarrow>
          and_then (parse_time (dget current ''visibility_expires_at'')) (\<lambda>visibility.
          and_then (parse_time (dget current ''lease_expires_at'')) (\<lambda>lease.
          (case (visibility, lease) of
             (Some v, Some l) \<Rightarrow>
               Inr (if claimed_at + EXPIRY_RESERVE < min v l then Some current else None)
           | _ \<Rightarrow> Inl (own_err ''ownership expiry is malformed''))))
      | _ \<Rightarrow> Inr None)"

definition new_claim :: "acquisition \<Rightarrow> int \<Rightarrow> dict" where
  "new_claim a token =
     [(''owner'', JStr (aq_owner a)), (''claim_id'', JStr (aq_uuid a)),
      (''execution_id'', JStr (aq_execution_id a)), (''fencing_token'', JInt token),
      (''visibility_expires_at'', JStr (aq_visibility a)), (''lease_expires_at'', JStr (aq_lease a)),
      (''editor_expires_at'', aq_editor a), (''claimed_at'', JStr (iso_z (aq_claimed_at a)))]"

definition claim_callback :: "acquisition \<Rightarrow> dict callback" where
  "claim_callback a captured raw =
     (case and_then (load_ownership raw) (\<lambda>d. and_then (live_claim d (aq_claimed_at a)) (\<lambda>l. Inr (d, l))) of
        Inl e \<Rightarrow> (captured, Inl e)
      | Inr (document, Some current) \<Rightarrow>
          (if dget current ''owner'' \<noteq> JStr (aq_owner a) \<or> dget current ''execution_id'' \<noteq> JStr (aq_execution_id a)
           then (captured, Inl (own_err ''video job already has an active downstream owner''))
           else (dupdate captured current, Inr (raw_again raw)))
      | Inr (document, None) \<Rightarrow>
          (let fence = dget_or document ''fencing_token'' (JInt 0)
           in if \<not> is_exact_int fence \<or> int_value fence < 0
              then (captured, Inl (own_err ''ownership fencing token is malformed''))
              else
                (let token = int_value fence + 1; claim = new_claim a token
                 in (dupdate captured claim, Inr (Doc (JObj (dupdate document
                      [(''schema_version'', JStr OWNERSHIP_SCHEMA_VERSION),
                       (''job_id'', JStr (aq_job_id a)),
                       (''fencing_token'', JInt token),
                       (''claim'', JObj claim),
                       (''boundaries'', dget_or document ''boundaries'' (JObj [])),
                       (''updated_at'', JStr (iso_z (aq_claimed_at a)))])))))))"

text \<open>The argument checks of \<open>acquire\<close>, before the store is touched.\<close>

definition stamp_min :: "stamp \<Rightarrow> stamp \<Rightarrow> stamp res" where
  "stamp_min a b = (case (a, b) of
     (Aware s, Aware t) \<Rightarrow> Inr (Aware (min s t))
   | (Naive s, Naive t) \<Rightarrow> Inr (Naive (min s t))
   | _ \<Rightarrow> Inl (Raise TypeErr ''can't compare offset-naive and offset-aware datetimes''))"

definition prepare_acquisition ::
  "string \<Rightarrow> string \<Rightarrow> string \<Rightarrow> stamp \<Rightarrow> stamp option \<Rightarrow> int \<Rightarrow> string \<Rightarrow> acquisition res" where
  "prepare_acquisition job owner exec visibility lease claimed_at uuid =
     and_then (iso_stamp visibility) (\<lambda>vis.
     and_then (stamp_min (case lease of None \<Rightarrow> visibility | Some l \<Rightarrow> l) visibility) (\<lambda>effective.
     and_then (iso_stamp effective) (\<lambda>ls.
     and_then (case lease of None \<Rightarrow> Inr JNull | Some l \<Rightarrow> and_then (iso_stamp l) (\<lambda>s. Inr (JStr s))) (\<lambda>editor.
     and_then (and_then (parse_time (JStr vis)) (\<lambda>t. le_time t (claimed_at + EXPIRY_RESERVE))) (\<lambda>vis_over.
     and_then (if vis_over then Inr True
               else and_then (parse_time (JStr ls)) (\<lambda>t. le_time t (claimed_at + EXPIRY_RESERVE))) (\<lambda>over.
     if over then Inl (own_err ''ownership expiry has already elapsed'')
     else Inr \<lparr>aq_job_id = job, aq_owner = owner, aq_execution_id = exec, aq_visibility = vis, aq_lease = ls,
            aq_editor = editor, aq_claimed_at = claimed_at, aq_uuid = uuid\<rparr>))))))"

definition captured_claim :: "(json \<Rightarrow> string) \<Rightarrow> string \<Rightarrow> dict \<Rightarrow> ownership_claim res" where
  "captured_claim repr job captured =
     and_then (dindex captured ''owner'') (\<lambda>ow.
     and_then (dindex captured ''claim_id'') (\<lambda>cid.
     and_then (dindex captured ''execution_id'') (\<lambda>ex.
     and_then (and_then (dindex captured ''fencing_token'') py_int) (\<lambda>tok.
     Inr \<lparr>oc_job_id = job, oc_owner = py_str repr ow, oc_claim_id = py_str repr cid,
          oc_execution_id = py_str repr ex, oc_fencing_token = tok\<rparr>))))"

definition acquire ::
  "(json \<Rightarrow> string) \<Rightarrow> store \<Rightarrow> string \<Rightarrow> string \<Rightarrow> string \<Rightarrow> stamp \<Rightarrow> stamp option \<Rightarrow> (nat \<Rightarrow> int) \<Rightarrow> string
     \<Rightarrow> ownership_claim res \<times> store" where
  "acquire repr st job owner exec visibility lease clock uuid =
     (case prepare_acquisition job owner exec visibility lease (clock 0) uuid of
        Inl e \<Rightarrow> (Inl e, st)
      | Inr a \<Rightarrow>
         (case local_update (claim_callback a) [] st (ownership_path job) of
            (Inl e, _, st') \<Rightarrow> (Inl e, st')
          | (Inr _, captured, st') \<Rightarrow>
              (and_then (captured_claim repr job captured) (\<lambda>c.
                 and_then (assert_current c st' (clock 1)) (\<lambda>_. Inr c)), st')))"

section \<open>Refreshing\<close>

text \<open>A guarded update followed by the readback check that every mutation ends with.\<close>

definition set_claim_fields :: "dict \<Rightarrow> dict \<Rightarrow> dict" where
  "set_claim_fields document upd =
     dset ''claim'' (JObj (dupdate (case dget document ''claim'' of JObj c \<Rightarrow> c | _ \<Rightarrow> []) upd)) document"

definition claim_field :: "dict \<Rightarrow> string \<Rightarrow> json" where
  "claim_field document k = (case dget document ''claim'' of JObj c \<Rightarrow> dget c k | _ \<Rightarrow> JNull)"

definition refreshed_lease_document :: "stamp \<Rightarrow> int \<Rightarrow> int \<Rightarrow> dict \<Rightarrow> dict res" where
  "refreshed_lease_document expires now1 now2 document =
     and_then (parse_time (claim_field document ''visibility_expires_at'')) (\<lambda>visibility.
     case visibility of
       None \<Rightarrow> Inl (own_err ''visibility expiry is invalid'')
     | Some v \<Rightarrow>
         and_then (iso_stamp expires) (\<lambda>editor_text.
         and_then (parse_time (JStr editor_text)) (\<lambda>editor.
         and_then (stamp_min expires (Aware v)) (\<lambda>lesser.
         and_then (iso_stamp lesser) (\<lambda>refreshed.
         and_then (parse_time (JStr refreshed)) (\<lambda>lease.
         if lease = None \<or> the lease \<le> now1 + EXPIRY_RESERVE
         then Inl (own_err ''refreshed lease expiry is outside visibility authority'')
         else case editor of
           None \<Rightarrow> Inl (Raise AttributeErr ''tzinfo'')
         | Some e \<Rightarrow>
             Inr (dset ''updated_at'' (JStr (iso_z now2))
               (set_claim_fields document
                  [(''editor_expires_at'', JStr (iso_z e)), (''lease_expires_at'', JStr refreshed)]))))))))"

definition refresh_lease_callback :: "ownership_claim \<Rightarrow> stamp \<Rightarrow> (nat \<Rightarrow> int) \<Rightarrow> unit callback" where
  "refresh_lease_callback c expires clock u raw =
     (u, and_then (guarded c raw (clock 0)) (\<lambda>d.
         and_then (refreshed_lease_document expires (clock 1) (clock 2) d) (\<lambda>d'. Inr (Doc (JObj d')))))"

definition refresh_lease :: "ownership_claim \<Rightarrow> store \<Rightarrow> stamp \<Rightarrow> (nat \<Rightarrow> int) \<Rightarrow> unit res \<times> store" where
  "refresh_lease c st expires clock =
     (case local_update (refresh_lease_callback c expires clock) () st (ownership_path (oc_job_id c)) of
        (Inl e, _, st') \<Rightarrow> (Inl e, st')
      | (Inr _, _, st') \<Rightarrow> (assert_current c st' (clock 3), st'))"

definition refreshed_visibility_document :: "string \<Rightarrow> int \<Rightarrow> int \<Rightarrow> dict \<Rightarrow> dict res" where
  "refreshed_visibility_document visibility now1 now2 document =
     and_then (parse_time (JStr visibility)) (\<lambda>vis.
     and_then (le_time vis (now1 + EXPIRY_RESERVE)) (\<lambda>over.
     if over then Inl (own_err ''refreshed visibility has expired'')
     else
       and_then (if claim_field document ''editor_expires_at'' = JNull then Inr None
                 else parse_time (claim_field document ''editor_expires_at'')) (\<lambda>editor.
       let lease = (case editor of None \<Rightarrow> the vis | Some e \<Rightarrow> min (the vis) e)
       in Inr (dset ''updated_at'' (JStr (iso_z now2))
            (set_claim_fields document
               [(''visibility_expires_at'', JStr visibility), (''lease_expires_at'', JStr (iso_z lease))])))))"

definition refresh_visibility_callback :: "ownership_claim \<Rightarrow> string \<Rightarrow> (nat \<Rightarrow> int) \<Rightarrow> unit callback" where
  "refresh_visibility_callback c visibility clock u raw =
     (u, and_then (guarded c raw (clock 0)) (\<lambda>d.
         and_then (refreshed_visibility_document visibility (clock 1) (clock 2) d) (\<lambda>d'. Inr (Doc (JObj d')))))"

definition refresh_visibility :: "ownership_claim \<Rightarrow> store \<Rightarrow> stamp \<Rightarrow> (nat \<Rightarrow> int) \<Rightarrow> unit res \<times> store" where
  "refresh_visibility c st expires clock =
     (case iso_stamp expires of
        Inl e \<Rightarrow> (Inl e, st)
      | Inr visibility \<Rightarrow>
         (case local_update (refresh_visibility_callback c visibility clock) () st (ownership_path (oc_job_id c)) of
            (Inl e, _, st') \<Rightarrow> (Inl e, st')
          | (Inr _, _, st') \<Rightarrow> (assert_current c st' (clock 3), st')))"

section \<open>Boundaries\<close>

definition boundary_of :: "dict \<Rightarrow> string \<Rightarrow> json res" where
  "boundary_of document name =
     and_then (attr_dict (dget_or document ''boundaries'' (JObj []))) (\<lambda>bs. Inr (dget bs name))"

definition assert_permit :: "ownership_claim \<Rightarrow> store \<Rightarrow> boundary_permit \<Rightarrow> bool \<Rightarrow> int \<Rightarrow> unit res" where
  "assert_permit c st permit mutation now =
     (case st (ownership_path (oc_job_id c)) of
        None \<Rightarrow> Inl (own_err ''ownership readback is unavailable'')
      | Some raw \<Rightarrow>
          and_then (load_ownership (Some raw)) (\<lambda>document.
          and_then (require_current c document now) (\<lambda>_.
          and_then (boundary_of document (pm_name permit)) (\<lambda>b.
          case b of
            JObj boundary \<Rightarrow>
              (if dget boundary ''permit_id'' \<noteq> JStr (pm_permit_id permit)
                  \<or> \<not> py_eq (dget boundary ''fencing_token'') (JInt (pm_fencing_token permit))
               then Inl (own_err ''boundary permit is stale'')
               else if mutation \<and> (pm_reconcile_only permit
                       \<or> dget boundary ''claim_id'' \<noteq> JStr (oc_claim_id c)
                       \<or> dget boundary ''state'' \<noteq> JStr ''active'')
               then Inl (own_err ''boundary permit is reconciliation-only'')
               else Inr ())
          | _ \<Rightarrow> Inl (own_err ''boundary permit is missing'')))))"

definition new_permit :: "ownership_claim \<Rightarrow> string \<Rightarrow> string \<Rightarrow> int \<Rightarrow> dict option \<Rightarrow> dict" where
  "new_permit c name uuid now previous =
     [(''name'', JStr name), (''permit_id'', JStr uuid), (''claim_id'', JStr (oc_claim_id c)),
      (''execution_id'', JStr (oc_execution_id c)), (''fencing_token'', JInt (oc_fencing_token c)),
      (''state'', JStr ''active''), (''created_at'', JStr (iso_z now))]
     @ (case previous of None \<Rightarrow> [] | Some p \<Rightarrow> [(''reconciles_permit_id'', dget p ''permit_id'')])"

text \<open>\<open>_begin\<close>: keep an earlier permit of the same claim, refuse to take one over, or write a new one.\<close>

definition begin_callback ::
  "ownership_claim \<Rightarrow> string \<Rightarrow> bool \<Rightarrow> (nat \<Rightarrow> int) \<Rightarrow> string \<Rightarrow> dict callback" where
  "begin_callback c name takeover clock uuid captured raw =
     (case guarded c raw (clock 0) of
        Inl e \<Rightarrow> (captured, Inl e)
      | Inr document \<Rightarrow>
          (case dget_or document ''boundaries'' (JObj []) of
             JObj boundaries \<Rightarrow>
               (let previous = (case dget boundaries name of JObj p \<Rightarrow> Some p | _ \<Rightarrow> None);
                    same = (case previous of None \<Rightarrow> False
                      | Some p \<Rightarrow> dget p ''claim_id'' = JStr (oc_claim_id c)
                          \<and> py_eq (dget p ''fencing_token'') (JInt (oc_fencing_token c)));
                    permit = new_permit c name uuid (clock 1) previous
                in if same
                   then (dset ''reconcile_only'' (JBool (dget (the previous) ''state'' = JStr ''completed''))
                           (dupdate captured (the previous)), Inr (raw_again raw))
                   else if previous \<noteq> None \<and> \<not> takeover
                   then (dset ''reconcile_only'' (JBool True) (dupdate captured (the previous)), Inr (raw_again raw))
                   else (dset ''reconcile_only'' (JBool False) (dupdate captured permit),
                         Inr (Doc (JObj (dset ''updated_at'' (dget permit ''created_at'')
                                (dset ''boundaries'' (JObj (dset name (JObj permit) boundaries)) document))))))
           | _ \<Rightarrow> (captured, Inl (own_err ''ownership boundaries are malformed''))))"

definition captured_permit :: "(json \<Rightarrow> string) \<Rightarrow> string \<Rightarrow> dict \<Rightarrow> boundary_permit res" where
  "captured_permit repr name captured =
     and_then (dindex captured ''permit_id'') (\<lambda>pid.
     and_then (and_then (dindex captured ''fencing_token'') py_int) (\<lambda>tok.
     Inr \<lparr>pm_name = name, pm_permit_id = py_str repr pid, pm_fencing_token = tok,
          pm_reconcile_only = truthy (dget captured ''reconcile_only'')\<rparr>))"

definition begin_boundary ::
  "(json \<Rightarrow> string) \<Rightarrow> ownership_claim \<Rightarrow> store \<Rightarrow> string \<Rightarrow> bool \<Rightarrow> (nat \<Rightarrow> int) \<Rightarrow> string \<Rightarrow> boundary_permit res \<times> store" where
  "begin_boundary repr c st name takeover clock uuid =
     (case local_update (begin_callback c name takeover clock uuid) [] st (ownership_path (oc_job_id c)) of
        (Inl e, _, st') \<Rightarrow> (Inl e, st')
      | (Inr _, captured, st') \<Rightarrow>
          (and_then (captured_permit repr name captured) (\<lambda>permit.
           and_then (assert_permit c st' permit (\<not> pm_reconcile_only permit) (clock 2)) (\<lambda>_. Inr permit)), st'))"

definition completed_fields :: "string \<Rightarrow> int \<Rightarrow> dict" where
  "completed_fields target now = [(''state'', JStr ''completed''), (''target'', JStr target),
     (''completed_at'', JStr (iso_z now))]"

definition completed_document :: "ownership_claim \<Rightarrow> boundary_permit \<Rightarrow> string \<Rightarrow> int \<Rightarrow> dict \<Rightarrow> dict res" where
  "completed_document c permit target now document =
     and_then (boundary_of document (pm_name permit)) (\<lambda>b.
     case b of
       JObj boundary \<Rightarrow>
         (if dget boundary ''permit_id'' \<noteq> JStr (pm_permit_id permit)
             \<or> dget boundary ''claim_id'' \<noteq> JStr (oc_claim_id c)
             \<or> \<not> py_eq (dget boundary ''fencing_token'') (JInt (oc_fencing_token c))
          then Inl (own_err ''boundary permit is stale'')
          else
            (let boundary' = dupdate boundary (completed_fields target now);
                 boundaries = (case dget document ''boundaries'' of JObj bs \<Rightarrow> bs | _ \<Rightarrow> [])
             in Inr (dset ''updated_at'' (dget boundary' ''completed_at'')
                  (dset ''boundaries'' (JObj (dset (pm_name permit) (JObj boundary') boundaries)) document))))
     | _ \<Rightarrow> Inl (own_err ''boundary permit is missing''))"

definition complete_callback :: "ownership_claim \<Rightarrow> boundary_permit \<Rightarrow> string \<Rightarrow> (nat \<Rightarrow> int) \<Rightarrow> unit callback" where
  "complete_callback c permit target clock u raw =
     (u, and_then (guarded c raw (clock 0)) (\<lambda>d.
         and_then (completed_document c permit target (clock 1) d) (\<lambda>d'. Inr (Doc (JObj d')))))"

definition complete_boundary ::
  "ownership_claim \<Rightarrow> store \<Rightarrow> boundary_permit \<Rightarrow> string \<Rightarrow> (nat \<Rightarrow> int) \<Rightarrow> unit res \<times> store" where
  "complete_boundary c st permit target clock =
     (case local_update (complete_callback c permit target clock) () st (ownership_path (oc_job_id c)) of
        (Inl e, _, st') \<Rightarrow> (Inl e, st')
      | (Inr _, _, st') \<Rightarrow> (assert_permit c st' permit False (clock 2), st'))"

definition source_token :: "ownership_claim \<Rightarrow> store \<Rightarrow> boundary_permit \<Rightarrow> int \<Rightarrow> dict res" where
  "source_token c st permit now =
     and_then (assert_permit c st permit (\<not> pm_reconcile_only permit) now) (\<lambda>_.
     Inr [(''job_id'', JStr (oc_job_id c)), (''owner'', JStr (oc_owner c)), (''claim_id'', JStr (oc_claim_id c)),
          (''execution_id'', JStr (oc_execution_id c)), (''fencing_token'', JInt (oc_fencing_token c)),
          (''permit_name'', JStr (pm_name permit)), (''permit_id'', JStr (pm_permit_id permit))])"

section \<open>Fencing\<close>

text \<open>The fencing token a store holds for a job.\<close>

definition fence_in :: "store \<Rightarrow> string \<Rightarrow> int" where
  "fence_in st job = (case st (ownership_path job) of
     Some (Doc (JObj d)) \<Rightarrow> int_value (dget d ''fencing_token'') | _ \<Rightarrow> 0)"

definition fence_of :: "dict \<Rightarrow> int" where
  "fence_of d = int_value (dget d ''fencing_token'')"

lemma load_ownership_Inr:
  "load_ownership raw = Inr d \<Longrightarrow> raw = None \<and> d = [] \<or> raw = Some (Doc (JObj d))"
  by (cases raw; cases "the raw") (auto simp: load_ownership_def split: json.splits if_splits)

lemma fence_in_load: "load_ownership (st (ownership_path job)) = Inr d \<Longrightarrow> fence_in st job = fence_of d"
  by (drule load_ownership_Inr) (auto simp: fence_in_def fence_of_def)

lemma require_current_claim:
  assumes "require_current c d now = Inr u"
  shows "\<exists>current. dget d ''claim'' = JObj current \<and> claim_matches c d current"
  using assms by (auto simp: require_current_def split: json.splits if_splits)

lemma require_current_fence:
  "require_current c d now = Inr u \<Longrightarrow> fence_of d = oc_fencing_token c \<and> d \<noteq> []
     \<and> dget d ''job_id'' = JStr (oc_job_id c)"
  by (drule require_current_claim) (auto simp: claim_matches_def fence_of_def)

lemma raw_again_same: "raw \<noteq> None \<Longrightarrow> Some (raw_again raw) = raw"
  by (auto simp: raw_again_def)

lemma guarded_fence: "guarded c (st (ownership_path (oc_job_id c))) now = Inr d \<Longrightarrow>
    fence_in st (oc_job_id c) = oc_fencing_token c \<and> fence_of d = oc_fencing_token c
    \<and> st (ownership_path (oc_job_id c)) = Some (Doc (JObj d)) \<and> dget d ''job_id'' = JStr (oc_job_id c)"
  by (auto simp: guarded_def and_then_Inr_conv dest!: require_current_fence
      dest: load_ownership_Inr fence_in_load [of st "oc_job_id c"])

lemma refresh_lease_guarded:
  "snd (refresh_lease_callback c x clock u raw) = Inr b \<Longrightarrow>
     \<exists>d d'. guarded c raw (clock 0) = Inr d \<and> b = Doc (JObj d') \<and> fence_of d' = fence_of d"
  by (auto simp: refresh_lease_callback_def refreshed_lease_document_def and_then_Inr_conv set_claim_fields_def
      fence_of_def split: option.splits if_splits)

lemma refresh_visibility_guarded:
  "snd (refresh_visibility_callback c x clock u raw) = Inr b \<Longrightarrow>
     \<exists>d d'. guarded c raw (clock 0) = Inr d \<and> b = Doc (JObj d') \<and> fence_of d' = fence_of d"
  by (auto simp: refresh_visibility_callback_def refreshed_visibility_document_def and_then_Inr_conv
      set_claim_fields_def fence_of_def Let_def split: if_splits)

lemma begin_guarded:
  "snd (begin_callback c name takeover clock uuid captured raw) = Inr b \<Longrightarrow>
     \<exists>d. guarded c raw (clock 0) = Inr d \<and> (b = raw_again raw \<or> (\<exists>d'. b = Doc (JObj d') \<and> fence_of d' = fence_of d))"
  by (auto simp: begin_callback_def fence_of_def Let_def split: sum.splits json.splits if_splits)

lemma completed_document_Inr:
  assumes "completed_document c permit target now d = Inr d'"
  shows "\<exists>boundary boundaries. dget d ''boundaries'' = JObj boundaries \<and> dget boundaries (pm_name permit) = JObj boundary
    \<and> dget boundary ''permit_id'' = JStr (pm_permit_id permit) \<and> dget boundary ''claim_id'' = JStr (oc_claim_id c)
    \<and> d' = dset ''updated_at'' (JStr (iso_z now)) (dset ''boundaries''
        (JObj (dset (pm_name permit) (JObj (dupdate boundary (completed_fields target now))) boundaries)) d)"
proof -
  obtain v where v: "boundary_of d (pm_name permit) = Inr v"
    using assms by (auto simp: completed_document_def and_then_Inr_conv)
  obtain bs where bs: "dget_or d ''boundaries'' (JObj []) = JObj bs" "v = dget bs (pm_name permit)"
    using v by (cases "dget_or d ''boundaries'' (JObj [])") (auto simp: boundary_of_def attr_dict_def)
  obtain boundary where b: "v = JObj boundary"
    using assms v by (cases v) (auto simp: completed_document_def)
  then have "map_of d ''boundaries'' = Some (JObj bs)"
    using bs by (auto simp: dget_or_def split: option.splits)
  then have "dget d ''boundaries'' = JObj bs" by (simp add: dget_def)
  then show ?thesis
    using assms v b bs(2) by (auto simp: completed_document_def completed_fields_def Let_def split: if_splits)
qed

lemma complete_guarded:
  "snd (complete_callback c permit target clock u raw) = Inr b \<Longrightarrow>
     \<exists>d d'. guarded c raw (clock 0) = Inr d \<and> b = Doc (JObj d') \<and> fence_of d' = fence_of d"
  by (auto simp: complete_callback_def and_then_Inr_conv fence_of_def dest!: completed_document_Inr)

text \<open>A guarded update either fails without a write or was made by the current claim and keeps the fence.\<close>

lemma guarded_update_effect:
  assumes "\<And>b. snd (f c0 (st (ownership_path (oc_job_id c)))) = Inr b \<Longrightarrow>
      \<exists>d. guarded c (st (ownership_path (oc_job_id c))) now = Inr d
        \<and> (b = raw_again (st (ownership_path (oc_job_id c))) \<or> (\<exists>d'. b = Doc (JObj d') \<and> fence_of d' = fence_of d))"
    and "local_update f c0 st (ownership_path (oc_job_id c)) = (r, c1, st')"
  shows "(\<exists>e. r = Inl e) \<and> st' = st
    \<or> fence_in st (oc_job_id c) = oc_fencing_token c \<and> fence_in st' (oc_job_id c) = oc_fencing_token c"
proof (cases r)
  case (Inl e)
  then show ?thesis using assms(2) local_update_error by fastforce
next
  case (Inr u)
  then obtain b where b: "snd (f c0 (st (ownership_path (oc_job_id c)))) = Inr b"
      "st' = st(ownership_path (oc_job_id c) \<mapsto> b)"
    using assms(2) by (auto simp: local_update_def split: prod.splits sum.splits)
  from assms(1) [OF b(1)] guarded_fence [of c st now] b(2) show ?thesis
    by (auto simp: fence_in_def fence_of_def raw_again_def)
qed

lemma guarded_operations:
  "refresh_lease c st x clock = (r1, st1) \<Longrightarrow> (\<exists>e. r1 = Inl e) \<and> st1 = st
     \<or> fence_in st (oc_job_id c) = oc_fencing_token c \<and> fence_in st1 (oc_job_id c) = oc_fencing_token c"
  "refresh_visibility c st x clock = (r1, st1) \<Longrightarrow> (\<exists>e. r1 = Inl e) \<and> st1 = st
     \<or> fence_in st (oc_job_id c) = oc_fencing_token c \<and> fence_in st1 (oc_job_id c) = oc_fencing_token c"
  "begin_boundary repr c st name takeover clock uuid = (r2, st1) \<Longrightarrow> (\<exists>e. r2 = Inl e) \<and> st1 = st
     \<or> fence_in st (oc_job_id c) = oc_fencing_token c \<and> fence_in st1 (oc_job_id c) = oc_fencing_token c"
  "complete_boundary c st permit target clock = (r1, st1) \<Longrightarrow> (\<exists>e. r1 = Inl e) \<and> st1 = st
     \<or> fence_in st (oc_job_id c) = oc_fencing_token c \<and> fence_in st1 (oc_job_id c) = oc_fencing_token c"
proof -
  assume "refresh_lease c st x clock = (r1, st1)"
  then show "(\<exists>e. r1 = Inl e) \<and> st1 = st
     \<or> fence_in st (oc_job_id c) = oc_fencing_token c \<and> fence_in st1 (oc_job_id c) = oc_fencing_token c"
    using guarded_update_effect [of "refresh_lease_callback c x clock" "()" st c "clock 0"] refresh_lease_guarded
    by (fastforce simp: refresh_lease_def split: prod.splits sum.splits)
next
  assume "refresh_visibility c st x clock = (r1, st1)"
  then show "(\<exists>e. r1 = Inl e) \<and> st1 = st
     \<or> fence_in st (oc_job_id c) = oc_fencing_token c \<and> fence_in st1 (oc_job_id c) = oc_fencing_token c"
    using guarded_update_effect [of "refresh_visibility_callback c v clock" "()" st c "clock 0" for v]
      refresh_visibility_guarded
    by (fastforce simp: refresh_visibility_def split: prod.splits sum.splits)
next
  assume "begin_boundary repr c st name takeover clock uuid = (r2, st1)"
  then show "(\<exists>e. r2 = Inl e) \<and> st1 = st
     \<or> fence_in st (oc_job_id c) = oc_fencing_token c \<and> fence_in st1 (oc_job_id c) = oc_fencing_token c"
    using guarded_update_effect [of "begin_callback c name takeover clock uuid" "[]" st c "clock 0"] begin_guarded
    by (fastforce simp: begin_boundary_def split: prod.splits sum.splits)
next
  assume "complete_boundary c st permit target clock = (r1, st1)"
  then show "(\<exists>e. r1 = Inl e) \<and> st1 = st
     \<or> fence_in st (oc_job_id c) = oc_fencing_token c \<and> fence_in st1 (oc_job_id c) = oc_fencing_token c"
    using guarded_update_effect [of "complete_callback c permit target clock" "()" st c "clock 0"] complete_guarded
    by (fastforce simp: complete_boundary_def split: prod.splits sum.splits)
qed

section \<open>What the claim protocol promises\<close>

text \<open>The live claim a store holds for a job at a moment.\<close>

definition live_in :: "store \<Rightarrow> string \<Rightarrow> int \<Rightarrow> dict option res" where
  "live_in st job now = and_then (load_ownership (st (ownership_path job))) (\<lambda>d. live_claim d now)"

lemma prepare_acquisition_fields:
  "prepare_acquisition job owner exec vis lease t uuid = Inr a \<Longrightarrow>
     aq_job_id a = job \<and> aq_owner a = owner \<and> aq_execution_id a = exec \<and> aq_claimed_at a = t \<and> aq_uuid a = uuid"
  by (auto simp: prepare_acquisition_def and_then_Inr_conv split: if_splits)

lemma claim_callback_effect:
  assumes "local_update (claim_callback a) [] st (ownership_path job) = (r, captured, st')"
  shows "(\<exists>e. r = Inl e) \<and> st' = st
    \<or> (\<exists>cur. live_in st job (aq_claimed_at a) = Inr (Some cur) \<and> dget cur ''owner'' = JStr (aq_owner a)
         \<and> dget cur ''execution_id'' = JStr (aq_execution_id a) \<and> st' = st)
    \<or> (live_in st job (aq_claimed_at a) = Inr None \<and> fence_in st' job = fence_in st job + 1 \<and> 0 \<le> fence_in st job
         \<and> r = Inr () \<and> captured = dupdate [] (new_claim a (fence_in st' job)))"
proof (cases "and_then (load_ownership (st (ownership_path job))) (\<lambda>d. and_then (live_claim d (aq_claimed_at a)) (\<lambda>l. Inr (d, l)))")
  case (Inl e)
  then have "r = Inl e \<and> st' = st" using assms by (auto simp: local_update_def claim_callback_def)
  then show ?thesis by blast
next
  case (Inr p)
  obtain d l where p: "p = (d, l)" by fastforce
  have ld: "load_ownership (st (ownership_path job)) = Inr d" "live_in st job (aq_claimed_at a) = Inr l"
    using Inr by (auto simp: p live_in_def and_then_Inr_conv)
  show ?thesis
  proof (cases l)
    case (Some cur)
    have "st (ownership_path job) \<noteq> None"
    proof
      assume "st (ownership_path job) = None"
      then show False using ld(2) by (simp add: live_in_def live_claim_def Some load_ownership_def)
    qed
    then show ?thesis
      using assms Inr ld(2) raw_again_same [of "st (ownership_path job)"]
      by (auto simp: p Some local_update_def claim_callback_def split: if_splits)
  next
    case None
    have f: "int_value (dget_or d ''fencing_token'' (JInt 0)) = fence_in st job"
      using fence_in_load [of st job, OF ld(1)] by (simp add: fence_of_def dget_def dget_or_def split: option.splits)
    have w: "fence_in (st(ownership_path job \<mapsto> Doc (JObj d'))) job = fence_of d'" for d'
      by (simp add: fence_in_def fence_of_def)
    show ?thesis
      using assms Inr ld(2)
      by (auto simp: p None local_update_def claim_callback_def Let_def f w fence_of_def split: if_splits)
  qed
qed

text \<open>Claim C24: acquiring ownership.  A guard that \<open>acquire\<close> returns holds the current claim of its job.
  Either it re-entered a live claim of the same owner and execution and nothing was written, or no
  claim was live and the fencing token grew by exactly one to the guard's token.  While another owner
  or execution holds a live claim, acquisition fails and changes nothing.\<close>

theorem acquire_grants_current_claim:
  "case acquire repr st job owner exec visibility lease clock uuid of
     (Inr c, st') \<Rightarrow> oc_job_id c = job \<and> assert_current c st' (clock 1) = Inr ()
       \<and> oc_fencing_token c = fence_in st' job
       \<and> ((\<exists>cur. live_in st job (clock 0) = Inr (Some cur) \<and> dget cur ''owner'' = JStr owner
             \<and> dget cur ''execution_id'' = JStr exec \<and> st' = st)
          \<or> live_in st job (clock 0) = Inr None \<and> fence_in st' job = fence_in st job + 1
             \<and> oc_owner c = owner \<and> oc_execution_id c = exec \<and> oc_claim_id c = uuid)
   | (Inl e, st') \<Rightarrow> fence_in st job \<le> fence_in st' job
       \<and> (\<forall>cur. live_in st job (clock 0) = Inr (Some cur) \<longrightarrow> st' = st)"
proof (cases "prepare_acquisition job owner exec visibility lease (clock 0) uuid")
  case (Inl e)
  then show ?thesis by (simp add: acquire_def)
next
  case (Inr a)
  note a = prepare_acquisition_fields [OF Inr]
  obtain r captured st' where up: "local_update (claim_callback a) [] st (ownership_path job) = (r, captured, st')"
    by (metis prod_cases3)
  note eff = claim_callback_effect [OF up]
  show ?thesis
  proof (cases r)
    case (Inl e)
    then show ?thesis using eff by (auto simp: acquire_def Inr up)
  next
    case ok: (Inr u)
    have run: "acquire repr st job owner exec visibility lease clock uuid =
        (and_then (captured_claim repr job captured) (\<lambda>c. and_then (assert_current c st' (clock 1)) (\<lambda>_. Inr c)), st')"
      by (simp add: acquire_def Inr up ok)
    have fields: "oc_owner c = owner \<and> oc_execution_id c = exec \<and> oc_claim_id c = uuid"
      if "captured = dupdate [] (new_claim a n)" "captured_claim repr job captured = Inr c" for c n
    proof -
      have "dupdate [] (new_claim a n) = [] @ new_claim a n" by (rule dupdate_fresh) (simp add: new_claim_def)
      then have "captured = new_claim a n" using that by simp
      then show ?thesis using that a by (auto simp: captured_claim_def new_claim_def dindex_def)
    qed
    have cur: "oc_job_id c = job \<and> oc_fencing_token c = fence_in st' job"
      if "captured_claim repr job captured = Inr c" "assert_current c st' (clock 1) = Inr v" for c v
    proof -
      note t = that
      have j: "oc_job_id c = job" using t(1) by (auto simp: captured_claim_def and_then_Inr_conv)
      obtain d where "load_ownership (st' (ownership_path (oc_job_id c))) = Inr d" "require_current c d (clock 1) = Inr v"
        using t(2) by (auto simp: assert_current_def and_then_Inr_conv split: option.splits)
      then show ?thesis using require_current_fence fence_in_load j by metis
    qed
    show ?thesis
      unfolding run prod.case
    proof (cases "and_then (captured_claim repr job captured) (\<lambda>c. and_then (assert_current c st' (clock 1)) (\<lambda>_. Inr c))")
      case (Inl e)
      then show "case and_then (captured_claim repr job captured) (\<lambda>c. and_then (assert_current c st' (clock 1)) (\<lambda>_. Inr c)) of
          Inl e \<Rightarrow> fence_in st job \<le> fence_in st' job \<and> (\<forall>cur. live_in st job (clock 0) = Inr (Some cur) \<longrightarrow> st' = st)
        | Inr c \<Rightarrow> oc_job_id c = job \<and> assert_current c st' (clock 1) = Inr ()
       \<and> oc_fencing_token c = fence_in st' job
       \<and> ((\<exists>cur. live_in st job (clock 0) = Inr (Some cur) \<and> dget cur ''owner'' = JStr owner
             \<and> dget cur ''execution_id'' = JStr exec \<and> st' = st)
          \<or> live_in st job (clock 0) = Inr None \<and> fence_in st' job = fence_in st job + 1
             \<and> oc_owner c = owner \<and> oc_execution_id c = exec \<and> oc_claim_id c = uuid)"
        using eff ok a by auto
    next
      case (Inr c)
      then have c: "captured_claim repr job captured = Inr c" "assert_current c st' (clock 1) = Inr ()"
        by (auto simp: and_then_Inr_conv)
      show "case and_then (captured_claim repr job captured) (\<lambda>c. and_then (assert_current c st' (clock 1)) (\<lambda>_. Inr c)) of
          Inl e \<Rightarrow> fence_in st job \<le> fence_in st' job \<and> (\<forall>cur. live_in st job (clock 0) = Inr (Some cur) \<longrightarrow> st' = st)
        | Inr c \<Rightarrow> oc_job_id c = job \<and> assert_current c st' (clock 1) = Inr ()
       \<and> oc_fencing_token c = fence_in st' job
       \<and> ((\<exists>cur. live_in st job (clock 0) = Inr (Some cur) \<and> dget cur ''owner'' = JStr owner
             \<and> dget cur ''execution_id'' = JStr exec \<and> st' = st)
          \<or> live_in st job (clock 0) = Inr None \<and> fence_in st' job = fence_in st job + 1
             \<and> oc_owner c = owner \<and> oc_execution_id c = exec \<and> oc_claim_id c = uuid)"
        using eff ok a cur [OF c] fields [OF _ c(1)] c by (auto simp: Inr)
    qed
  qed
qed

definition first_claim :: "ownership_claim res \<times> store" where
  "first_claim = acquire (\<lambda>_. []) Map.empty ''j'' ''w'' ''run'' (Aware (micros 100)) None (\<lambda>_. 0) ''u''"

theorem acquire_grants_current_claim_witness:
  "case first_claim of
     (Inr c, st') \<Rightarrow> assert_current c st' 0 = Inr () \<and> fence_in st' ''j'' = 1 \<and> oc_fencing_token c = 1
   | (Inl e, st') \<Rightarrow> False"
proof -
  have v: "valid_instant (micros 100)" by (simp add: valid_instant_def micros_def micros_per_day_def)
  have ok: "isl (fst first_claim) = False"
    by (simp add: first_claim_def acquire_def prepare_acquisition_def stamp_min_def v le_time_def EXPIRY_RESERVE_def
      micros_def local_update_def claim_callback_def load_ownership_def live_claim_def dget_or_def Let_def
      new_claim_def captured_claim_def dindex_def assert_current_def require_current_def claim_matches_def
      expired_def dhas_def valid_instant_def micros_per_day_def)
  have fence: "fence_in Map.empty ''j'' = 0" "live_in Map.empty ''j'' 0 = Inr None"
    by (simp_all add: fence_in_def live_in_def live_claim_def load_ownership_def)
  show ?thesis
    using ok acquire_grants_current_claim [where st = Map.empty and repr = "\<lambda>_. []" and job = "''j''"
        and owner = "''w''" and exec = "''run''" and visibility = "Aware (micros 100)" and lease = None
        and clock = "\<lambda>_. 0" and uuid = "''u''"]
    by (auto simp: first_claim_def fence split: sum.splits prod.splits)
qed

text \<open>At most one current claim.  Two guards of the same job that both pass the check against
  the same store are the same claim: same owner, same claim id, same execution, same fencing token.\<close>

theorem one_current_claim:
  assumes "assert_current c st now = Inr u" "assert_current c' st now' = Inr v" "oc_job_id c = oc_job_id c'"
  shows "c = c'"
proof -
  obtain d where d: "load_ownership (st (ownership_path (oc_job_id c))) = Inr d"
      "require_current c d now = Inr u" "require_current c' d now' = Inr v"
    using assms by (auto simp: assert_current_def and_then_Inr_conv split: option.splits)
  obtain cur where "dget d ''claim'' = JObj cur" "claim_matches c d cur" "claim_matches c' d cur"
    using require_current_claim [OF d(2)] require_current_claim [OF d(3)] by auto
  then show ?thesis using assms(3) by (cases c; cases c') (auto simp: claim_matches_def)
qed

definition held :: ownership_claim where
  "held = \<lparr>oc_job_id = ''j'', oc_owner = ''w'', oc_claim_id = ''u'', oc_execution_id = ''run'', oc_fencing_token = 1\<rparr>"

definition held_store :: store where
  "held_store = [ownership_path ''j'' \<mapsto> Doc (JObj
     [(''schema_version'', JStr OWNERSHIP_SCHEMA_VERSION), (''job_id'', JStr ''j''), (''fencing_token'', JInt 1),
      (''claim'', JObj [(''owner'', JStr ''w''), (''claim_id'', JStr ''u''), (''execution_id'', JStr ''run''),
         (''fencing_token'', JInt 1), (''visibility_expires_at'', JStr (iso_z (micros 100))),
         (''lease_expires_at'', JStr (iso_z (micros 100))), (''editor_expires_at'', JNull)]),
      (''boundaries'', JObj [(''render'', JObj [(''permit_id'', JStr ''p''), (''claim_id'', JStr ''u''),
         (''fencing_token'', JInt 1), (''state'', JStr ''active'')])])])]"

lemma held_current: "require_current held d 0 = Inr ()"
  if "dget d ''claim'' = dget (case held_store (ownership_path ''j'') of Some (Doc (JObj d)) \<Rightarrow> d) ''claim''"
    "dget d ''job_id'' = JStr ''j''" "dget d ''fencing_token'' = JInt 1"
  using that
  by (simp add: require_current_def held_def held_store_def claim_matches_def expired_def dhas_def EXPIRY_RESERVE_def
      micros_def valid_instant_def micros_per_day_def)

theorem one_current_claim_witness:
  "assert_current held held_store 0 = Inr () \<and> held = held\<lparr>oc_owner := ''w''\<rparr>"
proof -
  have "assert_current held held_store 0 = Inr ()" "assert_current (held\<lparr>oc_owner := ''w''\<rparr>) held_store 0 = Inr ()"
    using held_current by (simp_all add: assert_current_def held_def held_store_def load_ownership_def)
  moreover have "oc_job_id held = oc_job_id (held\<lparr>oc_owner := ''w''\<rparr>)" by simp
  ultimately show ?thesis using one_current_claim by blast
qed

section \<open>Executions\<close>

text \<open>One operation of some worker, on any job, with any arguments and whatever its outcome.\<close>

inductive own_step :: "store \<Rightarrow> store \<Rightarrow> bool" where
  step_acquire: "acquire repr st job owner exec visibility lease clock uuid = (r, st') \<Longrightarrow> own_step st st'"
| step_refresh_lease: "refresh_lease c st x clock = (r, st') \<Longrightarrow> own_step st st'"
| step_refresh_visibility: "refresh_visibility c st x clock = (r, st') \<Longrightarrow> own_step st st'"
| step_begin: "begin_boundary repr c st name takeover clock uuid = (r, st') \<Longrightarrow> own_step st st'"
| step_complete: "complete_boundary c st permit target clock = (r, st') \<Longrightarrow> own_step st st'"

lemma ownership_path_inj [simp]: "ownership_path j = ownership_path k \<longleftrightarrow> j = k"
  by (simp add: ownership_path_def)

lemma fence_frame:
  "local_update f c0 st (ownership_path j) = (r, c1, st') \<Longrightarrow> job \<noteq> j \<Longrightarrow> fence_in st' job = fence_in st job"
  using local_update_frame [of f c0 st "ownership_path j" r c1 st' "ownership_path job"]
  by (simp add: fence_in_def)

lemma guarded_frame:
  assumes "job \<noteq> oc_job_id c"
  shows "refresh_lease c st x clock = (r1, st') \<Longrightarrow> fence_in st' job = fence_in st job"
    and "refresh_visibility c st x clock = (r1, st') \<Longrightarrow> fence_in st' job = fence_in st job"
    and "begin_boundary repr c st name takeover clock uuid = (r2, st') \<Longrightarrow> fence_in st' job = fence_in st job"
    and "complete_boundary c st permit target clock = (r1, st') \<Longrightarrow> fence_in st' job = fence_in st job"
  using assms
  by (auto simp: refresh_lease_def refresh_visibility_def begin_boundary_def complete_boundary_def
      dest!: fence_frame split: prod.splits sum.splits)

lemma acquire_fence:
  assumes "acquire repr st j owner exec visibility lease clock uuid = (r, st')"
  shows "fence_in st job \<le> fence_in st' job"
proof (cases "st' = st")
  case False
  then obtain a r' captured where
      up: "local_update (claim_callback a) [] st (ownership_path j) = (r', captured, st')"
    using assms by (auto simp: acquire_def split: sum.splits prod.splits)
  show ?thesis
    using claim_callback_effect [OF up] fence_frame [OF up, of job] False by (cases "job = j") auto
qed simp

lemma own_step_fence: "own_step st st' \<Longrightarrow> fence_in st job \<le> fence_in st' job"
proof (induction rule: own_step.induct)
  case (step_acquire repr st j owner exec visibility lease clock uuid r st')
  then show ?case by (rule acquire_fence)
next
  case (step_refresh_lease c st x clock r st')
  then show ?case using guarded_operations(1) guarded_frame(1)
    by (cases "job = oc_job_id c") fastforce+
next
  case (step_refresh_visibility c st x clock r st')
  then show ?case using guarded_operations(2) guarded_frame(2)
    by (cases "job = oc_job_id c") fastforce+
next
  case (step_begin repr c st name takeover clock uuid r st')
  then show ?case using guarded_operations(3) guarded_frame(3)
    by (cases "job = oc_job_id c") fastforce+
next
  case (step_complete c st permit target clock r st')
  then show ?case using guarded_operations(4) guarded_frame(4)
    by (cases "job = oc_job_id c") fastforce+
qed

lemma own_steps_fence: "own_step\<^sup>*\<^sup>* st st' \<Longrightarrow> fence_in st job \<le> fence_in st' job"
  by (induction rule: rtranclp_induct) (auto dest: own_step_fence [of _ _ job])

lemma assert_current_fence: "assert_current c st now = Inr u \<Longrightarrow> fence_in st (oc_job_id c) = oc_fencing_token c"
  using fence_in_load [of st "oc_job_id c"]
  by (auto simp: assert_current_def and_then_Inr_conv dest!: require_current_fence split: option.splits)

lemma assert_permit_current: "assert_permit c st permit m now = Inr u \<Longrightarrow> assert_current c st now = Inr ()"
  by (auto simp: assert_permit_def assert_current_def and_then_Inr_conv split: option.splits)

lemma assert_permit_fence:
  "assert_permit c st permit m now = Inr u \<Longrightarrow> fence_in st (oc_job_id c) = oc_fencing_token c"
  by (drule assert_permit_current) (rule assert_current_fence)

text \<open>Claim C16: a superseded guard stays fenced.  Once the record of a job carries a higher fencing token
  than a guard, every later operation of that guard fails and writes nothing, whatever any worker
  does in between on this or any other job.\<close>

theorem superseded_guard_is_fenced:
  assumes "oc_fencing_token c < fence_in st (oc_job_id c)" and "own_step\<^sup>*\<^sup>* st st1"
  shows "(\<exists>e. assert_current c st1 now = Inl e) \<and> (\<exists>e. assert_permit c st1 permit m now = Inl e)
    \<and> (\<exists>e. refresh_lease c st1 x clock = (Inl e, st1))
    \<and> (\<exists>e. refresh_visibility c st1 x clock = (Inl e, st1))
    \<and> (\<exists>e. begin_boundary repr c st1 name takeover clock uuid = (Inl e, st1))
    \<and> (\<exists>e. complete_boundary c st1 permit target clock = (Inl e, st1))"
proof -
  have ne: "fence_in st1 (oc_job_id c) \<noteq> oc_fencing_token c"
    using assms own_steps_fence [of st st1 "oc_job_id c"] by linarith
  have "\<exists>e. assert_current c st1 now = Inl e"
    using ne assert_current_fence [of c st1 now] by (cases "assert_current c st1 now") auto
  moreover have "\<exists>e. assert_permit c st1 permit m now = Inl e"
    using ne assert_permit_fence [of c st1 permit m now] by (cases "assert_permit c st1 permit m now") auto
  moreover have "\<exists>e. refresh_lease c st1 x clock = (Inl e, st1)"
    using ne guarded_operations(1) [of c st1 x clock] by (cases "refresh_lease c st1 x clock") auto
  moreover have "\<exists>e. refresh_visibility c st1 x clock = (Inl e, st1)"
    using ne guarded_operations(2) [of c st1 x clock] by (cases "refresh_visibility c st1 x clock") auto
  moreover have "\<exists>e. begin_boundary repr c st1 name takeover clock uuid = (Inl e, st1)"
    using ne guarded_operations(3) [of repr c st1 name takeover clock uuid]
    by (cases "begin_boundary repr c st1 name takeover clock uuid") auto
  moreover have "\<exists>e. complete_boundary c st1 permit target clock = (Inl e, st1)"
    using ne guarded_operations(4) [of c st1 permit target clock]
    by (cases "complete_boundary c st1 permit target clock") auto
  ultimately show ?thesis by blast
qed

lemma boundary_after_completion:
  assumes "complete_boundary c st permit target clock = (Inr u, st')"
  shows "\<exists>d boundary boundaries. st' (ownership_path (oc_job_id c)) = Some (Doc (JObj d))
    \<and> dget d ''boundaries'' = JObj boundaries \<and> dhas d ''boundaries''
    \<and> dget boundaries (pm_name permit) = JObj boundary
    \<and> dget boundary ''state'' = JStr ''completed''
    \<and> dget boundary ''permit_id'' = JStr (pm_permit_id permit)"
proof -
  let ?p = "ownership_path (oc_job_id c)"
  obtain b where b: "snd (complete_callback c permit target clock () (st ?p)) = Inr b" "st' = st(?p \<mapsto> b)"
    using assms by (auto simp: complete_boundary_def local_update_def split: prod.splits sum.splits)
  obtain d d' where d: "completed_document c permit target (clock 1) d = Inr d'" "b = Doc (JObj d')"
    using b(1) by (auto simp: complete_callback_def and_then_Inr_conv)
  obtain boundary bs where d': "dget d ''boundaries'' = JObj bs" "dget boundary ''permit_id'' = JStr (pm_permit_id permit)"
     "d' = dset ''updated_at'' (JStr (iso_z (clock 1))) (dset ''boundaries''
        (JObj (dset (pm_name permit) (JObj (dupdate boundary (completed_fields target (clock 1)))) bs)) d)"
    using completed_document_Inr [OF d(1)] by blast
  show ?thesis
    by (simp add: b(2) d(2) d' completed_fields_def)
qed

section \<open>Completed boundaries\<close>

text \<open>The boundary is recorded as completed.\<close>

definition finished :: "string \<Rightarrow> blob option \<Rightarrow> bool" where
  "finished name raw \<longleftrightarrow> (\<exists>d bs boundary. raw = Some (Doc (JObj d)) \<and> dget d ''boundaries'' = JObj bs
     \<and> dget bs name = JObj boundary \<and> dget boundary ''state'' = JStr ''completed'')"

lemma finished_frame:
  "finished name (Some (Doc (JObj d))) \<Longrightarrow> dget d' ''boundaries'' = dget d ''boundaries'' \<Longrightarrow> finished name (Some (Doc (JObj d')))"
  by (auto simp: finished_def)

lemma finished_again: "finished name raw \<Longrightarrow> finished name (Some (raw_again raw))"
  by (auto simp: finished_def raw_again_def)

lemma finished_load: "finished name raw \<Longrightarrow> load_ownership raw = Inr d \<Longrightarrow> raw = Some (Doc (JObj d))"
  by (drule load_ownership_Inr) (auto simp: finished_def)

lemma finished_guarded: "finished name raw \<Longrightarrow> guarded c raw now = Inr d \<Longrightarrow> raw = Some (Doc (JObj d))"
  by (auto simp: guarded_def and_then_Inr_conv intro: finished_load)

lemma claim_keeps_finished:
  assumes "snd (claim_callback a captured raw) = Inr b" "finished name raw"
  shows "finished name (Some b)"
proof -
  obtain d l where d: "load_ownership raw = Inr d" "live_claim d (aq_claimed_at a) = Inr l"
    using assms(1) by (auto simp: claim_callback_def and_then_Inr_conv split: sum.splits)
  note raw = finished_load [OF assms(2) d(1)]
  obtain bs boundary where bs: "dget d ''boundaries'' = JObj bs" "dget bs name = JObj boundary" "dget boundary ''state'' = JStr ''completed''"
    using assms(2) by (auto simp: finished_def raw)
  then have "dget_or d ''boundaries'' (JObj []) = JObj bs" by (auto simp: dget_or_def dget_def split: option.splits)
  then show ?thesis
    using assms(1) d bs raw
    by (auto simp: claim_callback_def Let_def finished_def raw_again_def split: option.splits if_splits)
qed

lemma refresh_keeps_finished:
  assumes "finished name raw"
  shows "snd (refresh_lease_callback c x clock u raw) = Inr b \<Longrightarrow> finished name (Some b)"
    and "snd (refresh_visibility_callback c v clock u raw) = Inr b \<Longrightarrow> finished name (Some b)"
proof -
  have raw: "finished name (Some (Doc (JObj d)))" if "guarded c raw (clock 0) = Inr d" for d
    using finished_guarded [OF assms that] assms by simp
  have frames: "dget d' ''boundaries'' = dget d ''boundaries''"
    if "refreshed_lease_document x now1 now2 d = Inr d' \<or> refreshed_visibility_document v now1 now2 d = Inr d'" for now1 now2 d d'
    using that by (auto simp: refreshed_lease_document_def refreshed_visibility_document_def and_then_Inr_conv
        set_claim_fields_def Let_def split: option.splits if_splits)
  show "snd (refresh_lease_callback c x clock u raw) = Inr b \<Longrightarrow> finished name (Some b)"
    using finished_frame [OF raw frames] by (auto simp: refresh_lease_callback_def and_then_Inr_conv)
  show "snd (refresh_visibility_callback c v clock u raw) = Inr b \<Longrightarrow> finished name (Some b)"
    using finished_frame [OF raw frames] by (auto simp: refresh_visibility_callback_def and_then_Inr_conv)
qed

lemma begin_keeps_finished:
  assumes "snd (begin_callback c n takeover clock uuid captured raw) = Inr b" "finished name raw" "n = name \<longrightarrow> \<not> takeover"
  shows "finished name (Some b)"
proof -
  obtain d where d: "guarded c raw (clock 0) = Inr d" using assms(1) by (auto simp: begin_callback_def split: sum.splits)
  note raw = finished_guarded [OF assms(2) d]
  obtain bs boundary where bs: "dget d ''boundaries'' = JObj bs" "dget bs name = JObj boundary" "dget boundary ''state'' = JStr ''completed''"
    using assms(2) by (auto simp: finished_def raw)
  then have or: "dget_or d ''boundaries'' (JObj []) = JObj bs" by (auto simp: dget_or_def dget_def split: option.splits)
  show ?thesis
  proof (cases "b = raw_again raw")
    case True
    then show ?thesis using finished_again [OF assms(2)] by simp
  next
    case False
    then have new: "b = Doc (JObj (dset ''updated_at'' (dget (new_permit c n uuid (clock 1) (case dget bs n of JObj p \<Rightarrow> Some p | _ \<Rightarrow> None)) ''created_at'')
        (dset ''boundaries'' (JObj (dset n (JObj (new_permit c n uuid (clock 1) (case dget bs n of JObj p \<Rightarrow> Some p | _ \<Rightarrow> None))) bs)) d)))"
      and "\<not> ((case dget bs n of JObj p \<Rightarrow> Some p | _ \<Rightarrow> None) \<noteq> None \<and> \<not> takeover)"
      using assms(1) d or by (auto simp: begin_callback_def Let_def split: if_splits)
    then have "n \<noteq> name" using assms(3) bs(2) by auto
    then show ?thesis using bs by (simp add: new finished_def)
  qed
qed

lemma complete_keeps_finished:
  assumes "snd (complete_callback c permit target clock u raw) = Inr b" "finished name raw"
  shows "finished name (Some b)"
proof -
  obtain d d' where d: "guarded c raw (clock 0) = Inr d" "completed_document c permit target (clock 1) d = Inr d'" "b = Doc (JObj d')"
    using assms(1) by (auto simp: complete_callback_def and_then_Inr_conv)
  note raw = finished_guarded [OF assms(2) d(1)]
  from completed_document_Inr [OF d(2)] show ?thesis
    using assms(2) by (auto simp: raw d(3) finished_def completed_fields_def)
qed

text \<open>Any operation of any worker on any job, but nobody begins this boundary of this job by takeover.\<close>

inductive careful_step :: "string \<Rightarrow> string \<Rightarrow> store \<Rightarrow> store \<Rightarrow> bool" for job :: string and name :: string where
  careful_acquire: "acquire repr st j owner exec visibility lease clock uuid = (r, st') \<Longrightarrow> careful_step job name st st'"
| careful_lease: "refresh_lease c st x clock = (r, st') \<Longrightarrow> careful_step job name st st'"
| careful_visibility: "refresh_visibility c st x clock = (r, st') \<Longrightarrow> careful_step job name st st'"
| careful_begin: "begin_boundary repr c st n takeover clock uuid = (r, st') \<Longrightarrow> \<not> (oc_job_id c = job \<and> n = name \<and> takeover) \<Longrightarrow>
    careful_step job name st st'"
| careful_complete: "complete_boundary c st permit target clock = (r, st') \<Longrightarrow> careful_step job name st st'"

lemma update_keeps_finished:
  assumes "local_update f c0 st (ownership_path j) = (r, c1, st')" "finished name (st (ownership_path job))"
    and "\<And>b. j = job \<Longrightarrow> snd (f c0 (st (ownership_path job))) = Inr b \<Longrightarrow> finished name (Some b)"
  shows "finished name (st' (ownership_path job))"
  using assms by (cases "j = job") (auto simp: local_update_def split: prod.splits sum.splits)

lemma careful_keeps_finished:
  "careful_step job name st st' \<Longrightarrow> finished name (st (ownership_path job)) \<Longrightarrow> finished name (st' (ownership_path job))"
proof (induction rule: careful_step.induct)
  case (careful_acquire repr st j owner exec visibility lease clock uuid r st')
  then show ?case
    by (auto simp: acquire_def split: sum.splits prod.splits dest!: update_keeps_finished dest: claim_keeps_finished)
next
  case (careful_lease c st x clock r st')
  then show ?case
    by (auto simp: refresh_lease_def split: sum.splits prod.splits dest!: update_keeps_finished dest: refresh_keeps_finished)
next
  case (careful_visibility c st x clock r st')
  then show ?case
    by (auto simp: refresh_visibility_def split: sum.splits prod.splits dest!: update_keeps_finished dest: refresh_keeps_finished)
next
  case (careful_begin repr c st n takeover clock uuid r st')
  then show ?case
    by (auto simp: begin_boundary_def split: sum.splits prod.splits dest!: update_keeps_finished dest: begin_keeps_finished)
next
  case (careful_complete c st permit target clock r st')
  then show ?case
    by (auto simp: complete_boundary_def split: sum.splits prod.splits dest!: update_keeps_finished dest: complete_keeps_finished)
qed

text \<open>
  Claim C28: a boundary that is not taken over is done once.  After \<open>complete_boundary\<close>, whatever the workers do on
  this and other jobs -- acquire, refresh, begin, complete -- as long as nobody begins that boundary of the job by
  takeover (which the code never does for the provider mutation), no permit for it passes as a mutation permit, under
  any claim, and beginning it again yields a reconcile-only permit, if anything, and writes nothing.
\<close>

theorem completed_boundary_is_final:
  assumes "complete_boundary c st0 permit target clock0 = (Inr u, st1)"
    and "(careful_step (oc_job_id c) (pm_name permit))\<^sup>*\<^sup>* st1 st'" and "oc_job_id c' = oc_job_id c"
  shows "(pm_name p = pm_name permit \<longrightarrow> (\<exists>e. assert_permit c' st' p True now = Inl e))
    \<and> snd (begin_boundary repr c' st' (pm_name permit) False clock uuid) = st'
    \<and> (\<forall>q. fst (begin_boundary repr c' st' (pm_name permit) False clock uuid) = Inr q \<longrightarrow> pm_reconcile_only q)"
proof -
  let ?p = "ownership_path (oc_job_id c)"
  have "finished (pm_name permit) (st1 ?p)" using boundary_after_completion [OF assms(1)] by (auto simp: finished_def)
  with assms(2) have "finished (pm_name permit) (st' ?p)"
    by (induction rule: rtranclp_induct) (auto intro: careful_keeps_finished)
  then obtain d boundary bs where d: "st' ?p = Some (Doc (JObj d))" "dget d ''boundaries'' = JObj bs"
      "dget bs (pm_name permit) = JObj boundary" "dget boundary ''state'' = JStr ''completed''"
    by (auto simp: finished_def)
  have bs: "dget_or d ''boundaries'' (JObj []) = JObj bs"
    using d(2) by (auto simp: dget_or_def dget_def split: option.splits)
  have 1: "\<exists>e. assert_permit c' st' p True now = Inl e" if "pm_name p = pm_name permit"
  proof (cases "assert_permit c' st' p True now")
    case (Inr v)
    then have "load_ownership (Some (Doc (JObj d))) = Inr d"
      by (auto simp: assert_permit_def assms(3) d(1) and_then_Inr_conv dest: load_ownership_Inr)
    then show ?thesis
      using Inr d that bs by (auto simp: assert_permit_def assms(3) and_then_Inr_conv boundary_of_def attr_dict_def split: if_splits)
  qed simp
  have same: "st'(?p \<mapsto> Doc (JObj d)) = st'" using d(1) by auto
  have cb: "\<exists>captured. begin_callback c' (pm_name permit) False clock uuid [] (st' ?p) = (captured, Inr (Doc (JObj d)))
        \<and> dget captured ''reconcile_only'' = JBool True
      \<or> (\<exists>e. begin_callback c' (pm_name permit) False clock uuid [] (st' ?p) = ([], Inl e))"
  proof (cases "guarded c' (st' ?p) (clock 0)")
    case (Inr d2)
    then have "d2 = d" using guarded_fence [of c' st' "clock 0" d2] assms(3) d(1) by auto
    then show ?thesis using Inr d(1,3,4) bs by (auto simp: begin_callback_def Let_def raw_again_def)
  qed (simp add: begin_callback_def)
  then have 2: "snd (begin_boundary repr c' st' (pm_name permit) False clock uuid) = st'"
    by (auto simp: begin_boundary_def local_update_def assms(3) same)
  have 3: "pm_reconcile_only q" if "fst (begin_boundary repr c' st' (pm_name permit) False clock uuid) = Inr q" for q
    using cb that by (auto simp: begin_boundary_def local_update_def assms(3) and_then_Inr_conv captured_permit_def)
  show ?thesis using 1 2 3 by blast
qed

definition render_permit :: boundary_permit where
  "render_permit = \<lparr>pm_name = ''render'', pm_permit_id = ''p'', pm_fencing_token = 1, pm_reconcile_only = False\<rparr>"

theorem completed_boundary_is_final_witness:
  "\<exists>st'. complete_boundary held held_store render_permit ''video.mp4'' (\<lambda>_. 0) = (Inr (), st')
     \<and> (\<exists>e. assert_permit held st' render_permit True 0 = Inl e)"
proof -
  have "\<exists>st'. complete_boundary held held_store render_permit ''video.mp4'' (\<lambda>_. 0) = (Inr (), st')"
    using held_current
    by (simp add: complete_boundary_def local_update_def complete_callback_def guarded_def held_store_def load_ownership_def
        completed_document_def boundary_of_def attr_dict_def dget_or_def render_permit_def completed_fields_def Let_def
        assert_permit_def held_def)
  then obtain st' where st': "complete_boundary held held_store render_permit ''video.mp4'' (\<lambda>_. 0) = (Inr (), st')" by blast
  then show ?thesis
    using completed_boundary_is_final [OF st' rtranclp.rtrancl_refl refl, of render_permit] by blast
qed

theorem superseded_guard_is_fenced_witness:
  "\<exists>e. refresh_lease (held\<lparr>oc_fencing_token := 0\<rparr>) held_store (Aware (micros 90)) (\<lambda>_. 0) = (Inl e, held_store)"
proof -
  have "oc_fencing_token (held\<lparr>oc_fencing_token := 0\<rparr>) < fence_in held_store (oc_job_id (held\<lparr>oc_fencing_token := 0\<rparr>))"
    by (simp add: held_def held_store_def fence_in_def)
  from superseded_guard_is_fenced [OF this rtranclp.rtrancl_refl] show ?thesis by blast
qed

end
