(* ===== verification/TaskGraph.thy ===== *)
theory TaskGraph
  imports Prelude
begin

text \<open>
  \<open>podcaster/scheduler.py\<close>: the task graphs of the generation pipeline and their validation.  A task's
  dependencies are the elements of its frozenset in the order Python iterates over them, which is
  arbitrary; no statement depends on it.  The index (a dict by id) is the list of the tasks in
  insertion order.  The callables of the tasks appear in theory \<open>Scheduler\<close>, as outcomes.
\<close>

section \<open>Tasks and graphs\<close>

record task_spec =
  tk_id :: string
  tk_stage :: string
  tk_deps :: "string list"

definition make_task :: "string \<Rightarrow> string \<Rightarrow> string list \<Rightarrow> task_spec res" where
  "make_task tid stage deps =
     (if tid = [] then Inl (Raise SchedulerErr ''task id must be a non-empty string'')
      else if stage = [] then Inl (Raise SchedulerErr ''task must declare a stage'')
      else Inr \<lparr>tk_id = tid, tk_stage = stage, tk_deps = deps\<rparr>)"

definition lookup_task :: "task_spec list \<Rightarrow> string \<Rightarrow> task_spec option" where
  "lookup_task index tid = find (\<lambda>t. tk_id t = tid) index"

definition deps_of :: "task_spec list \<Rightarrow> string \<Rightarrow> string list" where
  "deps_of index tid = (case lookup_task index tid of None \<Rightarrow> [] | Some t \<Rightarrow> tk_deps t)"

fun index_from :: "task_spec list \<Rightarrow> task_spec list \<Rightarrow> task_spec list res" where
  "index_from index [] = Inr index"
| "index_from index (t # ts) =
     (if lookup_task index (tk_id t) \<noteq> None then Inl (Raise DuplicateTaskErr ''duplicate task id'')
      else index_from (index @ [t]) ts)"

definition index_tasks :: "task_spec list \<Rightarrow> task_spec list res" where
  "index_tasks tasks = index_from [] tasks"

fun check_deps :: "task_spec list \<Rightarrow> string \<Rightarrow> string list \<Rightarrow> unit res" where
  "check_deps index tid [] = Inr ()"
| "check_deps index tid (d # ds) =
     (if lookup_task index d = None then Inl (Raise UnknownDependencyErr ''depends on unknown task'')
      else if d = tid then Inl (Raise CyclicDependencyErr ''depends on itself'')
      else check_deps index tid ds)"

section \<open>Cycle detection\<close>

datatype colour = WHITE | GREY | BLACK

type_synonym colours = "(string \<times> colour) list"

type_synonym dfs_stack = "(string \<times> bool) list"

text \<open>The inner loop over \<open>index[node].deps\<close>: raise on a grey one, push the white ones.\<close>

fun push_deps :: "colours \<Rightarrow> string list \<Rightarrow> dfs_stack \<Rightarrow> dfs_stack res" where
  "push_deps col [] stack = Inr stack"
| "push_deps col (d # ds) stack =
     (case map_of col d of
        None \<Rightarrow> Inl (Raise KeyErr d)
      | Some GREY \<Rightarrow> Inl (Raise CyclicDependencyErr ''dependency cycle detected'')
      | Some WHITE \<Rightarrow> push_deps col ds ((d, False) # stack)
      | Some BLACK \<Rightarrow> push_deps col ds stack)"

definition white_count :: "colours \<Rightarrow> nat" where
  "white_count col = length (filter (\<lambda>kv. snd kv = WHITE) col)"

text \<open>A white entry weighs nothing: popping it turns a white node grey.\<close>

definition stack_weight :: "colours \<Rightarrow> dfs_stack \<Rightarrow> nat" where
  "stack_weight col stack =
     (\<Sum>e\<leftarrow>stack. if snd e then 1 else if map_of col (fst e) = Some WHITE then 0 else 2)"

lemma white_count_update:
  assumes "map_of col k = Some WHITE" "c \<noteq> WHITE"
  shows "white_count (AList.update k c col) < white_count col"
  using assms by (induction col) (auto simp: white_count_def split: if_splits)

lemma white_count_keep:
  assumes "map_of col k \<noteq> Some WHITE" "c \<noteq> WHITE"
  shows "white_count (AList.update k c col) = white_count col"
  using assms by (induction col) (auto simp: white_count_def split: if_splits)

lemma weight_update:
  assumes "map_of col k \<noteq> Some WHITE" "c \<noteq> WHITE"
  shows "stack_weight (AList.update k c col) stack = stack_weight col stack"
  using assms by (induction stack) (auto simp: stack_weight_def map_of_update_conv)

lemma push_deps_weight: "push_deps col ds stack = Inr stack' \<Longrightarrow> stack_weight col stack' = stack_weight col stack"
  by (induction col ds stack arbitrary: stack' rule: push_deps.induct)
    (auto simp: stack_weight_def split: option.splits colour.splits)

lemma weight_after_push:
  assumes "push_deps (AList.update node GREY col) ds ((node, True) # stack) = Inr stack'" "map_of col node = Some GREY"
  shows "stack_weight (AList.update node GREY col) stack' < stack_weight col ((node, False) # stack)"
  using push_deps_weight [OF assms(1)] weight_update [of col node GREY "(node, True) # stack"] assms(2)
  by (simp add: stack_weight_def)

lemma weight_processed: "stack_weight col stack < stack_weight col ((node, True) # stack)"
  by (simp add: stack_weight_def)

lemma weight_black: "map_of col node = Some BLACK \<Longrightarrow> stack_weight col stack < stack_weight col ((node, False) # stack)"
  by (simp add: stack_weight_def)

function dfs :: "task_spec list \<Rightarrow> colours \<Rightarrow> dfs_stack \<Rightarrow> colours res" where
  "dfs index col [] = Inr col"
| "dfs index col ((node, processed) # stack) =
     (if processed then dfs index (AList.update node BLACK col) stack
      else case map_of col node of
        None \<Rightarrow> Inl (Raise KeyErr node)
      | Some BLACK \<Rightarrow> dfs index col stack
      | Some _ \<Rightarrow>
          (case push_deps (AList.update node GREY col) (deps_of index node) ((node, True) # stack) of
             Inl e \<Rightarrow> Inl e
           | Inr stack' \<Rightarrow> dfs index (AList.update node GREY col) stack'))"
  by pat_completeness auto
termination
proof (relation "measures [\<lambda>(index, col, stack). white_count col, \<lambda>(index, col, stack). stack_weight col stack]", goal_cases)
  case 1
  show ?case by simp
next
  case (2 index col node processed stack)
  then show ?case
    using white_count_update [of col node BLACK] white_count_keep [of col node BLACK] weight_update [of col node BLACK stack]
      weight_processed [of col stack node]
    by (cases "map_of col node = Some WHITE") simp_all
next
  case 3
  then show ?case
    by (auto intro: white_count_update)
next
  case 4
  then show ?case
    by (auto simp: white_count_keep intro: weight_after_push)
next
  case 5
  then show ?case
    by (auto intro: weight_black)
qed

fun visit_roots :: "task_spec list \<Rightarrow> string list \<Rightarrow> colours \<Rightarrow> colours res" where
  "visit_roots index [] col = Inr col"
| "visit_roots index (r # rs) col =
     (if map_of col r \<noteq> Some WHITE then visit_roots index rs col
      else and_then (dfs index col [(r, False)]) (visit_roots index rs))"

definition assert_acyclic :: "task_spec list \<Rightarrow> unit res" where
  "assert_acyclic index =
     and_then (visit_roots index (map tk_id index) (map (\<lambda>t. (tk_id t, WHITE)) index)) (\<lambda>_. Inr ())"

fun check_tasks :: "task_spec list \<Rightarrow> task_spec list \<Rightarrow> unit res" where
  "check_tasks index [] = Inr ()"
| "check_tasks index (t # ts) = and_then (check_deps index (tk_id t) (tk_deps t)) (\<lambda>_. check_tasks index ts)"

definition validate_graph :: "task_spec list \<Rightarrow> task_spec list res" where
  "validate_graph tasks =
     and_then (index_tasks tasks) (\<lambda>index.
     and_then (check_tasks index index) (\<lambda>_.
     and_then (assert_acyclic index) (\<lambda>_. Inr index)))"

subsection \<open>The search is right\<close>

definition edges :: "task_spec list \<Rightarrow> (string \<times> string) set" where
  "edges index = {(n, d). d \<in> set (deps_of index n)}"

definition ids :: "task_spec list \<Rightarrow> string set" where
  "ids index = tk_id ` set index"

definition coloured :: "colours \<Rightarrow> colour \<Rightarrow> string set" where
  "coloured col c = {n. map_of col n = Some c}"

lemma coloured_update: "coloured (AList.update n c col) c' =
    (if c = c' then insert n (coloured col c') else coloured col c' - {n})"
  by (auto simp: coloured_def map_of_update_conv)

lemma grey_keeps_black:
  "map_of col n = Some c \<Longrightarrow> c \<noteq> BLACK \<Longrightarrow> coloured (AList.update n GREY col) BLACK = coloured col BLACK"
  by (auto simp: coloured_def map_of_update_conv)

text \<open>Every dependency of an expanded node is black or waits above its marker, and a marker reaches
  everything above it.\<close>

fun covered :: "(string \<times> string) set \<Rightarrow> string set \<Rightarrow> string set \<Rightarrow> dfs_stack \<Rightarrow> bool" where
  "covered E B A [] = True"
| "covered E B A ((x, f) # rest) =
     ((f \<longrightarrow> (\<forall>d. (x, d) \<in> E \<longrightarrow> d \<in> B \<union> A)) \<and> covered E B (insert x A) rest)"

fun markers_reach :: "(string \<times> string) set \<Rightarrow> dfs_stack \<Rightarrow> bool" where
  "markers_reach E [] = True"
| "markers_reach E ((x, f) # rest) = ((\<forall>g. (g, True) \<in> set rest \<longrightarrow> (g, x) \<in> E\<^sup>+) \<and> markers_reach E rest)"

lemma covered_mono: "covered E B A stack \<Longrightarrow> B \<union> A \<subseteq> B' \<union> A' \<Longrightarrow> covered E B' A' stack"
proof (induction E B A stack arbitrary: A' rule: covered.induct)
  case (2 E B A x f rest)
  have "covered E B' (insert x A') rest" using 2 by (intro "2.IH") auto
  then show ?case using 2 by auto
qed simp

lemma covered_pushed: "covered E B A (map (\<lambda>d. (d, False)) ds @ stack) = covered E B (set ds \<union> A) stack"
  by (induction ds arbitrary: A) (auto simp: Un_commute insert_commute)

lemma markers_pushed:
  "markers_reach E stack \<Longrightarrow> (\<And>d g. d \<in> set ds \<Longrightarrow> (g, True) \<in> set stack \<Longrightarrow> (g, d) \<in> E\<^sup>+) \<Longrightarrow>
   markers_reach E (map (\<lambda>d. (d, False)) ds @ stack)"
  by (induction ds) auto

definition dfs_inv :: "task_spec list \<Rightarrow> colours \<Rightarrow> dfs_stack \<Rightarrow> bool" where
  "dfs_inv index col stack \<longleftrightarrow>
     dom (map_of col) = ids index \<and> fst ` set stack \<subseteq> ids index
     \<and> edges index `` coloured col BLACK \<subseteq> coloured col BLACK
     \<and> (\<forall>b \<in> coloured col BLACK. (b, b) \<notin> (edges index)\<^sup>+)
     \<and> (\<forall>g \<in> coloured col GREY. (g, True) \<in> set stack)
     \<and> covered (edges index) (coloured col BLACK) {} stack \<and> markers_reach (edges index) stack"

lemma push_deps_result:
  "case push_deps col ds stack of
     Inr stack' \<Rightarrow> stack' = map (\<lambda>d. (d, False)) (rev (filter (\<lambda>d. map_of col d = Some WHITE) ds)) @ stack
        \<and> set ds \<subseteq> coloured col WHITE \<union> coloured col BLACK
   | Inl e \<Rightarrow> \<exists>d \<in> set ds. map_of col d = None \<or> map_of col d = Some GREY \<and> exn_class_of e = CyclicDependencyErr"
proof (induction col ds stack rule: push_deps.induct)
  case (2 col d ds stack)
  then show ?case
    by (cases "map_of col d"; cases "the (map_of col d)")
      (auto simp: coloured_def split: sum.splits)
qed simp

lemma closed_trancl: "(x, y) \<in> E\<^sup>+ \<Longrightarrow> E `` B \<subseteq> B \<Longrightarrow> x \<in> B \<Longrightarrow> y \<in> B"
  by (induction rule: trancl_induct) blast+

lemma blacken_acyclic:
  assumes "E `` B \<subseteq> B" "\<forall>b \<in> B. (b, b) \<notin> E\<^sup>+" "\<forall>d. (n, d) \<in> E \<longrightarrow> d \<in> B"
  shows "E `` insert n B \<subseteq> insert n B \<and> (\<forall>b \<in> insert n B. (b, b) \<notin> E\<^sup>+)"
proof -
  have "(n, n) \<notin> E\<^sup>+"
  proof (cases "n \<in> B")
    case False
    show ?thesis
    proof
      assume "(n, n) \<in> E\<^sup>+"
      then obtain d where d: "(n, d) \<in> E" "d = n \<or> (d, n) \<in> E\<^sup>+" by (meson tranclD rtranclD)
      then show False using assms False closed_trancl [OF _ assms(1)] by blast
    qed
  qed (use assms in blast)
  then show ?thesis using assms by blast
qed

lemma inv_processed: "dfs_inv index col ((n, True) # stack) \<Longrightarrow> dfs_inv index (AList.update n BLACK col) stack"
  unfolding dfs_inv_def
proof (elim conjE, intro conjI, goal_cases)
  case 3
  then show ?case
    using blacken_acyclic [of "edges index" "coloured col BLACK" n] by (simp add: coloured_update)
next
  case 4
  then show ?case
    using blacken_acyclic [of "edges index" "coloured col BLACK" n] by (simp add: coloured_update)
next
  case 6
  then have "covered (edges index) (coloured col BLACK) {n} stack" by simp
  then show ?case by (rule covered_mono) (auto simp: coloured_update)
qed (auto simp: coloured_update map_of_update_conv)

lemma inv_black: "dfs_inv index col ((n, False) # stack) \<Longrightarrow> map_of col n = Some BLACK \<Longrightarrow> dfs_inv index col stack"
  unfolding dfs_inv_def
proof (elim conjE, intro conjI, goal_cases)
  case 6
  then have "covered (edges index) (coloured col BLACK) {n} stack" by simp
  then show ?case by (rule covered_mono) (use 6 in \<open>auto simp: coloured_def\<close>)
qed auto

lemma inv_expand:
  assumes "dfs_inv index col ((n, False) # stack)" "map_of col n = Some c" "c \<noteq> BLACK"
    and "push_deps (AList.update n GREY col) (deps_of index n) ((n, True) # stack) = Inr stack'"
    and "set (deps_of index n) \<subseteq> ids index"
  shows "dfs_inv index (AList.update n GREY col) stack' \<and> insert n (fst ` set stack) \<subseteq> fst ` set stack'"
proof -
  let ?col = "AList.update n GREY col"
  let ?new = "rev (filter (\<lambda>d. map_of ?col d = Some WHITE) (deps_of index n))"
  have st: "stack' = map (\<lambda>d. (d, False)) ?new @ (n, True) # stack"
      "set (deps_of index n) \<subseteq> coloured ?col WHITE \<union> coloured ?col BLACK"
    using push_deps_result [where col = ?col and ds = "deps_of index n" and stack = "(n, True) # stack"] assms(4) by simp_all
  have E: "(n, d) \<in> edges index \<longleftrightarrow> d \<in> set (deps_of index n)" for d by (simp add: edges_def)
  have black: "coloured ?col BLACK = coloured col BLACK"
    by (rule grey_keeps_black [OF assms(2,3)])
  have new: "set ?new = set (deps_of index n) \<inter> coloured ?col WHITE" by (auto simp: coloured_def)
  have inv: "dom (map_of col) = ids index" "insert n (fst ` set stack) \<subseteq> ids index"
     "edges index `` coloured col BLACK \<subseteq> coloured col BLACK" "\<forall>b \<in> coloured col BLACK. (b, b) \<notin> (edges index)\<^sup>+"
     "\<forall>g \<in> coloured col GREY. (g, True) \<in> set stack" "covered (edges index) (coloured col BLACK) {n} stack"
     "\<forall>g. (g, True) \<in> set stack \<longrightarrow> (g, n) \<in> (edges index)\<^sup>+" "markers_reach (edges index) stack"
    using assms(1) by (auto simp: dfs_inv_def)
  have "covered (edges index) (coloured ?col BLACK) {} stack'"
    unfolding st(1) covered_pushed covered.simps
  proof (intro conjI impI allI)
    show "d \<in> coloured ?col BLACK \<union> (set ?new \<union> {})" if "(n, d) \<in> edges index" for d
      using that st(2) new E by auto
    show "covered (edges index) (coloured ?col BLACK) (insert n (set ?new \<union> {})) stack"
      by (rule covered_mono [OF inv(6)]) (auto simp: black)
  qed
  moreover have "markers_reach (edges index) stack'"
    unfolding st(1)
  proof (rule markers_pushed)
    show "markers_reach (edges index) ((n, True) # stack)" using inv(7,8) by simp
    show "(g, d) \<in> (edges index)\<^sup>+" if "d \<in> set ?new" "(g, True) \<in> set ((n, True) # stack)" for d g
      using that inv(7) E by (auto intro: trancl_into_trancl)
  qed
  moreover have "dom (map_of ?col) = ids index" using inv(1,2) by (auto simp: map_of_update_conv)
  moreover have "fst ` set stack' \<subseteq> ids index" using inv(2) assms(5) new by (auto simp: st(1))
  moreover have "\<forall>g \<in> coloured ?col GREY. (g, True) \<in> set stack'" using inv(5) by (auto simp: coloured_update st(1))
  moreover have "insert n (fst ` set stack) \<subseteq> fst ` set stack'" by (auto simp: st(1))
  ultimately show ?thesis using inv(3,4) by (simp add: dfs_inv_def black)
qed

lemma inv_cycle:
  assumes "dfs_inv index col ((n, False) # stack)" "map_of col n = Some c"
    and "push_deps (AList.update n GREY col) (deps_of index n) ((n, True) # stack) = Inl e"
    and "set (deps_of index n) \<subseteq> ids index"
  shows "exn_class_of e = CyclicDependencyErr \<and> (n, n) \<in> (edges index)\<^sup>+"
proof -
  let ?col = "AList.update n GREY col"
  obtain d where d: "d \<in> set (deps_of index n)"
      "map_of ?col d = None \<or> map_of ?col d = Some GREY \<and> exn_class_of e = CyclicDependencyErr"
    using push_deps_result [where col = ?col and ds = "deps_of index n" and stack = "(n, True) # stack"] assms(3) by auto
  have "map_of col d \<noteq> None" using d(1) assms(1,4) by (auto simp: dfs_inv_def)
  then have g: "map_of ?col d = Some GREY" "exn_class_of e = CyclicDependencyErr"
    using d(2) by (auto simp: map_of_update_conv split: if_splits)
  have nd: "(n, d) \<in> edges index" using d(1) by (simp add: edges_def)
  have "d = n \<or> (d, n) \<in> (edges index)\<^sup>+"
    using g(1) assms(1) by (auto simp: dfs_inv_def map_of_update_conv coloured_def split: if_splits)
  then show ?thesis using nd g(2) by (auto intro: trancl_into_trancl2)
qed

lemma dfs_result:
  assumes "\<And>n. set (deps_of index n) \<subseteq> ids index"
  shows "dfs_inv index col stack \<Longrightarrow>
    case dfs index col stack of
      Inr col' \<Rightarrow> dfs_inv index col' [] \<and> fst ` set stack \<union> coloured col BLACK \<subseteq> coloured col' BLACK
    | Inl e \<Rightarrow> exn_class_of e = CyclicDependencyErr \<and> \<not> acyclic (edges index)"
  using assms
proof (induction index col stack rule: dfs.induct)
  case (1 index col)
  then show ?case by simp
next
  case (2 index col node processed stack)
  note inv = "2.prems"(1) and known = "2.prems"(2)
  have "node \<in> dom (map_of col)" using inv by (simp add: dfs_inv_def)
  then obtain c where c: "map_of col node = Some c" by blast
  show ?case
  proof (cases processed)
    case True
    have "dfs_inv index (AList.update node BLACK col) stack" using inv True inv_processed by simp
    from "2.IH"(1) [OF True this known] show ?thesis
      using True by (auto simp: coloured_update split: sum.splits)
  next
    case unprocessed: False
    show ?thesis
    proof (cases "c = BLACK")
      case True
      have "dfs_inv index col stack" using inv unprocessed inv_black c True by simp
      from "2.IH"(4) [OF unprocessed _ _ this known] c True unprocessed show ?thesis
        by (auto simp: coloured_def split: sum.splits)
    next
      case False
      show ?thesis
      proof (cases "push_deps (AList.update node GREY col) (deps_of index node) ((node, True) # stack)")
        case (Inl e)
        then have "exn_class_of e = CyclicDependencyErr \<and> (node, node) \<in> (edges index)\<^sup>+"
          using inv_cycle [OF _ c Inl known] inv unprocessed by simp
        then show ?thesis using Inl c False unprocessed by (cases c) (auto simp: acyclic_def)
      next
        case (Inr stack')
        note ex = inv_expand [OF _ c False Inr known]
        have keep: "coloured (AList.update node GREY col) BLACK = coloured col BLACK"
          by (rule grey_keeps_black [OF c False])
        have "dfs_inv index (AList.update node GREY col) stack'" using ex inv unprocessed by simp
        with "2.IH"(2,3) [OF unprocessed _ _ Inr _ known] c False
        have "case dfs index (AList.update node GREY col) stack' of
            Inr col' \<Rightarrow> dfs_inv index col' []
              \<and> fst ` set stack' \<union> coloured (AList.update node GREY col) BLACK \<subseteq> coloured col' BLACK
          | Inl e \<Rightarrow> exn_class_of e = CyclicDependencyErr \<and> \<not> acyclic (edges index)"
          by (cases c) simp_all
        from this [unfolded keep] show ?thesis using ex inv unprocessed Inr c False by (cases c) (auto split: sum.splits)
      qed
    qed
  qed
qed

lemma visit_roots_result:
  assumes "\<And>n. set (deps_of index n) \<subseteq> ids index"
  shows "dfs_inv index col [] \<Longrightarrow> set rs \<subseteq> ids index \<Longrightarrow>
    case visit_roots index rs col of
      Inr col' \<Rightarrow> dfs_inv index col' [] \<and> set rs \<union> coloured col BLACK \<subseteq> coloured col' BLACK
    | Inl e \<Rightarrow> exn_class_of e = CyclicDependencyErr \<and> \<not> acyclic (edges index)"
  using assms
proof (induction index rs col rule: visit_roots.induct)
  case (1 index col)
  then show ?case by simp
next
  case (2 index r rs col)
  note inv = "2.prems"(1) and sub = "2.prems"(2) and known = "2.prems"(3)
  have "r \<in> dom (map_of col)" using inv sub by (simp add: dfs_inv_def)
  then obtain c where c: "map_of col r = Some c" by blast
  show ?case
  proof (cases "c = WHITE")
    case False
    have "c = BLACK" using inv c False by (cases c) (auto simp: dfs_inv_def coloured_def)
    then show ?thesis using "2.IH"(1) [OF _ inv _ known] sub c
      by (auto simp: coloured_def split: sum.splits)
  next
    case True
    have "dfs_inv index col [(r, False)]" using inv sub by (simp add: dfs_inv_def)
    note d = dfs_result [OF known this]
    show ?thesis
    proof (cases "dfs index col [(r, False)]")
      case (Inl e)
      then show ?thesis using d c True by simp
    next
      case (Inr col')
      then have "dfs_inv index col' []" using d by simp
      from "2.IH"(2) [OF _ this _ known] show ?thesis
        using d sub c True Inr by (auto split: sum.splits)
    qed
  qed
qed

lemma lookup_task_ids: "lookup_task index n \<noteq> None \<longleftrightarrow> n \<in> ids index"
  by (auto simp: lookup_task_def ids_def find_None_iff)

lemma lookup_task_None: "lookup_task index n = None \<longleftrightarrow> n \<notin> ids index"
  using lookup_task_ids [of index n] by blast

lemma lookup_task_in: "lookup_task index n = Some t \<Longrightarrow> t \<in> set index \<and> tk_id t = n"
  by (auto simp: lookup_task_def find_Some_iff)

lemma lookup_task_distinct: "distinct (map tk_id index) \<Longrightarrow> t \<in> set index \<Longrightarrow> lookup_task index (tk_id t) = Some t"
  using lookup_task_in [of index "tk_id t"] lookup_task_ids [of index "tk_id t"]
  by (auto simp: ids_def distinct_map inj_on_def)

lemma deps_of_task: "distinct (map tk_id index) \<Longrightarrow> t \<in> set index \<Longrightarrow> deps_of index (tk_id t) = tk_deps t"
  by (simp add: deps_of_def lookup_task_distinct)

lemma deps_known:
  assumes "(\<Union>t \<in> set index. set (tk_deps t)) \<subseteq> ids index"
  shows "set (deps_of index n) \<subseteq> ids index"
  using assms by (cases "lookup_task index n") (auto simp: deps_of_def dest: lookup_task_in)

lemma assert_acyclic_result:
  assumes "(\<Union>t \<in> set index. set (tk_deps t)) \<subseteq> ids index"
  shows "case assert_acyclic index of
      Inr u \<Rightarrow> acyclic (edges index)
    | Inl e \<Rightarrow> exn_class_of e = CyclicDependencyErr \<and> \<not> acyclic (edges index)"
proof -
  let ?col = "map (\<lambda>t. (tk_id t, WHITE)) index"
  have w: "map_of ?col n = (if n \<in> ids index then Some WHITE else None)" for n
    by (induction index) (auto simp: ids_def)
  have "dfs_inv index ?col []"
    using w by (auto simp: dfs_inv_def coloured_def split: if_splits)
  note v = visit_roots_result [OF deps_known [OF assms] this, of "map tk_id index"]
  show ?thesis
  proof (cases "visit_roots index (map tk_id index) ?col")
    case (Inl e)
    then show ?thesis using v by (simp add: assert_acyclic_def ids_def)
  next
    case (Inr col')
    then have all: "ids index \<subseteq> coloured col' BLACK" "\<forall>b \<in> coloured col' BLACK. (b, b) \<notin> (edges index)\<^sup>+"
      using v by (auto simp: dfs_inv_def ids_def)
    have "x \<in> ids index" if "(x, x) \<in> (edges index)\<^sup>+" for x
    proof -
      obtain d where "(x, d) \<in> edges index" using \<open>(x, x) \<in> (edges index)\<^sup>+\<close> by (meson tranclD)
      then have "lookup_task index x \<noteq> None" by (cases "lookup_task index x") (auto simp: edges_def deps_of_def)
      then show ?thesis using lookup_task_ids by blast
    qed
    then show ?thesis using all Inr by (auto simp: assert_acyclic_def acyclic_def)
  qed
qed

lemma index_from_result:
  "distinct (map tk_id index) \<Longrightarrow>
   index_from index ts = (if distinct (map tk_id (index @ ts)) then Inr (index @ ts)
     else Inl (Raise DuplicateTaskErr ''duplicate task id''))"
proof (induction index ts rule: index_from.induct)
  case (2 index t ts)
  show ?case
  proof (cases "tk_id t \<in> ids index")
    case True
    then show ?thesis using lookup_task_None [of index "tk_id t"] by (auto simp: ids_def)
  next
    case False
    then show ?thesis using 2 lookup_task_None [of index "tk_id t"] by (simp add: ids_def)
  qed
qed simp

lemma check_deps_iff: "check_deps index tid ds = Inr u \<longleftrightarrow> set ds \<subseteq> ids index \<and> tid \<notin> set ds"
  by (induction index tid ds rule: check_deps.induct) (auto simp: lookup_task_None)

lemma check_tasks_iff:
  "check_tasks index ts = Inr u \<longleftrightarrow> (\<Union>t \<in> set ts. set (tk_deps t)) \<subseteq> ids index \<and> (\<forall>t \<in> set ts. tk_id t \<notin> set (tk_deps t))"
  by (induction index ts rule: check_tasks.induct) (auto simp: and_then_Inr_conv check_deps_iff)

subsection \<open>Accepted graphs\<close>

text \<open>A graph accepted by \<open>validate_graph\<close>.\<close>

definition dag :: "task_spec list \<Rightarrow> bool" where
  "dag tasks \<longleftrightarrow> distinct (map tk_id tasks) \<and> (\<Union>t \<in> set tasks. set (tk_deps t)) \<subseteq> ids tasks \<and> acyclic (edges tasks)"

lemma finite_edges: "(\<Union>t \<in> set index. set (tk_deps t)) \<subseteq> ids index \<Longrightarrow> finite (edges index)"
proof -
  assume known: "(\<Union>t \<in> set index. set (tk_deps t)) \<subseteq> ids index"
  have "n \<in> ids index" if "d \<in> set (deps_of index n)" for n d
    using that lookup_task_ids [of index n] by (cases "lookup_task index n") (auto simp: deps_of_def)
  then have "edges index \<subseteq> ids index \<times> ids index" using deps_known [OF known] by (auto simp: edges_def)
  then show ?thesis by (rule finite_subset) (simp add: ids_def)
qed

lemma dag_wf: "dag tasks \<Longrightarrow> wf ((edges tasks)\<inverse>)"
  by (simp add: dag_def finite_edges finite_acyclic_wf_converse)

lemma dag_induct:
  assumes "dag tasks" "t \<in> set tasks"
    and "\<And>t. t \<in> set tasks \<Longrightarrow> (\<And>u. u \<in> set tasks \<Longrightarrow> tk_id u \<in> set (tk_deps t) \<Longrightarrow> P u) \<Longrightarrow> P t"
  shows "P t"
proof -
  have "\<forall>t \<in> set tasks. tk_id t = k \<longrightarrow> P t" for k
  proof (induction k rule: wf_induct_rule [OF dag_wf [OF assms(1)]])
    case (1 k)
    show ?case
    proof (intro ballI impI)
      fix t assume t: "t \<in> set tasks" "tk_id t = k"
      show "P t"
      proof (rule assms(3) [OF t(1)])
        fix u assume u: "u \<in> set tasks" "tk_id u \<in> set (tk_deps t)"
        then have "(tk_id u, k) \<in> (edges tasks)\<inverse>"
          using t deps_of_task [of tasks t] assms(1) by (simp add: edges_def dag_def)
        then show "P u" using 1 u(1) by blast
      qed
    qed
  qed
  then show ?thesis using assms(2) by blast
qed

lemma dag_dep: "dag tasks \<Longrightarrow> t \<in> set tasks \<Longrightarrow> d \<in> set (tk_deps t) \<Longrightarrow> \<exists>u \<in> set tasks. tk_id u = d"
  by (auto simp: dag_def ids_def)

lemma validate_dag: "validate_graph tasks = Inr index \<longleftrightarrow> index = tasks \<and> dag tasks"
proof (cases "dag tasks")
  case True
  have "tk_id t \<notin> set (tk_deps t)" if "t \<in> set tasks" for t
  proof
    assume "tk_id t \<in> set (tk_deps t)"
    then have "(tk_id t, tk_id t) \<in> edges tasks" using that deps_of_task [of tasks t] True by (simp add: edges_def dag_def)
    then show False using True by (auto simp: acyclic_def dag_def)
  qed
  then show ?thesis
    using True assert_acyclic_result [of tasks]
    by (auto simp: dag_def validate_graph_def index_tasks_def index_from_result and_then_Inr_conv check_tasks_iff
        split: sum.splits)
next
  case False
  then show ?thesis
    using assert_acyclic_result [of tasks]
    by (auto simp: dag_def validate_graph_def index_tasks_def index_from_result and_then_Inr_conv check_tasks_iff
        split: sum.splits)
qed

text \<open>
  A task list is accepted exactly when it is a DAG: the ids are distinct, every dependency
  is an id of the list, and the dependency relation has no cycle.  The index is the list itself.
\<close>

theorem validate_graph_iff:
  "validate_graph tasks = Inr index \<longleftrightarrow>
     index = tasks \<and> distinct (map tk_id tasks) \<and> (\<Union>t \<in> set tasks. set (tk_deps t)) \<subseteq> ids tasks \<and> acyclic (edges tasks)"
  by (simp add: validate_dag dag_def)

section \<open>The canonical pipeline graph\<close>

text \<open>The ids of the tasks of a segment and of a repository.\<close>

definition tts_id :: "string \<Rightarrow> string" where
  "tts_id sid = ''tts_'' @ sid"

definition record_id :: "string \<Rightarrow> string" where
  "record_id rid = ''record_'' @ rid"

definition norm_id :: "string \<Rightarrow> string" where
  "norm_id rid = ''norm_'' @ rid"

lemma task_ids [simp]:
  "tts_id s \<noteq> []" "record_id r \<noteq> []" "norm_id r \<noteq> []"
  "tts_id s = tts_id s' \<longleftrightarrow> s = s'" "record_id r = record_id r' \<longleftrightarrow> r = r'" "norm_id r = norm_id r' \<longleftrightarrow> r = r'"
  "tts_id s \<noteq> record_id r" "record_id r \<noteq> tts_id s" "tts_id s \<noteq> norm_id r" "norm_id r \<noteq> tts_id s"
  "record_id r \<noteq> norm_id r'" "norm_id r' \<noteq> record_id r"
  by (simp_all add: tts_id_def record_id_def norm_id_def)

definition fixed_ids :: "string set" where
  "fixed_ids = {''script'', ''audio_mix'', ''compose'', ''mux'', ''distribute''}"

lemma fixed_id_simps [simp]: "tts_id s \<notin> fixed_ids" "record_id r \<notin> fixed_ids" "norm_id r \<notin> fixed_ids"
  by (simp_all add: tts_id_def record_id_def norm_id_def fixed_ids_def)

text \<open>\<open>add\<close> appends a task; \<open>frozenset\<close> removes repeated dependencies.\<close>

definition add_task :: "string \<Rightarrow> string \<Rightarrow> string list \<Rightarrow> task_spec list \<Rightarrow> task_spec list res" where
  "add_task tid stage deps specs = and_then (make_task tid stage (remdups deps)) (\<lambda>t. Inr (specs @ [t]))"

fun add_tts :: "string list \<Rightarrow> task_spec list \<Rightarrow> task_spec list res" where
  "add_tts [] specs = Inr specs"
| "add_tts (sid # sids) specs =
     and_then (add_task (tts_id sid) ''tts'' [''script''] specs) (add_tts sids)"

fun add_clips :: "string list \<Rightarrow> task_spec list \<Rightarrow> task_spec list res" where
  "add_clips [] specs = Inr specs"
| "add_clips (rid # rids) specs =
     and_then (add_task (record_id rid) ''record'' [''script''] specs) (\<lambda>specs.
     and_then (add_task (norm_id rid) ''normalize'' [record_id rid] specs) (add_clips rids))"

definition build_generation_dag :: "string list \<Rightarrow> string list \<Rightarrow> bool \<Rightarrow> task_spec list res" where
  "build_generation_dag segment_ids repo_ids distribute =
     and_then (add_task ''script'' ''script'' [] []) (\<lambda>specs.
     and_then (add_tts segment_ids specs) (\<lambda>specs.
     let tts_ids = map tts_id segment_ids in
     and_then (add_clips repo_ids specs) (\<lambda>specs.
     let norm_ids = map norm_id repo_ids in
     and_then (add_task ''audio_mix'' ''audio_mix'' (if tts_ids = [] then [''script''] else tts_ids) specs) (\<lambda>specs.
     and_then (add_task ''compose'' ''compose'' (''audio_mix'' # norm_ids) specs) (\<lambda>specs.
     and_then (add_task ''mux'' ''mux'' [''compose''] specs) (\<lambda>specs.
     and_then (if distribute then add_task ''distribute'' ''distribute'' [''mux''] specs else Inr specs) (\<lambda>specs.
     and_then (validate_graph specs) (\<lambda>_. Inr specs))))))))"

definition tts_task :: "string \<Rightarrow> task_spec" where
  "tts_task s = \<lparr>tk_id = tts_id s, tk_stage = ''tts'', tk_deps = [''script'']\<rparr>"

definition clip_tasks :: "string \<Rightarrow> task_spec list" where
  "clip_tasks r =
     [\<lparr>tk_id = record_id r, tk_stage = ''record'', tk_deps = [''script'']\<rparr>,
      \<lparr>tk_id = norm_id r, tk_stage = ''normalize'', tk_deps = [record_id r]\<rparr>]"

definition final_tasks :: "string list \<Rightarrow> string list \<Rightarrow> bool \<Rightarrow> task_spec list" where
  "final_tasks segs repos distribute =
     [\<lparr>tk_id = ''audio_mix'', tk_stage = ''audio_mix'',
        tk_deps = remdups (if segs = [] then [''script''] else map tts_id segs)\<rparr>,
      \<lparr>tk_id = ''compose'', tk_stage = ''compose'', tk_deps = remdups (''audio_mix'' # map norm_id repos)\<rparr>,
      \<lparr>tk_id = ''mux'', tk_stage = ''mux'', tk_deps = [''compose'']\<rparr>]
     @ (if distribute then [\<lparr>tk_id = ''distribute'', tk_stage = ''distribute'', tk_deps = [''mux'']\<rparr>] else [])"

definition pipeline_tasks :: "string list \<Rightarrow> string list \<Rightarrow> bool \<Rightarrow> task_spec list" where
  "pipeline_tasks segs repos distribute =
     \<lparr>tk_id = ''script'', tk_stage = ''script'', tk_deps = []\<rparr>
     # map tts_task segs @ concat (map clip_tasks repos) @ final_tasks segs repos distribute"

lemma add_task_ok: "tid \<noteq> [] \<Longrightarrow> stage \<noteq> [] \<Longrightarrow>
    add_task tid stage deps specs = Inr (specs @ [\<lparr>tk_id = tid, tk_stage = stage, tk_deps = remdups deps\<rparr>])"
  by (simp add: add_task_def make_task_def)

lemma add_tts_ok: "add_tts segs specs = Inr (specs @ map tts_task segs)"
  by (induction segs specs rule: add_tts.induct) (simp_all add: add_task_ok tts_task_def)

lemma add_clips_ok: "add_clips repos specs = Inr (specs @ concat (map clip_tasks repos))"
  by (induction repos specs rule: add_clips.induct) (simp_all add: add_task_ok clip_tasks_def)

lemma build_is_validation:
  "build_generation_dag segs repos distribute =
     and_then (validate_graph (pipeline_tasks segs repos distribute)) (\<lambda>_. Inr (pipeline_tasks segs repos distribute))"
  by (cases "segs = []"; cases distribute)
    (simp_all add: build_generation_dag_def add_task_ok add_tts_ok add_clips_ok pipeline_tasks_def final_tasks_def Let_def)

text \<open>The stages are told apart by the first letter of an id, and a dependency is at an earlier level.\<close>

definition level_of :: "string \<Rightarrow> nat" where
  "level_of tid =
     (case tid of
        [] \<Rightarrow> 0
      | c # _ \<Rightarrow> if c = CHR ''s'' then 0 else if c = CHR ''t'' \<or> c = CHR ''r'' then 1
          else if c = CHR ''n'' \<or> c = CHR ''a'' then 2 else if c = CHR ''c'' then 3 else if c = CHR ''m'' then 4 else 5)"

lemma pipeline_levels:
  "t \<in> set (pipeline_tasks segs repos distribute) \<Longrightarrow> d \<in> set (tk_deps t) \<Longrightarrow> level_of d < level_of (tk_id t)"
  by (auto simp: pipeline_tasks_def tts_task_def clip_tasks_def final_tasks_def level_of_def tts_id_def record_id_def norm_id_def split: if_splits)

lemma acyclic_by_level: "(\<And>n d. (n, d) \<in> E \<Longrightarrow> level_of d < level_of n) \<Longrightarrow> acyclic E"
proof -
  assume lt: "\<And>n d. (n, d) \<in> E \<Longrightarrow> level_of d < level_of n"
  have "level_of y < level_of x" if "(x, y) \<in> E\<^sup>+" for x y
    using that by (induction rule: trancl_induct) (auto dest: lt)
  then show ?thesis by (fastforce simp: acyclic_def)
qed

lemma pipeline_acyclic: "acyclic (edges (pipeline_tasks segs repos distribute))"
proof (rule acyclic_by_level)
  fix n d assume "(n, d) \<in> edges (pipeline_tasks segs repos distribute)"
  then obtain t where "t \<in> set (pipeline_tasks segs repos distribute)" "tk_id t = n" "d \<in> set (tk_deps t)"
    by (cases "lookup_task (pipeline_tasks segs repos distribute) n") (auto simp: edges_def deps_of_def dest: lookup_task_in)
  then show "level_of d < level_of n" using pipeline_levels by blast
qed

lemma ids_simps [simp]: "ids [] = {}" "ids (t # ts) = insert (tk_id t) (ids ts)" "ids (ts @ us) = ids ts \<union> ids us"
  by (auto simp: ids_def)

lemma ids_pipeline:
  "ids (map tts_task segs) = tts_id ` set segs"
  "ids (concat (map clip_tasks repos)) = record_id ` set repos \<union> norm_id ` set repos"
proof -
  show "ids (map tts_task segs) = tts_id ` set segs"
    by (induction segs) (simp_all add: tts_task_def)
  show "ids (concat (map clip_tasks repos)) = record_id ` set repos \<union> norm_id ` set repos"
    by (induction repos) (auto simp: clip_tasks_def)
qed

lemma cover_sets:
  "A \<subseteq> {x} \<Longrightarrow> B \<subseteq> insert x R \<Longrightarrow> C \<subseteq> insert x F \<union> T \<union> N \<Longrightarrow> A \<union> B \<union> C \<subseteq> insert x (T \<union> (R \<union> N) \<union> F)"
  by blast

lemma pipeline_known:
  "(\<Union>t \<in> set (pipeline_tasks segs repos distribute). set (tk_deps t)) \<subseteq> ids (pipeline_tasks segs repos distribute)"
proof -
  have "(\<Union>t \<in> set (map tts_task segs). set (tk_deps t)) \<subseteq> {''script''}" by (auto simp: tts_task_def)
  moreover have "(\<Union>t \<in> set (concat (map clip_tasks repos)). set (tk_deps t)) \<subseteq> insert ''script'' (record_id ` set repos)"
    by (auto simp: clip_tasks_def)
  moreover have "(\<Union>t \<in> set (final_tasks segs repos distribute). set (tk_deps t))
      \<subseteq> insert ''script'' (ids (final_tasks segs repos distribute)) \<union> tts_id ` set segs \<union> norm_id ` set repos"
    by (auto simp: final_tasks_def split: if_splits)
  moreover have "(\<Union>t \<in> set (pipeline_tasks segs repos distribute). set (tk_deps t))
      = (\<Union>t \<in> set (map tts_task segs). set (tk_deps t)) \<union> (\<Union>t \<in> set (concat (map clip_tasks repos)). set (tk_deps t))
        \<union> (\<Union>t \<in> set (final_tasks segs repos distribute). set (tk_deps t))"
    unfolding pipeline_tasks_def by (simp only: set_simps set_append UN_insert UN_Un task_spec.select_convs Un_empty_left Un_assoc)
  moreover have "ids (pipeline_tasks segs repos distribute)
      = insert ''script'' (tts_id ` set segs \<union> (record_id ` set repos \<union> norm_id ` set repos) \<union> ids (final_tasks segs repos distribute))"
    unfolding pipeline_tasks_def by (simp only: ids_simps ids_pipeline task_spec.select_convs Un_assoc)
  ultimately show ?thesis using cover_sets by (simp only:)
qed

lemma distinct_clips:
  "distinct (map tk_id (concat (map clip_tasks repos))) = distinct repos"
proof (induction repos)
  case (Cons r repos)
  have "tk_id ` set (concat (map clip_tasks repos)) = record_id ` set repos \<union> norm_id ` set repos"
    using ids_pipeline(2) by (simp only: ids_def)
  then show ?case using Cons by (auto simp: clip_tasks_def)
qed simp

lemma distinct_tts: "distinct (map tk_id (map tts_task segs)) = distinct segs"
  by (induction segs) (auto simp: tts_task_def)

lemma distinct_ids_append:
  "distinct (map tk_id (ts @ us)) \<longleftrightarrow> distinct (map tk_id ts) \<and> distinct (map tk_id us) \<and> ids ts \<inter> ids us = {}"
  by (simp add: ids_def)

lemma apart_sets:
  "F \<subseteq> X \<Longrightarrow> A \<inter> B = {} \<Longrightarrow> A \<inter> X = {} \<Longrightarrow> B \<inter> X = {} \<Longrightarrow> x \<in> X \<Longrightarrow> x \<notin> F \<Longrightarrow>
   A \<inter> (B \<union> F) = {} \<and> B \<inter> F = {} \<and> x \<notin> A \<union> (B \<union> F)"
  by blast

lemma pipeline_distinct:
  "distinct (map tk_id (pipeline_tasks segs repos distribute)) \<longleftrightarrow> distinct segs \<and> distinct repos"
proof -
  have final: "distinct (map tk_id (final_tasks segs repos distribute))" "ids (final_tasks segs repos distribute) \<subseteq> fixed_ids"
    by (simp_all add: final_tasks_def fixed_ids_def)
  have script: "''script'' \<in> fixed_ids" "''script'' \<notin> ids (final_tasks segs repos distribute)"
    by (simp_all add: final_tasks_def fixed_ids_def)
  have "ids (map tts_task segs) \<inter> ids (concat (map clip_tasks repos)) = {}"
    "ids (map tts_task segs) \<inter> fixed_ids = {}" "ids (concat (map clip_tasks repos)) \<inter> fixed_ids = {}"
    by (auto simp: ids_pipeline)
  note apart = apart_sets [OF final(2) this script]
  have "distinct (map tk_id (pipeline_tasks segs repos distribute)) \<longleftrightarrow>
      ''script'' \<notin> ids (map tts_task segs @ concat (map clip_tasks repos) @ final_tasks segs repos distribute)
      \<and> distinct (map tk_id (map tts_task segs @ concat (map clip_tasks repos) @ final_tasks segs repos distribute))"
    unfolding pipeline_tasks_def by (simp only: list.map distinct.simps ids_def set_map task_spec.select_convs)
  also have "\<dots> \<longleftrightarrow> distinct segs \<and> distinct repos"
    unfolding distinct_ids_append ids_simps distinct_tts distinct_clips by (simp only: apart final(1) simp_thms)
  finally show ?thesis .
qed

text \<open>
  The canonical pipeline is built exactly when the segment ids are distinct and the repository
  ids are distinct, whatever strings they are: then it is the accepted graph of the script, one TTS
  task per segment, a recording and a normalization per repository, and the mix, composition, mux and
  distribution; otherwise the builder raises the duplicate-task error.
\<close>

theorem build_generation_dag_valid:
  "build_generation_dag segs repos distribute =
     (if distinct segs \<and> distinct repos then Inr (pipeline_tasks segs repos distribute)
      else Inl (Raise DuplicateTaskErr ''duplicate task id''))"
proof (cases "distinct segs \<and> distinct repos")
  case True
  then have "validate_graph (pipeline_tasks segs repos distribute) = Inr (pipeline_tasks segs repos distribute)"
    using pipeline_distinct pipeline_known pipeline_acyclic by (simp add: validate_dag dag_def)
  then show ?thesis using True by (simp add: build_is_validation)
next
  case False
  then have "index_tasks (pipeline_tasks segs repos distribute) = Inl (Raise DuplicateTaskErr ''duplicate task id'')"
    using pipeline_distinct [of segs repos distribute] index_from_result [of "[]" "pipeline_tasks segs repos distribute"]
    by (simp add: index_tasks_def)
  then show ?thesis using False by (simp add: build_is_validation validate_graph_def)
qed

end
