(* ===== verification/Scheduler.thy ===== *)
theory Scheduler
  imports TaskGraph BlobStore "HOL-Library.Char_ord" "HOL-Library.List_Lexorder"
begin

text \<open>
  \<open>podcaster/scheduler.py\<close>: \<open>run_dag\<close>, the dependency-driven scheduler, and its checkpoint.  The
  scheduler thread and its workers share one state under one lock; what a task's callable does is a
  parameter, and so is the order in which the workers of running tasks take the lock.  Time stamps and
  result values are left out of a task's result.  A task handed to the pool counts as running even when
  the pool has fewer threads and queues it.
\<close>

section \<open>Running a graph\<close>

definition DEFAULT_CONCURRENCY :: int where
  "DEFAULT_CONCURRENCY = 1"

definition DEFAULT_STAGE_CONCURRENCY :: "(string \<times> int) list" where
  "DEFAULT_STAGE_CONCURRENCY =
     [(''script'', 1), (''tts'', 8), (''record'', 3), (''audio_mix'', 1), (''normalize'', 2),
      (''compose'', 2), (''mux'', 1), (''distribute'', 1)]"

fun resolve_from :: "(string \<times> int) list \<Rightarrow> int \<Rightarrow> task_spec list \<Rightarrow> (string \<times> nat) list \<Rightarrow> (string \<times> nat) list" where
  "resolve_from overrides fallback [] caps = caps"
| "resolve_from overrides fallback (t # ts) caps =
     (if map_of caps (tk_stage t) \<noteq> None then resolve_from overrides fallback ts caps
      else
        let cap = (case map_of overrides (tk_stage t) of None \<Rightarrow> fallback | Some c \<Rightarrow> c)
        in resolve_from overrides fallback ts (caps @ [(tk_stage t, nat (max 1 cap))]))"

definition overrides_of :: "(string \<times> int) list option \<Rightarrow> (string \<times> int) list" where
  "overrides_of stage_concurrency =
     (case stage_concurrency of None \<Rightarrow> DEFAULT_STAGE_CONCURRENCY
        | Some c \<Rightarrow> if c = [] then DEFAULT_STAGE_CONCURRENCY else c)"

definition resolve_caps :: "task_spec list \<Rightarrow> (string \<times> int) list option \<Rightarrow> int \<Rightarrow> (string \<times> nat) list" where
  "resolve_caps index stage_concurrency fallback = resolve_from (overrides_of stage_concurrency) fallback index []"

datatype task_state = PENDING | RUNNING | COMPLETED | FAILED | BLOCKED | SKIPPED

definition terminal_states :: "task_state list" where
  "terminal_states = [COMPLETED, FAILED, BLOCKED, SKIPPED]"

definition satisfied_states :: "task_state list" where
  "satisfied_states = [COMPLETED, SKIPPED]"

record task_result =
  tr_id :: string
  tr_stage :: string
  tr_state :: task_state
  tr_error :: "string option"
  tr_resumed :: bool

text \<open>
  The scheduler's shared state: the states and results dictionaries, the counters of the stage
  semaphores, the number of running tasks, the calls of the progress callback, and the ids that the
  workers passed to \<open>checkpoint.mark_completed\<close>.
\<close>

record sched =
  sd_states :: "(string \<times> task_state) list"
  sd_free :: "(string \<times> nat) list"
  sd_running :: int
  sd_results :: "(string \<times> task_result) list"
  sd_log :: "task_result list"
  sd_marked :: "string list"

definition state_of :: "sched \<Rightarrow> string \<Rightarrow> task_state option" where
  "state_of st tid = map_of (sd_states st) tid"

definition set_state :: "string \<Rightarrow> task_state \<Rightarrow> sched \<Rightarrow> sched" where
  "set_state tid s st = st\<lparr>sd_states := AList.update tid s (sd_states st)\<rparr>"

text \<open>A callback that raises is only logged.\<close>

definition emit :: "task_result \<Rightarrow> sched \<Rightarrow> sched" where
  "emit r st = st\<lparr>sd_results := AList.update (tr_id r) r (sd_results st), sd_log := sd_log st @ [r]\<rparr>"

fun seed :: "string list \<Rightarrow> task_spec list \<Rightarrow> sched \<Rightarrow> sched" where
  "seed already_done [] st = st"
| "seed already_done (t # ts) st =
     seed already_done ts
       (if tk_id t \<in> set already_done
        then emit \<lparr>tr_id = tk_id t, tr_stage = tk_stage t, tr_state = SKIPPED, tr_error = None, tr_resumed = True\<rparr>
               (set_state (tk_id t) SKIPPED st)
        else set_state (tk_id t) PENDING st)"

definition deps_satisfied :: "sched \<Rightarrow> task_spec \<Rightarrow> bool" where
  "deps_satisfied st t = list_all (\<lambda>d. \<exists>s \<in> set satisfied_states. state_of st d = Some s) (tk_deps t)"

definition dep_blocked :: "sched \<Rightarrow> task_spec \<Rightarrow> bool" where
  "dep_blocked st t = list_ex (\<lambda>d. state_of st d = Some FAILED \<or> state_of st d = Some BLOCKED) (tk_deps t)"

definition all_terminal :: "task_spec list \<Rightarrow> sched \<Rightarrow> bool" where
  "all_terminal index st = list_all (\<lambda>t. \<exists>s \<in> set terminal_states. state_of st (tk_id t) = Some s) index"

definition block_task :: "task_spec \<Rightarrow> sched \<Rightarrow> sched" where
  "block_task t st =
     emit \<lparr>tr_id = tk_id t, tr_stage = tk_stage t, tr_state = BLOCKED, tr_error = Some ''dependency failed'', tr_resumed = False\<rparr>
       (set_state (tk_id t) BLOCKED st)"

definition blockable :: "sched \<Rightarrow> task_spec \<Rightarrow> bool" where
  "blockable st t = (state_of st (tk_id t) = Some PENDING \<and> dep_blocked st t)"

fun propagate_pass :: "task_spec list \<Rightarrow> sched \<times> bool \<Rightarrow> sched \<times> bool" where
  "propagate_pass [] (st, changed) = (st, changed)"
| "propagate_pass (t # ts) (st, changed) =
     (if blockable st t then propagate_pass ts (block_task t st, True) else propagate_pass ts (st, changed))"

definition pending_count :: "sched \<Rightarrow> nat" where
  "pending_count st = length (filter (\<lambda>kv. snd kv = PENDING) (sd_states st))"

definition free_slots :: "sched \<Rightarrow> task_spec \<Rightarrow> nat" where
  "free_slots st t = (case map_of (sd_free st) (tk_stage t) of None \<Rightarrow> 0 | Some n \<Rightarrow> n)"

text \<open>\<open>acquire(blocking=False)\<close> took a slot: the counter goes down, the task is handed to the pool.\<close>

definition start_task :: "task_spec \<Rightarrow> sched \<Rightarrow> sched" where
  "start_task t st =
     (let st' = emit \<lparr>tr_id = tk_id t, tr_stage = tk_stage t, tr_state = RUNNING, tr_error = None, tr_resumed = False\<rparr>
           (set_state (tk_id t) RUNNING st)
      in st'\<lparr>sd_free := AList.update (tk_stage t) (free_slots st t - 1) (sd_free st'), sd_running := sd_running st' + 1\<rparr>)"

definition launchable :: "sched \<Rightarrow> task_spec \<Rightarrow> bool" where
  "launchable st t = (state_of st (tk_id t) = Some PENDING \<and> deps_satisfied st t \<and> 0 < free_slots st t)"

fun launch_pass :: "task_spec list \<Rightarrow> sched \<times> bool \<Rightarrow> sched \<times> bool" where
  "launch_pass [] (st, progressed) = (st, progressed)"
| "launch_pass (t # ts) (st, progressed) =
     (if launchable st t then launch_pass ts (start_task t st, True) else launch_pass ts (st, progressed))"

text \<open>Each pass that changes something takes a task out of PENDING.\<close>

lemma state_of_set_state [simp]: "state_of (set_state tid s st) k = (if k = tid then Some s else state_of st k)"
  by (simp add: state_of_def set_state_def map_of_update_conv)

lemma state_of_emit [simp]: "state_of (emit r st) k = state_of st k"
  by (simp add: state_of_def emit_def)

lemma sd_states_emit [simp]: "sd_states (emit r st) = sd_states st"
  by (simp add: emit_def)

lemma pending_count_set_state:
  "state_of st tid = Some PENDING \<Longrightarrow> s \<noteq> PENDING \<Longrightarrow> pending_count (set_state tid s st) < pending_count st"
proof -
  assume s: "s \<noteq> PENDING"
  have "map_of al tid = Some PENDING \<Longrightarrow>
      length (filter (\<lambda>kv. snd kv = PENDING) (AList.update tid s al)) < length (filter (\<lambda>kv. snd kv = PENDING) al)" for al
    using s by (induction al) auto
  then show "state_of st tid = Some PENDING \<Longrightarrow> ?thesis"
    by (simp add: pending_count_def set_state_def state_of_def)
qed

lemma block_task_decreases: "blockable st t \<Longrightarrow> pending_count (block_task t st) < pending_count st"
  using pending_count_set_state [of st "tk_id t" BLOCKED]
  by (simp add: blockable_def block_task_def pending_count_def)

lemma start_task_decreases: "launchable st t \<Longrightarrow> pending_count (start_task t st) < pending_count st"
  using pending_count_set_state [of st "tk_id t" RUNNING]
  by (simp add: launchable_def start_task_def pending_count_def Let_def)

lemma propagate_pass_measure:
  "propagate_pass ts (st, c) = (st', c') \<Longrightarrow>
     pending_count st' \<le> pending_count st \<and> (c' \<and> \<not> c \<longrightarrow> pending_count st' < pending_count st)"
  by (induction ts "(st, c)" arbitrary: st c rule: propagate_pass.induct)
    (auto split: if_splits dest!: block_task_decreases)

lemma launch_pass_measure:
  "launch_pass ts (st, c) = (st', c') \<Longrightarrow>
     pending_count st' \<le> pending_count st \<and> (c' \<and> \<not> c \<longrightarrow> pending_count st' < pending_count st)"
  by (induction ts "(st, c)" arbitrary: st c rule: launch_pass.induct)
    (auto split: if_splits dest!: start_task_decreases)

function propagate_blocked :: "task_spec list \<Rightarrow> sched \<Rightarrow> sched" where
  "propagate_blocked index st =
     (case propagate_pass index (st, False) of
        (st', changed) \<Rightarrow> if changed then propagate_blocked index st' else st')"
  by pat_completeness auto
termination
  by (relation "measure (\<lambda>(index, st). pending_count st)") (auto dest!: propagate_pass_measure [OF sym])

function launch_ready :: "task_spec list \<Rightarrow> sched \<Rightarrow> sched" where
  "launch_ready index st =
     (case launch_pass index (st, False) of
        (st', progressed) \<Rightarrow> if progressed then launch_ready index st' else st')"
  by pat_completeness auto
termination
  by (relation "measure (\<lambda>(index, st). pending_count st)") (auto dest!: launch_pass_measure [OF sym])

declare propagate_blocked.simps [simp del] launch_ready.simps [simp del]

text \<open>
  One turn of the scheduler thread, under its lock: whether the loop is left, and the state it
  leaves or waits in.
\<close>

definition scheduler_turn :: "task_spec list \<Rightarrow> sched \<Rightarrow> bool \<times> sched" where
  "scheduler_turn index st =
     (let st1 = launch_ready index (propagate_blocked index st)
      in if all_terminal index st1 then (True, st1)
         else if sd_running st1 = 0
              \<and> \<not> list_ex (\<lambda>t. state_of st1 (tk_id t) = Some PENDING \<and> deps_satisfied st1 t) index
         then (let st2 = propagate_blocked index st1 in (all_terminal index st2, st2))
         else (False, st1))"

text \<open>
  What a task's callable does: it returns, or it raises, with the name of the exception's type and
  whether that is an \<open>Exception\<close>.  Any other \<open>BaseException\<close> leaves \<open>_execute\<close> before its
  bookkeeping and is swallowed by the pool's future.
\<close>

datatype task_outcome = Returned | Raised string bool

definition record_outcome :: "task_spec \<Rightarrow> task_state \<Rightarrow> string option \<Rightarrow> sched \<Rightarrow> sched" where
  "record_outcome t s error st =
     (let st' = emit \<lparr>tr_id = tk_id t, tr_stage = tk_stage t, tr_state = s, tr_error = error, tr_resumed = False\<rparr>
           (set_state (tk_id t) s st)
      in st'\<lparr>sd_free := AList.update (tk_stage t) (free_slots st t + 1) (sd_free st'),
             sd_running := sd_running st' - 1,
             sd_marked := (if s = COMPLETED then sd_marked st' @ [tk_id t] else sd_marked st')\<rparr>)"

definition execute :: "(string \<Rightarrow> task_outcome) \<Rightarrow> task_spec \<Rightarrow> sched \<Rightarrow> sched" where
  "execute outc t st =
     (case outc (tk_id t) of
        Returned \<Rightarrow> record_outcome t COMPLETED None st
      | Raised name True \<Rightarrow> record_outcome t FAILED (Some name) st
      | Raised name False \<Rightarrow> st)"

text \<open>
  The loop of \<open>run_dag\<close>.  \<open>pick\<close> is the environment: which running task's worker takes the lock
  next when the scheduler waits.  The fuel counts turns.
\<close>

fun run_loop :: "nat \<Rightarrow> task_spec list \<Rightarrow> (string \<Rightarrow> task_outcome) \<Rightarrow> (sched \<Rightarrow> string) \<Rightarrow> sched \<Rightarrow> sched option" where
  "run_loop 0 index outc pick st = None"
| "run_loop (Suc n) index outc pick st =
     (case scheduler_turn index st of
        (True, st') \<Rightarrow> Some st'
      | (False, st') \<Rightarrow>
          (case lookup_task index (pick st') of
             None \<Rightarrow> run_loop n index outc pick st'
           | Some t \<Rightarrow>
               run_loop n index outc pick (if state_of st' (tk_id t) = Some RUNNING then execute outc t st' else st')))"

definition initial_sched :: "task_spec list \<Rightarrow> (string \<times> nat) list \<Rightarrow> string list \<Rightarrow> sched" where
  "initial_sched index caps already_done =
     seed already_done index
       \<lparr>sd_states = [], sd_free = caps, sd_running = 0, sd_results = [], sd_log = [], sd_marked = []\<rparr>"

definition run_dag ::
  "nat \<Rightarrow> task_spec list \<Rightarrow> (string \<times> int) list option \<Rightarrow> int \<Rightarrow> string list \<Rightarrow> int option
     \<Rightarrow> (string \<Rightarrow> task_outcome) \<Rightarrow> (sched \<Rightarrow> string) \<Rightarrow> sched option res" where
  "run_dag fuel tasks stage_concurrency default_concurrency already_done max_workers outc pick =
     and_then (validate_graph tasks) (\<lambda>index.
       let caps = resolve_caps index stage_concurrency default_concurrency;
           st = initial_sched index caps already_done;
           workers = (case max_workers of None \<Rightarrow> max 1 (int (\<Sum>c\<leftarrow>caps. snd c)) | Some w \<Rightarrow> w)
       in if workers \<le> 0 then Inl (Raise ValueErr ''max_workers must be greater than 0'')
          else Inr (run_loop fuel index outc pick st))"

section \<open>Reachable states\<close>

text \<open>
  Every change of the shared state is one of three atomic steps, made under the lock: the scheduler
  blocks or starts a pending task, or a worker records the outcome of a running one.
\<close>

inductive sd_step :: "task_spec list \<Rightarrow> (string \<Rightarrow> task_outcome) \<Rightarrow> sched \<Rightarrow> sched \<Rightarrow> bool"
  for index :: "task_spec list" and outc :: "string \<Rightarrow> task_outcome" where
  block: "t \<in> set index \<Longrightarrow> blockable st t \<Longrightarrow> sd_step index outc st (block_task t st)"
| start: "t \<in> set index \<Longrightarrow> launchable st t \<Longrightarrow> sd_step index outc st (start_task t st)"
| finish: "t \<in> set index \<Longrightarrow> state_of st (tk_id t) = Some RUNNING \<Longrightarrow> sd_step index outc st (execute outc t st)"

inductive_cases sd_stepE: "sd_step index outc st st'"

abbreviation sd_steps :: "task_spec list \<Rightarrow> (string \<Rightarrow> task_outcome) \<Rightarrow> sched \<Rightarrow> sched \<Rightarrow> bool" where
  "sd_steps index outc \<equiv> (sd_step index outc)\<^sup>*\<^sup>*"

lemma propagate_pass_steps:
  "propagate_pass ts (st, c) = (st', c') \<Longrightarrow> set ts \<subseteq> set index \<Longrightarrow> sd_steps index outc st st'"
  by (induction ts "(st, c)" arbitrary: st c rule: propagate_pass.induct)
    (auto split: if_splits intro: converse_rtranclp_into_rtranclp sd_step.block)

lemma launch_pass_steps:
  "launch_pass ts (st, c) = (st', c') \<Longrightarrow> set ts \<subseteq> set index \<Longrightarrow> sd_steps index outc st st'"
  by (induction ts "(st, c)" arbitrary: st c rule: launch_pass.induct)
    (auto split: if_splits intro: converse_rtranclp_into_rtranclp sd_step.start)

lemma propagate_blocked_steps: "sd_steps index outc st (propagate_blocked index st)"
proof (induction index st rule: propagate_blocked.induct)
  case (1 index st)
  then show ?case
    using propagate_pass_steps [OF _ order_refl, of index st False _ _ outc]
    by (subst propagate_blocked.simps) (fastforce split: prod.splits intro: rtranclp_trans)
qed

lemma launch_ready_steps: "sd_steps index outc st (launch_ready index st)"
proof (induction index st rule: launch_ready.induct)
  case (1 index st)
  then show ?case
    using launch_pass_steps [OF _ order_refl, of index st False _ _ outc]
    by (subst launch_ready.simps) (fastforce split: prod.splits intro: rtranclp_trans)
qed

lemma scheduler_turn_steps: "sd_steps index outc st (snd (scheduler_turn index st))"
  using rtranclp_trans [OF propagate_blocked_steps launch_ready_steps, of index outc st]
  by (auto simp: scheduler_turn_def Let_def intro: rtranclp_trans propagate_blocked_steps)

lemma run_loop_steps: "run_loop n index outc pick st = Some st' \<Longrightarrow> sd_steps index outc st st'"
proof (induction n index outc pick st rule: run_loop.induct)
  case (2 n index outc pick st)
  obtain b st1 where turn: "scheduler_turn index st = (b, st1)" by fastforce
  have steps: "sd_steps index outc st st1" using scheduler_turn_steps [of index outc st] turn by simp
  show ?case
  proof (cases b)
    case True
    then show ?thesis using "2.prems" turn steps by simp
  next
    case False
    show ?thesis
    proof (cases "lookup_task index (pick st1)")
      case None
      then show ?thesis using "2.IH"(1) [of b st1] "2.prems" turn steps False by (auto intro: rtranclp_trans)
    next
      case (Some t)
      have "sd_steps index outc st1 (if state_of st1 (tk_id t) = Some RUNNING then execute outc t st1 else st1)"
        using sd_step.finish [of t index st1 outc] lookup_task_in [OF Some] by auto
      then show ?thesis
        using "2.IH"(2) [of b st1 t] "2.prems" turn steps False Some by (auto intro: rtranclp_trans)
    qed
  qed
qed simp

subsection \<open>What no step changes\<close>

lemma state_of_block [simp]: "state_of (block_task t st) k = (if k = tk_id t then Some BLOCKED else state_of st k)"
  by (simp add: block_task_def)

lemma state_of_start [simp]: "state_of (start_task t st) k = (if k = tk_id t then Some RUNNING else state_of st k)"
proof -
  have "state_of (x\<lparr>sd_free := f, sd_running := r\<rparr>) k = state_of x k" for x f r by (simp add: state_of_def)
  then show ?thesis by (simp add: start_task_def Let_def)
qed

lemma state_of_record [simp]: "state_of (record_outcome t s e st) k = (if k = tk_id t then Some s else state_of st k)"
proof -
  have "state_of (x\<lparr>sd_free := f, sd_running := r, sd_marked := m\<rparr>) k = state_of x k" for x f r m by (simp add: state_of_def)
  then show ?thesis by (simp add: record_outcome_def Let_def)
qed

lemma step_terminal:
  "sd_step index outc st st' \<Longrightarrow> state_of st k = Some s \<Longrightarrow> s \<in> set terminal_states \<Longrightarrow> state_of st' k = Some s"
  by (erule sd_stepE)
    (auto simp: blockable_def launchable_def execute_def terminal_states_def split: task_outcome.splits bool.splits)

lemma step_dom: "sd_step index outc st st' \<Longrightarrow> state_of st k \<noteq> None \<longleftrightarrow> state_of st' k \<noteq> None"
  by (erule sd_stepE)
    (auto simp: blockable_def launchable_def execute_def split: task_outcome.splits bool.splits)

lemma step_deps_satisfied: "sd_step index outc st st' \<Longrightarrow> deps_satisfied st t \<Longrightarrow> deps_satisfied st' t"
  using step_terminal [of index outc st st']
  by (fastforce simp: deps_satisfied_def list_all_iff satisfied_states_def terminal_states_def)

lemma step_dep_blocked: "sd_step index outc st st' \<Longrightarrow> dep_blocked st t \<Longrightarrow> dep_blocked st' t"
  using step_terminal [of index outc st st']
  by (fastforce simp: dep_blocked_def list_ex_iff terminal_states_def)

subsection \<open>The invariant\<close>

text \<open>\<open>order_ok\<close>: what a task's state says of its dependencies, the checkpoint and the callable.\<close>

definition task_ok :: "string list \<Rightarrow> (string \<Rightarrow> task_outcome) \<Rightarrow> sched \<Rightarrow> task_spec \<Rightarrow> bool" where
  "task_ok already_done outc st t =
     (case state_of st (tk_id t) of
        None \<Rightarrow> False
      | Some PENDING \<Rightarrow> tk_id t \<notin> set already_done
      | Some RUNNING \<Rightarrow> tk_id t \<notin> set already_done \<and> deps_satisfied st t
      | Some COMPLETED \<Rightarrow> tk_id t \<notin> set already_done \<and> deps_satisfied st t \<and> outc (tk_id t) = Returned
      | Some FAILED \<Rightarrow> tk_id t \<notin> set already_done \<and> deps_satisfied st t \<and> (\<exists>n. outc (tk_id t) = Raised n True)
      | Some BLOCKED \<Rightarrow> tk_id t \<notin> set already_done \<and> dep_blocked st t
      | Some SKIPPED \<Rightarrow> tk_id t \<in> set already_done)"

definition order_ok :: "task_spec list \<Rightarrow> string list \<Rightarrow> (string \<Rightarrow> task_outcome) \<Rightarrow> sched \<Rightarrow> bool" where
  "order_ok index already_done outc st \<longleftrightarrow>
     (\<forall>k. state_of st k \<noteq> None \<longleftrightarrow> k \<in> ids index) \<and> (\<forall>t \<in> set index. task_ok already_done outc st t)"

definition in_flight :: "task_spec list \<Rightarrow> sched \<Rightarrow> string \<Rightarrow> nat" where
  "in_flight index st stage = length (filter (\<lambda>t. tk_stage t = stage \<and> state_of st (tk_id t) = Some RUNNING) index)"

text \<open>\<open>slots_ok\<close>: every stage's semaphore and the running count account for the running tasks.\<close>

definition slots_ok :: "task_spec list \<Rightarrow> (string \<times> nat) list \<Rightarrow> sched \<Rightarrow> bool" where
  "slots_ok index caps st \<longleftrightarrow>
     (\<forall>t \<in> set index. map_of caps (tk_stage t) = Some (free_slots st t + in_flight index st (tk_stage t)))
     \<and> sd_running st = int (length (filter (\<lambda>t. state_of st (tk_id t) = Some RUNNING) index))"

definition starts_of :: "sched \<Rightarrow> string \<Rightarrow> nat" where
  "starts_of st k = length (filter (\<lambda>r. tr_id r = k \<and> tr_state r = RUNNING) (sd_log st))"

definition result_state :: "sched \<Rightarrow> string \<Rightarrow> task_state option" where
  "result_state st k = map_option tr_state (map_of (sd_results st) k)"

text \<open>\<open>log_ok\<close>: the results agree with the states, a task was started once at most, the completed
  ones were passed to the checkpoint.\<close>

definition log_ok :: "sched \<Rightarrow> bool" where
  "log_ok st \<longleftrightarrow>
     distinct (map fst (sd_results st))
     \<and> (\<forall>k. starts_of st k = (if state_of st k \<in> {Some RUNNING, Some COMPLETED, Some FAILED} then 1 else 0)
        \<and> result_state st k = (if state_of st k = Some PENDING then None else state_of st k)
        \<and> (k \<in> set (sd_marked st) \<longleftrightarrow> state_of st k = Some COMPLETED))"

lemma step_order_ok:
  assumes "sd_step index outc st st'" "distinct (map tk_id index)" "order_ok index already_done outc st"
  shows "order_ok index already_done outc st'"
proof -
  have dom: "\<forall>k. state_of st' k \<noteq> None \<longleftrightarrow> k \<in> ids index"
    using step_dom [OF assms(1)] assms(3) by (auto simp: order_ok_def)
  have "task_ok already_done outc st' u" if u: "u \<in> set index" for u
  proof -
    have old: "task_ok already_done outc st u" using assms(3) u by (simp add: order_ok_def)
    have same: "t = u" if "t \<in> set index" "tk_id t = tk_id u" for t
      using that u assms(2) by (auto simp: distinct_map inj_on_def)
    note keep = step_deps_satisfied [OF assms(1), of u] step_dep_blocked [OF assms(1), of u]
    from assms(1) show ?thesis
    proof cases
      case (block t)
      then show ?thesis using old keep same [OF block(2)]
        by (cases "t = u") (auto simp: task_ok_def blockable_def split: option.splits task_state.splits)
    next
      case (start t)
      then show ?thesis using old keep same [OF start(2)]
        by (cases "t = u") (auto simp: task_ok_def launchable_def split: option.splits task_state.splits)
    next
      case (finish t)
      then show ?thesis using old keep same [OF finish(2)]
        by (cases "t = u")
          (auto simp: task_ok_def execute_def split: option.splits task_state.splits task_outcome.splits bool.splits)
    qed
  qed
  then show ?thesis using dom by (simp add: order_ok_def)
qed

lemma count_change:
  assumes "distinct xs" "t \<in> set xs" "\<And>u. u \<in> set xs \<Longrightarrow> u \<noteq> t \<Longrightarrow> Q u = P u"
  shows "length (filter Q xs) + of_bool (P t) = length (filter P xs) + of_bool (Q t)"
  using assms
proof (induction xs)
  case (Cons x xs)
  show ?case
  proof (cases "x = t")
    case True
    have "filter Q xs = filter P xs"
      by (rule filter_cong [OF refl]) (use Cons.prems True in auto)
    then show ?thesis using True by simp
  next
    case False
    then show ?thesis using Cons.IH Cons.prems by auto
  qed
qed simp

lemma running_change:
  assumes "distinct (map tk_id index)" "t \<in> set index"
    and "\<And>k. state_of st' k = (if k = tk_id t then Some s else state_of st k)"
  shows "in_flight index st' (tk_stage t) + of_bool (state_of st (tk_id t) = Some RUNNING)
           = in_flight index st (tk_stage t) + of_bool (s = RUNNING)"
    and "length (filter (\<lambda>t. state_of st' (tk_id t) = Some RUNNING) index) + of_bool (state_of st (tk_id t) = Some RUNNING)
           = length (filter (\<lambda>t. state_of st (tk_id t) = Some RUNNING) index) + of_bool (s = RUNNING)"
    and "stage \<noteq> tk_stage t \<Longrightarrow> in_flight index st' stage = in_flight index st stage"
proof -
  have now: "state_of st' (tk_id t) = Some s" using assms(3) [of "tk_id t"] by simp
  have other: "state_of st' (tk_id u) = state_of st (tk_id u)" if "u \<in> set index" "u \<noteq> t" for u
  proof -
    have "tk_id u \<noteq> tk_id t" using that assms(1,2) by (auto simp: distinct_map inj_on_def)
    then show ?thesis using assms(3) [of "tk_id u"] by simp
  qed
  have d: "distinct index" using assms(1) by (simp add: distinct_map)
  have "length (filter (\<lambda>u. tk_stage u = tk_stage t \<and> state_of st' (tk_id u) = Some RUNNING) index)
        + of_bool (tk_stage t = tk_stage t \<and> state_of st (tk_id t) = Some RUNNING)
      = length (filter (\<lambda>u. tk_stage u = tk_stage t \<and> state_of st (tk_id u) = Some RUNNING) index)
        + of_bool (tk_stage t = tk_stage t \<and> state_of st' (tk_id t) = Some RUNNING)"
    by (rule count_change [OF d assms(2)]) (simp add: other)
  then show "in_flight index st' (tk_stage t) + of_bool (state_of st (tk_id t) = Some RUNNING)
           = in_flight index st (tk_stage t) + of_bool (s = RUNNING)"
    by (simp add: now in_flight_def)
  have "length (filter (\<lambda>t. state_of st' (tk_id t) = Some RUNNING) index) + of_bool (state_of st (tk_id t) = Some RUNNING)
      = length (filter (\<lambda>t. state_of st (tk_id t) = Some RUNNING) index) + of_bool (state_of st' (tk_id t) = Some RUNNING)"
    by (rule count_change [OF d assms(2)]) (simp add: other)
  then show "length (filter (\<lambda>t. state_of st' (tk_id t) = Some RUNNING) index) + of_bool (state_of st (tk_id t) = Some RUNNING)
           = length (filter (\<lambda>t. state_of st (tk_id t) = Some RUNNING) index) + of_bool (s = RUNNING)"
    by (simp add: now)
  show "in_flight index st' stage = in_flight index st stage" if "stage \<noteq> tk_stage t"
  proof -
    have "state_of st' (tk_id u) = state_of st (tk_id u)" if "u \<in> set index" "tk_stage u = stage" for u
      using other [OF that(1)] that(2) \<open>stage \<noteq> tk_stage t\<close> by blast
    then have "filter (\<lambda>u. tk_stage u = stage \<and> state_of st' (tk_id u) = Some RUNNING) index
        = filter (\<lambda>u. tk_stage u = stage \<and> state_of st (tk_id u) = Some RUNNING) index"
      by (intro filter_cong [OF refl]) auto
    then show ?thesis by (simp add: in_flight_def)
  qed
qed

lemma free_slots_updates [simp]:
  "free_slots (block_task t st) u = free_slots st u"
  "free_slots (start_task t st) u = (if tk_stage u = tk_stage t then free_slots st t - 1 else free_slots st u)"
  "free_slots (record_outcome t s e st) u = (if tk_stage u = tk_stage t then free_slots st t + 1 else free_slots st u)"
  by (simp_all add: free_slots_def block_task_def start_task_def record_outcome_def emit_def set_state_def Let_def
      map_of_update_conv)

lemma running_updates [simp]:
  "sd_running (block_task t st) = sd_running st"
  "sd_running (start_task t st) = sd_running st + 1"
  "sd_running (record_outcome t s e st) = sd_running st - 1"
  by (simp_all add: block_task_def start_task_def record_outcome_def emit_def set_state_def Let_def)

lemma free_slots_stage: "tk_stage u = tk_stage t \<Longrightarrow> free_slots st u = free_slots st t"
  by (simp add: free_slots_def)

lemma record_slots_ok:
  assumes "distinct (map tk_id index)" "slots_ok index caps st" "t \<in> set index" "state_of st (tk_id t) = Some RUNNING" "s \<noteq> RUNNING"
  shows "slots_ok index caps (record_outcome t s e st)"
proof -
  note ch = running_change [OF assms(1,3), of "record_outcome t s e st" s st, OF state_of_record]
  have "map_of caps (tk_stage u) = Some (free_slots (record_outcome t s e st) u + in_flight index (record_outcome t s e st) (tk_stage u))"
    if "u \<in> set index" for u
    using that assms ch(1) ch(3) [of "tk_stage u"] free_slots_stage [of u t st]
    by (cases "tk_stage u = tk_stage t") (auto simp: slots_ok_def)
  then show ?thesis using assms ch(2) by (simp add: slots_ok_def)
qed

lemma step_slots_ok:
  assumes "sd_step index outc st st'" "distinct (map tk_id index)" "slots_ok index caps st"
  shows "slots_ok index caps st'"
  using assms(1)
proof cases
  case (block t)
  note ch = running_change [OF assms(2) block(2), of "block_task t st" BLOCKED st, OF state_of_block]
  have "in_flight index (block_task t st) stage = in_flight index st stage" for stage
    using ch(1) ch(3) [of stage] block(3) by (cases "stage = tk_stage t") (auto simp: blockable_def)
  then show ?thesis using assms(3) ch(2) block(1,3) by (simp add: slots_ok_def blockable_def)
next
  case (start t)
  note ch = running_change [OF assms(2) start(2), of "start_task t st" RUNNING st, OF state_of_start]
  have "map_of caps (tk_stage u) = Some (free_slots (start_task t st) u + in_flight index (start_task t st) (tk_stage u))"
    if "u \<in> set index" for u
    using that assms(3) start(3) ch(1) ch(3) [of "tk_stage u"] free_slots_stage [of u t st]
    by (cases "tk_stage u = tk_stage t") (auto simp: slots_ok_def launchable_def)
  then show ?thesis using assms(3) ch(2) start(1,3) by (simp add: slots_ok_def launchable_def)
next
  case (finish t)
  then show ?thesis
    using assms(2,3) by (auto simp: execute_def intro: record_slots_ok split: task_outcome.split bool.split)
qed

lemma log_updates:
  "starts_of (block_task t st) k = starts_of st k"
  "starts_of (start_task t st) k = starts_of st k + (if k = tk_id t then 1 else 0)"
  "s \<noteq> RUNNING \<Longrightarrow> starts_of (record_outcome t s e st) k = starts_of st k"
  "result_state (block_task t st) k
     = (if k = tk_id t then Some BLOCKED else result_state st k)"
  "result_state (start_task t st) k
     = (if k = tk_id t then Some RUNNING else result_state st k)"
  "result_state (record_outcome t s e st) k
     = (if k = tk_id t then Some s else result_state st k)"
  "sd_marked (block_task t st) = sd_marked st"
  "sd_marked (start_task t st) = sd_marked st"
  "sd_marked (record_outcome t s e st) = (if s = COMPLETED then sd_marked st @ [tk_id t] else sd_marked st)"
  by (simp_all add: starts_of_def result_state_def block_task_def start_task_def record_outcome_def emit_def set_state_def Let_def
      map_of_update_conv)

lemma results_distinct:
  "distinct (map fst (sd_results st)) \<Longrightarrow> distinct (map fst (sd_results (block_task t st)))"
  "distinct (map fst (sd_results st)) \<Longrightarrow> distinct (map fst (sd_results (start_task t st)))"
  "distinct (map fst (sd_results st)) \<Longrightarrow> distinct (map fst (sd_results (record_outcome t s e st)))"
  by (simp_all add: block_task_def start_task_def record_outcome_def emit_def set_state_def Let_def distinct_update)

lemma step_log_ok: "sd_step index outc st st' \<Longrightarrow> log_ok st \<Longrightarrow> log_ok st'"
  by (erule sd_stepE)
    (auto simp: log_ok_def log_updates results_distinct blockable_def launchable_def execute_def
      split: task_outcome.splits bool.splits)

definition sched_ok :: "task_spec list \<Rightarrow> (string \<times> nat) list \<Rightarrow> string list \<Rightarrow> (string \<Rightarrow> task_outcome) \<Rightarrow> sched \<Rightarrow> bool" where
  "sched_ok index caps already_done outc st \<longleftrightarrow> order_ok index already_done outc st \<and> slots_ok index caps st \<and> log_ok st"

lemma steps_sched_ok:
  "sd_steps index outc st st' \<Longrightarrow> distinct (map tk_id index) \<Longrightarrow> sched_ok index caps already_done outc st \<Longrightarrow>
   sched_ok index caps already_done outc st'"
  by (induction rule: rtranclp_induct) (auto simp: sched_ok_def intro: step_order_ok step_slots_ok step_log_ok)

lemma seed_state_of:
  "state_of (seed already_done ts st) k =
     (if k \<in> ids ts then Some (if k \<in> set already_done then SKIPPED else PENDING) else state_of st k)"
  by (induction already_done ts st rule: seed.induct) (auto simp: ids_def)

lemma emit_other:
  "sd_free (emit r st) = sd_free st" "sd_running (emit r st) = sd_running st" "sd_marked (emit r st) = sd_marked st"
  "sd_free (set_state k s st) = sd_free st" "sd_running (set_state k s st) = sd_running st" "sd_marked (set_state k s st) = sd_marked st"
  by (simp_all add: emit_def set_state_def)

lemma seed_other:
  "sd_free (seed already_done ts st) = sd_free st" "sd_running (seed already_done ts st) = sd_running st"
  "sd_marked (seed already_done ts st) = sd_marked st"
  by (induction already_done ts st rule: seed.induct) (auto simp: emit_other)

lemma seed_distinct: "distinct (map fst (sd_results st)) \<Longrightarrow> distinct (map fst (sd_results (seed already_done ts st)))"
  by (induction already_done ts st rule: seed.induct) (simp_all add: emit_def set_state_def distinct_update)

lemma seed_log:
  "starts_of (seed already_done ts st) k = starts_of st k"
  "result_state (seed already_done ts st) k = (if k \<in> ids ts \<inter> set already_done then Some SKIPPED else result_state st k)"
  by (induction already_done ts st rule: seed.induct)
    (auto simp: ids_def starts_of_def result_state_def emit_def set_state_def map_of_update_conv)

lemma resolve_from_keeps:
  "map_of caps s = Some c \<Longrightarrow> map_of (resolve_from ov fb ts caps) s = Some c"
  by (induction ov fb ts caps rule: resolve_from.induct) (auto simp: Let_def map_add_def)

definition stage_cap :: "(string \<times> int) list \<Rightarrow> int \<Rightarrow> string \<Rightarrow> nat" where
  "stage_cap ov fb s = nat (max 1 (case map_of ov s of None \<Rightarrow> fb | Some c \<Rightarrow> c))"

lemma resolve_from_caps:
  "t \<in> set ts \<Longrightarrow> \<forall>s c. map_of caps s = Some c \<longrightarrow> c = stage_cap ov fb s \<Longrightarrow>
   map_of (resolve_from ov fb ts caps) (tk_stage t) = Some (stage_cap ov fb (tk_stage t))"
proof (induction ov fb ts caps rule: resolve_from.induct)
  case (2 ov fb u ts caps)
  let ?caps = "caps @ [(tk_stage u, stage_cap ov fb (tk_stage u))]"
  show ?case
  proof (cases "map_of caps (tk_stage u)")
    case None
    have new: "\<forall>s c. map_of ?caps s = Some c \<longrightarrow> c = stage_cap ov fb s"
      using "2.prems"(2) by (auto simp: map_add_def split: option.splits)
    have "map_of (resolve_from ov fb ts ?caps) (tk_stage u) = Some (stage_cap ov fb (tk_stage u))"
      by (rule resolve_from_keeps) (use None in \<open>simp add: map_add_def\<close>)
    moreover have "t \<in> set ts \<Longrightarrow> map_of (resolve_from ov fb ts ?caps) (tk_stage t) = Some (stage_cap ov fb (tk_stage t))"
      using "2.IH"(2) [OF _ refl] None new by (simp add: stage_cap_def)
    moreover have "resolve_from ov fb (u # ts) caps = resolve_from ov fb ts ?caps"
      using None by (simp add: stage_cap_def)
    ultimately show ?thesis using "2.prems"(1) by auto
  next
    case (Some c)
    then have "c = stage_cap ov fb (tk_stage u)" using "2.prems"(2) by blast
    then show ?thesis using "2.IH"(1) "2.prems" resolve_from_keeps [OF Some, of ov fb ts] Some by auto
  qed
qed simp

lemma resolve_caps_value:
  "t \<in> set index \<Longrightarrow> map_of (resolve_caps index sc fb) (tk_stage t) = Some (stage_cap (overrides_of sc) fb (tk_stage t))"
  unfolding resolve_caps_def by (rule resolve_from_caps) simp_all

lemma resolve_caps_positive: "t \<in> set index \<Longrightarrow> \<exists>c>0. map_of (resolve_caps index sc fb) (tk_stage t) = Some c"
  by (simp add: resolve_caps_value) (simp add: stage_cap_def)

lemma initial_sched_ok:
  assumes "\<forall>t \<in> set index. map_of caps (tk_stage t) \<noteq> None"
  shows "sched_ok index caps already_done outc (initial_sched index caps already_done)"
proof -
  let ?st = "initial_sched index caps already_done"
  have st: "state_of ?st k = (if k \<in> ids index then Some (if k \<in> set already_done then SKIPPED else PENDING) else None)" for k
    by (simp add: initial_sched_def seed_state_of) (simp add: state_of_def)
  have run: "state_of ?st k \<noteq> Some RUNNING" for k by (simp add: st)
  have "order_ok index already_done outc ?st"
    by (auto simp: order_ok_def task_ok_def st) (auto simp: ids_def)
  moreover have "slots_ok index caps ?st"
  proof -
    have "free_slots ?st t = (case map_of caps (tk_stage t) of None \<Rightarrow> 0 | Some n \<Rightarrow> n)" "sd_running ?st = 0" for t
      by (simp_all add: free_slots_def initial_sched_def seed_other)
    then show ?thesis using assms by (auto simp: slots_ok_def in_flight_def run split: option.splits)
  qed
  moreover have "log_ok ?st"
    using st by (simp add: log_ok_def initial_sched_def seed_log seed_other seed_distinct)
      (simp add: starts_of_def result_state_def)
  ultimately show ?thesis by (simp add: sched_ok_def)
qed

subsection \<open>A waiting scheduler waits for a running task\<close>

lemma propagate_pass_changed: "propagate_pass ts (st, c) = (st', c') \<Longrightarrow> c \<Longrightarrow> c'"
  by (induction ts "(st, c)" arbitrary: st c rule: propagate_pass.induct) (auto split: if_splits)

lemma launch_pass_changed: "launch_pass ts (st, c) = (st', c') \<Longrightarrow> c \<Longrightarrow> c'"
  by (induction ts "(st, c)" arbitrary: st c rule: launch_pass.induct) (auto split: if_splits)

lemma propagate_pass_quiet:
  "propagate_pass ts (st, False) = (st', False) \<Longrightarrow> st' = st \<and> (\<forall>t \<in> set ts. \<not> blockable st t)"
  by (induction ts arbitrary: st) (auto split: if_splits dest: propagate_pass_changed)

lemma launch_pass_quiet:
  "launch_pass ts (st, False) = (st', False) \<Longrightarrow> st' = st \<and> (\<forall>t \<in> set ts. \<not> launchable st t)"
  by (induction ts arbitrary: st) (auto split: if_splits dest: launch_pass_changed)

lemma propagate_blocked_quiet: "t \<in> set index \<Longrightarrow> \<not> blockable (propagate_blocked index st) t"
proof (induction index st rule: propagate_blocked.induct)
  case (1 index st)
  obtain st' c where p: "propagate_pass index (st, False) = (st', c)" by fastforce
  show ?case
  proof (cases c)
    case True
    then show ?thesis using 1 p by (simp add: propagate_blocked.simps [of index st])
  next
    case False
    then show ?thesis using propagate_pass_quiet [of index st st'] p "1.prems" by (simp add: propagate_blocked.simps [of index st])
  qed
qed

lemma start_not_blockable: "launchable st u \<Longrightarrow> \<not> blockable st t \<Longrightarrow> \<not> blockable (start_task u st) t"
  by (auto simp: blockable_def launchable_def dep_blocked_def list_ex_iff)

lemma launch_pass_blockable:
  "launch_pass ts (st, c) = (st', c') \<Longrightarrow> \<not> blockable st t \<Longrightarrow> \<not> blockable st' t"
  by (induction ts "(st, c)" arbitrary: st c rule: launch_pass.induct) (auto split: if_splits dest: start_not_blockable)

lemma launch_ready_quiet:
  "t \<in> set index \<Longrightarrow> \<not> launchable (launch_ready index st) t"
  "\<not> blockable st u \<Longrightarrow> \<not> blockable (launch_ready index st) u"
proof (induction index st rule: launch_ready.induct)
  case (1 index st)
  obtain st' c where p: "launch_pass index (st, False) = (st', c)" by fastforce
  { case 1
    show ?case
    proof (cases c)
      case True
      then show ?thesis using "1.IH"(1) [OF p [symmetric]] 1 p by (simp add: launch_ready.simps [of index st])
    next
      case False
      then show ?thesis using launch_pass_quiet [of index st st'] p 1 by (simp add: launch_ready.simps [of index st])
    qed
  next
    case 2
    then have "\<not> blockable st' u" using launch_pass_blockable [OF p] by blast
    then show ?case using "1.IH"(2) [OF p [symmetric]] p by (cases c) (simp_all add: launch_ready.simps [of index st])
  }
qed

lemma quiet_is_terminal:
  assumes "dag tasks" "sched_ok tasks caps already_done outc st" "\<And>t. t \<in> set tasks \<Longrightarrow> \<not> blockable st t \<and> \<not> launchable st t"
    and "\<And>t. t \<in> set tasks \<Longrightarrow> state_of st (tk_id t) \<noteq> Some RUNNING"
    and "\<And>t. t \<in> set tasks \<Longrightarrow> \<exists>c>0. map_of caps (tk_stage t) = Some c"
  shows "all_terminal tasks st"
proof -
  have ended: "\<exists>s \<in> set terminal_states. state_of st (tk_id t) = Some s" if "t \<in> set tasks" for t
  proof (rule dag_induct [OF assms(1) that])
    fix t assume t: "t \<in> set tasks"
      and IH: "\<And>u. u \<in> set tasks \<Longrightarrow> tk_id u \<in> set (tk_deps t) \<Longrightarrow> \<exists>s \<in> set terminal_states. state_of st (tk_id u) = Some s"
    have "in_flight tasks st (tk_stage t) = 0" using assms(4) by (simp add: in_flight_def)
    then have free: "0 < free_slots st t"
      using assms(2) assms(5) [OF t] t by (auto simp: sched_ok_def slots_ok_def)
    have "state_of st (tk_id t) \<noteq> Some PENDING"
    proof
      assume p: "state_of st (tk_id t) = Some PENDING"
      then have "\<not> deps_satisfied st t" "\<not> dep_blocked st t"
        using assms(3) [OF t] free by (auto simp: launchable_def blockable_def)
      then obtain d where d: "d \<in> set (tk_deps t)" "state_of st d \<noteq> Some COMPLETED" "state_of st d \<noteq> Some SKIPPED"
          "state_of st d \<noteq> Some FAILED" "state_of st d \<noteq> Some BLOCKED"
        by (auto simp: deps_satisfied_def dep_blocked_def list_all_iff list_ex_iff satisfied_states_def)
      then show False using dag_dep [OF assms(1) t d(1)] IH by (auto simp: terminal_states_def)
    qed
    moreover have "state_of st (tk_id t) \<noteq> None" using assms(2) t by (auto simp: sched_ok_def order_ok_def ids_def)
    ultimately show "\<exists>s \<in> set terminal_states. state_of st (tk_id t) = Some s" using assms(4) [OF t]
      by (cases "the (state_of st (tk_id t))") (auto simp: terminal_states_def)
  qed
  then show ?thesis by (simp add: all_terminal_def list_all_iff)
qed

definition reachable :: "task_spec list \<Rightarrow> (string \<times> int) list option \<Rightarrow> int \<Rightarrow> string list \<Rightarrow> (string \<Rightarrow> task_outcome) \<Rightarrow> sched \<Rightarrow> bool" where
  "reachable tasks sc fb already_done outc st \<longleftrightarrow>
     sd_steps tasks outc (initial_sched tasks (resolve_caps tasks sc fb) already_done) st"

lemma reachable_ok:
  assumes "dag tasks" "reachable tasks sc fb already_done outc st"
  shows "sched_ok tasks (resolve_caps tasks sc fb) already_done outc st"
proof -
  have "\<forall>t \<in> set tasks. map_of (resolve_caps tasks sc fb) (tk_stage t) \<noteq> None"
    using resolve_caps_positive [of _ tasks sc fb] by fastforce
  from initial_sched_ok [OF this] show ?thesis
    using steps_sched_ok [of tasks outc _ st] assms by (auto simp: reachable_def dag_def)
qed

lemma reachable_step: "reachable tasks sc fb already_done outc st \<Longrightarrow> sd_steps tasks outc st st' \<Longrightarrow> reachable tasks sc fb already_done outc st'"
  by (auto simp: reachable_def intro: rtranclp_trans)

lemma turn_result:
  assumes "dag tasks" "reachable tasks sc fb already_done outc st"
  shows "case scheduler_turn tasks st of (left, st') \<Rightarrow>
     if left then all_terminal tasks st' else \<exists>t \<in> set tasks. state_of st' (tk_id t) = Some RUNNING"
proof -
  let ?st1 = "launch_ready tasks (propagate_blocked tasks st)"
  have reach: "reachable tasks sc fb already_done outc ?st1"
    using reachable_step [OF assms(2)] rtranclp_trans [OF propagate_blocked_steps launch_ready_steps] by blast
  have quiet: "\<not> blockable ?st1 t \<and> \<not> launchable ?st1 t" if "t \<in> set tasks" for t
    using that launch_ready_quiet propagate_blocked_quiet by blast
  have run: "\<exists>t \<in> set tasks. state_of ?st1 (tk_id t) = Some RUNNING" if "\<not> all_terminal tasks ?st1"
    using that quiet_is_terminal [OF assms(1) reachable_ok [OF assms(1) reach] quiet _ resolve_caps_positive] by blast
  have "sd_running ?st1 \<noteq> 0" if "\<not> all_terminal tasks ?st1"
    using run [OF that] reachable_ok [OF assms(1) reach]
    by (auto simp: sched_ok_def slots_ok_def filter_empty_conv)
  then show ?thesis using run by (auto simp: scheduler_turn_def Let_def)
qed

lemma turn_left: "scheduler_turn index st = (True, st') \<Longrightarrow> all_terminal index st'"
  by (auto simp: scheduler_turn_def Let_def split: if_splits)

lemma run_loop_left: "run_loop n index outc pick st = Some st' \<Longrightarrow> all_terminal index st'"
  by (induction n index outc pick st rule: run_loop.induct) (auto split: prod.splits bool.splits option.splits dest: turn_left)

definition unfinished :: "task_spec list \<Rightarrow> sched \<Rightarrow> string set" where
  "unfinished tasks st = {k \<in> ids tasks. \<forall>s \<in> set terminal_states. state_of st k \<noteq> Some s}"

lemma finite_unfinished [simp]: "finite (unfinished tasks st)"
  by (simp add: unfinished_def ids_def)

lemma unfinished_steps: "sd_steps tasks outc st st' \<Longrightarrow> unfinished tasks st' \<subseteq> unfinished tasks st"
  by (induction rule: rtranclp_induct) (auto simp: unfinished_def dest: step_terminal)

lemma unfinished_execute:
  assumes "t \<in> set tasks" "state_of st (tk_id t) = Some RUNNING" "\<forall>n. outc (tk_id t) \<noteq> Raised n False"
  shows "unfinished tasks (execute outc t st) \<subset> unfinished tasks st"
proof -
  have "tk_id t \<in> unfinished tasks st" using assms by (simp add: unfinished_def terminal_states_def ids_def)
  moreover have "tk_id t \<notin> unfinished tasks (execute outc t st)"
    using assms by (auto simp: unfinished_def execute_def terminal_states_def split: task_outcome.split bool.split)
  moreover have "unfinished tasks (execute outc t st) \<subseteq> unfinished tasks st"
    using unfinished_steps [OF r_into_rtranclp] sd_step.finish [OF assms(1,2)] by blast
  ultimately show ?thesis by blast
qed

lemma run_loop_returns:
  assumes "dag tasks" "\<forall>k n. outc k \<noteq> Raised n False"
    and "\<And>st. \<exists>t \<in> set tasks. state_of st (tk_id t) = Some RUNNING \<Longrightarrow> pick st \<in> ids tasks \<and> state_of st (pick st) = Some RUNNING"
  shows "reachable tasks sc fb already_done outc st \<Longrightarrow> card (unfinished tasks st) < n \<Longrightarrow> \<exists>st'. run_loop n tasks outc pick st = Some st'"
proof (induction n arbitrary: st)
  case (Suc n)
  obtain b st1 where turn: "scheduler_turn tasks st = (b, st1)" by fastforce
  have steps: "sd_steps tasks outc st st1" using scheduler_turn_steps [of tasks outc st] turn by simp
  show ?case
  proof (cases b)
    case False
    then have "\<exists>t \<in> set tasks. state_of st1 (tk_id t) = Some RUNNING" using turn_result [OF assms(1) Suc.prems(1)] turn by simp
    from assms(3) [OF this] obtain t where t: "lookup_task tasks (pick st1) = Some t" "state_of st1 (tk_id t) = Some RUNNING"
      using lookup_task_ids [of tasks "pick st1"] lookup_task_in by fastforce
    have m: "t \<in> set tasks" using t(1) lookup_task_in by blast
    have "reachable tasks sc fb already_done outc (execute outc t st1)"
      by (rule reachable_step [OF reachable_step [OF Suc.prems(1) steps]]) (use sd_step.finish [OF m t(2)] in blast)
    moreover have "unfinished tasks (execute outc t st1) \<subset> unfinished tasks st"
      using unfinished_execute [OF m t(2)] assms(2) unfinished_steps [OF steps] by blast
    then have "card (unfinished tasks (execute outc t st1)) < card (unfinished tasks st)" by (simp add: psubset_card_mono)
    ultimately show ?thesis using Suc.IH Suc.prems(2) turn False t by simp
  qed (simp add: turn)
qed simp

lemma run_loop_reachable:
  "run_loop n tasks outc pick (initial_sched tasks (resolve_caps tasks sc fb) already_done) = Some st \<Longrightarrow>
   reachable tasks sc fb already_done outc st"
  using run_loop_steps by (simp add: reachable_def)

lemma run_dag_result:
  assumes "run_dag fuel tasks sc fb already_done workers outc pick = Inr (Some st)"
  shows "dag tasks \<and> reachable tasks sc fb already_done outc st \<and> all_terminal tasks st"
  using assms run_loop_left run_loop_reachable
  by (auto simp: run_dag_def and_then_Inr_conv validate_dag Let_def split: if_splits)

text \<open>The state a task ends in, from the ends of its dependencies.\<close>

lemma final_state:
  assumes "run_dag fuel tasks sc fb already_done workers outc pick = Inr (Some st)" "t \<in> set tasks"
  shows "state_of st (tk_id t) = Some
     (if tk_id t \<in> set already_done then SKIPPED
      else if dep_blocked st t then BLOCKED
      else if outc (tk_id t) = Returned then COMPLETED else FAILED)"
proof -
  note res = run_dag_result [OF assms(1)]
  have ok: "task_ok already_done outc st t"
    using reachable_ok res assms(2) by (fastforce simp: sched_ok_def order_ok_def)
  have "\<not> (deps_satisfied st t \<and> dep_blocked st t)"
    by (fastforce simp: deps_satisfied_def dep_blocked_def list_all_iff list_ex_iff satisfied_states_def)
  moreover have "\<exists>s \<in> set terminal_states. state_of st (tk_id t) = Some s"
    using res assms(2) by (simp add: all_terminal_def list_all_iff)
  ultimately show ?thesis using ok by (auto simp: task_ok_def terminal_states_def)
qed

definition succeeded :: "sched \<Rightarrow> bool" where
  "succeeded st = list_all (\<lambda>kv. tr_state (snd kv) \<in> set satisfied_states) (sd_results st)"

lemma succeeded_states:
  assumes "run_dag fuel tasks sc fb already_done workers outc pick = Inr (Some st)"
  shows "succeeded st \<longleftrightarrow> (\<forall>t \<in> set tasks. state_of st (tk_id t) \<in> {Some COMPLETED, Some SKIPPED})"
proof -
  note res = run_dag_result [OF assms]
  have ok: "sched_ok tasks (resolve_caps tasks sc fb) already_done outc st" using res reachable_ok by blast
  have nopend: "state_of st k \<noteq> Some PENDING" for k
  proof
    assume "state_of st k = Some PENDING"
    moreover have "state_of st k \<noteq> None \<longleftrightarrow> k \<in> ids tasks" using ok by (simp only: sched_ok_def order_ok_def)
    ultimately have "k \<in> ids tasks" by simp
    then obtain t where "t \<in> set tasks" "tk_id t = k" by (auto simp: ids_def)
    then show False using res \<open>state_of st k = Some PENDING\<close> by (auto simp: all_terminal_def list_all_iff terminal_states_def)
  qed
  then have rs: "result_state st k = state_of st k" and dist: "distinct (map fst (sd_results st))" for k
    using ok by (auto simp: sched_ok_def log_ok_def)
  have "succeeded st \<longleftrightarrow> (\<forall>k. state_of st k \<noteq> None \<longrightarrow> state_of st k \<in> {Some COMPLETED, Some SKIPPED})"
  proof -
    have "succeeded st \<longleftrightarrow> (\<forall>k r. (k, r) \<in> set (sd_results st) \<longrightarrow> tr_state r \<in> set satisfied_states)"
      by (force simp: succeeded_def list_all_iff)
    also have "\<dots> \<longleftrightarrow> (\<forall>k r. map_of (sd_results st) k = Some r \<longrightarrow> tr_state r \<in> set satisfied_states)"
      using dist by simp
    also have "\<dots> \<longleftrightarrow> (\<forall>k. result_state st k \<noteq> None \<longrightarrow> result_state st k \<in> Some ` set satisfied_states)"
      by (auto simp: result_state_def)
    finally show ?thesis by (simp add: rs satisfied_states_def)
  qed
  also have "\<dots> \<longleftrightarrow> (\<forall>t \<in> set tasks. state_of st (tk_id t) \<in> {Some COMPLETED, Some SKIPPED})"
    using ok by (auto simp: sched_ok_def order_ok_def ids_def)
  finally show ?thesis .
qed

section \<open>The guarantees of a run\<close>

definition first_running :: "task_spec list \<Rightarrow> sched \<Rightarrow> string" where
  "first_running tasks st =
     (case find (\<lambda>t. state_of st (tk_id t) = Some RUNNING) tasks of None \<Rightarrow> [] | Some t \<Rightarrow> tk_id t)"

lemma first_running_fair:
  "\<exists>t \<in> set tasks. state_of st (tk_id t) = Some RUNNING \<Longrightarrow>
   first_running tasks st \<in> ids tasks \<and> state_of st (first_running tasks st) = Some RUNNING"
  by (induction tasks) (auto simp: first_running_def ids_def)

definition demo_tasks :: "task_spec list" where
  "demo_tasks = [\<lparr>tk_id = ''script'', tk_stage = ''script'', tk_deps = []\<rparr>,
     \<lparr>tk_id = ''tts_a'', tk_stage = ''tts'', tk_deps = [''script'']\<rparr>,
     \<lparr>tk_id = ''record_b'', tk_stage = ''record'', tk_deps = [''script'']\<rparr>,
     \<lparr>tk_id = ''mix'', tk_stage = ''audio_mix'', tk_deps = [''tts_a'']\<rparr>]"

text \<open>The recording fails, everything else returns.\<close>

definition demo_outcome :: "string \<Rightarrow> task_outcome" where
  "demo_outcome tid = (if tid = ''record_b'' then Raised ''RuntimeError'' True else Returned)"

lemma demo_dag: "validate_graph demo_tasks = Inr demo_tasks"
  by code_simp

text \<open>
  Claim C20: \<open>run_dag\<close> returns, with every task in a terminal state, whatever the graph, the caps, the
  checkpoint and the order in which workers finish: when a task is running one of the running ones
  finishes next, and no callable ends in an exception that is not an \<open>Exception\<close>.  One turn of the
  scheduler per task and one more are enough.
\<close>

theorem run_dag_terminates:
  assumes "validate_graph tasks = Inr index" "\<forall>k n. outc k \<noteq> Raised n False"
    and "\<forall>st. (\<exists>t \<in> set tasks. state_of st (tk_id t) = Some RUNNING) \<longrightarrow> pick st \<in> ids tasks \<and> state_of st (pick st) = Some RUNNING"
  shows "\<exists>st. run_dag (Suc (length tasks)) tasks sc fb already_done None outc pick = Inr (Some st) \<and> all_terminal tasks st"
proof -
  have dag: "dag tasks" using assms(1) by (simp add: validate_dag)
  let ?st = "initial_sched tasks (resolve_caps tasks sc fb) already_done"
  have "card (unfinished tasks ?st) \<le> card (ids tasks)" by (rule card_mono) (auto simp: unfinished_def ids_def)
  also have "\<dots> \<le> length tasks" using card_length [of "map tk_id tasks"] by (simp add: ids_def)
  finally have "card (unfinished tasks ?st) < Suc (length tasks)" by simp
  moreover have "reachable tasks sc fb already_done outc ?st" by (simp add: reachable_def)
  ultimately obtain st where "run_loop (Suc (length tasks)) tasks outc pick ?st = Some st"
    using run_loop_returns [OF dag assms(2)] assms(3) by blast
  then have "run_dag (Suc (length tasks)) tasks sc fb already_done None outc pick = Inr (Some st)"
    using dag validate_dag [of tasks tasks] by (simp add: run_dag_def)
  then show ?thesis using run_dag_result by blast
qed

theorem run_dag_terminates_witness:
  "\<exists>st. run_dag 5 demo_tasks None DEFAULT_CONCURRENCY [] None demo_outcome (first_running demo_tasks) = Inr (Some st)
     \<and> all_terminal demo_tasks st"
proof -
  have "Suc (length demo_tasks) = 5" by (simp add: demo_tasks_def)
  then show ?thesis
    using run_dag_terminates [OF demo_dag, of demo_outcome "first_running demo_tasks" None DEFAULT_CONCURRENCY "[]"]
      first_running_fair [of demo_tasks]
    by (simp add: demo_outcome_def)
qed

text \<open>
  Claim C19: two runs of the same tasks, from the same checkpoint and with callables that end the same
  way, leave every task in the same state, whatever their caps, pools and order of completion.  A task
  that was checkpointed is skipped, one with a failed or blocked dependency is blocked, any other ends
  as its callable does.
\<close>

theorem runs_agree:
  assumes "run_dag f1 tasks sc1 fb1 already_done w1 outc p1 = Inr (Some s1)"
    and "run_dag f2 tasks sc2 fb2 already_done w2 outc p2 = Inr (Some s2)"
    and "t \<in> set tasks"
  shows "state_of s1 (tk_id t) = state_of s2 (tk_id t)
     \<and> state_of s1 (tk_id t) = Some
         (if tk_id t \<in> set already_done then SKIPPED
          else if \<exists>d \<in> set (tk_deps t). state_of s1 d \<in> {Some FAILED, Some BLOCKED} then BLOCKED
          else if outc (tk_id t) = Returned then COMPLETED else FAILED)"
proof
  have dag: "dag tasks" using run_dag_result [OF assms(1)] by blast
  show "state_of s1 (tk_id t) = state_of s2 (tk_id t)"
  proof (rule dag_induct [OF dag assms(3)])
    fix t
    assume t: "t \<in> set tasks"
      and IH: "\<And>u. u \<in> set tasks \<Longrightarrow> tk_id u \<in> set (tk_deps t) \<Longrightarrow> state_of s1 (tk_id u) = state_of s2 (tk_id u)"
    have "state_of s1 d = state_of s2 d" if "d \<in> set (tk_deps t)" for d
      using dag_dep [OF dag t that] IH that by auto
    then have "dep_blocked s1 t = dep_blocked s2 t" by (auto simp: dep_blocked_def list_ex_iff)
    then show "state_of s1 (tk_id t) = state_of s2 (tk_id t)"
      using final_state [OF assms(1) t] final_state [OF assms(2) t] by simp
  qed
  have "dep_blocked s1 t \<longleftrightarrow> (\<exists>d \<in> set (tk_deps t). state_of s1 d \<in> {Some FAILED, Some BLOCKED})"
    by (auto simp: dep_blocked_def list_ex_iff)
  then show "state_of s1 (tk_id t) = Some
         (if tk_id t \<in> set already_done then SKIPPED
          else if \<exists>d \<in> set (tk_deps t). state_of s1 d \<in> {Some FAILED, Some BLOCKED} then BLOCKED
          else if outc (tk_id t) = Returned then COMPLETED else FAILED)"
    using final_state [OF assms(1,3)] by simp
qed

definition demo_run :: "nat \<Rightarrow> sched option res" where
  "demo_run n = run_dag n demo_tasks None DEFAULT_CONCURRENCY [] None demo_outcome (first_running demo_tasks)"

definition last_running :: "task_spec list \<Rightarrow> sched \<Rightarrow> string" where
  "last_running tasks st = first_running (rev tasks) st"

definition demo_run_reversed :: "nat \<Rightarrow> sched option res" where
  "demo_run_reversed n = run_dag n demo_tasks None DEFAULT_CONCURRENCY [] (Some 2) demo_outcome (last_running demo_tasks)"

definition final_of :: "sched option res \<Rightarrow> sched" where
  "final_of r = (case r of Inr (Some st) \<Rightarrow> st | _ \<Rightarrow> initial_sched [] [] [])"

lemma demo_returns: "demo_run 5 = Inr (Some (final_of (demo_run 5)))"
  "demo_run_reversed 5 = Inr (Some (final_of (demo_run_reversed 5)))"
  by code_simp+

theorem runs_agree_witness:
  "state_of (final_of (demo_run 5)) ''mix'' = state_of (final_of (demo_run_reversed 5)) ''mix''"
proof -
  let ?t = "\<lparr>tk_id = ''mix'', tk_stage = ''audio_mix'', tk_deps = [''tts_a'']\<rparr>"
  have "?t \<in> set demo_tasks" by (simp add: demo_tasks_def)
  then show ?thesis
    using runs_agree [OF demo_returns [unfolded demo_run_def demo_run_reversed_def], of ?t]
    by (simp add: demo_run_def demo_run_reversed_def)
qed

text \<open>
  Claim C35: in every state the scheduler and its workers can reach, a task that was started has all its
  dependencies completed or skipped, was not in the checkpoint, and was handed to the pool exactly
  once; a task that was not started was never handed to it.
\<close>

theorem started_in_order_and_once:
  assumes "validate_graph tasks = Inr index" "reachable tasks sc fb already_done outc st" "t \<in> set tasks"
  shows "if state_of st (tk_id t) \<in> {Some RUNNING, Some COMPLETED, Some FAILED}
     then (\<forall>d \<in> set (tk_deps t). state_of st d \<in> {Some COMPLETED, Some SKIPPED})
       \<and> tk_id t \<notin> set already_done \<and> starts_of st (tk_id t) = 1
     else starts_of st (tk_id t) = 0"
proof -
  have ok: "sched_ok tasks (resolve_caps tasks sc fb) already_done outc st"
    using reachable_ok assms(1,2) by (simp add: validate_dag)
  then have "task_ok already_done outc st t" "starts_of st (tk_id t) =
      (if state_of st (tk_id t) \<in> {Some RUNNING, Some COMPLETED, Some FAILED} then 1 else 0)"
    using assms(3) by (simp_all add: sched_ok_def order_ok_def log_ok_def)
  then show ?thesis
    by (auto simp: task_ok_def deps_satisfied_def list_all_iff satisfied_states_def)
qed

lemma demo_reachable: "reachable demo_tasks None DEFAULT_CONCURRENCY [] demo_outcome (final_of (demo_run 5))"
  using run_dag_result demo_returns(1) unfolding demo_run_def by blast

theorem started_in_order_and_once_witness: "starts_of (final_of (demo_run 5)) ''mix'' = 1"
proof -
  let ?t = "\<lparr>tk_id = ''mix'', tk_stage = ''audio_mix'', tk_deps = [''tts_a'']\<rparr>"
  have "?t \<in> set demo_tasks" by (simp add: demo_tasks_def)
  moreover have "state_of (final_of (demo_run 5)) ''mix'' = Some COMPLETED" by code_simp
  ultimately show ?thesis
    using started_in_order_and_once [OF demo_dag demo_reachable, of ?t] by simp
qed

text \<open>
  In every reachable state the running tasks of a stage are at most its cap: the override for
  the stage (the default table when no override is given), the default cap for a stage without one, and
  at least one.  The semaphore holds exactly the slots that are left.
\<close>

theorem stage_caps_hold:
  assumes "validate_graph tasks = Inr index" "reachable tasks sc fb already_done outc st" "t \<in> set tasks"
  shows "in_flight tasks st (tk_stage t)
       \<le> nat (max 1 (case map_of (overrides_of sc) (tk_stage t) of None \<Rightarrow> fb | Some c \<Rightarrow> c))
     \<and> free_slots st t + in_flight tasks st (tk_stage t) = stage_cap (overrides_of sc) fb (tk_stage t)"
proof -
  have "sched_ok tasks (resolve_caps tasks sc fb) already_done outc st"
    using reachable_ok assms(1,2) by (simp add: validate_dag)
  then have "free_slots st t + in_flight tasks st (tk_stage t) = stage_cap (overrides_of sc) fb (tk_stage t)"
    using assms(3) resolve_caps_value [OF assms(3), of sc fb] by (auto simp: sched_ok_def slots_ok_def)
  then show ?thesis by (simp add: stage_cap_def)
qed

theorem stage_caps_hold_witness: "in_flight demo_tasks (final_of (demo_run 5)) ''tts'' \<le> 8"
proof -
  let ?t = "\<lparr>tk_id = ''tts_a'', tk_stage = ''tts'', tk_deps = [''script'']\<rparr>"
  have "?t \<in> set demo_tasks" by (simp add: demo_tasks_def)
  then show ?thesis
    using stage_caps_hold [OF demo_dag demo_reachable, of ?t]
    by (simp add: overrides_of_def DEFAULT_STAGE_CONCURRENCY_def)
qed

text \<open>
  A run reports success exactly when every task outside the checkpoint returned.
\<close>

theorem succeeded_iff:
  assumes "run_dag fuel tasks sc fb already_done workers outc pick = Inr (Some st)"
  shows "succeeded st \<longleftrightarrow> (\<forall>t \<in> set tasks. tk_id t \<in> set already_done \<or> outc (tk_id t) = Returned)"
proof
  assume "succeeded st"
  then show "\<forall>t \<in> set tasks. tk_id t \<in> set already_done \<or> outc (tk_id t) = Returned"
    using succeeded_states [OF assms] final_state [OF assms] by (auto split: if_splits)
next
  assume all: "\<forall>t \<in> set tasks. tk_id t \<in> set already_done \<or> outc (tk_id t) = Returned"
  have dag: "dag tasks" using run_dag_result [OF assms] by blast
  have "state_of st (tk_id t) \<in> {Some COMPLETED, Some SKIPPED}" if "t \<in> set tasks" for t
  proof (rule dag_induct [OF dag that])
    fix t
    assume t: "t \<in> set tasks"
      and IH: "\<And>u. u \<in> set tasks \<Longrightarrow> tk_id u \<in> set (tk_deps t) \<Longrightarrow> state_of st (tk_id u) \<in> {Some COMPLETED, Some SKIPPED}"
    have "state_of st d \<in> {Some COMPLETED, Some SKIPPED}" if "d \<in> set (tk_deps t)" for d
      using dag_dep [OF dag t that] IH that by auto
    then have "\<not> dep_blocked st t" by (fastforce simp: dep_blocked_def list_ex_iff)
    then show "state_of st (tk_id t) \<in> {Some COMPLETED, Some SKIPPED}"
      using final_state [OF assms t] all t by auto
  qed
  then show "succeeded st" using succeeded_states [OF assms] by blast
qed

theorem succeeded_iff_witness: "\<not> succeeded (final_of (demo_run 5))"
proof -
  let ?t = "\<lparr>tk_id = ''record_b'', tk_stage = ''record'', tk_deps = [''script'']\<rparr>"
  have "?t \<in> set demo_tasks" by (simp add: demo_tasks_def)
  then show ?thesis
    using succeeded_iff [OF demo_returns(1) [unfolded demo_run_def]]
    by (fastforce simp: demo_outcome_def demo_run_def)
qed

text \<open>
  Claim C36: a callable that ends in a \<open>BaseException\<close> such as \<open>SystemExit\<close>, on a task without
  dependencies that is not in the checkpoint, keeps \<open>run_dag\<close> from ever returning: its worker dies
  before the bookkeeping, the task stays running, and no number of turns and no order of the other
  workers ends the wait.
\<close>

theorem lost_worker_never_returns:
  assumes "validate_graph tasks = Inr index" "t \<in> set tasks" "tk_deps t = []" "tk_id t \<notin> set already_done"
    and "outc (tk_id t) = Raised name False"
  shows "run_dag fuel tasks sc fb already_done None outc pick = Inr None"
proof -
  have "\<forall>st. run_dag fuel tasks sc fb already_done None outc pick \<noteq> Inr (Some st)"
  proof (intro allI notI)
    fix st assume r: "run_dag fuel tasks sc fb already_done None outc pick = Inr (Some st)"
    have "task_ok already_done outc st t"
      using reachable_ok run_dag_result [OF r] assms(2) by (fastforce simp: sched_ok_def order_ok_def)
    then show False
      using final_state [OF r assms(2)] assms(3-5) by (simp add: task_ok_def dep_blocked_def)
  qed
  moreover have "validate_graph tasks = Inr tasks" using assms(1) by (simp add: validate_dag)
  ultimately show ?thesis
    by (cases "run_loop fuel tasks outc pick (initial_sched tasks (resolve_caps tasks sc fb) already_done)")
      (simp_all add: run_dag_def)
qed

theorem lost_worker_never_returns_witness:
  "\<forall>fuel pick. run_dag fuel demo_tasks None 1 [] None (\<lambda>_. Raised ''SystemExit'' False) pick = Inr None"
  using lost_worker_never_returns [OF demo_dag, of "\<lparr>tk_id = ''script'', tk_stage = ''script'', tk_deps = []\<rparr>" "[]"
      "\<lambda>_. Raised ''SystemExit'' False" "''SystemExit''"]
  by (simp add: demo_tasks_def)

section \<open>The persisted checkpoint\<close>

text \<open>
  \<open>StorageCheckpoint\<close>: the completed ids as a JSON document.  A missing, empty or corrupt blob and a
  document of another shape read as no ids.  \<open>updated_at\<close> is the given instant.
\<close>

definition decode_checkpoint :: "(json \<Rightarrow> string) \<Rightarrow> blob option \<Rightarrow> string list" where
  "decode_checkpoint repr raw =
     (case raw of
        None \<Rightarrow> []
      | Some b \<Rightarrow>
          (case loads b of
             Some (JObj payload) \<Rightarrow>
               (case dget payload ''completed'' of
                  JList xs \<Rightarrow> map (py_str repr) xs
                | _ \<Rightarrow> [])
           | _ \<Rightarrow> []))"

definition completed_ids :: "(json \<Rightarrow> string) \<Rightarrow> store \<Rightarrow> string \<Rightarrow> string list" where
  "completed_ids repr s path = decode_checkpoint repr (s path)"

definition mark_cb :: "(json \<Rightarrow> string) \<Rightarrow> string \<Rightarrow> string \<Rightarrow> unit callback" where
  "mark_cb repr now tid c current =
     ((), Inr (Doc (JObj
       [(''schema_version'', JInt 1),
        (''completed'', JList (map JStr (sort (remdups (tid # decode_checkpoint repr current))))),
        (''updated_at'', JStr now)])))"

definition mark_completed :: "(json \<Rightarrow> string) \<Rightarrow> string \<Rightarrow> string \<Rightarrow> string \<Rightarrow> store \<Rightarrow> store" where
  "mark_completed repr now path tid s = snd (snd (local_update (mark_cb repr now tid) () s path))"

lemma decode_written:
  "decode_checkpoint repr (Some (Doc (JObj [(''schema_version'', v), (''completed'', JList (map JStr xs)), (''updated_at'', u)]))) = xs"
  by (simp add: decode_checkpoint_def comp_def)

lemma mark_completed_adds: "set (completed_ids repr (mark_completed repr now path tid s) path) = insert tid (set (completed_ids repr s path))"
  by (simp add: completed_ids_def mark_completed_def local_update_def mark_cb_def decode_written insert_absorb)

lemma marks_completed:
  "set (completed_ids repr (fold (mark_completed repr now path) tids s) path) = set tids \<union> set (completed_ids repr s path)"
  by (induction tids arbitrary: s) (auto simp: mark_completed_adds)

text \<open>
  Resuming.  When a run's workers marked the tasks they completed, in any order, a later run
  of the same tasks on that checkpoint skips every task that completed or was skipped before, and does
  not call it again, whatever the caps and whatever the callables do this time.
\<close>

theorem resume_skips_finished:
  assumes "run_dag f1 tasks sc1 fb1 (completed_ids repr s path) w1 outc1 p1 = Inr (Some s1)"
    and "set tids = set (sd_marked s1)"
    and "run_dag f2 tasks sc2 fb2 (completed_ids repr (fold (mark_completed repr now path) tids s) path) w2 outc2 p2 = Inr (Some s2)"
    and "t \<in> set tasks" "state_of s1 (tk_id t) \<in> {Some COMPLETED, Some SKIPPED}"
  shows "state_of s2 (tk_id t) = Some SKIPPED \<and> starts_of s2 (tk_id t) = 0"
proof -
  note r1 = run_dag_result [OF assms(1)] and r2 = run_dag_result [OF assms(3)]
  have ok: "sched_ok tasks (resolve_caps tasks sc1 fb1) (completed_ids repr s path) outc1 s1"
    using reachable_ok r1 by blast
  have "tk_id t \<in> set (sd_marked s1)" if "state_of s1 (tk_id t) = Some COMPLETED"
    using ok that unfolding sched_ok_def log_ok_def by blast
  moreover have "tk_id t \<in> set (completed_ids repr s path)" if "state_of s1 (tk_id t) = Some SKIPPED"
  proof -
    have "task_ok (completed_ids repr s path) outc1 s1 t" using ok assms(4) unfolding sched_ok_def order_ok_def by blast
    then show ?thesis using that by (simp add: task_ok_def)
  qed
  ultimately have "tk_id t \<in> set (sd_marked s1) \<union> set (completed_ids repr s path)"
    using assms(5) by blast
  then have finished: "tk_id t \<in> set (completed_ids repr (fold (mark_completed repr now path) tids s) path)"
    unfolding marks_completed assms(2) .
  have "state_of s2 (tk_id t) = Some SKIPPED"
    unfolding final_state [OF assms(3,4)] if_P [OF finished] by (rule refl)
  moreover have "log_ok s2" using reachable_ok r2 unfolding sched_ok_def by blast
  ultimately show ?thesis by (simp add: log_ok_def)
qed

definition demo_resume :: "sched option res" where
  "demo_resume = run_dag 5 demo_tasks None 1
     (completed_ids (\<lambda>_. []) (fold (mark_completed (\<lambda>_. []) ''now'' ''cp'') [''mix'', ''tts_a'', ''script''] (\<lambda>_. None)) ''cp'')
     None (\<lambda>_. Returned) (first_running demo_tasks)"

theorem resume_skips_finished_witness:
  "state_of (final_of demo_resume) ''mix'' = Some SKIPPED \<and> starts_of (final_of demo_resume) ''mix'' = 0"
proof -
  let ?t = "\<lparr>tk_id = ''mix'', tk_stage = ''audio_mix'', tk_deps = [''tts_a'']\<rparr>"
  have t: "?t \<in> set demo_tasks" by (simp add: demo_tasks_def)
  have none: "completed_ids (\<lambda>_. []) (\<lambda>_. None) ''cp'' = []" by (simp add: completed_ids_def decode_checkpoint_def)
  have m: "set [''mix'', ''tts_a'', ''script''] = set (sd_marked (final_of (demo_run 5)))" by code_simp
  have c: "state_of (final_of (demo_run 5)) ''mix'' = Some COMPLETED" by code_simp
  have r1: "run_dag 5 demo_tasks None DEFAULT_CONCURRENCY (completed_ids (\<lambda>_. []) (\<lambda>_. None) ''cp'') None demo_outcome
      (first_running demo_tasks) = Inr (Some (final_of (demo_run 5)))"
    unfolding none by (rule trans [OF demo_run_def [symmetric] demo_returns(1)])
  have "demo_resume = Inr (Some (final_of demo_resume))" by code_simp
  note r2 = trans [OF demo_resume_def [symmetric] this]
  show ?thesis using resume_skips_finished [OF r1 m r2 t] c by simp
qed

end
