(* ===== verification/OutboxDocument.thy ===== *)
theory OutboxDocument
  imports Publication "HOL-Library.Char_ord" "HOL-Library.List_Lexorder"
begin

text \<open>
  \<open>podcaster/distribution_outbox.py\<close>: the durable document of one distribution and what every
  operation checks of it.  SHA-256, the text of \<open>json.dumps\<close> and the local time zone belong to the
  library and are parameters (\<open>outbox_env\<close>), and so is the verdict on a recovery authorization, whose
  evidence checks are not modelled: every statement holds for any verdict.  A call reads its clock and
  draws its identifiers several times; \<open>call\<close> gives the n-th reading of each.  Documents are written
  with sorted keys; the order of members is not observed by any statement.
\<close>

section \<open>Surroundings\<close>

record outbox_env =
  oe_repr :: "json \<Rightarrow> string"
  oe_sha :: "string \<Rightarrow> string"
  oe_text :: "json \<Rightarrow> string"
  oe_local :: "int \<Rightarrow> int"
  oe_recovery :: "dict \<Rightarrow> dict \<Rightarrow> bool \<Rightarrow> bool"

record call =
  ca_now :: "nat \<Rightarrow> int"
  ca_uid :: "nat \<Rightarrow> string"

definition outbox_err :: "string \<Rightarrow> 'a res" where
  "outbox_err msg = Inl (Raise OutboxErr msg)"

definition stale :: "string \<Rightarrow> 'a res" where
  "stale msg = Inl (Raise StaleClaimErr msg)"

definition conflict :: "string \<Rightarrow> 'a res" where
  "conflict msg = Inl (Raise OutboxConflictErr msg)"

definition OUTBOX_SCHEMA_VERSION :: string where
  "OUTBOX_SCHEMA_VERSION = ''squadscope-podcaster-distribution-outbox-v1''"

definition INITIAL_RECONCILIATION_DELAY :: int where
  "INITIAL_RECONCILIATION_DELAY = micros 300"

definition PROVIDER_RESULTS :: "string list" where
  "PROVIDER_RESULTS = [''pending_provider'', ''externally_verified_public'', ''publication_unknown'',
     ''manual_handoff_required'', ''failed_retryable_pre_mutation'', ''failed_terminal'', ''partial'', ''poisoned'',
     ''identity_conflict'']"

definition ATTEMPT_RECORD_VERSION :: string where
  "ATTEMPT_RECORD_VERSION = ''distribution-attempt-record-v1''"

definition RECOVERY_AUTHORIZATION_SET_SCHEMA_VERSION :: string where
  "RECOVERY_AUTHORIZATION_SET_SCHEMA_VERSION = ''distribution-recovery-authz-set-v1''"

text \<open>\<open>isinstance(x, Mapping)\<close> and \<open>isinstance(x, list)\<close> of a member.\<close>

definition sub_dict :: "dict \<Rightarrow> string \<Rightarrow> dict option" where
  "sub_dict d k = (case dget d k of JObj e \<Rightarrow> Some e | _ \<Rightarrow> None)"

definition sub_list :: "dict \<Rightarrow> string \<Rightarrow> json list option" where
  "sub_list d k = (case dget d k of JList xs \<Rightarrow> Some xs | _ \<Rightarrow> None)"

definition dsetdefault :: "string \<Rightarrow> json \<Rightarrow> dict \<Rightarrow> dict" where
  "dsetdefault k v d = (if dhas d k then d else dset k v d)"

text \<open>\<open>str(x or "")\<close>.\<close>

definition str_or :: "outbox_env \<Rightarrow> json \<Rightarrow> string" where
  "str_or env v = (if truthy v then py_str (oe_repr env) v else [])"

text \<open>\<open>int(x or 0)\<close>.\<close>

definition int_or_0 :: "json \<Rightarrow> int res" where
  "int_or_0 v = (if truthy v then py_int v else Inr 0)"

section \<open>Tokens, times and safe values\<close>

definition token_char :: "char \<Rightarrow> bool" where
  "token_char c = (let n = (of_char c :: nat) in is_digit c \<or> (65 \<le> n \<and> n \<le> 90) \<or> (97 \<le> n \<and> n \<le> 122)
     \<or> c \<in> {CHR ''.'', CHR ''_'', CHR '':'', CHR ''-''})"

definition is_token :: "string \<Rightarrow> bool" where
  "is_token s = (s \<noteq> [] \<and> length s \<le> 128 \<and> list_all token_char s)"

definition require_token :: "string \<Rightarrow> string \<Rightarrow> string res" where
  "require_token name v =
     (let normalized = py_strip v
      in if is_token normalized then Inr normalized else Inl (Raise UnsafeValueErr (name @ '' is malformed'')))"

text \<open>\<open>require_token(...) if value else None\<close>.\<close>

definition opt_token :: "string \<Rightarrow> string option \<Rightarrow> json res" where
  "opt_token name v = (if nonempty v then and_then (require_token name (the v)) (\<lambda>t. Inr (JStr t)) else Inr JNull)"

text \<open>\<open>_parse_time\<close>: an unreadable text raises \<open>ValueError\<close>; a naive time is in the local zone.\<close>

definition in_range :: "int \<Rightarrow> int res" where
  "in_range t = (if valid_instant t then Inr t else Inl (Raise OverflowErr ''date value out of range''))"

definition parse_time_text :: "outbox_env \<Rightarrow> string \<Rightarrow> int option res" where
  "parse_time_text env s =
     (if s = [] then Inr None
      else case fromisoformat (py_replace ''Z'' ''+00:00'' s) of
        None \<Rightarrow> Inl (Raise ValueErr ''Invalid isoformat string'')
      | Some (Aware t) \<Rightarrow> and_then (in_range t) (\<lambda>t. Inr (Some t))
      | Some (Naive t) \<Rightarrow> and_then (in_range (oe_local env t)) (\<lambda>t. Inr (Some t)))"

definition parse_field :: "outbox_env \<Rightarrow> json \<Rightarrow> int option res" where
  "parse_field env v = parse_time_text env (str_or env v)"

text \<open>\<open>_iso(now + delta)\<close>.\<close>

definition iso_after :: "int \<Rightarrow> int \<Rightarrow> string res" where
  "iso_after now delta = and_then (in_range (now + delta)) (\<lambda>t. Inr (iso_z t))"

definition unsafe_key :: "string \<Rightarrow> bool" where
  "unsafe_key name = (let n = py_lower name in signed_url n
     \<or> list_ex (\<lambda>w. contains w n) [''authorization'', ''bearer'', ''cookie'', ''credential'', ''secret'', ''token_value'',
          ''body'', ''content''])"

definition unsafe_value :: "'a res" where
  "unsafe_value = Inl (Raise UnsafeValueErr ''unsafe durable value'')"

fun safe_value :: "string \<Rightarrow> json \<Rightarrow> json res"
  and safe_items :: "string \<Rightarrow> json list \<Rightarrow> json list res"
  and safe_members :: "dict \<Rightarrow> dict res" where
  "safe_value key (JStr s) =
     (if unsafe_key key then unsafe_value
      else if contains ''://'' s \<or> 256 < length s then unsafe_value else Inr (JStr s))"
| "safe_value key (JObj d) =
     (if unsafe_key key then unsafe_value else and_then (safe_members d) (\<lambda>e. Inr (JObj e)))"
| "safe_value key (JList xs) =
     (if unsafe_key key then unsafe_value else and_then (safe_items key xs) (\<lambda>ys. Inr (JList ys)))"
| "safe_value key v = (if unsafe_key key then unsafe_value else Inr v)"
| "safe_items key [] = Inr []"
| "safe_items key (x # xs) = and_then (safe_value key x) (\<lambda>y. and_then (safe_items key xs) (\<lambda>ys. Inr (y # ys)))"
| "safe_members [] = Inr []"
| "safe_members ((k, v) # d) =
     and_then (safe_value k v) (\<lambda>w. and_then (safe_members d) (\<lambda>e.
       let k' = take 64 k
       in Inr (case map_of e k' of None \<Rightarrow> (k', w) # e | Some later \<Rightarrow> (k', later) # AList.delete k' e)))"

text \<open>\<open>_load_outbox_document\<close>: no object of the text has a repeated member.\<close>

fun no_repeats :: "json \<Rightarrow> bool"
  and no_repeats_items :: "json list \<Rightarrow> bool"
  and no_repeats_members :: "dict \<Rightarrow> bool" where
  "no_repeats (JObj d) = (distinct (map fst d) \<and> no_repeats_members d)"
| "no_repeats (JList xs) = no_repeats_items xs"
| "no_repeats v = True"
| "no_repeats_items [] = True"
| "no_repeats_items (x # xs) = (no_repeats x \<and> no_repeats_items xs)"
| "no_repeats_members [] = True"
| "no_repeats_members ((k, v) # d) = (no_repeats v \<and> no_repeats_members d)"

definition load_outbox :: "blob \<Rightarrow> dict res" where
  "load_outbox raw =
     (case loads raw of
        None \<Rightarrow> outbox_err ''outbox record is corrupt''
      | Some j \<Rightarrow>
          (if \<not> no_repeats j then outbox_err ''outbox record contains duplicate fields''
           else case j of JObj d \<Rightarrow> Inr d | _ \<Rightarrow> outbox_err ''outbox record is malformed''))"

section \<open>Digests\<close>

text \<open>\<open>_canonical_typed_value\<close>: every value with its type; the members of an object sorted.\<close>

fun canonical_typed :: "json \<Rightarrow> json res"
  and canonical_items :: "json list \<Rightarrow> json list res"
  and canonical_entries :: "dict \<Rightarrow> dict res" where
  "canonical_typed JNull = Inr (JObj [(''type'', JStr ''null''), (''value'', JNull)])"
| "canonical_typed (JBool b) = Inr (JObj [(''type'', JStr ''boolean''), (''value'', JBool b)])"
| "canonical_typed (JInt n) = Inr (JObj [(''type'', JStr ''integer''), (''value'', JInt n)])"
| "canonical_typed (JFloat r) = outbox_err ''canonical recovery data contains an unsupported number''"
| "canonical_typed (JStr s) = Inr (JObj [(''type'', JStr ''string''), (''value'', JStr s)])"
| "canonical_typed (JObj d) =
     and_then (canonical_entries d) (\<lambda>es. Inr (JObj [(''type'', JStr ''object''),
       (''entries'', JList (map (\<lambda>(k, v). JObj [(''key'', JStr k), (''value'', v)]) (sort_key fst es)))]))"
| "canonical_typed (JList xs) =
     and_then (canonical_items xs) (\<lambda>ys. Inr (JObj [(''type'', JStr ''array''), (''items'', JList ys)]))"
| "canonical_items [] = Inr []"
| "canonical_items (x # xs) = and_then (canonical_typed x) (\<lambda>y. and_then (canonical_items xs) (\<lambda>ys. Inr (y # ys)))"
| "canonical_entries [] = Inr []"
| "canonical_entries ((k, v) # d) =
     and_then (canonical_typed v) (\<lambda>w. and_then (canonical_entries d) (\<lambda>e. Inr ((k, w) # e)))"

definition join_bars :: "string list \<Rightarrow> string" where
  "join_bars xs = concat (case xs of [] \<Rightarrow> [] | y # ys \<Rightarrow> y # map (\<lambda>z. ''|'' @ z) ys)"

definition publication_digest :: "outbox_env \<Rightarrow> dict \<Rightarrow> dict \<Rightarrow> string" where
  "publication_digest env identity artifact =
     oe_sha env (join_bars
       (map (\<lambda>k. str_or env (dget identity k))
          [''accepted_job_id'', ''week'', ''publish_run_id'', ''article_sha256'', ''manifest_sha256'']
        @ map (\<lambda>k. str_or env (dget artifact k)) [''sha256'', ''media_kind'']))"

definition providers_of :: "dict \<Rightarrow> dict" where
  "providers_of doc = (case sub_dict doc ''providers'' of None \<Rightarrow> [] | Some ps \<Rightarrow> ps)"

definition leg_of :: "dict \<Rightarrow> string \<Rightarrow> dict option" where
  "leg_of doc provider = sub_dict (providers_of doc) provider"

definition media_destination_sha256 :: "outbox_env \<Rightarrow> dict \<Rightarrow> string res" where
  "media_destination_sha256 env doc =
     and_then (dindex doc ''provider_objectives'') (\<lambda>objectives.
     and_then (dindex doc ''providers'') (\<lambda>ps.
     and_then (attr_dict ps) (\<lambda>legs.
     and_then (map_res (\<lambda>(p, leg). and_then (attr_dict leg) (\<lambda>l. Inr (p, dget l ''context''))) legs) (\<lambda>contexts.
     and_then (dindex doc ''artifact'') (\<lambda>artifact.
     Inr (oe_sha env (oe_text env (JObj
       [(''objectives'', objectives), (''contexts'', JObj contexts), (''artifact'', artifact)]))))))))"

section \<open>Approvals\<close>

definition system_name :: "string \<Rightarrow> bool" where
  "system_name s = starts_with ''system:'' (py_lower s)"

text \<open>\<open>_provider_approval\<close>: what an incoming approval is worth.\<close>

definition denied_approval :: "string \<Rightarrow> string \<Rightarrow> dict" where
  "denied_approval digest manifest =
     [(''approved'', JBool False), (''approved_by'', JNull), (''approved_at'', JNull), (''source'', JNull),
      (''publication_digest'', JStr digest), (''manifest_sha256'', JStr manifest)]"

definition provider_approval :: "outbox_env \<Rightarrow> json \<Rightarrow> string \<Rightarrow> string \<Rightarrow> dict res" where
  "provider_approval env approval digest manifest =
     (case approval of
        JObj a \<Rightarrow>
          (let approved_by = py_strip (str_or env (dget a ''approved_by''));
               approved_at = py_strip (str_or env (dget a ''approved_at''));
               source = py_strip (str_or env (dget a ''source''))
           in if dget a ''approved'' \<noteq> JBool True \<or> approved_by = [] \<or> system_name approved_by \<or> approved_at = []
                 \<or> source \<noteq> ''manifest_human_review''
              then Inr (denied_approval digest manifest)
              else and_then (require_token ''approved_by'' approved_by) (\<lambda>_.
                   case parse_time_text env approved_at of
                     Inl e \<Rightarrow> if exn_is (exn_class_of e) ValueErr then Inr (denied_approval digest manifest) else Inl e
                   | Inr _ \<Rightarrow> Inr [(''approved'', JBool True), (''approved_by'', JStr approved_by),
                       (''approved_at'', JStr approved_at), (''source'', JStr source),
                       (''publication_digest'', JStr digest), (''manifest_sha256'', JStr manifest)]))
      | _ \<Rightarrow> Inr (denied_approval digest manifest))"

text \<open>\<open>_parse_time\<close> of a value that must be a string, with \<open>ValueError\<close> read as no time.\<close>

definition approval_time :: "outbox_env \<Rightarrow> json \<Rightarrow> int option res" where
  "approval_time env v =
     (case v of
        JStr s \<Rightarrow>
          (case parse_time_text env s of
             Inl e \<Rightarrow> if exn_is (exn_class_of e) ValueErr then Inr None else Inl e
           | Inr t \<Rightarrow> Inr t)
      | _ \<Rightarrow> Inr None)"

definition approved_by_human :: "json \<Rightarrow> bool" where
  "approved_by_human v = (case v of JStr s \<Rightarrow> s \<noteq> [] \<and> \<not> system_name s | _ \<Rightarrow> False)"

definition provider_approval_is_valid :: "outbox_env \<Rightarrow> dict \<Rightarrow> string \<Rightarrow> bool res" where
  "provider_approval_is_valid env doc provider =
     (case sub_dict doc ''publication_identity'' of
        None \<Rightarrow> Inr False
      | Some identity \<Rightarrow>
          (let approval = (case leg_of doc provider of None \<Rightarrow> None | Some leg \<Rightarrow> sub_dict leg ''approval'')
           in case approval of
                None \<Rightarrow> Inr False
              | Some a \<Rightarrow>
                  and_then (approval_time env (dget a ''approved_at'')) (\<lambda>t.
                  Inr (dget a ''approved'' = JBool True \<and> approved_by_human (dget a ''approved_by'') \<and> t \<noteq> None
                     \<and> dget a ''source'' = JStr ''manifest_human_review''
                     \<and> dget a ''publication_digest'' = dget doc ''publication_digest''
                     \<and> dget a ''manifest_sha256'' = dget identity ''manifest_sha256''))))"

text \<open>\<open>all(f(x) for x in xs)\<close> where \<open>f\<close> may raise: it stops at the first \<open>False\<close>.\<close>

fun all_res :: "('a \<Rightarrow> bool res) \<Rightarrow> 'a list \<Rightarrow> bool res" where
  "all_res f [] = Inr True"
| "all_res f (x # xs) = and_then (f x) (\<lambda>b. if b then all_res f xs else Inr False)"

definition media_review_allows_distribution :: "outbox_env \<Rightarrow> dict \<Rightarrow> bool res" where
  "media_review_allows_distribution env doc =
     (if \<not> dhas doc ''media_review'' then Inr True
      else case sub_dict doc ''media_review'' of
        None \<Rightarrow> Inr False
      | Some review \<Rightarrow>
          (case sub_dict review ''binding'' of
             None \<Rightarrow> Inr False
           | Some b \<Rightarrow>
               (let identity = (case sub_dict doc ''publication_identity'' of None \<Rightarrow> [] | Some i \<Rightarrow> i);
                    artifact = (case sub_dict doc ''artifact'' of None \<Rightarrow> [] | Some a \<Rightarrow> a)
                in if dget review ''status'' \<noteq> JStr ''approved'' \<or> dget b ''decision'' \<noteq> JStr ''approved''
                      \<or> dget b ''checks_confirmed'' \<noteq> JBool True \<or> dget b ''outbox_id'' \<noteq> dget doc ''outbox_id''
                      \<or> dget b ''accepted_job_id'' \<noteq> dget identity ''accepted_job_id''
                      \<or> dget b ''publication_digest'' \<noteq> dget doc ''publication_digest''
                      \<or> dget b ''artifact_sha256'' \<noteq> dget artifact ''sha256''
                   then Inr False
                   else and_then (media_destination_sha256 env doc) (\<lambda>dest.
                     if dget b ''destination_sha256'' \<noteq> JStr dest then Inr False
                     else case dget_or review ''audit_trail'' (JList []) of
                       JList trail \<Rightarrow>
                         (if JObj b \<notin> set trail then Inr False
                          else all_res (provider_approval_is_valid env doc) (map fst (providers_of doc)))
                     | _ \<Rightarrow> Inl (Raise TypeErr ''audit trail is not a list'')))))"

section \<open>Attempts\<close>

definition present :: "dict \<Rightarrow> dict" where
  "present details = filter (\<lambda>kv. snd kv \<noteq> JNull) details"

definition attempt_event :: "dict \<Rightarrow> string \<Rightarrow> string \<Rightarrow> dict \<Rightarrow> dict res" where
  "attempt_event attempt state at_time details =
     and_then (dindex attempt ''events'') (\<lambda>events.
     case events of
       JList es \<Rightarrow>
         Inr (dset ''state'' (JStr state)
           (dset ''events''
             (JList (es @ [JObj (dupdate
                [(''sequence'', JInt (int (length es) + 1)), (''event_type'', JStr state), (''at'', JStr at_time),
                 (''state'', JStr state)] (present details))]))
             attempt))
     | _ \<Rightarrow> Inl (Raise TypeErr ''events is not a list''))"

definition active_attempt :: "dict \<Rightarrow> dict res" where
  "active_attempt doc =
     (case sub_list doc ''attempts'' of
        None \<Rightarrow> outbox_err ''attempt ledger is missing''
      | Some xs \<Rightarrow>
          (if xs = [] then outbox_err ''attempt ledger is missing''
           else case last xs of JObj a \<Rightarrow> Inr a | _ \<Rightarrow> outbox_err ''attempt ledger is malformed''))"

text \<open>The last attempt is updated in place.\<close>

definition with_attempt :: "dict \<Rightarrow> dict \<Rightarrow> dict" where
  "with_attempt attempt doc =
     (case sub_list doc ''attempts'' of
        None \<Rightarrow> doc
      | Some xs \<Rightarrow> dset ''attempts'' (JList (butlast xs @ [JObj attempt])) doc)"

definition log_event :: "string \<Rightarrow> string \<Rightarrow> dict \<Rightarrow> dict \<Rightarrow> dict res" where
  "log_event state at_time details doc =
     and_then (active_attempt doc) (\<lambda>a.
     and_then (attempt_event a state at_time details) (\<lambda>a'. Inr (with_attempt a' doc)))"

section \<open>Defaults of older documents\<close>

definition dict_list :: "json \<Rightarrow> bool" where
  "dict_list v = (case v of JList xs \<Rightarrow> list_all is_dict xs | _ \<Rightarrow> False)"

definition malformed_collection :: "dict \<Rightarrow> bool" where
  "malformed_collection doc =
     list_ex (\<lambda>f. dhas doc f \<and> \<not> dict_list (dget doc f)) [''attempts'', ''recovery_authz'']"

fun named_attempt :: "json \<Rightarrow> bool" where
  "named_attempt (JObj a) = (case dget a ''attempt_id'' of JStr s \<Rightarrow> s \<noteq> [] | _ \<Rightarrow> False)"
| "named_attempt v = False"

definition malformed_member :: "dict \<Rightarrow> bool" where
  "malformed_member doc =
     list_ex (\<lambda>f. dhas doc f \<and> \<not> is_dict (dget doc f)) [''canonical_artifact'', ''weekly_aggregation'', ''enqueue'']"

definition attempts_of :: "dict \<Rightarrow> json list" where
  "attempts_of doc = (case sub_list doc ''attempts'' of None \<Rightarrow> [] | Some xs \<Rightarrow> xs)"

definition canonical_default :: "outbox_env \<Rightarrow> dict \<Rightarrow> dict" where
  "canonical_default env artifact =
     [(''artifact_id'', JStr (str_or env (dget artifact ''sha256''))), (''path'', JStr (str_or env (dget artifact ''path''))),
      (''sha256'', JStr (str_or env (dget artifact ''sha256''))), (''media_kind'', JStr (str_or env (dget artifact ''media_kind''))),
      (''selected'', JBool True), (''selection_reason'', JStr ''content_addressed_render''), (''selection_version'', JStr ''v1'')]"

definition accepted_event :: "string \<Rightarrow> json" where
  "accepted_event at_time = JObj [(''sequence'', JInt 1), (''event_type'', JStr ''accepted''), (''at'', JStr at_time),
     (''state'', JStr ''accepted'')]"

text \<open>The text of \<open>document.get('outbox_id')\<close> in an f-string.\<close>

definition id_text :: "outbox_env \<Rightarrow> dict \<Rightarrow> string" where
  "id_text env doc = py_str (oe_repr env) (dget doc ''outbox_id'')"

definition initial_attempt :: "outbox_env \<Rightarrow> call \<Rightarrow> dict \<Rightarrow> json" where
  "initial_attempt env c doc =
     (let stamp = (if truthy (dget doc ''created_at'') then py_str (oe_repr env) (dget doc ''created_at'') else iso_z (ca_now c 0));
          attempt_id = ca_uid c 0
      in JObj [(''record_version'', JStr ATTEMPT_RECORD_VERSION), (''attempt_id'', JStr attempt_id),
           (''authz_id'', JStr (oe_sha env (''initial|'' @ id_text env doc @ ''|'' @ attempt_id))),
           (''authz_source'', JStr ''initial_enqueue''), (''authz_reason'', JStr ''accepted_publication''),
           (''authorized_at'', JStr stamp), (''predecessor_attempt_id'', JNull), (''state'', JStr ''pending''),
           (''terminal_outcome'', JNull), (''events'', JList [accepted_event stamp]), (''proof_references'', JList [])])"

definition authorization_set :: "outbox_env \<Rightarrow> json list \<Rightarrow> dict res" where
  "authorization_set env authorizations =
     and_then (map_res (\<lambda>a. and_then (attr_dict a) (\<lambda>d. dindex d ''authz_id'')) authorizations) (\<lambda>ordered.
     let envelope = [(''schema_version'', JStr RECOVERY_AUTHORIZATION_SET_SCHEMA_VERSION),
           (''authz_count'', JInt (int (length authorizations))), (''ordered_authz_ids'', JList ordered),
           (''active_authz_id'', if ordered = [] then JNull else last ordered)]
     in and_then (canonical_typed (JObj [(''set'', JObj envelope), (''authorizations'', JList authorizations)])) (\<lambda>typed.
        Inr (envelope @ [(''digest'', JStr (oe_sha env (oe_text env typed)))])))"

definition weekly_default :: "outbox_env \<Rightarrow> dict \<Rightarrow> json" where
  "weekly_default env doc =
     JObj [(''decision_id'', JStr (oe_sha env (''weekly|'' @ id_text env doc @ ''|v1''))),
       (''rule_version'', JStr ''weekly-publication-truth-v1''),
       (''evaluated_attempt_ids'', JList (map (\<lambda>a. case a of JObj d \<Rightarrow> dget d ''attempt_id'' | _ \<Rightarrow> JNull) (attempts_of doc))),
       (''state'', JStr ''pending''), (''winning_attempt_id'', JNull), (''proof_references'', JList []),
       (''unresolved_conditions'', JList []),
       (''decided_at'', JStr (py_str (oe_repr env)
          (if truthy (dget doc ''updated_at'') then dget doc ''updated_at'' else dget doc ''created_at''))),
       (''worker_exit_class'', JStr ''nonzero'')]"

text \<open>A consumed notification intent that was not accepted may or may not have been sent.\<close>

definition normal_enqueue :: "dict \<Rightarrow> dict" where
  "normal_enqueue enqueue =
     (case sub_dict enqueue ''notification_intent'' of
        None \<Rightarrow> enqueue
      | Some intent \<Rightarrow>
          (if truthy (dget intent ''accepted_at'')
           then dset ''notification_intent'' (JObj (dset ''state'' (JStr ''accepted'') intent)) enqueue
           else if truthy (dget intent ''consumed_at'')
           then dset ''notification_sent_at'' JNull
                  (dset ''notification_intent'' (JObj (dset ''state'' (JStr ''ambiguous'') intent)) enqueue)
           else dset ''notification_intent'' (JObj (dsetdefault ''state'' (JStr ''reserved'') intent)) enqueue))"

definition with_attempts :: "outbox_env \<Rightarrow> call \<Rightarrow> dict \<Rightarrow> dict" where
  "with_attempts env c doc =
     (if attempts_of doc = [] then dset ''attempts'' (JList [initial_attempt env c doc]) doc else doc)"

definition with_authz_set :: "outbox_env \<Rightarrow> dict \<Rightarrow> dict res" where
  "with_authz_set env doc =
     (let doc = dsetdefault ''recovery_authz'' (JList []) doc
      in if dget doc ''recovery_authz'' = JList [] \<and> \<not> dhas doc ''recovery_authz_set''
         then and_then (authorization_set env []) (\<lambda>s. Inr (dset ''recovery_authz_set'' (JObj s) doc))
         else Inr doc)"

definition ensure_truth_fields :: "outbox_env \<Rightarrow> call \<Rightarrow> dict \<Rightarrow> dict res" where
  "ensure_truth_fields env c doc =
     (if malformed_collection doc then outbox_err ''outbox collection is malformed''
      else if \<not> list_all named_attempt (attempts_of doc) then outbox_err ''outbox attempt identity is malformed''
      else if malformed_member doc then outbox_err ''outbox member is malformed''
      else case (sub_dict doc ''publication_identity'', sub_dict doc ''artifact'') of
        (Some identity, Some artifact) \<Rightarrow>
          and_then (with_authz_set env (with_attempts env c
              (dsetdefault ''canonical_artifact'' (JObj (canonical_default env artifact))
                (dsetdefault ''publication_digest'' (JStr (publication_digest env identity artifact)) doc)))) (\<lambda>doc.
          let doc = dsetdefault ''weekly_aggregation'' (weekly_default env doc) doc;
              doc = dsetdefault ''enqueue'' (JObj []) doc
          in Inr (case sub_dict doc ''enqueue'' of None \<Rightarrow> doc | Some e \<Rightarrow> dset ''enqueue'' (JObj (normal_enqueue e)) doc))
      | _ \<Rightarrow> Inr doc)"

section \<open>Validation\<close>

definition valid_leg :: "json \<Rightarrow> bool" where
  "valid_leg v = (case v of
     JObj leg \<Rightarrow> (case dget leg ''result'' of JStr r \<Rightarrow> r \<in> set PROVIDER_RESULTS | _ \<Rightarrow> False)
   | _ \<Rightarrow> False)"

definition validate_document :: "outbox_env \<Rightarrow> dict \<Rightarrow> string \<Rightarrow> unit res" where
  "validate_document env doc expected_id =
     (if dget doc ''schema_version'' \<noteq> JStr OUTBOX_SCHEMA_VERSION then outbox_err ''outbox schema is unsupported''
      else if dget doc ''outbox_id'' \<noteq> JStr expected_id then outbox_err ''outbox identity is invalid''
      else case (sub_dict doc ''publication_identity'', sub_dict doc ''artifact'') of
        (Some _, Some artifact) \<Rightarrow>
          (if providers_of doc = [] then outbox_err ''outbox provider objectives are missing''
           else if \<not> list_all (\<lambda>kv. valid_leg (snd kv)) (providers_of doc) then outbox_err ''outbox provider result is invalid''
           else if \<not> is_sha256 (str_or env (dget artifact ''sha256'')) then outbox_err ''outbox artifact digest is invalid''
           else and_then (safe_value [] (JObj doc)) (\<lambda>_. Inr ()))
      | _ \<Rightarrow> outbox_err ''outbox correlation is incomplete'')"

section \<open>Scheduling of a fresh document\<close>

definition clear_notification :: "dict \<Rightarrow> dict" where
  "clear_notification leg =
     dset ''notification_reservation'' JNull (dset ''schedule_notification_sent_at'' JNull
       (dset ''schedule_notification_token'' JNull leg))"

definition schedule_token :: "outbox_env \<Rightarrow> string \<Rightarrow> string \<Rightarrow> int \<Rightarrow> string" where
  "schedule_token env outbox_id provider due = oe_sha env (outbox_id @ ''|'' @ provider @ ''|'' @ iso_z due)"

definition reconcile_leg :: "outbox_env \<Rightarrow> string \<Rightarrow> int \<Rightarrow> string \<times> json \<Rightarrow> string \<times> json" where
  "reconcile_leg env outbox_id due entry =
     (case entry of
        (provider, JObj leg) \<Rightarrow>
          (if dget leg ''result'' \<noteq> JStr ''pending_provider'' \<or> truthy (dget leg ''active_schedule_token'')
           then entry
           else (provider, JObj (clear_notification
             (dset ''active_schedule_source'' (JStr ''initial_notification'')
               (dset ''active_schedule_token'' (JStr (schedule_token env outbox_id provider due))
                 (dset ''next_reconcile_at'' (JStr (iso_z due)) leg))))))
      | _ \<Rightarrow> entry)"

definition ensure_provider_reconciliation :: "outbox_env \<Rightarrow> int \<Rightarrow> dict \<Rightarrow> dict" where
  "ensure_provider_reconciliation env due doc =
     (case sub_dict doc ''providers'' of
        None \<Rightarrow> doc
      | Some ps \<Rightarrow> dset ''providers'' (JObj (map (reconcile_leg env (str_or env (dget doc ''outbox_id'')) due) ps)) doc)"

end
