(* ===== verification/Outbox.thy ===== *)
theory Outbox
  imports OutboxDocument BlobStore
begin

text \<open>
  \<open>podcaster/distribution_outbox.py\<close>: the operations of \<open>DistributionOutboxRepository\<close> on one durable
  item.  Each is a mutation of the document, run by \<open>_update\<close> inside the backend's compare-and-swap;
  what a mutation fills in the enclosing function's variables is its captured value, which survives
  from one attempt of the backend to the next.
\<close>

section \<open>Updates\<close>

type_synonym 'c mutation = "'c \<Rightarrow> dict \<Rightarrow> ('c \<times> dict) res"

definition outbox_path :: "string \<Rightarrow> string res" where
  "outbox_path outbox_id =
     (if is_sha256 outbox_id then Inr (''distribution-outbox/'' @ outbox_id @ ''.json'')
      else Inl (Raise UnsafeValueErr ''outbox_id is malformed''))"

definition opened :: "outbox_env \<Rightarrow> call \<Rightarrow> string \<Rightarrow> blob option \<Rightarrow> dict res" where
  "opened env c oid raw =
     (case raw of
        None \<Rightarrow> outbox_err ''outbox item does not exist''
      | Some b \<Rightarrow>
          and_then (load_outbox b) (\<lambda>doc.
          and_then (ensure_truth_fields env c doc) (\<lambda>doc.
          and_then (validate_document env doc oid) (\<lambda>_. Inr doc))))"

definition mutated :: "outbox_env \<Rightarrow> call \<Rightarrow> string \<Rightarrow> 'c mutation \<Rightarrow> 'c \<Rightarrow> dict \<Rightarrow> ('c \<times> dict) res" where
  "mutated env c oid m cap doc =
     and_then (m cap doc) (\<lambda>(cap, doc).
     let doc = dset ''updated_at'' (JStr (iso_z (ca_now c 9))) doc
     in and_then (validate_document env doc oid) (\<lambda>_. Inr (cap, doc)))"

definition outbox_apply :: "outbox_env \<Rightarrow> call \<Rightarrow> string \<Rightarrow> 'c mutation \<Rightarrow> ('c \<times> dict) callback" where
  "outbox_apply env c oid m state raw =
     (case and_then (opened env c oid raw) (mutated env c oid m (fst state)) of
        Inl e \<Rightarrow> (state, Inl e)
      | Inr (cap, doc) \<Rightarrow> ((cap, dupdate (snd state) doc), Inr (Doc (JObj doc))))"

definition outbox_update :: "outbox_env \<Rightarrow> call \<Rightarrow> string \<Rightarrow> 'c mutation \<Rightarrow> 'c \<Rightarrow> store \<Rightarrow> ('c \<times> dict) res \<times> store" where
  "outbox_update env c oid m cap st =
     (case outbox_path oid of
        Inl e \<Rightarrow> (Inl e, st)
      | Inr path \<Rightarrow>
          (case local_update (outbox_apply env c oid m) (cap, []) st path of
             (Inl e, _, st') \<Rightarrow> (Inl e, st')
           | (Inr _, state, st') \<Rightarrow> (Inr state, st')))"

definition outbox_update_azure ::
  "(nat \<Rightarrow> attempt) \<Rightarrow> outbox_env \<Rightarrow> call \<Rightarrow> string \<Rightarrow> 'c mutation \<Rightarrow> 'c \<Rightarrow> cell \<Rightarrow> ('c \<times> dict) res \<times> cell" where
  "outbox_update_azure others env c oid m cap s =
     (case outbox_path oid of
        Inl e \<Rightarrow> (Inl e, s)
      | Inr path \<Rightarrow>
          (case azure_update others (outbox_apply env c oid m) (cap, []) s of
             (Inl e, _, s') \<Rightarrow> (Inl e, s')
           | (Inr _, state, s') \<Rightarrow> (Inr state, s')))"

text \<open>\<open>read\<close>.\<close>

definition read_outbox :: "outbox_env \<Rightarrow> call \<Rightarrow> string \<Rightarrow> store \<Rightarrow> dict option res" where
  "read_outbox env c oid st =
     and_then (outbox_path oid) (\<lambda>path.
     case st path of
       None \<Rightarrow> Inr None
     | Some b \<Rightarrow> and_then (opened env c oid (Some b)) (\<lambda>doc. Inr (Some doc)))"

section \<open>Claims\<close>

record outbox_claim =
  ob_id :: string
  ob_owner :: string
  ob_claim_id :: string
  ob_execution :: string
  ob_token :: int
  ob_lease :: string
  ob_read_only :: bool
  ob_attempt :: string

definition claim_is_current :: "dict \<Rightarrow> outbox_claim \<Rightarrow> bool" where
  "claim_is_current doc claim =
     (case sub_dict doc ''claim'' of
        None \<Rightarrow> False
      | Some cur \<Rightarrow>
          dget cur ''owner'' = JStr (ob_owner claim) \<and> dget cur ''claim_id'' = JStr (ob_claim_id claim)
          \<and> dget cur ''execution_id'' = JStr (ob_execution claim)
          \<and> py_eq (dget cur ''fencing_token'') (JInt (ob_token claim))
          \<and> py_eq (dget doc ''fencing_token'') (JInt (ob_token claim)))"

definition may_mutate :: "outbox_env \<Rightarrow> dict \<Rightarrow> outbox_claim \<Rightarrow> dict \<Rightarrow> unit res" where
  "may_mutate env doc claim cur =
     (if ob_read_only claim \<or> truthy (dget cur ''read_only'') then stale ''takeover claim is reconciliation-only''
      else and_then (media_review_allows_distribution env doc) (\<lambda>ok.
        if \<not> ok then Inl (Raise MediaReviewErr ''prepared-media review is missing or stale'')
        else and_then (active_attempt doc) (\<lambda>attempt.
          if dget attempt ''authz_source'' \<noteq> JStr ''initial_enqueue'' \<and> \<not> oe_recovery env doc attempt True
          then stale ''recovery authorization is no longer valid'' else Inr ())))"

definition require_claim :: "outbox_env \<Rightarrow> int \<Rightarrow> dict \<Rightarrow> outbox_claim \<Rightarrow> bool \<Rightarrow> unit res" where
  "require_claim env now doc claim mutation =
     (case sub_dict doc ''claim'' of
        None \<Rightarrow> stale ''outbox item is not claimed''
      | Some cur \<Rightarrow>
          (if \<not> claim_is_current doc claim then stale ''outbox claim is stale''
           else and_then (parse_field env (dget cur ''lease_expires_at'')) (\<lambda>expiry.
             if (case expiry of None \<Rightarrow> True | Some t \<Rightarrow> t \<le> now) then stale ''outbox claim lease has expired''
             else if mutation then may_mutate env doc claim cur else Inr ())))"

definition provider_leg :: "dict \<Rightarrow> string \<Rightarrow> dict res" where
  "provider_leg doc provider =
     (case leg_of doc provider of None \<Rightarrow> outbox_err ''provider is not requested'' | Some leg \<Rightarrow> Inr leg)"

definition with_leg :: "string \<Rightarrow> dict \<Rightarrow> dict \<Rightarrow> dict" where
  "with_leg provider leg doc = dset ''providers'' (JObj (dset provider (JObj leg) (providers_of doc))) doc"

text \<open>A receipt that settles a mutation: accepted by the provider and not ambiguous.\<close>

definition settles :: "dict \<Rightarrow> json \<Rightarrow> bool" where
  "settles intent receipt =
     (case receipt of
        JObj r \<Rightarrow> dget r ''intent_id'' = dget intent ''intent_id'' \<and> dget r ''ambiguous'' \<noteq> JBool True
          \<and> dget r ''transport_class'' = JStr ''accepted''
      | _ \<Rightarrow> False)"

definition settled :: "dict \<Rightarrow> dict \<Rightarrow> bool" where
  "settled leg intent = (case sub_list leg ''receipts'' of None \<Rightarrow> False | Some rs \<Rightarrow> list_ex (settles intent) rs)"

text \<open>An intent was consumed and no receipt settles it: the provider may have been changed.\<close>

definition open_mutation :: "json \<Rightarrow> bool" where
  "open_mutation v =
     (case v of
        JObj leg \<Rightarrow>
          (case sub_dict leg ''intent'' of
             None \<Rightarrow> False
           | Some intent \<Rightarrow> truthy (dget intent ''consumed_at'') \<and> \<not> settled leg intent)
      | _ \<Rightarrow> False)"

definition takeover :: "outbox_env \<Rightarrow> dict \<Rightarrow> dict \<Rightarrow> bool" where
  "takeover env doc attempt =
     (truthy (dget attempt ''terminal_outcome'')
      \<or> dget attempt ''authz_source'' \<noteq> JStr ''initial_enqueue'' \<and> \<not> oe_recovery env doc attempt False
      \<or> list_ex (\<lambda>kv. open_mutation (snd kv)) (providers_of doc))"

definition claim_dict :: "outbox_claim \<Rightarrow> int \<Rightarrow> dict" where
  "claim_dict k now =
     [(''owner'', JStr (ob_owner k)), (''claim_id'', JStr (ob_claim_id k)), (''execution_id'', JStr (ob_execution k)),
      (''fencing_token'', JInt (ob_token k)), (''claimed_at'', JStr (iso_z now)), (''heartbeat_at'', JStr (iso_z now)),
      (''lease_expires_at'', JStr (ob_lease k)), (''read_only'', JBool (ob_read_only k)), (''attempt_id'', JStr (ob_attempt k))]"

definition attempt_name :: "dict \<Rightarrow> string res" where
  "attempt_name attempt =
     (case dget attempt ''attempt_id'' of JStr s \<Rightarrow> Inr s | _ \<Rightarrow> Inl (Raise TypeErr ''attempt_id is not a string''))"

definition claim_mutation ::
  "outbox_env \<Rightarrow> call \<Rightarrow> string \<Rightarrow> string \<Rightarrow> string \<Rightarrow> int \<Rightarrow> outbox_claim option mutation" where
  "claim_mutation env c oid owner execution lease_seconds cap doc =
     and_then (media_review_allows_distribution env doc) (\<lambda>ok.
     if \<not> ok then Inl (Raise MediaReviewErr ''separate prepared-media review required'')
     else let now = ca_now c 1 in
     and_then (ensure_truth_fields env c doc) (\<lambda>doc.
     and_then (case sub_dict doc ''claim'' of None \<Rightarrow> Inr None | Some cur \<Rightarrow> parse_field env (dget cur ''lease_expires_at'')) (\<lambda>expiry.
     if (case expiry of None \<Rightarrow> False | Some t \<Rightarrow> now < t) then stale ''outbox item already has an active claim''
     else and_then (int_or_0 (dget doc ''fencing_token'')) (\<lambda>last_token.
     and_then (active_attempt doc) (\<lambda>attempt.
     let consumed = takeover env doc attempt in
     and_then (require_token ''claim_owner'' owner) (\<lambda>owner.
     and_then (require_token ''execution_id'' execution) (\<lambda>execution.
     and_then (iso_after now (micros lease_seconds)) (\<lambda>lease.
     and_then (attempt_name attempt) (\<lambda>attempt_id.
     and_then (int_or_0 (dget doc ''attempt_count'')) (\<lambda>count.
     let k = \<lparr>ob_id = oid, ob_owner = owner, ob_claim_id = ca_uid c 1, ob_execution = execution, ob_token = last_token + 1,
              ob_lease = lease, ob_read_only = consumed, ob_attempt = attempt_id\<rparr>;
         state = (if consumed then ''reconciling'' else ''claimed'');
         doc = dset ''state'' (JStr state) (dset ''attempt_count'' (JInt (count + 1))
                 (dset ''fencing_token'' (JInt (last_token + 1)) (dset ''claim'' (JObj (claim_dict k now)) doc)))
     in and_then (log_event state (iso_z now)
          [(''owner'', JStr owner), (''claim_id'', JStr (ob_claim_id k)), (''execution_id'', JStr execution),
           (''fencing_token'', JInt (last_token + 1)), (''lease_expires_at'', JStr lease)] doc) (\<lambda>doc.
        Inr (Some k, doc))))))))))))"

definition claim_item ::
  "outbox_env \<Rightarrow> call \<Rightarrow> string \<Rightarrow> string \<Rightarrow> string \<Rightarrow> int \<Rightarrow> store \<Rightarrow> outbox_claim res \<times> store" where
  "claim_item env c oid owner execution lease_seconds st =
     (if lease_seconds \<le> 0 then (Inl (Raise ValueErr ''lease_seconds must be positive''), st)
      else case outbox_update env c oid (claim_mutation env c oid owner execution lease_seconds) None st of
        (Inl e, st') \<Rightarrow> (Inl e, st')
      | (Inr (None, _), st') \<Rightarrow> (Inl (Raise KeyErr ''owner''), st')
      | (Inr (Some k, _), st') \<Rightarrow> (Inr k, st'))"

definition heartbeat_mutation :: "outbox_env \<Rightarrow> call \<Rightarrow> outbox_claim \<Rightarrow> int \<Rightarrow> unit mutation" where
  "heartbeat_mutation env c claim lease_seconds cap doc =
     and_then (require_claim env (ca_now c 1) doc claim False) (\<lambda>_.
     and_then (iso_after (ca_now c 2) (micros lease_seconds)) (\<lambda>lease.
     case sub_dict doc ''claim'' of
       None \<Rightarrow> stale ''outbox item is not claimed''
     | Some cur \<Rightarrow> Inr ((), dset ''claim'' (JObj (dset ''lease_expires_at'' (JStr lease)
         (dset ''heartbeat_at'' (JStr (iso_z (ca_now c 2))) cur))) doc)))"

section \<open>Intents and receipts\<close>

definition RECOVERY_MUTATION_OPERATION_TYPES :: "(string \<times> (string \<times> string) list) list" where
  "RECOVERY_MUTATION_OPERATION_TYPES =
     [(''youtube'', [(''upload'', ''create''), (''draft_upload'', ''create''), (''playlist_insert'', ''playlist_insert''),
        (''public_promotion'', ''publish''), (''recovery_mutation'', ''recovery_fixture''), (''recovery_readback'', ''readback''),
        (''fixture_readback'', ''readback''), (''historical_reconciliation'', ''historical'')]),
      (''spotify'', [(''create'', ''create''), (''create_episode_intent'', ''create''), (''public_promotion'', ''publish''),
        (''recovery_mutation'', ''recovery_fixture''), (''recovery_readback'', ''readback''), (''fixture_readback'', ''readback''),
        (''historical_reconciliation'', ''historical'')]),
      (''spotify_rss'', [(''rss_feed_publish'', ''publish''), (''historical_reconciliation'', ''historical'')])]"

definition operation_type :: "string \<Rightarrow> string \<Rightarrow> string res" where
  "operation_type provider operation =
     (case map_of RECOVERY_MUTATION_OPERATION_TYPES provider of
        None \<Rightarrow> outbox_err ''recovery predecessor operation is invalid''
      | Some ops \<Rightarrow>
          (case map_of ops operation of
             None \<Rightarrow> outbox_err ''recovery predecessor operation is invalid''
           | Some t \<Rightarrow> Inr t))"

text \<open>\<open>d.get(k1, {}).get(k2, {})...\<close>; a member that is not a dictionary raises \<open>AttributeError\<close>.\<close>

fun get_path :: "json \<Rightarrow> string list \<Rightarrow> json res" where
  "get_path v [] = Inr v"
| "get_path v [k] = and_then (attr_dict v) (\<lambda>d. Inr (dget d k))"
| "get_path v (k # ks) = and_then (attr_dict v) (\<lambda>d. get_path (dget_or d k (JObj [])) ks)"

definition authorization_of :: "dict \<Rightarrow> json \<Rightarrow> json option" where
  "authorization_of doc authz_id =
     (case sub_list doc ''recovery_authz'' of
        None \<Rightarrow> None
      | Some xs \<Rightarrow> find (\<lambda>v. case v of JObj a \<Rightarrow> dget a ''authz_id'' = authz_id | _ \<Rightarrow> False) xs)"

text \<open>A recovery attempt may only mutate the item its authorization names.\<close>

definition matches_recovery :: "dict \<Rightarrow> dict \<Rightarrow> string \<Rightarrow> string option \<Rightarrow> unit res" where
  "matches_recovery doc attempt provider expected_item =
     (if dget attempt ''authz_source'' = JStr ''initial_enqueue'' then Inr ()
      else and_then (case authorization_of doc (dget attempt ''authz_id'') of
          None \<Rightarrow> Inr JNull
        | Some a \<Rightarrow> get_path a [''evidence'', ''providers'', provider, ''succeeding_provider'', ''expected_provider_item_id'']) (\<lambda>expected.
        if \<not> truthy expected \<or> json_of_opt_str expected_item \<noteq> expected
        then outbox_err ''recovery intent does not match its authorization'' else Inr ()))"

definition intent_dict ::
  "call \<Rightarrow> outbox_claim \<Rightarrow> string \<Rightarrow> string \<Rightarrow> string option \<Rightarrow> string option \<Rightarrow> dict res" where
  "intent_dict c claim provider operation expected_item fingerprint =
     and_then (require_token ''provider'' provider) (\<lambda>provider_token.
     and_then (require_token ''operation'' operation) (\<lambda>operation_token.
     and_then (operation_type provider operation) (\<lambda>kind.
     and_then (opt_token ''provider_item_id'' expected_item) (\<lambda>item.
     and_then (opt_token ''precondition_fingerprint'' fingerprint) (\<lambda>seal.
     Inr [(''intent_id'', JStr (ca_uid c 1)), (''provider'', JStr provider_token), (''operation'', JStr operation_token),
          (''operation_type'', JStr kind), (''created_at'', JStr (iso_z (ca_now c 2))),
          (''created_fence'', JInt (ob_token claim)), (''consumed_at'', JNull), (''consumed_fence'', JNull),
          (''consumed_owner'', JNull), (''consumed_attempt_id'', JNull), (''expected_provider_item_id'', item),
          (''precondition_fingerprint'', seal)])))))"

definition append_to :: "string \<Rightarrow> json \<Rightarrow> dict \<Rightarrow> dict res" where
  "append_to k v d =
     (case dget_or d k (JList []) of
        JList xs \<Rightarrow> Inr (dset k (JList (xs @ [v])) d)
      | _ \<Rightarrow> Inl (Raise AttributeErr ''append''))"

definition persist_mutation ::
  "outbox_env \<Rightarrow> call \<Rightarrow> outbox_claim \<Rightarrow> string \<Rightarrow> string \<Rightarrow> string option \<Rightarrow> string option \<Rightarrow> dict mutation" where
  "persist_mutation env c claim provider operation expected_item fingerprint cap doc =
     and_then (require_claim env (ca_now c 1) doc claim True) (\<lambda>_.
     and_then (provider_leg doc provider) (\<lambda>leg.
     and_then (active_attempt doc) (\<lambda>attempt.
     and_then (matches_recovery doc attempt provider expected_item) (\<lambda>_.
     let fresh = (\<lambda>leg. and_then (intent_dict c claim provider operation expected_item fingerprint) (\<lambda>intent.
           let doc = dset ''state'' (JStr ''intent_persisted'') (with_leg provider (dset ''intent'' (JObj intent) leg) doc)
           in and_then (log_event ''intent_persisted'' (iso_z (ca_now c 2))
                [(''provider'', JStr provider), (''intent_id'', dget intent ''intent_id'')] doc) (\<lambda>doc.
              Inr (dupdate cap intent, doc))))
     in case sub_dict leg ''intent'' of
          None \<Rightarrow> fresh leg
        | Some existing \<Rightarrow>
            (if dget existing ''operation'' = JStr operation then Inr (dupdate cap existing, doc)
             else if \<not> (truthy (dget existing ''consumed_at'') \<and> settled leg existing)
             then conflict ''provider has an unresolved mutation intent''
             else and_then (append_to ''intent_history'' (JObj existing) leg) fresh)))))"

definition consume_mutation :: "outbox_env \<Rightarrow> call \<Rightarrow> outbox_claim \<Rightarrow> string \<Rightarrow> int \<Rightarrow> int \<Rightarrow> dict mutation" where
  "consume_mutation env c claim provider timeout margin cap doc =
     and_then (require_claim env (ca_now c 1) doc claim True) (\<lambda>_.
     and_then (provider_leg doc provider) (\<lambda>leg.
     case sub_dict leg ''intent'' of
       None \<Rightarrow> outbox_err ''provider mutation intent is missing''
     | Some intent \<Rightarrow>
         (if truthy (dget intent ''consumed_at'') then outbox_err ''provider mutation intent is already consumed''
          else let lease = (case sub_dict doc ''claim'' of None \<Rightarrow> JNull | Some cur \<Rightarrow> dget cur ''lease_expires_at'') in
          and_then (case lease of JStr s \<Rightarrow> parse_time_text env s | _ \<Rightarrow> Inl (Raise AttributeErr ''replace'')) (\<lambda>expiry.
          let remaining = (case expiry of None \<Rightarrow> 0 | Some t \<Rightarrow> total_seconds (t - ca_now c 2))
          in if remaining \<le> of_int (timeout + margin) then Inl (Raise LeaseBudgetErr ''remaining lease does not exceed required'')
          else let intent = dupdate intent
                     [(''consumed_at'', JStr (iso_z (ca_now c 3))), (''consumed_fence'', JInt (ob_token claim)),
                      (''consumed_owner'', JStr (ob_owner claim)), (''consumed_attempt_id'', JStr (ob_attempt claim))];
                   doc = dset ''state'' (JStr ''mutating'') (with_leg provider (dset ''intent'' (JObj intent) leg) doc)
          in and_then (dindex intent ''intent_id'') (\<lambda>intent_id.
             and_then (log_event ''mutating'' (iso_z (ca_now c 3))
               [(''provider'', JStr provider), (''intent_id'', intent_id), (''intent'', JObj intent)] doc) (\<lambda>doc.
             Inr (dupdate cap intent, doc)))))))"

text \<open>The arguments of \<open>record_receipt\<close>.\<close>

record receipt_request =
  rq_transport :: string
  rq_item :: "string option"
  rq_native :: "string option"
  rq_ambiguous :: bool
  rq_code :: "string option"

definition receipt_dict :: "call \<Rightarrow> outbox_claim \<Rightarrow> string \<Rightarrow> dict \<Rightarrow> receipt_request \<Rightarrow> dict res" where
  "receipt_dict c claim provider intent q =
     and_then (dindex intent ''intent_id'') (\<lambda>intent_id.
     and_then (dindex intent ''operation'') (\<lambda>operation.
     and_then (dindex intent ''operation_type'') (\<lambda>kind.
     and_then (dindex intent ''consumed_owner'') (\<lambda>consumed_owner.
     and_then (require_token ''transport_class'' (rq_transport q)) (\<lambda>transport.
     and_then (opt_token ''provider_item_id'' (rq_item q)) (\<lambda>item.
     and_then (opt_token ''native_state'' (rq_native q)) (\<lambda>native.
     and_then (opt_token ''code'' (rq_code q)) (\<lambda>code.
     Inr [(''receipt_id'', JStr (ca_uid c 1)), (''intent_id'', intent_id), (''provider'', JStr provider),
          (''operation'', operation), (''operation_type'', kind), (''attempt_id'', JStr (ob_attempt claim)),
          (''consumed_owner'', consumed_owner), (''at'', JStr (iso_z (ca_now c 2))), (''fencing_token'', JInt (ob_token claim)),
          (''transport_class'', JStr transport), (''provider_item_id'', item), (''native_state'', native),
          (''ambiguous'', JBool (rq_ambiguous q)), (''code'', code)]))))))))"

definition receipt_mutation :: "outbox_env \<Rightarrow> call \<Rightarrow> outbox_claim \<Rightarrow> string \<Rightarrow> receipt_request \<Rightarrow> dict mutation" where
  "receipt_mutation env c claim provider q cap doc =
     and_then (require_claim env (ca_now c 1) doc claim False) (\<lambda>_.
     and_then (provider_leg doc provider) (\<lambda>leg.
     case sub_dict leg ''intent'' of
       None \<Rightarrow> outbox_err ''receipt requires a consumed mutation intent''
     | Some intent \<Rightarrow>
         (if \<not> truthy (dget intent ''consumed_at'') then outbox_err ''receipt requires a consumed mutation intent''
          else and_then (receipt_dict c claim provider intent q) (\<lambda>receipt.
            and_then (dindex leg ''receipts'') (\<lambda>_.
            and_then (append_to ''receipts'' (JObj receipt) leg) (\<lambda>leg.
            let doc = dset ''state'' (JStr ''receipt_persisted'') (with_leg provider leg doc)
            in and_then (log_event ''receipt_persisted'' (iso_z (ca_now c 2))
                 [(''provider'', JStr provider), (''receipt_id'', JStr (ca_uid c 1)), (''receipt'', JObj receipt)] doc) (\<lambda>doc.
               Inr (dupdate cap receipt, doc))))))))"

text \<open>\<open>authorize_dispatch\<close>: what a worker checks of a fresh read right before it calls the provider.\<close>

definition canonical_media_ok :: "outbox_env \<Rightarrow> dict \<Rightarrow> bool res" where
  "canonical_media_ok env doc =
     (let identity = (case sub_dict doc ''publication_identity'' of None \<Rightarrow> [] | Some i \<Rightarrow> i);
          artifact = (case sub_dict doc ''artifact'' of None \<Rightarrow> [] | Some a \<Rightarrow> a);
          canonical = (case sub_dict doc ''canonical_artifact'' of None \<Rightarrow> [] | Some a \<Rightarrow> a)
      in and_then (dindex doc ''publication_digest'') (\<lambda>digest.
         if digest \<noteq> JStr (publication_digest env identity artifact) \<or> dget canonical ''selected'' \<noteq> JBool True then Inr False
         else and_then (dindex artifact ''sha256'') (\<lambda>sha.
           if dget canonical ''artifact_id'' \<noteq> sha then Inr False
           else all_res (\<lambda>f. and_then (dindex artifact f) (\<lambda>v. Inr (dget canonical f = v))) [''path'', ''sha256'', ''media_kind''])))"

definition window_exhausted :: "outbox_env \<Rightarrow> int \<Rightarrow> dict \<Rightarrow> bool res" where
  "window_exhausted env now leg =
     and_then (case dget leg ''verification_horizon_at'' of
         JStr s \<Rightarrow> parse_time_text env s
       | v \<Rightarrow> if truthy v then Inl (Raise AttributeErr ''replace'') else Inr None) (\<lambda>horizon.
     if (case horizon of None \<Rightarrow> True | Some t \<Rightarrow> t \<le> now) then Inr True
     else and_then (int_or_0 (dget leg ''verification_attempt'')) (\<lambda>attempt.
          and_then (int_or_0 (dget leg ''verification_budget'')) (\<lambda>budget. Inr (budget \<le> attempt))))"

definition owns_operation :: "outbox_claim \<Rightarrow> dict \<Rightarrow> string \<Rightarrow> bool" where
  "owns_operation claim leg operation =
     (case sub_dict leg ''intent'' of
        None \<Rightarrow> False
      | Some intent \<Rightarrow>
          dget intent ''operation'' = JStr operation \<and> truthy (dget intent ''consumed_at'')
          \<and> dget intent ''consumed_owner'' = JStr (ob_owner claim)
          \<and> py_eq (dget intent ''consumed_fence'') (JInt (ob_token claim))
          \<and> dget intent ''consumed_attempt_id'' = JStr (ob_attempt claim))"

definition authorize_dispatch ::
  "outbox_env \<Rightarrow> call \<Rightarrow> outbox_claim \<Rightarrow> string \<Rightarrow> string option \<Rightarrow> bool \<Rightarrow> store \<Rightarrow> dict res" where
  "authorize_dispatch env c claim provider operation provider_io st =
     and_then (read_outbox env c (ob_id claim) st) (\<lambda>found.
     case found of
       None \<Rightarrow> outbox_err ''outbox item does not exist''
     | Some doc \<Rightarrow>
         and_then (require_claim env (ca_now c 1) doc claim (operation \<noteq> None)) (\<lambda>_.
         and_then (canonical_media_ok env doc) (\<lambda>same.
         if \<not> same then outbox_err ''canonical media identity changed''
         else and_then (provider_leg doc provider) (\<lambda>leg.
         and_then (provider_approval_is_valid env doc provider) (\<lambda>approved.
         if \<not> approved then Inl (Raise MediaReviewErr ''provider approval is missing or stale'')
         else and_then (if provider_io \<or> operation \<noteq> None then window_exhausted env (ca_now c 2) leg else Inr False) (\<lambda>exhausted.
         if exhausted then outbox_err ''provider verification window is exhausted''
         else case operation of
             None \<Rightarrow> Inr doc
           | Some op \<Rightarrow>
               (if owns_operation claim leg op then Inr doc
                else stale ''provider operation is not owned by this dispatch'')))))))"

section \<open>Verification and the aggregate\<close>

definition member_dict :: "dict \<Rightarrow> string \<Rightarrow> dict" where
  "member_dict d k = (case sub_dict d k of None \<Rightarrow> [] | Some e \<Rightarrow> e)"

definition receipt_items :: "outbox_env \<Rightarrow> dict \<Rightarrow> string list" where
  "receipt_items env leg =
     concat (map (\<lambda>v. case v of
         JObj r \<Rightarrow> if truthy (dget r ''provider_item_id'') then [py_str (oe_repr env) (dget r ''provider_item_id'')] else []
       | _ \<Rightarrow> [])
       (case sub_list leg ''receipts'' of None \<Rightarrow> [] | Some rs \<Rightarrow> rs))"

definition known_item :: "outbox_env \<Rightarrow> dict \<Rightarrow> string \<Rightarrow> string \<Rightarrow> string list" where
  "known_item env leg member field =
     (case sub_dict leg member of
        None \<Rightarrow> []
      | Some d \<Rightarrow> if truthy (dget d field) then [py_str (oe_repr env) (dget d field)] else [])"

definition expected_items :: "outbox_env \<Rightarrow> dict \<Rightarrow> string list" where
  "expected_items env leg =
     remdups (receipt_items env leg @ known_item env leg ''intent'' ''expected_provider_item_id''
        @ known_item env leg ''verification'' ''provider_item_id'')"

definition agrees :: "dict \<Rightarrow> string \<Rightarrow> dict \<Rightarrow> string \<Rightarrow> bool res" where
  "agrees supplied k d j = and_then (dindex d j) (\<lambda>v. Inr (dget supplied k = v))"

definition public_state :: "string option \<Rightarrow> bool" where
  "public_state native = (py_lower (str_or_empty native) \<in> {''public'', ''published''})"

definition readback_source :: "string \<Rightarrow> bool" where
  "readback_source source = (contains ''readback'' source \<or> source \<in> {''youtube_videos_list'', ''provider_readback''})"

definition proof_checks ::
  "outbox_env \<Rightarrow> dict \<Rightarrow> dict \<Rightarrow> string option \<Rightarrow> string option \<Rightarrow> string \<Rightarrow> dict \<Rightarrow> (string \<times> bool) list res" where
  "proof_checks env doc leg item native source supplied =
     (let identity = member_dict doc ''publication_identity''; artifact = member_dict doc ''artifact'';
          items = expected_items env leg; observed = str_or_empty item
      in and_then (agrees supplied ''week'' identity ''week'') (\<lambda>week.
         and_then (all_res (\<lambda>b. b)
           [agrees supplied ''outbox_id'' doc ''outbox_id'', agrees supplied ''accepted_job_id'' identity ''accepted_job_id'',
            agrees supplied ''publish_run_id'' identity ''publish_run_id'',
            agrees supplied ''article_sha256'' identity ''article_sha256'']) (\<lambda>publication.
         and_then (agrees supplied ''manifest_sha256'' identity ''manifest_sha256'') (\<lambda>manifest.
         and_then (agrees supplied ''publication_digest'' doc ''publication_digest'') (\<lambda>digest.
         and_then (agrees supplied ''artifact_sha256'' artifact ''sha256'') (\<lambda>sha.
         Inr [(''week_match'', week), (''publication_identity_match'', publication), (''manifest_match'', manifest),
              (''publication_digest_match'', digest), (''artifact_sha256_match'', sha),
              (''canonical_artifact_selected'',
                 (case sub_dict doc ''canonical_artifact'' of
                    None \<Rightarrow> False
                  | Some canonical \<Rightarrow>
                      dget supplied ''canonical_artifact_id'' = dget canonical ''artifact_id''
                      \<and> dget supplied ''canonical_selection_version'' = dget canonical ''selection_version''
                      \<and> dget supplied ''canonical_artifact_selected'' = JBool True \<and> dget canonical ''selected'' = JBool True)),
              (''provider_identity_match'', dget supplied ''provider_item_id'' = JStr observed
                 \<and> dget supplied ''provider_identity_match'' = JBool True \<and> observed \<noteq> [] \<and> items = [observed]),
              (''terminal_authoritative_readback'', dget supplied ''terminal_authoritative_readback'' = JBool True
                 \<and> nonempty item \<and> public_state native \<and> readback_source source),
              (''duplicate_ambiguity_resolved'', dget supplied ''duplicate_ambiguity_resolved'' = JBool True
                 \<and> length items = 1)]))))))"

definition verification_proof ::
  "outbox_env \<Rightarrow> dict \<Rightarrow> dict \<Rightarrow> string option \<Rightarrow> string option \<Rightarrow> string \<Rightarrow> dict \<Rightarrow> dict res" where
  "verification_proof env doc leg item native source supplied =
     and_then (proof_checks env doc leg item native source supplied) (\<lambda>checks.
     and_then (safe_value ''verification_evidence'' (JObj supplied)) (\<lambda>evidence.
     Inr (map (\<lambda>(k, b). (k, JBool b)) checks
          @ [(''green'', JBool (list_all snd checks)), (''evidence'', evidence)])))"

definition leg_dicts :: "dict \<Rightarrow> dict list" where
  "leg_dicts doc = map (\<lambda>kv. case snd kv of JObj leg \<Rightarrow> leg | _ \<Rightarrow> []) (providers_of doc)"

definition leg_result :: "outbox_env \<Rightarrow> dict \<Rightarrow> string" where
  "leg_result env leg = py_str (oe_repr env) (dget leg ''result'')"

definition proof_green :: "dict \<Rightarrow> bool" where
  "proof_green verification = (dget (member_dict verification ''proof'') ''green'' = JBool True)"

definition verifications :: "dict \<Rightarrow> dict list" where
  "verifications doc = concat (map (\<lambda>leg. case sub_dict leg ''verification'' of None \<Rightarrow> [] | Some v \<Rightarrow> [v]) (leg_dicts doc))"

definition all_public :: "outbox_env \<Rightarrow> dict \<Rightarrow> bool" where
  "all_public env doc =
     (let results = map (leg_result env) (leg_dicts doc)
      in results \<noteq> [] \<and> list_all (\<lambda>r. r = ''externally_verified_public'') results
         \<and> length (verifications doc) = length results \<and> list_all proof_green (verifications doc))"

definition first_of :: "string list \<Rightarrow> string list \<Rightarrow> string \<Rightarrow> string" where
  "first_of priority xs otherwise = (case find (\<lambda>r. r \<in> set xs) priority of None \<Rightarrow> otherwise | Some r \<Rightarrow> r)"

definition aggregate_result :: "outbox_env \<Rightarrow> dict \<Rightarrow> string" where
  "aggregate_result env doc =
     first_of [''identity_conflict'', ''poisoned'', ''publication_unknown'', ''manual_handoff_required'', ''partial'',
        ''failed_terminal'', ''failed_retryable_pre_mutation'', ''pending_provider'']
       (map (leg_result env) (leg_dicts doc)) ''pending_provider''"

definition normalized_result :: "string \<Rightarrow> string" where
  "normalized_result r =
     (case map_of [(''identity_conflict'', ''identity_conflict''), (''publication_unknown'', ''provider_unknown''),
        (''manual_handoff_required'', ''manual_action_required''), (''partial'', ''partial''), (''poisoned'', ''failed_terminal''),
        (''failed_terminal'', ''failed_terminal''), (''failed_retryable_pre_mutation'', ''pending''),
        (''pending_provider'', ''pending'')] r of
        None \<Rightarrow> r
      | Some n \<Rightarrow> n)"

definition mixed_state :: "string list \<Rightarrow> string" where
  "mixed_state candidates =
     (if ''identity_conflict'' \<in> set candidates then ''identity_conflict''
      else if ''provider_unknown'' \<in> set candidates then ''provider_unknown''
      else if ''manual_action_required'' \<in> set candidates then ''manual_action_required''
      else if ''partial'' \<in> set candidates
           \<or> ''externally_verified_public'' \<in> set candidates \<and> list_ex (\<lambda>r. r \<noteq> ''externally_verified_public'') candidates
      then ''partial''
      else if candidates \<noteq> [] \<and> list_all (\<lambda>r. r = ''failed_terminal'') candidates then ''failed_terminal''
      else if ''pending'' \<in> set candidates then ''pending''
      else first_of [''identity_conflict'', ''provider_unknown'', ''manual_action_required'', ''partial'',
             ''missed_not_dispatched'', ''failed_terminal'', ''pending''] candidates ''partial'')"

text \<open>Earlier attempts that did not end in a verified publication.\<close>

definition previous_non_green :: "dict \<Rightarrow> dict list" where
  "previous_non_green doc =
     filter (\<lambda>a. dget a ''terminal_outcome'' \<noteq> JNull \<and> dget a ''terminal_outcome'' \<noteq> JStr ''published_verified'')
       (concat (map (\<lambda>v. case v of JObj a \<Rightarrow> [a] | _ \<Rightarrow> []) (butlast (attempts_of doc))))"

text \<open>\<open>_recovery_authorization_is_valid\<close> beyond the binding: the verified item is the authorized one.\<close>

definition recovery_leg_ok :: "outbox_env \<Rightarrow> dict \<Rightarrow> string \<times> json \<Rightarrow> bool res" where
  "recovery_leg_ok env doc entry =
     (case entry of (provider, authorized) \<Rightarrow>
        (case leg_of doc provider of
           None \<Rightarrow> Inr False
         | Some leg \<Rightarrow>
             (case sub_dict leg ''verification'' of
                None \<Rightarrow> Inr False
              | Some v \<Rightarrow>
                  and_then (get_path authorized [''succeeding_provider'', ''expected_provider_item_id'']) (\<lambda>expected.
                  Inr (dget v ''provider_item_id'' = expected
                    \<and> py_lower (str_or env (dget v ''native_state'')) \<in> {''public'', ''published''}
                    \<and> (contains ''readback'' (str_or env (dget v ''source''))
                       \<or> dget v ''source'' \<in> {JStr ''youtube_videos_list'', JStr ''provider_readback''}))))))"

definition recovery_is_valid :: "outbox_env \<Rightarrow> dict \<Rightarrow> dict \<Rightarrow> bool res" where
  "recovery_is_valid env doc attempt =
     (if \<not> oe_recovery env doc attempt True then Inr False
      else case authorization_of doc (dget attempt ''authz_id'') of
        Some (JObj a) \<Rightarrow>
          and_then (dindex a ''evidence'') (\<lambda>evidence.
          and_then (as_dict evidence) (\<lambda>e.
          and_then (dindex e ''providers'') (\<lambda>ps.
          and_then (attr_dict ps) (\<lambda>legs. all_res (recovery_leg_ok env doc) legs))))
      | _ \<Rightarrow> Inl (Raise RuntimeErr ''StopIteration''))"

text \<open>The weekly state, the winning attempt and the unresolved conditions.\<close>

definition weekly_decision :: "outbox_env \<Rightarrow> dict \<Rightarrow> (string \<times> json \<times> string list) res" where
  "weekly_decision env doc =
     and_then (active_attempt doc) (\<lambda>attempt.
     if all_public env doc
     then let prior = map (\<lambda>a. py_str (oe_repr env) (dget a ''terminal_outcome'')) (previous_non_green doc)
          in if ''identity_conflict'' \<in> set prior then Inr (''identity_conflict'', JNull, [''identity_conflict''])
             else if ''provider_unknown'' \<in> set prior then Inr (''provider_unknown'', JNull, [''provider_unknown''])
             else if prior \<noteq> []
             then and_then (recovery_is_valid env doc attempt) (\<lambda>authorized.
               if authorized
               then and_then (dindex attempt ''attempt_id'') (\<lambda>w. Inr (''published_verified_recovered'', w, []))
               else Inr (''identity_conflict'', JNull, [''recovery_authorization_invalid'']))
             else and_then (dindex attempt ''attempt_id'') (\<lambda>w. Inr (''published_verified'', w, []))
     else let candidates = map (\<lambda>leg. normalized_result (leg_result env leg)) (leg_dicts doc)
          in Inr (mixed_state candidates, JNull, sort (remdups candidates)))"

definition verified_items :: "outbox_env \<Rightarrow> dict \<Rightarrow> json list" where
  "verified_items env doc =
     concat (map (\<lambda>v. if truthy (dget v ''provider_item_id'')
        then [JStr (py_str (oe_repr env) (dget v ''provider_item_id''))] else []) (verifications doc))"

definition attempt_ids :: "outbox_env \<Rightarrow> dict list \<Rightarrow> json" where
  "attempt_ids env attempts = JList (map (\<lambda>a. JStr (py_str (oe_repr env) (dget a ''attempt_id''))) attempts)"

definition attempt_dicts :: "dict \<Rightarrow> dict list" where
  "attempt_dicts doc = concat (map (\<lambda>v. case v of JObj a \<Rightarrow> [a] | _ \<Rightarrow> []) (attempts_of doc))"

definition refresh_aggregate :: "outbox_env \<Rightarrow> call \<Rightarrow> dict \<Rightarrow> dict res" where
  "refresh_aggregate env c doc =
     and_then (ensure_truth_fields env c doc) (\<lambda>doc.
     let public = all_public env doc;
         result = (if public then ''completed_public'' else aggregate_result env doc);
         doc = dset ''aggregate'' (JObj [(''result'', JStr result), (''externally_verified_public'', JBool public),
                 (''terminal_reason'', if public then JNull else JStr result)]) doc
     in and_then (weekly_decision env doc) (\<lambda>(weekly, winner, unresolved).
        and_then (dindex doc ''weekly_aggregation'') (\<lambda>decision.
        and_then (attr_dict decision) (\<lambda>decision.
        let decision = dupdate decision
              [(''evaluated_attempt_ids'', attempt_ids env (attempt_dicts doc)), (''state'', JStr weekly),
               (''winning_attempt_id'', winner), (''proof_references'', JList (verified_items env doc)),
               (''failed_attempt_references'', attempt_ids env (previous_non_green doc)),
               (''unresolved_conditions'', JList (map JStr unresolved)), (''decided_at'', JStr (iso_z (ca_now c 8))),
               (''worker_exit_class'',
                  JStr (if weekly \<in> {''published_verified'', ''published_verified_recovered''} then ''zero'' else ''nonzero''))]
        in Inr (dset ''state'' (JStr (if public then ''completed_public'' else ''verifying''))
             (dset ''weekly_aggregation'' (JObj decision) doc))))))"

text \<open>The arguments of \<open>record_verification\<close>.\<close>

record verification_request =
  vq_result :: string
  vq_source :: string
  vq_item :: "string option"
  vq_native :: "string option"
  vq_next :: "int option"
  vq_exhaustion :: "string option"
  vq_proof :: dict

definition effective_result :: "verification_request \<Rightarrow> dict \<Rightarrow> string" where
  "effective_result q proof =
     (if vq_result q = ''externally_verified_public'' \<and> dget proof ''green'' \<noteq> JBool True then ''identity_conflict''
      else vq_result q)"

definition verification_dict :: "call \<Rightarrow> outbox_claim \<Rightarrow> verification_request \<Rightarrow> dict \<Rightarrow> dict res" where
  "verification_dict c claim q proof =
     and_then (require_token ''verification_source'' (vq_source q)) (\<lambda>source.
     and_then (opt_token ''provider_item_id'' (vq_item q)) (\<lambda>item.
     and_then (opt_token ''native_state'' (vq_native q)) (\<lambda>native.
     and_then (opt_token ''exhaustion_reason'' (vq_exhaustion q)) (\<lambda>exhaustion.
     Inr [(''at'', JStr (iso_z (ca_now c 2))), (''source'', JStr source), (''provider_item_id'', item),
          (''native_state'', native), (''result'', JStr (effective_result q proof)), (''fencing_token'', JInt (ob_token claim)),
          (''exhaustion_reason'', exhaustion), (''proof'', JObj proof)]))))"

definition clear_schedule :: "dict \<Rightarrow> dict" where
  "clear_schedule leg =
     clear_notification (dset ''active_schedule_source'' JNull (dset ''active_schedule_token'' JNull leg))"

text \<open>A readback after the attempt ended is kept beside it.\<close>

definition note_readback :: "string \<Rightarrow> dict \<Rightarrow> dict \<Rightarrow> dict res" where
  "note_readback provider verification doc =
     and_then (active_attempt doc) (\<lambda>attempt.
     if \<not> truthy (dget attempt ''terminal_outcome'') then Inr doc
     else and_then (append_to ''post_terminal_readbacks''
            (JObj [(''provider'', JStr provider), (''verification'', JObj verification)]) attempt) (\<lambda>attempt.
          Inr (with_attempt attempt doc)))"

definition verify_mutation :: "outbox_env \<Rightarrow> call \<Rightarrow> outbox_claim \<Rightarrow> string \<Rightarrow> verification_request \<Rightarrow> dict mutation" where
  "verify_mutation env c claim provider q cap doc =
     and_then (require_claim env (ca_now c 1) doc claim False) (\<lambda>_.
     and_then (provider_leg doc provider) (\<lambda>leg.
     and_then (verification_proof env doc leg (vq_item q) (vq_native q) (vq_source q) (vq_proof q)) (\<lambda>proof.
     and_then (verification_dict c claim q proof) (\<lambda>verification.
     let result = effective_result q proof;
         leg = dset ''result'' (JStr result) (dset ''verification'' (JObj verification) leg) in
     and_then (note_readback provider verification doc) (\<lambda>doc.
     and_then (int_or_0 (dget leg ''verification_attempt'')) (\<lambda>n.
     let leg = dset ''next_reconcile_at'' (case vq_next q of None \<Rightarrow> JNull | Some t \<Rightarrow> JStr (iso_z t))
                 (dset ''verification_attempt'' (JInt (n + 1)) leg);
         leg = (if result \<noteq> ''pending_provider'' then clear_schedule leg else leg) in
     and_then (refresh_aggregate env c (with_leg provider leg doc)) (\<lambda>doc.
     and_then (log_event ''verifying'' (iso_z (ca_now c 2))
       [(''provider'', JStr provider), (''result'', JStr result)] doc) (\<lambda>doc.
     Inr (dupdate cap verification, doc)))))))))"

definition record_verification ::
  "outbox_env \<Rightarrow> call \<Rightarrow> outbox_claim \<Rightarrow> string \<Rightarrow> verification_request \<Rightarrow> store \<Rightarrow> dict res \<times> store" where
  "record_verification env c claim provider q st =
     (if vq_result q \<notin> set PROVIDER_RESULTS then (Inl (Raise ValueErr ''unsupported provider result''), st)
      else case outbox_update env c (ob_id claim) (verify_mutation env c claim provider q) [] st of
        (Inl e, st') \<Rightarrow> (Inl e, st')
      | (Inr (cap, _), st') \<Rightarrow> (Inr cap, st'))"

section \<open>Reconciliation\<close>

definition exhaustion_of :: "outbox_env \<Rightarrow> int \<Rightarrow> int \<Rightarrow> dict \<Rightarrow> string option res" where
  "exhaustion_of env now due leg =
     and_then (parse_field env (dget leg ''verification_horizon_at'')) (\<lambda>horizon.
     and_then (int_or_0 (dget leg ''verification_attempt'')) (\<lambda>attempt.
     and_then (int_or_0 (dget leg ''verification_budget'')) (\<lambda>budget.
     Inr (if budget \<le> attempt then Some ''provider verification budget is exhausted''
          else if (case horizon of None \<Rightarrow> True | Some t \<Rightarrow> t \<le> now \<or> t < due)
          then Some ''provider verification horizon is exhausted'' else None))))"

definition hand_off :: "string \<Rightarrow> dict \<Rightarrow> dict res" where
  "hand_off reason leg =
     (let leg = clear_schedule (dset ''next_reconcile_at'' JNull (dset ''result'' (JStr ''manual_handoff_required'') leg))
      in case dget leg ''verification'' of
           JObj v \<Rightarrow>
             Inr (if v = [] then leg
                  else dset ''verification'' (JObj (dset ''exhaustion_reason'' (JStr reason)
                         (dset ''result'' (JStr ''manual_handoff_required'') v))) leg)
         | v \<Rightarrow> if truthy v then Inl (Raise TypeErr ''item assignment'') else Inr leg)"

definition schedule_mutation :: "outbox_env \<Rightarrow> call \<Rightarrow> outbox_claim \<Rightarrow> string \<Rightarrow> int \<Rightarrow> string option mutation" where
  "schedule_mutation env c claim provider due cap doc =
     and_then (require_claim env (ca_now c 1) doc claim False) (\<lambda>_.
     and_then (provider_leg doc provider) (\<lambda>leg.
     and_then (exhaustion_of env (ca_now c 2) due leg) (\<lambda>exhausted.
     case exhausted of
       Some reason \<Rightarrow>
         and_then (hand_off reason leg) (\<lambda>leg.
         and_then (refresh_aggregate env c (with_leg provider leg doc)) (\<lambda>doc.
         and_then (log_event ''verifying'' (iso_z (ca_now c 3))
           [(''provider'', JStr provider), (''result'', JStr ''manual_handoff_required''), (''exhaustion_reason'', JStr reason)] doc) (\<lambda>doc.
         Inr (None, doc))))
     | None \<Rightarrow>
         (if truthy (dget leg ''active_schedule_token'') \<and> dget leg ''active_schedule_source'' \<noteq> JStr ''initial_notification''
          then Inr (Some (py_str (oe_repr env) (dget leg ''active_schedule_token'')), doc)
          else let token = schedule_token env (ob_id claim) provider due;
                   leg = dset ''result'' (JStr ''pending_provider'')
                     (dset ''schedule_notification_sent_at'' JNull (dset ''schedule_notification_token'' JNull
                       (dset ''active_schedule_source'' (JStr ''worker'')
                         (dset ''active_schedule_token'' (JStr token) (dset ''next_reconcile_at'' (JStr (iso_z due)) leg)))))
          in and_then (refresh_aggregate env c (with_leg provider leg doc)) (\<lambda>doc. Inr (Some token, doc))))))"

definition consume_token_mutation :: "outbox_env \<Rightarrow> call \<Rightarrow> outbox_claim \<Rightarrow> string \<Rightarrow> string \<Rightarrow> unit mutation" where
  "consume_token_mutation env c claim provider token cap doc =
     and_then (require_claim env (ca_now c 1) doc claim False) (\<lambda>_.
     and_then (provider_leg doc provider) (\<lambda>leg.
     if dget leg ''active_schedule_token'' \<noteq> JStr token then stale ''reconciliation token is stale''
     else and_then (parse_field env (dget leg ''next_reconcile_at'')) (\<lambda>due.
       if (case due of None \<Rightarrow> True | Some t \<Rightarrow> ca_now c 2 < t) then outbox_err ''reconciliation token is not due''
       else Inr ((), with_leg provider
         (dset ''last_reconciled_at'' (JStr (iso_z (ca_now c 3)))
           (dset ''schedule_notification_sent_at'' JNull (dset ''schedule_notification_token'' JNull
             (dset ''active_schedule_source'' JNull (dset ''active_schedule_token'' JNull leg))))) doc))))"

section \<open>Release\<close>

definition terminal_map :: "(string \<times> string) list" where
  "terminal_map =
     [(''published_verified'', ''published_verified''), (''published_verified_recovered'', ''published_verified''),
      (''identity_conflict'', ''identity_conflict''), (''provider_unknown'', ''provider_unknown''),
      (''manual_action_required'', ''manual_action_required''), (''partial'', ''partial''), (''failed_terminal'', ''failed_terminal'')]"

text \<open>A completed or manual leg must not end the attempt of a reviewed pending leg.\<close>

definition release_outcome :: "outbox_env \<Rightarrow> dict \<Rightarrow> string \<Rightarrow> string option res" where
  "release_outcome env doc weekly =
     (let outcome = map_of terminal_map weekly
      in if outcome \<in> {Some ''partial'', Some ''manual_action_required''} \<and> dhas doc ''media_review''
         then and_then (media_review_allows_distribution env doc) (\<lambda>ok.
           Inr (if ok \<and> list_ex (\<lambda>leg. dget leg ''result'' = JStr ''pending_provider'') (leg_dicts doc) then None else outcome))
         else Inr outcome)"

definition provider_evidence :: "dict \<Rightarrow> json" where
  "provider_evidence doc =
     JObj (map (\<lambda>(provider, v). (provider, case v of
         JObj leg \<Rightarrow> JObj [(''intent'', dget leg ''intent''), (''receipts'', dget_or leg ''receipts'' (JList [])),
           (''verification'', dget leg ''verification''), (''result'', dget leg ''result'')]
       | _ \<Rightarrow> JNull)) (providers_of doc))"

definition end_attempt :: "outbox_env \<Rightarrow> call \<Rightarrow> string \<Rightarrow> dict \<Rightarrow> dict res" where
  "end_attempt env c outcome doc =
     and_then (active_attempt doc) (\<lambda>attempt.
     if truthy (dget attempt ''terminal_outcome'') then Inr doc
     else log_event ''completed'' (iso_z (ca_now c 2)) [(''outcome'', JStr outcome)]
       (with_attempt (dset ''proof_references'' (JList (verified_items env doc))
          (dset ''provider_evidence'' (provider_evidence doc) (dset ''terminal_outcome'' (JStr outcome) attempt))) doc))"

definition release_mutation :: "outbox_env \<Rightarrow> call \<Rightarrow> outbox_claim \<Rightarrow> unit mutation" where
  "release_mutation env c claim cap doc =
     and_then (require_claim env (ca_now c 1) doc claim False) (\<lambda>_.
     and_then (active_attempt doc) (\<lambda>_.
     and_then (dindex doc ''weekly_aggregation'') (\<lambda>decision.
     and_then (as_dict decision) (\<lambda>decision.
     and_then (dindex decision ''state'') (\<lambda>state.
     let weekly = py_str (oe_repr env) state in
     and_then (release_outcome env doc weekly) (\<lambda>outcome.
     and_then (case outcome of None \<Rightarrow> Inr doc | Some out \<Rightarrow> end_attempt env c out doc) (\<lambda>doc.
     let doc = dset ''claim'' JNull doc in
     if weekly \<in> {''published_verified'', ''published_verified_recovered''}
     then Inr ((), dset ''state'' (JStr ''completed_public'') doc)
     else and_then (dindex doc ''aggregate'') (\<lambda>aggregate.
          and_then (as_dict aggregate) (\<lambda>aggregate.
          and_then (dindex aggregate ''result'') (\<lambda>result.
          Inr ((), dset ''state''
            (if result \<in> {JStr ''publication_unknown'', JStr ''manual_handoff_required'', JStr ''failed_terminal'', JStr ''partial'',
                 JStr ''identity_conflict'', JStr ''poisoned''} then result else JStr ''pending'') doc)))))))))))"

section \<open>The initial notification\<close>

definition enqueue_of :: "dict \<Rightarrow> dict res" where
  "enqueue_of doc = and_then (dindex doc ''enqueue'') as_dict"

definition already_sending :: "dict \<Rightarrow> bool" where
  "already_sending enqueue =
     (truthy (dget enqueue ''notification_sent_at'')
      \<or> (case sub_dict enqueue ''notification_intent'' of
           None \<Rightarrow> False
         | Some intent \<Rightarrow> dget intent ''state'' \<in> {JStr ''sending'', JStr ''ambiguous'', JStr ''accepted''}))"

definition reserve_mutation :: "outbox_env \<Rightarrow> call \<Rightarrow> dict \<Rightarrow> unit res \<Rightarrow> unit mutation" where
  "reserve_mutation env c ownership authorize cap doc =
     and_then authorize (\<lambda>_.
     and_then (enqueue_of doc) (\<lambda>enqueue.
     if dget enqueue ''notification_intent'' \<noteq> JNull \<and> sub_dict enqueue ''notification_intent'' = None
     then conflict ''outbox notification intent is malformed''
     else if already_sending enqueue then Inr ((), doc)
     else and_then (safe_value [] (JObj ownership)) (\<lambda>safe.
       if (case sub_dict enqueue ''notification_intent'' of None \<Rightarrow> False | Some i \<Rightarrow> dget i ''source_ownership'' = safe)
       then Inr ((), doc)
       else let reserved_at = JStr (iso_z (ca_now c 1));
                intent = [(''intent_id'', JStr (ca_uid c 1)), (''source_ownership'', safe), (''reserved_at'', reserved_at),
                  (''state'', JStr ''reserved''), (''send_started_at'', JNull), (''accepted_at'', JNull)]
            in Inr ((), dset ''enqueue'' (JObj (dset ''notification_reserved_at'' reserved_at
                 (dset ''notification_intent'' (JObj intent) enqueue)))
                 (dset ''notification_source_ownership'' safe doc)))))"

text \<open>\<open>authorized\<close> and \<open>accepted\<close> are set on success and never cleared.\<close>

definition authorize_send_mutation :: "outbox_env \<Rightarrow> call \<Rightarrow> json \<Rightarrow> unit res \<Rightarrow> bool mutation" where
  "authorize_send_mutation env c safe authorize authorized doc =
     and_then authorize (\<lambda>_.
     and_then (enqueue_of doc) (\<lambda>enqueue.
     if already_sending enqueue then Inr (authorized, doc)
     else case sub_dict enqueue ''notification_intent'' of
         None \<Rightarrow> stale ''outbox notification intent is missing''
       | Some intent \<Rightarrow>
           (if dget intent ''source_ownership'' \<noteq> safe then stale ''outbox notification intent ownership is stale''
            else Inr (True, dset ''enqueue'' (JObj (dset ''notification_intent''
                   (JObj (dset ''send_started_at'' (JStr (iso_z (ca_now c 1))) (dset ''state'' (JStr ''sending'') intent)))
                   enqueue)) doc))))"

definition accept_send_mutation :: "outbox_env \<Rightarrow> call \<Rightarrow> json \<Rightarrow> unit res \<Rightarrow> bool mutation" where
  "accept_send_mutation env c safe authorize accepted doc =
     and_then authorize (\<lambda>_.
     and_then (enqueue_of doc) (\<lambda>enqueue.
     if truthy (dget enqueue ''notification_sent_at'')
        \<or> (case sub_dict enqueue ''notification_intent'' of None \<Rightarrow> False | Some i \<Rightarrow> dget i ''state'' = JStr ''accepted'')
     then Inr (accepted, doc)
     else case sub_dict enqueue ''notification_intent'' of
         None \<Rightarrow> stale ''outbox notification intent is missing''
       | Some intent \<Rightarrow>
           (if dget intent ''source_ownership'' \<noteq> safe then stale ''outbox notification intent ownership is stale''
            else if dget intent ''state'' \<noteq> JStr ''sending'' then stale ''outbox notification send was not started''
            else let at_time = JStr (iso_z (ca_now c 1))
                 in Inr (True, dset ''enqueue'' (JObj (dset ''notification_sent_at'' at_time
                      (dset ''notification_intent''
                        (JObj (dset ''accepted_at'' at_time (dset ''state'' (JStr ''accepted'') intent))) enqueue))) doc))))"

definition authorize_notification_send ::
  "outbox_env \<Rightarrow> call \<Rightarrow> string \<Rightarrow> dict \<Rightarrow> unit res \<Rightarrow> store \<Rightarrow> bool res \<times> store" where
  "authorize_notification_send env c oid ownership authorize st =
     (case safe_value [] (JObj ownership) of
        Inl e \<Rightarrow> (Inl e, st)
      | Inr safe \<Rightarrow>
          (case outbox_update env c oid (authorize_send_mutation env c safe authorize) False st of
             (Inl e, st') \<Rightarrow> (Inl e, st')
           | (Inr (authorized, _), st') \<Rightarrow> (Inr authorized, st')))"

definition authorize_notification_send_azure ::
  "(nat \<Rightarrow> attempt) \<Rightarrow> outbox_env \<Rightarrow> call \<Rightarrow> string \<Rightarrow> dict \<Rightarrow> unit res \<Rightarrow> cell \<Rightarrow> bool res \<times> cell" where
  "authorize_notification_send_azure others env c oid ownership authorize s =
     (case safe_value [] (JObj ownership) of
        Inl e \<Rightarrow> (Inl e, s)
      | Inr safe \<Rightarrow>
          (case outbox_update_azure others env c oid (authorize_send_mutation env c safe authorize) False s of
             (Inl e, s') \<Rightarrow> (Inl e, s')
           | (Inr (authorized, _), s') \<Rightarrow> (Inr authorized, s')))"

definition mark_sent_mutation :: "call \<Rightarrow> dict option \<Rightarrow> unit res \<Rightarrow> unit mutation" where
  "mark_sent_mutation c ownership authorize cap doc =
     and_then authorize (\<lambda>_.
     if ownership \<noteq> None \<and> dget doc ''notification_source_ownership'' \<noteq> JObj (the ownership)
     then stale ''outbox notification ownership is stale''
     else and_then (enqueue_of doc) (\<lambda>enqueue.
       if ownership \<noteq> None
          \<and> (case sub_dict enqueue ''notification_intent'' of
               None \<Rightarrow> False
             | Some i \<Rightarrow> dget i ''source_ownership'' \<noteq> JNull \<and> dget i ''source_ownership'' \<noteq> JObj (the ownership))
       then stale ''outbox notification intent ownership is stale''
       else Inr ((), dset ''enqueue'' (JObj (dset ''notification_sent_at''
              (if truthy (dget enqueue ''notification_sent_at'') then dget enqueue ''notification_sent_at''
               else JStr (iso_z (ca_now c 1))) enqueue)) doc)))"

section \<open>Reconciliation notifications\<close>

definition reserve_reconciliation_mutation ::
  "outbox_env \<Rightarrow> call \<Rightarrow> string \<Rightarrow> string \<Rightarrow> string \<Rightarrow> int \<Rightarrow> string mutation" where
  "reserve_reconciliation_mutation env c provider token owner lease_seconds cap doc =
     and_then (provider_leg doc provider) (\<lambda>leg.
     if dget leg ''active_schedule_token'' \<noteq> JStr token then stale ''reconciliation token is stale''
     else if dget leg ''schedule_notification_token'' = JStr token then stale ''reconciliation notification is already complete''
     else let now = ca_now c 1 in
     and_then (case sub_dict leg ''notification_reservation'' of
         None \<Rightarrow> Inr False
       | Some r \<Rightarrow> and_then (parse_field env (dget r ''lease_expires_at'')) (\<lambda>expiry.
           Inr (dget r ''token'' = JStr token \<and> (case expiry of None \<Rightarrow> False | Some t \<Rightarrow> now < t)))) (\<lambda>reserved.
     if reserved then stale ''reconciliation notification is already reserved''
     else and_then (int_or_0 (dget leg ''notification_fence'')) (\<lambda>fence.
     and_then (require_token ''notification_owner'' owner) (\<lambda>owner.
     and_then (iso_after now (micros lease_seconds)) (\<lambda>lease.
     Inr (ca_uid c 1, with_leg provider
       (dset ''notification_reservation'' (JObj
          [(''reservation_id'', JStr (ca_uid c 1)), (''owner'', JStr owner), (''token'', JStr token),
           (''fencing_token'', JInt (fence + 1)), (''stage'', JStr ''reserved''), (''reserved_at'', JStr (iso_z now)),
           (''lease_expires_at'', JStr lease)])
         (dset ''notification_fence'' (JInt (fence + 1)) leg)) doc))))))"

text \<open>The reservation a step of the notification protocol must hold.\<close>

definition held_reservation :: "dict \<Rightarrow> string \<Rightarrow> string \<Rightarrow> string \<Rightarrow> dict option" where
  "held_reservation leg token reservation_id stage =
     (case sub_dict leg ''notification_reservation'' of
        None \<Rightarrow> None
      | Some r \<Rightarrow>
          (if dget r ''reservation_id'' = JStr reservation_id \<and> dget r ''token'' = JStr token
              \<and> dget r ''fencing_token'' = dget leg ''notification_fence'' \<and> dget r ''stage'' = JStr stage
           then Some r else None))"

definition live_reservation :: "outbox_env \<Rightarrow> int \<Rightarrow> dict \<Rightarrow> unit res" where
  "live_reservation env now r =
     and_then (parse_field env (dget r ''lease_expires_at'')) (\<lambda>expiry.
     if (case expiry of None \<Rightarrow> True | Some t \<Rightarrow> t \<le> now) then stale ''reconciliation notification reservation expired''
     else Inr ())"

definition begin_enqueue_mutation :: "outbox_env \<Rightarrow> call \<Rightarrow> string \<Rightarrow> string \<Rightarrow> string \<Rightarrow> unit mutation" where
  "begin_enqueue_mutation env c provider token reservation_id cap doc =
     and_then (provider_leg doc provider) (\<lambda>leg.
     case held_reservation leg token reservation_id ''reserved'' of
       None \<Rightarrow> stale ''reconciliation notification reservation is stale''
     | Some r \<Rightarrow>
         and_then (live_reservation env (ca_now c 1) r) (\<lambda>_.
         Inr ((), with_leg provider (dset ''notification_reservation'' (JObj
           (dset ''enqueue_started_at'' (JStr (iso_z (ca_now c 2))) (dset ''stage'' (JStr ''enqueue_started'') r))) leg) doc)))"

definition abort_enqueue_mutation :: "string \<Rightarrow> string \<Rightarrow> string \<Rightarrow> unit mutation" where
  "abort_enqueue_mutation provider token reservation_id cap doc =
     and_then (provider_leg doc provider) (\<lambda>leg.
     case held_reservation leg token reservation_id ''enqueue_started'' of
       None \<Rightarrow> stale ''reconciliation notification reservation is stale''
     | Some r \<Rightarrow> Inr ((), with_leg provider (dset ''notification_reservation'' JNull leg) doc))"

definition complete_notification_mutation :: "outbox_env \<Rightarrow> call \<Rightarrow> string \<Rightarrow> string \<Rightarrow> string \<Rightarrow> unit mutation" where
  "complete_notification_mutation env c provider token reservation_id cap doc =
     and_then (provider_leg doc provider) (\<lambda>leg.
     case held_reservation leg token reservation_id ''enqueue_started'' of
       None \<Rightarrow> stale ''reconciliation notification reservation is stale''
     | Some r \<Rightarrow>
         and_then (live_reservation env (ca_now c 1) r) (\<lambda>_.
         Inr ((), with_leg provider
           (dset ''notification_reservation'' JNull
             (dset ''schedule_notification_sent_at'' (JStr (iso_z (ca_now c 2)))
               (dset ''schedule_notification_token'' (JStr token) leg))) doc)))"

definition mark_notified_mutation :: "call \<Rightarrow> string \<Rightarrow> string \<Rightarrow> unit mutation" where
  "mark_notified_mutation c provider token cap doc =
     and_then (provider_leg doc provider) (\<lambda>leg.
     if dget leg ''active_schedule_token'' \<noteq> JStr token then stale ''reconciliation token is stale''
     else Inr ((), with_leg provider (dset ''schedule_notification_sent_at'' (JStr (iso_z (ca_now c 1)))
            (dset ''schedule_notification_token'' (JStr token) leg)) doc))"

text \<open>The repair pass schedules the legs that nothing schedules yet.\<close>

definition repair_mutation :: "outbox_env \<Rightarrow> call \<Rightarrow> unit mutation" where
  "repair_mutation env c cap doc =
     Inr ((), ensure_provider_reconciliation env (ca_now c 1 + INITIAL_RECONCILIATION_DELAY) doc)"

section \<open>Enqueueing\<close>

text \<open>The arguments of \<open>enqueue\<close>; dictionaries have their keys sorted.\<close>

record artifact_reference =
  ar_path :: string
  ar_sha256 :: string
  ar_size :: int
  ar_media_kind :: string

record enqueue_request =
  nq_identity :: publication_identity
  nq_artifact :: artifact_reference
  nq_objectives :: "(string \<times> string) list"
  nq_source :: string
  nq_version :: string
  nq_ownership :: "dict option"
  nq_authorize :: "unit res"
  nq_approvals :: dict
  nq_contexts :: "(string \<times> dict) list"
  nq_await_review :: bool

definition identity_dict :: "publication_identity \<Rightarrow> dict" where
  "identity_dict i =
     [(''accepted_job_id'', JStr (pi_job_id i)), (''week'', JStr (pi_week i)), (''publish_run_id'', JStr (pi_run_id i)),
      (''article_sha256'', JStr (pi_article i)), (''manifest_sha256'', JStr (pi_manifest i))]"

definition artifact_dict :: "artifact_reference \<Rightarrow> dict" where
  "artifact_dict a =
     [(''path'', JStr (ar_path a)), (''sha256'', JStr (ar_sha256 a)), (''size_bytes'', JInt (ar_size a)),
      (''media_kind'', JStr (ar_media_kind a))]"

definition objectives_dict :: "enqueue_request \<Rightarrow> dict" where
  "objectives_dict q = map (\<lambda>(p, s). (p, JStr s)) (sort_key fst (nq_objectives q))"

definition join_commas :: "string list \<Rightarrow> string" where
  "join_commas xs = concat (case xs of [] \<Rightarrow> [] | y # ys \<Rightarrow> y # map (\<lambda>z. '','' @ z) ys)"

definition outbox_id_for :: "outbox_env \<Rightarrow> enqueue_request \<Rightarrow> string res" where
  "outbox_id_for env q =
     and_then (map_res (\<lambda>(p, s). and_then (require_token ''provider'' p) (\<lambda>p.
         and_then (require_token ''objective'' s) (\<lambda>s. Inr (p @ ''='' @ s)))) (sort_key fst (nq_objectives q))) (\<lambda>parts.
     and_then (require_token ''media_kind'' (ar_media_kind (nq_artifact q))) (\<lambda>kind.
     let i = nq_identity q
     in Inr (oe_sha env (join_bars
          [pi_job_id i, pi_week i, pi_run_id i, pi_article i, pi_manifest i, kind, join_commas parts]))))"

definition context_of :: "enqueue_request \<Rightarrow> string \<Rightarrow> dict" where
  "context_of q provider = (case map_of (nq_contexts q) provider of None \<Rightarrow> [] | Some d \<Rightarrow> d)"

definition incoming_approval :: "outbox_env \<Rightarrow> enqueue_request \<Rightarrow> string \<Rightarrow> dict res" where
  "incoming_approval env q provider =
     provider_approval env (dget (nq_approvals q) provider)
       (publication_digest env (identity_dict (nq_identity q)) (artifact_dict (nq_artifact q))) (pi_manifest (nq_identity q))"

text \<open>An existing item only takes a first approval and a first context.\<close>

definition merge_approval :: "dict \<Rightarrow> dict \<Rightarrow> dict res" where
  "merge_approval approval leg =
     (if dget approval ''approved'' \<noteq> JBool True then Inr leg
      else case sub_dict leg ''approval'' of
        Some current \<Rightarrow>
          (if dget current ''approved'' = JBool True \<and> current \<noteq> approval
           then conflict ''provider approval conflicts with existing record''
           else Inr (dset ''approval'' (JObj approval) leg))
      | None \<Rightarrow> Inr (dset ''approval'' (JObj approval) leg))"

definition merge_context :: "json \<Rightarrow> dict \<Rightarrow> dict res" where
  "merge_context context leg =
     (if \<not> truthy context then Inr leg
      else if dget leg ''context'' \<notin> {JNull, JObj [], context} then conflict ''provider context conflicts with existing record''
      else Inr (dset ''context'' context leg))"

fun merge_legs :: "outbox_env \<Rightarrow> enqueue_request \<Rightarrow> string list \<Rightarrow> dict \<Rightarrow> dict res" where
  "merge_legs env q [] doc = Inr doc"
| "merge_legs env q (p # ps) doc =
     (case leg_of doc p of
        None \<Rightarrow> conflict ''existing provider leg is malformed''
      | Some leg \<Rightarrow>
          and_then (incoming_approval env q p) (\<lambda>approval.
          and_then (merge_approval approval leg) (\<lambda>leg.
          and_then (safe_value [] (JObj (context_of q p))) (\<lambda>context.
          and_then (merge_context context leg) (\<lambda>leg. merge_legs env q ps (with_leg p leg doc))))))"

definition fresh_leg :: "outbox_env \<Rightarrow> call \<Rightarrow> enqueue_request \<Rightarrow> string \<times> string \<Rightarrow> (string \<times> json) res" where
  "fresh_leg env c q entry =
     (case entry of (provider, objective) \<Rightarrow>
        and_then (require_token ''provider'' provider) (\<lambda>key.
        and_then (require_token ''objective'' objective) (\<lambda>objective.
        and_then (incoming_approval env q provider) (\<lambda>approval.
        and_then (safe_value [] (JObj (context_of q provider))) (\<lambda>context.
        and_then (iso_after (ca_now c 2) (micros 86400)) (\<lambda>horizon.
        Inr (key, JObj
          [(''objective'', JStr objective), (''approval'', JObj approval), (''context'', context),
           (''result'', JStr ''pending_provider''), (''intent'', JNull), (''receipts'', JList []), (''verification'', JNull),
           (''next_reconcile_at'', JNull), (''verification_attempt'', JInt 0), (''verification_budget'', JInt 8),
           (''verification_horizon_at'', JStr horizon), (''active_schedule_token'', JNull), (''active_schedule_source'', JNull),
           (''schedule_notification_token'', JNull), (''schedule_notification_sent_at'', JNull),
           (''notification_reservation'', JNull)])))))))"

definition safe_ownership :: "dict option \<Rightarrow> json res" where
  "safe_ownership o1 = (case o1 of None \<Rightarrow> Inr JNull | Some d \<Rightarrow> safe_value [] (JObj d))"

definition fresh_document :: "outbox_env \<Rightarrow> call \<Rightarrow> string \<Rightarrow> enqueue_request \<Rightarrow> dict res" where
  "fresh_document env c oid q =
     and_then (map_res (fresh_leg env c q) (sort_key fst (nq_objectives q))) (\<lambda>legs.
     and_then (require_token ''enqueue_source'' (nq_source q)) (\<lambda>source.
     and_then (require_token ''enqueue_version'' (nq_version q)) (\<lambda>version.
     and_then (safe_ownership (nq_ownership q)) (\<lambda>ownership.
     let at_time = JStr (iso_z (ca_now c 1)) in
     and_then (ensure_truth_fields env c
       [(''schema_version'', JStr OUTBOX_SCHEMA_VERSION), (''outbox_id'', JStr oid),
        (''publication_identity'', JObj (identity_dict (nq_identity q))), (''artifact'', JObj (artifact_dict (nq_artifact q))),
        (''provider_objectives'', JObj (objectives_dict q)),
        (''enqueue'', JObj [(''at'', at_time), (''source'', JStr source), (''version'', JStr version),
           (''notification_intent'', JNull), (''notification_sent_at'', JNull)]),
        (''source_ownership'', ownership), (''state'', JStr ''pending''), (''claim'', JNull), (''fencing_token'', JInt 0),
        (''attempt_count'', JInt 0), (''providers'', JObj (fold (\<lambda>(k, v) acc. dset k v acc) legs [])),
        (''aggregate'', JObj [(''result'', JStr ''pending_provider''), (''externally_verified_public'', JBool False),
           (''terminal_reason'', JNull)]),
        (''created_at'', at_time), (''updated_at'', at_time)]) (\<lambda>doc.
     let doc = (if nq_await_review q
         then dset ''media_review'' (JObj [(''status'', JStr ''pending''), (''audit_trail'', JList [])]) doc else doc)
     in Inr (ensure_provider_reconciliation env (ca_now c 3 + INITIAL_RECONCILIATION_DELAY) doc))))))"

definition merged_document :: "outbox_env \<Rightarrow> call \<Rightarrow> enqueue_request \<Rightarrow> dict \<Rightarrow> dict res" where
  "merged_document env c q doc =
     (if dget doc ''publication_identity'' \<noteq> JObj (identity_dict (nq_identity q))
         \<or> dget doc ''artifact'' \<noteq> JObj (artifact_dict (nq_artifact q))
         \<or> dget doc ''provider_objectives'' \<noteq> JObj (objectives_dict q)
      then conflict ''logical outbox item conflicts with existing record''
      else if nq_await_review q \<and> \<not> dhas doc ''media_review'' then conflict ''existing outbox lacks the private media review gate''
      else and_then (safe_ownership (nq_ownership q)) (\<lambda>ownership.
        let doc = (if nq_ownership q = None then doc else dset ''source_ownership'' ownership doc) in
        and_then (merge_legs env q (map fst (nq_objectives q)) doc) (\<lambda>doc.
        and_then (ensure_truth_fields env c doc) (\<lambda>doc.
        Inr (ensure_provider_reconciliation env (ca_now c 3 + INITIAL_RECONCILIATION_DELAY) doc)))))"

text \<open>The captured state is whether an item was created and the document.\<close>

definition create_apply :: "outbox_env \<Rightarrow> call \<Rightarrow> string \<Rightarrow> enqueue_request \<Rightarrow> (bool \<times> dict) callback" where
  "create_apply env c oid q state raw =
     (case and_then (nq_authorize q) (\<lambda>_.
        and_then (case raw of
            None \<Rightarrow> and_then (fresh_document env c oid q) (\<lambda>doc. Inr (True, doc))
          | Some b \<Rightarrow> and_then (load_outbox b) (\<lambda>doc. and_then (merged_document env c q doc) (\<lambda>doc. Inr (fst state, doc)))) (\<lambda>(created, doc).
        and_then (validate_document env doc oid) (\<lambda>_. Inr (created, doc)))) of
        Inl e \<Rightarrow> (state, Inl e)
      | Inr (created, doc) \<Rightarrow> ((created, dupdate (snd state) doc), Inr (Doc (JObj doc))))"

text \<open>\<open>_register_artifact_reference\<close>: the clean-up of artifacts keeps those an item refers to.\<close>

definition register_apply :: "outbox_env \<Rightarrow> call \<Rightarrow> string \<Rightarrow> string \<Rightarrow> unit callback" where
  "register_apply env c sha oid cap raw =
     (cap, and_then (case raw of
          None \<Rightarrow> Inr []
        | Some Empty \<Rightarrow> Inr []
        | Some b \<Rightarrow> (case loads b of None \<Rightarrow> Inl (Raise ValueErr ''invalid JSON'') | Some v \<Rightarrow> attr_dict v)) (\<lambda>doc.
        if dget doc ''deleting'' = JBool True \<or> dget doc ''deleted'' = JBool True
        then conflict ''artifact is fenced for cleanup''
        else and_then (iter_field doc ''outbox_ids'') (\<lambda>refs.
          let ids = remdups (oid # concat (map (\<lambda>v. case v of JStr s \<Rightarrow> [s] | _ \<Rightarrow> []) refs))
          in Inr (Doc (JObj (dupdate doc
            [(''artifact_sha256'', JStr sha), (''outbox_ids'', JList (map JStr (sort ids))), (''deleting'', JBool False),
             (''deleted'', JBool False), (''cleanup_claim_id'', JNull), (''updated_at'', JStr (iso_z (ca_now c 0)))]))))))"

definition enqueue_item :: "outbox_env \<Rightarrow> call \<Rightarrow> enqueue_request \<Rightarrow> unit res \<Rightarrow> store \<Rightarrow> (dict \<times> bool) res \<times> store" where
  "enqueue_item env c q verified st =
     (case and_then verified (\<lambda>_. outbox_id_for env q) of
        Inl e \<Rightarrow> (Inl e, st)
      | Inr oid \<Rightarrow>
          (case local_update (register_apply env c (ar_sha256 (nq_artifact q)) oid) () st
                  (''distribution-artifact-references/'' @ ar_sha256 (nq_artifact q) @ ''.json'') of
             (Inl e, _, st1) \<Rightarrow> (Inl e, st1)
           | (Inr _, _, st1) \<Rightarrow>
               (case outbox_path oid of
                  Inl e \<Rightarrow> (Inl e, st1)
                | Inr path \<Rightarrow>
                    (case local_update (create_apply env c oid q) (False, []) st1 path of
                       (Inl e, _, st2) \<Rightarrow> (Inl e, st2)
                     | (Inr _, (created, doc), st2) \<Rightarrow> (Inr (doc, created), st2)))))"

end
