(* ===== verification/OutboxSafety.thy ===== *)
theory OutboxSafety
  imports Outbox
begin

text \<open>
  What the operations of the distribution outbox guarantee together: a step relation on the stored
  document with every operation of theory \<open>Outbox\<close> as a step, frames that say what an operation leaves
  alone, and the invariants of claims, intents, receipts and verified results along every interleaving.
\<close>

section \<open>The steps of an item\<close>

datatype outbox_op =
    ClaimOp string string int
  | HeartbeatOp outbox_claim int
  | PersistOp outbox_claim string string "string option" "string option"
  | ConsumeOp outbox_claim string int int
  | ReceiptOp outbox_claim string receipt_request
  | VerifyOp outbox_claim string verification_request
  | ScheduleOp outbox_claim string int
  | ConsumeTokenOp outbox_claim string string
  | ReleaseOp outbox_claim
  | ReserveSendOp dict "unit res"
  | AuthorizeSendOp json "unit res"
  | AcceptSendOp json "unit res"
  | MarkSentOp "dict option" "unit res"
  | ReserveReconciliationOp string string string int
  | BeginEnqueueOp string string string
  | AbortEnqueueOp string string string
  | CompleteNotificationOp string string string
  | MarkNotifiedOp string string
  | RepairOp

definition document_of :: "('c \<times> dict) res \<Rightarrow> dict res" where
  "document_of r = and_then r (\<lambda>(cap, doc). Inr doc)"

lemma document_of_Inr: "document_of r = Inr d \<longleftrightarrow> (\<exists>cap. r = Inr (cap, d))"
  by (cases r) (auto simp: document_of_def)

fun op_mutation :: "outbox_env \<Rightarrow> call \<Rightarrow> string \<Rightarrow> outbox_op \<Rightarrow> dict \<Rightarrow> dict res" where
  "op_mutation env c oid (ClaimOp owner execution lease) d = document_of (claim_mutation env c oid owner execution lease None d)"
| "op_mutation env c oid (HeartbeatOp k lease) d = document_of (heartbeat_mutation env c k lease () d)"
| "op_mutation env c oid (PersistOp k p operation item seal) d = document_of (persist_mutation env c k p operation item seal [] d)"
| "op_mutation env c oid (ConsumeOp k p timeout margin) d = document_of (consume_mutation env c k p timeout margin [] d)"
| "op_mutation env c oid (ReceiptOp k p q) d = document_of (receipt_mutation env c k p q [] d)"
| "op_mutation env c oid (VerifyOp k p q) d = document_of (verify_mutation env c k p q [] d)"
| "op_mutation env c oid (ScheduleOp k p due) d = document_of (schedule_mutation env c k p due None d)"
| "op_mutation env c oid (ConsumeTokenOp k p token) d = document_of (consume_token_mutation env c k p token () d)"
| "op_mutation env c oid (ReleaseOp k) d = document_of (release_mutation env c k () d)"
| "op_mutation env c oid (ReserveSendOp ownership a) d = document_of (reserve_mutation env c ownership a () d)"
| "op_mutation env c oid (AuthorizeSendOp ownership a) d = document_of (authorize_send_mutation env c ownership a False d)"
| "op_mutation env c oid (AcceptSendOp ownership a) d = document_of (accept_send_mutation env c ownership a False d)"
| "op_mutation env c oid (MarkSentOp ownership a) d = document_of (mark_sent_mutation c ownership a () d)"
| "op_mutation env c oid (ReserveReconciliationOp p token owner lease) d =
     document_of (reserve_reconciliation_mutation env c p token owner lease [] d)"
| "op_mutation env c oid (BeginEnqueueOp p token rid) d = document_of (begin_enqueue_mutation env c p token rid () d)"
| "op_mutation env c oid (AbortEnqueueOp p token rid) d = document_of (abort_enqueue_mutation p token rid () d)"
| "op_mutation env c oid (CompleteNotificationOp p token rid) d = document_of (complete_notification_mutation env c p token rid () d)"
| "op_mutation env c oid (MarkNotifiedOp p token) d = document_of (mark_notified_mutation c p token () d)"
| "op_mutation env c oid RepairOp d = document_of (repair_mutation env c () d)"

text \<open>\<open>_update\<close> on a stored document.\<close>

definition run_update :: "outbox_env \<Rightarrow> call \<Rightarrow> string \<Rightarrow> 'c mutation \<Rightarrow> 'c \<Rightarrow> dict \<Rightarrow> ('c \<times> dict) res" where
  "run_update env c oid m cap d = and_then (opened env c oid (Some (Doc (JObj d)))) (mutated env c oid m cap)"

definition apply_op :: "outbox_env \<Rightarrow> call \<Rightarrow> string \<Rightarrow> outbox_op \<Rightarrow> dict \<Rightarrow> dict res" where
  "apply_op env c oid op d =
     document_of (run_update env c oid (\<lambda>_ d. and_then (op_mutation env c oid op d) (\<lambda>d. Inr ((), d))) () d)"

inductive outbox_step :: "outbox_env \<Rightarrow> string \<Rightarrow> dict \<Rightarrow> dict \<Rightarrow> bool" for env :: outbox_env and oid :: string where
  update: "apply_op env c oid op d = Inr d' \<Longrightarrow> outbox_step env oid d d'"
| merge: "snd (create_apply env c oid q (False, []) (Some (Doc (JObj d)))) = Inr (Doc (JObj d')) \<Longrightarrow> outbox_step env oid d d'"

inductive_cases outbox_stepE: "outbox_step env oid d d'"

abbreviation outbox_steps :: "outbox_env \<Rightarrow> string \<Rightarrow> dict \<Rightarrow> dict \<Rightarrow> bool" where
  "outbox_steps env oid \<equiv> (outbox_step env oid)\<^sup>*\<^sup>*"

section \<open>Frames\<close>

definition truth_fields :: "string set" where
  "truth_fields = {''publication_digest'', ''canonical_artifact'', ''attempts'', ''recovery_authz'', ''recovery_authz_set'',
     ''weekly_aggregation'', ''enqueue''}"

lemma dget_dsetdefault: "dget (dsetdefault k v d) j = (if j = k \<and> \<not> dhas d k then v else dget d j)"
  by (auto simp: dsetdefault_def)

lemma with_authz_frame: "with_authz_set env d = Inr d' \<Longrightarrow> k \<notin> truth_fields \<Longrightarrow> dget d' k = dget d k"
  by (auto simp: with_authz_set_def Let_def and_then_Inr_conv truth_fields_def dget_dsetdefault split: if_splits)

lemma attempts_frame: "k \<noteq> ''attempts'' \<Longrightarrow> dget (with_attempts env c d) k = dget d k"
  by (simp add: with_attempts_def)

lemma enqueue_frame:
  "k \<noteq> ''enqueue'' \<Longrightarrow>
     dget (case sub_dict d ''enqueue'' of None \<Rightarrow> d | Some e \<Rightarrow> dset ''enqueue'' (JObj (normal_enqueue e)) d) k = dget d k"
  by (simp split: option.splits)

lemma truth_fields_other:
  "k \<notin> truth_fields \<Longrightarrow> k \<noteq> ''publication_digest'' \<and> k \<noteq> ''canonical_artifact'' \<and> k \<noteq> ''attempts''
     \<and> k \<noteq> ''weekly_aggregation'' \<and> k \<noteq> ''enqueue''"
  by (simp add: truth_fields_def)

lemma ensure_frame:
  assumes "ensure_truth_fields env c d = Inr d'" and k: "k \<notin> truth_fields"
  shows "dget d' k = dget d k"
proof (cases "sub_dict d ''publication_identity'' = None \<or> sub_dict d ''artifact'' = None")
  case True
  then have "d' = d"
    using assms(1) by (auto simp: ensure_truth_fields_def outbox_err_def split: if_splits option.splits)
  then show ?thesis by simp
next
  case False
  then obtain identity artifact where
    sub: "sub_dict d ''publication_identity'' = Some identity" "sub_dict d ''artifact'' = Some artifact" by auto
  define d0 where "d0 = with_attempts env c
    (dsetdefault ''canonical_artifact'' (JObj (canonical_default env artifact))
      (dsetdefault ''publication_digest'' (JStr (publication_digest env identity artifact)) d))"
  obtain d1 where d1: "with_authz_set env d0 = Inr d1"
    and d': "d' = (let d2 = dsetdefault ''enqueue'' (JObj []) (dsetdefault ''weekly_aggregation'' (weekly_default env d1) d1)
      in case sub_dict d2 ''enqueue'' of None \<Rightarrow> d2 | Some e \<Rightarrow> dset ''enqueue'' (JObj (normal_enqueue e)) d2)"
    using assms(1) sub
    by (auto simp: ensure_truth_fields_def outbox_err_def and_then_Inr_conv Let_def simp flip: d0_def split: if_splits)
  note other = truth_fields_other [OF k]
  have "dget d' k = dget d1 k"
    using other by (simp add: d' Let_def enqueue_frame dget_dsetdefault)
  also have "\<dots> = dget d0 k" by (rule with_authz_frame [OF d1 k])
  also have "\<dots> = dget d k" using other by (simp add: d0_def attempts_frame dget_dsetdefault)
  finally show ?thesis .
qed

lemma with_attempt_frame: "k \<noteq> ''attempts'' \<Longrightarrow> dget (with_attempt a d) k = dget d k"
  by (simp add: with_attempt_def split: option.splits)

lemma log_event_frame: "log_event s t x d = Inr d' \<Longrightarrow> k \<noteq> ''attempts'' \<Longrightarrow> dget d' k = dget d k"
  by (auto simp: log_event_def and_then_Inr_conv with_attempt_frame)

lemma note_readback_frame: "note_readback p v d = Inr d' \<Longrightarrow> k \<noteq> ''attempts'' \<Longrightarrow> dget d' k = dget d k"
  by (auto simp: note_readback_def and_then_Inr_conv with_attempt_frame split: if_splits)

lemma with_leg_frame: "k \<noteq> ''providers'' \<Longrightarrow> dget (with_leg p leg d) k = dget d k"
  by (simp add: with_leg_def)

lemma leg_of_cong: "dget d' ''providers'' = dget d ''providers'' \<Longrightarrow> leg_of d' = leg_of d"
  by (simp add: leg_of_def providers_of_def sub_dict_def fun_eq_iff)

lemma leg_of_with_leg: "leg_of (with_leg p leg d) q = (if q = p then Some leg else leg_of d q)"
  by (simp add: leg_of_def providers_of_def sub_dict_def with_leg_def)

lemma refresh_frame:
  assumes "refresh_aggregate env c d = Inr d'" "k \<notin> truth_fields" "k \<noteq> ''aggregate''" "k \<noteq> ''state''"
  shows "dget d' k = dget d k"
  using assms truth_fields_other [OF assms(2)]
  by (auto simp: refresh_aggregate_def and_then_Inr_conv Let_def ensure_frame)

section \<open>Legs only move forward\<close>

definition receipts_of :: "dict \<Rightarrow> json list" where
  "receipts_of leg = (case sub_list leg ''receipts'' of None \<Rightarrow> [] | Some rs \<Rightarrow> rs)"

lemma settled_receipts: "settled leg intent = list_ex (settles intent) (receipts_of leg)"
  by (simp add: settled_def receipts_of_def split: option.splits)

text \<open>A leg that claims a verified publication holds the green proof of it.\<close>

definition PROOF_CHECKS :: "string list" where
  "PROOF_CHECKS = [''week_match'', ''publication_identity_match'', ''manifest_match'', ''publication_digest_match'',
     ''artifact_sha256_match'', ''canonical_artifact_selected'', ''provider_identity_match'',
     ''terminal_authoritative_readback'', ''duplicate_ambiguity_resolved'']"

definition proof_complete :: "dict \<Rightarrow> bool" where
  "proof_complete verification =
     (proof_green verification
      \<and> list_all (\<lambda>check. dget (member_dict verification ''proof'') check = JBool True) PROOF_CHECKS)"

definition proved_leg :: "dict \<Rightarrow> bool" where
  "proved_leg leg =
     (dget leg ''result'' = JStr ''externally_verified_public''
      \<longrightarrow> (case sub_dict leg ''verification'' of None \<Rightarrow> False | Some v \<Rightarrow> proof_complete v))"

definition keeps_intent :: "dict \<Rightarrow> dict \<Rightarrow> bool" where
  "keeps_intent leg leg' =
     (\<forall>i. sub_dict leg ''intent'' = Some i \<and> truthy (dget i ''consumed_at'')
          \<longrightarrow> sub_dict leg' ''intent'' = Some i \<or> settled leg' i)"

text \<open>An operation leaves a result with its verification, or writes one that is proved.\<close>

definition keeps_proof :: "dict \<Rightarrow> dict \<Rightarrow> bool" where
  "keeps_proof leg leg' =
     (proved_leg leg'
      \<or> dget leg' ''result'' = dget leg ''result'' \<and> sub_dict leg' ''verification'' = sub_dict leg ''verification'')"

definition leg_step :: "dict \<Rightarrow> dict \<Rightarrow> bool" where
  "leg_step leg leg' = ((\<exists>extra. receipts_of leg' = receipts_of leg @ extra) \<and> keeps_intent leg leg' \<and> keeps_proof leg leg')"

definition legs_step :: "dict \<Rightarrow> dict \<Rightarrow> bool" where
  "legs_step d d' = (\<forall>p. rel_option leg_step (leg_of d p) (leg_of d' p))"

lemma settled_append: "settled leg i \<Longrightarrow> receipts_of leg' = receipts_of leg @ extra \<Longrightarrow> settled leg' i"
  by (simp add: settled_receipts)

lemma leg_step_refl: "leg_step leg leg"
  by (simp add: leg_step_def keeps_intent_def keeps_proof_def)

lemma keeps_proof_trans: "keeps_proof l1 l2 \<Longrightarrow> keeps_proof l2 l3 \<Longrightarrow> keeps_proof l1 l3"
  by (auto simp: keeps_proof_def proved_leg_def)

lemma leg_step_trans:
  assumes "leg_step l1 l2" "leg_step l2 l3"
  shows "leg_step l1 l3"
proof -
  obtain x y where x: "receipts_of l2 = receipts_of l1 @ x" and y: "receipts_of l3 = receipts_of l2 @ y"
    using assms unfolding leg_step_def by blast
  have "keeps_intent l1 l3"
    using assms settled_append [OF _ y] unfolding leg_step_def keeps_intent_def by blast
  moreover have "keeps_proof l1 l3" using assms keeps_proof_trans unfolding leg_step_def by blast
  ultimately show ?thesis using x y by (simp add: leg_step_def)
qed

lemma legs_step_refl: "legs_step d d"
  by (simp add: legs_step_def option.rel_refl leg_step_refl)

lemma rel_option_trans:
  assumes "\<And>x y z. R x y \<Longrightarrow> R y z \<Longrightarrow> R x z" "rel_option R a b" "rel_option R b c"
  shows "rel_option R a c"
  using assms(2,3) by (cases a; cases b; cases c) (auto intro: assms(1))

lemma legs_step_trans: "legs_step d1 d2 \<Longrightarrow> legs_step d2 d3 \<Longrightarrow> legs_step d1 d3"
  unfolding legs_step_def by (meson leg_step_trans rel_option_trans)

lemma legs_step_same: "dget d' ''providers'' = dget d ''providers'' \<Longrightarrow> legs_step d d'"
  using leg_of_cong [of d' d] by (simp add: legs_step_def option.rel_refl leg_step_refl)

lemma legs_step_with_leg: "leg_of d p = Some leg \<Longrightarrow> leg_step leg leg' \<Longrightarrow> legs_step d (with_leg p leg' d)"
  by (auto simp: legs_step_def leg_of_with_leg option.rel_refl leg_step_refl)

lemma legs_step_alter:
  "leg_of d p = Some leg \<Longrightarrow> leg_step leg leg' \<Longrightarrow> dget d' ''providers'' = dget (with_leg p leg' d) ''providers'' \<Longrightarrow> legs_step d d'"
  by (meson legs_step_trans legs_step_same legs_step_with_leg)

lemma leg_step_frame:
  assumes "dget leg' ''receipts'' = dget leg ''receipts''" "dget leg' ''intent'' = dget leg ''intent''"
    and "dget leg' ''result'' = dget leg ''result''" "dget leg' ''verification'' = dget leg ''verification''"
  shows "leg_step leg leg'"
  using assms by (simp add: leg_step_def keeps_intent_def keeps_proof_def receipts_of_def settled_receipts sub_dict_def sub_list_def)

section \<open>What each operation does to the legs\<close>

definition advances :: "dict \<Rightarrow> dict \<Rightarrow> bool" where
  "advances d d' = (legs_step d d' \<and> dget d' ''fencing_token'' = dget d ''fencing_token'')"

lemma advances_trans: "advances d1 d2 \<Longrightarrow> advances d2 d3 \<Longrightarrow> advances d1 d3"
  unfolding advances_def by (metis legs_step_trans)

lemma advances_same:
  "dget d' ''providers'' = dget d ''providers'' \<Longrightarrow> dget d' ''fencing_token'' = dget d ''fencing_token'' \<Longrightarrow> advances d d'"
  by (simp add: advances_def legs_step_same)

lemma advances_refl: "advances d d"
  by (simp add: advances_same)

lemma advances_alter:
  "leg_of d p = Some leg \<Longrightarrow> leg_step leg leg' \<Longrightarrow> dget d' ''providers'' = dget (with_leg p leg' d) ''providers''
   \<Longrightarrow> dget d' ''fencing_token'' = dget d ''fencing_token'' \<Longrightarrow> advances d d'"
  by (simp add: advances_def legs_step_alter)

lemma provider_leg_Inr: "provider_leg d p = Inr leg \<longleftrightarrow> leg_of d p = Some leg"
  by (simp add: provider_leg_def outbox_err_def split: option.splits)

lemma truth_fields_keep: "''providers'' \<notin> truth_fields" "''fencing_token'' \<notin> truth_fields"
  by (simp_all add: truth_fields_def)

lemma append_to_frame: "append_to k v d = Inr d' \<Longrightarrow> j \<noteq> k \<Longrightarrow> dget d' j = dget d j"
  by (auto simp: append_to_def split: json.splits)

lemma append_to_receipts:
  assumes "append_to ''receipts'' v leg = Inr leg'"
  shows "receipts_of leg' = receipts_of leg @ [v]"
proof -
  obtain xs where xs: "dget_or leg ''receipts'' (JList []) = JList xs" "leg' = dset ''receipts'' (JList (xs @ [v])) leg"
    using assms by (auto simp: append_to_def split: json.splits)
  have "receipts_of leg = xs"
    using xs(1) by (auto simp: receipts_of_def sub_list_def dget_or_def dget_def split: option.splits)
  then show ?thesis by (simp add: receipts_of_def sub_list_def xs(2))
qed

lemmas frames = log_event_frame refresh_frame with_leg_frame note_readback_frame ensure_frame truth_fields_keep

lemma ensure_advances: "ensure_truth_fields env c d = Inr d' \<Longrightarrow> advances d d'"
  by (simp add: advances_same ensure_frame truth_fields_keep)

lemma heartbeat_advances: "heartbeat_mutation env c k lease u d = Inr (u', d') \<Longrightarrow> advances d d'"
  by (rule advances_same) (auto simp: heartbeat_mutation_def and_then_Inr_conv stale_def split: option.splits)

lemma leg_step_new_intent:
  assumes "dget leg' ''receipts'' = dget leg ''receipts''"
    and "dget leg' ''result'' = dget leg ''result''" "dget leg' ''verification'' = dget leg ''verification''"
    and "\<And>i. sub_dict leg ''intent'' = Some i \<Longrightarrow> truthy (dget i ''consumed_at'') \<Longrightarrow> settled leg i"
  shows "leg_step leg leg'"
proof -
  have "receipts_of leg' = receipts_of leg" "keeps_proof leg leg'"
    using assms(1-3) by (simp_all add: receipts_of_def sub_list_def keeps_proof_def sub_dict_def)
  then show ?thesis using assms(4) by (simp add: leg_step_def keeps_intent_def settled_receipts)
qed

lemma persist_advances:
  assumes "persist_mutation env c k p operation item seal cap d = Inr (cap', d')"
  shows "advances d d'"
proof -
  obtain leg where leg: "leg_of d p = Some leg"
    using assms by (auto simp: persist_mutation_def and_then_Inr_conv provider_leg_Inr)
  have fresh: "advances d d'"
    if "and_then (log_event s t e (dset ''state'' v (with_leg p (dset ''intent'' w leg1) d))) (\<lambda>doc. Inr (cap1, doc)) = Inr (cap', d')"
      and "\<And>j. j \<noteq> ''intent_history'' \<Longrightarrow> dget leg1 j = dget leg j"
      and "\<And>i. sub_dict leg ''intent'' = Some i \<Longrightarrow> truthy (dget i ''consumed_at'') \<Longrightarrow> settled leg i"
    for s t e v w leg1 cap1
  proof (rule advances_alter [OF leg])
    show "leg_step leg (dset ''intent'' w leg1)"
      by (rule leg_step_new_intent) (use that in auto)
  qed (use that(1) in \<open>auto simp: and_then_Inr_conv frames\<close>)
  show ?thesis
  proof (cases "sub_dict leg ''intent''")
    case None
    then show ?thesis
      using assms leg
      by (auto simp: persist_mutation_def and_then_Inr_conv provider_leg_Inr Let_def intro!: fresh)
  next
    case (Some i)
    show ?thesis
    proof (cases "dget i ''operation'' = JStr operation")
      case True
      then show ?thesis
        using assms leg Some by (auto simp: persist_mutation_def and_then_Inr_conv provider_leg_Inr Let_def intro: advances_refl)
    next
      case False
      then show ?thesis
        using assms leg Some
        by (auto simp: persist_mutation_def and_then_Inr_conv provider_leg_Inr Let_def conflict_def append_to_frame
            split: if_splits intro!: fresh)
    qed
  qed
qed

lemma consume_advances:
  assumes "consume_mutation env c k p timeout margin cap d = Inr (cap', d')"
  shows "advances d d'"
proof -
  obtain leg i where leg: "leg_of d p = Some leg" and i: "sub_dict leg ''intent'' = Some i" "\<not> truthy (dget i ''consumed_at'')"
    using assms
    by (auto simp: consume_mutation_def and_then_Inr_conv provider_leg_Inr outbox_err_def split: option.splits if_splits)
  have changed: "advances d d'"
    if "log_event s t e (dset ''state'' v (with_leg p (dset ''intent'' w leg) d)) = Inr d'" for s t e v w
  proof (rule advances_alter [OF leg])
    show "leg_step leg (dset ''intent'' w leg)"
      by (rule leg_step_new_intent) (use i in auto)
  qed (use that in \<open>auto simp: frames\<close>)
  show ?thesis
    using assms leg i
    by (auto simp: consume_mutation_def and_then_Inr_conv provider_leg_Inr Let_def intro: changed split: if_splits)
qed

lemma leg_step_more_receipts:
  assumes "receipts_of leg' = receipts_of leg @ rs" "dget leg' ''intent'' = dget leg ''intent''"
    and "dget leg' ''result'' = dget leg ''result''" "dget leg' ''verification'' = dget leg ''verification''"
  shows "leg_step leg leg'"
  using assms by (simp add: leg_step_def keeps_intent_def keeps_proof_def sub_dict_def)

lemma receipt_advances:
  assumes "receipt_mutation env c k p q cap d = Inr (cap', d')"
  shows "advances d d'"
proof -
  obtain leg where leg: "leg_of d p = Some leg"
    using assms by (auto simp: receipt_mutation_def and_then_Inr_conv provider_leg_Inr)
  obtain i where i: "sub_dict leg ''intent'' = Some i"
    using assms leg
    by (cases "sub_dict leg ''intent''") (auto simp: receipt_mutation_def and_then_Inr_conv provider_leg_Inr outbox_err_def)
  have changed: "advances d d'"
    if "append_to ''receipts'' r leg = Inr leg'" "log_event s t e (dset ''state'' v (with_leg p leg' d)) = Inr d'"
    for r leg' s t e v
  proof (rule advances_alter [OF leg])
    show "leg_step leg leg'"
      by (rule leg_step_more_receipts [OF append_to_receipts [OF that(1)]]) (simp_all add: append_to_frame [OF that(1)])
  qed (use that(2) in \<open>auto simp: frames\<close>)
  show ?thesis
    using assms leg i
    by (auto simp: receipt_mutation_def and_then_Inr_conv provider_leg_Inr outbox_err_def Let_def intro: changed split: if_splits)
qed

lemma leg_step_new_result:
  assumes "dget leg' ''receipts'' = dget leg ''receipts''" "dget leg' ''intent'' = dget leg ''intent''" "proved_leg leg'"
  shows "leg_step leg leg'"
proof -
  have "receipts_of leg' = receipts_of leg" using assms(1) by (simp add: receipts_of_def sub_list_def)
  then show ?thesis using assms(2,3) by (simp add: leg_step_def keeps_intent_def keeps_proof_def sub_dict_def settled_receipts)
qed

lemma clear_schedule_frame:
  "j \<notin> {''active_schedule_token'', ''active_schedule_source'', ''schedule_notification_token'',
     ''schedule_notification_sent_at'', ''notification_reservation''} \<Longrightarrow> dget (clear_schedule leg) j = dget leg j"
  by (simp add: clear_schedule_def clear_notification_def)

lemma green_proof_is_complete:
  assumes "verification_proof env doc leg item native source supplied = Inr pr" "dget pr ''green'' = JBool True"
  shows "list_all (\<lambda>check. dget pr check = JBool True) PROOF_CHECKS"
  using assms
  by (auto simp: verification_proof_def proof_checks_def and_then_Inr_conv Let_def PROOF_CHECKS_def)

lemma verification_dict_complete:
  assumes "verification_dict c k q pr = Inr v" "effective_result q pr = ''externally_verified_public''"
    and "verification_proof env doc leg item native source supplied = Inr pr"
  shows "proof_complete v"
proof -
  have green: "dget pr ''green'' = JBool True" using assms(2) by (simp add: effective_result_def split: if_splits)
  have "member_dict v ''proof'' = pr"
    using assms(1) by (auto simp: verification_dict_def and_then_Inr_conv member_dict_def sub_dict_def)
  then show ?thesis using green green_proof_is_complete [OF assms(3)] by (simp add: proof_complete_def proof_green_def)
qed

lemma verify_advances:
  assumes "verify_mutation env c k p q cap d = Inr (cap', d')"
  shows "advances d d'"
proof -
  obtain leg pr v d1 n d2 where leg: "leg_of d p = Some leg" and v: "verification_dict c k q pr = Inr v"
    and pr: "verification_proof env d leg (vq_item q) (vq_native q) (vq_source q) (vq_proof q) = Inr pr"
    and d1: "note_readback p v d = Inr d1"
    and d2: "refresh_aggregate env c (with_leg p
        (let leg1 = dset ''next_reconcile_at'' (case vq_next q of None \<Rightarrow> JNull | Some t \<Rightarrow> JStr (iso_z t))
              (dset ''verification_attempt'' (JInt (n + 1))
                (dset ''result'' (JStr (effective_result q pr)) (dset ''verification'' (JObj v) leg)))
         in if effective_result q pr \<noteq> ''pending_provider'' then clear_schedule leg1 else leg1) d1) = Inr d2"
    and d': "\<exists>s t e. log_event s t e d2 = Inr d'"
    using assms unfolding verify_mutation_def and_then_Inr_conv provider_leg_Inr Let_def by blast
  show ?thesis
  proof (rule advances_trans)
    show "advances d d1" by (rule advances_same) (simp_all add: note_readback_frame [OF d1])
    have leg1: "leg_of d1 p = Some leg"
      using leg leg_of_cong [OF note_readback_frame [OF d1]] by simp
    show "advances d1 d'"
    proof (rule advances_alter [OF leg1])
      let ?leg = "let leg1 = dset ''next_reconcile_at'' (case vq_next q of None \<Rightarrow> JNull | Some t \<Rightarrow> JStr (iso_z t))
              (dset ''verification_attempt'' (JInt (n + 1))
                (dset ''result'' (JStr (effective_result q pr)) (dset ''verification'' (JObj v) leg)))
         in if effective_result q pr \<noteq> ''pending_provider'' then clear_schedule leg1 else leg1"
      show "leg_step leg ?leg"
      proof (rule leg_step_new_result)
        show "proved_leg ?leg"
          using verification_dict_complete [OF v _ pr]
          by (simp add: proved_leg_def Let_def clear_schedule_frame sub_dict_def)
      qed (simp_all add: Let_def clear_schedule_frame)
    qed (use d' refresh_frame [OF d2] in \<open>auto simp: frames\<close>)
  qed
qed

lemma hand_off_step: "hand_off reason leg = Inr leg' \<Longrightarrow> leg_step leg leg'"
  by (rule leg_step_new_result)
    (auto simp: hand_off_def Let_def clear_schedule_frame proved_leg_def split: json.splits if_splits)

lemma leg_alter_frames:
  assumes "leg_of d p = Some leg" "leg_step leg leg'" "refresh_aggregate env c (with_leg p leg' d) = Inr d1"
  shows "advances d d1"
  by (rule advances_alter [OF assms(1,2)]) (simp_all add: refresh_frame [OF assms(3)] frames)

lemma schedule_advances:
  assumes "schedule_mutation env c k p due cap d = Inr (cap', d')"
  shows "advances d d'"
proof -
  obtain leg e where leg: "leg_of d p = Some leg" and e: "exhaustion_of env (ca_now c 2) due leg = Inr e"
    using assms by (auto simp: schedule_mutation_def and_then_Inr_conv provider_leg_Inr)
  have pending: "advances d d'"
    if "refresh_aggregate env c (with_leg p (dset ''result'' (JStr ''pending_provider'') leg') d) = Inr d'"
      and "dget leg' ''receipts'' = dget leg ''receipts''" "dget leg' ''intent'' = dget leg ''intent''" for leg'
    by (rule leg_alter_frames [OF leg leg_step_new_result that(1)]) (simp_all add: that(2,3) proved_leg_def)
  show ?thesis
  proof (cases e)
    case None
    then show ?thesis
      using assms leg e
      by (auto simp: schedule_mutation_def and_then_Inr_conv provider_leg_Inr Let_def
          intro: advances_refl pending split: if_splits)
  next
    case (Some reason)
    have logged: "advances d d'" if "advances d d1" "log_event s t x d1 = Inr d'" for d1 s t x
      by (rule advances_trans [OF that(1) advances_same]) (simp_all add: log_event_frame [OF that(2)])
    show ?thesis
      using assms leg e Some
      by (auto simp: schedule_mutation_def and_then_Inr_conv provider_leg_Inr
          intro: logged leg_alter_frames [OF leg] hand_off_step)
  qed
qed

lemma consume_token_advances:
  assumes "consume_token_mutation env c k p token cap d = Inr (cap', d')"
  shows "advances d d'"
proof -
  obtain leg where leg: "leg_of d p = Some leg"
    using assms by (auto simp: consume_token_mutation_def and_then_Inr_conv provider_leg_Inr)
  show ?thesis
    by (rule advances_alter [OF leg, where leg' = "dset ''last_reconciled_at'' (JStr (iso_z (ca_now c 3)))
           (dset ''schedule_notification_sent_at'' JNull (dset ''schedule_notification_token'' JNull
             (dset ''active_schedule_source'' JNull (dset ''active_schedule_token'' JNull leg))))"])
      (use assms leg in \<open>auto simp: consume_token_mutation_def and_then_Inr_conv provider_leg_Inr stale_def outbox_err_def
          with_leg_frame intro: leg_step_frame split: if_splits\<close>)
qed

lemma end_attempt_frame: "end_attempt env c out d = Inr d' \<Longrightarrow> j \<noteq> ''attempts'' \<Longrightarrow> dget d' j = dget d j"
  by (auto simp: end_attempt_def and_then_Inr_conv with_attempt_frame dest!: log_event_frame split: if_splits)

lemma release_advances:
  assumes "release_mutation env c k cap d = Inr (cap', d')"
  shows "advances d d'"
proof -
  obtain out d1 where d1: "(case out of None \<Rightarrow> Inr d | Some x \<Rightarrow> end_attempt env c x d) = Inr d1"
    and d': "\<exists>v. d' = dset ''state'' v (dset ''claim'' JNull d1)"
    using assms by (auto simp: release_mutation_def and_then_Inr_conv Let_def split: if_splits)
  show ?thesis
    by (rule advances_same) (use d1 d' in \<open>auto simp: end_attempt_frame split: option.splits\<close>)
qed

lemma reserve_send_advances: "reserve_mutation env c o1 a u d = Inr (u', d') \<Longrightarrow> advances d d'"
  by (rule advances_same)
    (auto simp: reserve_mutation_def and_then_Inr_conv Let_def conflict_def split: if_splits)

lemma authorize_send_advances: "authorize_send_mutation env c o2 a b d = Inr (b', d') \<Longrightarrow> advances d d'"
  by (rule advances_same)
    (auto simp: authorize_send_mutation_def and_then_Inr_conv stale_def split: if_splits option.splits)

lemma accept_send_advances:
  assumes "accept_send_mutation env c o2 a b d = Inr (b', d')"
  shows "advances d d'"
proof -
  have "d' = d \<or> (\<exists>e. d' = dset ''enqueue'' e d)"
    using assms unfolding accept_send_mutation_def and_then_Inr_conv stale_def Let_def
    by (elim exE conjE) (simp split: if_split_asm option.split_asm, blast+)
  then show ?thesis by (auto intro: advances_same)
qed

lemma mark_sent_advances: "mark_sent_mutation c o3 a u d = Inr (u', d') \<Longrightarrow> advances d d'"
  by (rule advances_same)
    (auto simp: mark_sent_mutation_def and_then_Inr_conv stale_def split: if_split_asm)

lemma leg_only_advances:
  assumes "leg_of d p = Some leg" "d' = with_leg p leg' d"
    and "dget leg' ''receipts'' = dget leg ''receipts''" "dget leg' ''intent'' = dget leg ''intent''"
    and "dget leg' ''result'' = dget leg ''result''" "dget leg' ''verification'' = dget leg ''verification''"
  shows "advances d d'"
  by (rule advances_alter [OF assms(1) leg_step_frame]) (simp_all add: assms with_leg_frame)

lemma notification_advances:
  "reserve_reconciliation_mutation env c p token owner lease cap d = Inr (cap', d') \<Longrightarrow> advances d d'"
  "begin_enqueue_mutation env c p token rid u d = Inr (u', d') \<Longrightarrow> advances d d'"
  "abort_enqueue_mutation p token rid u d = Inr (u', d') \<Longrightarrow> advances d d'"
  "complete_notification_mutation env c p token rid u d = Inr (u', d') \<Longrightarrow> advances d d'"
  "mark_notified_mutation c p token u d = Inr (u', d') \<Longrightarrow> advances d d'"
  by (auto simp: reserve_reconciliation_mutation_def begin_enqueue_mutation_def abort_enqueue_mutation_def
      complete_notification_mutation_def mark_notified_mutation_def and_then_Inr_conv Let_def provider_leg_Inr stale_def
      intro: leg_only_advances split: if_splits option.splits)

lemma map_of_map_snd:
  "(\<And>k v. f (k, v) = (k, g k v)) \<Longrightarrow> map_of (map f xs) k = map_option (g k) (map_of xs k)"
  by (induction xs) auto

definition scheduled_value :: "outbox_env \<Rightarrow> string \<Rightarrow> int \<Rightarrow> string \<Rightarrow> json \<Rightarrow> json" where
  "scheduled_value env oid due p v = snd (reconcile_leg env oid due (p, v))"

lemma reconcile_leg_value: "reconcile_leg env oid due (p, v) = (p, scheduled_value env oid due p v)"
  by (simp add: scheduled_value_def reconcile_leg_def split: json.split)

lemma scheduled_value_leg:
  "(\<exists>leg'. scheduled_value env oid due p (JObj leg) = JObj leg' \<and> leg_step leg leg')"
proof -
  have "leg_step leg leg" by (rule leg_step_refl)
  moreover have "leg_step leg (clear_notification (dset ''active_schedule_source'' s (dset ''active_schedule_token'' t
      (dset ''next_reconcile_at'' n leg))))" for s t n
    by (rule leg_step_frame) (simp_all add: clear_notification_def)
  ultimately show ?thesis by (simp add: scheduled_value_def reconcile_leg_def)
qed

lemma scheduled_value_other: "\<not> is_dict v \<Longrightarrow> scheduled_value env oid due p v = v"
  by (cases v) (simp_all add: scheduled_value_def reconcile_leg_def)

lemma reconciliation_advances: "advances d (ensure_provider_reconciliation env due d)"
proof (cases "sub_dict d ''providers''")
  case None
  then show ?thesis by (simp add: ensure_provider_reconciliation_def advances_refl)
next
  case (Some ps)
  let ?d = "ensure_provider_reconciliation env due d"
  let ?f = "\<lambda>p. scheduled_value env (str_or env (dget d ''outbox_id'')) due p"
  have ps': "providers_of ?d = map (reconcile_leg env (str_or env (dget d ''outbox_id'')) due) ps" "providers_of d = ps"
    using Some by (simp_all add: ensure_provider_reconciliation_def providers_of_def sub_dict_def)
  have "rel_option leg_step (leg_of d p) (leg_of ?d p)" for p
  proof -
    have look: "map_of (providers_of ?d) p = map_option (?f p) (map_of ps p)"
      unfolding ps' by (rule map_of_map_snd) (rule reconcile_leg_value)
    show ?thesis
    proof (cases "map_of ps p")
      case None
      then show ?thesis using look by (simp add: leg_of_def sub_dict_def dget_def ps'(2))
    next
      case (Some v)
      show ?thesis
      proof (cases "is_dict v")
        case True
        then obtain leg where v: "v = JObj leg" by (cases v) auto
        obtain leg' where "?f p (JObj leg) = JObj leg'" "leg_step leg leg'" using scheduled_value_leg by blast
        then show ?thesis using look Some v by (simp add: leg_of_def sub_dict_def dget_def ps'(2))
      next
        case False
        then show ?thesis
          using look Some scheduled_value_other [OF False]
          by (cases v) (simp_all add: leg_of_def sub_dict_def dget_def ps'(2))
      qed
    qed
  qed
  then show ?thesis
    using Some by (simp add: advances_def legs_step_def ensure_provider_reconciliation_def)
qed

lemma merge_leg_steps:
  assumes "merge_approval a leg = Inr leg1" "merge_context x leg1 = Inr leg2"
  shows "leg_step leg leg2"
proof -
  have "leg_step leg leg1"
    by (rule leg_step_frame)
      (use assms(1) in \<open>auto simp: merge_approval_def conflict_def split: if_splits option.splits\<close>)
  moreover have "leg_step leg1 leg2"
    by (rule leg_step_frame) (use assms(2) in \<open>auto simp: merge_context_def conflict_def split: if_splits\<close>)
  ultimately show ?thesis by (rule leg_step_trans)
qed

lemma merge_legs_advances: "merge_legs env q ps d = Inr d' \<Longrightarrow> advances d d'"
proof (induction ps arbitrary: d)
  case Nil
  then show ?case by (simp add: advances_refl)
next
  case (Cons p ps)
  obtain leg where leg: "leg_of d p = Some leg"
    using Cons.prems by (auto simp: conflict_def split: option.splits)
  obtain a leg1 x leg2 where step: "merge_approval a leg = Inr leg1" "merge_context x leg1 = Inr leg2"
    and rest: "merge_legs env q ps (with_leg p leg2 d) = Inr d'"
    using Cons.prems leg by (auto simp: and_then_Inr_conv)
  have "advances d (with_leg p leg2 d)"
    by (rule advances_alter [OF leg merge_leg_steps [OF step]]) (simp_all add: with_leg_frame)
  then show ?case using advances_trans Cons.IH [OF rest] by blast
qed

lemma merged_advances:
  assumes "merged_document env c q d = Inr d'"
  shows "advances d d'"
proof -
  obtain o1 where o1: "safe_ownership (nq_ownership q) = Inr o1"
    using assms by (auto simp: merged_document_def conflict_def and_then_Inr_conv split: if_split_asm)
  define d0 where "d0 = (if nq_ownership q = None then d else dset ''source_ownership'' o1 d)"
  obtain d1 d2 where d1: "merge_legs env q (map fst (nq_objectives q)) d0 = Inr d1"
    and d2: "ensure_truth_fields env c d1 = Inr d2"
    and d': "d' = ensure_provider_reconciliation env (ca_now c 3 + INITIAL_RECONCILIATION_DELAY) d2"
    using assms o1 by (auto simp: merged_document_def conflict_def and_then_Inr_conv Let_def simp flip: d0_def split: if_split_asm)
  have "advances d d0"
    by (rule advances_same) (simp_all add: d0_def)
  then have "advances d d1" using merge_legs_advances [OF d1] advances_trans by blast
  then have "advances d d2" using ensure_advances [OF d2] advances_trans by blast
  then show ?thesis using reconciliation_advances advances_trans d' by blast
qed

section \<open>Claims\<close>


lemma open_leg_listed:
  assumes "leg_of d p = Some leg" "open_mutation (JObj leg)"
  shows "list_ex (\<lambda>kv. open_mutation (snd kv)) (providers_of d)"
proof -
  have "map_of (providers_of d) p = Some (JObj leg)"
    using assms(1) by (auto simp: leg_of_def sub_dict_def dget_def split: json.splits option.splits)
  then have "(p, JObj leg) \<in> set (providers_of d)" by (rule map_of_SomeD)
  then show ?thesis using assms(2) by (force simp: list_ex_iff)
qed

text \<open>What granting a claim does to the document.\<close>

lemma claim_mutation_effect:
  assumes "claim_mutation env c oid owner execution lease cap d = Inr (cap', d')"
  obtains k n where "cap' = Some k" "int_or_0 (dget d ''fencing_token'') = Inr n" "ob_token k = n + 1" "ob_id k = oid"
    "dget d' ''fencing_token'' = JInt (n + 1)" "legs_step d d'"
    "\<And>p leg. leg_of d p = Some leg \<Longrightarrow> open_mutation (JObj leg) \<Longrightarrow> ob_read_only k"
proof -
  obtain d1 n attempt k s x t e where d1: "ensure_truth_fields env c d = Inr d1"
    and n: "int_or_0 (dget d1 ''fencing_token'') = Inr n"
    and k: "cap' = Some k" "ob_token k = n + 1" "ob_id k = oid" "ob_read_only k = takeover env d1 attempt"
    and d': "log_event s t e (dset ''state'' (JStr s) (dset ''attempt_count'' x
        (dset ''fencing_token'' (JInt (n + 1)) (dset ''claim'' (JObj (claim_dict k (ca_now c 1))) d1)))) = Inr d'"
    using assms by (auto simp: claim_mutation_def and_then_Inr_conv Let_def stale_def split: if_split_asm)
  have legs: "legs_step d d1" using ensure_advances [OF d1] by (simp add: advances_def)
  moreover have "legs_step d1 d'" by (rule legs_step_same) (simp add: log_event_frame [OF d'])
  ultimately have "legs_step d d'" by (rule legs_step_trans)
  moreover have "leg_of d1 = leg_of d" by (rule leg_of_cong) (simp add: frames ensure_frame [OF d1])
  moreover have "dget d1 ''fencing_token'' = dget d ''fencing_token''" by (simp add: frames ensure_frame [OF d1])
  ultimately show thesis
    using that n k open_leg_listed [of d1] by (auto simp: log_event_frame [OF d'] takeover_def)
qed

definition fence_reached :: "int \<Rightarrow> dict \<Rightarrow> bool" where
  "fence_reached n d = (\<exists>m\<ge>n. dget d ''fencing_token'' = JInt m)"

lemma int_or_0_JInt: "int_or_0 (JInt m) = Inr m"
  by (simp add: int_or_0_def)

lemma fence_reached_advances: "advances d d' \<Longrightarrow> fence_reached n d' = fence_reached n d"
  by (simp add: advances_def fence_reached_def)

definition forward :: "dict \<Rightarrow> dict \<Rightarrow> bool" where
  "forward d d' = (legs_step d d' \<and> (\<forall>n. fence_reached n d \<longrightarrow> fence_reached n d'))"

lemma forward_trans: "forward d1 d2 \<Longrightarrow> forward d2 d3 \<Longrightarrow> forward d1 d3"
  unfolding forward_def using legs_step_trans by blast

lemma forward_refl: "forward d d"
  by (simp add: forward_def legs_step_refl)

lemma advances_forward: "advances d d' \<Longrightarrow> forward d d'"
  by (simp add: forward_def fence_reached_advances) (simp add: advances_def)

lemma claim_forward:
  assumes "claim_mutation env c oid owner execution lease cap d = Inr (cap', d')"
  shows "forward d d'"
  using assms
  by (elim claim_mutation_effect) (auto simp: forward_def fence_reached_def int_or_0_JInt)

lemma op_forward: "op_mutation env c oid op d = Inr d' \<Longrightarrow> forward d d'"
  by (cases op)
    (auto simp: document_of_Inr intro: claim_forward
       advances_forward [OF heartbeat_advances] advances_forward [OF persist_advances] advances_forward [OF consume_advances]
       advances_forward [OF receipt_advances] advances_forward [OF verify_advances] advances_forward [OF schedule_advances]
       advances_forward [OF consume_token_advances] advances_forward [OF release_advances]
       advances_forward [OF reserve_send_advances] advances_forward [OF authorize_send_advances]
       advances_forward [OF accept_send_advances] advances_forward [OF mark_sent_advances]
       advances_forward [OF notification_advances(1)] advances_forward [OF notification_advances(2)]
       advances_forward [OF notification_advances(3)] advances_forward [OF notification_advances(4)]
       advances_forward [OF notification_advances(5)]
       simp: repair_mutation_def intro!: advances_forward [OF reconciliation_advances])

lemma opened_forward:
  assumes "opened env c oid (Some (Doc (JObj d))) = Inr d1"
  shows "forward d d1"
  using assms
  by (auto simp: opened_def load_outbox_def outbox_err_def and_then_Inr_conv intro: advances_forward ensure_advances
      split: if_split_asm)

lemma run_update_cases:
  assumes "run_update env c oid m cap d = Inr (cap', d')"
  obtains d1 d2 t where "opened env c oid (Some (Doc (JObj d))) = Inr d1" "m cap d1 = Inr (cap', d2)"
    "d' = dset ''updated_at'' t d2" "forward d d1" "forward d2 d'"
proof -
  obtain d1 d2 where d: "opened env c oid (Some (Doc (JObj d))) = Inr d1" "m cap d1 = Inr (cap', d2)"
    "d' = dset ''updated_at'' (JStr (iso_z (ca_now c 9))) d2"
    using assms by (auto simp: run_update_def mutated_def and_then_Inr_conv Let_def)
  have "forward d2 d'" by (rule advances_forward [OF advances_same]) (simp_all add: d(3))
  then show thesis using that d opened_forward [OF d(1)] by blast
qed

lemma step_forward: "outbox_step env oid d d' \<Longrightarrow> forward d d'"
proof (erule outbox_stepE)
  fix c op
  assume "apply_op env c oid op d = Inr d'"
  then obtain u where "run_update env c oid (\<lambda>_ d. and_then (op_mutation env c oid op d) (\<lambda>d. Inr ((), d))) () d = Inr (u, d')"
    by (auto simp: apply_op_def document_of_Inr)
  then show "forward d d'"
    by (rule run_update_cases) (auto simp: and_then_Inr_conv dest!: op_forward intro: forward_trans)
next
  fix c q
  assume "snd (create_apply env c oid q (False, []) (Some (Doc (JObj d)))) = Inr (Doc (JObj d'))"
  then have "merged_document env c q d = Inr d'"
    by (auto simp: create_apply_def load_outbox_def outbox_err_def and_then_Inr_conv split: sum.splits if_split_asm)
  then show "forward d d'" by (rule advances_forward [OF merged_advances])
qed

lemma steps_forward: "outbox_steps env oid d d' \<Longrightarrow> forward d d'"
  by (induction rule: rtranclp_induct) (auto intro: forward_refl forward_trans step_forward)

section \<open>Fencing\<close>

fun op_claim :: "outbox_op \<Rightarrow> outbox_claim option" where
  "op_claim (HeartbeatOp k lease) = Some k"
| "op_claim (PersistOp k p operation item seal) = Some k"
| "op_claim (ConsumeOp k p timeout margin) = Some k"
| "op_claim (ReceiptOp k p q) = Some k"
| "op_claim (VerifyOp k p q) = Some k"
| "op_claim (ScheduleOp k p due) = Some k"
| "op_claim (ConsumeTokenOp k p token) = Some k"
| "op_claim (ReleaseOp k) = Some k"
| "op_claim _ = None"

lemma claimed_op_requires:
  "op_mutation env c oid op d = Inr d' \<Longrightarrow> op_claim op = Some k \<Longrightarrow> \<exists>now m. require_claim env now d k m = Inr ()"
  by (cases op)
    (auto simp: document_of_Inr and_then_Inr_conv heartbeat_mutation_def persist_mutation_def consume_mutation_def
      receipt_mutation_def verify_mutation_def schedule_mutation_def consume_token_mutation_def release_mutation_def)

lemma require_claim_fence:
  assumes "require_claim env now d k m = Inr ()"
  shows "\<not> fence_reached (ob_token k + 1) d"
proof -
  have "py_eq (dget d ''fencing_token'') (JInt (ob_token k))"
    using assms by (auto simp: require_claim_def claim_is_current_def stale_def split: option.splits if_split_asm)
  then show ?thesis by (auto simp: fence_reached_def)
qed

lemma claimed_fence:
  assumes "run_update env c oid (claim_mutation env c oid owner execution lease) cap d = Inr (Some k, d')"
  shows "fence_reached (ob_token k) d'" "fence_reached m d \<Longrightarrow> m < ob_token k"
proof -
  obtain d1 d2 where d: "claim_mutation env c oid owner execution lease cap d1 = Inr (Some k, d2)" "forward d d1" "forward d2 d'"
    by (rule run_update_cases [OF assms])
  obtain n where n: "int_or_0 (dget d1 ''fencing_token'') = Inr n" "ob_token k = n + 1" "dget d2 ''fencing_token'' = JInt (n + 1)"
    by (rule claim_mutation_effect [OF d(1)]) auto
  have "fence_reached (ob_token k) d2" using n by (simp add: fence_reached_def)
  then show "fence_reached (ob_token k) d'" using d(3) by (simp add: forward_def)
  assume "fence_reached m d"
  then have "fence_reached m d1" using d(2) by (simp add: forward_def)
  then show "m < ob_token k" using n by (auto simp: fence_reached_def int_or_0_JInt)
qed

text \<open>
  Claim C2: claims are fenced.  Along every interleaving of operations of an item, a later claim has a greater
  fencing token, and from then on no operation of the earlier claim changes the document and none of its
  dispatches is authorized.
\<close>

theorem superseded_claim_is_fenced:
  assumes "run_update env c1 oid (claim_mutation env c1 oid owner1 execution1 lease1) None d0 = Inr (Some k1, d1)"
    and "outbox_steps env oid d1 d2"
    and "run_update env c2 oid (claim_mutation env c2 oid owner2 execution2 lease2) None d2 = Inr (Some k2, d3)"
    and "outbox_steps env oid d3 d4"
    and "op_claim op = Some k1"
    and "outbox_path (ob_id k1) = Inr path" "st path = Some (Doc (JObj d4))"
  shows "ob_token k1 < ob_token k2 \<and> (\<forall>d5. apply_op env c oid op d4 \<noteq> Inr d5)
     \<and> (\<forall>r. authorize_dispatch env c k1 p operation io st \<noteq> Inr r)"
proof -
  have "fence_reached (ob_token k1) d2"
    using claimed_fence(1) [OF assms(1)] steps_forward [OF assms(2)] by (simp add: forward_def)
  then have less: "ob_token k1 < ob_token k2" by (rule claimed_fence(2) [OF assms(3)])
  have "fence_reached (ob_token k2) d4"
    using claimed_fence(1) [OF assms(3)] steps_forward [OF assms(4)] by (simp add: forward_def)
  then have "fence_reached (ob_token k1 + 1) d4" using less unfolding fence_reached_def by fastforce
  then have stuck: "\<not> require_claim env now d k1 m = Inr ()" if "forward d4 d" for now d m
    using that require_claim_fence unfolding forward_def by blast
  have "apply_op env c oid op d4 \<noteq> Inr d5" for d5
  proof
    assume "apply_op env c oid op d4 = Inr d5"
    then obtain u where "run_update env c oid (\<lambda>_ d. and_then (op_mutation env c oid op d) (\<lambda>d. Inr ((), d))) () d4 = Inr (u, d5)"
      by (auto simp: apply_op_def document_of_Inr)
    then show False
      by (rule run_update_cases) (use stuck claimed_op_requires [OF _ assms(5)] in \<open>fastforce simp: and_then_Inr_conv\<close>)
  qed
  moreover have "authorize_dispatch env c k1 p operation io st \<noteq> Inr r" for r
    using stuck [OF opened_forward] assms(6,7)
    by (auto simp: authorize_dispatch_def read_outbox_def and_then_Inr_conv outbox_err_def)
  ultimately show ?thesis using less by blast
qed

section \<open>One mutation at a time\<close>

lemma py_eq_JInt: "py_eq v (JInt a) \<Longrightarrow> py_eq v (JInt b) \<Longrightarrow> a = b"
  by (cases v) (auto simp: py_eq_def split: if_splits)

lemma authorized_leg:
  assumes "authorize_dispatch env c k p (Some operation) io st = Inr r"
    and "outbox_path (ob_id k) = Inr path" "st path = Some (Doc (JObj d))"
  obtains leg i where "leg_of d p = Some leg" "owns_operation k leg operation" "sub_dict leg ''intent'' = Some i"
    "truthy (dget i ''consumed_at'')" "dget i ''operation'' = JStr operation"
    "py_eq (dget i ''consumed_fence'') (JInt (ob_token k))"
proof -
  obtain d1 leg where d1: "opened env c (ob_id k) (Some (Doc (JObj d))) = Inr d1" "leg_of d1 p = Some leg"
    and own: "owns_operation k leg operation"
    using assms
    by (auto simp: authorize_dispatch_def read_outbox_def and_then_Inr_conv outbox_err_def stale_def provider_leg_Inr
        split: if_split_asm)
  have "leg_of d1 = leg_of d"
    using d1(1) by (auto simp: opened_def load_outbox_def outbox_err_def and_then_Inr_conv intro!: leg_of_cong
        simp: ensure_frame truth_fields_keep split: if_split_asm)
  then show thesis using that d1(2) own by (auto simp: owns_operation_def split: option.splits)
qed

text \<open>
  Claim C1: at most one provider mutation is in the air.  If a dispatch of a provider is authorized and later,
  after any interleaving of operations of the item by any workers, a dispatch under another claim or of
  another operation is authorized for that provider, then the intent of the first dispatch has been settled in
  between: its leg holds a receipt of it that the provider accepted without ambiguity.
\<close>

theorem dispatches_are_settled_between:
  assumes "outbox_path (ob_id k1) = Inr path" "ob_id k2 = ob_id k1"
    and "st1 path = Some (Doc (JObj d1))" "authorize_dispatch env c1 k1 p (Some operation1) io1 st1 = Inr r1"
    and "outbox_steps env (ob_id k1) d1 d2"
    and "st2 path = Some (Doc (JObj d2))" "authorize_dispatch env c2 k2 p (Some operation2) io2 st2 = Inr r2"
    and "ob_token k1 \<noteq> ob_token k2 \<or> operation1 \<noteq> operation2"
  shows "\<exists>leg1 intent leg2. leg_of d1 p = Some leg1 \<and> owns_operation k1 leg1 operation1
     \<and> sub_dict leg1 ''intent'' = Some intent \<and> leg_of d2 p = Some leg2 \<and> settled leg2 intent"
proof -
  obtain leg1 i1 where leg1: "leg_of d1 p = Some leg1" "owns_operation k1 leg1 operation1" "sub_dict leg1 ''intent'' = Some i1"
    "truthy (dget i1 ''consumed_at'')" "dget i1 ''operation'' = JStr operation1"
    "py_eq (dget i1 ''consumed_fence'') (JInt (ob_token k1))"
    by (rule authorized_leg [OF assms(4,1,3)])
  have path2: "outbox_path (ob_id k2) = Inr path" using assms(1,2) by simp
  obtain leg2 i2 where leg2: "leg_of d2 p = Some leg2" "sub_dict leg2 ''intent'' = Some i2"
    "dget i2 ''operation'' = JStr operation2" "py_eq (dget i2 ''consumed_fence'') (JInt (ob_token k2))"
    by (rule authorized_leg [OF assms(7) path2 assms(6)]) auto
  have "i1 \<noteq> i2" using assms(8) leg1(5,6) leg2(3,4) py_eq_JInt by (metis json.inject(4))
  moreover have "rel_option leg_step (Some leg1) (Some leg2)"
    using steps_forward [OF assms(5)] leg1(1) leg2(1) by (metis forward_def legs_step_def)
  then have "keeps_intent leg1 leg2" by (simp add: leg_step_def)
  ultimately have "settled leg2 i1" using leg1(3,4) leg2(2) by (auto simp: keeps_intent_def)
  then show ?thesis using leg1 leg2(1) by blast
qed

text \<open>
  Claim C37: a takeover only reads.  A claim granted while some provider has a consumed intent that no receipt settles
  is read-only, and no dispatch of an operation is authorized for it, whatever the item has become.
\<close>

theorem takeover_claim_cannot_mutate:
  assumes "run_update env c oid (claim_mutation env c oid owner execution lease) None d = Inr (Some k, d')"
    and "leg_of d q = Some leg" "open_mutation (JObj leg)"
  shows "ob_read_only k \<and> (\<forall>env' c' p operation io st r. authorize_dispatch env' c' k p (Some operation) io st \<noteq> Inr r)"
proof -
  obtain d1 d2 where d1: "opened env c oid (Some (Doc (JObj d))) = Inr d1"
    and d2: "claim_mutation env c oid owner execution lease None d1 = Inr (Some k, d2)"
    by (rule run_update_cases [OF assms(1)])
  have "leg_of d1 = leg_of d"
    using d1 by (auto simp: opened_def load_outbox_def outbox_err_def and_then_Inr_conv intro!: leg_of_cong
        simp: ensure_frame truth_fields_keep split: if_split_asm)
  then have ro: "ob_read_only k"
    using claim_mutation_effect [OF d2] assms(2,3) by (metis option.inject)
  then have "\<not> require_claim env' now x k True = Inr ()" for env' now x
    by (auto simp: require_claim_def may_mutate_def stale_def and_then_Inr_conv split: option.splits if_split_asm)
  then show ?thesis using ro by (auto simp: authorize_dispatch_def and_then_Inr_conv outbox_err_def split: option.splits)
qed

section \<open>The authority to send\<close>

lemma azure_contended:
  assumes "f c (cl_content s) = (c1, Inr b)" "f c1 (cl_content s1) = (c2, Inr b2)" "etag s1 \<noteq> etag s"
  shows "azure_update (contended s1) f c s = (Inr (), c2, write_cell b2 s1)"
  using assms by (simp add: azure_update_def eval_nat_numeral contended_def Let_def)

definition send_claimed :: "dict \<Rightarrow> bool" where
  "send_claimed enqueue =
     (case sub_dict enqueue ''notification_intent'' of
        None \<Rightarrow> False
      | Some intent \<Rightarrow> dget intent ''state'' \<in> {JStr ''sending'', JStr ''ambiguous'', JStr ''accepted''})"

lemma send_claimed_normal: "send_claimed e \<Longrightarrow> send_claimed (normal_enqueue e)"
  by (cases "sub_dict e ''notification_intent''")
    (auto simp: send_claimed_def normal_enqueue_def sub_dict_def dsetdefault_def dhas_def dget_def split: option.splits)

lemma ensure_enqueue:
  assumes "ensure_truth_fields env c d = Inr d'" "dget d ''enqueue'' = JObj e"
  shows "dget d' ''enqueue'' = JObj e \<or> dget d' ''enqueue'' = JObj (normal_enqueue e)"
proof (cases "sub_dict d ''publication_identity'' = None \<or> sub_dict d ''artifact'' = None")
  case True
  then have "d' = d"
    using assms(1) by (auto simp: ensure_truth_fields_def outbox_err_def split: if_splits option.splits)
  then show ?thesis using assms(2) by simp
next
  case False
  then obtain identity artifact where
    sub: "sub_dict d ''publication_identity'' = Some identity" "sub_dict d ''artifact'' = Some artifact" by auto
  define d0 where "d0 = with_attempts env c
    (dsetdefault ''canonical_artifact'' (JObj (canonical_default env artifact))
      (dsetdefault ''publication_digest'' (JStr (publication_digest env identity artifact)) d))"
  obtain d1 where d1: "with_authz_set env d0 = Inr d1"
    and d': "d' = (let d2 = dsetdefault ''enqueue'' (JObj []) (dsetdefault ''weekly_aggregation'' (weekly_default env d1) d1)
      in case sub_dict d2 ''enqueue'' of None \<Rightarrow> d2 | Some e \<Rightarrow> dset ''enqueue'' (JObj (normal_enqueue e)) d2)"
    using assms(1) sub
    by (auto simp: ensure_truth_fields_def outbox_err_def and_then_Inr_conv Let_def simp flip: d0_def split: if_splits)
  have "dget d0 ''enqueue'' = JObj e" using assms(2) by (simp add: d0_def attempts_frame dget_dsetdefault)
  moreover have "dget d1 ''enqueue'' = dget d0 ''enqueue''"
    using d1 by (auto simp: with_authz_set_def Let_def and_then_Inr_conv dget_dsetdefault split: if_splits)
  ultimately have e: "dget d1 ''enqueue'' = JObj e" by simp
  then have "dhas d1 ''enqueue''" by (auto simp: dhas_def dget_def split: option.splits)
  then have "sub_dict (dsetdefault ''enqueue'' (JObj []) (dsetdefault ''weekly_aggregation'' w d1)) ''enqueue'' = Some e" for w
    using e by (simp add: sub_dict_def dget_dsetdefault) (simp add: dsetdefault_def)
  then show ?thesis by (simp add: d' Let_def)
qed

text \<open>Alone, the authority is granted by writing that the send is under way.\<close>

lemma authorized_alone:
  assumes "authorize_notification_send_azure idle env c oid ownership authorize s = (Inr True, s1)"
  shows "\<exists>safe path d e. safe_value [] (JObj ownership) = Inr safe \<and> outbox_path oid = Inr path \<and> authorize = Inr ()
     \<and> outbox_apply env c oid (authorize_send_mutation env c safe authorize) (False, []) (cl_content s)
         = ((True, dupdate [] d), Inr (Doc (JObj d))) \<and> s1 = write_cell (Doc (JObj d)) s
     \<and> dget d ''enqueue'' = JObj e \<and> send_claimed e"
proof -
  obtain safe where safe: "safe_value [] (JObj ownership) = Inr safe"
    using assms by (auto simp: authorize_notification_send_azure_def split: sum.splits)
  obtain path where path: "outbox_path oid = Inr path"
    using assms safe by (auto simp: authorize_notification_send_azure_def outbox_update_azure_def split: sum.splits)
  let ?f = "outbox_apply env c oid (authorize_send_mutation env c safe authorize)"
  have run: "azure_update idle ?f (False, []) s = (case ?f (False, []) (cl_content s) of (c', Inl e) \<Rightarrow> (Inl e, c', s)
      | (c', Inr b) \<Rightarrow> (Inr (), c', write_cell b s))"
    by (rule azure_update_alone) (simp add: idle_def)
  obtain d0 d1 where d0: "opened env c oid (cl_content s) = Inr d0"
    and d1: "mutated env c oid (authorize_send_mutation env c safe authorize) False d0 = Inr (True, d1)"
    and s1: "s1 = write_cell (Doc (JObj d1)) s"
    using assms safe path
    by (auto simp: authorize_notification_send_azure_def outbox_update_azure_def run outbox_apply_def and_then_Inr_conv
        split: sum.splits prod.splits)
  obtain d2 where d2: "authorize_send_mutation env c safe authorize False d0 = Inr (True, d2)"
    and d1': "d1 = dset ''updated_at'' (JStr (iso_z (ca_now c 9))) d2"
    using d1 by (auto simp: mutated_def and_then_Inr_conv Let_def)
  have "\<exists>e. dget d2 ''enqueue'' = JObj e \<and> send_claimed e"
    using d2
    by (auto simp: authorize_send_mutation_def and_then_Inr_conv stale_def send_claimed_def sub_dict_def
        split: if_split_asm option.split_asm)
  moreover have "authorize = Inr ()" using d2 by (auto simp: authorize_send_mutation_def and_then_Inr_conv)
  ultimately show ?thesis using safe path d0 d1 s1 by (auto simp: outbox_apply_def d1')
qed

text \<open>
  Claim C38: the sole authority to send is granted twice.  Two workers ask for it on the Azure backend with the item
  reserved, and each alone would get it.  When one of them writes between the other's read and conditional
  write, the loser's second attempt finds the send under way and changes nothing, but \<open>authorized\<close> still
  holds \<open>True\<close> from its first attempt: both calls return \<open>True\<close>, and both workers send.
\<close>

theorem contended_send_authorized_twice:
  assumes "authorize_notification_send_azure idle env c oid ownership authorize s = (Inr True, s0)"
    and "authorize_notification_send_azure idle env c' oid ownership' authorize' s = (Inr True, s1)"
    and "cl_content s1 = Some (Doc (JObj d1))" "run_update env c oid (\<lambda>u d. Inr (u, d)) () d1 = Inr ((), d2)"
  shows "\<exists>s2. authorize_notification_send_azure (contended s1) env c oid ownership authorize s = (Inr True, s2)"
proof -
  obtain safe path d where alone: "safe_value [] (JObj ownership) = Inr safe" "outbox_path oid = Inr path" "authorize = Inr ()"
    "outbox_apply env c oid (authorize_send_mutation env c safe authorize) (False, []) (cl_content s)
         = ((True, dupdate [] d), Inr (Doc (JObj d)))"
    using authorized_alone [OF assms(1)] by blast
  obtain d' e where rival: "s1 = write_cell (Doc (JObj d')) s" "dget d' ''enqueue'' = JObj e" "send_claimed e"
    using authorized_alone [OF assms(2)] by blast
  have d': "d' = d1" using assms(3) rival(1) by (simp add: write_cell_def)
  obtain d3 where d3: "opened env c oid (Some (Doc (JObj d1))) = Inr d3" "mutated env c oid (\<lambda>u d. Inr (u, d)) () d3 = Inr ((), d2)"
    using assms(4) by (auto simp: run_update_def and_then_Inr_conv)
  have "ensure_truth_fields env c d1 = Inr d3"
    using d3(1) by (auto simp: opened_def load_outbox_def outbox_err_def and_then_Inr_conv split: if_split_asm)
  then obtain e' where e': "dget d3 ''enqueue'' = JObj e'" "send_claimed e'"
    using ensure_enqueue rival(2,3) send_claimed_normal unfolding d' by blast
  have "enqueue_of d3 = Inr e'"
    using e'(1) by (auto simp: enqueue_of_def dindex_def dget_def split: option.splits)
  moreover have "already_sending e'" using e'(2) by (simp add: already_sending_def send_claimed_def)
  ultimately have "authorize_send_mutation env c safe authorize True d3 = Inr (True, d3)"
    by (simp add: authorize_send_mutation_def alone(3))
  then have "mutated env c oid (authorize_send_mutation env c safe authorize) True d3 = Inr (True, d2)"
    using d3(2) by (auto simp: mutated_def and_then_Inr_conv Let_def)
  then have second: "outbox_apply env c oid (authorize_send_mutation env c safe authorize) (True, dupdate [] d) (cl_content s1)
      = ((True, dupdate (dupdate [] d) d2), Inr (Doc (JObj d2)))"
    using d3(1) by (simp add: outbox_apply_def assms(3))
  have "etag s1 \<noteq> etag s" by (simp add: rival(1) etag_def write_cell_def)
  then show ?thesis
    using azure_contended [OF alone(4) second] alone(1,2)
    by (simp add: authorize_notification_send_azure_def outbox_update_azure_def)
qed

end
