(* ===== verification/OutboxBackfill.thy ===== *)
theory OutboxBackfill
  imports OutboxSafety
begin

text \<open>
  The import of old publication evidence into the outbox, \<open>backfill_from_publication_evidence\<close> of
  \<open>podcaster/distribution_outbox.py\<close>, and what a leg that says \<open>externally_verified_public\<close> rests on along the
  whole history of an item: the green proof of a verification, or a record of that evidence.
\<close>

section \<open>Backfilling\<close>

text \<open>\<open>str(x or d)\<close>.\<close>

definition text_or :: "outbox_env \<Rightarrow> json \<Rightarrow> string \<Rightarrow> string" where
  "text_or env v d = (if truthy v then py_str (oe_repr env) v else d)"

text \<open>The last record of each provider of the item counts.\<close>

definition latest_records :: "outbox_env \<Rightarrow> string list \<Rightarrow> dict list \<Rightarrow> string \<Rightarrow> dict option" where
  "latest_records env objectives records =
     fold (\<lambda>record latest.
       let provider = str_or env (dget record ''platform'')
       in if provider \<in> set objectives then latest(provider \<mapsto> record) else latest) records Map.empty"

definition backfill_result :: "outbox_env \<Rightarrow> dict \<Rightarrow> string" where
  "backfill_result env record =
     (let outcome = str_or env (dget record ''outcome'');
          status = str_or env (dget record ''status'');
          verification = text_or env (dget record ''verification'') ''none''
      in if status = ''public'' \<and> outcome = ''published'' \<and> verification = ''external_verified''
         then ''externally_verified_public''
         else if outcome = ''publication_unknown'' \<or> status = ''unknown'' then ''publication_unknown''
         else ''manual_handoff_required'')"

definition backfilled_intent :: "outbox_env \<Rightarrow> string \<Rightarrow> string \<Rightarrow> string \<Rightarrow> dict \<Rightarrow> dict" where
  "backfilled_intent env oid provider at_text record =
     [(''intent_id'', JStr (oe_sha env (''backfill|'' @ oid @ ''|'' @ provider))), (''provider'', JStr provider),
      (''operation'', JStr ''historical_reconciliation''), (''created_at'', JStr at_text), (''created_fence'', JInt 0),
      (''consumed_at'', JStr at_text), (''consumed_fence'', JInt 0),
      (''expected_provider_item_id'', dget record ''provider_artifact_id''), (''precondition_fingerprint'', JNull)]"

definition backfilled_verification :: "outbox_env \<Rightarrow> string \<Rightarrow> dict \<Rightarrow> dict" where
  "backfilled_verification env at_text record =
     [(''at'', JStr (text_or env (dget record ''checked_at'') at_text)),
      (''source'', JStr (text_or env (dget record ''evidence_source'') ''publication_evidence'')),
      (''provider_item_id'', dget record ''provider_artifact_id''), (''native_state'', dget record ''native_state''),
      (''result'', JStr (backfill_result env record)), (''fencing_token'', JInt 0), (''exhaustion_reason'', JNull)]"

definition backfill_entry :: "outbox_env \<Rightarrow> dict \<Rightarrow> (string \<Rightarrow> dict option) \<Rightarrow> string \<times> json \<Rightarrow> (string \<times> json) res" where
  "backfill_entry env current latest entry =
     (case latest (fst entry) of
        None \<Rightarrow> Inr entry
      | Some record \<Rightarrow>
          and_then (if truthy (dget record ''at'') then Inr (dget record ''at'') else dindex current ''created_at'') (\<lambda>v.
          and_then (dindex current ''outbox_id'') (\<lambda>oid.
          let at_text = py_str (oe_repr env) v
          in case snd entry of
               JObj leg \<Rightarrow> Inr (fst entry, JObj
                 (dset ''verification'' (JObj (backfilled_verification env at_text record))
                 (dset ''result'' (JStr (backfill_result env record))
                 (dset ''intent'' (JObj (backfilled_intent env (py_str (oe_repr env) oid) (fst entry) at_text record)) leg))))
             | _ \<Rightarrow> Inl (Raise TypeErr ''object does not support item assignment''))))"

definition backfill_mutation :: "outbox_env \<Rightarrow> call \<Rightarrow> string list \<Rightarrow> dict list \<Rightarrow> unit mutation" where
  "backfill_mutation env c objectives records u current =
     and_then (dindex current ''providers'') (\<lambda>v.
     and_then (attr_dict v) (\<lambda>providers.
     and_then (map_res (backfill_entry env current (latest_records env objectives records)) providers) (\<lambda>providers.
     and_then (refresh_aggregate env c (dset ''providers'' (JObj providers) current)) (\<lambda>current.
     Inr ((), current)))))"

definition backfill_request :: "publication_identity \<Rightarrow> artifact_reference \<Rightarrow> (string \<times> string) list \<Rightarrow> enqueue_request" where
  "backfill_request identity artifact objectives =
     \<lparr>nq_identity = identity, nq_artifact = artifact, nq_objectives = objectives,
      nq_source = ''publication_evidence_backfill'', nq_version = ''v1'', nq_ownership = None, nq_authorize = Inr (),
      nq_approvals = [], nq_contexts = [], nq_await_review = False\<rparr>"

text \<open>The item is created or merged first, and then updated; \<open>c\<close> and \<open>c'\<close> hold the clock readings of the two.\<close>

definition backfill_from_publication_evidence ::
  "outbox_env \<Rightarrow> call \<Rightarrow> call \<Rightarrow> publication_identity \<Rightarrow> artifact_reference \<Rightarrow> (string \<times> string) list \<Rightarrow> unit res
   \<Rightarrow> dict list \<Rightarrow> store \<Rightarrow> dict res \<times> store" where
  "backfill_from_publication_evidence env c c' identity artifact objectives verified records st =
     (case enqueue_item env c (backfill_request identity artifact objectives) verified st of
        (Inl e, st1) \<Rightarrow> (Inl e, st1)
      | (Inr (doc, created), st1) \<Rightarrow>
          (case dindex doc ''outbox_id'' of
             Inl e \<Rightarrow> (Inl e, st1)
           | Inr v \<Rightarrow>
               (case v of
                  JStr oid \<Rightarrow>
                    (case outbox_update env c' oid (backfill_mutation env c' (map fst objectives) records) () st1 of
                       (Inl e, st2) \<Rightarrow> (Inl e, st2)
                     | (Inr (u, captured), st2) \<Rightarrow> (Inr captured, st2))
                | _ \<Rightarrow> (Inl (Raise TypeErr ''expected string''), st1))))"

section \<open>The history of an item\<close>

text \<open>
  Beside the operations of theory \<open>Outbox\<close>, an item is changed by backfills, whose records are from \<open>ev\<close>, and by
  writers that claim no verified publication of their own: \<open>record_media_review\<close> leaves results and
  verifications as they are, \<open>authorize_recovery\<close> makes every leg pending.
\<close>

definition claims_nothing :: "dict \<Rightarrow> dict \<Rightarrow> bool" where
  "claims_nothing d d' \<longleftrightarrow>
     (\<forall>p leg'. leg_of d' p = Some leg' \<longrightarrow> dget leg' ''result'' \<noteq> JStr ''externally_verified_public''
        \<or> (\<exists>leg. leg_of d p = Some leg \<and> dget leg' ''result'' = dget leg ''result''
              \<and> sub_dict leg' ''verification'' = sub_dict leg ''verification''))"

inductive history_step :: "outbox_env \<Rightarrow> string \<Rightarrow> dict set \<Rightarrow> dict \<Rightarrow> dict \<Rightarrow> bool"
  for env :: outbox_env and oid :: string and ev :: "dict set" where
  operation: "outbox_step env oid d d' \<Longrightarrow> history_step env oid ev d d'"
| backfill: "run_update env c oid (backfill_mutation env c objectives records) () d = Inr ((), d') \<Longrightarrow> set records \<subseteq> ev
    \<Longrightarrow> history_step env oid ev d d'"
| other: "claims_nothing d d' \<Longrightarrow> history_step env oid ev d d'"

inductive_cases history_stepE: "history_step env oid ev d d'"

abbreviation history_steps :: "outbox_env \<Rightarrow> string \<Rightarrow> dict set \<Rightarrow> dict \<Rightarrow> dict \<Rightarrow> bool" where
  "history_steps env oid ev \<equiv> (history_step env oid ev)\<^sup>*\<^sup>*"

lemma steps_history: "outbox_steps env oid d d' \<Longrightarrow> history_steps env oid ev d d'"
  by (induction rule: rtranclp_induct) (auto intro: history_step.operation rtranclp.rtrancl_into_rtrancl)

section \<open>A verified publication is proved\<close>

text \<open>The record says itself that the publication at that provider was verified to be public.\<close>

definition record_of_public :: "outbox_env \<Rightarrow> string \<Rightarrow> dict \<Rightarrow> bool" where
  "record_of_public env p record \<longleftrightarrow> str_or env (dget record ''platform'') = p
     \<and> str_or env (dget record ''status'') = ''public'' \<and> str_or env (dget record ''outcome'') = ''published''
     \<and> text_or env (dget record ''verification'') ''none'' = ''external_verified''"

definition supported :: "outbox_env \<Rightarrow> dict set \<Rightarrow> string \<Rightarrow> dict \<Rightarrow> bool" where
  "supported env ev p v \<longleftrightarrow> proof_complete v
     \<or> (\<exists>record \<in> ev. record_of_public env p record \<and> (\<exists>t. v = backfilled_verification env t record))"

definition supported_leg :: "outbox_env \<Rightarrow> dict set \<Rightarrow> string \<Rightarrow> dict \<Rightarrow> bool" where
  "supported_leg env ev p leg \<longleftrightarrow> (dget leg ''result'' = JStr ''externally_verified_public''
     \<longrightarrow> (\<exists>v. sub_dict leg ''verification'' = Some v \<and> supported env ev p v))"

definition all_supported :: "outbox_env \<Rightarrow> dict set \<Rightarrow> dict \<Rightarrow> bool" where
  "all_supported env ev d = (\<forall>p leg. leg_of d p = Some leg \<longrightarrow> supported_leg env ev p leg)"

lemma proved_supported: "proved_leg leg \<Longrightarrow> supported_leg env ev p leg"
  by (auto simp: proved_leg_def supported_leg_def supported_def split: option.splits)

lemma supported_cong:
  "supported_leg env ev p leg \<Longrightarrow> dget leg' ''result'' = dget leg ''result''
   \<Longrightarrow> sub_dict leg' ''verification'' = sub_dict leg ''verification'' \<Longrightarrow> supported_leg env ev p leg'"
  by (simp add: supported_leg_def)

lemma all_supported_step:
  assumes "legs_step d d'" "all_supported env ev d"
  shows "all_supported env ev d'"
  unfolding all_supported_def
proof (intro allI impI)
  fix p leg assume "leg_of d' p = Some leg"
  then have "rel_option leg_step (leg_of d p) (Some leg)" using assms(1) by (metis legs_step_def)
  then obtain leg0 where leg0: "leg_of d p = Some leg0" "keeps_proof leg0 leg" by (auto simp: option_rel_Some2 leg_step_def)
  have "supported_leg env ev p leg0" using assms(2) leg0(1) by (simp add: all_supported_def)
  then show "supported_leg env ev p leg"
    using leg0(2) proved_supported supported_cong unfolding keeps_proof_def by blast
qed

text \<open>What a backfill writes is supported by its records.\<close>

lemma latest_record:
  "latest_records env objectives records p = Some record \<Longrightarrow> record \<in> set records \<and> str_or env (dget record ''platform'') = p"
proof -
  have "fold (\<lambda>record latest. let provider = str_or env (dget record ''platform'')
        in if provider \<in> set objectives then latest(provider \<mapsto> record) else latest) records latest p = Some record
      \<Longrightarrow> (record \<in> set records \<and> str_or env (dget record ''platform'') = p) \<or> latest p = Some record" for latest
    by (induction records arbitrary: latest) (fastforce simp: Let_def split: if_splits)+
  from this [of Map.empty] show "latest_records env objectives records p = Some record \<Longrightarrow> ?thesis"
    by (simp add: latest_records_def)
qed

lemma backfilled_leg:
  assumes "backfill_entry env current (latest_records env objectives records) (p, v) = Inr (p', JObj leg')" "set records \<subseteq> ev"
  shows "p' = p \<and> (v = JObj leg' \<or> supported_leg env ev p leg')"
proof (cases "latest_records env objectives records p")
  case (Some r)
  note facts = latest_record [OF Some]
  obtain t leg i where "p' = p" and leg': "leg' = dset ''verification'' (JObj (backfilled_verification env t r))
      (dset ''result'' (JStr (backfill_result env r)) (dset ''intent'' i leg))"
    using assms(1) Some by (cases v) (auto simp: backfill_entry_def and_then_Inr_conv Let_def)
  moreover have "supported_leg env ev p leg'"
    using facts assms(2)
    by (auto simp: supported_leg_def leg' sub_dict_def supported_def record_of_public_def backfill_result_def Let_def split: if_splits)
  ultimately show ?thesis by simp
qed (use assms in \<open>simp add: backfill_entry_def\<close>)

lemma backfilled_entries:
  assumes "map_res (backfill_entry env current (latest_records env objectives records)) ps = Inr ps'" "set records \<subseteq> ev"
    and "map_of ps' p = Some (JObj leg')"
  shows "map_of ps p = Some (JObj leg') \<or> supported_leg env ev p leg'"
  using assms(1,3)
proof (induction ps arbitrary: ps')
  case (Cons e ps)
  obtain q v where e: "e = (q, v)" by fastforce
  obtain e' qs where e': "backfill_entry env current (latest_records env objectives records) (q, v) = Inr e'"
    and qs: "map_res (backfill_entry env current (latest_records env objectives records)) ps = Inr qs" and ps': "ps' = e' # qs"
    using Cons.prems(1) by (auto simp: e and_then_Inr_conv)
  obtain q' w where w: "e' = (q', w)" by fastforce
  have "q' = q"
    using e' w by (cases v) (auto simp: backfill_entry_def and_then_Inr_conv Let_def split: option.splits)
  then show ?case
    using Cons.IH [OF qs] Cons.prems(2) backfilled_leg [OF _ assms(2)] e' by (cases "q = p") (auto simp: e ps' w)
qed simp

lemma leg_of_map: "dget d ''providers'' = JObj ps \<Longrightarrow> leg_of d p = Some leg \<longleftrightarrow> map_of ps p = Some (JObj leg)"
  by (auto simp: leg_of_def providers_of_def sub_dict_def dget_def split: json.splits option.splits)

lemma backfill_supported:
  assumes "backfill_mutation env c objectives records () d = Inr ((), d')" "set records \<subseteq> ev" "all_supported env ev d"
  shows "all_supported env ev d'"
proof -
  obtain v ps ps' where v: "dindex d ''providers'' = Inr v" "attr_dict v = Inr ps"
    and ps': "map_res (backfill_entry env d (latest_records env objectives records)) ps = Inr ps'"
    and d': "refresh_aggregate env c (dset ''providers'' (JObj ps') d) = Inr d'"
    using assms(1) by (auto simp: backfill_mutation_def and_then_Inr_conv)
  have now: "dget d ''providers'' = JObj ps"
    using v by (auto simp: dindex_def attr_dict_def dget_def split: option.splits json.splits)
  have "dget d' ''providers'' = JObj ps'" using refresh_frame [OF d', of "''providers''"] by (simp add: truth_fields_def)
  then show ?thesis
    using assms(3) backfilled_entries [OF ps' assms(2)] unfolding all_supported_def
    by (fastforce simp: leg_of_map now)
qed

lemma forward_supported: "forward d d' \<Longrightarrow> all_supported env ev d \<Longrightarrow> all_supported env ev d'"
  unfolding forward_def by (blast intro: all_supported_step)

lemma claims_nothing_supported:
  assumes "claims_nothing d d'" "all_supported env ev d"
  shows "all_supported env ev d'"
  unfolding all_supported_def
proof (intro allI impI)
  fix p leg' assume leg': "leg_of d' p = Some leg'"
  consider "dget leg' ''result'' \<noteq> JStr ''externally_verified_public''"
    | leg where "leg_of d p = Some leg" "dget leg' ''result'' = dget leg ''result''"
        "sub_dict leg' ''verification'' = sub_dict leg ''verification''"
    using assms(1) leg' unfolding claims_nothing_def by blast
  then show "supported_leg env ev p leg'"
  proof cases
    case 1
    then show ?thesis by (simp add: supported_leg_def)
  next
    case 2
    have "supported_leg env ev p leg" using assms(2) 2(1) by (simp add: all_supported_def)
    then show ?thesis by (rule supported_cong) (rule 2(2,3))+
  qed
qed

lemma history_supported:
  assumes "history_step env oid ev d d'" "all_supported env ev d"
  shows "all_supported env ev d'"
proof (rule history_stepE [OF assms(1)])
  show "outbox_step env oid d d' \<Longrightarrow> all_supported env ev d'"
    using assms(2) by (blast intro: forward_supported step_forward)
  show "claims_nothing d d' \<Longrightarrow> all_supported env ev d'"
    using claims_nothing_supported assms(2) by blast
  fix c objectives records
  assume run: "run_update env c oid (backfill_mutation env c objectives records) () d = Inr ((), d')" and "set records \<subseteq> ev"
  obtain d1 d2 where "backfill_mutation env c objectives records () d1 = Inr ((), d2)" "forward d d1" "forward d2 d'"
    by (rule run_update_cases [OF run])
  then show "all_supported env ev d'"
    using \<open>set records \<subseteq> ev\<close> assms(2) backfill_supported forward_supported by blast
qed

lemma histories_supported: "history_steps env oid ev d d' \<Longrightarrow> all_supported env ev d \<Longrightarrow> all_supported env ev d'"
  by (induction rule: rtranclp_induct) (auto intro: history_supported)

text \<open>A fresh item claims nothing.\<close>

lemma map_res_set: "map_res f xs = Inr ys \<Longrightarrow> y \<in> set ys \<Longrightarrow> \<exists>x \<in> set xs. f x = Inr y"
  by (induction xs arbitrary: ys) (auto simp: and_then_Inr_conv)

lemma fold_dset_member:
  "map_of (fold (\<lambda>(k, v) acc. dset k v acc) xs d) p = Some w \<Longrightarrow> (\<exists>k. (k, w) \<in> set xs) \<or> map_of d p = Some w"
proof (induction xs arbitrary: d)
  case (Cons x xs)
  obtain k v where x: "x = (k, v)" by fastforce
  have "(\<exists>k. (k, w) \<in> set xs) \<or> map_of (dset k v d) p = Some w"
    using Cons.prems by (intro Cons.IH) (simp add: x)
  then show ?case
  proof
    assume "map_of (dset k v d) p = Some w"
    then show ?thesis by (cases "p = k") (auto simp: x)
  qed (simp add: x, blast)
qed simp

lemma fresh_leg_pending:
  "fresh_leg env c q e = Inr (k, v) \<Longrightarrow> \<exists>leg. v = JObj leg \<and> dget leg ''result'' = JStr ''pending_provider''"
  by (cases e) (auto simp: fresh_leg_def and_then_Inr_conv)

lemma fresh_document_parts:
  assumes "fresh_document env c oid q = Inr d"
  shows "\<exists>legs d0 d1. map_res (fresh_leg env c q) (sort_key fst (nq_objectives q)) = Inr legs
     \<and> ensure_truth_fields env c d0 = Inr d1
     \<and> d = ensure_provider_reconciliation env (ca_now c 3 + INITIAL_RECONCILIATION_DELAY)
        (if nq_await_review q
         then dset ''media_review'' (JObj [(''status'', JStr ''pending''), (''audit_trail'', JList [])]) d1 else d1)
     \<and> dget d0 ''providers'' = JObj (fold (\<lambda>(k, v) acc. dset k v acc) legs [])"
  using assms unfolding fresh_document_def and_then_Inr_conv Let_def
  apply (elim exE conjE)
  apply (intro exI conjI)
  apply assumption
  apply assumption
  apply simp_all
  done

lemma fresh_all_supported:
  assumes "fresh_document env c oid q = Inr d"
  shows "all_supported env ev d"
proof -
  obtain legs d0 d1 where legs: "map_res (fresh_leg env c q) (sort_key fst (nq_objectives q)) = Inr legs"
    and d0: "dget d0 ''providers'' = JObj (fold (\<lambda>(k, v) acc. dset k v acc) legs [])"
    and d1: "ensure_truth_fields env c d0 = Inr d1"
    and d: "d = ensure_provider_reconciliation env (ca_now c 3 + INITIAL_RECONCILIATION_DELAY)
        (if nq_await_review q
         then dset ''media_review'' (JObj [(''status'', JStr ''pending''), (''audit_trail'', JList [])]) d1 else d1)"
    using fresh_document_parts [OF assms] by blast
  have "proved_leg leg" if "leg_of d0 p = Some leg" for p leg
  proof -
    have "map_of (fold (\<lambda>(k, v) acc. dset k v acc) legs []) p = Some (JObj leg)"
      using that d0 by (auto simp: leg_of_def providers_of_def sub_dict_def dget_def split: json.splits option.splits)
    then obtain k where "(k, JObj leg) \<in> set legs" using fold_dset_member by fastforce
    then have "dget leg ''result'' = JStr ''pending_provider''"
      using map_res_set [OF legs] fresh_leg_pending by fastforce
    then show ?thesis by (simp add: proved_leg_def)
  qed
  then have "all_supported env ev d0" using proved_supported by (simp add: all_supported_def)
  moreover have "advances d0 d"
    unfolding d
    by (rule advances_trans [OF ensure_advances [OF d1] advances_trans [OF advances_same reconciliation_advances]]) simp_all
  ultimately show ?thesis using all_supported_step unfolding advances_def by blast
qed

text \<open>
  Claim C3: a leg says that a publication was externally verified only on evidence.  From the creation of an item,
  along every interleaving of its operations, of backfills, and of writers that leave results with their
  verifications or claim no verified publication, a leg whose result is \<open>externally_verified_public\<close> holds
  a verification whose proof is green with every one of its nine checks true, or the verification that
  a backfill wrote from a record of that provider which says itself that the publication is public, published
  and externally verified.  Without backfills (\<open>ev\<close> is empty) there is always the proof.
\<close>

theorem verified_result_is_proved:
  assumes "fresh_document env c oid q = Inr d0" "history_steps env oid ev d0 d"
    and "leg_of d p = Some leg" "dget leg ''result'' = JStr ''externally_verified_public''"
  shows "\<exists>v. sub_dict leg ''verification'' = Some v
    \<and> (proof_complete v \<or> (\<exists>record \<in> ev. record_of_public env p record \<and> (\<exists>t. v = backfilled_verification env t record)))"
proof -
  have "all_supported env ev d" using histories_supported [OF assms(2) fresh_all_supported [OF assms(1)]] .
  then show ?thesis using assms(3,4) by (auto simp: all_supported_def supported_leg_def supported_def)
qed

end
