(* ===== verification/OutboxExample.thy ===== *)
theory OutboxExample
  imports OutboxBackfill
begin

text \<open>
  One distribution from its creation to a verified publication, computed step by step with the operations of
  theory \<open>Outbox\<close>: instances at which the statements of theory \<open>OutboxSafety\<close> apply.  The documents are written with
  a constructor for the members that change, so that each step is computed once, by rewriting.
\<close>

section \<open>Values that are safe to store\<close>

definition storable :: "string \<Rightarrow> json \<Rightarrow> bool" where
  "storable k v = (\<exists>w. safe_value k v = Inr w)"

lemma safe_items_storable: "(\<And>v. v \<in> set xs \<Longrightarrow> storable k v) \<Longrightarrow> \<exists>ys. safe_items k xs = Inr ys"
  by (induction xs) (fastforce simp: storable_def)+

lemma safe_members_storable: "(\<And>k v. (k, v) \<in> set d \<Longrightarrow> storable k v) \<Longrightarrow> \<exists>e. safe_members d = Inr e"
proof (induction d)
  case (Cons kv d)
  obtain k v where kv: "kv = (k, v)" by fastforce
  obtain w where "safe_value k v = Inr w" using Cons.prems [of k v] by (auto simp: kv storable_def)
  moreover obtain e where "safe_members d = Inr e" using Cons by fastforce
  ultimately show ?case by (simp add: kv Let_def)
qed simp

definition plain_string :: "string \<Rightarrow> bool" where
  "plain_string s = (\<not> contains ''://'' s \<and> length s \<le> 256)"

lemma storable_JStr: "storable k (JStr s) \<longleftrightarrow> \<not> unsafe_key k \<and> plain_string s"
  by (auto simp: storable_def plain_string_def unsafe_value_def)

lemma storable_atom:
  "storable k JNull \<longleftrightarrow> \<not> unsafe_key k" "storable k (JBool b) \<longleftrightarrow> \<not> unsafe_key k" "storable k (JInt n) \<longleftrightarrow> \<not> unsafe_key k"
  by (simp_all add: storable_def unsafe_value_def)

lemma storable_JObj: "\<not> unsafe_key k \<Longrightarrow> list_all (\<lambda>(j, v). storable j v) d \<Longrightarrow> storable k (JObj d)"
  using safe_members_storable [of d] by (fastforce simp: storable_def list_all_iff)

lemma storable_JList: "\<not> unsafe_key k \<Longrightarrow> list_all (storable k) xs \<Longrightarrow> storable k (JList xs)"
  using safe_items_storable [of xs k] by (fastforce simp: storable_def list_all_iff)

lemmas storable_intros = storable_JObj storable_JList

text \<open>A printed time has no solidus and at most 32 characters.\<close>

lemma contains_first: "contains p s \<Longrightarrow> c \<in> set p \<Longrightarrow> c \<in> set s"
  by (auto simp: contains_def starts_with_def list_ex_iff) (metis in_set_dropD in_set_takeD)

lemma iso_z_no_solidus: "CHR ''/'' \<notin> set (iso_z t)"
proof -
  have "\<not> is_digit (CHR ''/'')" by (simp add: is_digit_def digit_val_def)
  then have "CHR ''/'' \<notin> set (digits_fixed w n)" for w n by (rule no_plus_digits)
  then show ?thesis by (auto simp: iso_z_eq iso_body_def iso_date_def iso_time_def Let_def split: prod.splits)
qed

lemma iso_z_length: "length (iso_z t) \<le> 256" "iso_z t \<noteq> []"
  by (simp_all add: iso_z_eq iso_body_def iso_date_def iso_time_def Let_def split: prod.splits)

lemma plain_iso_z: "plain_string (iso_z t)"
  using contains_first [of "''://''" "iso_z t" "CHR ''/''"] iso_z_no_solidus [of t] iso_z_length(1) [of t]
  by (auto simp: plain_string_def)

section \<open>The document\<close>

definition demo_sha :: string where
  "demo_sha = replicate 64 (CHR ''a'')"

definition demo_env :: outbox_env where
  "demo_env = \<lparr>oe_repr = (\<lambda>v. ''value''), oe_sha = (\<lambda>s. demo_sha), oe_text = (\<lambda>v. ''text''), oe_local = (\<lambda>t. t),
     oe_recovery = (\<lambda>d a b. False)\<rparr>"

text \<open>Every reading of a call's clock gives the same second, and every identifier it draws is the same.\<close>

definition demo_call :: "int \<Rightarrow> string \<Rightarrow> call" where
  "demo_call t u = \<lparr>ca_now = (\<lambda>n. micros t), ca_uid = (\<lambda>n. u)\<rparr>"

definition demo_identity :: publication_identity where
  "demo_identity = \<lparr>pi_job_id = ''job'', pi_week = ''2026-W01'', pi_run_id = ''run'', pi_article = demo_sha, pi_manifest = demo_sha\<rparr>"

definition demo_artifact :: artifact_reference where
  "demo_artifact = \<lparr>ar_path = ''video.mp4'', ar_sha256 = demo_sha, ar_size = 10, ar_media_kind = ''video''\<rparr>"

record demo =
  dm_state :: string
  dm_claim :: json
  dm_fence :: int
  dm_count :: int
  dm_leg :: dict
  dm_aggregate :: dict
  dm_updated :: int
  dm_attempt_state :: string
  dm_events :: "json list"
  dm_weekly :: dict
  dm_enqueue :: dict

definition demo_attempt :: "demo \<Rightarrow> dict" where
  "demo_attempt m =
     [(''record_version'', JStr ATTEMPT_RECORD_VERSION), (''attempt_id'', JStr ''attempt''), (''authz_id'', JStr demo_sha),
      (''authz_source'', JStr ''initial_enqueue''), (''authz_reason'', JStr ''accepted_publication''),
      (''authorized_at'', JStr (iso_z (micros 0))), (''predecessor_attempt_id'', JNull), (''state'', JStr (dm_attempt_state m)),
      (''terminal_outcome'', JNull), (''events'', JList (dm_events m)), (''proof_references'', JList [])]"

definition demo_canonical :: dict where
  "demo_canonical =
     [(''artifact_id'', JStr demo_sha), (''path'', JStr ''video.mp4''), (''sha256'', JStr demo_sha), (''media_kind'', JStr ''video''),
      (''selected'', JBool True), (''selection_reason'', JStr ''content_addressed_render''), (''selection_version'', JStr ''v1'')]"

definition demo_enqueue :: dict where
  "demo_enqueue =
     [(''at'', JStr (iso_z (micros 0))), (''source'', JStr ''worker''), (''version'', JStr ''v1''),
      (''notification_intent'', JNull), (''notification_sent_at'', JNull)]"

definition demo_authz_set :: dict where
  "demo_authz_set =
     [(''schema_version'', JStr RECOVERY_AUTHORIZATION_SET_SCHEMA_VERSION), (''authz_count'', JInt 0),
      (''ordered_authz_ids'', JList []), (''active_authz_id'', JNull), (''digest'', JStr demo_sha)]"

definition doc_of :: "demo \<Rightarrow> dict" where
  "doc_of m =
     [(''schema_version'', JStr OUTBOX_SCHEMA_VERSION), (''outbox_id'', JStr demo_sha),
      (''publication_identity'', JObj (identity_dict demo_identity)), (''artifact'', JObj (artifact_dict demo_artifact)),
      (''provider_objectives'', JObj [(''youtube'', JStr ''public'')]), (''enqueue'', JObj (dm_enqueue m)),
      (''source_ownership'', JNull), (''state'', JStr (dm_state m)), (''claim'', dm_claim m), (''fencing_token'', JInt (dm_fence m)),
      (''attempt_count'', JInt (dm_count m)), (''providers'', JObj [(''youtube'', JObj (dm_leg m))]),
      (''aggregate'', JObj (dm_aggregate m)), (''created_at'', JStr (iso_z (micros 0))),
      (''updated_at'', JStr (iso_z (micros (dm_updated m)))), (''publication_digest'', JStr demo_sha),
      (''canonical_artifact'', JObj demo_canonical), (''attempts'', JList [JObj (demo_attempt m)]),
      (''recovery_authz'', JList []), (''recovery_authz_set'', JObj demo_authz_set), (''weekly_aggregation'', JObj (dm_weekly m))]"

lemma doc_gets:
  "dget (doc_of m) ''schema_version'' = JStr OUTBOX_SCHEMA_VERSION"
  "dget (doc_of m) ''outbox_id'' = JStr demo_sha"
  "dget (doc_of m) ''publication_identity'' = JObj (identity_dict demo_identity)"
  "dget (doc_of m) ''artifact'' = JObj (artifact_dict demo_artifact)"
  "dget (doc_of m) ''enqueue'' = JObj (dm_enqueue m)"
  "dget (doc_of m) ''claim'' = dm_claim m"
  "dget (doc_of m) ''fencing_token'' = JInt (dm_fence m)"
  "dget (doc_of m) ''attempt_count'' = JInt (dm_count m)"
  "dget (doc_of m) ''providers'' = JObj [(''youtube'', JObj (dm_leg m))]"
  "dget (doc_of m) ''aggregate'' = JObj (dm_aggregate m)"
  "dget (doc_of m) ''publication_digest'' = JStr demo_sha"
  "dget (doc_of m) ''canonical_artifact'' = JObj demo_canonical"
  "dget (doc_of m) ''attempts'' = JList [JObj (demo_attempt m)]"
  "dget (doc_of m) ''recovery_authz'' = JList []"
  "dget (doc_of m) ''recovery_authz_set'' = JObj demo_authz_set"
  "dget (doc_of m) ''weekly_aggregation'' = JObj (dm_weekly m)"
  by (simp_all add: doc_of_def)

lemma doc_has:
  "dhas (doc_of m) ''publication_digest''" "dhas (doc_of m) ''canonical_artifact''" "dhas (doc_of m) ''attempts''"
  "dhas (doc_of m) ''recovery_authz''" "dhas (doc_of m) ''recovery_authz_set''" "dhas (doc_of m) ''weekly_aggregation''"
  "dhas (doc_of m) ''enqueue''" "\<not> dhas (doc_of m) ''media_review''"
  by (simp_all add: doc_of_def)

lemma doc_sets:
  "dset ''state'' (JStr s) (doc_of m) = doc_of (m\<lparr>dm_state := s\<rparr>)"
  "dset ''claim'' v (doc_of m) = doc_of (m\<lparr>dm_claim := v\<rparr>)"
  "dset ''fencing_token'' (JInt n) (doc_of m) = doc_of (m\<lparr>dm_fence := n\<rparr>)"
  "dset ''attempt_count'' (JInt n) (doc_of m) = doc_of (m\<lparr>dm_count := n\<rparr>)"
  "dset ''providers'' (JObj [(''youtube'', JObj leg)]) (doc_of m) = doc_of (m\<lparr>dm_leg := leg\<rparr>)"
  "dset ''aggregate'' (JObj d) (doc_of m) = doc_of (m\<lparr>dm_aggregate := d\<rparr>)"
  "dset ''weekly_aggregation'' (JObj d) (doc_of m) = doc_of (m\<lparr>dm_weekly := d\<rparr>)"
  "dset ''updated_at'' (JStr (iso_z (micros t))) (doc_of m) = doc_of (m\<lparr>dm_updated := t\<rparr>)"
  "dset ''enqueue'' (JObj d) (doc_of m) = doc_of (m\<lparr>dm_enqueue := d\<rparr>)"
  by (simp_all add: doc_of_def dset_def demo_attempt_def)

lemma doc_leg: "leg_of (doc_of m) ''youtube'' = Some (dm_leg m)" "providers_of (doc_of m) = [(''youtube'', JObj (dm_leg m))]"
  "with_leg ''youtube'' leg (doc_of m) = doc_of (m\<lparr>dm_leg := leg\<rparr>)"
  by (simp_all add: leg_of_def providers_of_def sub_dict_def doc_gets with_leg_def doc_sets) (simp add: dset_def doc_sets [unfolded dset_def])

lemma doc_attempt: "active_attempt (doc_of m) = Inr (demo_attempt m)"
  by (simp add: active_attempt_def sub_list_def doc_gets)

lemma doc_event:
  "log_event s t x (doc_of m) = Inr (doc_of (m\<lparr>dm_attempt_state := s, dm_events := dm_events m @ [JObj (dupdate
     [(''sequence'', JInt (int (length (dm_events m)) + 1)), (''event_type'', JStr s), (''at'', JStr t), (''state'', JStr s)]
     (present x))]\<rparr>))"
  by (simp add: log_event_def doc_attempt attempt_event_def dindex_def with_attempt_def sub_list_def doc_gets)
    (simp add: doc_of_def demo_attempt_def dset_def)

section \<open>Reading and writing the document\<close>

lemma demo_env_simps [simp]:
  "oe_sha demo_env x = demo_sha" "oe_repr demo_env v = ''value''" "oe_text demo_env v = ''text''" "oe_recovery demo_env d a b = False"
  by (simp_all add: demo_env_def)

lemma demo_call_simps [simp]: "ca_now (demo_call t u) n = micros t" "ca_uid (demo_call t u) n = u"
  by (simp_all add: demo_call_def)

lemma ensure_doc:
  assumes "normal_enqueue (dm_enqueue m) = dm_enqueue m"
  shows "ensure_truth_fields demo_env c (doc_of m) = Inr (doc_of m)"
proof -
  have "with_authz_set demo_env (doc_of m) = Inr (doc_of m)"
    by (simp add: with_authz_set_def dsetdefault_def doc_has)
  moreover have "named_attempt (JObj (demo_attempt m))" by (simp add: demo_attempt_def)
  ultimately show ?thesis
    using assms
    by (simp add: ensure_truth_fields_def malformed_collection_def malformed_member_def attempts_of_def sub_list_def sub_dict_def
        doc_gets doc_has dict_list_def with_attempts_def dsetdefault_def doc_sets)
qed

lemma demo_enqueue_normal: "normal_enqueue demo_enqueue = demo_enqueue"
  by (simp add: normal_enqueue_def sub_dict_def demo_enqueue_def)

text \<open>Names in which no unsafe word occurs, checked one character at a time.\<close>

lemma contains_iff: "contains p s \<longleftrightarrow> (\<exists>k\<le>length s. starts_with p (drop k s))"
  by (simp only: contains_def list_ex_iff set_upt) (auto simp: less_Suc_eq_le)

lemma contains_Cons:
  "contains p (c # s) \<longleftrightarrow> starts_with p (c # s) \<or> contains p s" "contains p [] \<longleftrightarrow> p = []"
proof -
  have "(\<exists>k\<le>Suc n. P k) \<longleftrightarrow> P 0 \<or> (\<exists>k\<le>n. P (Suc k))" for P :: "nat \<Rightarrow> bool" and n
    by (metis Suc_le_mono not0_implies_Suc zero_le)
  then show "contains p (c # s) \<longleftrightarrow> starts_with p (c # s) \<or> contains p s"
    by (simp add: contains_iff)
qed (auto simp: contains_def starts_with_def)

lemma starts_with_Cons:
  "starts_with (x # p) (c # s) \<longleftrightarrow> x = c \<and> starts_with p s" "starts_with [] s" "\<not> starts_with (x # p) []"
  by (auto simp: starts_with_def)

definition unsafe_words :: "string list" where
  "unsafe_words = [''signed'', ''authorization'', ''bearer'', ''cookie'', ''credential'', ''secret'', ''token_value'', ''body'', ''content'']"

definition plain_name :: "string \<Rightarrow> bool" where
  "plain_name s = (map py_lower_char s = s \<and> list_all (\<lambda>w. \<not> contains w s) unsafe_words)"

lemma starts_with_iff: "starts_with p s \<longleftrightarrow> (\<exists>t. s = p @ t)"
  by (auto simp: starts_with_def) (metis append_take_drop_id)

lemma plain_name_safe:
  assumes s: "plain_name s"
  shows "\<not> unsafe_key s"
proof -
  have "\<not> contains ''signed'' s" using s by (simp add: plain_name_def unsafe_words_def)
  then have no: "\<not> starts_with ''signed'' (drop k s)" if "k \<le> length s" for k using contains_iff that by blast
  have "\<not> contains ''signedurl'' s"
  proof
    assume "contains ''signedurl'' s"
    then obtain k where k: "k \<le> length s" "starts_with ''signedurl'' (drop k s)" unfolding contains_iff by blast
    then obtain t where "drop k s = ''signed'' @ ''url'' @ t" unfolding starts_with_iff by auto
    then have "starts_with ''signed'' (drop k s)" unfolding starts_with_iff by blast
    then show False using no k(1) by blast
  qed
  then have "\<not> signed_url s" using no by (auto simp: signed_url_def list_ex_iff)
  then show ?thesis using s by (simp add: unsafe_key_def Let_def py_lower_def plain_name_def unsafe_words_def)
qed

lemmas plain_name_eval = plain_name_def unsafe_words_def contains_Cons starts_with_Cons py_lower_char_def

lemma plain_names:
  "list_all plain_name [[], ''schema_version'', ''outbox_id'', ''publication_identity'', ''artifact'',
     ''provider_objectives'', ''enqueue'', ''source_ownership'', ''state'', ''claim'', ''fencing_token'', ''attempt_count'',
     ''providers'', ''aggregate'', ''created_at'', ''updated_at'', ''publication_digest'', ''canonical_artifact'', ''attempts'',
     ''recovery_authz'', ''recovery_authz_set'', ''weekly_aggregation'', ''youtube'', ''record_version'', ''attempt_id'',
     ''authz_id'', ''authz_source'', ''authz_reason'', ''authorized_at'', ''predecessor_attempt_id'', ''terminal_outcome'',
     ''events'', ''proof_references'', ''artifact_id'', ''path'', ''sha256'', ''media_kind'', ''selected'', ''selection_reason'',
     ''selection_version'', ''at'', ''source'', ''version'', ''notification_intent'', ''notification_sent_at'', ''authz_count'',
     ''ordered_authz_ids'', ''active_authz_id'', ''digest'', ''accepted_job_id'', ''week'', ''publish_run_id'',
     ''article_sha256'', ''manifest_sha256'', ''size_bytes'']"
  by (simp add: plain_name_eval)

lemma more_plain_names:
  "list_all plain_name [''objective'', ''approval'', ''context'', ''result'', ''intent'', ''receipts'', ''verification'',
     ''next_reconcile_at'', ''verification_attempt'', ''verification_budget'', ''verification_horizon_at'',
     ''active_schedule_token'', ''active_schedule_source'', ''schedule_notification_token'', ''schedule_notification_sent_at'',
     ''notification_reservation'', ''approved'', ''approved_by'', ''approved_at'', ''owner'', ''claim_id'', ''execution_id'',
     ''claimed_at'', ''heartbeat_at'', ''lease_expires_at'', ''read_only'', ''sequence'', ''event_type'', ''intent_id'',
     ''provider'', ''operation'', ''operation_type'', ''created_fence'', ''consumed_at'', ''consumed_fence'', ''consumed_owner'',
     ''consumed_attempt_id'', ''expected_provider_item_id'', ''precondition_fingerprint'', ''receipt_id'', ''transport_class'',
     ''provider_item_id'', ''native_state'', ''ambiguous'', ''code'', ''receipt'', ''intent_history'', ''exhaustion_reason'',
     ''proof'', ''green'', ''evidence'', ''decision_id'', ''rule_version'', ''evaluated_attempt_ids'', ''winning_attempt_id'',
     ''failed_attempt_references'', ''unresolved_conditions'', ''decided_at'', ''worker_exit_class'',
     ''externally_verified_public'', ''terminal_reason'']"
  by (simp add: plain_name_eval)

lemma safe_key_of: "list_all plain_name ks \<Longrightarrow> list_all (\<lambda>k. \<not> unsafe_key k) ks"
  by (simp add: list_all_iff plain_name_safe)

lemmas safe_key = plain_names [THEN safe_key_of, simplified] more_plain_names [THEN safe_key_of, simplified]

lemma demo_sha_facts: "is_sha256 demo_sha" "plain_string demo_sha" "demo_sha \<noteq> []"
  by (code_simp, code_simp, simp add: demo_sha_def)

text \<open>The members of the document that do not change.\<close>

lemma fixed_members:
  "storable ''publication_identity'' (JObj (identity_dict demo_identity))"
  "storable ''artifact'' (JObj (artifact_dict demo_artifact))"
  "storable ''enqueue'' (JObj demo_enqueue)" "storable ''canonical_artifact'' (JObj demo_canonical)"
  "storable ''recovery_authz_set'' (JObj demo_authz_set)"
  "storable ''provider_objectives'' (JObj [(''youtube'', JStr ''public'')])"
proof -
  have plain: "plain_string ''job''" "plain_string ''2026-W01''" "plain_string ''run''" "plain_string ''video.mp4''"
    "plain_string ''video''" "plain_string ''worker''" "plain_string ''v1''" "plain_string ''public''"
    "plain_string ''content_addressed_render''" "plain_string RECOVERY_AUTHORIZATION_SET_SCHEMA_VERSION"
    by code_simp+
  note facts = plain safe_key demo_sha_facts plain_iso_z storable_JStr storable_atom
  show "storable ''publication_identity'' (JObj (identity_dict demo_identity))"
    by (rule storable_JObj) (simp_all add: identity_dict_def demo_identity_def facts)
  show "storable ''artifact'' (JObj (artifact_dict demo_artifact))"
    by (rule storable_JObj) (simp_all add: artifact_dict_def demo_artifact_def facts)
  show "storable ''enqueue'' (JObj demo_enqueue)"
    by (rule storable_JObj) (simp_all add: demo_enqueue_def facts)
  show "storable ''canonical_artifact'' (JObj demo_canonical)"
    by (rule storable_JObj) (simp_all add: demo_canonical_def facts)
  show "storable ''recovery_authz_set'' (JObj demo_authz_set)"
    by (rule storable_JObj) (simp_all add: demo_authz_set_def facts storable_JList)
  show "storable ''provider_objectives'' (JObj [(''youtube'', JStr ''public'')])"
    by (rule storable_JObj) (simp_all add: facts)
qed

definition members_ok :: "dict \<Rightarrow> bool" where
  "members_ok d = (list_all (\<lambda>(k, v). storable k v) d \<and> no_repeats (JObj d))"

definition demo_ok :: "demo \<Rightarrow> bool" where
  "demo_ok m =
     (plain_string (dm_state m) \<and> storable ''claim'' (dm_claim m) \<and> no_repeats (dm_claim m) \<and> members_ok (dm_leg m)
      \<and> valid_leg (JObj (dm_leg m)) \<and> members_ok (dm_aggregate m) \<and> plain_string (dm_attempt_state m)
      \<and> list_all (storable ''events'') (dm_events m) \<and> no_repeats_items (dm_events m) \<and> members_ok (dm_weekly m)
      \<and> members_ok (dm_enqueue m) \<and> normal_enqueue (dm_enqueue m) = dm_enqueue m)"

lemma plain_words:
  "list_all plain_string [OUTBOX_SCHEMA_VERSION, ATTEMPT_RECORD_VERSION, ''attempt'', ''initial_enqueue'', ''accepted_publication'']"
  by code_simp

lemma doc_storable:
  assumes "demo_ok m"
  shows "storable [] (JObj (doc_of m))"
proof -
  note ok = assms [unfolded demo_ok_def members_ok_def]
  note facts = plain_words [simplified] safe_key demo_sha_facts plain_iso_z storable_JStr storable_atom
  have attempt: "storable ''attempts'' (JList [JObj (demo_attempt m)])"
    using ok by (intro storable_JList) (simp_all add: facts storable_JObj storable_JList demo_attempt_def)
  show ?thesis
    by (rule storable_JObj) (use ok in \<open>simp_all add: doc_of_def facts fixed_members attempt storable_JObj storable_JList\<close>)
qed

lemma doc_no_repeats:
  assumes "demo_ok m"
  shows "no_repeats (JObj (doc_of m))"
proof -
  note ok = assms [unfolded demo_ok_def members_ok_def]
  have "no_repeats (JObj (identity_dict demo_identity))" "no_repeats (JObj (artifact_dict demo_artifact))"
    "no_repeats (JObj demo_canonical)" "no_repeats (JObj demo_authz_set)"
    by (simp_all add: identity_dict_def artifact_dict_def demo_canonical_def demo_authz_set_def)
  moreover have "no_repeats (JObj (demo_attempt m))" using ok by (simp add: demo_attempt_def)
  moreover have "distinct (map fst (doc_of m))" by (simp add: doc_of_def)
  ultimately show ?thesis using ok by (simp add: doc_of_def)
qed

lemma doc_validates:
  assumes "demo_ok m"
  shows "validate_document demo_env (doc_of m) demo_sha = Inr ()"
proof -
  obtain w where "safe_value [] (JObj (doc_of m)) = Inr w" using doc_storable [OF assms] by (auto simp: storable_def)
  then show ?thesis
    using assms
    by (simp add: validate_document_def doc_gets sub_dict_def doc_leg demo_ok_def str_or_def artifact_dict_def
        demo_artifact_def demo_sha_facts del: safe_value.simps)
qed

lemma opened_doc: "demo_ok m \<Longrightarrow> opened demo_env c demo_sha (Some (Doc (JObj (doc_of m)))) = Inr (doc_of m)"
  using doc_no_repeats [of m] doc_validates [of m] ensure_doc [of m]
  by (simp add: opened_def load_outbox_def demo_ok_def del: no_repeats.simps)

text \<open>One operation of the item, read and written back.\<close>

lemma run_doc:
  assumes "demo_ok m" "f cap (doc_of m) = Inr (cap', doc_of m')" "demo_ok (m'\<lparr>dm_updated := t\<rparr>)"
  shows "run_update demo_env (demo_call t u) demo_sha f cap (doc_of m) = Inr (cap', doc_of (m'\<lparr>dm_updated := t\<rparr>))"
  using assms by (simp add: run_update_def opened_doc mutated_def doc_sets doc_validates)

lemma run_claim_doc:
  assumes "demo_ok m"
    and "claim_mutation demo_env (demo_call t u) demo_sha owner execution lease None (doc_of m) = Inr (cap', doc_of m')"
    and "demo_ok (m'\<lparr>dm_updated := t\<rparr>)"
  shows "run_update demo_env (demo_call t u) demo_sha (claim_mutation demo_env (demo_call t u) demo_sha owner execution lease)
     None (doc_of m) = Inr (cap', doc_of (m'\<lparr>dm_updated := t\<rparr>))"
  by (rule run_doc [where f = "claim_mutation demo_env (demo_call t u) demo_sha owner execution lease"]) (rule assms)+

lemma op_doc:
  assumes "demo_ok m" "op_mutation demo_env (demo_call t u) demo_sha op (doc_of m) = Inr (doc_of m')"
    and "demo_ok (m'\<lparr>dm_updated := t\<rparr>)"
  shows "outbox_step demo_env demo_sha (doc_of m) (doc_of (m'\<lparr>dm_updated := t\<rparr>))"
  by (rule outbox_step.update [where c = "demo_call t u" and op = op])
    (use assms in \<open>simp add: apply_op_def document_of_def run_doc\<close>)

lemma no_repeats_items_append: "no_repeats_items (xs @ ys) = (no_repeats_items xs \<and> no_repeats_items ys)"
  by (induction xs) auto

section \<open>Times and tokens\<close>

lemma parse_printed: "valid_instant t \<Longrightarrow> parse_time_text env (iso_z t) = Inr (Some t)"
  using iso_z_length(2) fromisoformat_isoformat by (simp add: parse_time_text_def in_range_def iso_z_offset)

lemma valid_micros: "0 \<le> n \<Longrightarrow> n \<le> 100000 \<Longrightarrow> valid_instant (micros n)"
  by (simp add: valid_instant_def micros_def micros_per_day_def)

lemma micros_arith:
  "micros a + micros b = micros (a + b)" "micros a - micros b = micros (a - b)" "micros a < micros b \<longleftrightarrow> a < b"
  "micros a \<le> micros b \<longleftrightarrow> a \<le> b"
  by (simp_all add: micros_def algebra_simps)

lemma parse_demo: "0 \<le> n \<Longrightarrow> n \<le> 100000 \<Longrightarrow> parse_field env (JStr (iso_z (micros n))) = Inr (Some (micros n))"
  using iso_z_length(2) by (simp add: parse_field_def str_or_def parse_printed valid_micros)

lemma iso_after_demo: "0 \<le> a + b \<Longrightarrow> a + b \<le> 100000 \<Longrightarrow> iso_after (micros a) (micros b) = Inr (iso_z (micros (a + b)))"
  by (simp add: iso_after_def micros_arith in_range_def valid_micros)

lemma token_words:
  "list_all (\<lambda>s. is_token s \<and> py_strip s = s \<and> plain_string s) [''worker'', ''run-1'', ''run-2'', ''youtube'', ''public'', ''upload'',
     ''public_promotion'', ''vid'', ''accepted'', ''v1'', ''provider_readback'', ''claim-1'', ''claim-2'', ''intent-1'', ''intent-2'',
     ''receipt-1'', ''create'', ''publish'', ''claimed'', ''reconciling'', ''intent_persisted'', ''mutating'', ''receipt_persisted'',
     ''verifying'', ''pending'', ''pending_provider'', ''externally_verified_public'', ''completed_public'', ''initial_notification'',
     ''ana'', ''manifest_human_review'', ''published_verified'', ''weekly-publication-truth-v1'', ''zero'', ''nonzero'']"
  by code_simp

lemmas token_facts = token_words [simplified]

lemma require_demo: "is_token s \<Longrightarrow> py_strip s = s \<Longrightarrow> require_token name s = Inr s"
  by (simp add: require_token_def Let_def)

section \<open>A claim\<close>

definition demo_leg :: "dict \<Rightarrow> dict" where
  "demo_leg approval =
     [(''objective'', JStr ''public''), (''approval'', JObj approval), (''context'', JObj []), (''result'', JStr ''pending_provider''),
      (''intent'', JNull), (''receipts'', JList []), (''verification'', JNull), (''next_reconcile_at'', JStr (iso_z (micros 300))),
      (''verification_attempt'', JInt 0), (''verification_budget'', JInt 8),
      (''verification_horizon_at'', JStr (iso_z (micros 86400))), (''active_schedule_token'', JStr demo_sha),
      (''active_schedule_source'', JStr ''initial_notification''), (''schedule_notification_token'', JNull),
      (''schedule_notification_sent_at'', JNull), (''notification_reservation'', JNull)]"

definition demo_weekly :: dict where
  "demo_weekly =
     [(''decision_id'', JStr demo_sha), (''rule_version'', JStr ''weekly-publication-truth-v1''),
      (''evaluated_attempt_ids'', JList [JStr ''attempt'']), (''state'', JStr ''pending''), (''winning_attempt_id'', JNull),
      (''proof_references'', JList []), (''unresolved_conditions'', JList []), (''decided_at'', JStr (iso_z (micros 0))),
      (''worker_exit_class'', JStr ''nonzero'')]"

text \<open>The item as it is created, and under its first claim.\<close>

definition created :: "dict \<Rightarrow> demo" where
  "created approval =
     \<lparr>dm_state = ''pending'', dm_claim = JNull, dm_fence = 0, dm_count = 0, dm_leg = demo_leg approval,
      dm_aggregate = [(''result'', JStr ''pending_provider''), (''externally_verified_public'', JBool False), (''terminal_reason'', JNull)],
      dm_updated = 0, dm_attempt_state = ''pending'', dm_events = [accepted_event (iso_z (micros 0))], dm_weekly = demo_weekly,
      dm_enqueue = demo_enqueue\<rparr>"

definition first_claim :: outbox_claim where
  "first_claim = \<lparr>ob_id = demo_sha, ob_owner = ''worker'', ob_claim_id = ''claim-1'', ob_execution = ''run-1'', ob_token = 1,
     ob_lease = iso_z (micros 610), ob_read_only = False, ob_attempt = ''attempt''\<rparr>"

definition claimed :: "dict \<Rightarrow> demo" where
  "claimed approval = (created approval)\<lparr>dm_state := ''claimed'', dm_claim := JObj (claim_dict first_claim (micros 10)), dm_fence := 1,
     dm_count := 1, dm_updated := 10, dm_attempt_state := ''claimed'', dm_events := [accepted_event (iso_z (micros 0)),
       JObj [(''sequence'', JInt 2), (''event_type'', JStr ''claimed''), (''at'', JStr (iso_z (micros 10))), (''state'', JStr ''claimed''),
         (''owner'', JStr ''worker''), (''claim_id'', JStr ''claim-1''), (''execution_id'', JStr ''run-1''),
         (''fencing_token'', JInt 1), (''lease_expires_at'', JStr (iso_z (micros 610)))]]\<rparr>"

lemmas demo_facts = safe_key demo_sha_facts token_facts plain_words [simplified] plain_iso_z storable_JStr storable_atom storable_JObj storable_JList

lemma members_okI: "list_all (\<lambda>(k, v). storable k v) d \<Longrightarrow> distinct (map fst d) \<Longrightarrow> no_repeats_members d \<Longrightarrow> members_ok d"
  by (simp add: members_ok_def)

lemma created_ok:
  assumes "members_ok approval"
  shows "demo_ok (created approval)"
proof -
  have "members_ok (demo_leg approval)"
    by (rule members_okI) (use assms in \<open>simp_all add: demo_leg_def demo_facts members_ok_def\<close>)
  moreover have "members_ok demo_weekly"
    by (rule members_okI) (simp_all add: demo_weekly_def demo_facts plain_words [simplified])
  moreover have "members_ok demo_enqueue" by (rule members_okI) (simp_all add: demo_enqueue_def demo_facts)
  ultimately show ?thesis
    by (simp add: demo_ok_def created_def demo_facts demo_enqueue_normal accepted_event_def valid_leg_def PROVIDER_RESULTS_def)
      (simp add: members_ok_def demo_facts demo_leg_def PROVIDER_RESULTS_def)
qed

lemma claimed_ok:
  assumes "members_ok approval"
  shows "demo_ok (claimed approval)"
  using created_ok [OF assms]
  by (simp add: demo_ok_def claimed_def created_def)
    (simp add: demo_facts claim_dict_def first_claim_def accepted_event_def)

lemma dset_eval:
  "dset k v [] = [(k, v)]" "dset k v ((j, w) # d) = (if j = k then (k, v) # d else (j, w) # dset k v d)"
  by (simp_all add: dset_def)

lemmas claim_eval = demo_enqueue_normal dset_eval claim_mutation_def media_review_allows_distribution_def doc_has ensure_doc sub_dict_def doc_gets doc_attempt
  takeover_def doc_leg require_demo token_facts iso_after_demo attempt_name_def int_or_0_JInt Let_def doc_sets doc_event present_def
  demo_attempt_def claim_dict_def

lemma claim_step:
  "claim_mutation demo_env (demo_call 10 ''claim-1'') demo_sha ''worker'' ''run-1'' 600 None (doc_of (created approval))
   = Inr (Some first_claim, doc_of ((claimed approval)\<lparr>dm_updated := 0\<rparr>))"
  by (simp add: claim_eval created_def claimed_def first_claim_def demo_leg_def open_mutation_def)

lemma run_claim:
  assumes "members_ok approval"
  shows "run_update demo_env (demo_call 10 ''claim-1'') demo_sha
     (claim_mutation demo_env (demo_call 10 ''claim-1'') demo_sha ''worker'' ''run-1'' 600) None (doc_of (created approval))
     = Inr (Some first_claim, doc_of (claimed approval))"
proof -
  have eq: "(claimed approval)\<lparr>dm_updated := 0, dm_updated := 10\<rparr> = claimed approval" by (simp add: claimed_def)
  show ?thesis
    using run_claim_doc [OF created_ok [OF assms] claim_step] claimed_ok [OF assms] unfolding eq by simp
qed

section \<open>The claim again, later\<close>

text \<open>At 700 seconds the lease has ended; the item may have an open mutation by then.\<close>

definition second_claim :: "bool \<Rightarrow> outbox_claim" where
  "second_claim read_only = \<lparr>ob_id = demo_sha, ob_owner = ''worker'', ob_claim_id = ''claim-2'', ob_execution = ''run-2'',
     ob_token = 2, ob_lease = iso_z (micros 1300), ob_read_only = read_only, ob_attempt = ''attempt''\<rparr>"

definition reclaimed :: "bool \<Rightarrow> demo \<Rightarrow> demo" where
  "reclaimed read_only m =
     (let state = (if read_only then ''reconciling'' else ''claimed'')
      in m\<lparr>dm_state := state, dm_claim := JObj (claim_dict (second_claim read_only) (micros 700)), dm_fence := 2,
        dm_count := dm_count m + 1, dm_updated := 700, dm_attempt_state := state, dm_events := dm_events m @
        [JObj [(''sequence'', JInt (int (length (dm_events m)) + 1)), (''event_type'', JStr state), (''at'', JStr (iso_z (micros 700))),
          (''state'', JStr state), (''owner'', JStr ''worker''), (''claim_id'', JStr ''claim-2''),
          (''execution_id'', JStr ''run-2''), (''fencing_token'', JInt 2), (''lease_expires_at'', JStr (iso_z (micros 1300)))]]\<rparr>)"

lemma reclaimed_ok: "demo_ok m \<Longrightarrow> demo_ok (reclaimed r m)"
  by (simp add: demo_ok_def reclaimed_def Let_def)
    (simp add: demo_facts claim_dict_def second_claim_def no_repeats_items_append)

lemma reclaim:
  assumes "demo_ok m" "dm_claim m = JObj (claim_dict first_claim (micros 10))" "dm_fence m = 1"
  shows "run_update demo_env (demo_call 700 ''claim-2'') demo_sha
     (claim_mutation demo_env (demo_call 700 ''claim-2'') demo_sha ''worker'' ''run-2'' 600) None (doc_of m)
     = Inr (Some (second_claim (open_mutation (JObj (dm_leg m)))), doc_of (reclaimed (open_mutation (JObj (dm_leg m))) m))"
proof -
  let ?r = "open_mutation (JObj (dm_leg m))"
  have normal: "normal_enqueue (dm_enqueue m) = dm_enqueue m" using assms(1) by (simp add: demo_ok_def)
  have "claim_mutation demo_env (demo_call 700 ''claim-2'') demo_sha ''worker'' ''run-2'' 600 None (doc_of m)
     = Inr (Some (second_claim ?r), doc_of ((reclaimed ?r m)\<lparr>dm_updated := dm_updated m\<rparr>))"
    using normal
    by (cases ?r; cases m) (use assms(2,3) in \<open>simp_all add: claim_eval reclaimed_def second_claim_def first_claim_def parse_demo micros_arith\<close>)
  moreover have "(reclaimed ?r m)\<lparr>dm_updated := dm_updated m, dm_updated := 700\<rparr> = reclaimed ?r m"
    by (simp add: reclaimed_def Let_def)
  moreover have "demo_ok (reclaimed ?r m)" by (rule reclaimed_ok [OF assms(1)])
  ultimately show ?thesis
    by (metis run_claim_doc [OF assms(1)])
qed

section \<open>Operations under the first claim\<close>

definition held :: "demo \<Rightarrow> bool" where
  "held m = (demo_ok m \<and> dm_claim m = JObj (claim_dict first_claim (micros 10)) \<and> dm_fence m = 1)"

lemma held_claimed: "members_ok approval \<Longrightarrow> held (claimed approval)"
  by (simp add: held_def claimed_ok) (simp add: claimed_def)

lemma require_held:
  assumes "held m" "0 \<le> t" "t < 610"
  shows "require_claim demo_env (micros t) (doc_of m) first_claim b = Inr ()"
proof -
  have "dget (demo_attempt m) ''authz_source'' = JStr ''initial_enqueue''" by (simp add: demo_attempt_def)
  then show ?thesis
    using assms
    by (simp add: held_def require_claim_def may_mutate_def claim_is_current_def sub_dict_def doc_gets claim_dict_def
        first_claim_def parse_demo micros_arith media_review_allows_distribution_def doc_has doc_attempt)
qed

text \<open>An operation of the first worker: the claim stays, the leg, the state and the event log change.\<close>

definition worked :: "string \<Rightarrow> int \<Rightarrow> dict \<Rightarrow> dict \<Rightarrow> demo \<Rightarrow> demo" where
  "worked state t event leg m =
     m\<lparr>dm_state := state, dm_leg := leg, dm_updated := t, dm_attempt_state := state, dm_events := dm_events m @
       [JObj ([(''sequence'', JInt (int (length (dm_events m)) + 1)), (''event_type'', JStr state), (''at'', JStr (iso_z (micros t))),
         (''state'', JStr state)] @ event)]\<rparr>"

definition event_ok :: "dict \<Rightarrow> bool" where
  "event_ok event = (list_all (\<lambda>(k, v). storable k v \<and> k \<notin> {''sequence'', ''event_type'', ''at'', ''state''} \<and> v \<noteq> JNull) event
     \<and> no_repeats (JObj event))"

lemma worked_ok:
  assumes "demo_ok m" "plain_string state" "members_ok leg" "valid_leg (JObj leg)" "event_ok event"
  shows "demo_ok (worked state t event leg m)"
  using assms
  by (auto simp: demo_ok_def worked_def event_ok_def demo_facts no_repeats_items_append list_all_iff intro!: storable_JObj)

lemma held_worked: "held m \<Longrightarrow> demo_ok (worked state t event leg m) \<Longrightarrow> held (worked state t event leg m)"
  by (simp add: held_def worked_def)

lemma doc_logged:
  assumes "event_ok event"
  shows "log_event state (iso_z (micros t)) event (dset ''state'' (JStr state) (with_leg ''youtube'' leg (doc_of m)))
     = Inr (doc_of ((worked state t event leg m)\<lparr>dm_updated := dm_updated m\<rparr>))"
proof -
  have "present event = event" using assms by (auto simp: present_def event_ok_def list_all_iff intro!: filter_True)
  moreover have "dupdate [(''sequence'', x), (''event_type'', y), (''at'', z), (''state'', w)] event
    = [(''sequence'', x), (''event_type'', y), (''at'', z), (''state'', w)] @ event" for x y z w
    by (rule dupdate_fresh) (use assms in \<open>force simp: event_ok_def list_all_iff\<close>)
  ultimately show ?thesis by (cases m) (simp add: doc_leg doc_sets doc_event worked_def)
qed

lemma worked_step:
  assumes "held m" "op_mutation demo_env (demo_call t u) demo_sha op (doc_of m)
      = Inr (doc_of ((worked state t event leg m)\<lparr>dm_updated := dm_updated m\<rparr>))" "demo_ok (worked state t event leg m)"
  shows "outbox_step demo_env demo_sha (doc_of m) (doc_of (worked state t event leg m))"
proof -
  have "(worked state t event leg m)\<lparr>dm_updated := dm_updated m, dm_updated := t\<rparr> = worked state t event leg m"
    by (simp add: worked_def)
  then show ?thesis using op_doc [of m t u op] assms by (metis held_def)
qed


section \<open>Upload, receipt, promotion\<close>

definition demo_intent :: "string \<Rightarrow> string \<Rightarrow> string \<Rightarrow> int \<Rightarrow> dict" where
  "demo_intent u operation kind t =
     [(''intent_id'', JStr u), (''provider'', JStr ''youtube''), (''operation'', JStr operation), (''operation_type'', JStr kind),
      (''created_at'', JStr (iso_z (micros t))), (''created_fence'', JInt 1), (''consumed_at'', JNull), (''consumed_fence'', JNull),
      (''consumed_owner'', JNull), (''consumed_attempt_id'', JNull), (''expected_provider_item_id'', JStr ''vid''),
      (''precondition_fingerprint'', JNull)]"

definition spent_intent :: "string \<Rightarrow> string \<Rightarrow> string \<Rightarrow> int \<Rightarrow> int \<Rightarrow> dict" where
  "spent_intent u operation kind t used =
     [(''intent_id'', JStr u), (''provider'', JStr ''youtube''), (''operation'', JStr operation), (''operation_type'', JStr kind),
      (''created_at'', JStr (iso_z (micros t))), (''created_fence'', JInt 1), (''consumed_at'', JStr (iso_z (micros used))),
      (''consumed_fence'', JInt 1), (''consumed_owner'', JStr ''worker''), (''consumed_attempt_id'', JStr ''attempt''),
      (''expected_provider_item_id'', JStr ''vid''), (''precondition_fingerprint'', JNull)]"

definition demo_receipt :: dict where
  "demo_receipt =
     [(''receipt_id'', JStr ''receipt-1''), (''intent_id'', JStr ''intent-1''), (''provider'', JStr ''youtube''),
      (''operation'', JStr ''upload''), (''operation_type'', JStr ''create''), (''attempt_id'', JStr ''attempt''),
      (''consumed_owner'', JStr ''worker''), (''at'', JStr (iso_z (micros 40))), (''fencing_token'', JInt 1),
      (''transport_class'', JStr ''accepted''), (''provider_item_id'', JStr ''vid''), (''native_state'', JNull),
      (''ambiguous'', JBool False), (''code'', JNull)]"

definition upload_intended :: "dict \<Rightarrow> dict" where
  "upload_intended approval = dset ''intent'' (JObj (demo_intent ''intent-1'' ''upload'' ''create'' 20)) (demo_leg approval)"

definition upload_started :: "dict \<Rightarrow> dict" where
  "upload_started approval = dset ''intent'' (JObj (spent_intent ''intent-1'' ''upload'' ''create'' 20 30)) (demo_leg approval)"

definition upload_accepted :: "dict \<Rightarrow> dict" where
  "upload_accepted approval = dset ''receipts'' (JList [JObj demo_receipt]) (upload_started approval)"

definition promotion_intended :: "dict \<Rightarrow> dict" where
  "promotion_intended approval = dset ''intent'' (JObj (demo_intent ''intent-2'' ''public_promotion'' ''publish'' 50))
     (dset ''intent_history'' (JList [JObj (spent_intent ''intent-1'' ''upload'' ''create'' 20 30)]) (upload_accepted approval))"

definition promotion_started :: "dict \<Rightarrow> dict" where
  "promotion_started approval = dset ''intent'' (JObj (spent_intent ''intent-2'' ''public_promotion'' ''publish'' 50 60))
     (promotion_intended approval)"

lemma stored_intents:
  assumes "plain_string u" "plain_string operation" "plain_string kind"
  shows "storable k (JObj (demo_intent u operation kind t)) = (\<not> unsafe_key k)"
    "storable k (JObj (spent_intent u operation kind t s)) = (\<not> unsafe_key k)"
    "no_repeats (JObj (demo_intent u operation kind t))" "no_repeats (JObj (spent_intent u operation kind t s))"
proof -
  have "\<not> unsafe_key k" if "storable k (JObj d)" for d
    using that by (auto simp: storable_def unsafe_value_def split: if_splits)
  then show "storable k (JObj (demo_intent u operation kind t)) = (\<not> unsafe_key k)"
    "storable k (JObj (spent_intent u operation kind t s)) = (\<not> unsafe_key k)"
    by (auto simp: demo_intent_def spent_intent_def demo_facts assms intro!: storable_JObj)
qed (simp_all add: demo_intent_def spent_intent_def)

lemma stored_receipt: "\<not> unsafe_key k \<Longrightarrow> storable k (JObj demo_receipt)" "no_repeats (JObj demo_receipt)"
  by (simp_all add: demo_receipt_def demo_facts)

lemmas leg_defs = demo_leg_def upload_intended_def upload_started_def upload_accepted_def promotion_intended_def promotion_started_def

lemma legs_ok:
  assumes "members_ok approval"
  shows "members_ok (upload_intended approval)" "members_ok (upload_started approval)" "members_ok (upload_accepted approval)"
    "members_ok (promotion_intended approval)" "members_ok (promotion_started approval)"
proof -
  note ok = assms [unfolded members_ok_def]
  show "members_ok (upload_intended approval)" "members_ok (upload_started approval)" "members_ok (upload_accepted approval)"
    "members_ok (promotion_intended approval)" "members_ok (promotion_started approval)"
    by (rule members_okI;
        use ok in \<open>simp add: leg_defs dset_eval stored_intents stored_intents(3,4) [simplified] stored_receipt stored_receipt(2) [simplified]
          demo_facts\<close>)+
qed

lemma more_tokens:
  "list_all (\<lambda>s. is_token s \<and> py_strip s = s \<and> plain_string s) [''intent_persisted'', ''mutating'', ''receipt_persisted'']"
  by code_simp

text \<open>The five states of the item on the way, and the operations between them.\<close>

definition intended :: "dict \<Rightarrow> demo" where
  "intended approval = worked ''intent_persisted'' 20 [(''provider'', JStr ''youtube''), (''intent_id'', JStr ''intent-1'')]
     (upload_intended approval) (claimed approval)"

definition started :: "dict \<Rightarrow> demo" where
  "started approval = worked ''mutating'' 30 [(''provider'', JStr ''youtube''), (''intent_id'', JStr ''intent-1''),
     (''intent'', JObj (spent_intent ''intent-1'' ''upload'' ''create'' 20 30))] (upload_started approval) (intended approval)"

definition accepted :: "dict \<Rightarrow> demo" where
  "accepted approval = worked ''receipt_persisted'' 40 [(''provider'', JStr ''youtube''), (''receipt_id'', JStr ''receipt-1''),
     (''receipt'', JObj demo_receipt)] (upload_accepted approval) (started approval)"

definition promoting :: "dict \<Rightarrow> demo" where
  "promoting approval = worked ''intent_persisted'' 50 [(''provider'', JStr ''youtube''), (''intent_id'', JStr ''intent-2'')]
     (promotion_intended approval) (accepted approval)"

definition promoted :: "dict \<Rightarrow> demo" where
  "promoted approval = worked ''mutating'' 60 [(''provider'', JStr ''youtube''), (''intent_id'', JStr ''intent-2''),
     (''intent'', JObj (spent_intent ''intent-2'' ''public_promotion'' ''publish'' 50 60))]
     (promotion_started approval) (promoting approval)"

lemma events_ok:
  "event_ok [(''provider'', JStr ''youtube''), (''intent_id'', JStr ''intent-1'')]"
  "event_ok [(''provider'', JStr ''youtube''), (''intent_id'', JStr ''intent-2'')]"
  "event_ok [(''provider'', JStr ''youtube''), (''receipt_id'', JStr ''receipt-1''), (''receipt'', JObj demo_receipt)]"
  "event_ok [(''provider'', JStr ''youtube''), (''intent_id'', JStr ''intent-1''),
     (''intent'', JObj (spent_intent ''intent-1'' ''upload'' ''create'' 20 30))]"
  "event_ok [(''provider'', JStr ''youtube''), (''intent_id'', JStr ''intent-2''),
     (''intent'', JObj (spent_intent ''intent-2'' ''public_promotion'' ''publish'' 50 60))]"
  by (simp_all add: event_ok_def demo_facts stored_receipt stored_receipt(2) [simplified] stored_intents stored_intents(3,4) [simplified])

lemma legs_valid:
  "valid_leg (JObj (upload_intended approval))" "valid_leg (JObj (upload_started approval))"
  "valid_leg (JObj (upload_accepted approval))" "valid_leg (JObj (promotion_intended approval))"
  "valid_leg (JObj (promotion_started approval))"
  by (simp_all add: valid_leg_def PROVIDER_RESULTS_def leg_defs)

lemma states_held:
  assumes "members_ok approval"
  shows "held (intended approval)" "held (started approval)" "held (accepted approval)" "held (promoting approval)"
    "held (promoted approval)"
proof -
  note facts = more_tokens [simplified] legs_ok [OF assms] legs_valid events_ok
  show 1: "held (intended approval)"
    unfolding intended_def using held_claimed [OF assms] facts by (intro held_worked worked_ok) (simp_all add: held_def)
  show 2: "held (started approval)"
    unfolding started_def using 1 facts by (intro held_worked worked_ok) (simp_all add: held_def)
  show 3: "held (accepted approval)"
    unfolding accepted_def using 2 facts by (intro held_worked worked_ok) (simp_all add: held_def)
  show 4: "held (promoting approval)"
    unfolding promoting_def using 3 facts by (intro held_worked worked_ok) (simp_all add: held_def)
  show "held (promoted approval)"
    unfolding promoted_def using 4 facts by (intro held_worked worked_ok) (simp_all add: held_def)
qed

section \<open>Each operation computed\<close>

lemma claimed_leg: "dm_leg (claimed a) = demo_leg a" by (simp add: claimed_def created_def)
lemma worked_leg: "dm_leg (worked s t e l m) = l" by (simp add: worked_def)

lemma first_claim_simps: "ob_token first_claim = 1" "ob_owner first_claim = ''worker''" "ob_attempt first_claim = ''attempt''"
  by (simp_all add: first_claim_def)

lemma attempt_source: "dget (demo_attempt m) ''authz_source'' = JStr ''initial_enqueue''" by (simp add: demo_attempt_def)

lemma provider_leg_doc: "provider_leg (doc_of m) ''youtube'' = Inr (dm_leg m)"
  by (simp add: provider_leg_def doc_leg)

lemma with_leg_again: "dset ''intent'' v (dset ''intent'' w leg) = dset ''intent'' v leg"
  by (induction leg) (auto simp: dset_def)

lemma leg_gets:
  "dget (demo_leg a) ''intent'' = JNull"
  "dget (upload_intended a) ''intent'' = JObj (demo_intent ''intent-1'' ''upload'' ''create'' 20)"
  "dget (upload_started a) ''intent'' = JObj (spent_intent ''intent-1'' ''upload'' ''create'' 20 30)"
  "dget (upload_accepted a) ''intent'' = JObj (spent_intent ''intent-1'' ''upload'' ''create'' 20 30)"
  "dget (promotion_intended a) ''intent'' = JObj (demo_intent ''intent-2'' ''public_promotion'' ''publish'' 50)"
  "dget (promotion_started a) ''intent'' = JObj (spent_intent ''intent-2'' ''public_promotion'' ''publish'' 50 60)"
  "dget (upload_accepted a) ''receipts'' = JList [JObj demo_receipt]"
  "dget_or (upload_started a) ''receipts'' (JList []) = JList []"
  "dindex (upload_started a) ''receipts'' = Inr (JList [])"
  "dget_or (upload_accepted a) ''intent_history'' (JList []) = JList []"
  by (simp_all add: leg_defs dget_or_def dindex_def)

lemma start_intent:
  "dupdate (demo_intent u operation kind t)
     [(''consumed_at'', JStr (iso_z (micros s))), (''consumed_fence'', JInt 1), (''consumed_owner'', JStr ''worker''),
      (''consumed_attempt_id'', JStr ''attempt'')] = spent_intent u operation kind t s"
  "dget (demo_intent u operation kind t) ''consumed_at'' = JNull"
  "truthy (dget (spent_intent u operation kind t s) ''consumed_at'')"
  "dget (spent_intent u operation kind t s) ''operation'' = JStr operation"
  "dindex (spent_intent u operation kind t s) ''intent_id'' = Inr (JStr u)"
  "dindex (spent_intent u operation kind t s) ''operation'' = Inr (JStr operation)"
  "dindex (spent_intent u operation kind t s) ''operation_type'' = Inr (JStr kind)"
  "dindex (spent_intent u operation kind t s) ''consumed_owner'' = Inr (JStr ''worker'')"
  using iso_z_length(2) by (simp_all add: demo_intent_def spent_intent_def dset_eval dindex_def)

lemma started_leg: "dset ''intent'' (JObj (spent_intent ''intent-1'' ''upload'' ''create'' 20 30)) (upload_intended a) = upload_started a"
  by (simp add: upload_started_def upload_intended_def with_leg_again)

lemmas op_eval = document_of_def require_held provider_leg_doc doc_attempt sub_dict_def require_demo token_facts
  operation_type_def RECOVERY_MUTATION_OPERATION_TYPES_def opt_token_def nonempty_def doc_logged events_ok
  matches_recovery_def Let_def attempt_source first_claim_simps claimed_leg worked_leg leg_gets start_intent started_leg

lemma demo_intent_made:
  assumes "is_token operation" "py_strip operation = operation" "operation_type ''youtube'' operation = Inr kind"
  shows "intent_dict (demo_call t u) first_claim ''youtube'' operation (Some ''vid'') None = Inr (demo_intent u operation kind t)"
  using assms by (simp add: intent_dict_def op_eval demo_intent_def)

lemma kinds: "operation_type ''youtube'' ''upload'' = Inr ''create''" "operation_type ''youtube'' ''public_promotion'' = Inr ''publish''"
  by (simp_all add: operation_type_def RECOVERY_MUTATION_OPERATION_TYPES_def)

lemma intend_step:
  assumes "members_ok a"
  shows "op_mutation demo_env (demo_call 20 ''intent-1'') demo_sha (PersistOp first_claim ''youtube'' ''upload'' (Some ''vid'') None)
     (doc_of (claimed a)) = Inr (doc_of ((intended a)\<lparr>dm_updated := dm_updated (claimed a)\<rparr>))"
  using held_claimed [OF assms]
  by (simp add: op_eval persist_mutation_def demo_intent_made kinds flip: upload_intended_def intended_def)
    (simp add: demo_intent_def op_eval flip: upload_intended_def intended_def)

lemma state_legs:
  "dm_leg (intended a) = upload_intended a" "dm_leg (started a) = upload_started a" "dm_leg (accepted a) = upload_accepted a"
  "dm_leg (promoting a) = promotion_intended a" "dm_leg (promoted a) = promotion_started a"
  by (simp_all add: intended_def started_def accepted_def promoting_def promoted_def worked_leg)

lemma held_lease: "held m \<Longrightarrow> dget (doc_of m) ''claim'' = JObj (claim_dict first_claim (micros 10))"
  "dget (claim_dict first_claim (micros 10)) ''lease_expires_at'' = JStr (iso_z (micros 610))"
  by (simp_all add: held_def doc_gets claim_dict_def first_claim_def)

lemma start_step:
  assumes "members_ok a"
  shows "op_mutation demo_env (demo_call 30 u) demo_sha (ConsumeOp first_claim ''youtube'' 60 60)
     (doc_of (intended a)) = Inr (doc_of ((started a)\<lparr>dm_updated := dm_updated (intended a)\<rparr>))"
  using states_held(1) [OF assms]
  by (simp add: op_eval consume_mutation_def state_legs held_lease parse_printed valid_micros micros_arith del: dupdate_Cons flip: started_def)

lemma accept_step:
  assumes "members_ok a"
  shows "op_mutation demo_env (demo_call 40 ''receipt-1'') demo_sha
     (ReceiptOp first_claim ''youtube'' \<lparr>rq_transport = ''accepted'', rq_item = Some ''vid'', rq_native = None, rq_ambiguous = False, rq_code = None\<rparr>)
     (doc_of (started a)) = Inr (doc_of ((accepted a)\<lparr>dm_updated := dm_updated (started a)\<rparr>))"
proof -
  have "receipt_dict (demo_call 40 ''receipt-1'') first_claim ''youtube'' (spent_intent ''intent-1'' ''upload'' ''create'' 20 30)
     \<lparr>rq_transport = ''accepted'', rq_item = Some ''vid'', rq_native = None, rq_ambiguous = False, rq_code = None\<rparr> = Inr demo_receipt"
    by (simp add: receipt_dict_def op_eval demo_receipt_def)
  then show ?thesis using states_held(2) [OF assms]
    by (simp add: op_eval receipt_mutation_def append_to_def state_legs flip: upload_accepted_def accepted_def)
qed

lemma demo_settled: "settled (upload_accepted a) (spent_intent ''intent-1'' ''upload'' ''create'' 20 30)"
  by (simp add: settled_def sub_list_def leg_gets settles_def demo_receipt_def spent_intent_def)

lemma promote_step:
  assumes "members_ok a"
  shows "op_mutation demo_env (demo_call 50 ''intent-2'') demo_sha (PersistOp first_claim ''youtube'' ''public_promotion'' (Some ''vid'') None)
     (doc_of (accepted a)) = Inr (doc_of ((promoting a)\<lparr>dm_updated := dm_updated (accepted a)\<rparr>))"
proof -
  have id: "dget (demo_intent ''intent-2'' ''public_promotion'' ''publish'' 50) ''intent_id'' = JStr ''intent-2''"
    by (simp add: demo_intent_def)
  show ?thesis
  using states_held(3) [OF assms]
  by (simp add: op_eval persist_mutation_def demo_intent_made kinds state_legs demo_settled append_to_def id flip: promotion_intended_def promoting_def)
qed

lemma publish_step:
  assumes "members_ok a"
  shows "op_mutation demo_env (demo_call 60 u) demo_sha (ConsumeOp first_claim ''youtube'' 60 60)
     (doc_of (promoting a)) = Inr (doc_of ((promoted a)\<lparr>dm_updated := dm_updated (promoting a)\<rparr>))"
  using states_held(4) [OF assms]
  by (simp add: op_eval consume_mutation_def state_legs held_lease parse_printed valid_micros micros_arith del: dupdate_Cons
      flip: promotion_started_def promoted_def)

lemma demo_steps:
  assumes "members_ok a"
  shows "outbox_step demo_env demo_sha (doc_of (claimed a)) (doc_of (intended a))"
    "outbox_step demo_env demo_sha (doc_of (intended a)) (doc_of (started a))"
    "outbox_steps demo_env demo_sha (doc_of (started a)) (doc_of (promoted a))"
proof -
  note h = held_claimed [OF assms] states_held [OF assms]
  note ok = h [unfolded held_def, THEN conjunct1]
  show "outbox_step demo_env demo_sha (doc_of (claimed a)) (doc_of (intended a))"
    using worked_step [OF h(1)] intend_step [OF assms] ok unfolding intended_def by blast
  show "outbox_step demo_env demo_sha (doc_of (intended a)) (doc_of (started a))"
    using worked_step [OF h(2)] start_step [OF assms] ok unfolding started_def by blast
  have "outbox_step demo_env demo_sha (doc_of (started a)) (doc_of (accepted a))"
    using worked_step [OF h(3)] accept_step [OF assms] ok unfolding accepted_def by blast
  moreover have "outbox_step demo_env demo_sha (doc_of (accepted a)) (doc_of (promoting a))"
    using worked_step [OF h(4)] promote_step [OF assms] ok unfolding promoting_def by blast
  moreover have "outbox_step demo_env demo_sha (doc_of (promoting a)) (doc_of (promoted a))"
    using worked_step [OF h(5)] publish_step [OF assms] ok unfolding promoted_def by blast
  ultimately show "outbox_steps demo_env demo_sha (doc_of (started a)) (doc_of (promoted a))"
    by (meson converse_rtranclp_into_rtranclp r_into_rtranclp)
qed

section \<open>Dispatches\<close>

definition human_approval :: dict where
  "human_approval = [(''approved'', JBool True), (''approved_by'', JStr ''ana''), (''approved_at'', JStr (iso_z (micros 5))),
     (''source'', JStr ''manifest_human_review''), (''publication_digest'', JStr demo_sha), (''manifest_sha256'', JStr demo_sha)]"

lemma human_approval_ok: "members_ok human_approval"
  by (rule members_okI) (simp_all add: human_approval_def demo_facts)

definition demo_store :: "demo \<Rightarrow> store" where
  "demo_store m = (\<lambda>p. if p = ''distribution-outbox/'' @ demo_sha @ ''.json'' then Some (Doc (JObj (doc_of m))) else None)"

lemma demo_path: "outbox_path demo_sha = Inr (''distribution-outbox/'' @ demo_sha @ ''.json'')"
  by (simp add: outbox_path_def demo_sha_facts)

lemma demo_read: "demo_ok m \<Longrightarrow> read_outbox demo_env c demo_sha (demo_store m) = Inr (Some (doc_of m))"
  by (simp add: read_outbox_def demo_path demo_store_def opened_doc)

lemma demo_media: "canonical_media_ok demo_env (doc_of m) = Inr True"
proof -
  have "dindex (doc_of m) ''publication_digest'' = Inr (JStr demo_sha)" by (simp add: doc_of_def dindex_def)
  then show ?thesis
    by (simp add: canonical_media_ok_def sub_dict_def doc_gets dindex_def demo_canonical_def artifact_dict_def demo_artifact_def
        publication_digest_def Let_def)
qed

lemma human_name: "system_name ''ana'' = False" by code_simp

lemma demo_approved:
  assumes "dget (dm_leg m) ''approval'' = JObj human_approval"
  shows "provider_approval_is_valid demo_env (doc_of m) ''youtube'' = Inr True"
  using assms
  by (simp add: provider_approval_is_valid_def sub_dict_def doc_gets doc_leg human_approval_def approval_time_def parse_printed
      valid_micros approved_by_human_def human_name identity_dict_def demo_identity_def)

lemma leg_window:
  "dget (upload_started a) ''verification_horizon_at'' = JStr (iso_z (micros 86400))"
  "dget (upload_started a) ''verification_attempt'' = JInt 0" "dget (upload_started a) ''verification_budget'' = JInt 8"
  "dget (upload_started a) ''approval'' = JObj a"
  "dget (promotion_started a) ''verification_horizon_at'' = JStr (iso_z (micros 86400))"
  "dget (promotion_started a) ''verification_attempt'' = JInt 0" "dget (promotion_started a) ''verification_budget'' = JInt 8"
  "dget (promotion_started a) ''approval'' = JObj a"
  by (simp_all add: leg_defs)

lemma owned_intent:
  "sub_dict leg ''intent'' = Some (spent_intent u operation kind t s) \<Longrightarrow> owns_operation first_claim leg operation"
  using iso_z_length(2) by (simp add: owns_operation_def spent_intent_def first_claim_simps)

lemma demo_dispatches:
  "\<exists>r. authorize_dispatch demo_env (demo_call 30 []) first_claim ''youtube'' (Some ''upload'') True
     (demo_store (started human_approval)) = Inr r"
  "\<exists>r. authorize_dispatch demo_env (demo_call 60 []) first_claim ''youtube'' (Some ''public_promotion'') True
     (demo_store (promoted human_approval)) = Inr r"
proof -
  note h = states_held [OF human_approval_ok]
  note ok = h [unfolded held_def, THEN conjunct1]
  have id: "ob_id first_claim = demo_sha" by (simp add: first_claim_def)
  note eval = authorize_dispatch_def id demo_read ok require_held h demo_media provider_leg_doc demo_approved state_legs leg_window
    window_exhausted_def parse_printed valid_micros micros_arith int_or_0_JInt owned_intent sub_dict_def leg_gets
  show "\<exists>r. authorize_dispatch demo_env (demo_call 30 []) first_claim ''youtube'' (Some ''upload'') True
     (demo_store (started human_approval)) = Inr r" by (simp add: eval)
  show "\<exists>r. authorize_dispatch demo_env (demo_call 60 []) first_claim ''youtube'' (Some ''public_promotion'') True
     (demo_store (promoted human_approval)) = Inr r" by (simp add: eval)
qed

theorem dispatches_are_settled_between_witness:
  "\<exists>leg1 intent leg2. leg_of (doc_of (started human_approval)) ''youtube'' = Some leg1 \<and> owns_operation first_claim leg1 ''upload''
     \<and> sub_dict leg1 ''intent'' = Some intent \<and> leg_of (doc_of (promoted human_approval)) ''youtube'' = Some leg2 \<and> settled leg2 intent"
proof -
  obtain r1 r2 where r: "authorize_dispatch demo_env (demo_call 30 []) first_claim ''youtube'' (Some ''upload'') True
     (demo_store (started human_approval)) = Inr r1"
    "authorize_dispatch demo_env (demo_call 60 []) first_claim ''youtube'' (Some ''public_promotion'') True
     (demo_store (promoted human_approval)) = Inr r2" using demo_dispatches by blast
  have id: "ob_id first_claim = demo_sha" by (simp add: first_claim_def)
  show ?thesis
    by (rule dispatches_are_settled_between [OF _ refl _ r(1) _ _ r(2)])
      (simp_all add: id demo_path demo_store_def demo_steps human_approval_ok)
qed

theorem takeover_claim_cannot_mutate_witness:
  "\<exists>k. ob_read_only k \<and> (\<forall>env c p operation io st r. authorize_dispatch env c k p (Some operation) io st \<noteq> Inr r)"
proof -
  have leg: "dm_leg (started human_approval) = upload_started human_approval" by (rule state_legs)
  have "open_mutation (JObj (upload_started human_approval))"
    by (simp add: open_mutation_def sub_dict_def leg_gets start_intent settled_def sub_list_def) (simp add: leg_defs)
  moreover have "held (started human_approval)" by (rule states_held [OF human_approval_ok])
  ultimately show ?thesis
    using takeover_claim_cannot_mutate [OF reclaim [of "started human_approval"]] doc_leg(1) leg by (metis held_def)
qed

theorem superseded_claim_is_fenced_witness:
  "\<forall>d. apply_op demo_env (demo_call 710 []) demo_sha (HeartbeatOp first_claim 600) (doc_of (reclaimed False (claimed []))) \<noteq> Inr d"
proof -
  have approval: "members_ok []" by (simp add: members_ok_def)
  have closed: "\<not> open_mutation (JObj (dm_leg (claimed [])))" by (simp add: claimed_leg open_mutation_def sub_dict_def leg_gets)
  have again: "run_update demo_env (demo_call 700 ''claim-2'') demo_sha
     (claim_mutation demo_env (demo_call 700 ''claim-2'') demo_sha ''worker'' ''run-2'' 600) None (doc_of (claimed []))
     = Inr (Some (second_claim False), doc_of (reclaimed False (claimed [])))"
    using reclaim [of "claimed []"] held_claimed [OF approval] closed by (simp add: held_def)
  have id: "ob_id first_claim = demo_sha" by (simp add: first_claim_def)
  show ?thesis
    using superseded_claim_is_fenced [OF run_claim [OF approval] rtranclp.rtrancl_refl again rtranclp.rtrancl_refl,
        where op = "HeartbeatOp first_claim 600" and st = "demo_store (reclaimed False (claimed []))"]
    by (simp add: id demo_path demo_store_def)
qed

section \<open>From creation to a verified publication\<close>

definition demo_request :: enqueue_request where
  "demo_request = \<lparr>nq_identity = demo_identity, nq_artifact = demo_artifact, nq_objectives = [(''youtube'', ''public'')],
     nq_source = ''worker'', nq_version = ''v1'', nq_ownership = None, nq_authorize = Inr (), nq_approvals = [], nq_contexts = [],
     nq_await_review = False\<rparr>"

definition no_approval :: dict where
  "no_approval = denied_approval demo_sha demo_sha"

lemma no_approval_ok: "members_ok no_approval"
  by (rule members_okI) (simp_all add: no_approval_def denied_approval_def demo_facts)

lemma demo_identity_dicts:
  "identity_dict demo_identity = [(''accepted_job_id'', JStr ''job''), (''week'', JStr ''2026-W01''), (''publish_run_id'', JStr ''run''),
      (''article_sha256'', JStr demo_sha), (''manifest_sha256'', JStr demo_sha)]"
  "artifact_dict demo_artifact = [(''path'', JStr ''video.mp4''), (''sha256'', JStr demo_sha), (''size_bytes'', JInt 10),
      (''media_kind'', JStr ''video'')]"
  by (simp_all add: identity_dict_def demo_identity_def artifact_dict_def demo_artifact_def)

definition fresh_demo_leg :: dict where
  "fresh_demo_leg =
     [(''objective'', JStr ''public''), (''approval'', JObj no_approval), (''context'', JObj []), (''result'', JStr ''pending_provider''),
      (''intent'', JNull), (''receipts'', JList []), (''verification'', JNull), (''next_reconcile_at'', JNull),
      (''verification_attempt'', JInt 0), (''verification_budget'', JInt 8),
      (''verification_horizon_at'', JStr (iso_z (micros 86400))), (''active_schedule_token'', JNull),
      (''active_schedule_source'', JNull), (''schedule_notification_token'', JNull), (''schedule_notification_sent_at'', JNull),
      (''notification_reservation'', JNull)]"

definition demo_raw :: dict where
  "demo_raw =
     [(''schema_version'', JStr OUTBOX_SCHEMA_VERSION), (''outbox_id'', JStr demo_sha),
      (''publication_identity'', JObj (identity_dict demo_identity)), (''artifact'', JObj (artifact_dict demo_artifact)),
      (''provider_objectives'', JObj [(''youtube'', JStr ''public'')]), (''enqueue'', JObj demo_enqueue), (''source_ownership'', JNull),
      (''state'', JStr ''pending''), (''claim'', JNull), (''fencing_token'', JInt 0), (''attempt_count'', JInt 0),
      (''providers'', JObj [(''youtube'', JObj fresh_demo_leg)]),
      (''aggregate'', JObj [(''result'', JStr ''pending_provider''), (''externally_verified_public'', JBool False), (''terminal_reason'', JNull)]),
      (''created_at'', JStr (iso_z (micros 0))), (''updated_at'', JStr (iso_z (micros 0)))]"

lemma ensure_raw:
  "ensure_truth_fields demo_env (demo_call 0 ''attempt'') demo_raw = Inr (doc_of ((created no_approval)\<lparr>dm_leg := fresh_demo_leg\<rparr>))"
proof -
  have member: "\<not> malformed_collection demo_raw" "attempts_of demo_raw = []" "\<not> malformed_member demo_raw"
    "sub_dict demo_raw ''publication_identity'' = Some (identity_dict demo_identity)"
    "sub_dict demo_raw ''artifact'' = Some (artifact_dict demo_artifact)"
    by (simp_all add: malformed_collection_def attempts_of_def malformed_member_def sub_list_def sub_dict_def demo_raw_def)
  have canonical: "canonical_default demo_env (artifact_dict demo_artifact) = demo_canonical"
    by (simp add: canonical_default_def demo_identity_dicts str_or_def demo_sha_facts demo_canonical_def)
  have digest: "publication_digest demo_env i a = demo_sha" for i a by (simp add: publication_digest_def)
  define d1 where "d1 = dsetdefault ''canonical_artifact'' (JObj demo_canonical) (dsetdefault ''publication_digest'' (JStr demo_sha) demo_raw)"
  have d1: "d1 = demo_raw @ [(''publication_digest'', JStr demo_sha), (''canonical_artifact'', JObj demo_canonical)]"
    by (simp add: d1_def demo_raw_def dsetdefault_def dset_eval)
  have d2: "with_attempts demo_env (demo_call 0 ''attempt'') d1
    = d1 @ [(''attempts'', JList [JObj (demo_attempt (created no_approval))])]"
    by (simp add: with_attempts_def attempts_of_def sub_list_def d1 demo_raw_def dset_eval initial_attempt_def Let_def iso_z_length(2)
        demo_attempt_def created_def)
  have d3: "with_authz_set demo_env (d1 @ [(''attempts'', JList [JObj (demo_attempt (created no_approval))])])
    = Inr (d1 @ [(''attempts'', JList [JObj (demo_attempt (created no_approval))]), (''recovery_authz'', JList []),
       (''recovery_authz_set'', JObj demo_authz_set)])"
    by (simp add: with_authz_set_def d1 demo_raw_def dsetdefault_def dset_eval authorization_set_def demo_authz_set_def Let_def)
  define d4 where "d4 = d1 @ [(''attempts'', JList [JObj (demo_attempt (created no_approval))]), (''recovery_authz'', JList []),
       (''recovery_authz_set'', JObj demo_authz_set)]"
  have weekly: "weekly_default demo_env d4 = JObj demo_weekly"
    by (simp add: weekly_default_def d4_def d1 demo_raw_def attempts_of_def sub_list_def demo_weekly_def demo_attempt_def iso_z_length(2))
  have d5: "dsetdefault ''enqueue'' (JObj []) (dsetdefault ''weekly_aggregation'' (JObj demo_weekly) d4)
    = doc_of ((created no_approval)\<lparr>dm_leg := fresh_demo_leg\<rparr>)"
    by (simp add: dsetdefault_def dset_eval d4_def d1 demo_raw_def) (simp add: doc_of_def created_def demo_attempt_def)
  have same: "sub_dict (doc_of ((created no_approval)\<lparr>dm_leg := l\<rparr>)) ''enqueue'' = Some demo_enqueue"
    "(created no_approval)\<lparr>dm_leg := l, dm_enqueue := demo_enqueue\<rparr> = (created no_approval)\<lparr>dm_leg := l\<rparr>" for l
    by (simp_all add: sub_dict_def doc_gets created_def)
  show ?thesis
    by (simp add: ensure_truth_fields_def member canonical digest d2 d3 weekly d5 same demo_enqueue_normal doc_sets flip: d1_def d4_def)
qed

lemma demo_reconciled:
  "ensure_provider_reconciliation demo_env (micros 0 + INITIAL_RECONCILIATION_DELAY) (doc_of ((created no_approval)\<lparr>dm_leg := fresh_demo_leg\<rparr>))
   = doc_of (created no_approval)"
  by (simp add: ensure_provider_reconciliation_def sub_dict_def doc_gets reconcile_leg_def fresh_demo_leg_def schedule_token_def
      clear_notification_def dset_eval INITIAL_RECONCILIATION_DELAY_def micros_arith doc_sets created_def demo_leg_def)

lemma demo_request_simps:
  "nq_identity demo_request = demo_identity" "nq_artifact demo_request = demo_artifact" "nq_objectives demo_request = [(''youtube'', ''public'')]"
  "nq_source demo_request = ''worker''" "nq_version demo_request = ''v1''" "nq_ownership demo_request = None"
  "\<not> nq_await_review demo_request" "context_of demo_request p = []" "nq_approvals demo_request = []"
  by (simp_all add: demo_request_def context_of_def)

lemma fresh_demo: "fresh_document demo_env (demo_call 0 ''attempt'') demo_sha demo_request = Inr (doc_of (created no_approval))"
proof -
  have kind: "require_token n ''youtube'' = Inr ''youtube''" "require_token n ''public'' = Inr ''public''"
    "require_token n ''worker'' = Inr ''worker''" "require_token n ''v1'' = Inr ''v1''" for n
    by (simp_all add: require_demo token_facts)
  have safe: "safe_value [] (JObj []) = Inr (JObj [])" using safe_key by simp
  have denied: "incoming_approval demo_env demo_request p = Inr no_approval" for p
    by (simp add: incoming_approval_def demo_request_simps provider_approval_def no_approval_def publication_digest_def demo_identity_def)
  have leg: "fresh_leg demo_env (demo_call 0 ''attempt'') demo_request (''youtube'', ''public'') = Inr (''youtube'', JObj fresh_demo_leg)"
    by (simp add: fresh_leg_def kind denied demo_request_simps safe iso_after_demo fresh_demo_leg_def del: safe_value.simps)
  have "fresh_document demo_env (demo_call 0 ''attempt'') demo_sha demo_request
    = and_then (ensure_truth_fields demo_env (demo_call 0 ''attempt'') demo_raw)
        (\<lambda>doc. Inr (ensure_provider_reconciliation demo_env (micros 0 + INITIAL_RECONCILIATION_DELAY) doc))"
    by (simp add: fresh_document_def demo_request_simps leg kind safe_ownership_def objectives_dict_def dset_eval demo_raw_def demo_enqueue_def
        Let_def)
  then show ?thesis by (simp add: ensure_raw demo_reconciled)
qed
definition demo_supplied :: dict where
  "demo_supplied =
     [(''week'', JStr ''2026-W01''), (''outbox_id'', JStr demo_sha), (''accepted_job_id'', JStr ''job''), (''publish_run_id'', JStr ''run''),
      (''article_sha256'', JStr demo_sha), (''manifest_sha256'', JStr demo_sha), (''publication_digest'', JStr demo_sha),
      (''artifact_sha256'', JStr demo_sha), (''canonical_artifact_id'', JStr demo_sha), (''canonical_selection_version'', JStr ''v1''),
      (''canonical_artifact_selected'', JBool True), (''provider_item_id'', JStr ''vid''), (''provider_identity_match'', JBool True),
      (''terminal_authoritative_readback'', JBool True), (''duplicate_ambiguity_resolved'', JBool True)]"

definition demo_proof :: dict where
  "demo_proof = map (\<lambda>k. (k, JBool True)) PROOF_CHECKS @ [(''green'', JBool True), (''evidence'', JObj demo_supplied)]"

definition demo_readback :: verification_request where
  "demo_readback = \<lparr>vq_result = ''externally_verified_public'', vq_source = ''provider_readback'', vq_item = Some ''vid'',
     vq_native = Some ''public'', vq_next = None, vq_exhaustion = None, vq_proof = demo_supplied\<rparr>"

definition demo_verification :: dict where
  "demo_verification =
     [(''at'', JStr (iso_z (micros 30))), (''source'', JStr ''provider_readback''), (''provider_item_id'', JStr ''vid''),
      (''native_state'', JStr ''public''), (''result'', JStr ''externally_verified_public''), (''fencing_token'', JInt 1),
      (''exhaustion_reason'', JNull), (''proof'', JObj demo_proof)]"

definition verified_leg :: dict where
  "verified_leg = clear_schedule (dset ''next_reconcile_at'' JNull (dset ''verification_attempt'' (JInt 1)
     (dset ''result'' (JStr ''externally_verified_public'') (dset ''verification'' (JObj demo_verification) (upload_intended no_approval)))))"

definition demo_decision :: dict where
  "demo_decision =
     [(''decision_id'', JStr demo_sha), (''rule_version'', JStr ''weekly-publication-truth-v1''),
      (''evaluated_attempt_ids'', JList [JStr ''attempt'']), (''state'', JStr ''published_verified''),
      (''winning_attempt_id'', JStr ''attempt''), (''proof_references'', JList [JStr ''vid'']), (''unresolved_conditions'', JList []),
      (''decided_at'', JStr (iso_z (micros 30))), (''worker_exit_class'', JStr ''zero''), (''failed_attempt_references'', JList [])]"

definition verified :: demo where
  "verified =
     (let m = intended no_approval
      in m\<lparr>dm_leg := verified_leg, dm_aggregate := [(''result'', JStr ''completed_public''), (''externally_verified_public'', JBool True),
          (''terminal_reason'', JNull)], dm_weekly := demo_decision, dm_state := ''completed_public'', dm_updated := 30,
        dm_attempt_state := ''verifying'', dm_events := dm_events m @ [JObj [(''sequence'', JInt (int (length (dm_events m)) + 1)),
          (''event_type'', JStr ''verifying''), (''at'', JStr (iso_z (micros 30))), (''state'', JStr ''verifying''),
          (''provider'', JStr ''youtube''), (''result'', JStr ''externally_verified_public'')]]\<rparr>)"

lemma proof_names:
  "list_all plain_name [''week_match'', ''publication_identity_match'', ''manifest_match'', ''publication_digest_match'',
     ''artifact_sha256_match'', ''canonical_artifact_selected'', ''provider_identity_match'', ''terminal_authoritative_readback'',
     ''duplicate_ambiguity_resolved'', ''verification_evidence'', ''artifact_sha256'', ''canonical_artifact_id'',
     ''canonical_selection_version'']"
  by (simp add: plain_name_eval)

lemma demo_words: "plain_string ''job''" "plain_string ''2026-W01''" "plain_string ''run''"
  by code_simp+

lemma demo_evidence: "safe_value ''verification_evidence'' (JObj demo_supplied) = Inr (JObj demo_supplied)"
proof -
  have "\<not> contains ''://'' s \<and> \<not> 256 < length s" if "plain_string s" for s using that by (simp add: plain_string_def)
  then show ?thesis
    by (simp add: demo_supplied_def safe_key proof_names [THEN safe_key_of, simplified] demo_words demo_sha_facts token_facts Let_def)
qed

lemma native_public: "public_state (Some ''public'') = True" "readback_source ''provider_readback'' = True" by code_simp+

lemma demo_proved:
  "verification_proof demo_env (doc_of m) (upload_intended a) (Some ''vid'') (Some ''public'') ''provider_readback'' demo_supplied = Inr demo_proof"
proof -
  have items: "expected_items demo_env (upload_intended a) = [''vid'']"
    by (simp add: expected_items_def receipt_items_def known_item_def sub_dict_def sub_list_def leg_defs demo_intent_def)
  have "dindex (doc_of m) ''outbox_id'' = Inr (JStr demo_sha)" "dindex (doc_of m) ''publication_digest'' = Inr (JStr demo_sha)"
    by (simp_all add: doc_of_def dindex_def)
  then have "proof_checks demo_env (doc_of m) (upload_intended a) (Some ''vid'') (Some ''public'') ''provider_readback'' demo_supplied
    = Inr (map (\<lambda>k. (k, True)) PROOF_CHECKS)"
    by (simp add: proof_checks_def member_dict_def sub_dict_def doc_gets items agrees_def demo_identity_dicts dindex_def demo_supplied_def
        str_or_empty_def demo_canonical_def nonempty_def native_public PROOF_CHECKS_def)
  then show ?thesis
    by (simp add: verification_proof_def demo_evidence demo_proof_def list_all_iff del: safe_value.simps)
qed

lemma verify_step:
  "op_mutation demo_env (demo_call 30 u) demo_sha (VerifyOp first_claim ''youtube'' demo_readback) (doc_of (intended no_approval))
   = Inr (doc_of (verified\<lparr>dm_updated := dm_updated (intended no_approval)\<rparr>))"
proof -
  let ?m = "intended no_approval"
  have held: "held ?m" by (rule states_held [OF no_approval_ok])
  have green: "dget demo_proof ''green'' = JBool True" by (simp add: demo_proof_def PROOF_CHECKS_def)
  have result: "effective_result demo_readback demo_proof = ''externally_verified_public''"
    by (simp add: effective_result_def demo_readback_def green)
  have dict: "verification_dict (demo_call 30 u) first_claim demo_readback demo_proof = Inr demo_verification"
    by (simp add: verification_dict_def result) (simp add: demo_readback_def op_eval demo_verification_def)
  have proved: "verification_proof demo_env (doc_of ?m) (dm_leg ?m) (vq_item demo_readback) (vq_native demo_readback)
      (vq_source demo_readback) (vq_proof demo_readback) = Inr demo_proof"
    by (simp add: demo_readback_def state_legs demo_proved)
  have noted: "note_readback ''youtube'' v (doc_of m) = Inr (doc_of m)" for v m
    by (simp add: note_readback_def doc_attempt) (simp add: demo_attempt_def)
  have attempt: "int_or_0 (dget (upload_intended a) ''verification_attempt'') = Inr 0" for a
    by (simp add: leg_defs int_or_0_JInt)
  define m1 where "m1 = ?m\<lparr>dm_leg := verified_leg\<rparr>"
  have legs: "leg_dicts (doc_of m1) = [verified_leg]" by (simp add: leg_dicts_def doc_leg m1_def)
  have verified: "dget verified_leg ''result'' = JStr ''externally_verified_public''"
    "dget verified_leg ''verification'' = JObj demo_verification"
    by (simp_all add: verified_leg_def clear_schedule_frame)
  have public: "all_public demo_env (doc_of (m1\<lparr>dm_aggregate := g\<rparr>))" "all_public demo_env (doc_of m1)" for g
    by (simp_all add: all_public_def leg_dicts_def doc_leg m1_def leg_result_def verified verifications_def sub_dict_def proof_green_def
        member_dict_def demo_verification_def green)
  have items: "verified_items demo_env (doc_of (m1\<lparr>dm_aggregate := g\<rparr>)) = [JStr ''vid'']" for g
    by (simp add: verified_items_def verifications_def leg_dicts_def doc_leg m1_def verified sub_dict_def demo_verification_def)
  have first: "previous_non_green (doc_of m) = []" "attempt_ids demo_env (attempt_dicts (doc_of m)) = JList [JStr ''attempt'']" for m
    by (simp_all add: previous_non_green_def attempts_of_def sub_list_def doc_gets attempt_dicts_def attempt_ids_def demo_attempt_def)
  have decided: "weekly_decision demo_env (doc_of (m1\<lparr>dm_aggregate := g\<rparr>)) = Inr (''published_verified'', JStr ''attempt'', [])" for g
    by (simp add: weekly_decision_def doc_attempt public first) (simp add: demo_attempt_def dindex_def)
  have weekly: "dindex (doc_of m) ''weekly_aggregation'' = Inr (JObj (dm_weekly m))" for m by (simp add: doc_of_def dindex_def)
  have "dm_weekly ?m = demo_weekly" "dm_enqueue m1 = demo_enqueue"
    by (simp_all add: m1_def intended_def worked_def claimed_def created_def)
  then have refreshed: "refresh_aggregate demo_env (demo_call 30 u) (doc_of m1) = Inr (doc_of (m1\<lparr>dm_aggregate :=
      [(''result'', JStr ''completed_public''), (''externally_verified_public'', JBool True), (''terminal_reason'', JNull)],
      dm_weekly := demo_decision, dm_state := ''completed_public''\<rparr>))"
    by (simp add: refresh_aggregate_def ensure_doc demo_enqueue_normal public doc_sets decided weekly first items)
      (simp add: m1_def demo_weekly_def dset_eval demo_decision_def attempt_ids_def doc_sets)
  have later: "(case vq_next demo_readback of None \<Rightarrow> JNull | Some t \<Rightarrow> JStr (iso_z t)) = JNull" by (simp add: demo_readback_def)
  have moved: "with_leg ''youtube'' verified_leg (doc_of ?m) = doc_of m1" by (simp add: doc_leg m1_def)
  have same: "m1\<lparr>dm_aggregate := [(''result'', JStr ''completed_public''), (''externally_verified_public'', JBool True),
      (''terminal_reason'', JNull)], dm_weekly := demo_decision, dm_state := ''completed_public'', dm_attempt_state := ''verifying'',
      dm_events := dm_events m1 @ [JObj [(''sequence'', JInt (int (length (dm_events m1)) + 1)), (''event_type'', JStr ''verifying''),
        (''at'', JStr (iso_z (micros 30))), (''state'', JStr ''verifying''), (''provider'', JStr ''youtube''),
        (''result'', JStr ''externally_verified_public'')]]\<rparr> = verified\<lparr>dm_updated := dm_updated ?m\<rparr>"
    by (cases ?m) (simp add: m1_def verified_def Let_def)
  show ?thesis
    by (simp add: op_eval verify_mutation_def held proved [unfolded state_legs] dict result noted attempt state_legs later flip: verified_leg_def)
      (simp add: moved refreshed doc_event present_def dset_eval same)
qed

lemma verified_ok: "demo_ok verified"
proof -
  have supplied: "storable ''evidence'' (JObj demo_supplied)" "no_repeats (JObj demo_supplied)"
    by (rule storable_JObj) (simp_all add: demo_supplied_def demo_facts proof_names [THEN safe_key_of, simplified] demo_words)
  have pr: "storable ''proof'' (JObj demo_proof)" "no_repeats (JObj demo_proof)"
    using supplied by (auto simp: demo_proof_def PROOF_CHECKS_def demo_facts proof_names [THEN safe_key_of, simplified] intro!: storable_JObj)
  have verification: "storable ''verification'' (JObj demo_verification)" "no_repeats (JObj demo_verification)"
    using pr by (auto simp: demo_verification_def demo_facts intro!: storable_JObj)
  have "members_ok verified_leg"
    by (rule members_okI)
      (use verification no_approval_ok in \<open>simp_all add: verified_leg_def clear_schedule_def clear_notification_def leg_defs dset_eval demo_facts
        stored_intents stored_intents(3,4) [simplified] members_ok_def\<close>)
  moreover have "valid_leg (JObj verified_leg)"
    by (simp add: valid_leg_def verified_leg_def clear_schedule_frame PROVIDER_RESULTS_def)
  moreover have "members_ok demo_decision" by (rule members_okI) (simp_all add: demo_decision_def demo_facts)
  moreover have "demo_ok (intended no_approval)" using states_held(1) [OF no_approval_ok] by (simp add: held_def)
  ultimately show ?thesis
    by (simp add: demo_ok_def verified_def Let_def no_repeats_items_append members_ok_def demo_facts)
qed

theorem verified_result_is_proved_witness:
  "\<exists>leg v. leg_of (doc_of verified) ''youtube'' = Some leg \<and> sub_dict leg ''verification'' = Some v \<and> proof_complete v"
proof -
  have eq: "(claimed no_approval)\<lparr>dm_updated := 0, dm_updated := 10\<rparr> = claimed no_approval" by (simp add: claimed_def)
  have claim: "outbox_step demo_env demo_sha (doc_of (created no_approval)) (doc_of ((claimed no_approval)\<lparr>dm_updated := 0, dm_updated := 10\<rparr>))"
    by (rule op_doc [where op = "ClaimOp ''worker'' ''run-1'' 600" and u = "''claim-1''"])
      (simp_all add: created_ok no_approval_ok claim_step document_of_def eq claimed_ok)
  have "verified\<lparr>dm_updated := dm_updated (intended no_approval), dm_updated := 30\<rparr> = verified" by (simp add: verified_def Let_def)
  then have "outbox_step demo_env demo_sha (doc_of (intended no_approval)) (doc_of verified)"
    using op_doc [OF _ verify_step] verified_ok states_held(1) [OF no_approval_ok] unfolding held_def by metis
  then have steps: "outbox_steps demo_env demo_sha (doc_of (created no_approval)) (doc_of verified)"
    using claim [unfolded eq] demo_steps(1) [OF no_approval_ok] by (meson converse_rtranclp_into_rtranclp r_into_rtranclp)
  have leg: "leg_of (doc_of verified) ''youtube'' = Some verified_leg" by (simp add: doc_leg verified_def Let_def)
  have "dget verified_leg ''result'' = JStr ''externally_verified_public''" by (simp add: verified_leg_def clear_schedule_frame)
  then show ?thesis using verified_result_is_proved [OF fresh_demo steps_history [OF steps, of "{}"] leg] leg by blast
qed

section \<open>Two workers that start the same send\<close>

definition send_enqueue :: "string \<Rightarrow> json \<Rightarrow> dict" where
  "send_enqueue state started_at =
     [(''at'', JStr (iso_z (micros 0))), (''source'', JStr ''worker''), (''version'', JStr ''v1''),
      (''notification_intent'', JObj [(''intent_id'', JStr ''intent-1''), (''source_ownership'', JObj []),
        (''reserved_at'', JStr (iso_z (micros 1))), (''state'', JStr state), (''send_started_at'', started_at), (''accepted_at'', JNull)]),
      (''notification_sent_at'', JNull)]"

definition reserved_send :: demo where
  "reserved_send = (created [])\<lparr>dm_enqueue := send_enqueue ''reserved'' JNull\<rparr>"

definition sending :: "int \<Rightarrow> demo" where
  "sending t = (created [])\<lparr>dm_enqueue := send_enqueue ''sending'' (JStr (iso_z (micros t))), dm_updated := t\<rparr>"

lemma send_enqueue_normal: "normal_enqueue (send_enqueue state x) = send_enqueue state x"
  by (simp add: normal_enqueue_def send_enqueue_def sub_dict_def dsetdefault_def dset_eval)

lemma send_names:
  "list_all plain_name [''reserved_at'', ''send_started_at'', ''accepted_at'']" "list_all plain_string [''reserved'', ''sending'']"
  by (simp add: plain_name_eval, code_simp)

lemma sends_ok: "demo_ok reserved_send" "demo_ok ((sending t)\<lparr>dm_updated := t'\<rparr>)" "demo_ok (sending t)"
proof -
  have "members_ok (send_enqueue ''reserved'' JNull)" "members_ok (send_enqueue ''sending'' (JStr (iso_z (micros t))))"
    by (rule members_okI; simp add: send_enqueue_def demo_facts send_names(1) [THEN safe_key_of, simplified] send_names(2) [simplified])+
  moreover have "demo_ok (created [])" by (rule created_ok) (simp add: members_ok_def)
  ultimately show "demo_ok reserved_send" "demo_ok ((sending t)\<lparr>dm_updated := t'\<rparr>)" "demo_ok (sending t)"
    by (simp_all add: demo_ok_def reserved_send_def sending_def send_enqueue_normal)
qed

definition reserved_cell :: cell where
  "reserved_cell = \<lparr>cl_content = Some (Doc (JObj (doc_of reserved_send))), cl_version = 0\<rparr>"

lemma send_alone:
  "\<exists>s1. authorize_notification_send_azure idle demo_env (demo_call t u) demo_sha [] (Inr ()) reserved_cell = (Inr True, s1)
     \<and> cl_content s1 = Some (Doc (JObj (doc_of (sending t))))"
proof -
  have empty: "safe_value [] (JObj []) = Inr (JObj [])" using safe_key by simp
  have enqueue: "enqueue_of (doc_of reserved_send) = Inr (send_enqueue ''reserved'' JNull)"
    by (simp add: enqueue_of_def reserved_send_def doc_of_def dindex_def)
  have start: "authorize_send_mutation demo_env (demo_call t u) (JObj []) (Inr ()) False (doc_of reserved_send)
    = Inr (True, doc_of ((sending t)\<lparr>dm_updated := 0\<rparr>))"
    by (simp add: authorize_send_mutation_def enqueue already_sending_def sub_dict_def)
      (simp add: send_enqueue_def dset_eval reserved_send_def doc_sets sending_def created_def)
  have same: "(sending t)\<lparr>dm_updated := t\<rparr> = sending t" by (simp add: sending_def)
  have "run_update demo_env (demo_call t u) demo_sha (authorize_send_mutation demo_env (demo_call t u) (JObj []) (Inr ())) False
      (doc_of reserved_send) = Inr (True, doc_of (sending t))"
    using run_doc [OF sends_ok(1), where f = "authorize_send_mutation demo_env (demo_call t u) (JObj []) (Inr ())", OF start, of t u]
    by (simp add: same sends_ok(3))
  then have "outbox_apply demo_env (demo_call t u) demo_sha (authorize_send_mutation demo_env (demo_call t u) (JObj []) (Inr ()))
      (False, []) (cl_content reserved_cell) = ((True, dupdate [] (doc_of (sending t))), Inr (Doc (JObj (doc_of (sending t)))))"
    by (simp add: outbox_apply_def reserved_cell_def run_update_def)
  then show ?thesis
    by (simp add: authorize_notification_send_azure_def empty outbox_update_azure_def demo_path azure_update_alone [of idle] idle_def
        write_cell_def del: safe_value.simps)
qed

theorem contended_send_authorized_twice_witness:
  "\<exists>s1 s2. authorize_notification_send_azure idle demo_env (demo_call 20 []) demo_sha [] (Inr ()) reserved_cell = (Inr True, s1)
     \<and> authorize_notification_send_azure (contended s1) demo_env (demo_call 30 []) demo_sha [] (Inr ()) reserved_cell = (Inr True, s2)"
proof -
  obtain s0 where 0: "authorize_notification_send_azure idle demo_env (demo_call 30 []) demo_sha [] (Inr ()) reserved_cell = (Inr True, s0)"
    using send_alone by blast
  obtain s1 where 1: "authorize_notification_send_azure idle demo_env (demo_call 20 []) demo_sha [] (Inr ()) reserved_cell = (Inr True, s1)"
    "cl_content s1 = Some (Doc (JObj (doc_of (sending 20))))" using send_alone by blast
  have "run_update demo_env (demo_call 30 []) demo_sha (\<lambda>u d. Inr (u, d)) () (doc_of (sending 20))
      = Inr ((), doc_of ((sending 20)\<lparr>dm_updated := 30\<rparr>))"
    by (rule run_doc) (simp_all add: sends_ok)
  then show ?thesis using contended_send_authorized_twice [OF 0 1] 1(1) by blast
qed

end
