(* ===== verification/Scratch.thy ===== *)
theory Scratch
  imports BlobStore Budget
begin

text \<open>
  The world in which the clip recorders and the editor work (\<open>podcaster/video/recorder.py\<close> and
  \<open>podcaster/video/editor.py\<close>): the \<open>video-scratch\<close> container they share, the clip queue, the
  clocks.  A program step is a function on that world.  Before every storage request, queue request
  and clock reading the other workers act, and every request may fail before or after its effect;
  both are data of the \<^emph>\<open>surroundings\<close>, so a theorem about all surroundings is about every
  interleaving and every fault.  A conditional update runs its callback again for every attempt that
  loses to another writer, as in \<^theory_text>\<open>BlobStore\<close>.
\<close>

section \<open>State\<close>

text \<open>Documents and media files have disjoint paths; a media file is its bytes.\<close>

record scratch =
  sc_blobs :: store
  sc_media :: "string \<Rightarrow> string option"

record world =
  w_scratch :: scratch
  w_deleted :: "string list"
  w_sent :: "(string \<times> int) list"
  w_mono :: rat
  w_tick :: nat

record surroundings =
  su_others :: "nat \<Rightarrow> scratch \<Rightarrow> scratch"
  su_rivals :: "nat \<Rightarrow> (scratch \<Rightarrow> scratch) list"
  su_fate :: "nat \<Rightarrow> fault"
  su_delay :: "nat \<Rightarrow> rat"
  su_utc :: "nat \<Rightarrow> int"

type_synonym 'a io = "surroundings \<Rightarrow> world \<Rightarrow> 'a res \<times> world"

section \<open>Sequencing\<close>

definition io_return :: "'a \<Rightarrow> 'a io" where
  "io_return x E w = (Inr x, w)"

definition io_raise :: "exn \<Rightarrow> 'a io" where
  "io_raise e E w = (Inl e, w)"

definition io_lift :: "'a res \<Rightarrow> 'a io" where
  "io_lift r E w = (r, w)"

definition io_bind :: "'a io \<Rightarrow> ('a \<Rightarrow> 'b io) \<Rightarrow> 'b io" where
  "io_bind m f E w = (case m E w of (Inl e, w') \<Rightarrow> (Inl e, w') | (Inr x, w') \<Rightarrow> f x E w')"

text \<open>\<open>try: m; except cs as e: h(e)\<close>.\<close>

definition io_except :: "exn_class list \<Rightarrow> (exn \<Rightarrow> 'a io) \<Rightarrow> 'a io \<Rightarrow> 'a io" where
  "io_except cs h m E w =
     (case m E w of
        (Inr x, w') \<Rightarrow> (Inr x, w')
      | (Inl e, w') \<Rightarrow> (if catches cs e then h e E w' else (Inl e, w')))"

text \<open>\<open>try: m; finally\<close>-free outcome of \<open>m\<close>: the exception as a value.\<close>

definition io_result :: "'a io \<Rightarrow> 'a res io" where
  "io_result m E w = (case m E w of (r, w') \<Rightarrow> (Inr r, w'))"

section \<open>Requests\<close>

text \<open>The UTC clock always reads an aware instant, as \<open>datetime.now(timezone.utc)\<close> does.\<close>

text \<open>The others act, time passes.\<close>

definition next_tick :: "surroundings \<Rightarrow> world \<Rightarrow> world" where
  "next_tick E w = w\<lparr>w_scratch := su_others E (w_tick w) (w_scratch w),
     w_mono := w_mono w + max 0 (su_delay E (w_tick w)), w_tick := Suc (w_tick w)\<rparr>"

definition request :: "(world \<Rightarrow> 'a res \<times> world) \<Rightarrow> 'a io" where
  "request f E w =
     (let w1 = next_tick E w
      in case su_fate E (w_tick w) of
           NoFault \<Rightarrow> f w1
         | FailBefore e \<Rightarrow> (Inl e, w1)
         | FailAfter e \<Rightarrow> (case f w1 of (Inl e', w2) \<Rightarrow> (Inl e', w2) | (Inr _, w2) \<Rightarrow> (Inl e, w2)))"

definition on_scratch :: "(scratch \<Rightarrow> 'a res \<times> scratch) \<Rightarrow> world \<Rightarrow> 'a res \<times> world" where
  "on_scratch f w = (case f (w_scratch w) of (r, s) \<Rightarrow> (r, w\<lparr>w_scratch := s\<rparr>))"

definition get_bytes :: "string \<Rightarrow> blob option io" where
  "get_bytes p = request (on_scratch (\<lambda>s. (Inr (sc_blobs s p), s)))"

text \<open>\<open>blob_exists\<close> of a document and of a media file.\<close>

definition blob_exists :: "string \<Rightarrow> bool io" where
  "blob_exists p = request (on_scratch (\<lambda>s. (Inr (sc_blobs s p \<noteq> None), s)))"

definition file_exists :: "string \<Rightarrow> bool io" where
  "file_exists p = request (on_scratch (\<lambda>s. (Inr (sc_media s p \<noteq> None), s)))"

definition blob_size :: "string \<Rightarrow> int option io" where
  "blob_size p = request (on_scratch (\<lambda>s. (Inr (map_option (int \<circ> length) (sc_media s p)), s)))"

definition upload_file :: "string \<Rightarrow> string \<Rightarrow> unit io" where
  "upload_file p bytes = request (on_scratch (\<lambda>s. (Inr (), s\<lparr>sc_media := (sc_media s)(p \<mapsto> bytes)\<rparr>)))"

text \<open>\<open>download_file\<close> returns \<open>False\<close> (here \<open>None\<close>) where there is no such file.\<close>

definition download_file :: "string \<Rightarrow> string option io" where
  "download_file p = request (on_scratch (\<lambda>s. (Inr (sc_media s p), s)))"

definition without_path :: "string \<Rightarrow> scratch \<Rightarrow> scratch" where
  "without_path p s = s\<lparr>sc_blobs := (sc_blobs s)(p := None), sc_media := (sc_media s)(p := None)\<rparr>"

definition delete_blob :: "string \<Rightarrow> bool io" where
  "delete_blob p = request (on_scratch (\<lambda>s. (Inr (sc_blobs s p \<noteq> None \<or> sc_media s p \<noteq> None), without_path p s)))"

definition without_prefix :: "string \<Rightarrow> scratch \<Rightarrow> scratch" where
  "without_prefix pre s = s\<lparr>sc_blobs := (\<lambda>q. if starts_with pre q then None else sc_blobs s q),
     sc_media := (\<lambda>q. if starts_with pre q then None else sc_media s q)\<rparr>"

text \<open>The number of deleted blobs that \<open>delete_prefix\<close> returns is only logged by its callers.\<close>

definition delete_prefix :: "string \<Rightarrow> unit io" where
  "delete_prefix pre = request (on_scratch (\<lambda>s. (Inr (), without_prefix pre s)))"

definition delete_message :: "string \<Rightarrow> unit io" where
  "delete_message mid = request (\<lambda>w. (Inr (), w\<lparr>w_deleted := w_deleted w @ [mid]\<rparr>))"

definition send_clip_message :: "string \<Rightarrow> int \<Rightarrow> unit io" where
  "send_clip_message job i = request (\<lambda>w. (Inr (), w\<lparr>w_sent := w_sent w @ [(job, i)]\<rparr>))"

text \<open>
  \<open>update_bytes\<close>: at most five attempts; each rival wins one of them, so the callback has run in
  vain on the content before the rival's write.  What the callback captured last is the result.
\<close>

fun cas_rounds :: "nat \<Rightarrow> (scratch \<Rightarrow> scratch) list \<Rightarrow> 'c callback \<Rightarrow> 'c \<Rightarrow> string \<Rightarrow> scratch \<Rightarrow> 'c res \<times> scratch" where
  "cas_rounds 0 gs f c p s = (Inl conflict_exn, s)"
| "cas_rounds (Suc n) [] f c p s =
     (case f c (sc_blobs s p) of
        (c', Inl e) \<Rightarrow> (Inl e, s)
      | (c', Inr b) \<Rightarrow> (Inr c', s\<lparr>sc_blobs := (sc_blobs s)(p \<mapsto> b)\<rparr>))"
| "cas_rounds (Suc n) (g # gs) f c p s =
     (case f c (sc_blobs s p) of
        (c', Inl e) \<Rightarrow> (Inl e, s)
      | (c', Inr b) \<Rightarrow> cas_rounds n gs f c' p (g s))"

definition update_bytes :: "string \<Rightarrow> 'c callback \<Rightarrow> 'c \<Rightarrow> 'c io" where
  "update_bytes p f c E w = request (on_scratch (cas_rounds 5 (su_rivals E (w_tick w)) f c p)) E w"

definition read_clock :: "reading io" where
  "read_clock E w = (let w1 = next_tick E w
     in (Inr \<lparr>rd_mono = w_mono w1, rd_utc = Aware (su_utc E (w_tick w))\<rparr>, w1))"

definition utcnow :: "int io" where
  "utcnow E w = (Inr (su_utc E (w_tick w)), next_tick E w)"

definition monotonic :: "rat io" where
  "monotonic E w = (let w1 = next_tick E w in (Inr (w_mono w1), w1))"

definition sleep :: "rat \<Rightarrow> unit io" where
  "sleep d E w = (if d < 0 then (Inl (Raise ValueErr ''sleep length must be non-negative''), w)
     else (let w1 = next_tick E w in (Inr (), w1\<lparr>w_mono := w_mono w1 + d\<rparr>)))"

text \<open>Work outside the storage (a browser, a renderer, a media probe) with its outcome.\<close>

definition external :: "'a res \<Rightarrow> 'a io" where
  "external r = request (\<lambda>w. (r, w))"

text \<open>
  \<open>run_storage_operation(call, timeout)\<close>: refused without budget; a call cut off by its deadline is
  a request of \<open>call\<close> that fails with \<open>StorageOperationTimeout\<close>, before or after its effect.
\<close>

definition run_bounded :: "'a io \<Rightarrow> rat \<Rightarrow> 'a io" where
  "run_bounded call timeout =
     (if timeout \<le> 0 then io_raise (Raise StorageTimeoutErr ''storage operation has no remaining budget'')
      else call)"

text \<open>\<open>[f(x) for x in xs]\<close> for an effectful \<open>f\<close>.\<close>

primrec io_map :: "('a \<Rightarrow> 'b io) \<Rightarrow> 'a list \<Rightarrow> 'b list io" where
  "io_map f [] = io_return []"
| "io_map f (x # xs) = io_bind (f x) (\<lambda>y. io_bind (io_map f xs) (\<lambda>ys. io_return (y # ys)))"

section \<open>Reasoning\<close>

text \<open>
  What holds after a program that starts where \<open>P\<close> holds: \<open>Q\<close> after a value, \<open>X\<close> after an
  exception.  A program \<^emph>\<open>keeps\<close> \<open>I\<close> when both are \<open>I\<close>.
\<close>

definition triple :: "surroundings \<Rightarrow> (world \<Rightarrow> bool) \<Rightarrow> 'a io \<Rightarrow> ('a \<Rightarrow> world \<Rightarrow> bool) \<Rightarrow> (exn \<Rightarrow> world \<Rightarrow> bool) \<Rightarrow> bool"
  where "triple E P m Q X \<longleftrightarrow> (\<forall>w. P w \<longrightarrow> (case m E w of (Inr x, w') \<Rightarrow> Q x w' | (Inl e, w') \<Rightarrow> X e w'))"

abbreviation keeps :: "surroundings \<Rightarrow> (world \<Rightarrow> bool) \<Rightarrow> 'a io \<Rightarrow> bool" where
  "keeps E I m \<equiv> triple E I m (\<lambda>_. I) (\<lambda>_. I)"

named_theorems triple_rules \<open>rules that follow the structure of a program\<close>

lemma tripleD:
  "triple E P m Q X \<Longrightarrow> P w \<Longrightarrow> m E w = (r, w') \<Longrightarrow> (case r of Inr x \<Rightarrow> Q x w' | Inl e \<Rightarrow> X e w')"
  by (auto simp: triple_def split: sum.splits dest!: spec [of _ w])

lemma keepsD: "keeps E I m \<Longrightarrow> I w \<Longrightarrow> m E w = (r, w') \<Longrightarrow> I w'"
  using tripleD [of E I m "\<lambda>_. I" "\<lambda>_. I" w r w'] by (auto split: sum.splits)

lemma triple_weaken:
  assumes "triple E P m Q X"
    and "\<And>w. P' w \<Longrightarrow> P w" "\<And>x w. Q x w \<Longrightarrow> Q' x w" "\<And>e w. X e w \<Longrightarrow> X' e w"
  shows "triple E P' m Q' X'"
  using assms unfolding triple_def by (fastforce split: sum.splits prod.splits)

lemma triple_return [triple_rules]: "(\<And>w. P w \<Longrightarrow> Q x w) \<Longrightarrow> triple E P (io_return x) Q X"
  by (simp add: triple_def io_return_def)

lemma triple_raise [triple_rules]: "(\<And>w. P w \<Longrightarrow> X e w) \<Longrightarrow> triple E P (io_raise e) Q X"
  by (simp add: triple_def io_raise_def)

lemma triple_lift [triple_rules]:
  "(\<And>x w. r = Inr x \<Longrightarrow> P w \<Longrightarrow> Q x w) \<Longrightarrow> (\<And>e w. r = Inl e \<Longrightarrow> P w \<Longrightarrow> X e w) \<Longrightarrow> triple E P (io_lift r) Q X"
  by (auto simp: triple_def io_lift_def split: sum.splits)

lemma triple_bind:
  "triple E P m R X \<Longrightarrow> (\<And>x. triple E (R x) (f x) Q X) \<Longrightarrow> triple E P (io_bind m f) Q X"
  unfolding triple_def io_bind_def by (fastforce split: sum.splits prod.splits)

lemma keeps_bind [triple_rules]: "keeps E I m \<Longrightarrow> (\<And>x. keeps E I (f x)) \<Longrightarrow> keeps E I (io_bind m f)"
  by (rule triple_bind)

lemma triple_conj:
  "triple E P m Q X \<Longrightarrow> triple E P m Q' X' \<Longrightarrow> triple E P m (\<lambda>x w. Q x w \<and> Q' x w) (\<lambda>e w. X e w \<and> X' e w)"
  unfolding triple_def by (fastforce split: sum.splits prod.splits)

text \<open>\<open>ensures E P m\<close>: \<open>m\<close> returns a value only where \<open>P\<close> holds.\<close>

abbreviation ensures :: "surroundings \<Rightarrow> (world \<Rightarrow> bool) \<Rightarrow> 'a io \<Rightarrow> bool" where
  "ensures E P m \<equiv> triple E (\<lambda>_. True) m (\<lambda>_. P) (\<lambda>_ _. True)"

lemma ensures_bind:
  "(\<And>x. triple E (\<lambda>_. True) (f x) Q (\<lambda>_ _. True)) \<Longrightarrow> triple E (\<lambda>_. True) (io_bind m f) Q (\<lambda>_ _. True)"
  by (rule triple_bind [of _ _ _ "\<lambda>_ _. True"]) (auto simp: triple_def split: sum.splits prod.splits)

lemma ensures_raise: "triple E P (io_raise e) Q (\<lambda>_ _. True)"
  by (simp add: triple_def io_raise_def)

lemma triple_pure: "(c \<Longrightarrow> triple E P m Q X) \<Longrightarrow> triple E (\<lambda>w. P w \<and> c) m Q X"
  by (cases c) (simp_all add: triple_def)

lemma triple_except:
  assumes m: "triple E P m Q R"
    and h: "\<And>e. catches cs e \<Longrightarrow> triple E (R e) (h e) Q X"
    and other: "\<And>e w. R e w \<Longrightarrow> X e w"
  shows "triple E P (io_except cs h m) Q X"
  unfolding triple_def
proof (intro allI impI)
  fix w assume "P w"
  obtain r w1 where run: "m E w = (r, w1)" by fastforce
  note after = tripleD [OF m \<open>P w\<close> run]
  show "case io_except cs h m E w of (Inr x, w') \<Rightarrow> Q x w' | (Inl e, w') \<Rightarrow> X e w'"
  proof (cases r)
    case (Inl e)
    show ?thesis
    proof (cases "catches cs e")
      case True
      obtain r2 w2 where h': "h e E w1 = (r2, w2)" by fastforce
      have "R e w1" using after Inl by simp
      from tripleD [OF h [OF True] this h'] show ?thesis
        using True Inl run h' by (simp add: io_except_def split: sum.splits)
    next
      case False
      then show ?thesis using other after Inl run by (simp add: io_except_def)
    qed
  qed (use after run in \<open>simp add: io_except_def\<close>)
qed

lemma keeps_except [triple_rules]:
  "keeps E I m \<Longrightarrow> (\<And>e. keeps E I (h e)) \<Longrightarrow> keeps E I (io_except cs h m)"
  by (rule triple_except) auto

lemma triple_if [triple_rules]:
  "(c \<Longrightarrow> triple E P m Q X) \<Longrightarrow> (\<not> c \<Longrightarrow> triple E P m' Q X) \<Longrightarrow> triple E P (if c then m else m') Q X"
  by simp

lemma triple_option [triple_rules]:
  "(x = None \<Longrightarrow> triple E P m Q X) \<Longrightarrow> (\<And>y. x = Some y \<Longrightarrow> triple E P (f y) Q X)
   \<Longrightarrow> triple E P (case x of None \<Rightarrow> m | Some y \<Rightarrow> f y) Q X"
  by (cases x) auto

lemma triple_sum [triple_rules]:
  "(\<And>e. x = Inl e \<Longrightarrow> triple E P (f e) Q X) \<Longrightarrow> (\<And>y. x = Inr y \<Longrightarrow> triple E P (g y) Q X)
   \<Longrightarrow> triple E P (case x of Inl e \<Rightarrow> f e | Inr y \<Rightarrow> g y) Q X"
  by (cases x) auto

lemma triple_prod [triple_rules]:
  "(\<And>a b. x = (a, b) \<Longrightarrow> triple E P (f a b) Q X) \<Longrightarrow> triple E P (case x of (a, b) \<Rightarrow> f a b) Q X"
  by (cases x) auto

lemma triple_let [triple_rules]: "triple E P (f x) Q X \<Longrightarrow> triple E P (let y = x in f y) Q X"
  by simp

lemma triple_bounded [triple_rules]:
  "triple E P m Q X \<Longrightarrow> (\<And>w. P w \<Longrightarrow> X (Raise StorageTimeoutErr ''storage operation has no remaining budget'') w)
   \<Longrightarrow> triple E P (run_bounded m t) Q X"
  unfolding run_bounded_def by (intro triple_rules) auto

lemma keeps_map [triple_rules]: "(\<And>x. x \<in> set xs \<Longrightarrow> keeps E I (f x)) \<Longrightarrow> keeps E I (io_map f xs)"
  by (induction xs) (auto intro!: triple_rules)

lemma keeps_result [triple_rules]: "keeps E I m \<Longrightarrow> keeps E I (io_result m)"
  by (fastforce simp: triple_def io_result_def split: sum.splits prod.splits)

text \<open>A pure step is a case distinction.\<close>

lemma io_bind_lift: "io_bind (io_lift r) f = (case r of Inl e \<Rightarrow> io_raise e | Inr x \<Rightarrow> f x)"
  by (intro ext) (auto simp: io_bind_def io_lift_def io_raise_def split: sum.splits)

text \<open>A value is returned only after the steps before it returned one.\<close>

lemma io_bind_Inr:
  "io_bind m f E w = (Inr y, w') \<longleftrightarrow> (\<exists>x w1. m E w = (Inr x, w1) \<and> f x E w1 = (Inr y, w'))"
  by (auto simp: io_bind_def split: sum.splits prod.splits)

text \<open>
  The rely condition of a worker: nothing the others do destroys \<open>I\<close>, a property of the container
  and of the messages deleted so far.  Then a program keeps \<open>I\<close> when its own requests do.
\<close>

locale steady =
  fixes E :: surroundings
    and I :: "scratch \<Rightarrow> string list \<Rightarrow> bool"
  assumes others: "I s D \<Longrightarrow> I (su_others E n s) D"
    and rivals: "I s D \<Longrightarrow> g \<in> set (su_rivals E n) \<Longrightarrow> I (g s) D"
begin

abbreviation Iw :: "world \<Rightarrow> bool" where
  "Iw w \<equiv> I (w_scratch w) (w_deleted w)"

lemma tick_keeps: "Iw w \<Longrightarrow> Iw (next_tick E w)"
  by (simp add: next_tick_def others)

lemma request_keeps:
  assumes "\<And>w r w'. Iw w \<Longrightarrow> f w = (r, w') \<Longrightarrow> Iw w'"
  shows "keeps E Iw (request f)"
  unfolding triple_def request_def Let_def
proof (intro allI impI)
  fix w assume "Iw w"
  then have t: "Iw (next_tick E w)" by (rule tick_keeps)
  obtain r w' where f: "f (next_tick E w) = (r, w')" by fastforce
  have "Iw w'" using assms [OF t f] .
  then show "case case su_fate E (w_tick w) of NoFault \<Rightarrow> f (next_tick E w)
      | FailBefore e \<Rightarrow> (Inl e, next_tick E w)
      | FailAfter e \<Rightarrow> (case f (next_tick E w) of (Inl e', w2) \<Rightarrow> (Inl e', w2) | (Inr _, w2) \<Rightarrow> (Inl e, w2))
    of (Inr x, w') \<Rightarrow> Iw w' | (Inl e, w') \<Rightarrow> Iw w'"
    using t by (auto simp: f split: fault.splits sum.splits)
qed

lemma scratch_keeps:
  assumes "\<And>s D r s'. I s D \<Longrightarrow> f s = (r, s') \<Longrightarrow> I s' D"
  shows "keeps E Iw (request (on_scratch f))"
  by (rule request_keeps) (auto simp: on_scratch_def split: prod.splits dest: assms)

lemma read_keeps [triple_rules]:
  "keeps E Iw (get_bytes p)" "keeps E Iw (blob_exists p)" "keeps E Iw (file_exists p)" "keeps E Iw (blob_size p)" "keeps E Iw (download_file p)"
  unfolding get_bytes_def blob_exists_def file_exists_def blob_size_def download_file_def by (rule scratch_keeps; simp)+

lemma clock_keeps [triple_rules]:
  "keeps E Iw read_clock" "keeps E Iw utcnow" "keeps E Iw monotonic" "keeps E Iw (sleep d)"
  by (auto simp: triple_def read_clock_def utcnow_def monotonic_def sleep_def Let_def intro: tick_keeps)

lemma queue_keeps [triple_rules]:
  "keeps E Iw (send_clip_message job i)" "keeps E Iw (external r)"
  unfolding send_clip_message_def external_def by (rule request_keeps; auto)+

lemma delete_message_keeps:
  "(\<And>s D. I s D \<Longrightarrow> I s (D @ [mid])) \<Longrightarrow> keeps E Iw (delete_message mid)"
  unfolding delete_message_def by (rule request_keeps) auto

lemma rounds_keep:
  assumes "I s D" "cas_rounds n gs f c p s = (r, s')" "\<forall>g \<in> set gs. \<forall>s. I s D \<longrightarrow> I (g s) D"
    and "\<And>c s c' b. I s D \<Longrightarrow> f c (sc_blobs s p) = (c', Inr b) \<Longrightarrow> I (s\<lparr>sc_blobs := (sc_blobs s)(p \<mapsto> b)\<rparr>) D"
  shows "I s' D"
  using assms
proof (induction n gs f c p s arbitrary: r s' rule: cas_rounds.induct)
  case (1 gs f c p s)
  then show ?case by simp
next
  case (2 n f c p s)
  show ?case using 2(1,2) by (auto split: prod.splits sum.splits intro: 2(4))
next
  case (3 n g gs f c p s)
  obtain c' q where f: "f c (sc_blobs s p) = (c', q)" by fastforce
  show ?case
  proof (cases q)
    case (Inl e)
    then show ?thesis using 3(2,3) f by simp
  next
    case (Inr b)
    show ?thesis
    proof (rule "3.IH" [OF f [symmetric] Inr])
      show "I (g s) D" using 3(2,4) by simp
      show "cas_rounds n gs f c' p (g s) = (r, s')" using 3(3) f Inr by simp
      show "\<forall>g \<in> set gs. \<forall>s. I s D \<longrightarrow> I (g s) D" using 3(4) by simp
    qed (rule 3(5))
  qed
qed

lemma upload_keeps:
  assumes "\<And>s D. I s D \<Longrightarrow> I (s\<lparr>sc_media := (sc_media s)(p \<mapsto> bytes)\<rparr>) D"
  shows "keeps E Iw (upload_file p bytes)"
  unfolding upload_file_def by (rule scratch_keeps) (auto intro: assms)

lemma delete_keeps: "(\<And>s D. I s D \<Longrightarrow> I (without_path p s) D) \<Longrightarrow> keeps E Iw (delete_blob p)"
  unfolding delete_blob_def by (rule scratch_keeps) auto

lemma delete_prefix_keeps: "(\<And>s D. I s D \<Longrightarrow> I (without_prefix p s) D) \<Longrightarrow> keeps E Iw (delete_prefix p)"
  unfolding delete_prefix_def by (rule scratch_keeps) auto

lemma update_keeps:
  assumes "\<And>c s D c' b. I s D \<Longrightarrow> f c (sc_blobs s p) = (c', Inr b) \<Longrightarrow> I (s\<lparr>sc_blobs := (sc_blobs s)(p \<mapsto> b)\<rparr>) D"
  shows "keeps E Iw (update_bytes p f c)"
proof -
  have "keeps E Iw (request (on_scratch (cas_rounds 5 (su_rivals E n) f c p)))" for n
  proof (rule scratch_keeps)
    fix s D r s'
    assume "I s D" "cas_rounds 5 (su_rivals E n) f c p s = (r, s')"
    then show "I s' D" by (rule rounds_keep) (auto intro: rivals assms)
  qed
  then show ?thesis by (auto simp: triple_def update_bytes_def)
qed

end

section \<open>A worker alone\<close>

definition alone :: "int \<Rightarrow> surroundings" where
  "alone t = \<lparr>su_others = (\<lambda>_ s. s), su_rivals = (\<lambda>_. []), su_fate = (\<lambda>_. NoFault), su_delay = (\<lambda>_. 0), su_utc = (\<lambda>_. t)\<rparr>"

definition world_of :: "scratch \<Rightarrow> world" where
  "world_of s = \<lparr>w_scratch = s, w_deleted = [], w_sent = [], w_mono = 0, w_tick = 0\<rparr>"

end
