(* ===== verification/Media.thy ===== *)
theory Media
  imports Json
begin

text \<open>
  \<open>podcaster/video/process.py\<close>: the evidence about a media file (its size, its SHA-256 digest and
  what the media probe said) that a terminal clip manifest carries.  Running the probe and hashing
  the file are not modelled; the parameter \<open>ftext\<close> reads decimal texts and \<open>repr\<close> prints values.
\<close>

record probe_evidence =
  pe_format :: string
  pe_duration :: "rat option"

record media_evidence =
  me_size :: int
  me_sha :: string
  me_probe :: probe_evidence

definition hex_chars :: string where
  "hex_chars = ''0123456789abcdef''"

definition is_digest :: "string \<Rightarrow> bool" where
  "is_digest s \<longleftrightarrow> length s = 64 \<and> list_all (\<lambda>c. c \<in> set hex_chars) s"

text \<open>A digest is already stripped and in lower case.\<close>

lemma hex_char_clean: "c \<in> set hex_chars \<Longrightarrow> \<not> py_isspace c \<and> py_lower_char c = c"
  by (auto simp: hex_chars_def py_isspace_def py_lower_char_def Let_def)

lemma digest_clean: "is_digest d \<Longrightarrow> py_lower (py_strip d) = d"
proof -
  assume d: "is_digest d"
  then have all: "\<forall>c \<in> set d. \<not> py_isspace c \<and> py_lower_char c = c"
    using hex_char_clean by (auto simp: is_digest_def list_all_iff)
  have keep: "dropWhile py_isspace xs = xs" if "\<forall>c \<in> set xs. \<not> py_isspace c" for xs
    using that by (cases xs) auto
  have "py_strip d = d" using all by (simp add: py_strip_def keep)
  moreover have "map py_lower_char d = d" using all by (simp add: map_idI)
  ultimately show ?thesis by (simp add: py_lower_def)
qed

definition make_probe :: "string \<Rightarrow> rat option \<Rightarrow> probe_evidence res" where
  "make_probe fmt duration =
     (if py_strip fmt = [] then Inl (Raise ValueErr ''probe format_name must not be empty'')
      else if (case duration of None \<Rightarrow> False | Some d \<Rightarrow> d < 0)
      then Inl (Raise ValueErr ''probe duration must be finite and non-negative'')
      else Inr \<lparr>pe_format = fmt, pe_duration = duration\<rparr>)"

definition make_media :: "int \<Rightarrow> string \<Rightarrow> probe_evidence \<Rightarrow> media_evidence res" where
  "make_media bytes sha probe =
     (if bytes \<le> 0 then Inl (Raise ValueErr ''media evidence requires a positive size'')
      else if \<not> is_digest sha then Inl (Raise ValueErr ''media evidence requires a lowercase SHA-256 digest'')
      else Inr \<lparr>me_size = bytes, me_sha = sha, me_probe = probe\<rparr>)"

definition probe_to_dict :: "probe_evidence \<Rightarrow> json" where
  "probe_to_dict p = JObj [(''format_name'', JStr (pe_format p)),
     (''duration_seconds'', case pe_duration p of None \<Rightarrow> JNull | Some d \<Rightarrow> JFloat d)]"

definition media_to_dict :: "media_evidence \<Rightarrow> json" where
  "media_to_dict m = JObj [(''size_bytes'', JInt (me_size m)), (''sha256'', JStr (me_sha m)),
     (''probe'', probe_to_dict (me_probe m))]"

definition media_from_dict :: "(json \<Rightarrow> string) \<Rightarrow> (string \<Rightarrow> rat res) \<Rightarrow> dict \<Rightarrow> media_evidence res" where
  "media_from_dict repr ftext d =
     (case dget d ''probe'' of
        JObj probe \<Rightarrow>
          and_then (py_int (dget_or d ''size_bytes'' (JInt 0))) (\<lambda>bytes.
          and_then (case dget probe ''duration_seconds'' of JNull \<Rightarrow> Inr None
                    | v \<Rightarrow> and_then (py_float ftext v) (\<lambda>r. Inr (Some r))) (\<lambda>duration.
          and_then (make_probe (py_str repr (dget_or probe ''format_name'' (JStr []))) duration) (\<lambda>pr.
          make_media bytes (py_str repr (dget_or d ''sha256'' (JStr []))) pr)))
      | _ \<Rightarrow> Inl (Raise ValueErr ''media evidence probe is missing''))"

text \<open>What the constructors leave behind.\<close>

definition media_ok :: "media_evidence \<Rightarrow> bool" where
  "media_ok m \<longleftrightarrow> 0 < me_size m \<and> is_digest (me_sha m) \<and> py_strip (pe_format (me_probe m)) \<noteq> []
     \<and> (case pe_duration (me_probe m) of None \<Rightarrow> True | Some d \<Rightarrow> 0 \<le> d)"

lemma make_media_Inr:
  "make_media bytes sha probe = Inr m \<longleftrightarrow> 0 < bytes \<and> is_digest sha \<and> m = \<lparr>me_size = bytes, me_sha = sha, me_probe = probe\<rparr>"
  by (auto simp: make_media_def)

lemma media_from_dict_ok:
  assumes "media_from_dict repr ftext d = Inr m"
  shows "media_ok m"
proof -
  obtain probe where "dget d ''probe'' = JObj probe"
    using assms by (auto simp: media_from_dict_def split: json.splits)
  then show ?thesis
    using assms
    by (auto simp: media_from_dict_def and_then_Inr_conv make_media_Inr make_probe_def media_ok_def
        split: if_splits option.splits)
qed

lemma media_round_trip: "media_ok m \<Longrightarrow> and_then (as_dict (media_to_dict m)) (media_from_dict repr ftext) = Inr m"
  by (cases "pe_duration (me_probe m)")
    (auto simp: media_to_dict_def media_from_dict_def probe_to_dict_def media_ok_def dget_or_def make_media_Inr make_probe_def)

interpretation media_codec: codec media_to_dict "\<lambda>j. and_then (as_dict j) (media_from_dict repr ftext)" media_ok
  by unfold_locales (rule media_round_trip)

end
