(* ===== verification/Clipset.thy ===== *)
theory Clipset
  imports Budget Media
begin

text \<open>
  \<open>podcaster/video/clipset.py\<close>: the fan-out plan \<open>clipset.json\<close> of a video job and the paths of the
  job's blobs.  The segments come from \<open>sync_plan.py\<close>.  The parameter \<open>ftext\<close> reads decimal texts and
  \<open>repr\<close> prints values (see \<^theory_text>\<open>Json\<close>).  A job id and a clip index that a path
  function refuses are its errors.
\<close>

section \<open>Paths\<close>

definition clean_job_id :: "string \<Rightarrow> string res" where
  "clean_job_id job = (if py_strip job = [] then Inl (Raise ValueErr ''job_id is required'') else Inr (py_strip job))"

definition check_index :: "int \<Rightarrow> int res" where
  "check_index i = (if i < 0 then Inl (Raise ValueErr ''clip_index must be non-negative'') else Inr i)"

text \<open>\<open>f"{i:03d}"\<close> of an index that was checked.\<close>

definition index_text :: "int \<Rightarrow> string" where
  "index_text i = (if i < 1000 then digits_fixed 3 (nat i) else nat_str (nat i))"

definition job_prefix :: "string \<Rightarrow> string res" where
  "job_prefix job = and_then (clean_job_id job) (\<lambda>j. Inr (''video-jobs/'' @ j @ ''/''))"

definition clipset_blob_path :: "string \<Rightarrow> string res" where
  "clipset_blob_path job = and_then (job_prefix job) (\<lambda>p. Inr (p @ ''clipset.json''))"

definition clips_prefix :: "string \<Rightarrow> string res" where
  "clips_prefix job = and_then (job_prefix job) (\<lambda>p. Inr (p @ ''clips/''))"

text \<open>The five per-clip paths differ in what follows the index.\<close>

definition indexed_path :: "string \<Rightarrow> string \<Rightarrow> int \<Rightarrow> string res" where
  "indexed_path suffix job i =
     and_then (clips_prefix job) (\<lambda>p. and_then (check_index i) (\<lambda>n. Inr (p @ index_text n @ suffix)))"

definition clip_blob_path :: "string \<Rightarrow> int \<Rightarrow> string res" where
  "clip_blob_path = indexed_path ''.webm''"

definition clip_manifest_blob_path :: "string \<Rightarrow> int \<Rightarrow> string res" where
  "clip_manifest_blob_path = indexed_path ''.manifest.json''"

definition clip_admission_blob_path :: "string \<Rightarrow> int \<Rightarrow> string res" where
  "clip_admission_blob_path = indexed_path ''.admission.json''"

definition clip_attempts_blob_path :: "string \<Rightarrow> int \<Rightarrow> string res" where
  "clip_attempts_blob_path = indexed_path ''.attempts.json''"

definition clip_content_blob_path :: "string \<Rightarrow> int \<Rightarrow> string \<Rightarrow> string res" where
  "clip_content_blob_path job i sha =
     (let digest = py_lower (py_strip sha)
      in if \<not> is_digest digest then Inl (Raise ValueErr ''sha256 must be a lowercase 64-character hex digest'')
         else indexed_path (''/'' @ digest @ ''.webm'') job i)"

text \<open>Paths that end differently are different.\<close>

lemma ends_with_iff: "ends_with a p \<longleftrightarrow> (\<exists>q. p = q @ a)"
  by (auto simp: ends_with_def) (metis append_take_drop_id)

lemma ends_with_both: "ends_with a p \<Longrightarrow> ends_with b p \<Longrightarrow> length b \<le> length a \<Longrightarrow> ends_with b a"
  by (auto simp: ends_with_iff append_eq_append_conv2)

lemma ends_with_append [simp]: "ends_with a (p @ a)"
  by (simp add: ends_with_def)

lemma indexed_path_ends: "indexed_path suffix job i = Inr p \<Longrightarrow> ends_with suffix p"
  using ends_with_append [of suffix] by (auto simp: indexed_path_def and_then_Inr_conv simp flip: append_assoc)

lemma ends_with_trans: "ends_with b a \<Longrightarrow> ends_with a p \<Longrightarrow> ends_with b p"
  by (auto simp: ends_with_iff)

lemma manifest_path_ends: "clip_manifest_blob_path job i = Inr p \<Longrightarrow> ends_with ''.manifest.json'' p"
  unfolding clip_manifest_blob_path_def by (rule indexed_path_ends)

lemma content_path_ends: "clip_content_blob_path job i sha = Inr p \<Longrightarrow> ends_with ''.webm'' p"
  by (rule ends_with_trans [of _ "''/'' @ py_lower (py_strip sha) @ ''.webm''"])
    (auto simp: clip_content_blob_path_def Let_def ends_with_iff split: if_splits dest: indexed_path_ends)

text \<open>What the recorders keep beside the manifest of a clip, and the lease of the editors.\<close>

definition clip_file :: "string \<Rightarrow> bool" where
  "clip_file p \<longleftrightarrow> ends_with ''.webm'' p \<or> ends_with ''.admission.json'' p \<or> ends_with ''.attempts.json'' p
     \<or> ends_with ''.lease.json'' p"

lemma other_paths:
  assumes "\<not> clip_file p"
  shows "clip_blob_path job i = Inr q \<Longrightarrow> q \<noteq> p"
    and "clip_content_blob_path job i sha = Inr q \<Longrightarrow> q \<noteq> p"
    and "clip_admission_blob_path job i = Inr q \<Longrightarrow> q \<noteq> p"
    and "clip_attempts_blob_path job i = Inr q \<Longrightarrow> q \<noteq> p"
  using assms content_path_ends
  by (auto simp: clip_file_def clip_blob_path_def clip_admission_blob_path_def clip_attempts_blob_path_def
      dest!: indexed_path_ends)

text \<open>Neither a manifest nor the plan is one of them.\<close>

lemma not_clip_file:
  "ends_with ''.manifest.json'' p \<Longrightarrow> \<not> clip_file p" "ends_with ''/clipset.json'' p \<Longrightarrow> \<not> clip_file p"
proof -
  have "\<not> ends_with a p" if "ends_with b p" "a \<in> {''.webm'', ''.admission.json'', ''.attempts.json'', ''.lease.json''}"
      "b \<in> {''.manifest.json'', ''/clipset.json''}" for a b
    using that ends_with_both [of b p a] ends_with_both [of a p b] by (auto simp: ends_with_def)
  then show "ends_with ''.manifest.json'' p \<Longrightarrow> \<not> clip_file p" "ends_with ''/clipset.json'' p \<Longrightarrow> \<not> clip_file p"
    unfolding clip_file_def by blast+
qed

lemma manifest_path_plain: "clip_manifest_blob_path job i = Inr p \<Longrightarrow> \<not> clip_file p"
  by (rule not_clip_file(1)) (rule manifest_path_ends)

lemma clipset_path_ends: "clipset_blob_path job = Inr q \<Longrightarrow> ends_with ''/clipset.json'' q"
  using ends_with_append [of "''/clipset.json''"]
  by (auto simp: clipset_blob_path_def job_prefix_def and_then_Inr_conv ends_with_def)

lemma clipset_path_plain: "clipset_blob_path job = Inr q \<Longrightarrow> \<not> clip_file q"
  by (rule not_clip_file(2)) (rule clipset_path_ends)

lemma clipset_path_other: "clip_manifest_blob_path job i = Inr p \<Longrightarrow> clipset_blob_path job' = Inr q \<Longrightarrow> q \<noteq> p"
  using manifest_path_ends [of job i p] clipset_path_ends [of job' q] ends_with_both [of "''.manifest.json''" p "''/clipset.json''"]
  by (auto simp: ends_with_def)

lemma content_is_not_legacy:
  "clip_content_blob_path job i sha = Inr q \<Longrightarrow> clip_blob_path job i = Inr p \<Longrightarrow> p \<noteq> q"
  by (auto simp: clip_content_blob_path_def clip_blob_path_def indexed_path_def and_then_Inr_conv Let_def split: if_splits)

section \<open>Segments and plan entries\<close>

record repo_reference =
  rr_owner :: string
  rr_name :: string

record video_segment =
  vs_start :: rat
  vs_duration :: rat
  vs_repo :: "repo_reference option"
  vs_source_url :: "string option"
  vs_removed_reason :: "string option"

record clip_entry =
  ce_index :: int
  ce_start :: rat
  ce_duration :: rat
  ce_owner :: "string option"
  ce_name :: "string option"
  ce_source_url :: "string option"
  ce_removed_reason :: "string option"

text \<open>\<open>if self.repo_owner and self.repo_name\<close>.\<close>

definition entry_repo :: "clip_entry \<Rightarrow> repo_reference option" where
  "entry_repo c = (case (ce_owner c, ce_name c) of
       (Some ow, Some n) \<Rightarrow> (if ow \<noteq> [] \<and> n \<noteq> [] then Some \<lparr>rr_owner = ow, rr_name = n\<rparr> else None)
     | _ \<Rightarrow> None)"

definition repo_link :: "repo_reference \<Rightarrow> string" where
  "repo_link r = ''https://github.com/'' @ rr_owner r @ ''/'' @ rr_name r"

definition entry_repo_url :: "clip_entry \<Rightarrow> string option" where
  "entry_repo_url c = map_option repo_link (entry_repo c)"

definition entry_from_segment :: "int \<Rightarrow> video_segment \<Rightarrow> clip_entry res" where
  "entry_from_segment i s =
     and_then (check_index i) (\<lambda>n.
     Inr \<lparr>ce_index = n, ce_start = vs_start s, ce_duration = vs_duration s,
          ce_owner = map_option rr_owner (vs_repo s), ce_name = map_option rr_name (vs_repo s),
          ce_source_url = vs_source_url s, ce_removed_reason = vs_removed_reason s\<rparr>)"

definition entry_to_segment :: "clip_entry \<Rightarrow> video_segment" where
  "entry_to_segment c = \<lparr>vs_start = ce_start c, vs_duration = ce_duration c, vs_repo = entry_repo c,
     vs_source_url = ce_source_url c, vs_removed_reason = ce_removed_reason c\<rparr>"

definition entry_to_dict :: "clip_entry \<Rightarrow> json" where
  "entry_to_dict c = JObj
     [(''clip_index'', JInt (ce_index c)),
      (''start_seconds'', JFloat (ce_start c)),
      (''duration_seconds'', JFloat (ce_duration c)),
      (''repo_owner'', json_of_opt_str (ce_owner c)),
      (''repo_name'', json_of_opt_str (ce_name c)),
      (''source_url'', json_of_opt_str (ce_source_url c)),
      (''removed_reason'', json_of_opt_str (ce_removed_reason c))]"

definition opt_str :: "(json \<Rightarrow> string) \<Rightarrow> json \<Rightarrow> string option" where
  "opt_str repr v = (if v = JNull then None
     else let text = py_strip (py_str repr v) in if text = [] then None else Some text)"

definition entry_from_dict :: "(json \<Rightarrow> string) \<Rightarrow> (string \<Rightarrow> rat res) \<Rightarrow> json \<Rightarrow> clip_entry res" where
  "entry_from_dict repr ftext data =
     and_then (as_dict data) (\<lambda>d.
     and_then (and_then (and_then (dindex d ''clip_index'') py_int) check_index) (\<lambda>i.
     and_then (and_then (dindex d ''start_seconds'') (py_float ftext)) (\<lambda>a.
     and_then (and_then (dindex d ''duration_seconds'') (py_float ftext)) (\<lambda>b.
     Inr \<lparr>ce_index = i, ce_start = a, ce_duration = b,
          ce_owner = opt_str repr (dget d ''repo_owner''), ce_name = opt_str repr (dget d ''repo_name''),
          ce_source_url = opt_str repr (dget d ''source_url''),
          ce_removed_reason = opt_str repr (dget d ''removed_reason'')\<rparr>))))"

text \<open>The texts a plan entry may hold without being changed by a round trip.\<close>

definition plain_opt :: "string option \<Rightarrow> bool" where
  "plain_opt x \<longleftrightarrow> (case x of None \<Rightarrow> True | Some s \<Rightarrow> s \<noteq> [] \<and> py_strip s = s)"

definition entry_ok :: "clip_entry \<Rightarrow> bool" where
  "entry_ok c \<longleftrightarrow> 0 \<le> ce_index c \<and> plain_opt (ce_owner c) \<and> plain_opt (ce_name c)
     \<and> plain_opt (ce_source_url c) \<and> plain_opt (ce_removed_reason c)"

lemma opt_str_plain [simp]: "plain_opt x \<Longrightarrow> opt_str repr (json_of_opt_str x) = x"
  by (cases x) (auto simp: opt_str_def plain_opt_def)

lemma opt_str_is_plain [simp]: "plain_opt (opt_str repr v)"
  by (simp add: opt_str_def plain_opt_def Let_def)

lemma entry_round_trip: "entry_ok c \<Longrightarrow> entry_from_dict repr ftext (entry_to_dict c) = Inr c"
  by (simp add: entry_ok_def entry_to_dict_def entry_from_dict_def dindex_def check_index_def)

interpretation entry_codec: codec entry_to_dict "entry_from_dict repr ftext" entry_ok
  by unfold_locales (rule entry_round_trip)

lemma entry_from_dict_ok: "entry_from_dict repr ftext j = Inr c \<Longrightarrow> entry_ok c"
  by (auto simp: entry_from_dict_def entry_ok_def and_then_Inr_conv check_index_def split: if_splits)

section \<open>The plan\<close>

definition LEGACY_CLIPSET_SCHEMA_VERSION :: string where
  "LEGACY_CLIPSET_SCHEMA_VERSION = ''squadscope-podcaster-clipset-v1''"

definition CLIPSET_SCHEMA_VERSION :: string where
  "CLIPSET_SCHEMA_VERSION = ''squadscope-podcaster-clipset-v2''"

record clipset =
  cs_job :: string
  cs_clips :: "clip_entry list"
  cs_budget :: "budget_projection option"
  cs_version :: string

definition cs_count :: "clipset \<Rightarrow> int" where
  "cs_count c = int (length (cs_clips c))"

definition indices :: "clipset \<Rightarrow> int list" where
  "indices c = map ce_index (cs_clips c)"

definition entry_of :: "clipset \<Rightarrow> int \<Rightarrow> clip_entry res" where
  "entry_of c i = (case find (\<lambda>e. ce_index e = i) (cs_clips c) of
       Some e \<Rightarrow> Inr e
     | None \<Rightarrow> Inl (Raise KeyErr ''clip_index is not in clipset''))"

definition clipset_from_segments :: "string \<Rightarrow> video_segment list \<Rightarrow> budget_projection option \<Rightarrow> clipset res" where
  "clipset_from_segments job segments budget =
     and_then (map_res (\<lambda>(i, s). entry_from_segment (int i) s) (enumerate 0 segments)) (\<lambda>clips.
     and_then (clean_job_id job) (\<lambda>j.
     Inr \<lparr>cs_job = j, cs_clips = clips, cs_budget = budget,
          cs_version = (if budget = None then LEGACY_CLIPSET_SCHEMA_VERSION else CLIPSET_SCHEMA_VERSION)\<rparr>))"

definition clipset_to_dict :: "clipset \<Rightarrow> dict res" where
  "clipset_to_dict c =
     (let data = [(''schema_version'', JStr (cs_version c)), (''job_id'', JStr (cs_job c)),
                  (''count'', JInt (cs_count c)), (''clips'', JList (map entry_to_dict (cs_clips c)))]
      in if cs_version c = CLIPSET_SCHEMA_VERSION then
           (case cs_budget c of
              None \<Rightarrow> Inl (Raise ClipsetBudgetErr ''current clipset schema requires video_budget'')
            | Some b \<Rightarrow> Inr (data @ [(''video_budget'', JObj (projection_to_dict b))]))
         else if cs_version c = LEGACY_CLIPSET_SCHEMA_VERSION then
           Inr (data @ [(''video_budget'', case cs_budget c of None \<Rightarrow> JNull | Some b \<Rightarrow> JObj (projection_to_dict b))])
         else Inl (Raise ClipsetSchemaErr ''unsupported clipset schema version''))"

definition clipset_from_validated ::
  "(json \<Rightarrow> string) \<Rightarrow> (string \<Rightarrow> rat res) \<Rightarrow> dict \<Rightarrow> string \<Rightarrow> budget_projection option \<Rightarrow> string \<Rightarrow> clipset res" where
  "clipset_from_validated repr ftext d expected_job budget version =
     and_then (and_then (dindex d ''job_id'') (\<lambda>v. clean_job_id (py_str repr v))) (\<lambda>job.
     and_then (clean_job_id expected_job) (\<lambda>expected.
     if job \<noteq> expected then Inl (Raise ClipsetJobMismatchErr ''clipset job_id does not match expected job_id'')
     else
       and_then (and_then (iter_field d ''clips'') (map_res (entry_from_dict repr ftext))) (\<lambda>clips.
       and_then (case dget d ''count'' of JNull \<Rightarrow> Inr () | v \<Rightarrow> and_then (py_int v) (\<lambda>n.
         require (n = int (length clips)) (Raise ValueErr ''clipset count does not match''))) (\<lambda>_.
       Inr \<lparr>cs_job = job, cs_clips = clips, cs_budget = budget, cs_version = version\<rparr>))))"

text \<open>\<open>except (KeyError, TypeError, ValueError)\<close> around the budget, re-raised as a budget error.\<close>

definition clipset_budget :: "string \<Rightarrow> dict \<Rightarrow> budget_projection option res" where
  "clipset_budget version d =
     (if \<not> dhas d ''video_budget'' \<and> version \<noteq> LEGACY_CLIPSET_SCHEMA_VERSION
      then Inl (Raise ClipsetBudgetErr ''clipset video_budget is missing'')
      else case dget d ''video_budget'' of
             JNull \<Rightarrow> (if version = LEGACY_CLIPSET_SCHEMA_VERSION then Inr None
                else Inl (Raise ClipsetBudgetErr ''current clipset schema requires object video_budget''))
           | JObj b \<Rightarrow>
               (case projection_from_dict b of
                  Inr p \<Rightarrow> Inr (Some p)
                | Inl e \<Rightarrow> (if catches [KeyErr, TypeErr, ValueErr] e
                    then Inl (Raise ClipsetBudgetErr ''clipset video_budget is invalid'') else Inl e))
           | _ \<Rightarrow> Inl (Raise ClipsetBudgetErr
                (if version = CLIPSET_SCHEMA_VERSION then ''current clipset schema requires object video_budget''
                 else ''legacy clipset video_budget must be an object or null'')))"

definition clipset_from_dict :: "(json \<Rightarrow> string) \<Rightarrow> (string \<Rightarrow> rat res) \<Rightarrow> json \<Rightarrow> string \<Rightarrow> clipset res" where
  "clipset_from_dict repr ftext data expected_job =
     (case data of
        JObj d \<Rightarrow>
          (case dget d ''schema_version'' of
             JStr version \<Rightarrow>
               (if version \<notin> {LEGACY_CLIPSET_SCHEMA_VERSION, CLIPSET_SCHEMA_VERSION}
                then Inl (Raise ClipsetSchemaErr ''unsupported clipset schema version'')
                else and_then (clipset_budget version d) (\<lambda>budget.
                  clipset_from_validated repr ftext d expected_job budget version))
           | _ \<Rightarrow> Inl (Raise ClipsetSchemaErr ''unsupported clipset schema version''))
      | _ \<Rightarrow> Inl (Raise ValueErr ''clipset payload must be a JSON object''))"

definition clipset_from_legacy_dict :: "(json \<Rightarrow> string) \<Rightarrow> (string \<Rightarrow> rat res) \<Rightarrow> json \<Rightarrow> string \<Rightarrow> clipset res" where
  "clipset_from_legacy_dict repr ftext data expected_job =
     (case data of
        JObj d \<Rightarrow>
          (if dget d ''schema_version'' \<noteq> JStr LEGACY_CLIPSET_SCHEMA_VERSION
           then Inl (Raise ClipsetSchemaErr ''clipset is not a legacy v1 document'')
           else clipset_from_dict repr ftext data expected_job)
      | _ \<Rightarrow> Inl (Raise ValueErr ''clipset payload must be a JSON object''))"

section \<open>Round trips\<close>

definition clipset_ok :: "clipset \<Rightarrow> bool" where
  "clipset_ok c \<longleftrightarrow> cs_job c \<noteq> [] \<and> py_strip (cs_job c) = cs_job c \<and> list_all entry_ok (cs_clips c)
     \<and> (case cs_budget c of None \<Rightarrow> cs_version c = LEGACY_CLIPSET_SCHEMA_VERSION
        | Some p \<Rightarrow> projection_ok p \<and> cs_version c \<in> {LEGACY_CLIPSET_SCHEMA_VERSION, CLIPSET_SCHEMA_VERSION})"

lemma versions_differ [simp]:
  "LEGACY_CLIPSET_SCHEMA_VERSION \<noteq> CLIPSET_SCHEMA_VERSION" "CLIPSET_SCHEMA_VERSION \<noteq> LEGACY_CLIPSET_SCHEMA_VERSION"
  by (simp_all add: LEGACY_CLIPSET_SCHEMA_VERSION_def CLIPSET_SCHEMA_VERSION_def)

lemma clipset_budget_Inr:
  "clipset_budget version d = Inr b \<Longrightarrow> version \<in> {LEGACY_CLIPSET_SCHEMA_VERSION, CLIPSET_SCHEMA_VERSION} \<Longrightarrow>
   (case b of None \<Rightarrow> version = LEGACY_CLIPSET_SCHEMA_VERSION | Some p \<Rightarrow> projection_ok p)"
  by (auto simp: clipset_budget_def split: if_splits json.splits sum.splits dest: projection_from_dict_ok)

text \<open>What a parsed plan is, and that it is the plan of the expected job.\<close>

lemma clipset_from_dict_ok:
  assumes "clipset_from_dict repr ftext j job = Inr c"
  shows "clipset_ok c \<and> clean_job_id job = Inr (cs_job c)"
proof -
  obtain d version budget where d: "j = JObj d" "version \<in> {LEGACY_CLIPSET_SCHEMA_VERSION, CLIPSET_SCHEMA_VERSION}"
      "clipset_budget version d = Inr budget" "clipset_from_validated repr ftext d job budget version = Inr c"
    using assms by (auto simp: clipset_from_dict_def and_then_Inr_conv split: json.splits if_splits)
  obtain clips xs where c: "c = \<lparr>cs_job = py_strip job, cs_clips = clips, cs_budget = budget, cs_version = version\<rparr>"
      "map_res (entry_from_dict repr ftext) xs = Inr clips" "py_strip job \<noteq> []"
    using d(4) by (auto simp: clipset_from_validated_def and_then_Inr_conv clean_job_id_def split: if_splits)
  have "list_all entry_ok clips"
    using c(2) by (induction xs arbitrary: clips) (auto simp: and_then_Inr_conv intro: entry_from_dict_ok)
  then show ?thesis
    using c(1,3) d(2) clipset_budget_Inr [OF d(3,2)]
    by (cases budget) (auto simp: clipset_ok_def clean_job_id_def)
qed

lemma clipset_round_trip:
  assumes "clipset_ok c" "clean_job_id job = Inr (cs_job c)"
  shows "\<exists>d. clipset_to_dict c = Inr d \<and> clipset_from_dict repr ftext (JObj d) job = Inr c"
proof -
  have entries: "map_res (entry_from_dict repr ftext) (map entry_to_dict (cs_clips c)) = Inr (cs_clips c)"
    by (rule entry_codec.decode_list) (use assms(1) in \<open>auto simp: clipset_ok_def list_all_iff\<close>)
  have job: "clean_job_id (cs_job c) = Inr (cs_job c)"
    using assms(1) by (simp add: clipset_ok_def clean_job_id_def)
  have v: "cs_version c \<in> {LEGACY_CLIPSET_SCHEMA_VERSION, CLIPSET_SCHEMA_VERSION}"
    using assms(1) by (auto simp: clipset_ok_def split: option.splits)
  have budget: "clipset_budget (cs_version c) d = Inr (cs_budget c)"
    if "map_of d ''video_budget'' = Some (case cs_budget c of None \<Rightarrow> JNull | Some b \<Rightarrow> JObj (projection_to_dict b))" for d
    using assms(1) that
    by (cases "cs_budget c") (auto simp: clipset_budget_def dget_def dhas_def clipset_ok_def projection_round_trip)
  obtain d where d: "clipset_to_dict c = Inr d" "map_of d ''schema_version'' = Some (JStr (cs_version c))"
      "map_of d ''job_id'' = Some (JStr (cs_job c))" "map_of d ''count'' = Some (JInt (cs_count c))"
      "map_of d ''clips'' = Some (JList (map entry_to_dict (cs_clips c)))"
      "map_of d ''video_budget'' = Some (case cs_budget c of None \<Rightarrow> JNull | Some b \<Rightarrow> JObj (projection_to_dict b))"
    using v assms(1) by (cases "cs_budget c") (auto simp: clipset_to_dict_def Let_def clipset_ok_def)
  have "clipset_from_validated repr ftext d job (cs_budget c) (cs_version c) = Inr c"
    using d(3,4,5) assms(2) job entries
    by (simp add: clipset_from_validated_def dindex_def iter_field_def dget_or_def dget_def cs_count_def)
  then show ?thesis using d(1,2) v budget [OF d(6)] by (auto simp: clipset_from_dict_def dget_def)
qed

definition encode_clipset :: "clipset \<Rightarrow> json" where
  "encode_clipset c = (case clipset_to_dict c of Inr d \<Rightarrow> JObj d | Inl _ \<Rightarrow> JNull)"

interpretation clipset_codec: codec encode_clipset "\<lambda>j. clipset_from_dict repr ftext j job"
  "\<lambda>c. clipset_ok c \<and> clean_job_id job = Inr (cs_job c)"
proof (unfold_locales, goal_cases)
  case (1 c)
  then obtain d where "clipset_to_dict c = Inr d" "clipset_from_dict repr ftext (JObj d) job = Inr c"
    using clipset_round_trip by blast
  then show ?case by (simp add: encode_clipset_def)
qed

end
