(* ===== verification/Recorder.thy ===== *)
theory Recorder
  imports Scratch Clipset ClipManifest
begin

text \<open>
  \<open>podcaster/video/recorder.py\<close>: one recorder takes one clip message, records the clip, uploads and
  verifies the media, and then writes the clip's terminal manifest; a clip that cannot be recorded
  ends in a fallback manifest.  \<open>parse_clip_job\<close> is from \<open>podcaster/queue.py\<close>.  The browser, the
  fallback renderer, the media probe and SHA-256 are parameters (\<open>tools\<close>); running them takes time
  and may fail.
\<close>

section \<open>Parameters and constants\<close>

record record_result =
  re_video :: "string option"
  re_duration_ms :: int
  re_is_fallback :: bool
  re_has_pages :: bool
  re_website_url :: "string option"
  re_is_removed :: bool
  re_recovery_path :: string

text \<open>
  \<open>re_video\<close> is the content of the file at \<open>result.video_path\<close>, \<open>None\<close> when it does not exist.
  The renderer returns its evidence and the rendered file.  \<open>to_exn_name\<close> and \<open>to_exn_text\<close> are the
  texts of an exception's type and of \<open>f"{type(exc).__name__}: {exc}"\<close>.
\<close>

record tools =
  to_repr :: "json \<Rightarrow> string"
  to_ftext :: "string \<Rightarrow> rat res"
  to_sha :: "string \<Rightarrow> string"
  to_exn_name :: "exn \<Rightarrow> string"
  to_exn_text :: "exn \<Rightarrow> string"
  to_capture :: "video_segment \<Rightarrow> record_result res"
  to_validate :: "string \<Rightarrow> rat \<Rightarrow> media_evidence res"
  to_render :: "rat \<Rightarrow> (media_evidence \<times> string) res"
  to_env :: "string \<Rightarrow> string option"

definition MAX_DEQUEUE_COUNT :: int where
  "MAX_DEQUEUE_COUNT = 5"

definition DEFAULT_CLIP_VISIBILITY_TIMEOUT :: int where
  "DEFAULT_CLIP_VISIBILITY_TIMEOUT = 840"

definition DEFAULT_RECORDER_MAX_MESSAGES :: int where
  "DEFAULT_RECORDER_MAX_MESSAGES = 1"

definition DEFAULT_RECORDER_TIMEOUT :: int where
  "DEFAULT_RECORDER_TIMEOUT = 840"

definition DEFAULT_BROWSER_HARD_LIMIT_SECONDS :: int where
  "DEFAULT_BROWSER_HARD_LIMIT_SECONDS = 600"

definition RECORDER_FINALIZATION_RESERVE_SECONDS :: int where
  "RECORDER_FINALIZATION_RESERVE_SECONDS = 60"

definition FAILED_EXECUTION_LIMIT :: int where
  "FAILED_EXECUTION_LIMIT = 2"

definition ATTEMPT_STATE_SCHEMA_VERSION :: int where
  "ATTEMPT_STATE_SCHEMA_VERSION = 1"

text \<open>The statuses of a terminal manifest and the outcomes of a message.\<close>

definition STATUS_SUCCESS :: string where
  "STATUS_SUCCESS = ''success''"

definition STATUS_FALLBACK :: string where
  "STATUS_FALLBACK = ''fallback''"

definition STATUS_RECORDING_INSUFFICIENT :: string where
  "STATUS_RECORDING_INSUFFICIENT = ''recording_insufficient''"

datatype clip_outcome = RECORDED | SKIPPED | FALLBACK_WRITTEN | INSUFFICIENT | RETRY | MALFORMED

definition clip_id :: "int \<Rightarrow> string" where
  "clip_id i = ''clip-'' @ index_text i"

text \<open>\<open>_parse_positive_int\<close>, and \<open>_visibility_timeout\<close> and \<open>_max_messages\<close>, which repeat it.\<close>

definition parse_positive_int :: "(string \<Rightarrow> string option) \<Rightarrow> string \<Rightarrow> int \<Rightarrow> bool \<Rightarrow> int" where
  "parse_positive_int env name dflt allow_zero =
     (let raw = (case env name of None \<Rightarrow> [] | Some s \<Rightarrow> s)
      in if py_strip raw = [] then dflt
         else case int_of_string (py_strip raw) of
                None \<Rightarrow> dflt
              | Some n \<Rightarrow> (if allow_zero \<and> n = 0 then 0 else if 0 < n then n else dflt))"

definition visibility_timeout :: "(string \<Rightarrow> string option) \<Rightarrow> int" where
  "visibility_timeout env =
     parse_positive_int env ''PODCASTER_CLIP_VISIBILITY_TIMEOUT'' DEFAULT_CLIP_VISIBILITY_TIMEOUT False"

definition max_messages :: "(string \<Rightarrow> string option) \<Rightarrow> int" where
  "max_messages env =
     parse_positive_int env ''PODCASTER_RECORDER_MAX_MESSAGES'' DEFAULT_RECORDER_MAX_MESSAGES False"

section \<open>Messages\<close>

text \<open>
  A message body is its candidate documents: what \<open>json.loads\<close> gives for the Base64 reading of the
  body, if it is Base64 of UTF-8, and for the body itself (\<open>None\<close> where it raises).
\<close>

record clip_message =
  cq_id :: string
  cq_dequeue_count :: int
  cq_candidates :: "json option list"

definition CLIP_QUEUE_SCHEMA_VERSION :: string where
  "CLIP_QUEUE_SCHEMA_VERSION = ''squadscope-podcaster-clip-queue-v1''"

definition clip_candidate :: "json option \<Rightarrow> (string \<times> int) option" where
  "clip_candidate c =
     (case c of
        Some (JObj d) \<Rightarrow>
          (if dget d ''schema_version'' \<notin> {JNull, JStr CLIP_QUEUE_SCHEMA_VERSION} then None
           else case (dget d ''job_id'', dget d ''clip_index'') of
             (JStr job, JInt i) \<Rightarrow> (if py_strip job = [] \<or> i < 0 then None else Some (py_strip job, i))
           | _ \<Rightarrow> None)
      | _ \<Rightarrow> None)"

definition parse_clip_job :: "json option list \<Rightarrow> (string \<times> int) res" where
  "parse_clip_job candidates =
     (case List.map_filter clip_candidate candidates of
        x # _ \<Rightarrow> Inr x
      | [] \<Rightarrow> Inl (Raise ValueErr ''clip queue message did not contain a valid job_id and clip_index''))"

section \<open>Durable admission and attempts\<close>

text \<open>\<open>if current: json.loads(current.decode("utf-8"))\<close>: nothing, or the document, or its error.\<close>

definition nonempty :: "blob option \<Rightarrow> blob option" where
  "nonempty b = (if b = Some Empty then None else b)"

definition load_doc :: "blob \<Rightarrow> json res" where
  "load_doc b = (case loads b of None \<Rightarrow> Inl (Raise ValueErr ''invalid JSON'') | Some j \<Rightarrow> Inr j)"

text \<open>\<open>except (KeyError, TypeError, UnicodeError, ValueError) as exc: raise X from exc\<close>.\<close>

definition setup_error :: "string \<Rightarrow> 'a res \<Rightarrow> 'a res" where
  "setup_error msg r = (case r of
       Inl e \<Rightarrow> Inl (if catches [KeyErr, TypeErr, ValueErr] e then Raise RecorderSetupErr msg else e)
     | Inr x \<Rightarrow> Inr x)"

definition admission_callback :: "(json \<Rightarrow> string) \<Rightarrow> string \<Rightarrow> int \<Rightarrow> int \<Rightarrow> dict callback" where
  "admission_callback repr cid now own_now captured current =
     (let admission = setup_error ''invalid recorder admission state''
        (case nonempty current of
           None \<Rightarrow> first_or_existing repr cid None (Aware now)
         | Some b \<Rightarrow> and_then (load_doc b) (\<lambda>j. case j of
              JNull \<Rightarrow> first_or_existing repr cid None (Aware own_now)
            | JObj d \<Rightarrow> first_or_existing repr cid (Some d) (Aware own_now)
            | _ \<Rightarrow> Inl (Raise AttributeErr ''get'')))
      in case and_then admission admission_to_dict of
           Inl e \<Rightarrow> (captured, Inl e)
         | Inr d \<Rightarrow> (dupdate captured d, Inr (Doc (JObj d))))"

definition load_or_create_admission :: "(json \<Rightarrow> string) \<Rightarrow> string \<Rightarrow> int \<Rightarrow> int \<Rightarrow> clip_admission io" where
  "load_or_create_admission repr job i now E w =
     io_bind (io_lift (clip_admission_blob_path job i)) (\<lambda>path.
     io_bind (update_bytes path (admission_callback repr (clip_id i) now (su_utc E (w_tick w))) []) (\<lambda>captured.
     io_lift (setup_error ''invalid recorder admission state'' (admission_from_dict repr captured)))) E w"

definition attempts_err :: exn where
  "attempts_err = Raise ValueErr ''invalid recorder attempt history''"

definition failed_entry :: "json \<Rightarrow> bool" where
  "failed_entry x = (case x of JObj d \<Rightarrow> dget d ''status'' = JStr ''failed'' | _ \<Rightarrow> False)"

definition attempt_document :: "blob option \<Rightarrow> dict res" where
  "attempt_document payload =
     (case nonempty payload of
        None \<Rightarrow> Inr [(''schema_version'', JInt ATTEMPT_STATE_SCHEMA_VERSION), (''failure_count'', JInt 0),
                   (''executions'', JList [])]
      | Some b \<Rightarrow>
          and_then (load_doc b) (\<lambda>j.
          case j of
            JObj d \<Rightarrow>
              (case (py_int (dget_or d ''schema_version'' (JInt 0)), dget d ''executions'') of
                 (Inr v, JList xs) \<Rightarrow>
                   (if v \<noteq> ATTEMPT_STATE_SCHEMA_VERSION \<or> \<not> list_all is_dict xs then Inl attempts_err
                    else
                      let visible = int (length (filter failed_entry xs))
                      in case dget_or d ''failure_count'' (JInt visible) of
                           JInt n \<Rightarrow> (if n < visible then Inl attempts_err else Inr (dset ''failure_count'' (JInt n) d))
                         | _ \<Rightarrow> Inl attempts_err)
               | _ \<Rightarrow> Inl attempts_err)
          | _ \<Rightarrow> Inl attempts_err))"

definition executions_of :: "dict \<Rightarrow> json list" where
  "executions_of d = (case dget d ''executions'' of JList xs \<Rightarrow> xs | _ \<Rightarrow> [])"

definition failures_of :: "dict \<Rightarrow> int" where
  "failures_of d = int_value (dget d ''failure_count'')"

definition has_key :: "string \<Rightarrow> json \<Rightarrow> bool" where
  "has_key k x = (case x of JObj d \<Rightarrow> dget d ''key'' = JStr k | _ \<Rightarrow> False)"

text \<open>\<open>xs[-n:]\<close> for \<open>n > 0\<close>.\<close>

definition last_n :: "nat \<Rightarrow> 'a list \<Rightarrow> 'a list" where
  "last_n n xs = drop (length xs - n) xs"

definition begin_attempt_callback :: "string \<Rightarrow> int \<Rightarrow> int callback" where
  "begin_attempt_callback key now captured current =
     (case setup_error ''invalid recorder attempt history'' (attempt_document current) of
        Inl e \<Rightarrow> (captured, Inl e)
      | Inr d \<Rightarrow>
          (let xs = executions_of d;
               xs' = (if list_ex (has_key key) xs then xs
                 else xs @ [JObj [(''key'', JStr key), (''started_at_utc'', JStr (iso_z now)), (''status'', JStr ''started'')]])
           in (failures_of d, Inr (Doc (JObj (dset ''executions'' (JList (last_n 8 xs')) d))))))"

definition begin_execution :: "string \<Rightarrow> int \<Rightarrow> string \<Rightarrow> int \<Rightarrow> int io" where
  "begin_execution job i key now =
     io_bind (io_lift (clip_attempts_blob_path job i)) (\<lambda>path. update_bytes path (begin_attempt_callback key now) 0)"

text \<open>The first element that satisfies \<open>P\<close> is replaced; \<open>None\<close> when there is none.\<close>

fun change_first :: "('a \<Rightarrow> bool) \<Rightarrow> ('a \<Rightarrow> 'a) \<Rightarrow> 'a list \<Rightarrow> ('a \<times> 'a list) option" where
  "change_first P f [] = None"
| "change_first P f (x # xs) =
     (if P x then Some (x, f x # xs)
      else map_option (\<lambda>(y, ys). (y, x # ys)) (change_first P f xs))"

definition finished_entry :: "string \<Rightarrow> string option \<Rightarrow> int \<Rightarrow> json \<Rightarrow> json" where
  "finished_entry status reason now x = (case x of
       JObj e \<Rightarrow>
         (let e1 = dset ''finished_at_utc'' (JStr (iso_z now)) (dset ''status'' (JStr status) e)
          in JObj (case reason of None \<Rightarrow> e1 | Some r \<Rightarrow> if r = [] then e1 else dset ''reason'' (JStr (take 256 r)) e1))
     | y \<Rightarrow> y)"

definition finish_callback :: "string \<Rightarrow> string \<Rightarrow> string option \<Rightarrow> int \<Rightarrow> int callback" where
  "finish_callback key status reason now captured current =
     (case attempt_document current of
        Inl e \<Rightarrow> (captured, Inl e)
      | Inr d \<Rightarrow>
          (let xs = executions_of d; f = finished_entry status reason now;
               fresh = JObj [(''key'', JStr key), (''started_at_utc'', JStr (iso_z now))];
               (before, xs') = (case change_first (has_key key) f xs of
                   Some (x, ys) \<Rightarrow> (x, ys) | None \<Rightarrow> (fresh, xs @ [f fresh]));
               n = failures_of d + (if status = ''failed'' \<and> \<not> failed_entry before then 1 else 0)
           in (n, Inr (Doc (JObj (dset ''executions'' (JList (last_n 8 xs')) (dset ''failure_count'' (JInt n) d)))))))"

definition finish_execution :: "string \<Rightarrow> int \<Rightarrow> string \<Rightarrow> string \<Rightarrow> string option \<Rightarrow> int \<Rightarrow> int io" where
  "finish_execution job i key status reason now =
     io_bind (io_lift (clip_attempts_blob_path job i)) (\<lambda>path.
     update_bytes path (finish_callback key status reason now) 0)"

definition load_attempts :: "string \<Rightarrow> int \<Rightarrow> dict io" where
  "load_attempts job i =
     io_bind (io_lift (clip_attempts_blob_path job i)) (\<lambda>path.
     io_bind (get_bytes path) (\<lambda>b. io_lift (attempt_document b)))"

section \<open>Deadlines\<close>

definition missing_budget :: exn where
  "missing_budget = Raise ValueErr ''clipset is missing the parent video budget''"

definition browser_deadline :: "clip_admission \<Rightarrow> clipset \<Rightarrow> (string \<Rightarrow> string option) \<Rightarrow> int res" where
  "browser_deadline a cs env =
     (case cs_budget cs of
        None \<Rightarrow> Inl missing_budget
      | Some b \<Rightarrow>
          (let raw = parse_positive_int env ''VIDEO_MAX_CLIP_RECORD_SECONDS'' DEFAULT_BROWSER_HARD_LIMIT_SECONDS True;
               hard_limit = (if raw = 0 then CLIP_LIFETIME_SECONDS else raw);
               visibility_limit = max 0 (visibility_timeout env - RECORDER_FINALIZATION_RESERVE_SECONDS);
               replica_limit = max 0 (parse_positive_int env ''PODCASTER_RECORDER_TIMEOUT'' DEFAULT_RECORDER_TIMEOUT False
                 - RECORDER_FINALIZATION_RESERVE_SECONDS);
               seconds = min (min CLIP_LIFETIME_SECONDS hard_limit) (min visibility_limit replica_limit)
           in and_then (plus_seconds (ca_first a) seconds) (\<lambda>t.
              and_then (stage_deadline_at b FANIN) (\<lambda>u. Inr (min t u)))))"

definition timing_envelope_of :: "clipset \<Rightarrow> clip_admission \<Rightarrow> (string \<Rightarrow> string option) \<Rightarrow> timing_envelope res" where
  "timing_envelope_of cs a env =
     (case cs_budget cs of
        None \<Rightarrow> Inl missing_budget
      | Some b \<Rightarrow> and_then (browser_deadline a cs env) (\<lambda>t. make_envelope b a (Some (Aware t))))"

text \<open>What both remaining times share: a deadline seen through the UTC and the monotonic clock.\<close>

definition remaining_until :: "int res \<Rightarrow> video_stage \<Rightarrow> stage_budget \<Rightarrow> int \<Rightarrow> rat \<Rightarrow> rat io" where
  "remaining_until deadline stage parent admitted_utc admitted_mono =
     io_bind (io_lift deadline) (\<lambda>dl.
     io_bind utcnow (\<lambda>now.
     io_bind monotonic (\<lambda>mono.
     io_bind read_clock (\<lambda>r.
     io_bind (io_lift (remaining_seconds parent stage r)) (\<lambda>rest.
     let durable = total_seconds (dl - now);
         local_left = total_seconds (dl - admitted_utc) - (mono - admitted_mono)
     in io_return (max 0 (min durable (min local_left rest))))))))"

definition remaining_capture :: "timing_envelope \<Rightarrow> stage_budget \<Rightarrow> int \<Rightarrow> rat \<Rightarrow> rat io" where
  "remaining_capture e = remaining_until (effective_deadline e) FANIN"

definition finalization_deadline :: "timing_envelope \<Rightarrow> int res" where
  "finalization_deadline e =
     (case te_browser e of
        None \<Rightarrow> Inl (Raise TypeErr ''unsupported operand'')
      | Some t \<Rightarrow> and_then (plus_seconds t RECORDER_FINALIZATION_RESERVE_SECONDS) (\<lambda>a.
          and_then (stage_deadline_at (te_budget e) FALLBACK) (\<lambda>b. Inr (min a b))))"

definition remaining_finalization :: "timing_envelope \<Rightarrow> stage_budget \<Rightarrow> int \<Rightarrow> rat \<Rightarrow> rat io" where
  "remaining_finalization e = remaining_until (finalization_deadline e) FALLBACK"

definition delete_queue_message :: "string \<Rightarrow> rat \<Rightarrow> bool io" where
  "delete_queue_message mid remaining =
     (if max 0 remaining \<le> 0 then io_return False
      else io_except [PyException] (\<lambda>_. io_return False)
        (io_bind (delete_message mid) (\<lambda>_. io_return True)))"

section \<open>The plan and the manifest\<close>

definition clipset_from_bytes :: "tools \<Rightarrow> blob option \<Rightarrow> string \<Rightarrow> clipset res" where
  "clipset_from_bytes T payload job =
     (case nonempty payload of
        None \<Rightarrow> Inl (Raise ValueErr ''clipset.json was empty or missing'')
      | Some b \<Rightarrow> and_then (load_doc b) (\<lambda>j. clipset_from_dict (to_repr T) (to_ftext T) j job))"

definition recorder_clipset :: "tools \<Rightarrow> blob option \<Rightarrow> string \<Rightarrow> clipset res" where
  "recorder_clipset T payload job =
     (case payload of
        None \<Rightarrow> Inl (Raise FileNotFoundErr ''clipset.json is unavailable'')
      | Some _ \<Rightarrow>
          (case clipset_from_bytes T payload job of
             Inl e \<Rightarrow>
               (if catches [ClipsetJobMismatchErr] e then Inl (Raise ForeignClipsetErr ''invalid recorder clipset'')
                else if catches [ClipsetBudgetErr, ClipsetSchemaErr] e
                then Inl (Raise RecoverableSetupErr ''incompatible recorder clipset'')
                else if catches [KeyErr, TypeErr, ValueErr] e
                then Inl (Raise RecorderSetupErr ''invalid recorder clipset'')
                else Inl e)
           | Inr c \<Rightarrow>
               (if cs_budget c = None
                then Inl (Raise RecoverableSetupErr ''clipset is missing the parent video budget'') else Inr c)))"

definition load_clipset :: "tools \<Rightarrow> string \<Rightarrow> clipset io" where
  "load_clipset T job =
     io_bind (io_lift (clipset_blob_path job)) (\<lambda>path.
     io_bind (get_bytes path) (\<lambda>b. io_lift (recorder_clipset T b job)))"

text \<open>\<open>data[k] = v\<close> under a condition.\<close>

definition dset_when :: "bool \<Rightarrow> string \<Rightarrow> json \<Rightarrow> dict \<Rightarrow> dict" where
  "dset_when c k v d = (if c then dset k v d else d)"

definition manifest_dict :: "clip_manifest \<Rightarrow> dict" where
  "manifest_dict m = (case manifest_to_dict m of JObj d \<Rightarrow> d | _ \<Rightarrow> [])"

definition opt_field :: "string \<Rightarrow> json option \<Rightarrow> dict \<Rightarrow> dict" where
  "opt_field k v d = (case v of None \<Rightarrow> d | Some x \<Rightarrow> dset k x d)"

definition clip_manifest_document ::
  "clip_manifest \<Rightarrow> string \<Rightarrow> string option \<Rightarrow> record_result option \<Rightarrow> media_evidence option
   \<Rightarrow> string option \<Rightarrow> int \<Rightarrow> dict option \<Rightarrow> dict" where
  "clip_manifest_document m status reason recording media path terminal attempts =
     (let d1 = dset ''status'' (JStr status) (manifest_dict m);
          d2 = (case reason of Some r \<Rightarrow> dset_when (r \<noteq> []) ''failure_reason'' (JStr r) d1 | None \<Rightarrow> d1);
          d3 = (case recording of None \<Rightarrow> d2 | Some r \<Rightarrow>
                 dset ''recovery_path'' (JStr (re_recovery_path r))
                   (dset ''is_removed'' (JBool (re_is_removed r))
                     (dset ''website_url'' (json_of_opt_str (re_website_url r))
                       (dset ''has_pages'' (JBool (re_has_pages r)) d2))));
          d4 = opt_field ''media'' (map_option media_to_dict media) d3;
          d5 = opt_field ''media_blob_path'' (map_option JStr path) d4;
          d6 = dset ''terminal_at_utc'' (JStr (iso_z terminal)) d5
      in opt_field ''attempts'' (map_option JObj attempts) d6)"

text \<open>
  \<open>_write_manifest_if_absent\<close>.  The captured flag is set when the callback finds no manifest; it is
  not cleared when the callback runs again.
\<close>

definition manifest_callback :: "blob \<Rightarrow> bool callback" where
  "manifest_callback content wrote current =
     (case nonempty current of Some b \<Rightarrow> (wrote, Inr b) | None \<Rightarrow> (True, Inr content))"

definition write_manifest_if_absent :: "string \<Rightarrow> dict \<Rightarrow> bool io" where
  "write_manifest_if_absent path d = update_bytes path (manifest_callback (Doc (JObj d))) False"

text \<open>\<open>_read_manifest\<close>: unreadable content counts as an empty manifest.\<close>

definition manifest_of :: "blob option \<Rightarrow> dict" where
  "manifest_of b = (case b of Some (Doc (JObj d)) \<Rightarrow> d | _ \<Rightarrow> [])"

definition read_manifest :: "string \<Rightarrow> dict io" where
  "read_manifest path = io_bind (get_bytes path) (\<lambda>b. io_return (manifest_of b))"

definition manifest_is_fallback :: "dict \<Rightarrow> bool" where
  "manifest_is_fallback d \<longleftrightarrow> truthy (dget_or d ''is_fallback'' (JBool False)) \<or> dget d ''status'' = JStr STATUS_FALLBACK"

definition best_effort_delete :: "string \<Rightarrow> unit io" where
  "best_effort_delete path =
     io_except [PyException] (\<lambda>_. io_return ()) (io_bind (delete_blob path) (\<lambda>_. io_return ()))"

definition verify_size :: "string \<Rightarrow> int \<Rightarrow> bool io" where
  "verify_size path expected = io_bind (blob_size path) (\<lambda>actual. io_return (actual = Some expected))"

definition verify_uploaded_content :: "tools \<Rightarrow> string \<Rightarrow> media_evidence \<Rightarrow> unit io" where
  "verify_uploaded_content T path expected =
     io_bind (download_file path) (\<lambda>content.
     case content of
       None \<Rightarrow> io_raise (Raise RuntimeErr ''uploaded media could not be read back'')
     | Some bytes \<Rightarrow>
         (if int (length bytes) \<noteq> me_size expected \<or> to_sha T bytes \<noteq> me_sha expected
          then io_raise (Raise RuntimeErr ''uploaded media identity mismatch'') else io_return ()))"

section \<open>Recording one clip\<close>

text \<open>
  \<open>_finalize\<close>: with an admission check, the call runs within the time it gives (at most
  \<open>requested\<close>), and not at all without time.
\<close>

definition finalize :: "rat io option \<Rightarrow> string \<Rightarrow> rat option \<Rightarrow> 'a io \<Rightarrow> 'a io" where
  "finalize admission msg requested call =
     (case admission of
        None \<Rightarrow> call
      | Some check \<Rightarrow>
          io_bind check (\<lambda>remaining.
          let timeout = (case requested of None \<Rightarrow> remaining | Some q \<Rightarrow> min remaining q)
          in if timeout \<le> 0 then io_raise (Raise StorageTimeoutErr msg) else run_bounded call timeout))"

text \<open>\<open>if check is not None and check() <= 0: raise TimeoutError(...)\<close>.\<close>

definition require_time :: "rat io option \<Rightarrow> string \<Rightarrow> unit io" where
  "require_time check msg =
     (case check of
        None \<Rightarrow> io_return ()
      | Some c \<Rightarrow> io_bind c (\<lambda>r. if r \<le> 0 then io_raise (Raise TimeoutErr msg) else io_return ()))"

definition late :: string where
  "late = ''recorder deadline reached during clip finalization''"

definition clip_manifest_of :: "clip_entry \<Rightarrow> int \<Rightarrow> record_result \<Rightarrow> clip_manifest" where
  "clip_manifest_of entry i result =
     \<lparr>cm_clip_id = clip_id i, cm_duration_ms = re_duration_ms result, cm_repo_url = entry_repo_url entry,
      cm_chapters = [], cm_trim_ranges = [], cm_loop_sections = [], cm_is_fallback = re_is_fallback result,
      cm_schema_version = CLIP_MANIFEST_SCHEMA_VERSION\<rparr>"

text \<open>The upload of the media to the content path and to the legacy path, each verified.\<close>

definition upload_verified ::
  "tools \<Rightarrow> rat io option \<Rightarrow> string \<Rightarrow> string \<Rightarrow> media_evidence \<Rightarrow> string \<Rightarrow> unit io" where
  "upload_verified T admission content legacy evidence video =
     io_bind (finalize admission late None (upload_file content video)) (\<lambda>_.
     io_bind (finalize admission late None (verify_size content (me_size evidence))) (\<lambda>ok.
     if \<not> ok then
       io_bind (best_effort_delete content) (\<lambda>_. io_raise (Raise RuntimeErr ''clip size verification failed''))
     else
     io_bind (io_except [PyException] (\<lambda>e. io_bind (best_effort_delete content) (\<lambda>_. io_raise e))
       (finalize admission late None (verify_uploaded_content T content evidence))) (\<lambda>_.
     io_bind (finalize admission late None (upload_file legacy video)) (\<lambda>_.
     io_bind (finalize admission late None (verify_size legacy (me_size evidence))) (\<lambda>ok2.
     if \<not> ok2 then
       io_bind (best_effort_delete legacy) (\<lambda>_.
       io_bind (best_effort_delete content) (\<lambda>_. io_raise (Raise RuntimeErr ''legacy clip size verification failed'')))
     else io_return ())))))"

text \<open>What follows the conditional write of the manifest.\<close>

definition after_write :: "rat io option \<Rightarrow> string \<Rightarrow> string \<Rightarrow> string \<Rightarrow> bool \<Rightarrow> clip_outcome io" where
  "after_write admission manifest_path content legacy wrote =
     (if wrote then io_return RECORDED
      else
        io_bind (finalize admission late None (read_manifest manifest_path)) (\<lambda>winner.
        io_bind (if dget winner ''media_blob_path'' \<noteq> JStr content then best_effort_delete content else io_return ()) (\<lambda>_.
        io_bind (if manifest_is_fallback winner then best_effort_delete legacy else io_return ()) (\<lambda>_.
        io_return SKIPPED))))"

definition record_clip ::
  "tools \<Rightarrow> string \<Rightarrow> int \<Rightarrow> rat option \<Rightarrow> dict option \<Rightarrow> rat io option \<Rightarrow> rat io option \<Rightarrow> dict io option
   \<Rightarrow> clip_outcome io" where
  "record_clip T job i timeout attempts admission capture finalize_attempts =
     io_bind (io_lift (clip_manifest_blob_path job i)) (\<lambda>manifest_path.
     io_bind (blob_exists manifest_path) (\<lambda>done.
     if done then io_return SKIPPED else
     io_bind (load_clipset T job) (\<lambda>cs.
     io_bind (io_lift (entry_of cs i)) (\<lambda>entry.
     io_bind (external (to_capture T (entry_to_segment entry))) (\<lambda>result.
     case re_video result of
       None \<Rightarrow> io_raise (Raise RuntimeErr ''recorder produced no clip file'')
     | Some video \<Rightarrow>
     io_bind (require_time capture ''recorder deadline reached before clip finalization'') (\<lambda>_.
     io_bind (finalize admission late None
       (external (to_validate T video (max (1 / 1000) (case timeout of None \<Rightarrow> 30 | Some t \<Rightarrow> if t = 0 then 30 else t))))) (\<lambda>evidence.
     io_bind (require_time admission ''recorder deadline reached before clip finalization'') (\<lambda>_.
     io_bind (io_lift (clip_content_blob_path job i (me_sha evidence))) (\<lambda>content.
     io_bind (io_lift (clip_blob_path job i)) (\<lambda>legacy.
     io_bind (finalize admission late None (blob_exists manifest_path)) (\<lambda>done2.
     if done2 then io_return SKIPPED else
     io_bind (upload_verified T admission content legacy evidence video) (\<lambda>_.
     io_bind (case finalize_attempts of None \<Rightarrow> io_return attempts
       | Some f \<Rightarrow> io_bind (finalize admission late None f) (\<lambda>a. io_return (Some a))) (\<lambda>attempts2.
     io_bind (finalize admission late None
       (io_bind utcnow (\<lambda>terminal.
        write_manifest_if_absent manifest_path
          (clip_manifest_document (clip_manifest_of entry i result)
             (if re_is_fallback result then STATUS_FALLBACK else STATUS_SUCCESS) None (Some result) (Some evidence)
             (Some content) terminal attempts2)))) (\<lambda>wrote.
     after_write admission manifest_path content legacy wrote))))))))))))))"

section \<open>The fallback manifest\<close>

definition late_fallback :: string where
  "late_fallback = ''recorder deadline reached during fallback finalization''"

definition upload_fallback ::
  "tools \<Rightarrow> rat io option \<Rightarrow> string \<Rightarrow> int \<Rightarrow> string \<Rightarrow> media_evidence \<Rightarrow> string \<Rightarrow> unit io" where
  "upload_fallback T admission job i content media bytes =
     io_except [PyException] (\<lambda>e. io_bind (best_effort_delete content) (\<lambda>_. io_raise e))
       (io_bind (finalize admission late_fallback None (upload_file content bytes)) (\<lambda>_.
        io_bind (finalize admission late_fallback None (verify_size content (me_size media))) (\<lambda>ok.
        if \<not> ok then io_raise (Raise RuntimeErr ''fallback content-addressed upload size mismatch'')
        else
        io_bind (finalize admission late_fallback None (verify_uploaded_content T content media)) (\<lambda>_.
        io_bind (io_lift (clip_blob_path job i)) (\<lambda>legacy.
        finalize admission late_fallback None (upload_file legacy bytes))))))"

text \<open>The rendered media, or the text of the renderer's failure; running out of time is an error.\<close>

definition render_fallback ::
  "tools \<Rightarrow> rat io option \<Rightarrow> rat \<Rightarrow> (rat \<Rightarrow> (media_evidence \<times> string) res) \<Rightarrow> (string + media_evidence \<times> string) io" where
  "render_fallback T admission timeout render =
     io_bind (io_result (finalize admission late_fallback (Some timeout) (external (render timeout)))) (\<lambda>r.
     case r of
       Inr m \<Rightarrow> io_return (Inr m)
     | Inl e \<Rightarrow> (if catches [StorageTimeoutErr] e \<or> \<not> catches [PyException] e then io_raise e
         else io_return (Inl (take 256 (to_exn_text T e)))))"

definition fallback_manifest :: "int \<Rightarrow> string option \<Rightarrow> bool \<Rightarrow> clip_manifest" where
  "fallback_manifest i repo_url rendered =
     \<lparr>cm_clip_id = clip_id i, cm_duration_ms = (if rendered then 1000 else 0), cm_repo_url = repo_url,
      cm_chapters = [], cm_trim_ranges = [], cm_loop_sections = [], cm_is_fallback = True,
      cm_schema_version = CLIP_MANIFEST_SCHEMA_VERSION\<rparr>"

text \<open>The content path of the rendered media once it is uploaded, \<open>None\<close> without rendered media.\<close>

definition upload_rendered ::
  "tools \<Rightarrow> rat io option \<Rightarrow> string \<Rightarrow> int \<Rightarrow> string + media_evidence \<times> string \<Rightarrow> string option io" where
  "upload_rendered T admission job i rendered =
     (case rendered of
        Inl _ \<Rightarrow> io_return None
      | Inr (media, bytes) \<Rightarrow>
          io_bind (io_lift (clip_content_blob_path job i (me_sha media))) (\<lambda>content.
          io_bind (upload_fallback T admission job i content media bytes) (\<lambda>_.
          io_return (Some content))))"

definition finish_fallback ::
  "rat io option \<Rightarrow> string \<Rightarrow> int \<Rightarrow> string option \<Rightarrow> string \<Rightarrow> dict option \<Rightarrow> string + media_evidence \<times> string
   \<Rightarrow> string option \<Rightarrow> clip_outcome io" where
  "finish_fallback admission manifest_path i repo_url reason attempts rendered content =
     (let status = (if content = None then STATUS_RECORDING_INSUFFICIENT else STATUS_FALLBACK);
          failure = (case rendered of Inl text \<Rightarrow> reason @ ''; '' @ text | Inr _ \<Rightarrow> reason);
          media = (case rendered of Inl _ \<Rightarrow> None | Inr (m, _) \<Rightarrow> Some m)
      in io_bind utcnow (\<lambda>terminal.
         io_bind (finalize admission late_fallback None
           (write_manifest_if_absent manifest_path
              (clip_manifest_document (fallback_manifest i repo_url (content \<noteq> None)) status (Some failure) None
                 media content terminal attempts))) (\<lambda>wrote.
         io_bind (if wrote then io_return () else
             io_bind (finalize admission late_fallback None (read_manifest manifest_path)) (\<lambda>winner.
             case content of
               Some c \<Rightarrow> (if dget winner ''media_blob_path'' \<noteq> JStr c then best_effort_delete c else io_return ())
             | None \<Rightarrow> io_return ())) (\<lambda>_.
         io_return (if status = STATUS_FALLBACK then FALLBACK_WRITTEN else INSUFFICIENT)))))"

definition write_fallback_manifest ::
  "tools \<Rightarrow> string \<Rightarrow> int \<Rightarrow> string \<Rightarrow> rat \<Rightarrow> (rat \<Rightarrow> (media_evidence \<times> string) res) \<Rightarrow> dict option \<Rightarrow> rat io option
   \<Rightarrow> clip_outcome io" where
  "write_fallback_manifest T job i reason timeout render attempts admission =
     io_bind (io_lift (clip_manifest_blob_path job i)) (\<lambda>manifest_path.
     io_bind (finalize admission late_fallback None (blob_exists manifest_path)) (\<lambda>done.
     if done then io_return FALLBACK_WRITTEN else
     io_bind (io_except [KeyErr, ValueErr] (\<lambda>_. io_return None)
       (io_bind (finalize admission late_fallback None (load_clipset T job)) (\<lambda>cs.
        io_lift (and_then (entry_of cs i) (\<lambda>e. Inr (entry_repo_url e)))))) (\<lambda>repo_url.
     if timeout \<le> 0 then io_raise (Raise TimeoutErr ''no fallback rendering budget remains'') else
     io_bind (render_fallback T admission timeout render) (\<lambda>rendered.
     io_bind (upload_rendered T admission job i rendered) (\<lambda>content.
     finish_fallback admission manifest_path i repo_url reason attempts rendered content)))))"

section \<open>One message\<close>

record recorder_start =
  rs_envelope :: timing_envelope
  rs_parent :: stage_budget
  rs_admitted_mono :: rat
  rs_failed_before :: int

definition recorder_setup :: "tools \<Rightarrow> string \<Rightarrow> int \<Rightarrow> string \<Rightarrow> int \<Rightarrow> recorder_start io" where
  "recorder_setup T job i key now =
     io_bind (run_bounded (load_clipset T job) 30) (\<lambda>cs.
     io_bind (run_bounded (load_or_create_admission (to_repr T) job i now) 30) (\<lambda>admission.
     io_bind (io_lift (setup_error ''invalid recorder timing state'' (timing_envelope_of cs admission (to_env T)))) (\<lambda>envelope.
     io_bind monotonic (\<lambda>mono0.
     io_bind (io_lift (setup_error ''invalid recorder timing state''
       (budget_from_dict (projection_to_dict (te_budget envelope)) (Aware now) mono0))) (\<lambda>parent.
     io_bind monotonic (\<lambda>admitted_mono.
     io_bind (run_bounded (begin_execution job i key now) 30) (\<lambda>failed_before.
     io_return \<lparr>rs_envelope = envelope, rs_parent = parent, rs_admitted_mono = admitted_mono,
        rs_failed_before = failed_before\<rparr>)))))))"

definition terminal_reason :: "int \<Rightarrow> int \<Rightarrow> rat \<Rightarrow> string option" where
  "terminal_reason dequeue_count failed_before remaining =
     (if MAX_DEQUEUE_COUNT \<le> dequeue_count
      then Some (''poison: dequeue_count='' @ int_str dequeue_count @ '' >= '' @ int_str MAX_DEQUEUE_COUNT)
      else if FAILED_EXECUTION_LIMIT \<le> failed_before
      then Some (''failed_executions='' @ int_str failed_before @ '' >= '' @ int_str FAILED_EXECUTION_LIMIT)
      else if remaining \<le> 0 then Some ''recorder deadline reached before browser admission''
      else None)"

text \<open>The reason after a failed execution, when the clip is not left for another delivery.\<close>

definition failure_reason :: "int \<Rightarrow> int \<Rightarrow> rat \<Rightarrow> string option" where
  "failure_reason dequeue_count failed_count remaining =
     (if FAILED_EXECUTION_LIMIT \<le> failed_count then Some (''failed_executions='' @ int_str failed_count)
      else if MAX_DEQUEUE_COUNT - 1 \<le> dequeue_count
      then Some (''recording failed after dequeue_count='' @ int_str dequeue_count)
      else if remaining \<le> 0 then Some ''recorder deadline reached after failed execution''
      else None)"

text \<open>A terminal fallback with the attempts so far, within the budget of the run.\<close>

definition terminal_fallback :: "tools \<Rightarrow> string \<Rightarrow> int \<Rightarrow> string \<Rightarrow> stage_budget \<Rightarrow> rat io \<Rightarrow> clip_outcome io" where
  "terminal_fallback T job i reason parent finalization =
     io_bind read_clock (\<lambda>r.
     io_bind (io_lift (operation_timeout parent FALLBACK (Some 30) r)) (\<lambda>timeout.
     io_bind (load_attempts job i) (\<lambda>attempts.
     write_fallback_manifest T job i reason timeout (to_render T) (Some attempts) (Some finalization))))"

text \<open>What \<open>record_clip\<close> is called with, inside the \<open>try\<close>.\<close>

definition attempt_recording ::
  "tools \<Rightarrow> string \<Rightarrow> int \<Rightarrow> string \<Rightarrow> rat \<Rightarrow> rat io \<Rightarrow> rat io \<Rightarrow> clip_outcome io" where
  "attempt_recording T job i key remaining finalization capture =
     io_bind (load_attempts job i) (\<lambda>attempts.
     record_clip T job i (Some remaining) (Some attempts) (Some finalization) (Some capture)
       (Some (io_bind utcnow (\<lambda>now.
          io_bind (finish_execution job i key ''succeeded'' None now) (\<lambda>_. load_attempts job i)))))"

definition process_admitted :: "tools \<Rightarrow> clip_message \<Rightarrow> string \<Rightarrow> int \<Rightarrow> string \<Rightarrow> int \<Rightarrow> recorder_start \<Rightarrow> clip_outcome io" where
  "process_admitted T msg job i key now s =
     (let capture = remaining_capture (rs_envelope s) (rs_parent s) now (rs_admitted_mono s);
          finalization = remaining_finalization (rs_envelope s) (rs_parent s) now (rs_admitted_mono s);
          delete_message = io_bind finalization (\<lambda>r. delete_queue_message (cq_id msg) r)
      in io_bind capture (\<lambda>remaining.
         io_bind (io_lift (clip_manifest_blob_path job i)) (\<lambda>manifest_path.
         io_bind (blob_exists manifest_path) (\<lambda>done.
         if done then io_bind delete_message (\<lambda>_. io_return SKIPPED)
         else case terminal_reason (cq_dequeue_count msg) (rs_failed_before s) remaining of
           Some reason \<Rightarrow>
             io_bind (terminal_fallback T job i reason (rs_parent s) finalization) (\<lambda>outcome.
             io_bind delete_message (\<lambda>_. io_return outcome))
         | None \<Rightarrow>
             io_bind (io_result (attempt_recording T job i key remaining finalization capture)) (\<lambda>r.
             case r of
               Inr outcome \<Rightarrow> io_bind delete_message (\<lambda>_. io_return outcome)
             | Inl e \<Rightarrow>
                 (if \<not> catches [PyException] e then io_raise e
                  else
                    io_bind utcnow (\<lambda>now2.
                    io_bind (finish_execution job i key ''failed'' (Some (to_exn_name T e)) now2) (\<lambda>failed_count.
                    io_bind capture (\<lambda>remaining2.
                    case failure_reason (cq_dequeue_count msg) failed_count remaining2 of
                      None \<Rightarrow> io_return RETRY
                    | Some reason \<Rightarrow>
                        io_bind (terminal_fallback T job i reason (rs_parent s) finalization) (\<lambda>outcome.
                        io_bind (io_lift (clip_blob_path job i)) (\<lambda>legacy.
                        io_bind (best_effort_delete legacy) (\<lambda>_.
                        io_bind delete_message (\<lambda>_. io_return outcome)))))))))))))"

definition process_clip_message :: "tools \<Rightarrow> clip_message \<Rightarrow> clip_outcome io" where
  "process_clip_message T msg =
     (case parse_clip_job (cq_candidates msg) of
        Inl _ \<Rightarrow> io_bind (delete_queue_message (cq_id msg) 30) (\<lambda>_. io_return MALFORMED)
      | Inr (job, i) \<Rightarrow>
          io_bind utcnow (\<lambda>now.
          let key = cq_id msg @ '':'' @ int_str (cq_dequeue_count msg)
          in io_bind (io_result (recorder_setup T job i key now)) (\<lambda>r.
             case r of
               Inr s \<Rightarrow> process_admitted T msg job i key now s
             | Inl e \<Rightarrow>
                 (if catches [RecorderSetupErr] e then
                    io_bind (write_fallback_manifest T job i (''recording timing unavailable: '' @ to_exn_name T e) 30
                      (if catches [ForeignClipsetErr] e then to_render T
                       else (\<lambda>_. Inl (Raise RecorderSetupErr ''fallback source metadata is invalid''))) None None) (\<lambda>outcome.
                    io_bind (delete_queue_message (cq_id msg) 30) (\<lambda>_. io_return outcome))
                  else if catches [PyException] e then io_return RETRY
                  else io_raise e))))"

text \<open>\<open>drain\<close>, with what the successive receives return.\<close>

fun drain :: "tools \<Rightarrow> int \<Rightarrow> clip_message list list \<Rightarrow> clip_outcome list \<Rightarrow> clip_outcome list io" where
  "drain T limit [] outcomes = io_return outcomes"
| "drain T limit (messages # rest) outcomes =
     (if int (length outcomes) < limit \<and> messages \<noteq> []
      then io_bind (io_map (process_clip_message T) messages) (\<lambda>os. drain T limit rest (outcomes @ os))
      else io_return outcomes)"

end
