(* ===== verification/RecorderSafety.thy ===== *)
theory RecorderSafety
  imports Recorder
begin

text \<open>
  What the recorders guarantee about terminal manifests, whatever the other workers do between the
  requests (as long as they keep to the same rule) and whatever request fails: a terminal manifest is
  never changed, a message is removed from the queue only when the manifest of its clip exists, and a
  manifest a recorder wrote is about media that it uploaded and read back.
\<close>

section \<open>The rule about manifests\<close>

text \<open>
  \<open>R\<close> is what is to be kept about the manifest at \<open>p\<close> (or another document that is not a file of the
  recorders or the editors' lease) and the deleted messages; a first document may be written, and an empty blob
  may be replaced.
\<close>

locale manifest_guard =
  fixes E :: surroundings
    and p :: string
    and R :: "blob option \<Rightarrow> string list \<Rightarrow> bool"
  assumes path: "\<not> clip_file p"
    and absent: "R None D \<Longrightarrow> R (Some b) D"
    and empty: "R (Some Empty) D \<Longrightarrow> R (Some b) D"
    and others_keep: "R (sc_blobs s p) D \<Longrightarrow> R (sc_blobs (su_others E n s) p) D"
    and rivals_keep: "R (sc_blobs s p) D \<Longrightarrow> g \<in> set (su_rivals E n) \<Longrightarrow> R (sc_blobs (g s) p) D"

sublocale manifest_guard \<subseteq> steady E "\<lambda>s. R (sc_blobs s p)"
  by unfold_locales (auto intro: others_keep rivals_keep)

context manifest_guard
begin

lemma update_elsewhere: "q \<noteq> p \<Longrightarrow> keeps E Iw (update_bytes q f c)"
  by (rule update_keeps) simp

lemma delete_elsewhere: "q \<noteq> p \<Longrightarrow> keeps E Iw (delete_blob q)"
  by (rule delete_keeps) (simp add: without_path_def)

lemma upload_anywhere [triple_rules]: "keeps E Iw (upload_file q bytes)"
  by (rule upload_keeps) simp

lemma best_effort_elsewhere: "q \<noteq> p \<Longrightarrow> keeps E Iw (best_effort_delete q)"
  unfolding best_effort_delete_def by (intro triple_rules delete_elsewhere)

lemma write_anywhere [triple_rules]: "keeps E Iw (write_manifest_if_absent q d)"
proof (cases "q = p")
  case True
  have "R (Some b) D" if "R (sc_blobs s p) D" "manifest_callback content c (sc_blobs s p) = (c', Inr b)" for s D b c c' content
    using that absent empty by (cases "sc_blobs s p") (auto simp: manifest_callback_def nonempty_def split: if_splits)
  then show ?thesis unfolding write_manifest_if_absent_def by (intro update_keeps) (auto simp: True)
next
  case False
  then show ?thesis unfolding write_manifest_if_absent_def by (rule update_elsewhere)
qed

lemmas kept_elsewhere = other_paths [OF path]

lemma attempts_keep [triple_rules]:
  "keeps E Iw (begin_execution job i key now)"
  "keeps E Iw (finish_execution job i key status reason now)"
  "keeps E Iw (load_attempts job i)"
  "keeps E Iw (load_or_create_admission repr job i now)"
proof -
  show "keeps E Iw (begin_execution job i key now)"
      "keeps E Iw (finish_execution job i key status reason now)" "keeps E Iw (load_attempts job i)"
    unfolding begin_execution_def finish_execution_def load_attempts_def io_bind_lift
    by (intro triple_rules update_elsewhere kept_elsewhere; assumption)+
  have "keeps E Iw (io_bind (io_lift (clip_admission_blob_path job i)) (\<lambda>path.
     io_bind (update_bytes path (admission_callback repr (clip_id i) now own) []) (\<lambda>captured.
     io_lift (setup_error ''invalid recorder admission state'' (admission_from_dict repr captured)))))" for own
    unfolding io_bind_lift by (intro triple_rules update_elsewhere kept_elsewhere; assumption)
  then show "keeps E Iw (load_or_create_admission repr job i now)"
    by (auto simp: triple_def load_or_create_admission_def)
qed

lemma reads_keep [triple_rules]:
  "keeps E Iw (load_clipset T job)" "keeps E Iw (read_manifest q)" "keeps E Iw (verify_size q n)"
  "keeps E Iw (verify_uploaded_content T q m)" "keeps E Iw (remaining_until dl stage parent u v)"
  "keeps E Iw (remaining_capture env parent u v)" "keeps E Iw (remaining_finalization env parent u v)"
  unfolding load_clipset_def read_manifest_def verify_size_def verify_uploaded_content_def remaining_until_def
    remaining_capture_def remaining_finalization_def
  by (intro triple_rules; assumption)+

lemma finalize_keeps [triple_rules]:
  "(\<And>check. admission = Some check \<Longrightarrow> keeps E Iw check) \<Longrightarrow> keeps E Iw m \<Longrightarrow> keeps E Iw (finalize admission msg q m)"
  unfolding finalize_def by (intro triple_rules; assumption | simp)+

lemma require_time_keeps [triple_rules]:
  "(\<And>c. check = Some c \<Longrightarrow> keeps E Iw c) \<Longrightarrow> keeps E Iw (require_time check msg)"
  unfolding require_time_def by (intro triple_rules; assumption | simp)+

lemma uploads_keep:
  assumes "\<And>c. admission = Some c \<Longrightarrow> keeps E Iw c" "content \<noteq> p" "legacy \<noteq> p"
  shows "keeps E Iw (upload_verified T admission content legacy evidence video)"
    and "keeps E Iw (upload_fallback T admission job i content media bytes)"
    and "keeps E Iw (after_write admission q content legacy wrote)"
  unfolding upload_verified_def upload_fallback_def after_write_def
  by (intro triple_rules best_effort_elsewhere assms; (assumption | simp))+

lemma render_keeps [triple_rules]:
  "(\<And>c. admission = Some c \<Longrightarrow> keeps E Iw c) \<Longrightarrow> keeps E Iw (render_fallback T admission t render)"
  unfolding render_fallback_def by (intro triple_rules; (assumption | simp))+

lemma record_clip_keeps:
  assumes "\<And>c. admission = Some c \<Longrightarrow> keeps E Iw c" "\<And>c. capture = Some c \<Longrightarrow> keeps E Iw c"
    and "\<And>f. finalize_attempts = Some f \<Longrightarrow> keeps E Iw f"
  shows "keeps E Iw (record_clip T job i timeout attempts admission capture finalize_attempts)"
  unfolding record_clip_def io_bind_lift
  by (intro triple_rules uploads_keep kept_elsewhere assms; assumption)

lemma fallback_content:
  assumes "\<And>c. admission = Some c \<Longrightarrow> keeps E Iw c"
  shows "triple E Iw (upload_rendered T admission job i rendered) (\<lambda>x w. Iw w \<and> (\<forall>c. x = Some c \<longrightarrow> c \<noteq> p)) (\<lambda>_. Iw)"
proof (cases "\<exists>media bytes content. rendered = Inr (media, bytes) \<and> clip_content_blob_path job i (me_sha media) = Inr content")
  case True
  then obtain media bytes content where r: "rendered = Inr (media, bytes)"
      "clip_content_blob_path job i (me_sha media) = Inr content" by blast
  note c = kept_elsewhere(2) [OF r(2)]
  have "keeps E Iw (upload_fallback T admission job i content media bytes)"
    by (rule uploads_keep) (use assms c in auto)
  then show ?thesis
    using c by (auto simp: upload_rendered_def r io_bind_lift intro!: triple_bind triple_return)
next
  case False
  then show ?thesis
    by (auto simp: upload_rendered_def io_bind_lift intro!: triple_return triple_raise split: sum.splits)
qed

lemma finish_keeps:
  assumes "\<And>c. admission = Some c \<Longrightarrow> keeps E Iw c" "\<And>c. content = Some c \<Longrightarrow> c \<noteq> p"
  shows "keeps E Iw (finish_fallback admission q i repo_url reason attempts rendered content)"
  unfolding finish_fallback_def by (intro triple_rules best_effort_elsewhere assms; assumption)

lemma write_fallback_keeps:
  assumes "\<And>c. admission = Some c \<Longrightarrow> keeps E Iw c"
  shows "keeps E Iw (write_fallback_manifest T job i reason timeout render attempts admission)"
proof -
  have "triple E (\<lambda>w. Iw w \<and> (\<forall>c. content = Some c \<longrightarrow> c \<noteq> p))
      (finish_fallback admission q i repo_url reason attempts rendered content) (\<lambda>_. Iw) (\<lambda>_. Iw)"
    for q repo_url rendered content
    by (intro triple_pure finish_keeps assms) auto
  note last = triple_bind [OF fallback_content [OF assms] this]
  show ?thesis
    unfolding write_fallback_manifest_def io_bind_lift
    by (intro last triple_rules assms; assumption)
qed

lemma process_keeps:
  "keeps E Iw (terminal_fallback T job i reason parent finalization)"
  if "keeps E Iw finalization" for finalization
  unfolding terminal_fallback_def by (intro triple_rules write_fallback_keeps) (use that in auto)

lemma recording_keeps:
  assumes "keeps E Iw finalization" "keeps E Iw capture"
  shows "keeps E Iw (attempt_recording T job i key remaining finalization capture)"
  unfolding attempt_recording_def
  by (intro triple_rules record_clip_keeps) (use assms in \<open>auto intro!: triple_rules\<close>)

lemma setup_keeps: "keeps E Iw (recorder_setup T job i key now)"
  unfolding recorder_setup_def by (intro triple_rules; assumption | simp)+

end

section \<open>A terminal manifest is final\<close>

locale manifest_fixed = manifest_guard +
  assumes deletion: "R b D \<Longrightarrow> R b (D @ [mid])"
begin

lemma queue_delete_keeps [triple_rules]: "keeps E Iw (delete_queue_message mid r)"
  unfolding delete_queue_message_def by (intro triple_rules delete_message_keeps) (auto intro: deletion)

lemma admitted_keeps: "keeps E Iw (process_admitted T msg job i key now s)"
  unfolding process_admitted_def io_bind_lift
  by (intro triple_rules process_keeps recording_keeps best_effort_elsewhere kept_elsewhere; assumption)

lemma message_keeps: "keeps E Iw (process_clip_message T msg)"
  unfolding process_clip_message_def
  by (intro triple_rules admitted_keeps write_fallback_keeps setup_keeps; simp)

end

section \<open>A message is deleted only when its clip is settled\<close>

lemma finalize_tells:
  "triple E (\<lambda>_. True) m Q (\<lambda>_ _. True) \<Longrightarrow> triple E (\<lambda>_. True) (finalize admission msg q m) Q (\<lambda>_ _. True)"
  unfolding finalize_def
  by (auto split: option.splits simp: Let_def run_bounded_def intro!: triple_bind [of _ _ _ "\<lambda>_ _. True"] triple_if triple_raise)
    (auto simp: triple_def split: sum.splits prod.splits)

locale manifest_presence =
  fixes E :: surroundings
    and p :: string
  assumes plain: "\<not> clip_file p"
    and others_leave: "sc_blobs s p \<noteq> None \<Longrightarrow> sc_blobs (su_others E n s) p \<noteq> None"
    and rivals_leave: "sc_blobs s p \<noteq> None \<Longrightarrow> g \<in> set (su_rivals E n) \<Longrightarrow> sc_blobs (g s) p \<noteq> None"

sublocale manifest_presence \<subseteq> there: manifest_fixed E p "\<lambda>b D. b \<noteq> None"
  by unfold_locales (use plain others_leave rivals_leave in auto)

sublocale manifest_presence \<subseteq> unless_there: manifest_guard E p "\<lambda>b D. mid \<notin> set D \<or> b \<noteq> None" for mid
  by unfold_locales (use plain others_leave rivals_leave in auto)

context manifest_presence
begin

abbreviation settled :: "world \<Rightarrow> bool" where
  "settled w \<equiv> sc_blobs (w_scratch w) p \<noteq> None"

abbreviation safe :: "string \<Rightarrow> world \<Rightarrow> bool" where
  "safe mid w \<equiv> mid \<notin> set (w_deleted w) \<or> settled w"

lemma exists_tells: "triple E (\<lambda>_. True) (blob_exists p) (\<lambda>x w. x \<longrightarrow> settled w) (\<lambda>_ _. True)"
  by (auto simp: triple_def blob_exists_def request_def on_scratch_def Let_def split: fault.splits sum.splits prod.splits)

text \<open>\<open>if exists(p): return x\<close>.\<close>

lemma check_ensures:
  assumes "ensures E settled m"
  shows "ensures E settled (io_bind (blob_exists p) (\<lambda>done. if done then io_return x else m))"
    and "ensures E settled (io_bind (finalize admission msg q (blob_exists p)) (\<lambda>done. if done then io_return x else m))"
proof -
  have "triple E (\<lambda>w. d \<longrightarrow> settled w) (if d then io_return x else m) (\<lambda>_. settled) (\<lambda>_ _. True)" for d
    using assms by (cases d) (auto simp: triple_def io_return_def)
  then show "ensures E settled (io_bind (blob_exists p) (\<lambda>done. if done then io_return x else m))"
      "ensures E settled (io_bind (finalize admission msg q (blob_exists p)) (\<lambda>done. if done then io_return x else m))"
    using exists_tells finalize_tells by (blast intro: triple_bind)+
qed

lemma write_ensures: "ensures E settled (write_manifest_if_absent p d)"
proof -
  have "sc_blobs s' p \<noteq> None" if "cas_rounds n gs f c p s = (Inr x, s')" for n gs s s' x and f :: "bool callback" and c
    using that by (induction n gs f c p s rule: cas_rounds.induct) (auto split: prod.splits sum.splits)
  then show ?thesis
    by (fastforce simp: triple_def write_manifest_if_absent_def update_bytes_def request_def on_scratch_def Let_def
        split: fault.splits sum.splits prod.splits)
qed

text \<open>A program that settles the clip, followed by one that leaves it settled.\<close>

lemma write_then:
  assumes "\<And>x. keeps E settled (f x)" "ensures E settled m"
  shows "ensures E settled (io_bind m f)"
proof (rule triple_bind [OF assms(2)])
  show "triple E settled (f x) (\<lambda>_. settled) (\<lambda>_ _. True)" for x
    using assms(1) [of x] by (rule triple_weaken) auto
qed

lemma record_ensures:
  assumes "clip_manifest_blob_path job i = Inr p" "\<And>c. admission = Some c \<Longrightarrow> keeps E settled c"
  shows "ensures E settled (record_clip T job i timeout attempts admission capture finalize_attempts)"
proof -
  have after: "keeps E settled (after_write admission p content legacy wrote)"
    if "clip_content_blob_path job i sha = Inr content" "clip_blob_path job i = Inr legacy" for content legacy wrote sha
    by (rule there.uploads_keep) (use assms(2) there.kept_elsewhere that in auto)
  have writes: "ensures E settled (finalize admission late None
      (io_bind utcnow (\<lambda>terminal. write_manifest_if_absent p (doc terminal))))" for doc
    by (intro finalize_tells ensures_bind write_ensures)
  show ?thesis
    unfolding record_clip_def io_bind_lift assms(1) sum.case
    by (intro check_ensures write_then [OF after writes] triple_sum triple_option ensures_raise ensures_bind; assumption)
qed

lemma fallback_ensures:
  assumes "clip_manifest_blob_path job i = Inr p" "\<And>c. admission = Some c \<Longrightarrow> keeps E settled c"
  shows "ensures E settled (write_fallback_manifest T job i reason timeout render attempts admission)"
proof -
  have "ensures E settled (finish_fallback admission p i repo_url reason attempts rendered content)"
    if "\<And>c. content = Some c \<Longrightarrow> c \<noteq> p" for repo_url rendered content
  proof -
    have "keeps E settled (io_bind (if wrote then io_return () else
         io_bind (finalize admission late_fallback None (read_manifest p)) (\<lambda>winner.
         case content of
           Some c \<Rightarrow> (if dget winner ''media_blob_path'' \<noteq> JStr c then best_effort_delete c else io_return ())
         | None \<Rightarrow> io_return ())) (\<lambda>_. io_return outcome))" for wrote and outcome :: clip_outcome
      by (intro triple_rules there.best_effort_elsewhere that assms(2); assumption)
    then show ?thesis
      unfolding finish_fallback_def Let_def
      by (intro ensures_bind [where m = utcnow] write_then finalize_tells write_ensures)
  qed
  then have "triple E (\<lambda>w. True \<and> (\<forall>c. content = Some c \<longrightarrow> c \<noteq> p))
      (finish_fallback admission p i repo_url reason attempts rendered content) (\<lambda>_. settled) (\<lambda>_ _. True)"
    for repo_url rendered content
    by (rule triple_pure) auto
  moreover have "triple E (\<lambda>_. True) (upload_rendered T admission job i rendered)
      (\<lambda>x w. True \<and> (\<forall>c. x = Some c \<longrightarrow> c \<noteq> p)) (\<lambda>_ _. True)" for rendered
    using there.kept_elsewhere(2)
    by (auto simp: upload_rendered_def io_bind_lift triple_def io_return_def io_raise_def io_bind_def
        split: sum.splits prod.splits)
  ultimately have last: "ensures E settled (io_bind (upload_rendered T admission job i rendered)
      (finish_fallback admission p i repo_url reason attempts rendered))" for repo_url rendered
    by (rule triple_bind [rotated])
  show ?thesis
    unfolding write_fallback_manifest_def io_bind_lift assms(1) sum.case
    by (intro check_ensures last triple_if ensures_raise ensures_bind)
qed

text \<open>Settling the clip and then deleting the message is safe.\<close>

lemma settle_then:
  assumes "keeps E (safe mid) m" "ensures E settled m" "\<And>x. keeps E settled (f x)"
  shows "keeps E (safe mid) (io_bind m f)"
proof (rule triple_bind)
  have "triple E (safe mid) m (\<lambda>_. settled) (\<lambda>_ _. True)"
    using assms(2) by (rule triple_weaken) auto
  from triple_conj [OF assms(1) this]
  show "triple E (safe mid) m (\<lambda>_. settled) (\<lambda>_. safe mid)" by (rule triple_weaken) auto
  show "triple E settled (f x) (\<lambda>_. safe mid) (\<lambda>_. safe mid)" for x
    using assms(3) [of x] by (rule triple_weaken) auto
qed

lemma found_then:
  assumes "keeps E settled m1" "keeps E (safe mid) m2"
  shows "keeps E (safe mid) (io_bind (blob_exists p) (\<lambda>done. if done then m1 else m2))"
proof (rule triple_bind)
  have "triple E (safe mid) (blob_exists p) (\<lambda>x w. x \<longrightarrow> settled w) (\<lambda>_ _. True)"
    using exists_tells by (rule triple_weaken) auto
  from triple_conj [OF unless_there.read_keeps(2) this]
  show "triple E (safe mid) (blob_exists p) (\<lambda>x w. safe mid w \<and> (x \<longrightarrow> settled w)) (\<lambda>_. safe mid)"
    by (rule triple_weaken) auto
  have "triple E (\<lambda>w. safe mid w \<and> settled w) m1 (\<lambda>_. safe mid) (\<lambda>_. safe mid)"
    using assms(1) by (rule triple_weaken) auto
  then show "triple E (\<lambda>w. safe mid w \<and> (x \<longrightarrow> settled w)) (if x then m1 else m2) (\<lambda>_. safe mid) (\<lambda>_. safe mid)" for x
    using assms(2) by (cases x) simp_all
qed

lemma terminal_ensures:
  assumes "clip_manifest_blob_path job i = Inr p" "keeps E settled finalization"
  shows "ensures E settled (terminal_fallback T job i reason parent finalization)"
  unfolding terminal_fallback_def
  by (intro ensures_bind fallback_ensures assms(1)) (use assms(2) in auto)

lemma recording_ensures:
  assumes "clip_manifest_blob_path job i = Inr p" "keeps E settled finalization"
  shows "ensures E settled (attempt_recording T job i key remaining finalization capture)"
  unfolding attempt_recording_def
  by (intro ensures_bind record_ensures assms(1)) (use assms(2) in auto)

lemma result_ensures:
  "keeps E (safe mid) m \<Longrightarrow> ensures E settled m \<Longrightarrow>
   triple E (safe mid) (io_result m) (\<lambda>r w. safe mid w \<and> (\<forall>x. r = Inr x \<longrightarrow> settled w)) (\<lambda>_. safe mid)"
  unfolding triple_def io_result_def by (fastforce split: sum.splits prod.splits)

lemma admitted_safe:
  assumes p: "clip_manifest_blob_path job i = Inr p" and mid: "cq_id msg = mid"
  shows "keeps E (safe mid) (process_admitted T msg job i key now s)"
proof -
  let ?fin = "remaining_finalization (rs_envelope s) (rs_parent s) now (rs_admitted_mono s)"
  let ?cap = "remaining_capture (rs_envelope s) (rs_parent s) now (rs_admitted_mono s)"
  have del: "keeps E settled (io_bind (io_bind ?fin (\<lambda>r. delete_queue_message mid r)) (\<lambda>_. io_return outcome))"
    for outcome :: clip_outcome
    by (intro triple_rules there.reads_keep there.queue_delete_keeps)
  have fin: "keeps E settled ?fin" by (rule there.reads_keep)
  have fallback: "keeps E (safe mid) (terminal_fallback T job i reason (rs_parent s) ?fin)"
      "ensures E settled (terminal_fallback T job i reason (rs_parent s) ?fin)" for reason
    by (intro unless_there.process_keeps unless_there.reads_keep terminal_ensures p fin)+
  have legacy: "keeps E settled (case clip_blob_path job i of Inl e \<Rightarrow> io_raise e
      | Inr legacy \<Rightarrow> io_bind (best_effort_delete legacy) (\<lambda>_.
          io_bind (io_bind ?fin (\<lambda>r. delete_queue_message mid r)) (\<lambda>_. io_return outcome)))"
    for outcome :: clip_outcome
    by (intro triple_rules there.best_effort_elsewhere there.kept_elsewhere there.reads_keep there.queue_delete_keeps; assumption)
  have failed: "keeps E (safe mid)
      (io_bind utcnow (\<lambda>now2.
       io_bind (finish_execution job i key ''failed'' (Some (to_exn_name T e)) now2) (\<lambda>failed_count.
       io_bind ?cap (\<lambda>remaining2.
       case failure_reason (cq_dequeue_count msg) failed_count remaining2 of
         None \<Rightarrow> io_return RETRY
       | Some reason \<Rightarrow>
           io_bind (terminal_fallback T job i reason (rs_parent s) ?fin) (\<lambda>outcome.
           case clip_blob_path job i of Inl e \<Rightarrow> io_raise e
           | Inr legacy \<Rightarrow> io_bind (best_effort_delete legacy) (\<lambda>_.
               io_bind (io_bind ?fin (\<lambda>r. delete_queue_message mid r)) (\<lambda>_. io_return outcome)))))))" for e
    by (intro settle_then [OF fallback legacy] triple_rules)
  have attempt: "triple E (safe mid) (io_result (attempt_recording T job i key remaining ?fin ?cap))
      (\<lambda>r w. safe mid w \<and> (\<forall>x. r = Inr x \<longrightarrow> settled w)) (\<lambda>_. safe mid)" for remaining
    by (intro result_ensures unless_there.recording_keeps unless_there.reads_keep recording_ensures p fin)
  have after: "triple E (\<lambda>w. safe mid w \<and> (\<forall>x. r = Inr x \<longrightarrow> settled w))
      (case r of Inr outcome \<Rightarrow> io_bind (io_bind ?fin (\<lambda>r. delete_queue_message mid r)) (\<lambda>_. io_return outcome)
       | Inl e \<Rightarrow> if \<not> catches [PyException] e then io_raise e else F e) (\<lambda>_. safe mid) (\<lambda>_. safe mid)"
    if "\<And>e. keeps E (safe mid) (F e)" for r :: "clip_outcome res" and F
  proof (cases r)
    case (Inl e)
    then show ?thesis using that [of e] by (auto intro: triple_weaken triple_raise)
  next
    case (Inr outcome)
    have "triple E (\<lambda>w. safe mid w \<and> settled w) (io_bind (io_bind ?fin (\<lambda>r. delete_queue_message mid r)) (\<lambda>_. io_return outcome))
        (\<lambda>_. safe mid) (\<lambda>_. safe mid)"
      using del by (rule triple_weaken) auto
    then show ?thesis using Inr by simp
  qed
  show ?thesis
    unfolding process_admitted_def Let_def io_bind_lift p sum.case mid
    by (intro keeps_bind [where m = ?cap] unless_there.reads_keep found_then del triple_option
        settle_then [OF fallback del] triple_bind [OF attempt after] failed)
qed

lemma message_safe:
  assumes msg: "parse_clip_job (cq_candidates msg) = Inr (job, i)" "cq_id msg = mid"
    and p: "clip_manifest_blob_path job i = Inr p"
  shows "keeps E (safe mid) (process_clip_message T msg)"
proof -
  have del: "keeps E settled (io_bind (delete_queue_message mid 30) (\<lambda>_. io_return outcome))" for outcome :: clip_outcome
    by (intro triple_rules there.queue_delete_keeps)
  have fallback: "keeps E (safe mid) (write_fallback_manifest T job i reason 30 render None None)"
      "ensures E settled (write_fallback_manifest T job i reason 30 render None None)" for reason render
    by (intro unless_there.write_fallback_keeps fallback_ensures p; simp)+
  show ?thesis
    unfolding process_clip_message_def msg sum.case prod.case Let_def
    by (intro settle_then [OF fallback del] triple_rules unless_there.setup_keeps admitted_safe p msg(2))
qed

end

section \<open>The guarantees\<close>

text \<open>The other workers keep a terminal manifest, and leave no manifest away.\<close>

definition manifest_respected :: "surroundings \<Rightarrow> string \<Rightarrow> bool" where
  "manifest_respected E p \<longleftrightarrow> (\<forall>s g j. sc_blobs s p = Some (Doc j) \<longrightarrow> (\<forall>n. g = su_others E n \<or> g \<in> set (su_rivals E n) \<longrightarrow>
     sc_blobs (g s) p = Some (Doc j)))"

definition manifest_stays :: "surroundings \<Rightarrow> string \<Rightarrow> bool" where
  "manifest_stays E p \<longleftrightarrow> (\<forall>s g. sc_blobs s p \<noteq> None \<longrightarrow> (\<forall>n. g = su_others E n \<or> g \<in> set (su_rivals E n) \<longrightarrow>
     sc_blobs (g s) p \<noteq> None))"

text \<open>Claim C4: terminal manifests are final.  However a clip message is processed -- whatever the other
  workers do in between, as long as they keep the manifest too, and whatever storage request fails
  before or after its effect -- the terminal manifest of any clip is the same document afterwards.\<close>

theorem terminal_manifest_is_final:
  assumes "clip_manifest_blob_path job i = Inr p" "manifest_respected E p"
    and "sc_blobs (w_scratch w) p = Some (Doc j)"
    and "process_clip_message T msg E w = (r, w')"
  shows "sc_blobs (w_scratch w') p = Some (Doc j)"
proof -
  have "manifest_fixed E p (\<lambda>b D. b = Some (Doc j))"
    by unfold_locales (use manifest_path_plain [OF assms(1)] assms(2) in \<open>auto simp: manifest_respected_def\<close>)
  from keepsD [OF manifest_fixed.message_keeps [OF this] assms(3,4)] show ?thesis .
qed

text \<open>Claim C6: no clip is lost.  A clip message is removed from the queue only when a manifest of its clip
  exists: if the message was not deleted before it was processed and is deleted afterwards, its clip
  has a manifest, whatever the others do and whatever fails (as long as nobody else deletes manifests).\<close>

theorem message_deleted_only_when_settled:
  assumes "parse_clip_job (cq_candidates msg) = Inr (job, i)" "clip_manifest_blob_path job i = Inr p"
    and "manifest_stays E p" "cq_id msg \<notin> set (w_deleted w)"
    and "process_clip_message T msg E w = (r, w')" "cq_id msg \<in> set (w_deleted w')"
  shows "sc_blobs (w_scratch w') p \<noteq> None"
proof -
  have presence: "manifest_presence E p"
    by unfold_locales (use manifest_path_plain [OF assms(2)] assms(3) in \<open>auto simp: manifest_stays_def\<close>)
  from keepsD [OF manifest_presence.message_safe [OF this assms(1) refl assms(2)] _ assms(5)]
  show ?thesis using assms(4,6) by auto
qed

section \<open>Workers that keep the rule\<close>

text \<open>A fleet: before each request of a worker, another recorder processes a message of its own.\<close>

definition recorder_act :: "int \<Rightarrow> tools \<Rightarrow> clip_message \<Rightarrow> scratch \<Rightarrow> scratch" where
  "recorder_act t T msg s = w_scratch (snd (process_clip_message T msg (alone t) (world_of s)))"

definition fleet :: "int \<Rightarrow> tools \<Rightarrow> (nat \<Rightarrow> clip_message) \<Rightarrow> (nat \<Rightarrow> fault) \<Rightarrow> surroundings" where
  "fleet t T msgs fate = \<lparr>su_others = (\<lambda>n. recorder_act t T (msgs n)), su_rivals = (\<lambda>n. [recorder_act t T (msgs n)]),
     su_fate = fate, su_delay = (\<lambda>_. 1), su_utc = (\<lambda>n. t + int n)\<rparr>"

definition manifest_path_text :: "string \<Rightarrow> int \<Rightarrow> string" where
  "manifest_path_text job i = (case clip_manifest_blob_path job i of Inr p \<Rightarrow> p | Inl _ \<Rightarrow> ''.manifest.json'')"

lemma manifest_path_text_plain: "\<not> clip_file (manifest_path_text job i)"
  using not_clip_file(1) [of "''.manifest.json''"]
  by (auto simp: manifest_path_text_def ends_with_def split: sum.splits dest: manifest_path_plain)

interpretation alone_fixed: manifest_fixed "alone t" "manifest_path_text job i" "\<lambda>b D. b = Some (Doc j)" for t job i j
  by unfold_locales (auto simp: alone_def manifest_path_text_plain)

interpretation alone_presence: manifest_presence "alone t" "manifest_path_text job i" for t job i
  by unfold_locales (auto simp: alone_def manifest_path_text_plain)

lemma recorder_act_keeps:
  "sc_blobs s (manifest_path_text job i) = Some (Doc j) \<Longrightarrow>
   sc_blobs (recorder_act t T msg s) (manifest_path_text job i) = Some (Doc j)"
  using keepsD [OF alone_fixed.message_keeps, of "world_of s" job i j T msg t]
  by (cases "process_clip_message T msg (alone t) (world_of s)") (auto simp: recorder_act_def world_of_def)

interpretation fleet_fixed: manifest_fixed "fleet t T msgs fate" "manifest_path_text job i" "\<lambda>b D. b = Some (Doc j)"
  for t T msgs fate job i j
  by unfold_locales (auto simp: fleet_def manifest_path_text_plain recorder_act_keeps)

section \<open>Examples\<close>

definition idle_tools :: tools where
  "idle_tools = \<lparr>to_repr = (\<lambda>_. []), to_ftext = (\<lambda>_. Inl (Raise ValueErr [])), to_sha = (\<lambda>s. s),
     to_exn_name = (\<lambda>_. ''error''), to_exn_text = (\<lambda>_. ''error''),
     to_capture = (\<lambda>_. Inl (Raise RuntimeErr ''no browser'')), to_validate = (\<lambda>_ _. Inl (Raise RuntimeErr ''no probe'')),
     to_render = (\<lambda>_. Inl (Raise RuntimeErr ''no renderer'')), to_env = (\<lambda>_. None)\<rparr>"

definition first_message :: clip_message where
  "first_message = \<lparr>cq_id = ''m1'', cq_dequeue_count = 1,
     cq_candidates = [None, Some (JObj [(''job_id'', JStr ''j''), (''clip_index'', JInt 0)])]\<rparr>"

text \<open>A container whose plan is not JSON, with the terminal manifest \<open>m\<close> or without one.\<close>

definition broken_plan :: "json option \<Rightarrow> scratch" where
  "broken_plan m = \<lparr>sc_blobs = [''video-jobs/j/clipset.json'' \<mapsto> Corrupt](''video-jobs/j/clips/000.manifest.json'' := map_option Doc m),
     sc_media = Map.empty\<rparr>"

lemma plain_j [simp]: "py_strip ''j'' = ''j''"
proof -
  have "\<not> py_isspace (CHR ''j'')" by (simp add: py_isspace_def)
  then show ?thesis by (simp add: py_strip_def)
qed

lemma index_text_0: "index_text 0 = ''000''"
proof -
  have "digit_char 0 = CHR ''0''" by code_simp
  then show ?thesis by (simp add: index_text_def numeral_3_eq_3)
qed

lemma job_paths [simp]:
  "clipset_blob_path ''j'' = Inr ''video-jobs/j/clipset.json''"
  "clip_manifest_blob_path ''j'' 0 = Inr ''video-jobs/j/clips/000.manifest.json''"
  by (simp_all add: clean_job_id_def clipset_blob_path_def job_prefix_def clip_manifest_blob_path_def
      indexed_path_def clips_prefix_def check_index_def index_text_0)

lemma first_job: "parse_clip_job (cq_candidates first_message) = Inr (''j'', 0)"
  by (simp add: parse_clip_job_def first_message_def List.map_filter_def clip_candidate_def)

lemma exn_is_simps [simp]:
  "exn_is c c" "exn_is RecorderSetupErr ValueErr" "exn_is ForeignClipsetErr ValueErr" "exn_is RuntimeErr PyException"
  "exn_is ForeignClipsetErr RecorderSetupErr" "\<not> exn_is RuntimeErr RecorderSetupErr" "\<not> exn_is RuntimeErr StorageTimeoutErr"
  "\<not> exn_is RecorderSetupErr ForeignClipsetErr" "\<not> exn_is RecorderSetupErr StorageTimeoutErr"
  "exn_is RecorderSetupErr PyException" "\<not> exn_is ValueErr ClipsetJobMismatchErr" "\<not> exn_is ValueErr ClipsetBudgetErr"
  "\<not> exn_is ValueErr ClipsetSchemaErr"
  by (simp_all add: exn_is_def eval_nat_numeral)

lemmas io_run = io_bind_def io_return_def io_raise_def io_lift_def io_result_def io_except_def request_def
  on_scratch_def next_tick_def get_bytes_def blob_exists_def update_bytes_def delete_message_def external_def
  utcnow_def monotonic_def read_clock_def run_bounded_def delete_queue_message_def catches_def

lemma broken_plan_read: "recorder_clipset T (Some Corrupt) job = Inl (Raise RecorderSetupErr ''invalid recorder clipset'')"
  by (simp add: recorder_clipset_def clipset_from_bytes_def nonempty_def load_doc_def catches_def)

lemma broken_run:
  "\<exists>w'. process_clip_message idle_tools first_message (alone 0) (world_of (broken_plan None)) = (Inr INSUFFICIENT, w')
     \<and> w_deleted w' = [''m1'']"
  "\<exists>w'. process_clip_message idle_tools first_message (alone 0) (world_of (broken_plan (Some j))) = (Inr FALLBACK_WRITTEN, w')
     \<and> w_deleted w' = [''m1'']"
  by (simp_all add: process_clip_message_def first_job io_run alone_def world_of_def recorder_setup_def load_clipset_def
      broken_plan_def broken_plan_read write_fallback_manifest_def finalize_def render_fallback_def upload_rendered_def
      finish_fallback_def write_manifest_if_absent_def manifest_callback_def nonempty_def first_message_def [THEN arg_cong [of _ _ cq_id]]
      first_message_def [THEN arg_cong [of _ _ cq_dequeue_count]]
      idle_tools_def Let_def eval_nat_numeral STATUS_FALLBACK_def STATUS_RECORDING_INSUFFICIENT_def)

lemma alone_respects: "manifest_respected (alone t) p" "manifest_stays (alone t) p"
  by (simp_all add: manifest_respected_def manifest_stays_def alone_def)

theorem terminal_manifest_is_final_witness:
  "\<exists>r w'. process_clip_message idle_tools first_message (alone 0) (world_of (broken_plan (Some (JInt 7)))) = (r, w')
    \<and> sc_blobs (w_scratch w') ''video-jobs/j/clips/000.manifest.json'' = Some (Doc (JInt 7))"
proof -
  obtain r w' where run: "process_clip_message idle_tools first_message (alone 0) (world_of (broken_plan (Some (JInt 7)))) = (r, w')"
    using broken_run(2) by blast
  have "sc_blobs (w_scratch (world_of (broken_plan (Some (JInt 7))))) ''video-jobs/j/clips/000.manifest.json'' = Some (Doc (JInt 7))"
    by (simp add: world_of_def broken_plan_def)
  from terminal_manifest_is_final [OF job_paths(2) alone_respects(1) this run] run show ?thesis by blast
qed

theorem message_deleted_only_when_settled_witness:
  "\<exists>w'. process_clip_message idle_tools first_message (alone 0) (world_of (broken_plan None)) = (Inr INSUFFICIENT, w')
    \<and> w_deleted w' = [''m1''] \<and> sc_blobs (w_scratch w') ''video-jobs/j/clips/000.manifest.json'' \<noteq> None"
proof -
  obtain w' where run: "process_clip_message idle_tools first_message (alone 0) (world_of (broken_plan None)) = (Inr INSUFFICIENT, w')"
      "w_deleted w' = [''m1'']"
    using broken_run(1) by blast
  have "cq_id first_message \<notin> set (w_deleted (world_of (broken_plan None)))" "cq_id first_message \<in> set (w_deleted w')"
    by (simp_all add: world_of_def first_message_def run(2))
  from message_deleted_only_when_settled [OF first_job job_paths(2) alone_respects(2) this(1) run(1) this(2)] run
  show ?thesis by blast
qed

section \<open>Flaws of the conditional write\<close>

text \<open>
  When another worker's manifest wins the first attempt, the callback runs again and keeps that
  manifest, but the flag of the first run survives: the call reports that it wrote.
\<close>

definition contended :: "json \<Rightarrow> string \<Rightarrow> surroundings" where
  "contended other p = (alone 0)\<lparr>su_rivals := (\<lambda>_. [\<lambda>s. s\<lparr>sc_blobs := (sc_blobs s)(p \<mapsto> Doc other)\<rparr>])\<rparr>"

theorem lost_write_reported_as_written:
  assumes "sc_blobs (w_scratch w) p = None"
  shows "\<exists>w'. write_manifest_if_absent p d (contended other p) w = (Inr True, w')
    \<and> sc_blobs (w_scratch w') p = Some (Doc other)"
  using assms
  by (simp add: write_manifest_if_absent_def io_run contended_def alone_def manifest_callback_def nonempty_def Let_def
      eval_nat_numeral)

theorem lost_write_reported_as_written_witness:
  "\<exists>w'. write_manifest_if_absent ''m'' [] (contended (JInt 1) ''m'') (world_of (broken_plan None)) = (Inr True, w')
    \<and> sc_blobs (w_scratch w') ''m'' = Some (Doc (JInt 1))"
proof -
  have "sc_blobs (w_scratch (world_of (broken_plan None))) ''m'' = None"
    by (simp add: world_of_def broken_plan_def)
  from lost_write_reported_as_written [OF this] show ?thesis .
qed

text \<open>
  Two workers write the same fallback media for a clip: its path is the digest of its content, so they
  share the file.  The first settles the clip; the second fails to check its upload and cleans up.
\<close>

definition settled_meanwhile :: "string \<Rightarrow> dict \<Rightarrow> string \<Rightarrow> string \<Rightarrow> surroundings" where
  "settled_meanwhile p d content bytes = (alone 0)\<lparr>
     su_others := (\<lambda>n s. if n = 1 then s\<lparr>sc_blobs := (sc_blobs s)(p \<mapsto> Doc (JObj d)),
       sc_media := (sc_media s)(content \<mapsto> bytes)\<rparr> else s),
     su_fate := (\<lambda>n. if n = 1 then FailBefore (Raise StorageUnavailableErr ''no answer'') else NoFault)\<rparr>"

theorem cleanup_removes_settled_media:
  assumes "dget d ''media_blob_path'' = JStr content" "w_tick w = 0" "content \<noteq> p"
  shows "\<exists>w'. upload_fallback T None job i content media bytes (settled_meanwhile p d content bytes) w
        = (Inl (Raise StorageUnavailableErr ''no answer''), w')
     \<and> sc_blobs (w_scratch w') p = Some (Doc (JObj d)) \<and> dget d ''media_blob_path'' = JStr content
     \<and> sc_media (w_scratch w') content = None"
proof -
  have "exn_is StorageUnavailableErr PyException" by (simp add: exn_is_def eval_nat_numeral)
  then show ?thesis
    using assms
    by (simp add: upload_fallback_def io_run finalize_def upload_file_def verify_size_def blob_size_def settled_meanwhile_def
        alone_def Let_def best_effort_delete_def delete_blob_def without_path_def)
qed

theorem cleanup_removes_settled_media_witness:
  "\<exists>w'. upload_fallback idle_tools None ''j'' 0 ''c'' \<lparr>me_size = 1, me_sha = [], me_probe = \<lparr>pe_format = ''webm'', pe_duration = None\<rparr>\<rparr>
       ''x'' (settled_meanwhile ''m'' [(''media_blob_path'', JStr ''c'')] ''c'' ''x'') (world_of (broken_plan None))
     = (Inl (Raise StorageUnavailableErr ''no answer''), w')
   \<and> sc_blobs (w_scratch w') ''m'' = Some (Doc (JObj [(''media_blob_path'', JStr ''c'')]))
   \<and> sc_media (w_scratch w') ''c'' = None"
proof -
  have "dget [(''media_blob_path'', JStr ''c'')] ''media_blob_path'' = JStr ''c''" "w_tick (world_of (broken_plan None)) = 0"
      "''c'' \<noteq> ''m''"
    by (simp_all add: world_of_def)
  from cleanup_removes_settled_media [OF this] show ?thesis by blast
qed

section \<open>A poisoned setup is retried for ever\<close>

text \<open>
  A setup that fails with anything but malformed durable state leaves the message for another
  delivery whatever its dequeue count: the limit \<open>MAX_DEQUEUE_COUNT\<close> is only looked at afterwards.
\<close>

definition budgetless_plan :: scratch where
  "budgetless_plan = \<lparr>sc_blobs = [''video-jobs/j/clipset.json'' \<mapsto> Doc (JObj
       [(''schema_version'', JStr ''squadscope-podcaster-clipset-v2''), (''job_id'', JStr ''j'')])], sc_media = Map.empty\<rparr>"

theorem poisoned_setup_is_retried:
  "\<exists>w'. process_clip_message idle_tools (first_message\<lparr>cq_dequeue_count := 5 + int n\<rparr>) (alone 0) (world_of budgetless_plan)
      = (Inr RETRY, w') \<and> w_deleted w' = [] \<and> w_scratch w' = budgetless_plan"
proof -
  have budget: "recorder_clipset T (Some (Doc (JObj [(''schema_version'', JStr ''squadscope-podcaster-clipset-v2''),
      (''job_id'', JStr ''j'')]))) ''j'' = Inl (Raise RecoverableSetupErr ''incompatible recorder clipset'')" for T
    by (simp add: recorder_clipset_def clipset_from_bytes_def nonempty_def load_doc_def clipset_from_dict_def
        clipset_budget_def CLIPSET_SCHEMA_VERSION_def LEGACY_CLIPSET_SCHEMA_VERSION_def catches_def exn_is_def eval_nat_numeral)
  have e: "\<not> exn_is RecoverableSetupErr RecorderSetupErr" "exn_is RecoverableSetupErr PyException"
    by (simp_all add: exn_is_def eval_nat_numeral)
  have msg: "parse_clip_job (cq_candidates (first_message\<lparr>cq_dequeue_count := k\<rparr>)) = Inr (''j'', 0)" for k
    using first_job by (simp add: first_message_def)
  show ?thesis
    by (simp add: process_clip_message_def msg first_job io_run alone_def world_of_def recorder_setup_def load_clipset_def
        budgetless_plan_def budget e Let_def)
qed

end
