(* ===== verification/RecorderMedia.thy ===== *)
theory RecorderMedia
  imports RecorderSafety
begin

text \<open>
  A recorder that reports a clip as recorded has uploaded its media to the content path, read it back
  with the size and the digest of its evidence, and written the manifest that names both.
\<close>

definition media_matches :: "tools \<Rightarrow> media_evidence \<Rightarrow> string \<Rightarrow> bool" where
  "media_matches T m bytes \<longleftrightarrow> int (length bytes) = me_size m \<and> to_sha T bytes = me_sha m"

section \<open>Verified media stays\<close>

locale media_guard =
  fixes E :: surroundings
    and c :: string
    and G :: "string \<Rightarrow> bool"
  assumes others_media: "sc_media s c = Some b \<Longrightarrow> sc_media (su_others E n s) c = Some b"
    and rivals_media: "sc_media s c = Some b \<Longrightarrow> g \<in> set (su_rivals E n) \<Longrightarrow> sc_media (g s) c = Some b"

sublocale media_guard \<subseteq> steady E "\<lambda>s D. \<exists>b. sc_media s c = Some b \<and> G b"
  by unfold_locales (auto dest: others_media rivals_media)

context media_guard
begin

lemmas clock_media = clock_keeps

lemma update_media [triple_rules]: "keeps E Iw (update_bytes q f x)"
  by (rule update_keeps) simp

lemma upload_media: "q \<noteq> c \<Longrightarrow> keeps E Iw (upload_file q bytes)"
  by (rule upload_keeps) simp

lemma deletion_media [triple_rules]: "keeps E Iw (delete_queue_message mid r)"
  unfolding delete_queue_message_def by (intro triple_rules delete_message_keeps) auto

lemma delete_media: "q \<noteq> c \<Longrightarrow> keeps E Iw (best_effort_delete q)"
  unfolding best_effort_delete_def by (intro triple_rules Scratch.steady.delete_keeps) (unfold_locales, auto simp: without_path_def)

lemma programs_media [triple_rules]:
  "keeps E Iw (finish_execution job i key status reason now)" "keeps E Iw (load_attempts job i)"
  "keeps E Iw (remaining_finalization env parent u v)" "keeps E Iw (verify_size q n)"
  unfolding finish_execution_def load_attempts_def remaining_finalization_def remaining_until_def verify_size_def io_bind_lift
  by (intro triple_rules; assumption)+

lemma finalize_media [triple_rules]:
  "(\<And>check. admission = Some check \<Longrightarrow> keeps E Iw check) \<Longrightarrow> keeps E Iw m \<Longrightarrow> keeps E Iw (finalize admission msg q m)"
  unfolding finalize_def by (intro triple_rules; assumption | simp)+

end

section \<open>The verified upload\<close>

lemma upload_verifies:
  assumes guard: "media_guard E content" and other: "legacy \<noteq> content"
    and admission: "\<And>x G. admission = Some x \<Longrightarrow> keeps E (\<lambda>w. \<exists>b. sc_media (w_scratch w) content = Some b \<and> G b) x"
  shows "triple E (\<lambda>_. True) (upload_verified T admission content legacy evidence video)
    (\<lambda>_ w. \<exists>b. sc_media (w_scratch w) content = Some b \<and> media_matches T evidence b) (\<lambda>_ _. True)"
proof -
  let ?good = "\<lambda>w. \<exists>b. sc_media (w_scratch w) content = Some b \<and> media_matches T evidence b"
  have check: "triple E (\<lambda>_. True) (verify_uploaded_content T content evidence) (\<lambda>_. ?good) (\<lambda>_ _. True)"
    by (auto simp: triple_def verify_uploaded_content_def download_file_def io_bind_def request_def on_scratch_def Let_def
        io_raise_def io_return_def media_matches_def split: fault.splits sum.splits prod.splits option.splits)
  have bounded: "triple E (\<lambda>_. True) (finalize admission late None (verify_uploaded_content T content evidence)) (\<lambda>_. ?good) (\<lambda>_ _. True)"
    unfolding finalize_def
    by (cases admission) (auto simp: Let_def run_bounded_def check intro!: ensures_bind triple_if ensures_raise)
  have caught: "triple E (\<lambda>_. True) (io_except [PyException] (\<lambda>e. io_bind (best_effort_delete content) (\<lambda>_. io_raise e))
      (finalize admission late None (verify_uploaded_content T content evidence))) (\<lambda>_. ?good) (\<lambda>_ _. True)"
    by (rule triple_except [OF bounded]) (auto intro!: ensures_bind ensures_raise)
  have rest: "triple E ?good
      (io_bind (finalize admission late None (upload_file legacy video)) (\<lambda>_.
       io_bind (finalize admission late None (verify_size legacy (me_size evidence))) (\<lambda>ok2.
       if \<not> ok2 then
         io_bind (best_effort_delete legacy) (\<lambda>_.
         io_bind (best_effort_delete content) (\<lambda>_. io_raise (Raise RuntimeErr ''legacy clip size verification failed'')))
       else io_return ()))) (\<lambda>_. ?good) (\<lambda>_ _. True)"
  proof (rule triple_bind [of _ _ _ "\<lambda>_. ?good"])
    show "triple E ?good (finalize admission late None (upload_file legacy video)) (\<lambda>_. ?good) (\<lambda>_ _. True)"
      by (rule triple_weaken [OF media_guard.finalize_media [OF guard admission media_guard.upload_media [OF guard other]]]) auto
    show "triple E ?good
       (io_bind (finalize admission late None (verify_size legacy (me_size evidence))) (\<lambda>ok2.
       if \<not> ok2 then
         io_bind (best_effort_delete legacy) (\<lambda>_.
         io_bind (best_effort_delete content) (\<lambda>_. io_raise (Raise RuntimeErr ''legacy clip size verification failed'')))
       else io_return ())) (\<lambda>_. ?good) (\<lambda>_ _. True)"
    proof (rule triple_bind [of _ _ _ "\<lambda>_. ?good"])
      show "triple E ?good (finalize admission late None (verify_size legacy (me_size evidence))) (\<lambda>_. ?good) (\<lambda>_ _. True)"
        by (rule triple_weaken [OF media_guard.finalize_media [OF guard admission media_guard.programs_media(4) [OF guard]]]) auto
      have "triple E ?good (io_bind (best_effort_delete legacy) (\<lambda>_. io_bind (best_effort_delete content)
          (\<lambda>_. io_raise (Raise RuntimeErr ''legacy clip size verification failed'')))) (\<lambda>_. ?good) (\<lambda>_ _. True)"
        by (rule triple_weaken [of _ "\<lambda>_. True"]) (auto intro!: ensures_bind ensures_raise)
      then show "triple E ?good (if \<not> ok2 then io_bind (best_effort_delete legacy) (\<lambda>_. io_bind (best_effort_delete content)
          (\<lambda>_. io_raise (Raise RuntimeErr ''legacy clip size verification failed''))) else io_return ()) (\<lambda>_. ?good) (\<lambda>_ _. True)" for ok2
        by (auto intro!: triple_if triple_return)
    qed
  qed
  have failed: "ensures E ?good (io_bind (best_effort_delete content)
      (\<lambda>_. io_raise (Raise RuntimeErr ''clip size verification failed'')))"
    by (intro ensures_bind ensures_raise)
  show ?thesis
    unfolding upload_verified_def
    by (rule ensures_bind, rule ensures_bind, rule triple_if, rule failed, rule triple_bind [OF caught rest])
qed

text \<open>Without rivals a conditional write that returns true wrote its manifest.\<close>

lemma write_writes:
  assumes "\<And>n. su_rivals E n = []"
  shows "triple E (\<lambda>_. True) (write_manifest_if_absent p d)
    (\<lambda>wrote w. wrote \<longrightarrow> sc_blobs (w_scratch w) p = Some (Doc (JObj d))) (\<lambda>_ _. True)"
  by (auto simp: triple_def write_manifest_if_absent_def update_bytes_def request_def on_scratch_def Let_def assms
      manifest_callback_def nonempty_def eval_nat_numeral split: fault.splits sum.splits prod.splits option.splits if_splits)

section \<open>The recorded clip\<close>

text \<open>The manifest at \<open>p\<close> names media that is stored with the size and the digest it states.\<close>

definition media_settled :: "tools \<Rightarrow> string \<Rightarrow> int \<Rightarrow> string \<Rightarrow> scratch \<Rightarrow> bool" where
  "media_settled T job i p s \<longleftrightarrow> (\<exists>d content m bytes. sc_blobs s p = Some (Doc (JObj d))
     \<and> dget d ''media_blob_path'' = JStr content \<and> dget d ''media'' = media_to_dict m
     \<and> clip_content_blob_path job i (me_sha m) = Inr content
     \<and> sc_media s content = Some bytes \<and> media_matches T m bytes)"

lemma document_media:
  "dget (clip_manifest_document cm status reason recording (Some m) (Some content) terminal attempts) ''media_blob_path'' = JStr content"
  "dget (clip_manifest_document cm status reason recording (Some m) (Some content) terminal attempts) ''media'' = media_to_dict m"
  by (auto simp: clip_manifest_document_def opt_field_def Let_def split: option.splits)

lemma record_clip_media:
  assumes p: "clip_manifest_blob_path job i = Inr p" and rivals: "\<And>n. su_rivals E n = []"
    and guard: "\<And>content. media_guard E content"
    and admission: "\<And>x content G. admission = Some x \<Longrightarrow> keeps E (\<lambda>w. \<exists>b. sc_media (w_scratch w) content = Some b \<and> G b) x"
    and finish: "\<And>x content G. finalize_attempts = Some x \<Longrightarrow> keeps E (\<lambda>w. \<exists>b. sc_media (w_scratch w) content = Some b \<and> G b) x"
  shows "triple E (\<lambda>_. True) (record_clip T job i timeout attempts admission capture finalize_attempts)
    (\<lambda>out w. out = RECORDED \<longrightarrow> media_settled T job i p (w_scratch w)) (\<lambda>_ _. True)"
proof -
  let ?Q = "\<lambda>out w. out = RECORDED \<longrightarrow> media_settled T job i p (w_scratch w)"
  have skipped: "triple E (\<lambda>_. True) (io_return SKIPPED) ?Q (\<lambda>_ _. True)"
    by (simp add: triple_def io_return_def)
  have written: "triple E (\<lambda>w. \<exists>b. sc_media (w_scratch w) content = Some b \<and> media_matches T evidence b)
      (io_bind (finalize admission late None (io_bind utcnow (\<lambda>terminal. write_manifest_if_absent p (doc terminal))))
        (after_write admission p content legacy)) ?Q (\<lambda>_ _. True)"
    if c: "clip_content_blob_path job i (me_sha evidence) = Inr content"
      and doc: "\<And>t. dget (doc t) ''media_blob_path'' = JStr content" "\<And>t. dget (doc t) ''media'' = media_to_dict evidence"
    for content evidence doc legacy
  proof (rule triple_bind)
    let ?good = "\<lambda>w. \<exists>b. sc_media (w_scratch w) content = Some b \<and> media_matches T evidence b"
    let ?call = "finalize admission late None (io_bind utcnow (\<lambda>terminal. write_manifest_if_absent p (doc terminal)))"
    have media: "keeps E ?good ?call"
      unfolding write_manifest_if_absent_def
      by (intro media_guard.finalize_media [OF guard] admission keeps_bind
          media_guard.clock_media [OF guard] media_guard.update_media [OF guard])
    have "triple E (\<lambda>_. True) (write_manifest_if_absent p (doc t))
        (\<lambda>wrote w. wrote \<longrightarrow> (\<exists>t. sc_blobs (w_scratch w) p = Some (Doc (JObj (doc t))))) (\<lambda>_ _. True)" for t
      by (rule triple_weaken [OF write_writes [OF rivals]]) auto
    then have "triple E (\<lambda>_. True) ?call
        (\<lambda>wrote w. wrote \<longrightarrow> (\<exists>t. sc_blobs (w_scratch w) p = Some (Doc (JObj (doc t))))) (\<lambda>_ _. True)"
      by (intro finalize_tells ensures_bind)
    then have "triple E ?good ?call
        (\<lambda>wrote w. wrote \<longrightarrow> (\<exists>t. sc_blobs (w_scratch w) p = Some (Doc (JObj (doc t))))) (\<lambda>_ _. True)"
      by (rule triple_weaken) auto
    from triple_conj [OF media this]
    show "triple E ?good ?call (\<lambda>wrote w. wrote \<longrightarrow> media_settled T job i p (w_scratch w)) (\<lambda>_ _. True)"
      by (rule triple_weaken) (auto simp: media_settled_def doc intro!: exI [of _ evidence] c)
    show "triple E (\<lambda>w. wrote \<longrightarrow> media_settled T job i p (w_scratch w)) (after_write admission p content legacy wrote) ?Q (\<lambda>_ _. True)" for wrote
    proof (cases wrote)
      case True
      then show ?thesis by (auto simp: after_write_def intro: triple_return)
    next
      case False
      then show ?thesis by (auto simp: after_write_def intro!: ensures_bind skipped)
    qed
  qed
  have attempts: "triple E (\<lambda>w. \<exists>b. sc_media (w_scratch w) content = Some b \<and> media_matches T evidence b)
      (case finalize_attempts of None \<Rightarrow> io_return attempts
       | Some f \<Rightarrow> io_bind (finalize admission late None f) (\<lambda>a. io_return (Some a)))
      (\<lambda>_ w. \<exists>b. sc_media (w_scratch w) content = Some b \<and> media_matches T evidence b) (\<lambda>_ _. True)" for content evidence
  proof -
    have "keeps E (\<lambda>w. \<exists>b. sc_media (w_scratch w) content = Some b \<and> media_matches T evidence b)
        (case finalize_attempts of None \<Rightarrow> io_return attempts
         | Some f \<Rightarrow> io_bind (finalize admission late None f) (\<lambda>a. io_return (Some a)))"
      by (intro triple_rules media_guard.finalize_media [OF guard] admission finish; assumption)
    then show ?thesis by (rule triple_weaken) auto
  qed
  have upload: "triple E (\<lambda>_. True) (upload_verified T admission content legacy evidence video)
      (\<lambda>_ w. \<exists>b. sc_media (w_scratch w) content = Some b \<and> media_matches T evidence b) (\<lambda>_ _. True)"
    if "clip_content_blob_path job i (me_sha evidence) = Inr content" "clip_blob_path job i = Inr legacy"
    for content legacy evidence video
    by (rule upload_verifies [OF guard]) (use admission content_is_not_legacy [OF that] in auto)
  show ?thesis
    unfolding record_clip_def io_bind_lift p sum.case
    by (intro ensures_bind triple_if skipped triple_sum triple_option ensures_raise
        triple_bind [OF upload] triple_bind [OF attempts] written document_media; assumption)
qed

text \<open>The other workers neither remove nor replace a media file.\<close>

definition media_stays :: "surroundings \<Rightarrow> bool" where
  "media_stays E \<longleftrightarrow> (\<forall>s g. (\<exists>n. g = su_others E n \<or> g \<in> set (su_rivals E n)) \<longrightarrow>
     (\<forall>c b. sc_media s c = Some b \<longrightarrow> sc_media (g s) c = Some b))"

lemma media_stays_guard: "media_stays E \<Longrightarrow> media_guard E c"
  unfolding media_stays_def media_guard_def by blast

lemma settled_steady:
  assumes "media_stays E" "manifest_respected E p"
  shows "steady E (\<lambda>s D. media_settled T job i p s)"
proof
  have kept: "media_settled T job i p (g s)"
    if settled: "media_settled T job i p s" and g: "g = su_others E n \<or> g \<in> set (su_rivals E n)" for g s n
  proof -
    from settled obtain d content m bytes where d: "sc_blobs s p = Some (Doc (JObj d))"
        "dget d ''media_blob_path'' = JStr content" "dget d ''media'' = media_to_dict m"
        "clip_content_blob_path job i (me_sha m) = Inr content" "sc_media s content = Some bytes" "media_matches T m bytes"
      unfolding media_settled_def by blast
    have "sc_blobs (g s) p = Some (Doc (JObj d))" "sc_media (g s) content = Some bytes"
      using g d(1,5) assms unfolding manifest_respected_def media_stays_def by blast+
    then show ?thesis using d(2,3,4,6) unfolding media_settled_def by blast
  qed
  show "media_settled T job i p (su_others E n s)" if "media_settled T job i p s" for s n
    using kept [OF that, of "su_others E n" n] by simp
  show "media_settled T job i p (g s)" if "media_settled T job i p s" "g \<in> set (su_rivals E n)" for s n g
    using kept [OF that(1), of g n] that(2) by simp
qed

lemma fallback_not_recorded:
  "triple E (\<lambda>_. True) (write_fallback_manifest T job i reason timeout render attempts admission)
     (\<lambda>out _. out \<noteq> RECORDED) (\<lambda>_ _. True)"
  unfolding write_fallback_manifest_def finish_fallback_def Let_def
  by (intro ensures_bind triple_if ensures_raise) (simp_all add: triple_def io_return_def)

lemma process_media:
  assumes p: "clip_manifest_blob_path job i = Inr p" and rivals: "\<And>n. su_rivals E n = []"
    and env: "media_stays E" "manifest_respected E p"
  shows "triple E (\<lambda>_. True) (process_admitted T msg job i key now s)
    (\<lambda>out w. out = RECORDED \<longrightarrow> media_settled T job i p (w_scratch w)) (\<lambda>_ _. True)"
proof -
  have interpret_steady: "steady E (\<lambda>s D. media_settled T job i p s)" by (rule settled_steady [OF env])
  let ?fin = "remaining_finalization (rs_envelope s) (rs_parent s) now (rs_admitted_mono s)"
  let ?cap = "remaining_capture (rs_envelope s) (rs_parent s) now (rs_admitted_mono s)"
  let ?Q = "\<lambda>out w. out = RECORDED \<longrightarrow> media_settled T job i p (w_scratch w)"
  let ?del = "\<lambda>out. io_bind (io_bind ?fin (\<lambda>r. delete_queue_message (cq_id msg) r)) (\<lambda>_. io_return out)"
  have deletion: "keeps E (\<lambda>w. media_settled T job i p (w_scratch w)) (delete_queue_message mid r)" for mid r
    unfolding delete_queue_message_def
    by (intro triple_rules steady.delete_message_keeps [OF interpret_steady])
  have clocks: "keeps E (\<lambda>w. media_settled T job i p (w_scratch w)) ?fin"
    unfolding remaining_finalization_def remaining_until_def
    by (intro triple_rules steady.clock_keeps [OF interpret_steady]; assumption)
  have del: "triple E (?Q out) (?del out) ?Q (\<lambda>_ _. True)" for out
  proof (cases "out = RECORDED")
    case True
    have "triple E (\<lambda>w. media_settled T job i p (w_scratch w)) (?del out) (\<lambda>_ w. media_settled T job i p (w_scratch w))
        (\<lambda>_ w. media_settled T job i p (w_scratch w))"
      by (intro triple_rules clocks deletion)
    then show ?thesis by (rule triple_weaken) (auto simp: True)
  next
    case False
    have "triple E (\<lambda>_. True) (?del out) (\<lambda>x _. x = out) (\<lambda>_ _. True)"
      by (intro ensures_bind) (simp add: triple_def io_return_def)
    then show ?thesis by (rule triple_weaken) (use False in auto)
  qed
  have fallback: "triple E (\<lambda>_. True) (io_bind (terminal_fallback T job i reason (rs_parent s) ?fin) f) ?Q (\<lambda>_ _. True)"
    if "\<And>out. triple E (\<lambda>_. out \<noteq> RECORDED) (f out) ?Q (\<lambda>_ _. True)" for reason f
  proof (rule triple_bind)
    show "triple E (\<lambda>_. True) (terminal_fallback T job i reason (rs_parent s) ?fin) (\<lambda>out _. out \<noteq> RECORDED) (\<lambda>_ _. True)"
      unfolding terminal_fallback_def by (intro ensures_bind fallback_not_recorded)
  qed (rule that)
  have any: "triple E (\<lambda>_. out \<noteq> RECORDED) (?del out) ?Q (\<lambda>_ _. True)" "triple E (\<lambda>_. True) (?del SKIPPED) ?Q (\<lambda>_ _. True)"
    for out
    by (rule triple_weaken [OF del]; simp)+
  have legacy: "triple E (\<lambda>_. out \<noteq> RECORDED) (case clip_blob_path job i of Inl e \<Rightarrow> io_raise e
      | Inr legacy \<Rightarrow> io_bind (best_effort_delete legacy) (\<lambda>_. ?del out)) ?Q (\<lambda>_ _. True)" for out
    by (cases "out = RECORDED"; cases "clip_blob_path job i")
      (auto simp: triple_def [of _ "\<lambda>_. False"] intro!: ensures_raise ensures_bind [where m = "best_effort_delete _"]
        intro: triple_weaken [OF any(1)])
  have recorded: "triple E (\<lambda>_. True) (io_result (attempt_recording T job i key remaining ?fin ?cap))
      (\<lambda>r w. \<forall>x. r = Inr x \<longrightarrow> ?Q x w) (\<lambda>_ _. True)" for remaining
  proof -
    have finish: "keeps E (\<lambda>w. \<exists>b. sc_media (w_scratch w) content = Some b \<and> G b)
        (io_bind utcnow (\<lambda>now. io_bind (finish_execution job i key ''succeeded'' None now) (\<lambda>_. load_attempts job i)))"
        "keeps E (\<lambda>w. \<exists>b. sc_media (w_scratch w) content = Some b \<and> G b) ?fin" for content G
      by (intro keeps_bind media_guard.clock_media [OF media_stays_guard [OF env(1)]]
        media_guard.programs_media [OF media_stays_guard [OF env(1)]])+
    have "triple E (\<lambda>_. True) (attempt_recording T job i key remaining ?fin ?cap) ?Q (\<lambda>_ _. True)"
      unfolding attempt_recording_def
      by (intro ensures_bind record_clip_media p rivals media_stays_guard env) (auto simp: finish)
    then show ?thesis unfolding triple_def io_result_def by (fastforce split: sum.splits prod.splits)
  qed
  have rest: "triple E (\<lambda>w. \<forall>x. r = Inr x \<longrightarrow> ?Q x w)
      (case r of Inr out \<Rightarrow> ?del out | Inl e \<Rightarrow> if \<not> catches [PyException] e then io_raise e else F e) ?Q (\<lambda>_ _. True)"
    if "\<And>e. triple E (\<lambda>_. True) (F e) ?Q (\<lambda>_ _. True)" for r F
    using that del by (cases r) (auto intro: triple_weaken ensures_raise)
  show ?thesis
    unfolding process_admitted_def Let_def io_bind_lift p sum.case
    by (rule ensures_bind, rule ensures_bind, rule triple_if, rule any(2), rule triple_option,
        rule triple_bind [OF recorded rest], rule ensures_bind, rule ensures_bind, rule ensures_bind,
        rule triple_option, simp add: triple_def io_return_def, rule fallback, rule legacy, rule fallback, rule any(1))
qed

text \<open>Claim C5: recorded clips have verified media.  When a clip message is processed to the outcome
  \<open>recorded\<close> -- nobody else winning the write of the manifest, nobody removing media or changing a terminal
  manifest -- then the clip's terminal manifest names a content path and evidence such that the stored file at
  that path, which is the path of the evidence's digest, has the size and the SHA-256 digest of the evidence.\<close>

theorem recorded_clip_is_verified:
  assumes "parse_clip_job (cq_candidates msg) = Inr (job, i)" "clip_manifest_blob_path job i = Inr p"
    and "\<forall>n. su_rivals E n = []" "media_stays E" "manifest_respected E p"
    and "process_clip_message T msg E w = (Inr RECORDED, w')"
  shows "media_settled T job i p (w_scratch w')"
proof -
  let ?Q = "\<lambda>out w. out = RECORDED \<longrightarrow> media_settled T job i p (w_scratch w)"
  have "triple E (\<lambda>_. True) (process_clip_message T msg) ?Q (\<lambda>_ _. True)"
    unfolding process_clip_message_def assms(1) sum.case prod.case Let_def
  proof (rule ensures_bind, rule ensures_bind, rule triple_sum)
    show "triple E (\<lambda>_. True) (process_admitted T msg job i (cq_id msg @ '':'' @ int_str (cq_dequeue_count msg)) now s) ?Q (\<lambda>_ _. True)"
      for now s
      by (rule process_media) (use assms(2-5) in auto)
  next
    fix e now
    have "triple E (\<lambda>_. True) (io_bind (write_fallback_manifest T job i reason 30 render None None)
        (\<lambda>outcome. io_bind (delete_queue_message (cq_id msg) 30) (\<lambda>_. io_return outcome)))
        (\<lambda>out _. out \<noteq> RECORDED) (\<lambda>_ _. True)" for reason render
    proof (rule triple_bind [OF fallback_not_recorded])
      show "triple E (\<lambda>_. out \<noteq> RECORDED) (io_bind (delete_queue_message (cq_id msg) 30) (\<lambda>_. io_return out))
        (\<lambda>out _. out \<noteq> RECORDED) (\<lambda>_ _. True)" for out
        by (auto simp: triple_def io_bind_def io_return_def split: sum.splits prod.splits)
    qed
    then have fallback: "triple E (\<lambda>_. True) (io_bind (write_fallback_manifest T job i reason 30 render None None)
        (\<lambda>outcome. io_bind (delete_queue_message (cq_id msg) 30) (\<lambda>_. io_return outcome))) ?Q (\<lambda>_ _. True)" for reason render
      by (rule triple_weaken) auto
    show "triple E (\<lambda>_. True) (if catches [RecorderSetupErr] e then
            io_bind (write_fallback_manifest T job i (''recording timing unavailable: '' @ to_exn_name T e) 30
              (if catches [ForeignClipsetErr] e then to_render T
               else (\<lambda>_. Inl (Raise RecorderSetupErr ''fallback source metadata is invalid''))) None None) (\<lambda>outcome.
            io_bind (delete_queue_message (cq_id msg) 30) (\<lambda>_. io_return outcome))
          else if catches [PyException] e then io_return RETRY
          else io_raise e) ?Q (\<lambda>_ _. True)"
      by (intro triple_if fallback ensures_raise) (simp add: triple_def io_return_def)
  qed
  from tripleD [OF this _ assms(6)] show ?thesis by simp
qed

end
