(* ===== verification/RecorderExample.thy ===== *)
theory RecorderExample
  imports RecorderMedia
begin

text \<open>One recorder records the only clip of a plan, from the message to the verified manifest.\<close>

section \<open>Requests of a worker that is alone\<close>

definition tick :: "world \<Rightarrow> world" where
  "tick w = w\<lparr>w_tick := Suc (w_tick w)\<rparr>"

lemma tick_simps [simp]:
  "w_scratch (tick w) = w_scratch w" "w_deleted (tick w) = w_deleted w" "w_mono (tick w) = w_mono w"
  by (simp_all add: tick_def)

lemma alone_tick: "next_tick (alone t) w = tick w"
  by (simp add: next_tick_def alone_def tick_def)

lemma alone_request: "request f (alone t) w = f (tick w)"
  unfolding request_def alone_tick Let_def by (simp add: alone_def)

definition with_blob :: "string \<Rightarrow> blob \<Rightarrow> world \<Rightarrow> world" where
  "with_blob p b w = w\<lparr>w_scratch := (w_scratch w)\<lparr>sc_blobs := (sc_blobs (w_scratch w))(p \<mapsto> b)\<rparr>\<rparr>"

definition with_media :: "string \<Rightarrow> string \<Rightarrow> world \<Rightarrow> world" where
  "with_media p b w = w\<lparr>w_scratch := (w_scratch w)\<lparr>sc_media := (sc_media (w_scratch w))(p \<mapsto> b)\<rparr>\<rparr>"

lemma world_simps [simp]:
  "sc_blobs (w_scratch (with_blob p b w)) = (sc_blobs (w_scratch w))(p \<mapsto> b)"
  "sc_media (w_scratch (with_blob p b w)) = sc_media (w_scratch w)"
  "sc_media (w_scratch (with_media p m w)) = (sc_media (w_scratch w))(p \<mapsto> m)"
  "sc_blobs (w_scratch (with_media p m w)) = sc_blobs (w_scratch w)"
  "w_mono (with_blob p b w) = w_mono w" "w_mono (with_media p m w) = w_mono w"
  by (simp_all add: with_blob_def with_media_def)

lemma alone_run [simp]:
  "get_bytes p (alone t) w = (Inr (sc_blobs (w_scratch w) p), tick w)"
  "blob_exists p (alone t) w = (Inr (sc_blobs (w_scratch w) p \<noteq> None), tick w)"
  "blob_size p (alone t) w = (Inr (map_option (int \<circ> length) (sc_media (w_scratch w) p)), tick w)"
  "download_file p (alone t) w = (Inr (sc_media (w_scratch w) p), tick w)"
  "upload_file p b (alone t) w = (Inr (), with_media p b (tick w))"
  "external r (alone t) w = (r, tick w)"
  "utcnow (alone t) w = (Inr t, tick w)"
  "monotonic (alone t) w = (Inr (w_mono w), tick w)"
  "read_clock (alone t) w = (Inr \<lparr>rd_mono = w_mono w, rd_utc = Aware t\<rparr>, tick w)"
  by (simp_all add: get_bytes_def blob_exists_def blob_size_def download_file_def upload_file_def external_def
      alone_request on_scratch_def with_media_def utcnow_def monotonic_def read_clock_def alone_tick)
    (simp_all add: alone_def tick_def)

lemma alone_update:
  "update_bytes p f c (alone t) w =
     (case f c (sc_blobs (w_scratch w) p) of
        (c', Inl e) \<Rightarrow> (Inl e, tick w)
      | (c', Inr b) \<Rightarrow> (Inr c', with_blob p b (tick w)))"
proof -
  have "su_rivals (alone t) n = []" for n by (simp add: alone_def)
  then show ?thesis
    by (auto simp: update_bytes_def alone_request on_scratch_def with_blob_def tick_def eval_nat_numeral
        split: prod.splits sum.splits)
qed

lemma step_run [simp]:
  "io_return x E w = (Inr x, w)" "io_raise e E w = (Inl e, w)" "io_lift r E w = (r, w)"
  by (simp_all add: io_return_def io_raise_def io_lift_def)

section \<open>The plan\<close>

definition example_digest :: string where
  "example_digest = replicate 64 (CHR ''0'')"

definition example_budget :: budget_projection where
  "example_budget = \<lparr>bp_started = 0, bp_deadline = micros 5100, bp_version = 1\<rparr>"

definition example_entry :: clip_entry where
  "example_entry = \<lparr>ce_index = 0, ce_start = 0, ce_duration = 60, ce_owner = None, ce_name = None,
     ce_source_url = None, ce_removed_reason = None\<rparr>"

definition example_plan :: clipset where
  "example_plan = \<lparr>cs_job = ''j'', cs_clips = [example_entry], cs_budget = Some example_budget,
     cs_version = CLIPSET_SCHEMA_VERSION\<rparr>"

definition example_scratch :: scratch where
  "example_scratch = \<lparr>sc_blobs = [''video-jobs/j/clipset.json'' \<mapsto> Doc (encode_clipset example_plan)], sc_media = Map.empty\<rparr>"

definition example_evidence :: media_evidence where
  "example_evidence = \<lparr>me_size = 2, me_sha = example_digest, me_probe = \<lparr>pe_format = ''webm'', pe_duration = Some 60\<rparr>\<rparr>"

definition camera_tools :: tools where
  "camera_tools = idle_tools\<lparr>
     to_sha := (\<lambda>_. example_digest),
     to_capture := (\<lambda>_. Inr \<lparr>re_video = Some ''xy'', re_duration_ms = 60000, re_is_fallback = False, re_has_pages = False,
       re_website_url = None, re_is_removed = False, re_recovery_path = ''direct''\<rparr>),
     to_validate := (\<lambda>_ _. Inr example_evidence)\<rparr>"

lemma example_paths:
  "clip_admission_blob_path ''j'' 0 = Inr ''video-jobs/j/clips/000.admission.json''"
  "clip_attempts_blob_path ''j'' 0 = Inr ''video-jobs/j/clips/000.attempts.json''"
  "clip_blob_path ''j'' 0 = Inr ''video-jobs/j/clips/000.webm''"
  "clip_content_blob_path ''j'' 0 example_digest = Inr (''video-jobs/j/clips/000/'' @ example_digest @ ''.webm'')"
proof -
  have d: "is_digest example_digest"
    by (simp add: is_digest_def example_digest_def hex_chars_def list_all_iff)
  show "clip_admission_blob_path ''j'' 0 = Inr ''video-jobs/j/clips/000.admission.json''"
    "clip_attempts_blob_path ''j'' 0 = Inr ''video-jobs/j/clips/000.attempts.json''"
    "clip_blob_path ''j'' 0 = Inr ''video-jobs/j/clips/000.webm''"
    "clip_content_blob_path ''j'' 0 example_digest = Inr (''video-jobs/j/clips/000/'' @ example_digest @ ''.webm'')"
    by (simp_all add: clean_job_id_def job_prefix_def clip_admission_blob_path_def clip_attempts_blob_path_def
        clip_blob_path_def clip_content_blob_path_def indexed_path_def clips_prefix_def check_index_def index_text_0
        digest_clean [OF d] d)
qed

lemma example_budget_ok: "projection_ok example_budget"
  by (simp add: projection_ok_def example_budget_def valid_instant_def micros_def micros_per_day_def
      BUDGET_SCHEMA_VERSION_def JOB_DEADLINE_SECONDS_def)

lemma example_plan_decoded: "clipset_from_dict repr ftext (encode_clipset example_plan) ''j'' = Inr example_plan"
proof (rule clipset_codec.decode_encode)
  show "clipset_ok example_plan \<and> clean_job_id ''j'' = Inr (cs_job example_plan)"
    by (simp add: clipset_ok_def example_plan_def example_entry_def entry_ok_def plain_opt_def example_budget_ok clean_job_id_def)
qed

lemma example_plan_read: "recorder_clipset T (Some (Doc (encode_clipset example_plan))) ''j'' = Inr example_plan"
  by (simp add: recorder_clipset_def clipset_from_bytes_def nonempty_def load_doc_def example_plan_decoded)
    (simp add: example_plan_def)

section \<open>Setup\<close>

definition example_admission :: clip_admission where
  "example_admission = \<lparr>ca_clip_id = clip_id 0, ca_first = 0, ca_version = 1\<rparr>"

lemma example_clip_id: "clip_id 0 = ''clip-000''" "py_strip ''clip-000'' \<noteq> []"
proof -
  show "clip_id 0 = ''clip-000''" by (simp add: clip_id_def index_text_0)
  have "\<not> py_isspace (CHR ''c'')" by (simp add: py_isspace_def)
  then have d: "dropWhile py_isspace ''clip-000'' = ''clip-000''" by simp
  have "\<not> py_isspace (CHR ''0'')" by (simp add: py_isspace_def)
  then show "py_strip ''clip-000'' \<noteq> []" unfolding py_strip_def d by simp
qed

lemma example_admission_ok: "admission_ok example_admission"
  by (simp add: admission_ok_def example_admission_def example_clip_id CLIP_ADMISSION_SCHEMA_VERSION_def
      valid_instant_def micros_def micros_per_day_def CLIP_LIFETIME_SECONDS_def)

lemma admission_run:
  assumes "sc_blobs (w_scratch w) ''video-jobs/j/clips/000.admission.json'' = None"
  shows "\<exists>d. load_or_create_admission repr ''j'' 0 0 (alone 0) w
    = (Inr example_admission, with_blob ''video-jobs/j/clips/000.admission.json'' (Doc (JObj d)) (tick w))"
proof -
  obtain d where d: "admission_to_dict example_admission = Inr d" "admission_from_dict repr d = Inr example_admission"
    using admission_round_trip [OF example_admission_ok] by blast
  have new: "first_or_existing repr (clip_id 0) None (Aware 0) = Inr example_admission"
    by (simp add: first_or_existing_def make_admission_Inr example_admission_def example_clip_id
        CLIP_ADMISSION_SCHEMA_VERSION_def valid_instant_def micros_per_day_def)
  have "dupdate [] d = d"
    using d(1) dupdate_fresh [of "[]" d] by (auto simp: admission_to_dict_def and_then_Inr_conv)
  then show ?thesis
    using d assms
    by (intro exI [of _ d]) (simp add: load_or_create_admission_def example_paths io_bind_lift io_bind_def alone_update admission_callback_def
        nonempty_def new setup_error_def)
qed

definition example_envelope :: timing_envelope where
  "example_envelope = \<lparr>te_budget = example_budget, te_clip = example_admission, te_browser = Some (micros 600)\<rparr>"

definition example_parent :: stage_budget where
  "example_parent = \<lparr>vb_projection = example_budget, vb_started_mono = 0, vb_elapsed_at_start = 0\<rparr>"

lemmas constants = CLIP_LIFETIME_SECONDS_def DEFAULT_BROWSER_HARD_LIMIT_SECONDS_def DEFAULT_CLIP_VISIBILITY_TIMEOUT_def
  DEFAULT_RECORDER_TIMEOUT_def RECORDER_FINALIZATION_RESERVE_SECONDS_def JOB_DEADLINE_SECONDS_def

lemma envelope_run: "timing_envelope_of example_plan example_admission (\<lambda>_. None) = Inr example_envelope"
  by (simp add: timing_envelope_of_def example_plan_def browser_deadline_def parse_positive_int_def visibility_timeout_def
      constants plus_seconds_def stage_deadline_at_def example_admission_def example_budget_def make_envelope_def
      valid_instant_def micros_def micros_per_day_def example_envelope_def)

lemma parent_run: "budget_from_dict (projection_to_dict example_budget) (Aware 0) 0 = Inr example_parent"
  by (simp add: budget_from_dict_def projection_round_trip [OF example_budget_ok])
    (simp add: load_budget_def total_seconds_def example_parent_def example_budget_def valid_instant_def micros_per_day_def JOB_DEADLINE_SECONDS_def)

lemma deadlines_run:
  "effective_deadline example_envelope = Inr (micros 600)" "finalization_deadline example_envelope = Inr (micros 660)"
  by (simp_all add: effective_deadline_def finalization_deadline_def example_envelope_def ca_deadline_def plus_seconds_def
      stage_deadline_at_def example_admission_def example_budget_def constants valid_instant_def micros_def micros_per_day_def)

lemma remaining_run:
  assumes "w_mono w = 0"
  shows "remaining_capture example_envelope example_parent 0 0 (alone 0) w = (Inr 600, tick (tick (tick w)))"
    and "remaining_finalization example_envelope example_parent 0 0 (alone 0) w = (Inr 660, tick (tick (tick w)))"
  using assms
  by (simp_all add: remaining_capture_def remaining_finalization_def remaining_until_def deadlines_run io_bind_def
      remaining_seconds_def example_parent_def example_budget_def local_elapsed_def durable_elapsed_def total_seconds_def
      valid_instant_def micros_def micros_per_day_def)

definition attempts_doc :: "string \<Rightarrow> (string \<times> json) list \<Rightarrow> dict" where
  "attempts_doc key rest = [(''schema_version'', JInt 1), (''failure_count'', JInt 0), (''executions'', JList
     [JObj ([(''key'', JStr key), (''started_at_utc'', JStr (iso_z 0))] @ rest)])]"

lemma attempts_doc_read:
  "dget rest ''status'' \<noteq> JStr ''failed'' \<Longrightarrow> attempt_document (Some (Doc (JObj (attempts_doc key rest)))) = Inr (attempts_doc key rest)"
  by (simp add: attempt_document_def attempts_doc_def nonempty_def load_doc_def dget_or_def failed_entry_def dset_def
      ATTEMPT_STATE_SCHEMA_VERSION_def)

lemma attempts_run:
  assumes "sc_blobs (w_scratch w) ''video-jobs/j/clips/000.attempts.json'' = Some (Doc (JObj (attempts_doc key rest)))"
    and "dget rest ''status'' \<noteq> JStr ''failed''"
  shows "load_attempts ''j'' 0 (alone 0) w = (Inr (attempts_doc key rest), tick w)"
  using assms by (simp add: load_attempts_def example_paths io_bind_lift io_bind_def attempts_doc_read)

lemma begin_run:
  assumes "sc_blobs (w_scratch w) ''video-jobs/j/clips/000.attempts.json'' = None"
  shows "begin_execution ''j'' 0 key 0 (alone 0) w = (Inr 0,
    with_blob ''video-jobs/j/clips/000.attempts.json'' (Doc (JObj (attempts_doc key [(''status'', JStr ''started'')]))) (tick w))"
  using assms
  by (simp add: begin_execution_def example_paths io_bind_lift alone_update begin_attempt_callback_def attempt_document_def
      nonempty_def setup_error_def executions_of_def failures_of_def last_n_def attempts_doc_def dset_def
      ATTEMPT_STATE_SCHEMA_VERSION_def)

lemma finish_run:
  assumes "sc_blobs (w_scratch w) ''video-jobs/j/clips/000.attempts.json'' = Some (Doc (JObj (attempts_doc key [(''status'', JStr ''started'')])))"
  shows "finish_execution ''j'' 0 key ''succeeded'' None 0 (alone 0) w = (Inr 0,
    with_blob ''video-jobs/j/clips/000.attempts.json'' (Doc (JObj (attempts_doc key
      [(''status'', JStr ''succeeded''), (''finished_at_utc'', JStr (iso_z 0))]))) (tick w))"
proof -
  have read: "attempt_document (Some (Doc (JObj (attempts_doc key [(''status'', JStr ''started'')]))))
      = Inr (attempts_doc key [(''status'', JStr ''started'')])"
    by (rule attempts_doc_read) simp
  show ?thesis
    using assms
    by (simp add: finish_execution_def example_paths io_bind_lift alone_update finish_callback_def read executions_of_def
        Let_def has_key_def finished_entry_def failed_entry_def last_n_def failures_of_def)
      (simp add: attempts_doc_def dset_def has_key_def finished_entry_def failed_entry_def failures_of_def)
qed

text \<open>A worker alone removes no media.\<close>

interpretation alone_media: media_guard "alone t" c G for t c G
  by unfold_locales (simp_all add: alone_def)

section \<open>The run\<close>

lemma setup_run:
  assumes "w_scratch w = example_scratch" "w_mono w = 0"
  shows "\<exists>w'. recorder_setup camera_tools ''j'' 0 key 0 (alone 0) w
      = (Inr \<lparr>rs_envelope = example_envelope, rs_parent = example_parent, rs_admitted_mono = 0, rs_failed_before = 0\<rparr>, w')
    \<and> w_mono w' = 0 \<and> sc_blobs (w_scratch w') ''video-jobs/j/clipset.json'' = Some (Doc (encode_clipset example_plan))
    \<and> sc_blobs (w_scratch w') ''video-jobs/j/clips/000.attempts.json''
        = Some (Doc (JObj (attempts_doc key [(''status'', JStr ''started'')])))
    \<and> sc_blobs (w_scratch w') ''video-jobs/j/clips/000.manifest.json'' = None"
proof -
  have env: "to_env camera_tools = (\<lambda>_. None)" by (simp add: camera_tools_def idle_tools_def)
  have load: "load_clipset camera_tools ''j'' (alone 0) w = (Inr example_plan, tick w)"
    using assms(1) by (simp add: load_clipset_def io_bind_lift io_bind_def example_scratch_def example_plan_read)
  obtain d where adm: "load_or_create_admission (to_repr camera_tools) ''j'' 0 0 (alone 0) (tick w)
      = (Inr example_admission, with_blob ''video-jobs/j/clips/000.admission.json'' (Doc (JObj d)) (tick (tick w)))"
    using admission_run [of "tick w"] assms(1) by (auto simp: example_scratch_def)
  have budget: "te_budget example_envelope = example_budget" by (simp add: example_envelope_def)
  show ?thesis
    using assms
    by (simp add: recorder_setup_def run_bounded_def io_bind_def load adm env envelope_run
        setup_error_def budget parent_run begin_run example_scratch_def)
qed

abbreviation example_fin :: "rat io" where
  "example_fin \<equiv> remaining_finalization example_envelope example_parent 0 0"

abbreviation example_cap :: "rat io" where
  "example_cap \<equiv> remaining_capture example_envelope example_parent 0 0"

lemma finalize_run:
  "w_mono w = 0 \<Longrightarrow> finalize (Some example_fin) msg None call (alone 0) w = call (alone 0) (tick (tick (tick w)))"
  by (simp add: finalize_def io_bind_def remaining_run run_bounded_def)

lemma require_run:
  "w_mono w = 0 \<Longrightarrow> require_time (Some example_fin) msg (alone 0) w = (Inr (), tick (tick (tick w)))"
  "w_mono w = 0 \<Longrightarrow> require_time (Some example_cap) msg (alone 0) w = (Inr (), tick (tick (tick w)))"
  by (simp_all add: require_time_def io_bind_def remaining_run)

lemma camera_simps [simp]:
  "to_sha camera_tools b = example_digest" "to_validate camera_tools v t = Inr example_evidence"
  "to_capture camera_tools sg = Inr \<lparr>re_video = Some ''xy'', re_duration_ms = 60000, re_is_fallback = False, re_has_pages = False,
       re_website_url = None, re_is_removed = False, re_recovery_path = ''direct''\<rparr>"
  "me_sha example_evidence = example_digest" "me_size example_evidence = 2"
  by (simp_all add: camera_tools_def example_evidence_def)

lemma recording_run:
  assumes "w_mono w = 0"
    and plan: "sc_blobs (w_scratch w) ''video-jobs/j/clipset.json'' = Some (Doc (encode_clipset example_plan))"
    and attempts: "sc_blobs (w_scratch w) ''video-jobs/j/clips/000.attempts.json''
        = Some (Doc (JObj (attempts_doc key [(''status'', JStr ''started'')])))"
    and manifest: "sc_blobs (w_scratch w) ''video-jobs/j/clips/000.manifest.json'' = None"
  shows "\<exists>w'. attempt_recording camera_tools ''j'' 0 key 600 example_fin example_cap (alone 0) w = (Inr RECORDED, w') \<and> w_mono w' = 0"
proof -
  have load: "load_clipset camera_tools ''j'' (alone 0) v = (Inr example_plan, tick v)"
    if "sc_blobs (w_scratch v) ''video-jobs/j/clipset.json'' = Some (Doc (encode_clipset example_plan))" for v
    using that by (simp add: load_clipset_def io_bind_lift io_bind_def example_plan_read)
  have entry: "entry_of example_plan 0 = Inr example_entry"
    by (simp add: entry_of_def example_plan_def example_entry_def)
  show ?thesis
    using assms
    by (simp add: attempt_recording_def io_bind_def attempts_run record_clip_def load entry require_run finalize_run
        example_paths upload_verified_def verify_size_def io_except_def verify_uploaded_content_def finish_run
        write_manifest_if_absent_def alone_update manifest_callback_def nonempty_def after_write_def)
qed

lemma example_message: "cq_dequeue_count first_message = 1"
  by (simp add: first_message_def)

lemma example_run: "\<exists>w'. process_clip_message camera_tools first_message (alone 0) (world_of example_scratch) = (Inr RECORDED, w')"
proof -
  let ?key = "cq_id first_message @ CHR '':'' # int_str 1"
  obtain w1 where started: "recorder_setup camera_tools ''j'' 0 ?key 0 (alone 0) (tick (world_of example_scratch))
      = (Inr \<lparr>rs_envelope = example_envelope, rs_parent = example_parent, rs_admitted_mono = 0, rs_failed_before = 0\<rparr>, w1)"
      "w_mono w1 = 0" "sc_blobs (w_scratch w1) ''video-jobs/j/clipset.json'' = Some (Doc (encode_clipset example_plan))"
      "sc_blobs (w_scratch w1) ''video-jobs/j/clips/000.attempts.json''
        = Some (Doc (JObj (attempts_doc ?key [(''status'', JStr ''started'')])))"
      "sc_blobs (w_scratch w1) ''video-jobs/j/clips/000.manifest.json'' = None"
    using setup_run [of "tick (world_of example_scratch)" ?key] by (auto simp: world_of_def)
  obtain w2 where rec: "attempt_recording camera_tools ''j'' 0 ?key 600 example_fin example_cap (alone 0)
      (tick (tick (tick (tick w1)))) = (Inr RECORDED, w2)" "w_mono w2 = 0"
    using recording_run [of "tick (tick (tick (tick w1)))" ?key] started(2-5) by auto
  show ?thesis
    using started(2,5) rec(2)
    by (simp add: process_clip_message_def first_job io_bind_def io_result_def started(1) process_admitted_def Let_def
        remaining_run rec(1) example_message terminal_reason_def MAX_DEQUEUE_COUNT_def FAILED_EXECUTION_LIMIT_def
        delete_queue_message_def io_except_def delete_message_def alone_request)
qed

theorem recorded_clip_is_verified_witness:
  "\<exists>w'. process_clip_message camera_tools first_message (alone 0) (world_of example_scratch) = (Inr RECORDED, w')
    \<and> media_settled camera_tools ''j'' 0 ''video-jobs/j/clips/000.manifest.json'' (w_scratch w')"
proof -
  obtain w' where run: "process_clip_message camera_tools first_message (alone 0) (world_of example_scratch) = (Inr RECORDED, w')"
    using example_run by blast
  have "\<forall>n. su_rivals (alone 0) n = []" "media_stays (alone 0)"
    by (simp_all add: alone_def media_stays_def)
  from recorded_clip_is_verified [OF first_job job_paths(2) this alone_respects(1) run] run show ?thesis by blast
qed

end
