(* ===== verification/EditorLease.thy ===== *)
theory EditorLease
  imports Scratch Clipset
begin

text \<open>
  The execution lease of the editor (\<open>podcaster/video/editor.py\<close>): a document beside the clips of a
  job that names the run which may plan, wait and compose, until an instant.  \<open>fanout_heartbeat\<close> is the
  heartbeat of \<open>podcaster/video/job_runner.py\<close>.  The theorem says that a live lease excludes every
  other run, along any sequence of lease operations and whatever happens between and inside them.
\<close>

section \<open>The lease\<close>

definition DEFAULT_LEASE_TTL_SECONDS :: int where
  "DEFAULT_LEASE_TTL_SECONDS = 1800"

definition editor_lease_blob_path :: "string \<Rightarrow> string res" where
  "editor_lease_blob_path job = and_then (job_prefix job) (\<lambda>p. Inr (p @ ''editor.lease.json''))"

record editor_lease =
  el_run :: string
  el_claimed :: int
  el_expires :: int

text \<open>\<open>_iso\<close> of a UTC instant, and \<open>_parse_iso\<close>, which reads a naive text as UTC.\<close>

definition iso_utc :: "int \<Rightarrow> string res" where
  "iso_utc t = (if valid_instant t then Inr (isoformat_utc t)
     else Inl (Raise OverflowErr ''date value out of range''))"

definition parse_lease_time :: "json \<Rightarrow> int option" where
  "parse_lease_time v = (case v of
       JStr s \<Rightarrow>
         (if py_strip s = [] then None
          else case fromisoformat s of
                 None \<Rightarrow> None | Some (Aware t) \<Rightarrow> Some t | Some (Naive t) \<Rightarrow> Some t)
     | _ \<Rightarrow> None)"

definition lease_to_bytes :: "editor_lease \<Rightarrow> blob res" where
  "lease_to_bytes l =
     and_then (iso_utc (el_claimed l)) (\<lambda>c.
     and_then (iso_utc (el_expires l)) (\<lambda>e.
     Inr (Doc (JObj [(''run_id'', JStr (el_run l)), (''claimed_at'', JStr c), (''expires_at'', JStr e)]))))"

definition lease_from_bytes :: "blob option \<Rightarrow> editor_lease option" where
  "lease_from_bytes payload = (case payload of
       Some (Doc (JObj d)) \<Rightarrow>
         (case (dget d ''run_id'', parse_lease_time (dget d ''claimed_at''), parse_lease_time (dget d ''expires_at'')) of
            (JStr run, Some c, Some e) \<Rightarrow> Some \<lparr>el_run = run, el_claimed = c, el_expires = e\<rparr>
          | _ \<Rightarrow> None)
     | _ \<Rightarrow> None)"

text \<open>\<open>current if current is not None else b""\<close>.\<close>

definition current_bytes :: "blob option \<Rightarrow> blob" where
  "current_bytes current = (case current of None \<Rightarrow> Empty | Some b \<Rightarrow> b)"

text \<open>The instant of a call: the argument, or the clock.\<close>

definition instant_of :: "int option \<Rightarrow> int io" where
  "instant_of now = (case now of Some t \<Rightarrow> io_return t | None \<Rightarrow> utcnow)"

definition acquire_callback :: "string \<Rightarrow> int \<Rightarrow> int \<Rightarrow> bool callback" where
  "acquire_callback run now expires acquired current =
     (case lease_from_bytes current of
        Some l \<Rightarrow>
          (if el_run l \<noteq> run \<and> now < el_expires l then (False, Inr (current_bytes current))
           else (True, lease_to_bytes \<lparr>el_run = run, el_claimed = now, el_expires = expires\<rparr>))
      | None \<Rightarrow> (True, lease_to_bytes \<lparr>el_run = run, el_claimed = now, el_expires = expires\<rparr>))"

definition renew_callback :: "string \<Rightarrow> int \<Rightarrow> int \<Rightarrow> bool callback" where
  "renew_callback run now expires renewed current =
     (case lease_from_bytes current of
        None \<Rightarrow> (False, Inr (current_bytes current))
      | Some l \<Rightarrow>
          (if el_run l \<noteq> run \<or> el_expires l \<le> now then (False, Inr (current_bytes current))
           else (True, lease_to_bytes \<lparr>el_run = run, el_claimed = el_claimed l, el_expires = expires\<rparr>)))"

text \<open>The stored lease is read back, so that the caller sees the authority that was committed.\<close>

definition persisted_lease :: "string \<Rightarrow> string \<Rightarrow> bool \<Rightarrow> editor_lease option io" where
  "persisted_lease path run ok =
     (if \<not> ok then io_return None
      else io_bind (get_bytes path) (\<lambda>b. io_return (case lease_from_bytes b of
             Some l \<Rightarrow> if el_run l = run then Some l else None | None \<Rightarrow> None)))"

definition acquire_or_renew_lease :: "string \<Rightarrow> string \<Rightarrow> int option \<Rightarrow> int \<Rightarrow> editor_lease option io" where
  "acquire_or_renew_lease job run now ttl =
     io_bind (instant_of now) (\<lambda>t.
     io_bind (io_lift (plus_seconds t ttl)) (\<lambda>expires.
     io_bind (io_lift (editor_lease_blob_path job)) (\<lambda>path.
     io_bind (update_bytes path (acquire_callback run t expires) False) (persisted_lease path run))))"

definition renew_lease :: "string \<Rightarrow> string \<Rightarrow> int option \<Rightarrow> int \<Rightarrow> editor_lease option io" where
  "renew_lease job run now ttl =
     io_bind (instant_of now) (\<lambda>t.
     io_bind (io_lift (plus_seconds t ttl)) (\<lambda>expires.
     io_bind (io_lift (editor_lease_blob_path job)) (\<lambda>path.
     io_bind (update_bytes path (renew_callback run t expires) False) (persisted_lease path run))))"

definition read_lease :: "string \<Rightarrow> editor_lease option io" where
  "read_lease job =
     io_bind (io_lift (editor_lease_blob_path job)) (\<lambda>path.
     io_bind (get_bytes path) (\<lambda>b. io_return (lease_from_bytes b)))"

definition release_callback :: "string \<Rightarrow> unit callback" where
  "release_callback run u current =
     (case lease_from_bytes current of
        Some l \<Rightarrow> if el_run l \<noteq> run then ((), Inr (current_bytes current)) else ((), Inr Empty)
      | None \<Rightarrow> ((), Inr Empty))"

definition release_lease :: "string \<Rightarrow> string \<Rightarrow> unit io" where
  "release_lease job run =
     io_bind (io_lift (editor_lease_blob_path job)) (\<lambda>path.
     io_except [PyException] (\<lambda>_. io_return ()) (update_bytes path (release_callback run) ()))"

text \<open>The heartbeat aborts the run when the lease is lost.\<close>

definition fanout_heartbeat :: "string \<Rightarrow> string \<Rightarrow> unit io" where
  "fanout_heartbeat job run =
     io_bind (renew_lease job run None DEFAULT_LEASE_TTL_SECONDS) (\<lambda>l.
     if l = None then io_raise (Raise TransientVideoErr ''editor lease lost'') else io_return ())"

section \<open>What is stored is read back\<close>

lemma strip_nonempty: "c \<in> set s \<Longrightarrow> \<not> py_isspace c \<Longrightarrow> py_strip s \<noteq> []"
  by (metis py_strip_def rev_is_Nil_conv dropWhile_eq_Nil_conv set_rev hd_dropWhile hd_in_set)

lemma parse_isoformat [simp]: "valid_instant t \<Longrightarrow> parse_lease_time (JStr (isoformat_utc t)) = Some t"
proof -
  have "py_strip (isoformat_utc t) \<noteq> []"
    by (rule strip_nonempty [of "CHR ''0''"]) (simp_all add: isoformat_utc_def py_isspace_def)
  then show "valid_instant t \<Longrightarrow> parse_lease_time (JStr (isoformat_utc t)) = Some t"
    by (simp add: parse_lease_time_def fromisoformat_isoformat)
qed

lemma no_lease [simp]: "lease_from_bytes None = None" "lease_from_bytes (Some Empty) = None"
  by (simp_all add: lease_from_bytes_def)

lemma lease_there: "lease_from_bytes b = Some l \<Longrightarrow> \<exists>c. b = Some c"
  by (cases b) auto

lemma lease_round_trip: "lease_to_bytes l = Inr b \<Longrightarrow> lease_from_bytes (Some b) = Some l"
  by (auto simp: lease_to_bytes_def lease_from_bytes_def and_then_Inr_conv iso_utc_def dget_def split: if_splits)

section \<open>A live lease\<close>

text \<open>\<open>r\<close> holds the lease until \<open>e\<close> at least.\<close>

definition live_lease :: "string \<Rightarrow> int \<Rightarrow> blob option \<Rightarrow> bool" where
  "live_lease r e b \<longleftrightarrow> (case lease_from_bytes b of Some l \<Rightarrow> el_run l = r \<and> e \<le> el_expires l | None \<Rightarrow> False)"

text \<open>The rely condition on the document at \<open>p\<close>: whatever else happens, \<open>R\<close> stays.\<close>

locale document_guard =
  fixes E :: surroundings
    and p :: string
    and R :: "blob option \<Rightarrow> bool"
  assumes others_document: "R (sc_blobs s p) \<Longrightarrow> R (sc_blobs (su_others E n s) p)"
    and rivals_document: "R (sc_blobs s p) \<Longrightarrow> g \<in> set (su_rivals E n) \<Longrightarrow> R (sc_blobs (g s) p)"

sublocale document_guard \<subseteq> steady E "\<lambda>s D. R (sc_blobs s p)"
  by unfold_locales (auto dest: others_document rivals_document)

context document_guard
begin

text \<open>The result of a conditional update is what its callback captured on a content that satisfies \<open>R\<close>.\<close>

lemma rounds_tell:
  assumes "\<And>c b c' b'. R b \<Longrightarrow> f c b = (c', Inr b') \<Longrightarrow> Q c' (Some b') \<and> R (Some b')"
    and "R (sc_blobs s p)" "cas_rounds n gs f c p s = (r, s')" "set gs \<subseteq> set (su_rivals E k)"
  shows "R (sc_blobs s' p) \<and> (\<forall>x. r = Inr x \<longrightarrow> Q x (sc_blobs s' p))"
  using assms(2-4)
proof (induction n arbitrary: gs c s)
  case 0
  then show ?case by auto
next
  case (Suc n)
  show ?case
  proof (cases gs)
    case Nil
    then show ?thesis using Suc.prems by (auto dest: assms(1) split: prod.splits sum.splits)
  next
    case (Cons g hs)
    have "R (sc_blobs (g s) p)" by (rule rivals_document [of s g k]) (use Suc.prems Cons in auto)
    with Suc.IH [where gs = hs and s = "g s"] show ?thesis using Suc.prems Cons by (auto split: prod.splits sum.splits)
  qed
qed

lemma update_tells:
  assumes "\<And>c b c' b'. R b \<Longrightarrow> f c b = (c', Inr b') \<Longrightarrow> Q c' (Some b') \<and> R (Some b')"
  shows "triple E Iw (update_bytes p f c) (\<lambda>x w. Iw w \<and> Q x (sc_blobs (w_scratch w) p)) (\<lambda>_. Iw)"
  unfolding triple_def
proof (intro allI impI)
  fix w assume "Iw w"
  let ?w = "next_tick E w"
  obtain r s' where run: "cas_rounds 5 (su_rivals E (w_tick w)) f c p (w_scratch ?w) = (r, s')" by fastforce
  have "R (sc_blobs s' p) \<and> (\<forall>x. r = Inr x \<longrightarrow> Q x (sc_blobs s' p))"
    by (rule rounds_tell [OF assms _ run subset_refl]) (use tick_keeps [OF \<open>Iw w\<close>] in auto)
  then show "case update_bytes p f c E w of (Inr x, w') \<Rightarrow> Iw w' \<and> Q x (sc_blobs (w_scratch w') p) | (Inl e, w') \<Rightarrow> Iw w'"
    using tick_keeps [OF \<open>Iw w\<close>] run
    by (auto simp: update_bytes_def request_def on_scratch_def Let_def split: fault.splits sum.splits)
qed

end

section \<open>The lease excludes other runs\<close>

datatype lease_call = Acquire string "int option" int | Renew string "int option" int | Release string

fun call_lease :: "string \<Rightarrow> lease_call \<Rightarrow> editor_lease option io" where
  "call_lease job (Acquire run now ttl) = acquire_or_renew_lease job run now ttl"
| "call_lease job (Renew run now ttl) = renew_lease job run now ttl"
| "call_lease job (Release run) = io_bind (release_lease job run) (\<lambda>_. io_return None)"

fun caller :: "lease_call \<Rightarrow> string" where
  "caller (Acquire run now ttl) = run"
| "caller (Renew run now ttl) = run"
| "caller (Release run) = run"

text \<open>Another run calls before \<open>e\<close>; the holder \<open>r\<close> neither releases the lease nor shortens it.\<close>

fun before_expiry :: "string \<Rightarrow> int \<Rightarrow> lease_call \<Rightarrow> bool" where
  "before_expiry r e (Acquire run now ttl) \<longleftrightarrow>
     (if run = r then \<exists>t. now = Some t \<and> e \<le> t + micros ttl else \<forall>t. now = Some t \<longrightarrow> t < e)"
| "before_expiry r e (Renew run now ttl) \<longleftrightarrow> run = r \<longrightarrow> (\<exists>t. now = Some t \<and> e \<le> t + micros ttl)"
| "before_expiry r e (Release run) \<longleftrightarrow> run \<noteq> r"

locale lease_held = document_guard E p "live_lease r e"
  for E :: surroundings and p :: string and r :: string and e :: int +
  assumes clock: "su_utc E n < e"
begin

lemma instant_tells:
  assumes "before_expiry r e (Acquire run now ttl) \<or> before_expiry r e (Renew run now ttl)"
  shows "triple E Iw (instant_of now)
    (\<lambda>t w. Iw w \<and> (if run = r then e \<le> t + micros ttl else before_expiry r e (Acquire run now ttl) \<longrightarrow> t < e)) (\<lambda>_. Iw)"
  using assms clock tick_keeps
  by (cases now) (auto simp: instant_of_def triple_def io_return_def utcnow_def)

lemma persisted_keeps: "triple E (\<lambda>w. Iw w \<and> (ok \<longrightarrow> run = r)) (persisted_lease q run ok)
    (\<lambda>x w. Iw w \<and> (run \<noteq> r \<longrightarrow> x = None)) (\<lambda>_. Iw)"
proof (cases "ok \<longrightarrow> run = r")
  case True
  have "keeps E Iw (persisted_lease q run ok)"
    unfolding persisted_lease_def by (intro triple_rules; assumption)
  moreover have "triple E Iw (persisted_lease q run ok) (\<lambda>x w. run \<noteq> r \<longrightarrow> x = None) (\<lambda>_ _. True)"
    using True by (auto simp: triple_def persisted_lease_def io_return_def split: sum.splits prod.splits)
  ultimately show ?thesis by (auto dest: triple_conj intro: triple_weaken)
qed (simp add: triple_def)

lemma acquire_excluded:
  assumes "before_expiry r e (Acquire run now ttl)" "editor_lease_blob_path job = Inr p"
  shows "triple E Iw (acquire_or_renew_lease job run now ttl) (\<lambda>x w. Iw w \<and> (run \<noteq> r \<longrightarrow> x = None)) (\<lambda>_. Iw)"
proof -
  have step: "triple E Iw (update_bytes p (acquire_callback run t ex) False) (\<lambda>ok w. Iw w \<and> (ok \<longrightarrow> run = r)) (\<lambda>_. Iw)"
    if "run = r \<and> e \<le> ex \<or> run \<noteq> r \<and> t < e" for t ex
    by (rule triple_weaken [OF update_tells [where Q = "\<lambda>ok b. ok \<longrightarrow> run = r"]])
      (use that in \<open>auto simp: acquire_callback_def live_lease_def current_bytes_def lease_round_trip
         split: option.splits if_splits dest: lease_there\<close>)
  have rest: "triple E Iw (io_bind (update_bytes p (acquire_callback run t ex) False) (persisted_lease p run))
      (\<lambda>x w. Iw w \<and> (run \<noteq> r \<longrightarrow> x = None)) (\<lambda>_. Iw)" if "run = r \<and> e \<le> ex \<or> run \<noteq> r \<and> t < e" for t ex
    by (rule triple_bind [OF step [OF that] persisted_keeps])
  show ?thesis
    unfolding acquire_or_renew_lease_def assms(2) io_bind_lift sum.case
    by (rule triple_bind [OF instant_tells triple_pure], rule disjI1, rule assms(1), rule triple_sum, rule triple_raise, simp)
      (rule rest; use assms(1) in \<open>auto simp: plus_seconds_def split: if_splits\<close>)
qed

lemma renew_excluded:
  assumes "before_expiry r e (Renew run now ttl)" "editor_lease_blob_path job = Inr p"
  shows "triple E Iw (renew_lease job run now ttl) (\<lambda>x w. Iw w \<and> (run \<noteq> r \<longrightarrow> x = None)) (\<lambda>_. Iw)"
proof -
  have step: "triple E Iw (update_bytes p (renew_callback run t ex) False) (\<lambda>ok w. Iw w \<and> (ok \<longrightarrow> run = r)) (\<lambda>_. Iw)"
    if "run = r \<longrightarrow> e \<le> ex" for t ex
    by (rule triple_weaken [OF update_tells [where Q = "\<lambda>ok b. ok \<longrightarrow> run = r"]])
      (use that in \<open>auto simp: renew_callback_def live_lease_def current_bytes_def lease_round_trip
         split: option.splits if_splits dest: lease_there\<close>)
  have rest: "triple E Iw (io_bind (update_bytes p (renew_callback run t ex) False) (persisted_lease p run))
      (\<lambda>x w. Iw w \<and> (run \<noteq> r \<longrightarrow> x = None)) (\<lambda>_. Iw)" if "run = r \<longrightarrow> e \<le> ex" for t ex
    by (rule triple_bind [OF step [OF that] persisted_keeps])
  show ?thesis
    unfolding renew_lease_def assms(2) io_bind_lift sum.case
    by (rule triple_bind [OF instant_tells triple_pure], rule disjI2, rule assms(1), rule triple_sum, rule triple_raise, simp)
      (rule rest; use assms(1) in \<open>auto simp: plus_seconds_def split: if_splits\<close>)
qed

lemma release_excluded:
  assumes "run \<noteq> r" "editor_lease_blob_path job = Inr p"
  shows "keeps E Iw (release_lease job run)"
proof -
  have "keeps E Iw (update_bytes p (release_callback run) ())"
    by (rule triple_weaken [OF update_tells [where Q = "\<lambda>_ _. True"]])
      (use assms(1) in \<open>auto simp: release_callback_def live_lease_def current_bytes_def split: option.splits if_splits dest: lease_there\<close>)
  then show ?thesis
    unfolding release_lease_def assms(2) io_bind_lift sum.case by (intro triple_rules)
qed

lemma call_excluded:
  assumes "before_expiry r e c" "editor_lease_blob_path job = Inr p"
  shows "triple E Iw (call_lease job c) (\<lambda>x w. Iw w \<and> (caller c \<noteq> r \<longrightarrow> x = None)) (\<lambda>_. Iw)"
proof (cases c)
  case (Release run)
  have "run \<noteq> r" using assms(1) Release by simp
  then show ?thesis
    by (auto simp: Release intro!: triple_bind [OF release_excluded] triple_return assms(2))
qed (use acquire_excluded renew_excluded assms in auto)

lemma calls_excluded:
  assumes "\<forall>c \<in> set cs. before_expiry r e c" "editor_lease_blob_path job = Inr p"
  shows "triple E Iw (io_map (\<lambda>c. io_result (call_lease job c)) cs)
    (\<lambda>xs w. Iw w \<and> list_all2 (\<lambda>c x. caller c \<noteq> r \<longrightarrow> (\<forall>l. x \<noteq> Inr (Some l))) cs xs) (\<lambda>_ _. False)"
  using assms(1)
proof (induction cs)
  case Nil
  then show ?case by (simp add: triple_return)
next
  case (Cons c cs)
  have first: "triple E Iw (io_result (call_lease job c)) (\<lambda>x w. Iw w \<and> (caller c \<noteq> r \<longrightarrow> (\<forall>l. x \<noteq> Inr (Some l)))) (\<lambda>_ _. False)"
    using call_excluded [of c, OF _ assms(2)] Cons.prems
    unfolding triple_def io_result_def by (fastforce split: sum.splits prod.splits)
  show ?case
    unfolding io_map.simps
    by (rule triple_bind [OF first triple_pure], rule triple_bind [OF Cons.IH triple_return])
      (use Cons.prems in auto)
qed

end

text \<open>An editor whose requests are interleaved with another run that tries to take the lease.\<close>

definition lease_rival :: "string \<Rightarrow> string \<Rightarrow> int \<Rightarrow> scratch \<Rightarrow> scratch" where
  "lease_rival job run t s = w_scratch (snd (acquire_or_renew_lease job run None DEFAULT_LEASE_TTL_SECONDS (alone t) (world_of s)))"

definition contended :: "string \<Rightarrow> string \<Rightarrow> int \<Rightarrow> (nat \<Rightarrow> fault) \<Rightarrow> surroundings" where
  "contended job run t fate = \<lparr>su_others = (\<lambda>_. lease_rival job run t), su_rivals = (\<lambda>_. [lease_rival job run t]),
     su_fate = fate, su_delay = (\<lambda>_. 1), su_utc = (\<lambda>_. t)\<rparr>"

definition lease_path_text :: "string \<Rightarrow> string" where
  "lease_path_text job = (case editor_lease_blob_path job of Inr p \<Rightarrow> p | Inl _ \<Rightarrow> [])"

interpretation alone_lease: lease_held "alone (e - 1)" p r e for p r e
  by unfold_locales (simp_all add: alone_def)

lemma rival_keeps:
  assumes "run \<noteq> r" "live_lease r e (sc_blobs s (lease_path_text job))"
  shows "live_lease r e (sc_blobs (lease_rival job run (e - 1) s) (lease_path_text job))"
proof (cases "editor_lease_blob_path job")
  case (Inr p)
  obtain x w where run: "acquire_or_renew_lease job run None DEFAULT_LEASE_TTL_SECONDS (alone (e - 1)) (world_of s) = (x, w)"
    by fastforce
  have "live_lease r e (sc_blobs (w_scratch w) p)"
    using tripleD [OF alone_lease.acquire_excluded [of r e run None _ job p] _ run] assms Inr
    by (auto simp: lease_path_text_def world_of_def split: sum.splits)
  then show ?thesis using run Inr by (simp add: lease_rival_def lease_path_text_def)
next
  case (Inl err)
  then show ?thesis using assms(2)
    by (simp add: lease_rival_def acquire_or_renew_lease_def io_bind_lift io_raise_def io_bind_def instant_of_def
        utcnow_def world_of_def next_tick_def alone_def split: sum.splits)
qed

interpretation contended_lease: lease_held "contended job (CHR ''x'' # r) (e - 1) fate" "lease_path_text job" r e
  for job r e fate
  by unfold_locales (auto simp: contended_def intro!: rival_keeps)

definition lease_respected :: "surroundings \<Rightarrow> string \<Rightarrow> string \<Rightarrow> int \<Rightarrow> bool" where
  "lease_respected E p r e \<longleftrightarrow>
     (\<forall>n s. live_lease r e (sc_blobs s p) \<longrightarrow> live_lease r e (sc_blobs (su_others E n s) p)
        \<and> (\<forall>g \<in> set (su_rivals E n). live_lease r e (sc_blobs (g s) p)))"

text \<open>Claim C11: a live editor lease excludes every other run.  While run \<open>r\<close> holds the lease until \<open>e\<close>, and the
  other workers respect that between and inside the requests, no sequence of acquisitions, renewals and
  releases before \<open>e\<close> grants the lease to another run, and \<open>r\<close> still holds it afterwards -- including
  calls that fail before or after their effect and renewals by \<open>r\<close> itself.\<close>

theorem live_lease_excludes:
  assumes "editor_lease_blob_path job = Inr p" "live_lease r e (sc_blobs (w_scratch w) p)"
    and "lease_respected E p r e" "\<forall>n. su_utc E n < e" "\<forall>c \<in> set cs. before_expiry r e c"
    and "io_map (\<lambda>c. io_result (call_lease job c)) cs E w = (Inr xs, w')"
  shows "live_lease r e (sc_blobs (w_scratch w') p)
    \<and> list_all2 (\<lambda>c x. caller c \<noteq> r \<longrightarrow> (\<forall>l. x \<noteq> Inr (Some l))) cs xs"
proof -
  have "lease_held E p r e" by unfold_locales (use assms(3,4) in \<open>auto simp: lease_respected_def\<close>)
  from tripleD [OF lease_held.calls_excluded [OF this assms(5,1)] assms(2,6)] show ?thesis by simp
qed

text \<open>Runs \<open>a\<close> and \<open>b\<close> compete for a lease that \<open>a\<close> holds for an hour, and another run interferes.\<close>

definition leased :: "string \<Rightarrow> editor_lease \<Rightarrow> scratch" where
  "leased job l = \<lparr>sc_blobs = (\<lambda>q. if q = lease_path_text job then (case lease_to_bytes l of Inr b \<Rightarrow> Some b | Inl _ \<Rightarrow> None) else None),
     sc_media = (\<lambda>_. None)\<rparr>"

definition contest :: "lease_call list" where
  "contest = [Acquire ''b'' None 1800, Renew ''a'' (Some 60000000) 3600, Release ''b'', Renew ''b'' None 1800]"

theorem live_lease_excludes_witness:
  "\<exists>xs w'. io_map (\<lambda>c. io_result (call_lease ''j'' c)) contest (contended ''j'' (CHR ''x'' # ''a'') 3599999999 (\<lambda>_. NoFault))
      (world_of (leased ''j'' \<lparr>el_run = ''a'', el_claimed = 0, el_expires = 3600000000\<rparr>)) = (Inr xs, w')
    \<and> live_lease ''a'' 3600000000 (sc_blobs (w_scratch w') ''video-jobs/j/editor.lease.json'')
    \<and> list_all2 (\<lambda>c x. caller c \<noteq> ''a'' \<longrightarrow> (\<forall>l. x \<noteq> Inr (Some l))) contest xs"
    (is "\<exists>xs w'. ?run = (Inr xs, w') \<and> _ w' \<and> _ xs")
proof -
  have path: "editor_lease_blob_path ''j'' = Inr ''video-jobs/j/editor.lease.json''"
    by (simp add: editor_lease_blob_path_def job_prefix_def clean_job_id_def py_strip_def py_isspace_def)
  obtain b where "lease_to_bytes \<lparr>el_run = ''a'', el_claimed = 0, el_expires = 3600000000\<rparr> = Inr b"
    by (simp add: lease_to_bytes_def iso_utc_def valid_instant_def micros_per_day_def)
  then have held_now: "live_lease ''a'' 3600000000 (sc_blobs (w_scratch
      (world_of (leased ''j'' \<lparr>el_run = ''a'', el_claimed = 0, el_expires = 3600000000\<rparr>))) ''video-jobs/j/editor.lease.json'')"
    using path lease_round_trip
    by (simp add: world_of_def leased_def lease_path_text_def live_lease_def)
  have guard: "lease_held (contended ''j'' (CHR ''x'' # ''a'') 3599999999 (\<lambda>_. NoFault)) ''video-jobs/j/editor.lease.json'' ''a'' 3600000000"
    using contended_lease.lease_held_axioms [of "''j''" "''a''" 3600000000 "\<lambda>_. NoFault"] path
    by (simp add: lease_path_text_def)
  have calls: "\<forall>c \<in> set contest. before_expiry ''a'' 3600000000 c"
    by (simp add: contest_def micros_def)
  obtain r w' where run: "?run = (r, w')" by fastforce
  obtain xs where xs: "r = Inr xs"
    using tripleD [OF lease_held.calls_excluded [OF guard calls path] held_now run] by (cases r) auto
  have respected: "lease_respected (contended ''j'' (CHR ''x'' # ''a'') 3599999999 (\<lambda>_. NoFault)) ''video-jobs/j/editor.lease.json'' ''a'' 3600000000"
    using guard unfolding lease_respected_def lease_held_def document_guard_def by blast
  have clock: "\<forall>n. su_utc (contended ''j'' (CHR ''x'' # ''a'') 3599999999 (\<lambda>_. NoFault)) n < 3600000000"
    by (simp add: contended_def)
  from live_lease_excludes [OF path held_now respected clock calls run [unfolded xs]] run xs
  show ?thesis by simp
qed

end
