(* ===== verification/Editor.thy ===== *)
theory Editor
  imports EditorLease Recorder
begin

text \<open>
  The editor's fan-out (\<open>podcaster/video/editor.py\<close>): it plans the clips of a job once, enqueues the
  clips that have no terminal manifest, waits for the recorders, settles what is missing after the
  deadline, and assembles the terminal clips in the order of the plan.  The media validator, the
  fallback card and the gap filler are parameters (\<open>cutting\<close>); a downloaded file is its bytes.
\<close>

section \<open>Parameters and constants\<close>

definition DEFAULT_FANIN_TIMEOUT_SECONDS :: rat where
  "DEFAULT_FANIN_TIMEOUT_SECONDS = 1200"

definition DEFAULT_FANIN_POLL_SECONDS :: rat where
  "DEFAULT_FANIN_POLL_SECONDS = 15"

record recorded_segment =
  sg_segment :: video_segment
  sg_video :: string
  sg_is_fallback :: bool
  sg_has_pages :: bool
  sg_website_url :: "string option"
  sg_is_removed :: bool
  sg_recovery_path :: string
  sg_media :: "media_evidence option"

text \<open>
  \<open>ct_order\<close> is the order in which Python iterates the set of the given indices, \<open>ct_queue\<close>
  whether a clip queue is configured.  \<open>ct_reason\<close> is the text of a validation error's reason.
\<close>

record cutting =
  ct_tools :: tools
  ct_validate :: "string \<Rightarrow> media_evidence option \<Rightarrow> rat \<Rightarrow> media_evidence res"
  ct_card :: "video_segment \<Rightarrow> string res"
  ct_fill_gap :: "(video_segment \<Rightarrow> int \<Rightarrow> recorded_segment res) option"
  ct_order :: "int list \<Rightarrow> int list"
  ct_queue :: bool
  ct_reason :: "exn \<Rightarrow> string"

text \<open>\<open>budget.remaining_seconds(stage)\<close>, \<open>budget.operation_timeout(stage, 30.0)\<close> and \<open>budget.admit(stage)\<close>.\<close>

definition time_left :: "stage_budget \<Rightarrow> video_stage \<Rightarrow> rat io" where
  "time_left b stage = io_bind read_clock (\<lambda>r. io_lift (remaining_seconds b stage r))"

definition time_for_operation :: "stage_budget \<Rightarrow> video_stage \<Rightarrow> rat io" where
  "time_for_operation b stage = io_bind read_clock (\<lambda>r. io_lift (operation_timeout b stage (Some 30) r))"

definition admitted :: "stage_budget \<Rightarrow> video_stage \<Rightarrow> bool io" where
  "admitted b stage = io_bind read_clock (\<lambda>r. io_lift (and_then (admit b stage r) (\<lambda>d. Inr (ad_allowed d))))"

section \<open>The plan\<close>

definition plan_callback :: "blob \<Rightarrow> unit callback" where
  "plan_callback written u current = ((), Inr (case nonempty current of Some b \<Rightarrow> b | None \<Rightarrow> written))"

definition overwrite_callback :: "blob \<Rightarrow> unit callback" where
  "overwrite_callback written u current = ((), Inr written)"

text \<open>\<open>current == raw\<close> compares bytes; equal bytes are equal contents here.\<close>

definition migrate_callback :: "blob \<Rightarrow> blob \<Rightarrow> unit callback" where
  "migrate_callback raw migrated u current =
     (if current = Some raw then ((), Inr migrated)
      else ((), Inr (case current of Some b \<Rightarrow> b | None \<Rightarrow> migrated)))"

text \<open>\<open>scratch.get_bytes(path) or default\<close>.\<close>

definition bytes_or :: "blob \<Rightarrow> blob option \<Rightarrow> blob" where
  "bytes_or dflt b = (case nonempty b of Some x \<Rightarrow> x | None \<Rightarrow> dflt)"

text \<open>A plan that cannot be read is replaced, with the clips made for it, while the budget admits it.\<close>

definition replace_plan :: "string \<Rightarrow> string \<Rightarrow> clipset \<Rightarrow> blob \<Rightarrow> stage_budget option \<Rightarrow> exn \<Rightarrow> clipset io" where
  "replace_plan job path planned written budget e =
     io_bind (case budget of None \<Rightarrow> io_return False | Some b \<Rightarrow> admitted b PREFLIGHT) (\<lambda>ok.
     if \<not> ok then io_raise e
     else
       io_bind (delete_blob path) (\<lambda>_.
       io_bind (io_lift (clips_prefix job)) (\<lambda>prefix.
       io_bind (delete_prefix prefix) (\<lambda>_.
       io_bind (update_bytes path (overwrite_callback written) ()) (\<lambda>_.
       io_return planned)))))"

definition read_plan :: "tools \<Rightarrow> string \<Rightarrow> string \<Rightarrow> clipset \<Rightarrow> blob \<Rightarrow> stage_budget option \<Rightarrow> blob \<Rightarrow> clipset io" where
  "read_plan T job path planned written budget raw =
     (case clipset_from_bytes T (Some raw) job of
        Inr c \<Rightarrow> io_return c
      | Inl e \<Rightarrow>
          (if catches [ClipsetJobMismatchErr, ClipsetBudgetErr, ClipsetSchemaErr] e \<or> \<not> catches [TypeErr, ValueErr] e
           then io_raise e
           else replace_plan job path planned written budget e))"

text \<open>A version-1 plan gets the budget and becomes a version-2 plan, unless another editor changed it.\<close>

definition migrated_document :: "blob \<Rightarrow> budget_projection \<Rightarrow> blob res" where
  "migrated_document raw b =
     and_then (load_doc raw) (\<lambda>j. case j of
         JObj d \<Rightarrow> Inr (Doc (JObj (dset ''video_budget'' (JObj (projection_to_dict b))
                      (dset ''schema_version'' (JStr CLIPSET_SCHEMA_VERSION) d))))
       | _ \<Rightarrow> Inl (Raise TypeErr ''object does not support item assignment''))"

definition migrate_plan :: "tools \<Rightarrow> string \<Rightarrow> string \<Rightarrow> stage_budget option \<Rightarrow> blob \<Rightarrow> clipset \<Rightarrow> clipset io" where
  "migrate_plan T job path budget raw c =
     (if cs_version c \<noteq> LEGACY_CLIPSET_SCHEMA_VERSION then io_return c
      else
        (let migrated_budget = (case cs_budget c of Some b \<Rightarrow> Some b | None \<Rightarrow> map_option vb_projection budget)
         in case migrated_budget of
              None \<Rightarrow> io_return c
            | Some b \<Rightarrow>
                io_bind (io_lift (migrated_document raw b)) (\<lambda>migrated.
                io_bind (update_bytes path (migrate_callback raw migrated) ()) (\<lambda>_.
                io_bind (get_bytes path) (\<lambda>authoritative.
                io_lift (clipset_from_bytes T (Some (bytes_or migrated authoritative)) job))))))"

definition plan_or_load_clipset :: "tools \<Rightarrow> string \<Rightarrow> video_segment list \<Rightarrow> stage_budget option \<Rightarrow> clipset io" where
  "plan_or_load_clipset T job segments budget =
     io_bind (io_lift (clipset_blob_path job)) (\<lambda>path.
     io_bind (io_lift (clipset_from_segments job segments (map_option vb_projection budget))) (\<lambda>planned.
     io_bind (io_lift (clipset_to_dict planned)) (\<lambda>d.
     let written = Doc (JObj d)
     in io_bind (update_bytes path (plan_callback written) ()) (\<lambda>_.
        io_bind (get_bytes path) (\<lambda>b.
        let raw = bytes_or written b
        in io_bind (read_plan T job path planned written budget raw)
             (migrate_plan T job path budget raw))))))"

section \<open>Fan-out\<close>

text \<open>\<open>operation_runner(lambda: scratch.blob_exists(path), remaining)\<close>, and without a bound.\<close>

definition exists_within :: "string \<Rightarrow> rat option \<Rightarrow> bool io" where
  "exists_within path timeout = (case timeout of None \<Rightarrow> blob_exists path | Some t \<Rightarrow> run_bounded (blob_exists path) t)"

fun missing_from :: "string \<Rightarrow> int list \<Rightarrow> rat io option \<Rightarrow> int list io" where
  "missing_from job [] check = io_return []"
| "missing_from job (i # is) check =
     io_bind (io_lift (clip_manifest_blob_path job i)) (\<lambda>path.
     io_bind (case check of
         None \<Rightarrow> exists_within path None
       | Some c \<Rightarrow> io_bind c (\<lambda>remaining.
           if remaining \<le> 0
           then io_raise (Raise StorageTimeoutErr ''fallback deadline reached during missing clip inspection'')
           else exists_within path (Some remaining))) (\<lambda>there.
     io_bind (missing_from job is check) (\<lambda>rest.
     io_return (if there then rest else i # rest))))"

definition missing_indices :: "clipset \<Rightarrow> rat io option \<Rightarrow> int list io" where
  "missing_indices c check = missing_from (cs_job c) (indices c) check"

text \<open>
  \<open>encode_clip_message\<close> of \<open>podcaster/queue.py\<close>, up to the encoding of the document as Base64, and
  \<open>enqueue_clip_job\<close>.
\<close>

definition encode_clip_message :: "string \<Rightarrow> int \<Rightarrow> json res" where
  "encode_clip_message job i =
     (if py_strip job = [] then Inl (Raise ValueErr ''job_id is required to build a clip message'')
      else if i < 0 then Inl (Raise ValueErr ''clip_index must be non-negative to build a clip message'')
      else Inr (JObj [(''schema_version'', JStr CLIP_QUEUE_SCHEMA_VERSION), (''job_id'', JStr (py_strip job)),
                      (''clip_index'', JInt i)]))"

definition enqueue_clip_job :: "bool \<Rightarrow> string \<Rightarrow> int \<Rightarrow> bool io" where
  "enqueue_clip_job configured job i =
     (if \<not> configured then io_return False
      else io_bind (io_lift (encode_clip_message job i)) (\<lambda>_.
           io_bind (send_clip_message (py_strip job) i) (\<lambda>_. io_return True)))"

text \<open>
  A call within the time the check gives: \<open>None\<close> when no time is left or the call timed out, which
  ends the loop around it.
\<close>

definition timed :: "rat io option \<Rightarrow> (rat option \<Rightarrow> 'a io) \<Rightarrow> 'a option io" where
  "timed check call =
     (case check of
        None \<Rightarrow> io_bind (call None) (\<lambda>x. io_return (Some x))
      | Some c \<Rightarrow> io_bind c (\<lambda>remaining.
          if remaining \<le> 0 then io_return None
          else io_except [TimeoutErr] (\<lambda>_. io_return None)
            (io_bind (call (Some remaining)) (\<lambda>x. io_return (Some x)))))"

definition enqueue_within :: "bool \<Rightarrow> string \<Rightarrow> int \<Rightarrow> rat option \<Rightarrow> bool io" where
  "enqueue_within configured job i timeout = (case timeout of
       None \<Rightarrow> enqueue_clip_job configured job i | Some t \<Rightarrow> run_bounded (enqueue_clip_job configured job i) t)"

fun enqueue_from :: "bool \<Rightarrow> string \<Rightarrow> int list \<Rightarrow> rat io option \<Rightarrow> int list io" where
  "enqueue_from configured job [] check = io_return []"
| "enqueue_from configured job (i # is) check =
     io_bind (io_lift (clip_manifest_blob_path job i)) (\<lambda>path.
     io_bind (timed check (exists_within path)) (\<lambda>there.
     case there of
       None \<Rightarrow> io_return []
     | Some True \<Rightarrow> enqueue_from configured job is check
     | Some False \<Rightarrow>
         io_bind (timed check (enqueue_within configured job i)) (\<lambda>sent.
         case sent of
           None \<Rightarrow> io_return []
         | Some _ \<Rightarrow> io_bind (enqueue_from configured job is check) (\<lambda>rest. io_return (i # rest)))))"

definition enqueue_missing_clips :: "bool \<Rightarrow> clipset \<Rightarrow> rat io option \<Rightarrow> int list io" where
  "enqueue_missing_clips configured c check = enqueue_from configured (cs_job c) (indices c) check"

section \<open>Fan-in\<close>

text \<open>The time until \<open>deadline\<close>, and within the budget of the fan-in stage.\<close>

definition until :: "rat \<Rightarrow> stage_budget option \<Rightarrow> rat io" where
  "until deadline budget =
     io_bind monotonic (\<lambda>now.
     case budget of
       None \<Rightarrow> io_return (deadline - now)
     | Some b \<Rightarrow> io_bind (time_left b FANIN) (\<lambda>left. io_return (min (deadline - now) left)))"

text \<open>One pass over the manifests; the flag says that it was cut short.\<close>

fun probe_clips :: "string \<Rightarrow> rat \<Rightarrow> stage_budget option \<Rightarrow> int list \<Rightarrow> int list \<Rightarrow> (bool \<times> int list) io" where
  "probe_clips job deadline budget [] present = io_return (False, present)"
| "probe_clips job deadline budget (i # is) present =
     io_bind (io_lift (clip_manifest_blob_path job i)) (\<lambda>path.
     io_bind (timed (if budget = None then None else Some (until deadline budget)) (exists_within path)) (\<lambda>there.
     case there of
       None \<Rightarrow> io_return (True, present)
     | Some b \<Rightarrow> probe_clips job deadline budget is (if b then present @ [i] else present)))"

text \<open>The barrier, with fuel for its passes; \<open>None\<close> when the fuel does not suffice.\<close>

fun fanin_loop ::
  "nat \<Rightarrow> string \<Rightarrow> int list \<Rightarrow> rat \<Rightarrow> rat \<Rightarrow> stage_budget option \<Rightarrow> unit io \<Rightarrow> (bool \<times> int list) option io" where
  "fanin_loop 0 job expected deadline poll budget on_poll = io_return None"
| "fanin_loop (Suc n) job expected deadline poll budget on_poll =
     io_bind (probe_clips job deadline budget expected []) (\<lambda>(cut, present).
     if cut then io_return (Some (False, present))
     else
       io_bind on_poll (\<lambda>_.
       if set expected \<subseteq> set present then io_return (Some (True, present))
       else
         io_bind (until deadline budget) (\<lambda>remaining.
         if remaining \<le> 0 then io_return (Some (False, present))
         else
           io_bind (sleep (min poll remaining)) (\<lambda>_.
           fanin_loop n job expected deadline poll budget on_poll))))"

definition wait_for_fanin ::
  "nat \<Rightarrow> clipset \<Rightarrow> int list \<Rightarrow> rat \<Rightarrow> rat \<Rightarrow> unit io \<Rightarrow> stage_budget option \<Rightarrow> (bool \<times> int list) option io" where
  "wait_for_fanin fuel c expected timeout poll on_poll budget =
     io_bind (case budget of None \<Rightarrow> io_return timeout
       | Some b \<Rightarrow> io_bind (time_left b FANIN) (\<lambda>left. io_return (min timeout left))) (\<lambda>effective.
     io_bind monotonic (\<lambda>now.
     fanin_loop fuel (cs_job c) expected (now + max 0 effective) poll budget on_poll))"

section \<open>Settling what is missing\<close>

fun terminalize_from :: "tools \<Rightarrow> string \<Rightarrow> int list \<Rightarrow> stage_budget \<Rightarrow> unit io" where
  "terminalize_from T job [] budget = io_return ()"
| "terminalize_from T job (i # is) budget =
     io_bind (time_left budget FALLBACK) (\<lambda>remaining.
     if remaining \<le> 0 then io_return ()
     else
       io_bind (write_fallback_manifest T job i ''fanin_deadline_reached'' (min 30 remaining) (to_render T) None
         (Some (time_left budget FALLBACK))) (\<lambda>_.
       terminalize_from T job is budget))"

definition terminalize_missing_clips :: "tools \<Rightarrow> clipset \<Rightarrow> stage_budget \<Rightarrow> unit io" where
  "terminalize_missing_clips T c budget =
     io_bind (time_left budget FALLBACK) (\<lambda>left.
     if left \<le> 0 then io_return ()
     else
       io_bind (missing_indices c (Some (time_left budget FALLBACK))) (\<lambda>pending.
       terminalize_from T (cs_job c) pending budget))"

text \<open>The count of deleted blobs that \<open>cleanup_clips\<close> returns is left out.\<close>

definition cleanup_clips :: "string \<Rightarrow> stage_budget option \<Rightarrow> unit io" where
  "cleanup_clips job budget =
     io_bind (case budget of None \<Rightarrow> io_return None
       | Some b \<Rightarrow> io_bind (time_for_operation b SHUTDOWN) (\<lambda>t. io_return (Some t))) (\<lambda>timeout.
     if (case timeout of None \<Rightarrow> False | Some t \<Rightarrow> t \<le> 0) then io_return ()
     else
       io_except [PyException] (\<lambda>_. io_return ())
         (let operation = io_bind (io_lift (clips_prefix job)) delete_prefix
          in case timeout of None \<Rightarrow> operation | Some t \<Rightarrow> run_bounded operation t))"

section \<open>Assembly\<close>

definition insufficient :: "string \<Rightarrow> exn" where
  "insufficient reason = Raise RecordingInsufficientErr reason"

text \<open>\<open>if c: raise RecordingInsufficientError(...)\<close>.\<close>

definition refuse_when :: "bool \<Rightarrow> string \<Rightarrow> unit io" where
  "refuse_when c reason = (if c then io_raise (insufficient reason) else io_return ())"

definition recorded_from_manifest ::
  "(json \<Rightarrow> string) \<Rightarrow> video_segment \<Rightarrow> string \<Rightarrow> dict \<Rightarrow> media_evidence option \<Rightarrow> recorded_segment" where
  "recorded_from_manifest repr seg video d media =
     \<lparr>sg_segment = seg, sg_video = video, sg_is_fallback = manifest_is_fallback d,
      sg_has_pages = truthy (dget_or d ''has_pages'' (JBool False)),
      sg_website_url = opt_str repr (dget d ''website_url''),
      sg_is_removed = truthy (dget_or d ''is_removed'' (JBool False)),
      sg_recovery_path = py_str repr (dget_or d ''recovery_path''
        (JStr (if manifest_is_fallback d then ''fallback'' else ''direct''))),
      sg_media = media\<rparr>"

text \<open>What one assembly is called with: the budget, whether only completed clips count, the live authority.\<close>

record assembly =
  as_budget :: "stage_budget option"
  as_completed :: bool
  as_authority :: "unit io option"
  as_timeout :: rat

definition assembly_stage :: "assembly \<Rightarrow> video_stage" where
  "assembly_stage a = (if as_completed a then RENDER else FALLBACK)"

definition check_authority :: "unit io option \<Rightarrow> unit io" where
  "check_authority authority = (case authority of None \<Rightarrow> io_return () | Some c \<Rightarrow> c)"

text \<open>\<open>_storage_call\<close>: bounded by the stage, between two checks of the authority.\<close>

definition assembly_call :: "assembly \<Rightarrow> 'a io \<Rightarrow> 'a io" where
  "assembly_call a call =
     (case as_budget a of
        None \<Rightarrow> call
      | Some b \<Rightarrow>
          io_bind (time_for_operation b (assembly_stage a)) (\<lambda>timeout.
          if timeout \<le> 0 then io_raise (Raise TimeoutErr ''recording assembly stage deadline reached'')
          else
            run_bounded
              (io_bind (check_authority (as_authority a)) (\<lambda>_.
               io_bind call (\<lambda>value.
               io_bind (check_authority (as_authority a)) (\<lambda>_. io_return value)))) timeout))"

text \<open>A completed checkpoint was settled within the budget of the original recording.\<close>

definition cutoff_proof :: "stage_budget option \<Rightarrow> dict \<Rightarrow> unit res" where
  "cutoff_proof budget d =
     (let outside = Raise ValueErr ''terminal checkpoint is outside original recording budget''
      in and_then (dindex d ''terminal_at_utc'') (\<lambda>v. case v of
           JStr s \<Rightarrow>
             (case fromisoformat (py_replace ''Z'' ''+00:00'' s) of
                None \<Rightarrow> Inl (Raise ValueErr ''Invalid isoformat string'')
              | Some stamp \<Rightarrow>
                  (case (budget, stamp) of
                     (Some b, Aware t) \<Rightarrow>
                       (if bp_started (vb_projection b) \<le> t
                        then and_then (stage_deadline_at (vb_projection b) FALLBACK) (\<lambda>u. require (t < u) outside)
                        else Inl outside)
                   | _ \<Rightarrow> Inl outside))
         | _ \<Rightarrow> Inl (Raise AttributeErr ''replace'')))"

definition manifest_media :: "tools \<Rightarrow> dict \<Rightarrow> media_evidence option res" where
  "manifest_media T d = (case dget d ''media'' of
       JObj m \<Rightarrow> and_then (media_from_dict (to_repr T) (to_ftext T) m) (\<lambda>x. Inr (Some x))
     | _ \<Rightarrow> Inr None)"

text \<open>The first group of refusals: schema, cutoff, status, media evidence.\<close>

definition check_manifest :: "tools \<Rightarrow> assembly \<Rightarrow> dict \<Rightarrow> media_evidence option io" where
  "check_manifest T a d =
     (let status = py_str (to_repr T) (dget_or d ''status'' (JStr []))
      in io_bind (refuse_when (as_budget a \<noteq> None \<and> dget d ''schema_version'' \<noteq> JStr CLIP_MANIFEST_SCHEMA_VERSION)
           ''terminal manifest has unknown or legacy schema'') (\<lambda>_.
         io_bind (if \<not> as_completed a then io_return ()
           else io_except [KeyErr, TypeErr, AttributeErr, ValueErr]
             (\<lambda>_. io_raise (insufficient ''completed checkpoint has no valid original cutoff proof''))
             (io_lift (cutoff_proof (as_budget a) d))) (\<lambda>_.
         io_bind (refuse_when (status = STATUS_RECORDING_INSUFFICIENT)
           (py_str (to_repr T) (dget_or d ''failure_reason'' (JStr ''local fallback unavailable'')))) (\<lambda>_.
         io_bind (refuse_when (d \<noteq> [] \<and> status \<notin> {STATUS_SUCCESS, STATUS_FALLBACK})
           ''terminal manifest has invalid recorder status'') (\<lambda>_.
         io_except [TypeErr, ValueErr]
           (\<lambda>_. io_raise (insufficient ''terminal manifest has invalid media evidence''))
           (io_lift (manifest_media T d)))))))"

text \<open>The blob of the clip: the content path that the manifest must name, or the legacy path without a manifest.\<close>

definition clip_source :: "string \<Rightarrow> int \<Rightarrow> dict \<Rightarrow> media_evidence option \<Rightarrow> string res" where
  "clip_source job i d media =
     (if d = [] then clip_blob_path job i
      else case media of
        None \<Rightarrow> Inl (insufficient ''terminal manifest is missing media evidence'')
      | Some m \<Rightarrow>
          (if dget d ''clip_id'' \<noteq> JStr (clip_id i)
           then Inl (insufficient ''terminal manifest clip_id does not match clip index'')
           else and_then (clip_content_blob_path job i (me_sha m)) (\<lambda>path.
             if dget d ''media_blob_path'' \<noteq> JStr path
             then Inl (insufficient ''terminal manifest media path does not match clip identity'')
             else Inr path)))"

text \<open>\<open>manifest_exists and blob_exists(path) and download_file(path, dest)\<close>: the downloaded file.\<close>

definition fetch_clip :: "assembly \<Rightarrow> bool \<Rightarrow> string \<Rightarrow> string option io" where
  "fetch_clip a manifest_exists path =
     (if \<not> manifest_exists then io_return None
      else
        io_bind (assembly_call a (file_exists path)) (\<lambda>there.
        if \<not> there then io_return None else assembly_call a (download_file path)))"

definition validate_clip :: "cutting \<Rightarrow> assembly \<Rightarrow> string \<Rightarrow> media_evidence option \<Rightarrow> unit io" where
  "validate_clip ct a video media =
     io_except [MediaValidationErr, OSErr, ValueErr]
       (\<lambda>e. io_raise (insufficient (''terminal media validation failed: '' @ ct_reason ct e)))
       (io_bind (case as_budget a of None \<Rightarrow> io_return (as_timeout a)
          | Some b \<Rightarrow> io_bind (time_left b (assembly_stage a)) (\<lambda>left. io_return (min (as_timeout a) left))) (\<lambda>timeout.
        if timeout \<le> 0 then io_raise (Raise TimeoutErr ''recording validation stage deadline reached'')
        else
          io_bind (external (ct_validate ct video media timeout)) (\<lambda>_.
          if as_completed a then assembly_call a (io_return ()) else io_return ())))"

definition read_clip_manifest :: "string \<Rightarrow> int \<Rightarrow> assembly \<Rightarrow> dict io" where
  "read_clip_manifest job i a =
     io_bind (assembly_call a (io_bind (io_lift (clip_manifest_blob_path job i)) get_bytes)) (\<lambda>b.
     io_return (manifest_of b))"

text \<open>A fallback without a file gets a card; a gap is filled only where a filler is injected.\<close>

definition substitute_clip :: "cutting \<Rightarrow> assembly \<Rightarrow> clip_entry \<Rightarrow> dict \<Rightarrow> bool \<Rightarrow> recorded_segment io" where
  "substitute_clip ct a entry d manifest_exists =
     (let seg = entry_to_segment entry
      in if \<not> as_completed a \<and> manifest_exists \<and> manifest_is_fallback d
         then io_bind (external (ct_card ct seg)) (\<lambda>card.
              io_return (recorded_from_manifest (to_repr (ct_tools ct)) seg card d None))
         else case (if as_completed a then None else ct_fill_gap ct) of
                Some fill \<Rightarrow> external (fill seg (ce_index entry))
              | None \<Rightarrow> io_raise (insufficient ''terminal manifest does not reference available media''))"

text \<open>What follows the checks of the manifest \<open>d\<close>.\<close>

definition take_clip :: "cutting \<Rightarrow> assembly \<Rightarrow> string \<Rightarrow> clip_entry \<Rightarrow> dict \<Rightarrow> media_evidence option \<Rightarrow> recorded_segment io" where
  "take_clip ct a job entry d media =
     io_bind (io_lift (clip_manifest_blob_path job (ce_index entry))) (\<lambda>manifest_path.
     io_bind (assembly_call a (blob_exists manifest_path)) (\<lambda>manifest_exists.
     io_bind (refuse_when (manifest_exists \<and> d = []) ''terminal manifest is empty or malformed'') (\<lambda>_.
     io_bind (io_lift (clip_source job (ce_index entry) d media)) (\<lambda>path.
     io_bind (fetch_clip a manifest_exists path) (\<lambda>file.
     case file of
       None \<Rightarrow> substitute_clip ct a entry d manifest_exists
     | Some video \<Rightarrow>
         io_bind (validate_clip ct a video media) (\<lambda>_.
         io_return (recorded_from_manifest (to_repr (ct_tools ct)) (entry_to_segment entry) video d media)))))))"

definition assemble_clip :: "cutting \<Rightarrow> assembly \<Rightarrow> string \<Rightarrow> clip_entry \<Rightarrow> recorded_segment io" where
  "assemble_clip ct a job entry =
     io_bind (io_except [TimeoutErr] (\<lambda>_. io_raise (insufficient ''terminal manifest read timed out''))
       (read_clip_manifest job (ce_index entry) a)) (\<lambda>d.
     io_bind (check_manifest (ct_tools ct) a d) (take_clip ct a job entry d))"

definition assemble_recording :: "cutting \<Rightarrow> assembly \<Rightarrow> clipset \<Rightarrow> recorded_segment list io" where
  "assemble_recording ct a c =
     io_bind (refuse_when (as_completed a \<and> (as_budget a = None \<or> as_authority a = None
         \<or> cs_version c \<noteq> CLIPSET_SCHEMA_VERSION \<or> cs_budget c \<noteq> map_option vb_projection (as_budget a)))
       ''completed checkpoint resume lacks bound budget or live authority'') (\<lambda>_.
     io_map (assemble_clip ct a (cs_job c)) (cs_clips c))"

section \<open>The whole fan-out\<close>

text \<open>A queued recording resumed after the fallback deadline uses completed clips only.\<close>

definition resume_recording :: "cutting \<Rightarrow> string \<Rightarrow> stage_budget \<Rightarrow> unit io option \<Rightarrow> recorded_segment list io" where
  "resume_recording ct job b authority =
     io_bind (time_for_operation b RENDER) (\<lambda>timeout.
     io_bind (refuse_when (timeout \<le> 0) ''original render deadline reached'') (\<lambda>_.
     io_bind (refuse_when (authority = None) ''checkpoint resume lacks live authority'') (\<lambda>_.
     io_bind (run_bounded (io_bind (check_authority authority) (\<lambda>_.
         io_bind (io_lift (clipset_blob_path job)) get_bytes)) timeout) (\<lambda>raw.
     io_bind (refuse_when (nonempty raw = None) ''completed clipset is missing'') (\<lambda>_.
     io_bind (io_lift (clipset_from_bytes (ct_tools ct) raw job)) (\<lambda>c.
     if cs_version c \<noteq> CLIPSET_SCHEMA_VERSION \<or> cs_budget c \<noteq> Some (vb_projection b)
     then io_raise (Raise ClipsetBudgetErr ''completed clipset differs from original epoch budget'')
     else assemble_recording ct
       \<lparr>as_budget = Some b, as_completed = True, as_authority = authority, as_timeout = 30\<rparr> c))))))"

text \<open>Plan, fan out, fan in, settle, assemble.\<close>

definition fresh_recording ::
  "nat \<Rightarrow> cutting \<Rightarrow> string \<Rightarrow> video_segment list \<Rightarrow> rat \<Rightarrow> rat \<Rightarrow> unit io option \<Rightarrow> stage_budget
   \<Rightarrow> recorded_segment list option io" where
  "fresh_recording fuel ct job segments timeout poll heartbeat b =
     io_bind (plan_or_load_clipset (ct_tools ct) job segments (Some b)) (\<lambda>c.
     io_bind (admitted b FANIN) (\<lambda>fanin_open.
     io_bind (if fanin_open then enqueue_missing_clips (ct_queue ct) c (Some (time_left b FANIN)) else io_return []) (\<lambda>_.
     io_bind (wait_for_fanin fuel c (ct_order ct (indices c)) timeout poll (check_authority heartbeat) (Some b)) (\<lambda>fanin.
     case fanin of
       None \<Rightarrow> io_return None
     | Some (all_there, present) \<Rightarrow>
         io_bind (if all_there then io_return () else terminalize_missing_clips (ct_tools ct) c b) (\<lambda>_.
         io_bind (time_left b FALLBACK) (\<lambda>left.
         io_bind (assemble_recording ct
           \<lparr>as_budget = Some b, as_completed = False, as_authority = None, as_timeout = min 30 left\<rparr> c) (\<lambda>rs.
         io_return (Some rs))))))))"

text \<open>
  \<open>record_via_fanout\<close>.  \<open>fuel\<close> bounds the passes of the barrier; the result is \<open>None\<close> when it does
  not suffice.
\<close>

definition record_via_fanout ::
  "nat \<Rightarrow> cutting \<Rightarrow> string \<Rightarrow> video_segment list \<Rightarrow> rat \<Rightarrow> rat \<Rightarrow> unit io option \<Rightarrow> stage_budget option \<Rightarrow> bool
   \<Rightarrow> unit io option \<Rightarrow> recorded_segment list option io" where
  "record_via_fanout fuel ct job segments timeout poll heartbeat budget resume authority =
     (case budget of
        None \<Rightarrow> io_raise (Raise ClipsetBudgetErr ''queued fan-out recording requires a shared video budget'')
      | Some b \<Rightarrow>
          io_bind (if resume then admitted b FALLBACK else io_return True) (\<lambda>in_time.
          if in_time then fresh_recording fuel ct job segments timeout poll heartbeat b
          else io_bind (resume_recording ct job b authority) (\<lambda>rs. io_return (Some rs))))"

end
