(* ===== verification/EditorFanin.thy ===== *)
theory EditorFanin
  imports Editor RecorderSafety
begin

text \<open>
  The barrier at which the editor waits for the recorders: it ends after a bounded number of passes,
  whatever the clocks, the storage and the other workers do, and when it reports completeness every
  planned clip has a terminal manifest.
\<close>

section \<open>Time\<close>

text \<open>The monotonic clock does not go back.\<close>

abbreviation forward :: "surroundings \<Rightarrow> 'a io \<Rightarrow> bool" where
  "forward E m \<equiv> (\<forall>t. keeps E (\<lambda>w. t \<le> w_mono w) m)"

lemma tick_forward: "w_mono w \<le> w_mono (next_tick E w)"
  by (simp add: next_tick_def)

lemma tick_after: "t \<le> w_mono w \<Longrightarrow> t \<le> w_mono (next_tick E w)"
  using tick_forward [of w E] by simp

lemma request_forward:
  assumes "\<And>w r w'. f w = (r, w') \<Longrightarrow> w_mono w' = w_mono w"
  shows "keeps E (\<lambda>w. t \<le> w_mono w) (request f)"
  unfolding triple_def request_def Let_def
proof (intro allI impI)
  fix w :: world assume "t \<le> w_mono w"
  moreover obtain r w' where f: "f (next_tick E w) = (r, w')" by fastforce
  ultimately show "case case su_fate E (w_tick w) of NoFault \<Rightarrow> f (next_tick E w)
      | FailBefore e \<Rightarrow> (Inl e, next_tick E w)
      | FailAfter e \<Rightarrow> (case f (next_tick E w) of (Inl e', w2) \<Rightarrow> (Inl e', w2) | (Inr _, w2) \<Rightarrow> (Inl e, w2))
    of (Inr x, w') \<Rightarrow> t \<le> w_mono w' | (Inl e, w') \<Rightarrow> t \<le> w_mono w'"
    using tick_forward [of w E] assms [OF f] by (auto simp: f split: fault.splits sum.splits)
qed

lemma scratch_forward: "keeps E (\<lambda>w. t \<le> w_mono w) (request (on_scratch f))"
  by (rule request_forward) (auto simp: on_scratch_def split: prod.splits)

lemma requests_forward [triple_rules]:
  "keeps E (\<lambda>w. t \<le> w_mono w) (blob_exists p)" "keeps E (\<lambda>w. t \<le> w_mono w) (get_bytes p)"
  unfolding blob_exists_def get_bytes_def by (rule scratch_forward)+

lemma update_forward [triple_rules]: "keeps E (\<lambda>w. t \<le> w_mono w) (update_bytes p f c)"
proof -
  have "keeps E (\<lambda>w. t \<le> w_mono w) (request (on_scratch (cas_rounds 5 (su_rivals E n) f c p)))" for n
    by (rule scratch_forward)
  then show ?thesis by (auto simp: triple_def update_bytes_def)
qed

lemma clocks_forward [triple_rules]:
  "keeps E (\<lambda>w. t \<le> w_mono w) read_clock" "keeps E (\<lambda>w. t \<le> w_mono w) utcnow"
  "keeps E (\<lambda>w. t \<le> w_mono w) monotonic"
  by (simp_all add: triple_def read_clock_def utcnow_def monotonic_def Let_def tick_after)

lemma sleep_forward [triple_rules]: "keeps E (\<lambda>w. t \<le> w_mono w) (sleep d)"
  by (auto simp: triple_def sleep_def Let_def intro: add_increasing2 tick_after)

lemma keeps_timed [triple_rules]:
  "(\<And>c. check = Some c \<Longrightarrow> keeps E I c) \<Longrightarrow> (\<And>t. keeps E I (call t)) \<Longrightarrow> keeps E I (timed check call)"
  unfolding timed_def by (intro triple_rules; assumption | simp)+

lemma until_forward [triple_rules]: "keeps E (\<lambda>w. t \<le> w_mono w) (until deadline budget)"
  unfolding until_def time_left_def by (intro triple_rules; simp)

lemma probe_forward: "keeps E (\<lambda>w. t \<le> w_mono w) (probe_clips job deadline budget is present)"
proof (induction "is" arbitrary: present)
  case (Cons i "is")
  have "keeps E (\<lambda>w. t \<le> w_mono w) (exists_within p q)" for p q
    unfolding exists_within_def by (intro triple_rules; simp)
  then show ?case
    unfolding probe_clips.simps by (intro triple_rules Cons.IH) (auto split: if_splits intro!: until_forward)
qed (simp add: triple_return)

lemma heartbeat_forward: "forward E (fanout_heartbeat job run)"
  unfolding fanout_heartbeat_def renew_lease_def instant_of_def persisted_lease_def
  by (intro allI triple_rules; simp)

section \<open>The barrier ends\<close>

text \<open>The shortest pause that may separate two passes: the poll interval, or the resolution of the UTC clock.\<close>

definition pause :: "rat \<Rightarrow> rat" where
  "pause poll = min poll (1 / 1000000)"

definition fanin_fuel :: "rat \<Rightarrow> rat \<Rightarrow> nat" where
  "fanin_fuel timeout poll = Suc (nat \<lceil>max 0 timeout / pause poll\<rceil>)"

text \<open>The time of the stage that the monotonic clock leaves, and when a further check must stop the wait.\<close>

definition local_left :: "stage_budget \<Rightarrow> rat \<Rightarrow> rat" where
  "local_left b t = of_int (stage_deadline FANIN) - max 0 (vb_elapsed_at_start b + (t - vb_started_mono b))"

definition over :: "rat \<Rightarrow> stage_budget option \<Rightarrow> rat \<Rightarrow> bool" where
  "over deadline budget t \<longleftrightarrow> deadline \<le> t \<or> (\<exists>b. budget = Some b \<and> local_left b t \<le> 0)"

lemma local_left_later: "t \<le> u \<Longrightarrow> local_left b u \<le> local_left b t"
  by (simp add: local_left_def)

lemma over_later: "over deadline budget t \<Longrightarrow> t \<le> u \<Longrightarrow> over deadline budget u"
  unfolding over_def using local_left_later order_trans by blast

text \<open>What a check tells: it was made at \<open>t\<close>, not later than the clock afterwards.\<close>

lemma until_run:
  assumes "until deadline budget E w = (Inr x, w')"
  shows "w_mono w \<le> w_mono w' \<and> (\<exists>t. w_mono w \<le> t \<and> t \<le> w_mono w' \<and> x \<le> deadline - t)
    \<and> (\<forall>b. budget = Some b \<longrightarrow> x \<le> max 0 (local_left b (w_mono w')))
    \<and> (0 < x \<longrightarrow> x \<ge> 1 / 1000000 \<or> over deadline budget (w_mono w' + x))"
proof (cases budget)
  case None
  then show ?thesis
    using assms tick_forward [of w E]
    by (auto simp: until_def io_bind_def monotonic_def io_return_def Let_def over_def)
next
  case (Some b)
  let ?w1 = "next_tick E w" and ?w2 = "next_tick E (next_tick E w)"
  let ?u = "total_seconds (su_utc E (w_tick ?w1) - bp_started (vb_projection b))"
  have x: "x = min (deadline - w_mono ?w1) (max 0 (min (local_left b (w_mono ?w2)) (1200 - max 0 ?u)))" and w': "w' = ?w2"
    using assms
    by (auto simp: Some until_def time_left_def io_bind_def monotonic_def read_clock_def io_lift_def io_return_def Let_def
        remaining_seconds_def durable_elapsed_def local_elapsed_def local_left_def and_then_Inr_conv split: sum.splits if_splits)
  have ticks: "w_mono w \<le> w_mono ?w1" "w_mono ?w1 \<le> w_mono ?w2" by (rule tick_forward)+
  have fine: "1 / 1000000 \<le> 1200 - max 0 ?u" if "0 < 1200 - max 0 ?u"
  proof -
    define k where "k = su_utc E (w_tick ?w1) - bp_started (vb_projection b)"
    have u: "?u = of_int k / 1000000" by (simp add: total_seconds_def k_def)
    have "of_int k < (of_int 1200000000 :: rat)" using that by (simp add: u max_def split: if_splits)
    then have "k + 1 \<le> 1200000000" by (simp only: of_int_less_iff)
    then have "of_int (k + 1) \<le> (of_int 1200000000 :: rat)" by (simp only: of_int_le_iff)
    then show ?thesis by (simp add: u max_def)
  qed
  have local: "1 / 1000000 \<le> x \<or> local_left b (w_mono ?w2 + x) \<le> 0" if "x = local_left b (w_mono ?w2)" "0 < x"
    using that by (auto simp: local_left_def max_def split: if_splits)
  have "1 / 1000000 \<le> x \<or> over deadline budget (w_mono ?w2 + x)" if pos: "0 < x"
  proof -
    consider "x = deadline - w_mono ?w1" | "x = local_left b (w_mono ?w2)" | "x = 1200 - max 0 ?u" "0 < 1200 - max 0 ?u"
      using x pos by (auto simp: min_def max_def split: if_splits)
    then show ?thesis
    proof cases
      case 1
      then have "deadline \<le> w_mono ?w2 + x" using ticks(2) by simp
      then show ?thesis by (simp only: over_def simp_thms)
    next
      case 2
      then show ?thesis using local [OF 2 pos] Some unfolding over_def by blast
    next
      case 3
      have "1 / 1000000 \<le> x" unfolding 3(1) by (rule fine [OF 3(2)])
      then show ?thesis by (rule disjI1)
    qed
  qed
  moreover have "x \<le> deadline - w_mono ?w1" "x \<le> max 0 (local_left b (w_mono ?w2))"
    unfolding x by (simp_all only: min.cobounded1 min.coboundedI2 max.mono order_refl)
  ultimately show ?thesis
    unfolding w' Some using ticks order_trans [OF ticks] by blast
qed

text \<open>A pass that goes on brings the clock forward by a pause, or to the point where the next check stops the wait.\<close>

lemma wait_step:
  assumes "until deadline budget E w = (Inr x, w1)" "0 < x" "sleep (min poll x) E w1 = (Inr u, w2)"
  shows "w_mono w + pause poll \<le> w_mono w2 \<or> over deadline budget (w_mono w2)"
proof -
  note told = until_run [OF assms(1)]
  have slept: "w_mono w1 + min poll x \<le> w_mono w2"
    using assms(3) tick_forward [of w1 E] by (auto simp: sleep_def Let_def split: if_splits)
  show ?thesis
  proof (cases "pause poll \<le> min poll x")
    case True
    then show ?thesis using told slept by linarith
  next
    case False
    then have "x < 1 / 1000000" "min poll x = x" by (auto simp: pause_def min_def split: if_splits)
    then have "over deadline budget (w_mono w1 + x)" using told assms(2) by auto
    then show ?thesis using over_later slept \<open>min poll x = x\<close> by metis
  qed
qed

lemma over_stops:
  assumes "until deadline budget E w = (Inr x, w1)" "over deadline budget (w_mono w)"
  shows "x \<le> 0"
proof -
  note told = until_run [OF assms(1)]
  from assms(2) consider "deadline \<le> w_mono w" | b where "budget = Some b" "local_left b (w_mono w) \<le> 0"
    by (auto simp: over_def)
  then show ?thesis
  proof cases
    case 1
    then show ?thesis using told by auto
  next
    case 2
    then have "local_left b (w_mono w1) \<le> 0" using told local_left_later [of "w_mono w" "w_mono w1" b] by auto
    then show ?thesis using told 2(1) by auto
  qed
qed

lemma loop_ends:
  assumes "forward E on_poll" "0 < poll"
  shows "over deadline budget (w_mono w) \<or> deadline - w_mono w \<le> of_nat n * pause poll
    \<Longrightarrow> fanin_loop (Suc n) job expected deadline poll budget on_poll E w \<noteq> (Inr None, w')"
proof (induction n arbitrary: w)
  have step: "\<exists>w4. fanin_loop n job expected deadline poll budget on_poll E w4 = (Inr None, w') \<and> \<not> over deadline budget (w_mono w)
      \<and> (w_mono w + pause poll \<le> w_mono w4 \<or> over deadline budget (w_mono w4))"
    if looped: "fanin_loop (Suc n) job expected deadline poll budget on_poll E w = (Inr None, w')" for n w
  proof -
    obtain cut present w1 where probe: "probe_clips job deadline budget expected [] E w = (Inr (cut, present), w1)"
      using looped unfolding fanin_loop.simps io_bind_Inr by (auto split: prod.splits)
    obtain w2 where poll: "on_poll E w1 = (Inr (), w2)"
      using looped probe by (auto simp: io_bind_Inr io_return_def split: if_splits)
    have "\<exists>x w3 u w4. until deadline budget E w2 = (Inr x, w3) \<and> 0 < x \<and> sleep (min poll x) E w3 = (Inr u, w4)
        \<and> fanin_loop n job expected deadline poll budget on_poll E w4 = (Inr None, w')"
      using looped probe poll by (simp add: io_bind_Inr io_return_def split: if_splits) (auto simp: not_le)
    then obtain x w3 u w4 where rest: "until deadline budget E w2 = (Inr x, w3)" "0 < x" "sleep (min poll x) E w3 = (Inr u, w4)"
        "fanin_loop n job expected deadline poll budget on_poll E w4 = (Inr None, w')"
      by blast
    have "w_mono w \<le> w_mono w1" by (rule keepsD [OF probe_forward _ probe]) simp
    moreover have "w_mono w1 \<le> w_mono w2" by (rule keepsD [OF assms(1) [rule_format] _ poll]) simp
    ultimately have "w_mono w \<le> w_mono w2" by simp
    then show ?thesis
      using rest(4) wait_step [OF rest(1-3)] over_stops [OF rest(1)] rest(2) over_later by force
  qed
  {
    case 0
    then show ?case using step [of 0 w] by (auto simp: over_def)
  next
    case (Suc n)
    show ?case
    proof
      assume "fanin_loop (Suc (Suc n)) job expected deadline poll budget on_poll E w = (Inr None, w')"
      from step [OF this] obtain w4 where next_pass: "fanin_loop (Suc n) job expected deadline poll budget on_poll E w4 = (Inr None, w')"
          "\<not> over deadline budget (w_mono w)" "w_mono w + pause poll \<le> w_mono w4 \<or> over deadline budget (w_mono w4)"
        by blast
      have "over deadline budget (w_mono w4) \<or> deadline - w_mono w4 \<le> of_nat n * pause poll"
        using next_pass(2,3) Suc.prems by (auto simp: algebra_simps)
      then show False using Suc.IH next_pass(1) by blast
    qed
  }
qed

lemma pause_pos: "0 < poll \<Longrightarrow> 0 < pause poll"
  by (simp add: pause_def)

lemma enough_fuel:
  assumes "0 < poll" "fanin_fuel timeout poll \<le> fuel" "effective \<le> timeout"
  shows "\<exists>n. fuel = Suc n \<and> max 0 effective \<le> of_nat n * pause poll"
proof -
  obtain n where n: "fuel = Suc n" "nat \<lceil>max 0 timeout / pause poll\<rceil> \<le> n"
    using assms(2) by (cases fuel) (auto simp: fanin_fuel_def)
  have "max 0 timeout / pause poll \<le> of_nat n"
    using n(2) by (simp add: nat_le_iff ceiling_le_iff)
  then have "max 0 timeout \<le> of_nat n * pause poll"
    using pause_pos [OF assms(1)] by (simp add: pos_divide_le_eq)
  then show ?thesis using n(1) assms(3) by (auto simp: max_def split: if_splits)
qed

lemma wait_ends:
  assumes "0 < poll" "forward E on_poll" "fanin_fuel timeout poll \<le> fuel"
  shows "wait_for_fanin fuel c expected timeout poll on_poll budget E w \<noteq> (Inr None, w')"
proof
  assume run: "wait_for_fanin fuel c expected timeout poll on_poll budget E w = (Inr None, w')"
  obtain effective now w1 w2 where
    start: "(case budget of None \<Rightarrow> io_return timeout
       | Some b \<Rightarrow> io_bind (time_left b FANIN) (\<lambda>left. io_return (min timeout left))) E w = (Inr effective, w1)"
    and clock: "monotonic E w1 = (Inr now, w2)"
    and loop: "fanin_loop fuel (cs_job c) expected (now + max 0 effective) poll budget on_poll E w2 = (Inr None, w')"
    using run unfolding wait_for_fanin_def io_bind_Inr by blast
  have "effective \<le> timeout" using start
    by (cases budget) (auto simp: io_return_def io_bind_Inr)
  then obtain n where n: "fuel = Suc n" "max 0 effective \<le> of_nat n * pause poll"
    using enough_fuel [OF assms(1,3)] by blast
  have "now = w_mono w2" using clock by (auto simp: monotonic_def Let_def)
  then show False using loop_ends [OF assms(2,1), of "now + max 0 effective" budget w2 n] n loop by auto
qed

text \<open>Claim C13: the fan-out returns.  With a positive poll interval, a number of passes computed from the
  timeout and the interval is enough: the barrier, and with it the whole fan-out with its heartbeat, ends
  with a result or an exception -- whatever the two clocks show, whatever the storage and the other workers
  do.\<close>

theorem fanout_terminates:
  assumes "0 < poll" "fanin_fuel timeout poll \<le> fuel" "heartbeat = None \<or> heartbeat = Some (fanout_heartbeat hjob run)"
  shows "\<exists>r w'. record_via_fanout fuel ct job segments timeout poll heartbeat budget resume authority E w = (r, w')
    \<and> r \<noteq> Inr None"
proof -
  have "forward E (check_authority heartbeat)"
    using assms(3) heartbeat_forward by (auto simp: check_authority_def intro: triple_return)
  note ends = wait_ends [OF assms(1) this assms(2)]
  have "record_via_fanout fuel ct job segments timeout poll heartbeat budget resume authority E w \<noteq> (Inr None, w')" for w'
    unfolding record_via_fanout_def fresh_recording_def
    by (cases budget) (auto simp: io_raise_def io_bind_Inr io_return_def ends split: option.splits prod.splits if_splits)
  then show ?thesis by (metis surj_pair)
qed

section \<open>The barrier is sound\<close>

lemma lease_path_other: "\<not> clip_file p \<Longrightarrow> editor_lease_blob_path job = Inr q \<Longrightarrow> q \<noteq> p"
  by (auto simp: clip_file_def editor_lease_blob_path_def and_then_Inr_conv ends_with_def)

context manifest_guard
begin

lemma budget_reads_keep [triple_rules]:
  "keeps E Iw (time_left b stage)" "keeps E Iw (time_for_operation b stage)" "keeps E Iw (admitted b stage)"
  "keeps E Iw (until deadline budget)" "keeps E Iw (exists_within q t)"
  unfolding time_left_def time_for_operation_def admitted_def until_def exists_within_def
  by (intro triple_rules; simp)+

lemma heartbeat_keeps [triple_rules]: "keeps E Iw (fanout_heartbeat job run)"
  unfolding fanout_heartbeat_def renew_lease_def instant_of_def persisted_lease_def io_bind_lift
  by (intro triple_rules update_elsewhere lease_path_other [OF path]; assumption)

lemma probe_keeps [triple_rules]: "keeps E Iw (probe_clips job deadline budget is present)"
  by (induction "is" arbitrary: present)
    (auto simp: io_bind_lift split: option.splits if_splits sum.splits intro!: triple_rules)

lemma loop_keeps [triple_rules]:
  "keeps E Iw on_poll \<Longrightarrow> keeps E Iw (fanin_loop n job expected deadline poll budget on_poll)"
  by (induction n) (auto intro!: triple_rules split: if_splits)

lemma wait_keeps [triple_rules]:
  "keeps E Iw on_poll \<Longrightarrow> keeps E Iw (wait_for_fanin fuel c expected timeout poll on_poll budget)"
  unfolding wait_for_fanin_def by (intro triple_rules; simp)

end

lemma timed_tells:
  assumes "\<And>t. triple E (\<lambda>_. True) (call t) (\<lambda>x w. x \<longrightarrow> S w) (\<lambda>_ _. True)"
  shows "triple E (\<lambda>_. True) (timed check call) (\<lambda>x w. x = Some True \<longrightarrow> S w) (\<lambda>_ _. True)"
proof -
  have some: "triple E (\<lambda>_. True) (io_bind (call t) (\<lambda>x. io_return (Some x))) (\<lambda>x w. x = Some True \<longrightarrow> S w) (\<lambda>_ _. True)" for t
    by (rule triple_bind [OF assms triple_return]) simp
  have caught: "triple E (\<lambda>_. True) (io_except [TimeoutErr] (\<lambda>_. io_return None) (io_bind (call t) (\<lambda>x. io_return (Some x))))
      (\<lambda>x w. x = Some True \<longrightarrow> S w) (\<lambda>_ _. True)" for t
    by (rule triple_except [OF some triple_return]) simp_all
  show ?thesis
    unfolding timed_def
    by (rule triple_option, rule some, intro ensures_bind triple_if caught triple_return) simp
qed

context manifest_presence
begin

lemma exists_within_tells:
  "triple E (\<lambda>_. True) (exists_within q t) (\<lambda>x w. x \<and> q = p \<longrightarrow> settled w) (\<lambda>_ _. True)"
proof (cases "q = p")
  case True
  then show ?thesis
    using exists_tells by (cases t) (simp_all add: exists_within_def run_bounded_def ensures_raise)
qed (simp add: triple_def split: sum.splits prod.splits)

lemma probe_tells:
  assumes "clip_manifest_blob_path job i = Inr p"
  shows "triple E (\<lambda>w. i \<in> set present \<longrightarrow> settled w) (probe_clips job deadline budget is present)
    (\<lambda>(cut, pr) w. i \<in> set pr \<longrightarrow> settled w) (\<lambda>_ _. True)"
proof (induction "is" arbitrary: present)
  case Nil
  then show ?case by (auto intro: triple_return)
next
  case (Cons j js)
  let ?check = "if budget = None then None else Some (until deadline budget)"
  have keep: "keeps E settled (timed ?check (exists_within q))" for q
  proof (rule keeps_timed)
    fix c assume "?check = Some c"
    then have "c = until deadline budget" by (simp split: if_splits)
    then show "keeps E settled c" by (simp only: there.budget_reads_keep)
  qed (rule there.budget_reads_keep)
  have step: "triple E (\<lambda>w. i \<in> set present \<longrightarrow> settled w) (timed ?check (exists_within q))
      (\<lambda>x w. (i \<in> set present \<longrightarrow> settled w) \<and> (x = Some True \<and> q = p \<longrightarrow> settled w)) (\<lambda>_ _. True)" for q
  proof (cases "i \<in> set present")
    case True
    have "triple E settled (timed ?check (exists_within q))
        (\<lambda>x w. (i \<in> set present \<longrightarrow> settled w) \<and> (x = Some True \<and> q = p \<longrightarrow> settled w)) (\<lambda>_ _. True)"
      using keep by (rule triple_weaken) blast+
    then show ?thesis using True by simp
  next
    case False
    have "triple E (\<lambda>_. True) (timed ?check (exists_within q)) (\<lambda>x w. x = Some True \<longrightarrow> (q = p \<longrightarrow> settled w)) (\<lambda>_ _. True)"
      by (rule timed_tells) (rule triple_weaken [OF exists_within_tells]; blast)
    then show ?thesis by (rule triple_weaken) (use False in blast)+
  qed
  show ?case
    unfolding probe_clips.simps io_bind_lift
  proof (rule triple_sum, rule triple_raise, rule TrueI, rule triple_bind [OF step], rule triple_option)
    fix q there_now b
    assume "clip_manifest_blob_path job j = Inr q"
    then show "triple E (\<lambda>w. (i \<in> set present \<longrightarrow> settled w) \<and> (there_now = Some True \<and> q = p \<longrightarrow> settled w))
        (probe_clips job deadline budget js (if b then present @ [j] else present))
        (\<lambda>(cut, pr) w. i \<in> set pr \<longrightarrow> settled w) (\<lambda>_ _. True)" if "there_now = Some b"
      by (intro triple_weaken [OF Cons.IH]) (use assms that in \<open>auto split: if_splits\<close>)
  qed (simp add: triple_return)
qed

lemma loop_tells:
  assumes "clip_manifest_blob_path job i = Inr p" "i \<in> set expected" "keeps E settled on_poll"
  shows "triple E (\<lambda>_. True) (fanin_loop n job expected deadline poll budget on_poll)
    (\<lambda>x w. (\<exists>pr. x = Some (True, pr)) \<longrightarrow> settled w) (\<lambda>_ _. True)"
proof (induction n)
  case 0
  then show ?case by (simp add: triple_return)
next
  case (Suc n)
  have probe: "triple E (\<lambda>_. True) (probe_clips job deadline budget expected [])
      (\<lambda>(cut, pr) w. i \<in> set pr \<longrightarrow> settled w) (\<lambda>_ _. True)"
    using probe_tells [OF assms(1), of "[]"] by simp
  have polled: "triple E (\<lambda>w. i \<in> set pr \<longrightarrow> settled w) on_poll (\<lambda>_ w. i \<in> set pr \<longrightarrow> settled w) (\<lambda>_ _. True)" for pr
  proof (cases "i \<in> set pr")
    case True
    have "triple E settled on_poll (\<lambda>_. settled) (\<lambda>_ _. True)" using assms(3) by (rule triple_weaken) blast+
    then show ?thesis using True by simp
  qed (simp add: triple_def split: sum.splits prod.splits)
  have rest: "triple E (\<lambda>_. True) (io_bind (until deadline budget) (\<lambda>remaining.
         if remaining \<le> 0 then io_return (Some (False, pr))
         else io_bind (sleep (min poll remaining)) (\<lambda>_. fanin_loop n job expected deadline poll budget on_poll)))
      (\<lambda>x w. (\<exists>pr. x = Some (True, pr)) \<longrightarrow> settled w) (\<lambda>_ _. True)" for pr
    by (intro ensures_bind triple_if Suc.IH) (simp add: triple_return)
  have body: "triple E (\<lambda>w. i \<in> set pr \<longrightarrow> settled w)
      (if cut then io_return (Some (False, pr))
       else io_bind on_poll (\<lambda>_. if set expected \<subseteq> set pr then io_return (Some (True, pr))
         else io_bind (until deadline budget) (\<lambda>remaining.
           if remaining \<le> 0 then io_return (Some (False, pr))
           else io_bind (sleep (min poll remaining)) (\<lambda>_. fanin_loop n job expected deadline poll budget on_poll))))
      (\<lambda>x w. (\<exists>pr. x = Some (True, pr)) \<longrightarrow> settled w) (\<lambda>_ _. True)" for cut pr
    by (rule triple_if, simp add: triple_return, rule triple_bind [OF polled], rule triple_if, rule triple_return,
        use assms(2) in blast, rule triple_weaken [OF rest]; blast)
  show ?case
    unfolding fanin_loop.simps
    by (rule triple_bind [OF probe], case_tac x, simp only: prod.case, rule body)
qed

lemma wait_tells:
  assumes "clip_manifest_blob_path (cs_job c) i = Inr p" "i \<in> set expected" "keeps E settled on_poll"
  shows "triple E (\<lambda>_. True) (wait_for_fanin fuel c expected timeout poll on_poll budget)
    (\<lambda>x w. (\<exists>pr. x = Some (True, pr)) \<longrightarrow> settled w) (\<lambda>_ _. True)"
  unfolding wait_for_fanin_def by (intro ensures_bind loop_tells [OF assms])

lemma beat_keeps:
  "heartbeat = None \<or> heartbeat = Some (fanout_heartbeat hjob run) \<Longrightarrow> keeps E settled (check_authority heartbeat)"
  using there.heartbeat_keeps by (cases heartbeat) (simp_all add: check_authority_def triple_return)

lemmas barrier_tells = tripleD [OF wait_tells [OF _ _ beat_keeps] TrueI]

end

lemma planned_path:
  assumes "clipset_ok c" "i \<in> set (indices c)"
  obtains p where "clip_manifest_blob_path (cs_job c) i = Inr p"
proof -
  have "clean_job_id (cs_job c) = Inr (cs_job c)" "0 \<le> i"
    using assms by (auto simp: clipset_ok_def clean_job_id_def indices_def entry_ok_def list_all_iff)
  then show ?thesis
    using that by (simp add: clip_manifest_blob_path_def indexed_path_def clips_prefix_def job_prefix_def check_index_def)
qed

text \<open>Claim C15: a complete fan-in is settled.  When the barrier reports that every planned clip is there, the
  terminal manifest of every planned clip is in the container at that moment -- also of the clips that were
  probed first, whose manifests other workers may have touched since, as long as nobody removes a manifest.\<close>

theorem complete_fanin_is_settled:
  assumes "clipset_ok c" "set expected = set (indices c)"
    and "\<forall>i p. clip_manifest_blob_path (cs_job c) i = Inr p \<longrightarrow> manifest_stays E p"
    and "heartbeat = None \<or> heartbeat = Some (fanout_heartbeat hjob run)"
    and "wait_for_fanin fuel c expected timeout poll (check_authority heartbeat) budget E w = (Inr (Some (True, present)), w')"
  shows "\<forall>i \<in> set (indices c). \<exists>p. clip_manifest_blob_path (cs_job c) i = Inr p \<and> sc_blobs (w_scratch w') p \<noteq> None"
proof
  fix i assume i: "i \<in> set (indices c)"
  obtain p where p: "clip_manifest_blob_path (cs_job c) i = Inr p" using planned_path [OF assms(1) i] .
  have guard: "manifest_presence E p"
    by unfold_locales (use assms(3) p manifest_path_plain [OF p] in \<open>auto simp: manifest_stays_def\<close>)
  from manifest_presence.barrier_tells [OF guard p _ assms(4,5)] i assms(2) p
  show "\<exists>p. clip_manifest_blob_path (cs_job c) i = Inr p \<and> sc_blobs (w_scratch w') p \<noteq> None" by auto
qed

end
