(* ===== verification/EditorPlan.thy ===== *)
theory EditorPlan
  imports EditorFanin
begin

text \<open>
  What the editors of one job agree on: the first plan that is written is the plan of every later
  editor, and what is assembled are the clips of that plan, in its order, each from its terminal
  manifest.
\<close>

section \<open>The plan is written once\<close>

text \<open>The plan that a content holds, if it is a plan of the current version.\<close>

definition plan_of :: "tools \<Rightarrow> string \<Rightarrow> blob option \<Rightarrow> clipset option" where
  "plan_of T job b = (case b of
       Some (Doc j) \<Rightarrow>
         (case clipset_from_dict (to_repr T) (to_ftext T) j job of
            Inr c \<Rightarrow> if cs_version c = CLIPSET_SCHEMA_VERSION then Some c else None
          | Inl _ \<Rightarrow> None)
     | _ \<Rightarrow> None)"

definition plan_open :: "tools \<Rightarrow> string \<Rightarrow> blob option \<Rightarrow> bool" where
  "plan_open T job b \<longleftrightarrow> nonempty b = None \<or> plan_of T job b \<noteq> None"

text \<open>What the editors respect of each other: a plan stays, and where there is none only a plan is written.\<close>

locale plan_guard =
  fixes E :: surroundings and T :: tools and job :: string and q :: string
  assumes others_plan: "plan_of T job (sc_blobs s q) = Some c \<Longrightarrow> plan_of T job (sc_blobs (su_others E n s) q) = Some c"
    and rivals_plan: "plan_of T job (sc_blobs s q) = Some c \<Longrightarrow> g \<in> set (su_rivals E n) \<Longrightarrow> plan_of T job (sc_blobs (g s) q) = Some c"
    and others_open: "nonempty (sc_blobs s q) = None \<Longrightarrow> plan_open T job (sc_blobs (su_others E n s) q)"
    and rivals_open: "nonempty (sc_blobs s q) = None \<Longrightarrow> g \<in> set (su_rivals E n) \<Longrightarrow> plan_open T job (sc_blobs (g s) q)"

sublocale plan_guard \<subseteq> plan: document_guard E q "\<lambda>b. plan_of T job b = Some c" for c
  by unfold_locales (auto intro: others_plan rivals_plan)

sublocale plan_guard \<subseteq> opened: document_guard E q "plan_open T job"
proof unfold_locales
  show "plan_open T job (sc_blobs (su_others E n s) q)" if "plan_open T job (sc_blobs s q)" for s n
    using that others_open others_plan by (auto simp: plan_open_def)
  show "plan_open T job (sc_blobs (g s) q)" if "plan_open T job (sc_blobs s q)" "g \<in> set (su_rivals E n)" for s g n
    using that rivals_open rivals_plan by (auto simp: plan_open_def)
qed

lemma triple_ex: "(\<And>c. triple E (P c) m Q X) \<Longrightarrow> triple E (\<lambda>w. \<exists>c. P c w) m Q X"
  unfolding triple_def by (intro allI impI; elim exE; simp)

lemma plan_of_bytes:
  assumes "plan_of T job b = Some c"
  shows "nonempty b = b" "clipset_from_bytes T b job = Inr c" "cs_version c = CLIPSET_SCHEMA_VERSION"
  using assms
  by (auto simp: plan_of_def nonempty_def clipset_from_bytes_def load_doc_def split: option.splits blob.splits sum.splits if_splits)

lemma plan_there: "plan_of T job b = Some c \<Longrightarrow> \<exists>x. b = Some x \<and> nonempty b = Some x"
  using plan_of_bytes(1) [of T job b c] by (cases b) (auto simp: plan_of_def)

lemma planned_callback:
  "plan_callback written u b = (u', Inr b') \<Longrightarrow> plan_of T job b = Some c \<Longrightarrow> plan_of T job (Some b') = Some c"
  by (frule plan_there) (auto simp: plan_callback_def)

text \<open>What the planner writes can be read, with its texts stripped.\<close>

lemma entry_reads: "0 \<le> ce_index e \<Longrightarrow> \<exists>e'. entry_from_dict repr ftext (entry_to_dict e) = Inr e'"
  by (simp add: entry_to_dict_def entry_from_dict_def dindex_def check_index_def)

lemma entries_read:
  "\<forall>e \<in> set clips. 0 \<le> ce_index e \<Longrightarrow>
   \<exists>es. map_res (entry_from_dict repr ftext) (map entry_to_dict clips) = Inr es \<and> length es = length clips"
proof (induction clips)
  case (Cons e clips)
  then show ?case using entry_reads [of e repr ftext] by auto
qed simp

lemma planned_indices:
  "map_res (\<lambda>(i, s). entry_from_segment (int i) s) xs = Inr clips \<Longrightarrow> \<forall>e \<in> set clips. 0 \<le> ce_index e"
proof (induction xs arbitrary: clips)
  case (Cons x xs)
  then show ?case
    by (cases x) (auto simp: and_then_Inr_conv entry_from_segment_def check_index_def split: if_splits)
qed simp

lemma written_plan:
  assumes "clipset_from_segments job segments (Some b) = Inr planned" "projection_ok b" "clipset_to_dict planned = Inr d"
  shows "plan_of T job (Some (Doc (JObj d))) \<noteq> None"
proof -
  obtain clips j where c: "clean_job_id job = Inr j"
      "map_res (\<lambda>(i, s). entry_from_segment (int i) s) (enumerate 0 segments) = Inr clips"
      "planned = \<lparr>cs_job = j, cs_clips = clips, cs_budget = Some b, cs_version = CLIPSET_SCHEMA_VERSION\<rparr>"
    using assms(1) by (auto simp: clipset_from_segments_def and_then_Inr_conv)
  obtain es where es: "map_res (entry_from_dict (to_repr T) (to_ftext T)) (map entry_to_dict clips) = Inr es" "length es = length clips"
    using entries_read planned_indices [OF c(2)] by blast
  have j: "clean_job_id j = Inr j" using c(1) by (auto simp: clean_job_id_def split: if_splits)
  have d: "d = [(''schema_version'', JStr CLIPSET_SCHEMA_VERSION), (''job_id'', JStr j), (''count'', JInt (int (length clips))),
      (''clips'', JList (map entry_to_dict clips)), (''video_budget'', JObj (projection_to_dict b))]"
    using assms(3) by (simp add: c(3) clipset_to_dict_def cs_count_def)
  have "clipset_budget CLIPSET_SCHEMA_VERSION d = Inr (Some b)"
    using assms(2) by (simp add: clipset_budget_def d dget_def dhas_def projection_round_trip)
  moreover have "clipset_from_validated (to_repr T) (to_ftext T) d job (Some b) CLIPSET_SCHEMA_VERSION
      = Inr \<lparr>cs_job = j, cs_clips = es, cs_budget = Some b, cs_version = CLIPSET_SCHEMA_VERSION\<rparr>"
    using es j c(1) by (simp add: clipset_from_validated_def d dindex_def iter_field_def dget_or_def dget_def)
  ultimately have "clipset_from_dict (to_repr T) (to_ftext T) (JObj d) job
      = Inr \<lparr>cs_job = j, cs_clips = es, cs_budget = Some b, cs_version = CLIPSET_SCHEMA_VERSION\<rparr>"
    by (simp add: clipset_from_dict_def d dget_def)
  then show ?thesis by (simp add: plan_of_def)
qed

context plan_guard
begin

lemma get_plan: "triple E (\<lambda>w. plan_of T job (sc_blobs (w_scratch w) q) = Some c) (get_bytes q)
    (\<lambda>b w. plan_of T job b = Some c \<and> plan_of T job (sc_blobs (w_scratch w) q) = Some c) (\<lambda>_ w. plan_of T job (sc_blobs (w_scratch w) q) = Some c)"
  by (auto simp: triple_def get_bytes_def request_def on_scratch_def next_tick_def Let_def split: fault.splits sum.splits
      dest: others_plan)

text \<open>With a plan at hand, the planner reads it and does not change it.\<close>

lemma read_known:
  assumes "plan_of T job b = Some c"
  shows "io_bind (read_plan T job path planned written budget (bytes_or other b))
    (migrate_plan T job path budget (bytes_or other b)) = io_return c"
proof -
  obtain x where "b = Some x" using assms by (cases b) (auto simp: plan_of_def)
  then have "bytes_or other b = x" using plan_of_bytes(1) [OF assms] by (simp add: bytes_or_def)
  then show ?thesis
    using plan_of_bytes(2,3) [OF assms] \<open>b = Some x\<close>
    by (intro ext) (simp add: io_bind_def read_plan_def io_return_def migrate_plan_def)
qed

lemma planning_tells:
  assumes "clipset_blob_path job = Inr q" "projection_ok (vb_projection b)"
  shows "triple E (\<lambda>w. plan_open T job (sc_blobs (w_scratch w) q)) (plan_or_load_clipset T job segments (Some b))
    (\<lambda>c w. plan_of T job (sc_blobs (w_scratch w) q) = Some c) (\<lambda>_ w. plan_open T job (sc_blobs (w_scratch w) q))"
proof -
  have begun: "triple E (\<lambda>w. plan_open T job (sc_blobs (w_scratch w) q)) (update_bytes q (plan_callback (Doc (JObj d))) ())
      (\<lambda>_ w. \<exists>c. plan_of T job (sc_blobs (w_scratch w) q) = Some c) (\<lambda>_ w. plan_open T job (sc_blobs (w_scratch w) q))"
    if "plan_of T job (Some (Doc (JObj d))) \<noteq> None" for d
    by (rule triple_weaken [OF opened.update_tells [where Q = "\<lambda>_ b. plan_of T job b \<noteq> None"]])
      (use that in \<open>auto simp: plan_callback_def plan_open_def nonempty_def split: if_splits option.splits\<close>)
  have known: "triple E (\<lambda>w. plan_of T job b = Some c \<and> plan_of T job (sc_blobs (w_scratch w) q) = Some c)
      (io_bind (read_plan T job path planned written budget (bytes_or other b)) (migrate_plan T job path budget (bytes_or other b)))
      (\<lambda>c w. plan_of T job (sc_blobs (w_scratch w) q) = Some c) (\<lambda>_ w. plan_of T job (sc_blobs (w_scratch w) q) = Some c)" for b c path planned written budget other
    by (auto simp: read_known triple_def io_return_def)
  show ?thesis
    unfolding plan_or_load_clipset_def io_bind_lift assms(1) sum.case option.map Let_def
    by (rule triple_sum, rule triple_raise, simp, rule triple_sum, rule triple_raise, simp, rule triple_bind [OF begun],
        rule written_plan, assumption, rule assms(2), assumption, rule triple_ex,
        rule triple_weaken [OF triple_bind [OF get_plan]], rule known)
      (auto simp: plan_open_def)
qed

text \<open>Planning again keeps the plan and returns it.\<close>

lemma replanning_keeps:
  assumes "clipset_blob_path job = Inr q" "projection_ok (vb_projection b)"
  shows "triple E (\<lambda>w. plan_of T job (sc_blobs (w_scratch w) q) = Some c) (plan_or_load_clipset T job segments (Some b))
    (\<lambda>x w. x = c \<and> plan_of T job (sc_blobs (w_scratch w) q) = Some c) (\<lambda>_ w. plan_of T job (sc_blobs (w_scratch w) q) = Some c)"
proof -
  have kept: "triple E (\<lambda>w. plan_of T job (sc_blobs (w_scratch w) q) = Some c) (update_bytes q (plan_callback (Doc (JObj d))) ())
      (\<lambda>_ w. plan_of T job (sc_blobs (w_scratch w) q) = Some c) (\<lambda>_ w. plan_of T job (sc_blobs (w_scratch w) q) = Some c)" for d
    by (rule triple_weaken [OF plan.update_tells [where Q = "\<lambda>_ _. True"]])
      (auto dest: planned_callback)
  show ?thesis
    unfolding plan_or_load_clipset_def io_bind_lift assms(1) sum.case option.map Let_def
    by (rule triple_sum, rule triple_raise, simp, rule triple_sum, rule triple_raise, simp, rule triple_bind [OF kept],
        rule triple_bind [OF get_plan]) (auto simp: read_known triple_def io_return_def)
qed

end

text \<open>An editor among other editors that plan, each with segments and a budget of its own.\<close>

definition planner_act :: "tools \<Rightarrow> int \<Rightarrow> string \<Rightarrow> video_segment list \<Rightarrow> stage_budget \<Rightarrow> scratch \<Rightarrow> scratch" where
  "planner_act T t job segments b s = w_scratch (snd (plan_or_load_clipset T job segments (Some b) (alone t) (world_of s)))"

definition planners :: "tools \<Rightarrow> int \<Rightarrow> string \<Rightarrow> (nat \<Rightarrow> video_segment list) \<Rightarrow> stage_budget \<Rightarrow> (nat \<Rightarrow> fault) \<Rightarrow> surroundings" where
  "planners T t job segments b fate = \<lparr>su_others = (\<lambda>n. planner_act T t job (segments n) b),
     su_rivals = (\<lambda>n. [planner_act T t job (segments n) b]), su_fate = fate, su_delay = (\<lambda>_. 1), su_utc = (\<lambda>_. t)\<rparr>"

interpretation alone_plan: plan_guard "alone t" T job q for t T job q
  by unfold_locales (auto simp: alone_def plan_open_def)

lemma planner_keeps:
  assumes "clipset_blob_path job = Inr q" "projection_ok (vb_projection b)"
  shows "plan_of T job (sc_blobs s q) = Some c \<Longrightarrow> plan_of T job (sc_blobs (planner_act T t job segments b s) q) = Some c"
    and "plan_open T job (sc_blobs s q) \<Longrightarrow> plan_open T job (sc_blobs (planner_act T t job segments b s) q)"
proof -
  obtain r w where run: "plan_or_load_clipset T job segments (Some b) (alone t) (world_of s) = (r, w)" by fastforce
  have act: "planner_act T t job segments b s = w_scratch w" by (simp add: planner_act_def run)
  have start: "w_scratch (world_of s) = s" by (simp add: world_of_def)
  show "plan_of T job (sc_blobs s q) = Some c \<Longrightarrow> plan_of T job (sc_blobs (planner_act T t job segments b s) q) = Some c"
    using tripleD [OF alone_plan.replanning_keeps [OF assms] _ run, of c]
    by (auto simp: act start split: sum.splits)
  show "plan_open T job (sc_blobs s q) \<Longrightarrow> plan_open T job (sc_blobs (planner_act T t job segments b s) q)"
    using tripleD [OF alone_plan.planning_tells [OF assms] _ run]
    by (auto simp: act start plan_open_def split: sum.splits)
qed

lemmas planner_opens = planner_keeps(2) [unfolded plan_open_def, OF _ _ disjI1, folded plan_open_def]

definition sample_run :: stage_budget where
  "sample_run = \<lparr>vb_projection = sample_projection, vb_started_mono = 0, vb_elapsed_at_start = 0\<rparr>"

interpretation contested_plan: plan_guard "planners T t ''j'' segments sample_run fate" T "''j''" "''video-jobs/j/clipset.json''"
  for T t segments fate
proof -
  have path: "clipset_blob_path ''j'' = Inr ''video-jobs/j/clipset.json''"
    by (simp add: clipset_blob_path_def job_prefix_def clean_job_id_def py_strip_def py_isspace_def)
  have ok: "projection_ok (vb_projection sample_run)" by (simp add: sample_run_def sample_projection_ok)
  show "plan_guard (planners T t ''j'' segments sample_run fate) T ''j'' ''video-jobs/j/clipset.json''"
    by unfold_locales (auto simp: planners_def intro: planner_keeps(1) [OF path ok] planner_opens [OF path ok])
qed

text \<open>The same rely condition as a predicate on the surroundings.\<close>

definition plan_respected :: "tools \<Rightarrow> surroundings \<Rightarrow> string \<Rightarrow> string \<Rightarrow> bool" where
  "plan_respected T E job q \<longleftrightarrow> (\<forall>s n. \<forall>g \<in> insert (su_others E n) (set (su_rivals E n)).
     (\<forall>c. plan_of T job (sc_blobs s q) = Some c \<longrightarrow> plan_of T job (sc_blobs (g s) q) = Some c)
     \<and> (nonempty (sc_blobs s q) = None \<longrightarrow> plan_open T job (sc_blobs (g s) q)))"

lemma plan_respected_guard: "plan_respected T E job q \<Longrightarrow> plan_guard E T job q"
  unfolding plan_respected_def by unfold_locales blast+

text \<open>Claim C12: the plan is made once.  The container of a job holds no plan or a readable plan of the
  current version, and the other editors keep a plan and write only plans where there is none.  Then, when two
  editors of the job plan, the second one later -- with other segments and another budget, while the further
  editors plan at the same time, and whatever requests fail -- the second returns the plan of the first, and
  that plan is what the container holds.  (An unreadable or older plan is replaced: \<open>editor.py\<close>, line 253.)\<close>

theorem editors_agree_on_the_plan:
  assumes "clipset_blob_path job = Inr q" "plan_respected T E job q" "plan_open T job (sc_blobs (w_scratch w) q)"
    and "projection_ok (vb_projection b1)" "projection_ok (vb_projection b2)"
    and "plan_or_load_clipset T job segments1 (Some b1) E w = (Inr c1, w1)"
    and "plan_or_load_clipset T job segments2 (Some b2) E w1 = (Inr c2, w2)"
  shows "c2 = c1 \<and> plan_of T job (sc_blobs (w_scratch w2) q) = Some c1"
proof -
  note guard = plan_respected_guard [OF assms(2)]
  have first: "plan_of T job (sc_blobs (w_scratch w1) q) = Some c1"
    using tripleD [OF plan_guard.planning_tells [OF guard assms(1,4)] assms(3,6)] by simp
  then have opened: "plan_open T job (sc_blobs (w_scratch w1) q)" by (simp add: plan_open_def)
  have second: "plan_of T job (sc_blobs (w_scratch w2) q) = Some c2"
    using tripleD [OF plan_guard.planning_tells [OF guard assms(1,5)] opened assms(7)] by simp
  have "plan_of T job (sc_blobs (w_scratch w2) q) = Some c1"
    using tripleD [OF plan_guard.replanning_keeps [OF guard assms(1,5)] first assms(7)] by simp
  with second show ?thesis by simp
qed

end
