(* ===== verification/EditorAssembly.thy ===== *)
theory EditorAssembly
  imports EditorPlan
begin

text \<open>
  What the editor assembles: one recorded segment for every clip of the plan, in the order of the
  plan, each taken from the terminal manifest that is in the container, with media that were
  validated against the evidence of that manifest or with the card of a fallback.
\<close>

section \<open>Where a recorded segment comes from\<close>

text \<open>The media of a segment: the validated file at the content path of the evidence, or the card.\<close>

definition from_media :: "cutting \<Rightarrow> string \<Rightarrow> clip_entry \<Rightarrow> dict \<Rightarrow> recorded_segment \<Rightarrow> bool" where
  "from_media ct job e d r \<longleftrightarrow> (\<exists>m path t x.
     manifest_media (ct_tools ct) d = Inr (Some m)
     \<and> clip_content_blob_path job (ce_index e) (me_sha m) = Inr path \<and> dget d ''media_blob_path'' = JStr path
     \<and> dget d ''clip_id'' = JStr (clip_id (ce_index e))
     \<and> 0 < t \<and> ct_validate ct (sg_video r) (Some m) t = Inr x
     \<and> r = recorded_from_manifest (to_repr (ct_tools ct)) (entry_to_segment e) (sg_video r) d (Some m))"

definition from_card :: "cutting \<Rightarrow> clip_entry \<Rightarrow> dict \<Rightarrow> recorded_segment \<Rightarrow> bool" where
  "from_card ct e d r \<longleftrightarrow> manifest_is_fallback d \<and> ct_card ct (entry_to_segment e) = Inr (sg_video r)
     \<and> r = recorded_from_manifest (to_repr (ct_tools ct)) (entry_to_segment e) (sg_video r) d None"

definition cut_from :: "cutting \<Rightarrow> string \<Rightarrow> scratch \<Rightarrow> clip_entry \<Rightarrow> recorded_segment \<Rightarrow> bool" where
  "cut_from ct job s e r \<longleftrightarrow> (\<exists>p d. clip_manifest_blob_path job (ce_index e) = Inr p
     \<and> sc_blobs s p = Some (Doc (JObj d))
     \<and> py_str (to_repr (ct_tools ct)) (dget_or d ''status'' (JStr [])) \<in> {STATUS_SUCCESS, STATUS_FALLBACK}
     \<and> (from_media ct job e d r \<or> from_card ct e d r))"

section \<open>Assembly only reads\<close>

text \<open>A program that leaves alone whatever the other workers leave alone.\<close>

definition reads_only :: "surroundings \<Rightarrow> 'a io \<Rightarrow> bool" where
  "reads_only E m \<longleftrightarrow> (\<forall>I. steady E I \<longrightarrow> keeps E (\<lambda>w. I (w_scratch w) (w_deleted w)) m)"

context steady
begin

lemma budget_reads [triple_rules]:
  "keeps E Iw (time_left b stage)" "keeps E Iw (time_for_operation b stage)" "keeps E Iw (admitted b stage)"
  unfolding time_left_def time_for_operation_def admitted_def by (intro triple_rules; simp)+

lemma authority_keeps [triple_rules]:
  "(\<And>m. authority = Some m \<Longrightarrow> reads_only E m) \<Longrightarrow> keeps E Iw (check_authority authority)"
  using steady_axioms by (cases authority) (auto simp: check_authority_def reads_only_def intro: triple_return)

lemma assembly_call_keeps [triple_rules]:
  "(\<And>m. as_authority a = Some m \<Longrightarrow> reads_only E m) \<Longrightarrow> keeps E Iw call \<Longrightarrow> keeps E Iw (assembly_call a call)"
  unfolding assembly_call_def by (intro triple_rules; assumption | simp)+

lemma refuse_keeps [triple_rules]: "keeps E Iw (refuse_when c reason)"
  unfolding refuse_when_def by (intro triple_rules; assumption)

lemma check_keeps [triple_rules]: "keeps E Iw (check_manifest T a d)"
  unfolding check_manifest_def by (intro triple_rules; assumption)

lemma fetch_keeps [triple_rules]:
  "(\<And>m. as_authority a = Some m \<Longrightarrow> reads_only E m) \<Longrightarrow> keeps E Iw (fetch_clip a b path)"
  unfolding fetch_clip_def by (intro triple_rules; assumption | simp)+

lemma validate_keeps [triple_rules]:
  "(\<And>m. as_authority a = Some m \<Longrightarrow> reads_only E m) \<Longrightarrow> keeps E Iw (validate_clip ct a video media)"
  unfolding validate_clip_def by (intro triple_rules; assumption | simp)+

lemma manifest_read_keeps [triple_rules]:
  "(\<And>m. as_authority a = Some m \<Longrightarrow> reads_only E m) \<Longrightarrow> keeps E Iw (read_clip_manifest job i a)"
  unfolding read_clip_manifest_def io_bind_lift by (intro triple_rules; assumption | simp)+

lemma take_keeps [triple_rules]:
  "(\<And>m. as_authority a = Some m \<Longrightarrow> reads_only E m) \<Longrightarrow> keeps E Iw (take_clip ct a job e d media)"
  unfolding take_clip_def substitute_clip_def io_bind_lift by (intro triple_rules; assumption | simp)+

lemma clip_keeps [triple_rules]:
  "(\<And>m. as_authority a = Some m \<Longrightarrow> reads_only E m) \<Longrightarrow> keeps E Iw (assemble_clip ct a job e)"
  unfolding assemble_clip_def by (intro triple_rules; assumption | simp)+

lemma clips_keep:
  "(\<And>m. as_authority a = Some m \<Longrightarrow> reads_only E m) \<Longrightarrow> keeps E Iw (io_map (assemble_clip ct a job) es)"
  by (rule keeps_map) (rule clip_keeps)

end

section \<open>One clip\<close>

text \<open>The checks of a manifest are pure, and tell what the assembly relies on.\<close>

lemma refuse_Inr: "refuse_when c reason E w = (Inr u, w') \<longleftrightarrow> \<not> c \<and> w' = w"
  by (auto simp: refuse_when_def io_raise_def io_return_def)

lemma pure_except: "io_except cs (\<lambda>_. io_raise x) (io_lift r) E w = (Inr y, w') \<longleftrightarrow> r = Inr y \<and> w' = w"
  by (cases r) (auto simp: io_except_def io_lift_def io_raise_def)

lemma check_manifest_Inr:
  assumes "check_manifest T a d E w = (Inr media, w')"
  shows "w' = w \<and> manifest_media T d = Inr media
    \<and> (as_budget a \<noteq> None \<longrightarrow> dget d ''schema_version'' = JStr CLIP_MANIFEST_SCHEMA_VERSION)
    \<and> (d \<noteq> [] \<longrightarrow> py_str (to_repr T) (dget_or d ''status'' (JStr [])) \<in> {STATUS_SUCCESS, STATUS_FALLBACK})"
  using assms
  by (auto simp: check_manifest_def Let_def io_bind_Inr refuse_Inr pure_except io_return_def split: if_splits)

lemma except_raise: "io_except cs (\<lambda>e. io_raise (f e)) m E w = (Inr y, w') \<longleftrightarrow> m E w = (Inr y, w')"
  by (auto simp: io_except_def io_raise_def split: sum.splits prod.splits if_splits)

lemma external_Inr: "external r E w = (Inr x, w') \<Longrightarrow> r = Inr x"
  by (auto simp: external_def request_def Let_def split: fault.splits sum.splits)

lemma validate_Inr: "validate_clip ct a video media E w = (Inr u, w') \<Longrightarrow> \<exists>t x. 0 < t \<and> ct_validate ct video media t = Inr x"
  unfolding validate_clip_def except_raise io_bind_Inr
  by (fastforce simp: io_raise_def io_bind_Inr not_le dest: external_Inr split: if_splits)

lemma substitute_Inr:
  "substitute_clip ct a e d there E w = (Inr r, w') \<Longrightarrow> ct_fill_gap ct = None \<Longrightarrow> from_card ct e d r"
  by (auto simp: substitute_clip_def Let_def io_bind_Inr io_raise_def io_return_def from_card_def recorded_from_manifest_def
      split: if_splits dest!: external_Inr)

lemma take_Inr:
  assumes "take_clip ct a job e d media E w = (Inr r, w')" "d \<noteq> []" "ct_fill_gap ct = None"
    and "manifest_media (ct_tools ct) d = Inr media"
  shows "from_media ct job e d r \<or> from_card ct e d r"
proof -
  obtain path there fetched w1 where src: "clip_source job (ce_index e) d media = Inr path"
    and after: "(case fetched of None \<Rightarrow> substitute_clip ct a e d there
       | Some video \<Rightarrow> io_bind (validate_clip ct a video media) (\<lambda>_.
           io_return (recorded_from_manifest (to_repr (ct_tools ct)) (entry_to_segment e) video d media))) E w1 = (Inr r, w')"
    using assms(1) unfolding take_clip_def io_bind_Inr by (auto simp: io_lift_def)
  show ?thesis
  proof (cases fetched)
    case None
    then show ?thesis using after substitute_Inr assms(3) by fastforce
  next
    case (Some video)
    obtain m where m: "media = Some m" "dget d ''clip_id'' = JStr (clip_id (ce_index e))"
        "clip_content_blob_path job (ce_index e) (me_sha m) = Inr path" "dget d ''media_blob_path'' = JStr path"
      using src assms(2) by (auto simp: clip_source_def and_then_Inr_conv split: option.splits if_splits)
    have r: "r = recorded_from_manifest (to_repr (ct_tools ct)) (entry_to_segment e) video d media"
      using after Some by (auto simp: io_bind_Inr io_return_def)
    obtain t x where "0 < t" "ct_validate ct video media t = Inr x"
      using after Some validate_Inr by (fastforce simp: io_bind_Inr)
    then show ?thesis
      using m r assms(4) by (auto simp: from_media_def recorded_from_manifest_def)
  qed
qed

text \<open>A manifest that was read stays while the editor goes on.\<close>

definition manifest_kept :: "surroundings \<Rightarrow> string \<Rightarrow> bool" where
  "manifest_kept E p \<longleftrightarrow> (\<forall>d. document_guard E p (\<lambda>b. b = Some (Doc (JObj d))))"

lemma respected_kept: "manifest_respected E p \<Longrightarrow> manifest_kept E p"
  unfolding manifest_respected_def manifest_kept_def by (auto simp: document_guard_def)

lemma keeps_document:
  assumes "manifest_kept E p" "\<And>I. steady E I \<Longrightarrow> keeps E (\<lambda>w. I (w_scratch w) (w_deleted w)) m"
  shows "keeps E (\<lambda>w. d \<noteq> [] \<longrightarrow> sc_blobs (w_scratch w) p = Some (Doc (JObj d))) m"
proof (cases "d = []")
  case False
  have "steady E (\<lambda>s D. sc_blobs s p = Some (Doc (JObj d)))"
    using assms(1) unfolding manifest_kept_def document_guard_def steady_def by blast
  from assms(2) [OF this] False show ?thesis by simp
qed (simp add: triple_def split: sum.splits prod.splits)

lemma manifest_read_tells:
  assumes "manifest_kept E p" "clip_manifest_blob_path job i = Inr p" "\<And>m. as_authority a = Some m \<Longrightarrow> reads_only E m"
  shows "triple E (\<lambda>_. True) (read_clip_manifest job i a)
    (\<lambda>d w. d \<noteq> [] \<longrightarrow> sc_blobs (w_scratch w) p = Some (Doc (JObj d))) (\<lambda>_ _. True)"
proof -
  let ?R = "\<lambda>b w. manifest_of b \<noteq> [] \<longrightarrow> sc_blobs (w_scratch w) p = Some (Doc (JObj (manifest_of b)))"
  have get: "triple E (\<lambda>_. True) (get_bytes p) ?R (\<lambda>_ _. True)"
    by (auto simp: triple_def get_bytes_def request_def on_scratch_def Let_def manifest_of_def
        split: fault.splits sum.splits option.splits blob.splits json.splits)
  have authority: "triple E (?R b) (check_authority (as_authority a)) (\<lambda>_. ?R b) (\<lambda>_ _. True)" for b
  proof -
    have "keeps E (?R b) (check_authority (as_authority a))"
      by (rule keeps_document [OF assms(1)]) (rule steady.authority_keeps, assumption, rule assms(3))
    then show ?thesis by (rule triple_weaken) blast+
  qed
  have guarded: "triple E (\<lambda>_. True) (io_bind (check_authority (as_authority a)) (\<lambda>_. io_bind (get_bytes p) (\<lambda>value.
      io_bind (check_authority (as_authority a)) (\<lambda>_. io_return value)))) ?R (\<lambda>_ _. True)"
    by (rule ensures_bind, rule triple_bind [OF get], rule triple_bind [OF authority], rule triple_return)
  have call: "triple E (\<lambda>_. True) (assembly_call a (get_bytes p)) ?R (\<lambda>_ _. True)"
    unfolding assembly_call_def run_bounded_def
    by (rule triple_option, rule get, rule ensures_bind, rule triple_if, rule ensures_raise, rule triple_if, rule ensures_raise, rule guarded)
  show ?thesis
    unfolding read_clip_manifest_def io_bind_lift assms(2) sum.case
    by (rule triple_bind [OF call triple_return])
qed

lemma clip_Inr:
  assumes "assemble_clip ct a job e E w = (Inr r, w')" "as_budget a \<noteq> None" "ct_fill_gap ct = None"
    and p: "clip_manifest_blob_path job (ce_index e) = Inr p" "manifest_kept E p"
    and authority: "\<And>m. as_authority a = Some m \<Longrightarrow> reads_only E m"
  shows "cut_from ct job (w_scratch w') e r"
proof -
  obtain d w1 media where read: "read_clip_manifest job (ce_index e) a E w = (Inr d, w1)"
    and checked: "check_manifest (ct_tools ct) a d E w1 = (Inr media, w1)"
    and take: "take_clip ct a job e d media E w1 = (Inr r, w')"
    using assms(1) unfolding assemble_clip_def io_bind_Inr except_raise by (auto dest: check_manifest_Inr)
  note facts = check_manifest_Inr [OF checked]
  have d: "d \<noteq> []" using facts assms(2) by (auto simp: dget_def)
  have now: "d \<noteq> [] \<longrightarrow> sc_blobs (w_scratch w1) p = Some (Doc (JObj d))"
    using tripleD [OF manifest_read_tells [OF p(2,1) authority] TrueI read] by simp
  have "keeps E (\<lambda>w. d \<noteq> [] \<longrightarrow> sc_blobs (w_scratch w) p = Some (Doc (JObj d))) (take_clip ct a job e d media)"
    by (rule keeps_document [OF p(2)]) (rule steady.take_keeps, assumption, rule authority)
  from keepsD [OF this now take] d have "sc_blobs (w_scratch w') p = Some (Doc (JObj d))" by simp
  then show ?thesis
    using take_Inr [OF take d assms(3)] facts d p(1) by (auto simp: cut_from_def)
qed

section \<open>The whole recording\<close>

lemma cut_stays:
  assumes "cut_from ct job (w_scratch w) e r" "m E w = (x, w')" "\<And>i p. clip_manifest_blob_path job i = Inr p \<Longrightarrow> manifest_kept E p"
    and "\<And>I. steady E I \<Longrightarrow> keeps E (\<lambda>w. I (w_scratch w) (w_deleted w)) m"
  shows "cut_from ct job (w_scratch w') e r"
proof -
  obtain p d where p: "clip_manifest_blob_path job (ce_index e) = Inr p" "sc_blobs (w_scratch w) p = Some (Doc (JObj d))"
      "py_str (to_repr (ct_tools ct)) (dget_or d ''status'' (JStr [])) \<in> {STATUS_SUCCESS, STATUS_FALLBACK}"
      "from_media ct job e d r \<or> from_card ct e d r"
    using assms(1) unfolding cut_from_def by blast
  have d: "d \<noteq> []" using p(3) by (auto simp: dget_or_def STATUS_SUCCESS_def STATUS_FALLBACK_def)
  have "sc_blobs (w_scratch w') p = Some (Doc (JObj d))"
    using keepsD [OF keeps_document [OF assms(3) [OF p(1)] assms(4)] _ assms(2)] p(2) d by blast
  then show ?thesis using p unfolding cut_from_def by blast
qed

lemma clips_Inr:
  assumes "as_budget a \<noteq> None" "ct_fill_gap ct = None" "\<And>m. as_authority a = Some m \<Longrightarrow> reads_only E m"
    and kept: "\<And>i p. clip_manifest_blob_path job i = Inr p \<Longrightarrow> manifest_kept E p"
  shows "io_map (assemble_clip ct a job) es E w = (Inr rs, w')
    \<Longrightarrow> \<forall>e \<in> set es. \<exists>p. clip_manifest_blob_path job (ce_index e) = Inr p
    \<Longrightarrow> list_all2 (cut_from ct job (w_scratch w')) es rs"
proof (induction es arbitrary: w rs)
  case Nil
  then show ?case by (simp add: io_return_def)
next
  case (Cons e es)
  obtain r rs' w1 where first: "assemble_clip ct a job e E w = (Inr r, w1)"
    and rest: "io_map (assemble_clip ct a job) es E w1 = (Inr rs', w')" and rs: "rs = r # rs'"
    using Cons.prems(1) by (auto simp: io_bind_Inr io_return_def)
  obtain p where p: "clip_manifest_blob_path job (ce_index e) = Inr p" using Cons.prems(2) by auto
  have "cut_from ct job (w_scratch w1) e r"
    by (rule clip_Inr [OF first assms(1,2) p kept [OF p] assms(3)])
  then have "cut_from ct job (w_scratch w') e r"
    by (rule cut_stays [where m = "io_map (assemble_clip ct a job) es" and w = w1 and E = E, OF _ rest])
      (rule kept, assumption, rule steady.clips_keep [OF _ assms(3)], assumption)
  then show ?case using Cons.IH [OF rest] Cons.prems(2) rs by simp
qed

lemma recording_Inr:
  assumes "assemble_recording ct a c E w = (Inr rs, w')" "clipset_ok c" "as_budget a \<noteq> None" "ct_fill_gap ct = None"
    and "\<And>m. as_authority a = Some m \<Longrightarrow> reads_only E m"
    and "\<And>i p. clip_manifest_blob_path (cs_job c) i = Inr p \<Longrightarrow> manifest_kept E p"
  shows "list_all2 (cut_from ct (cs_job c) (w_scratch w')) (cs_clips c) rs"
proof (rule clips_Inr [OF assms(3-6)])
  show "io_map (assemble_clip ct a (cs_job c)) (cs_clips c) E w = (Inr rs, w')"
    using assms(1) by (auto simp: assemble_recording_def io_bind_Inr refuse_Inr)
  show "\<forall>e \<in> set (cs_clips c). \<exists>p. clip_manifest_blob_path (cs_job c) (ce_index e) = Inr p"
    using planned_path [OF assms(2)] by (auto simp: indices_def)
qed

context plan_guard
begin

lemma asking_keeps: "keeps E (\<lambda>w. plan_of T job (sc_blobs (w_scratch w) q) = Some c)
    (if resume then admitted b stage else io_return True)"
  by (intro triple_rules; simp)

lemma asking_opened: "keeps E (\<lambda>w. plan_open T job (sc_blobs (w_scratch w) q))
    (if resume then admitted b stage else io_return True)"
  by (intro triple_rules opened.budget_reads)

end

section \<open>The editor keeps terminal manifests\<close>

lemma triple_both:
  "triple E P m Q X \<Longrightarrow> triple E P' m Q' X'
   \<Longrightarrow> triple E (\<lambda>w. P w \<and> P' w) m (\<lambda>x w. Q x w \<and> Q' x w) (\<lambda>e w. X e w \<and> X' e w)"
  by (rule triple_conj) (auto intro: triple_weaken)

context plan_guard
begin

lemma replanning_frame:
  assumes "clipset_blob_path job = Inr q" "projection_ok (vb_projection b)"
    and "\<And>f. keeps E I (update_bytes q f ())" "keeps E I (get_bytes q)"
  shows "triple E (\<lambda>w. plan_of T job (sc_blobs (w_scratch w) q) = Some c \<and> I w) (plan_or_load_clipset T job segments (Some b))
    (\<lambda>_. I) (\<lambda>_. I)"
proof -
  have kept: "triple E (\<lambda>w. plan_of T job (sc_blobs (w_scratch w) q) = Some c) (update_bytes q (plan_callback (Doc (JObj d))) ())
      (\<lambda>_ w. plan_of T job (sc_blobs (w_scratch w) q) = Some c) (\<lambda>_ _. True)" for d
    by (rule triple_weaken [OF plan.update_tells [where Q = "\<lambda>_ _. True"]]) (auto dest: planned_callback)
  have known: "triple E (\<lambda>w. (plan_of T job x = Some c \<and> plan_of T job (sc_blobs (w_scratch w) q) = Some c) \<and> I w)
      (io_bind (read_plan T job path planned written budget (bytes_or other x)) (migrate_plan T job path budget (bytes_or other x)))
      (\<lambda>_. I) (\<lambda>_. I)" for x path planned written budget other
    by (auto simp: read_known triple_def io_return_def)
  have begun: "triple E (\<lambda>w. plan_of T job (sc_blobs (w_scratch w) q) = Some c \<and> I w) (update_bytes q (plan_callback (Doc (JObj d))) ())
      (\<lambda>_ w. plan_of T job (sc_blobs (w_scratch w) q) = Some c \<and> I w) (\<lambda>_. I)" for d
    by (rule triple_weaken [OF triple_both [OF kept assms(3)]]) auto
  have got: "triple E (\<lambda>w. plan_of T job (sc_blobs (w_scratch w) q) = Some c \<and> I w) (get_bytes q)
      (\<lambda>x w. (plan_of T job x = Some c \<and> plan_of T job (sc_blobs (w_scratch w) q) = Some c) \<and> I w) (\<lambda>_. I)"
    by (rule triple_weaken [OF triple_both [OF get_plan assms(4)]]) auto
  show ?thesis
    unfolding plan_or_load_clipset_def io_bind_lift assms(1) sum.case option.map Let_def
    by (rule triple_sum, rule triple_raise, simp, rule triple_sum, rule triple_raise, simp,
        rule triple_bind [OF begun], rule triple_bind [OF got], rule known)
qed

end

context manifest_guard
begin

lemma enqueue_keeps [triple_rules]:
  assumes "\<And>c. check = Some c \<Longrightarrow> keeps E Iw c"
  shows "keeps E Iw (enqueue_from configured job is check)"
proof -
  have sent: "keeps E Iw (enqueue_within configured job i t)" for i t
    unfolding enqueue_within_def enqueue_clip_job_def by (intro triple_rules; assumption)
  have told: "keeps E Iw (timed check (exists_within q))" "keeps E Iw (timed check (enqueue_within configured job i))" for q i
    by (intro keeps_timed assms budget_reads_keep sent; assumption)+
  show ?thesis
  proof (induction "is")
    case (Cons i "is")
    have step: "keeps E Iw (case sent of None \<Rightarrow> io_return []
       | Some _ \<Rightarrow> io_bind (enqueue_from configured job is check) (\<lambda>rest. io_return (i # rest)))" for sent :: "bool option"
      by (intro triple_rules Cons.IH)
    have both: "keeps E Iw (case there of None \<Rightarrow> io_return [] | Some True \<Rightarrow> enqueue_from configured job is check
       | Some False \<Rightarrow> io_bind (timed check (enqueue_within configured job i)) (\<lambda>sent. case sent of
           None \<Rightarrow> io_return [] | Some _ \<Rightarrow> io_bind (enqueue_from configured job is check) (\<lambda>rest. io_return (i # rest))))" for there
      using Cons.IH keeps_bind [OF told(2) step]
      by (cases there; cases "the there") (simp_all add: triple_return)
    show ?case
      unfolding enqueue_from.simps io_bind_lift
      by (rule triple_sum, rule triple_raise, assumption, rule keeps_bind, rule told(1), rule both)
  qed (simp add: triple_return)
qed

lemma missing_keeps [triple_rules]:
  "(\<And>c. check = Some c \<Longrightarrow> keeps E Iw c) \<Longrightarrow> keeps E Iw (missing_from job is check)"
  by (induction "is") (auto simp: io_bind_lift split: sum.splits option.splits intro!: triple_rules)

lemma terminalize_keeps [triple_rules]: "keeps E Iw (terminalize_missing_clips T c b)"
proof -
  have "keeps E Iw (terminalize_from T job is b)" for job "is"
  proof (induction "is")
    case (Cons i "is")
    then show ?case
      unfolding terminalize_from.simps by (intro triple_rules write_fallback_keeps) (auto intro: budget_reads_keep)
  qed (simp add: triple_return)
  then show ?thesis
    unfolding terminalize_missing_clips_def missing_indices_def by (intro triple_rules) (auto intro: budget_reads_keep)
qed

lemma recording_keeps [triple_rules]:
  "(\<And>m. as_authority a = Some m \<Longrightarrow> reads_only E m) \<Longrightarrow> keeps E Iw (assemble_recording ct a c)"
  unfolding assemble_recording_def by (intro triple_rules clips_keep; simp)

lemma resume_keeps [triple_rules]:
  "(\<And>m. authority = Some m \<Longrightarrow> reads_only E m) \<Longrightarrow> keeps E Iw (resume_recording ct job b authority)"
  unfolding resume_recording_def by (intro triple_rules; simp)

lemma fresh_keeps:
  assumes "triple E P (plan_or_load_clipset (ct_tools ct) job segments (Some b)) (\<lambda>_. Iw) (\<lambda>_. Iw)"
    and "heartbeat = None \<or> heartbeat = Some (fanout_heartbeat hjob run)"
  shows "triple E P (fresh_recording fuel ct job segments timeout poll heartbeat b) (\<lambda>_. Iw) (\<lambda>_. Iw)"
proof -
  have beat: "keeps E Iw (check_authority heartbeat)"
    using assms(2) heartbeat_keeps by (auto simp: check_authority_def intro: triple_return)
  have enqueue: "keeps E Iw (if fanin_open then enqueue_missing_clips q c (Some (time_left b FANIN)) else io_return [])" for fanin_open q c
    unfolding enqueue_missing_clips_def by (intro triple_if triple_return enqueue_keeps) (auto intro: budget_reads_keep)
  show ?thesis
    unfolding fresh_recording_def
    by (rule triple_bind [OF assms(1)])
      (intro keeps_bind enqueue wait_keeps beat budget_reads_keep terminalize_keeps recording_keeps triple_option
        triple_prod triple_if triple_return; simp)
qed

lemma fanout_keeps:
  assumes "plan_guard E (ct_tools ct) job q" "clipset_blob_path job = Inr q" "q \<noteq> p" "projection_ok (vb_projection b)"
    and "heartbeat = None \<or> heartbeat = Some (fanout_heartbeat hjob run)" "\<forall>m. authority = Some m \<longrightarrow> reads_only E m"
  shows "triple E (\<lambda>w. plan_of (ct_tools ct) job (sc_blobs (w_scratch w) q) = Some c \<and> Iw w)
    (record_via_fanout fuel ct job segments timeout poll heartbeat (Some b) resume authority) (\<lambda>_. Iw) (\<lambda>_. Iw)"
proof -
  let ?P = "\<lambda>w. plan_of (ct_tools ct) job (sc_blobs (w_scratch w) q) = Some c \<and> Iw w"
  have asked: "triple E ?P (if resume then admitted b FALLBACK else io_return True) (\<lambda>_. ?P) (\<lambda>_. Iw)"
  proof -
    have "keeps E Iw (if resume then admitted b FALLBACK else io_return True)" by (intro triple_rules; simp)
    then show ?thesis
      by (rule triple_weaken [OF triple_both [OF plan_guard.asking_keeps [OF assms(1)]]]) auto
  qed
  have planned: "triple E ?P (plan_or_load_clipset (ct_tools ct) job segments (Some b)) (\<lambda>_. Iw) (\<lambda>_. Iw)"
    by (rule plan_guard.replanning_frame [OF assms(1,2,4)]) (rule update_elsewhere [OF assms(3)], rule read_keeps(1))
  have fresh: "triple E ?P (fresh_recording fuel ct job segments timeout poll heartbeat b) (\<lambda>_. Iw) (\<lambda>_. Iw)"
    by (rule fresh_keeps [OF planned assms(5)])
  have "keeps E Iw (io_bind (resume_recording ct job b authority) (\<lambda>rs. io_return (Some rs)))"
    by (intro keeps_bind resume_keeps triple_return) (use assms(6) in simp_all)
  then have resumed: "triple E ?P (io_bind (resume_recording ct job b authority) (\<lambda>rs. io_return (Some rs))) (\<lambda>_. Iw) (\<lambda>_. Iw)"
    by (rule triple_weaken) auto
  show ?thesis
    unfolding record_via_fanout_def option.case
    by (rule triple_bind [OF asked], rule triple_if, rule fresh, rule resumed)
qed

end

section \<open>The recording is the plan\<close>

text \<open>The plan is one of the documents that the editor leaves alone once it is there.\<close>

lemma plan_of_nothing [simp]: "plan_of T job None = None" "plan_of T job (Some Empty) = None"
  by (simp_all add: plan_of_def)

lemma plan_of_read:
  assumes "clipset_from_bytes T raw job = Inr c" "nonempty raw \<noteq> None" "cs_version c = CLIPSET_SCHEMA_VERSION"
  shows "plan_of T job raw = Some c"
  using assms
  by (auto simp: plan_of_def clipset_from_bytes_def load_doc_def nonempty_def and_then_Inr_conv split: option.splits blob.splits if_splits)

lemma get_tells: "triple E (\<lambda>_. True) (get_bytes p) (\<lambda>b w. b = sc_blobs (w_scratch w) p) (\<lambda>_ _. True)"
  by (auto simp: triple_def get_bytes_def request_def on_scratch_def Let_def split: fault.splits sum.splits)

context plan_guard
begin

lemma plan_is_guarded: "clipset_blob_path job = Inr q \<Longrightarrow> manifest_guard E q (\<lambda>b D. plan_of T job b = Some c)"
  by unfold_locales (auto intro: others_plan rivals_plan dest: clipset_path_plain)

lemma resume_tells:
  assumes "resume_recording ct job b authority E w = (Inr rs, w')"
    and "clipset_blob_path job = Inr q" "ct_tools ct = T" "\<And>m. authority = Some m \<Longrightarrow> reads_only E m"
  shows "\<exists>c w1. assemble_recording ct \<lparr>as_budget = Some b, as_completed = True, as_authority = authority, as_timeout = 30\<rparr> c E w1 = (Inr rs, w')
    \<and> plan_of T job (sc_blobs (w_scratch w1) q) = Some c
    \<and> (\<forall>c0. plan_of T job (sc_blobs (w_scratch w) q) = Some c0 \<longrightarrow> c = c0)"
proof -
  let ?load = "io_bind (check_authority authority) (\<lambda>_. io_bind (io_lift (clipset_blob_path job)) get_bytes)"
  obtain t w1 raw w2 c where time: "time_for_operation b RENDER E w = (Inr t, w1)"
    and load: "run_bounded ?load t E w1 = (Inr raw, w2)"
    and c: "clipset_from_bytes T raw job = Inr c" "nonempty raw \<noteq> None" "cs_version c = CLIPSET_SCHEMA_VERSION"
    and rest: "assemble_recording ct \<lparr>as_budget = Some b, as_completed = True, as_authority = authority, as_timeout = 30\<rparr> c E w2 = (Inr rs, w')"
    using assms(1) unfolding resume_recording_def io_bind_Inr refuse_Inr assms(3)
    by (auto simp: io_lift_def io_raise_def split: if_splits)
  have "triple E (\<lambda>_. True) ?load (\<lambda>b w. b = sc_blobs (w_scratch w) q) (\<lambda>_ _. True)"
    unfolding io_bind_lift assms(2) sum.case by (rule ensures_bind) (rule get_tells)
  from tripleD [OF triple_bounded [OF this] TrueI load] plan_of_read [OF c]
  have there: "plan_of T job (sc_blobs (w_scratch w2) q) = Some c" by simp
  have "c = c0" if "plan_of T job (sc_blobs (w_scratch w) q) = Some c0" for c0
  proof -
    have plan1: "plan_of T job (sc_blobs (w_scratch w1) q) = Some c0"
      by (rule keepsD [OF plan.budget_reads(2) that time])
    have "keeps E (\<lambda>w. plan_of T job (sc_blobs (w_scratch w) q) = Some c0) ?load"
      unfolding io_bind_lift assms(2) sum.case
      by (intro keeps_bind plan.authority_keeps assms(4) plan.read_keeps; assumption)
    from tripleD [OF triple_bounded [OF this] plan1 load] there show ?thesis by simp
  qed
  then show ?thesis using rest there by blast
qed

lemma fresh_tells:
  assumes "fresh_recording fuel ct job segments timeout poll heartbeat b E w = (Inr (Some rs), w')"
    and "plan_open T job (sc_blobs (w_scratch w) q)" "clipset_blob_path job = Inr q" "ct_tools ct = T"
    and "projection_ok (vb_projection b)" "heartbeat = None \<or> heartbeat = Some (fanout_heartbeat hjob run)"
  shows "\<exists>c left w1. assemble_recording ct
      \<lparr>as_budget = Some b, as_completed = False, as_authority = None, as_timeout = min 30 left\<rparr> c E w1 = (Inr rs, w')
    \<and> plan_of T job (sc_blobs (w_scratch w') q) = Some c
    \<and> (\<forall>c0. plan_of T job (sc_blobs (w_scratch w) q) = Some c0 \<longrightarrow> c = c0)"
proof -
  obtain c w1 fanin w2 where plan: "plan_or_load_clipset T job segments (Some b) E w = (Inr c, w1)"
    and after: "(case fanin :: (bool \<times> int list) option of
       None \<Rightarrow> io_return None
     | Some (all_there, present) \<Rightarrow>
         io_bind (if all_there then io_return () else terminalize_missing_clips T c b) (\<lambda>_.
         io_bind (time_left b FALLBACK) (\<lambda>left.
         io_bind (assemble_recording ct
           \<lparr>as_budget = Some b, as_completed = False, as_authority = None, as_timeout = min 30 left\<rparr> c) (\<lambda>rs.
         io_return (Some rs))))) E w2 = (Inr (Some rs), w')"
    using assms(1) unfolding fresh_recording_def io_bind_Inr assms(4) by blast
  have rest: "\<exists>left w1. assemble_recording ct
      \<lparr>as_budget = Some b, as_completed = False, as_authority = None, as_timeout = min 30 left\<rparr> c E w1 = (Inr rs, w')"
    using after by (cases fanin; cases "the fanin") (auto simp: io_bind_Inr io_return_def)
  have "plan_of T job (sc_blobs (w_scratch w1) q) = Some c"
    using tripleD [OF planning_tells [OF assms(3,5)] assms(2) plan] by simp
  then have "triple E (\<lambda>v. v = w) (plan_or_load_clipset (ct_tools ct) job segments (Some b))
      (\<lambda>_ w. plan_of T job (sc_blobs (w_scratch w) q) = Some c) (\<lambda>_ w. plan_of T job (sc_blobs (w_scratch w) q) = Some c)"
    using plan by (simp add: triple_def assms(4))
  from tripleD [OF manifest_guard.fresh_keeps [OF plan_is_guarded [OF assms(3)] this assms(6)] refl assms(1)]
  have "plan_of T job (sc_blobs (w_scratch w') q) = Some c" by simp
  moreover have "c = c0" if "plan_of T job (sc_blobs (w_scratch w) q) = Some c0" for c0
    using tripleD [OF replanning_keeps [OF assms(3,5)] that plan] by simp
  ultimately show ?thesis using rest by blast
qed

lemma fanout_tells:
  assumes "record_via_fanout fuel ct job segments timeout poll heartbeat (Some b) resume authority E w = (Inr (Some rs), w')"
    and "plan_open T job (sc_blobs (w_scratch w) q)" "clipset_blob_path job = Inr q" "ct_tools ct = T"
    and "projection_ok (vb_projection b)" "heartbeat = None \<or> heartbeat = Some (fanout_heartbeat hjob run)"
    and "\<And>m. authority = Some m \<Longrightarrow> reads_only E m"
  shows "\<exists>c a w1. assemble_recording ct a c E w1 = (Inr rs, w') \<and> as_budget a \<noteq> None \<and> (\<forall>m. as_authority a = Some m \<longrightarrow> reads_only E m)
    \<and> plan_of T job (sc_blobs (w_scratch w') q) = Some c
    \<and> (\<forall>c0. plan_of T job (sc_blobs (w_scratch w) q) = Some c0 \<longrightarrow> c = c0)"
proof -
  obtain in_time w0 where asked: "(if resume then admitted b FALLBACK else io_return True) E w = (Inr in_time, w0)"
    and branch: "(if in_time then fresh_recording fuel ct job segments timeout poll heartbeat b
      else io_bind (resume_recording ct job b authority) (\<lambda>rs. io_return (Some rs))) E w0 = (Inr (Some rs), w')"
    using assms(1) unfolding record_via_fanout_def option.case io_bind_Inr by blast
  have kept: "plan_of T job (sc_blobs (w_scratch w0) q) = Some c0" if "plan_of T job (sc_blobs (w_scratch w) q) = Some c0" for c0
    using keepsD [OF asking_keeps that asked] .
  have opened: "plan_open T job (sc_blobs (w_scratch w0) q)"
    using keepsD [OF asking_opened assms(2) asked] .
  show ?thesis
  proof (cases in_time)
    case True
    then have "fresh_recording fuel ct job segments timeout poll heartbeat b E w0 = (Inr (Some rs), w')"
      using branch by simp
    from fresh_tells [OF this opened assms(3-6)] obtain c left w1 where run: "assemble_recording ct
        \<lparr>as_budget = Some b, as_completed = False, as_authority = None, as_timeout = min 30 left\<rparr> c E w1 = (Inr rs, w')"
      and c: "plan_of T job (sc_blobs (w_scratch w') q) = Some c"
        "\<forall>c0. plan_of T job (sc_blobs (w_scratch w0) q) = Some c0 \<longrightarrow> c = c0" by blast
    show ?thesis
      by (intro exI conjI, rule run) (use c kept in simp_all)
  next
    case False
    then have "resume_recording ct job b authority E w0 = (Inr rs, w')"
      using branch by (auto simp: io_bind_Inr io_return_def)
    from resume_tells [OF this assms(3,4,7)] obtain c w1 where run: "assemble_recording ct
        \<lparr>as_budget = Some b, as_completed = True, as_authority = authority, as_timeout = 30\<rparr> c E w1 = (Inr rs, w')"
      and c: "plan_of T job (sc_blobs (w_scratch w1) q) = Some c"
        "\<forall>c0. plan_of T job (sc_blobs (w_scratch w0) q) = Some c0 \<longrightarrow> c = c0" by blast
    have there: "plan_of T job (sc_blobs (w_scratch w') q) = Some c"
      by (rule keepsD [OF manifest_guard.recording_keeps [OF plan_is_guarded [OF assms(3)]] c(1) run]) (simp add: assms(7))
    show ?thesis
      by (intro exI conjI, rule run) (use c there kept assms(7) in simp_all)
  qed
qed

end

lemma plan_job:
  assumes "plan_of T job b = Some c"
  shows "clipset_ok c" "clip_manifest_blob_path (cs_job c) i = Inr p \<Longrightarrow> clip_manifest_blob_path job i = Inr p"
proof -
  obtain j where "clipset_from_dict (to_repr T) (to_ftext T) j job = Inr c"
    using assms by (auto simp: plan_of_def split: option.splits blob.splits sum.splits if_splits)
  then have ok: "clipset_ok c" and job: "clean_job_id job = Inr (cs_job c)" using clipset_from_dict_ok by blast+
  show "clipset_ok c" by (rule ok)
  have "clean_job_id (cs_job c) = Inr (cs_job c)" using ok by (simp add: clipset_ok_def clean_job_id_def)
  then show "clip_manifest_blob_path (cs_job c) i = Inr p \<Longrightarrow> clip_manifest_blob_path job i = Inr p"
    using job by (simp add: clip_manifest_blob_path_def indexed_path_def clips_prefix_def job_prefix_def)
qed

text \<open>Claim C10: the recording is the plan.  When the fan-out of a job returns a recording -- after planning the
  job itself or finding a plan, after waiting, settling missing clips or resuming a completed recording -- then
  the container holds a plan of the job, which is the one it held before if there was one, and the recording
  has one segment for every clip of that plan, in its order.  Each segment is described by the terminal manifest
  that is in the container, and its video was validated against the evidence of that manifest at the content
  path of its digest, or is the card of a fallback.  Other workers may act at any time, as long as they keep
  plans and terminal manifests and write only plans where there is none; the container holds no plan or a
  readable one of the current version at the start (an older or unreadable one is replaced), and no gap filler
  is configured.\<close>

theorem fanout_assembles_the_plan:
  assumes "clipset_blob_path job = Inr q" "plan_respected (ct_tools ct) E job q"
    and "plan_open (ct_tools ct) job (sc_blobs (w_scratch w) q)" "projection_ok (vb_projection b)"
    and "ct_fill_gap ct = None" "heartbeat = None \<or> heartbeat = Some (fanout_heartbeat hjob run)"
    and "\<forall>m. authority = Some m \<longrightarrow> reads_only E m"
    and "\<forall>i p. clip_manifest_blob_path job i = Inr p \<longrightarrow> manifest_respected E p"
    and "record_via_fanout fuel ct job segments timeout poll heartbeat (Some b) resume authority E w = (Inr (Some rs), w')"
  shows "\<exists>c. plan_of (ct_tools ct) job (sc_blobs (w_scratch w') q) = Some c
    \<and> (\<forall>c0. plan_of (ct_tools ct) job (sc_blobs (w_scratch w) q) = Some c0 \<longrightarrow> c = c0)
    \<and> list_all2 (cut_from ct (cs_job c) (w_scratch w')) (cs_clips c) rs"
proof -
  have reads: "reads_only E m" if "authority = Some m" for m using assms(7) that by blast
  from plan_guard.fanout_tells [OF plan_respected_guard [OF assms(2)] assms(9,3,1) refl assms(4,6) reads]
  obtain c a w1 where run: "assemble_recording ct a c E w1 = (Inr rs, w')"
    and a: "as_budget a \<noteq> None" "\<forall>m. as_authority a = Some m \<longrightarrow> reads_only E m"
    and c: "plan_of (ct_tools ct) job (sc_blobs (w_scratch w') q) = Some c"
      "\<forall>c0. plan_of (ct_tools ct) job (sc_blobs (w_scratch w) q) = Some c0 \<longrightarrow> c = c0" by blast
  have kept: "manifest_kept E p" if "clip_manifest_blob_path (cs_job c) i = Inr p" for i p
    using assms(8) plan_job(2) [OF c(1) that] respected_kept by blast
  have "list_all2 (cut_from ct (cs_job c) (w_scratch w')) (cs_clips c) rs"
    by (rule recording_Inr [OF run plan_job(1) [OF c(1)] a(1) assms(5)]) (use a(2) kept in blast)+
  then show ?thesis using c by blast
qed

section \<open>Terminal manifests stay\<close>


end
