(* ===== verification/EditorExample.thy ===== *)
theory EditorExample
  imports RecorderExample EditorAssembly
begin

text \<open>
  One editor assembles the recording of a planned job whose only clip was recorded: it reads the
  plan, finds the terminal manifest, and takes the verified media.  The runs instantiate the theorems
  about the fan-out.
\<close>

section \<open>The container\<close>

definition example_media_path :: string where
  "example_media_path = ''video-jobs/j/clips/000/'' @ example_digest @ ''.webm''"

definition example_manifest :: dict where
  "example_manifest = [(''schema_version'', JStr CLIP_MANIFEST_SCHEMA_VERSION), (''clip_id'', JStr ''clip-000''),
     (''status'', JStr STATUS_SUCCESS), (''media_blob_path'', JStr example_media_path),
     (''media'', media_to_dict example_evidence)]"

definition recorded_scratch :: scratch where
  "recorded_scratch = \<lparr>sc_blobs = [''video-jobs/j/clipset.json'' \<mapsto> Doc (encode_clipset example_plan),
       ''video-jobs/j/clips/000.manifest.json'' \<mapsto> Doc (JObj example_manifest)],
     sc_media = [example_media_path \<mapsto> ''xy'']\<rparr>"

definition unplanned_scratch :: scratch where
  "unplanned_scratch = \<lparr>sc_blobs = [''video-jobs/j/clips/000.manifest.json'' \<mapsto> Doc (JObj example_manifest)],
     sc_media = [example_media_path \<mapsto> ''xy'']\<rparr>"

definition one_segment :: video_segment where
  "one_segment = \<lparr>vs_start = 0, vs_duration = 60, vs_repo = None, vs_source_url = None, vs_removed_reason = None\<rparr>"

definition example_cutting :: cutting where
  "example_cutting = \<lparr>ct_tools = camera_tools, ct_validate = (\<lambda>_ _ _. Inr example_evidence),
     ct_card = (\<lambda>_. Inl (Raise OSErr ''no card'')), ct_fill_gap = None, ct_order = (\<lambda>is. is), ct_queue = True,
     ct_reason = (\<lambda>_. ''unreadable'')\<rparr>"

definition example_segment :: recorded_segment where
  "example_segment = recorded_from_manifest (to_repr camera_tools) (entry_to_segment example_entry) ''xy'' example_manifest
     (Some example_evidence)"

lemma cutting_simps [simp]:
  "ct_tools example_cutting = camera_tools" "ct_validate example_cutting v m t = Inr example_evidence"
  "ct_fill_gap example_cutting = None" "ct_order example_cutting is = is" "ct_queue example_cutting"
  by (simp_all add: example_cutting_def)

lemma example_evidence_ok: "media_ok example_evidence"
proof -
  have "\<not> py_isspace (CHR ''w'')" by (simp add: py_isspace_def)
  then have d: "dropWhile py_isspace ''webm'' = ''webm''" by simp
  have "\<not> py_isspace (CHR ''m'')" by (simp add: py_isspace_def)
  then have "py_strip ''webm'' \<noteq> []" unfolding py_strip_def d by simp
  then show ?thesis
    by (simp add: media_ok_def example_evidence_def is_digest_def example_digest_def hex_chars_def list_all_iff)
qed

lemma example_media_read: "manifest_media T example_manifest = Inr (Some example_evidence)"
proof -
  obtain m where m: "media_to_dict example_evidence = JObj m" by (simp add: media_to_dict_def)
  have "media_from_dict (to_repr T) (to_ftext T) m = Inr example_evidence"
    using media_round_trip [OF example_evidence_ok, of "to_repr T" "to_ftext T"] by (simp add: m)
  then show ?thesis by (simp add: manifest_media_def example_manifest_def dget_def m)
qed

section \<open>The steps of the editor\<close>

lemma file_run [simp]:
  "file_exists p (alone t) w = (Inr (sc_media (w_scratch w) p \<noteq> None), tick w)"
  "sleep d (alone t) w = (if d < 0 then (Inl (Raise ValueErr ''sleep length must be non-negative''), w)
     else (Inr (), (tick w)\<lparr>w_mono := w_mono w + d\<rparr>))"
  by (simp_all add: file_exists_def alone_request on_scratch_def sleep_def alone_tick Let_def)

lemma time_run:
  assumes "w_mono w = 0"
  shows "time_left example_parent stage (alone 0) w = (Inr (of_int (stage_deadline stage)), tick w)"
    and "time_for_operation example_parent stage (alone 0) w = (Inr (min 30 (of_int (stage_deadline stage))), tick w)"
    and "admitted example_parent stage (alone 0) w = (Inr True, tick w)"
  using assms
  by (cases stage; simp add: time_left_def time_for_operation_def admitted_def admit_def operation_timeout_def io_bind_def
      remaining_seconds_def example_parent_def example_budget_def local_elapsed_def durable_elapsed_def total_seconds_def
      valid_instant_def micros_def micros_per_day_def)+

lemma example_plan_of: "plan_of T ''j'' (Some (Doc (encode_clipset example_plan))) = Some example_plan"
  by (simp add: plan_of_def example_plan_decoded) (simp add: example_plan_def)

text \<open>A plan that is there is returned; where there is none, the planner writes one.\<close>

lemma planned_run:
  assumes "plan_of T ''j'' (sc_blobs (w_scratch w) ''video-jobs/j/clipset.json'') = Some c" "projection_ok (vb_projection b)"
    and "clipset_from_segments ''j'' segments (Some (vb_projection b)) = Inr planned"
  shows "plan_or_load_clipset T ''j'' segments (Some b) (alone t) w = (Inr c, tick (tick w))"
proof -
  obtain x where x: "sc_blobs (w_scratch w) ''video-jobs/j/clipset.json'' = Some x" "nonempty (Some x) = Some x"
    using assms(1) plan_there by fastforce
  have same: "with_blob ''video-jobs/j/clipset.json'' x (tick w) = tick w"
    using x(1) by (simp add: with_blob_def tick_def fun_upd_idem)
  obtain d where d: "clipset_to_dict planned = Inr d"
    using assms(3) by (auto simp: clipset_from_segments_def and_then_Inr_conv clipset_to_dict_def)
  have rest: "io_bind (get_bytes ''video-jobs/j/clipset.json'') (\<lambda>b'. io_bind (read_plan T ''j'' path planned written (Some b) (bytes_or written b'))
      (migrate_plan T ''j'' path (Some b) (bytes_or written b'))) (alone t) (tick w) = (Inr c, tick (tick w))" for path written
    using alone_plan.read_known [of T "''j''", OF assms(1)] by (simp add: io_bind_def [of "get_bytes _"])
  show ?thesis
    using rest x
    by (simp add: plan_or_load_clipset_def io_bind_lift assms(3) d Let_def io_bind_def [of "update_bytes _ _ _"] alone_update plan_callback_def same)
qed

lemma first_plan_run:
  assumes "nonempty (sc_blobs (w_scratch w) ''video-jobs/j/clipset.json'') = None" "projection_ok (vb_projection b)"
    and "clipset_from_segments ''j'' segments (Some (vb_projection b)) = Inr planned"
  shows "\<exists>c w'. plan_or_load_clipset T ''j'' segments (Some b) (alone t) w = (Inr c, w')"
proof -
  obtain d where d: "clipset_to_dict planned = Inr d"
    using assms(3) by (auto simp: clipset_from_segments_def and_then_Inr_conv clipset_to_dict_def)
  obtain c where c: "plan_of T ''j'' (Some (Doc (JObj d))) = Some c"
    using written_plan [OF assms(3,2) d, of T] by auto
  show ?thesis
    using assms(1) alone_plan.read_known [of T "''j''", OF c]
    by (simp add: plan_or_load_clipset_def io_bind_lift assms(3) d Let_def io_bind_def [of "update_bytes _ _ _"] io_bind_def [of "get_bytes _"]
        alone_update plan_callback_def)
qed

text \<open>The only clip is recorded, so nothing is enqueued and the barrier opens at once.\<close>

lemma example_indices: "indices example_plan = [0]" "cs_job example_plan = ''j''" "cs_clips example_plan = [example_entry]"
  by (simp_all add: indices_def example_plan_def example_entry_def)

lemma enqueue_run:
  assumes "w_mono w = 0" "sc_blobs (w_scratch w) ''video-jobs/j/clips/000.manifest.json'' \<noteq> None"
  shows "enqueue_missing_clips True example_plan (Some (time_left example_parent FANIN)) (alone 0) w = (Inr [], tick (tick w))"
  using assms
  by (auto simp: enqueue_missing_clips_def example_indices io_bind_lift io_bind_def timed_def time_run io_except_def
      exists_within_def run_bounded_def)

lemma barrier_run:
  assumes "w_mono w = 0" "sc_blobs (w_scratch w) ''video-jobs/j/clips/000.manifest.json'' \<noteq> None"
  shows "wait_for_fanin (Suc n) example_plan [0] 1200 15 (check_authority None) (Some example_parent) (alone 0) w
    = (Inr (Some (True, [0])), tick (tick (tick (tick (tick w)))))"
  using assms
  by (auto simp: wait_for_fanin_def example_indices io_bind_lift io_bind_def timed_def time_run until_def io_except_def
      exists_within_def run_bounded_def check_authority_def)

definition example_assembly :: assembly where
  "example_assembly = \<lparr>as_budget = Some example_parent, as_completed = False, as_authority = None, as_timeout = 30\<rparr>"

lemma assembly_simps [simp]:
  "as_budget example_assembly = Some example_parent" "\<not> as_completed example_assembly"
  "as_authority example_assembly = None" "as_timeout example_assembly = 30" "assembly_stage example_assembly = FALLBACK"
  by (simp_all add: example_assembly_def assembly_stage_def)

lemma call_run:
  assumes "w_mono w = 0"
  shows "assembly_call example_assembly call (alone 0) w = call (alone 0) (tick w)"
  using assms
  by (cases "call (alone 0) (tick w)") (auto simp: assembly_call_def io_bind_def time_run
      run_bounded_def check_authority_def split: sum.splits)

lemma manifest_simps [simp]:
  "example_manifest \<noteq> []" "dget example_manifest ''schema_version'' = JStr CLIP_MANIFEST_SCHEMA_VERSION"
  "py_str repr (dget_or example_manifest ''status'' (JStr [])) = STATUS_SUCCESS"
  "dget example_manifest ''media_blob_path'' = JStr example_media_path"
  "dget example_manifest ''clip_id'' = JStr (clip_id 0)"
  by (simp_all add: example_manifest_def dget_def dget_or_def STATUS_SUCCESS_def example_clip_id)

lemma checks_run: "check_manifest camera_tools example_assembly example_manifest (alone 0) w = (Inr (Some example_evidence), w)"
  by (simp add: check_manifest_def io_bind_def refuse_when_def example_media_read io_except_def)
    (simp add: io_bind_def STATUS_SUCCESS_def STATUS_RECORDING_INSUFFICIENT_def)

lemma source_run: "clip_source ''j'' 0 example_manifest (Some example_evidence) = Inr example_media_path"
  by (simp add: clip_source_def example_paths example_media_path_def)

lemma validate_run:
  assumes "w_mono w = 0"
  shows "validate_clip example_cutting example_assembly v m (alone 0) w = (Inr (), tick (tick w))"
  using assms by (simp add: validate_clip_def io_bind_def io_except_def time_run)

lemma take_run:
  assumes "w_mono w = 0" "w_scratch w = recorded_scratch"
  shows "\<exists>w'. take_clip example_cutting example_assembly ''j'' example_entry example_manifest (Some example_evidence) (alone 0) w
      = (Inr example_segment, w') \<and> w_mono w' = 0"
proof -
  have entry: "ce_index example_entry = 0" by (simp add: example_entry_def)
  show ?thesis
    using assms
    by (simp add: take_clip_def entry io_bind_def call_run source_run fetch_clip_def refuse_when_def validate_run
        recorded_scratch_def example_segment_def)
qed

lemma clip_run:
  assumes "w_mono w = 0" "w_scratch w = recorded_scratch"
  shows "\<exists>w'. assemble_clip example_cutting example_assembly ''j'' example_entry (alone 0) w = (Inr example_segment, w') \<and> w_mono w' = 0"
proof -
  have "ce_index example_entry = 0" by (simp add: example_entry_def)
  then have "read_clip_manifest ''j'' (ce_index example_entry) example_assembly (alone 0) w = (Inr example_manifest, tick (tick w))"
    using assms by (simp add: read_clip_manifest_def io_bind_def call_run recorded_scratch_def manifest_of_def)
  then show ?thesis
    using take_run [of "tick (tick w)"] assms
    by (simp add: assemble_clip_def io_bind_def [of "io_except _ _ _"] io_except_def io_bind_def [of "check_manifest _ _ _"] checks_run)
qed

lemma one_segment_planned: "clipset_from_segments ''j'' [one_segment] (Some (vb_projection example_parent)) = Inr example_plan"
  by (simp add: clipset_from_segments_def clean_job_id_def entry_from_segment_def one_segment_def check_index_def
      example_plan_def example_entry_def example_parent_def)

text \<open>The same plan, written by the run itself or found there.\<close>

lemma planning_runs:
  assumes "s \<in> {unplanned_scratch, recorded_scratch}"
  shows "plan_or_load_clipset camera_tools ''j'' [one_segment] (Some example_parent) (alone 0) (world_of s)
    = (Inr example_plan, tick (tick (world_of recorded_scratch)))"
proof (cases "s = recorded_scratch")
  case True
  have "plan_or_load_clipset camera_tools ''j'' [one_segment] (Some example_parent) (alone 0) (world_of recorded_scratch)
      = (Inr example_plan, tick (tick (world_of recorded_scratch)))"
    by (rule planned_run [OF _ _ one_segment_planned])
      (simp_all add: recorded_scratch_def world_of_def example_plan_of example_parent_def example_budget_ok)
  then show ?thesis using True by simp
next
  case False
  obtain d where d: "clipset_to_dict example_plan = Inr d" by (simp add: example_plan_def clipset_to_dict_def)
  have doc: "encode_clipset example_plan = JObj d" by (simp add: encode_clipset_def d)
  have plan: "plan_of camera_tools ''j'' (Some (Doc (JObj d))) = Some example_plan"
    using example_plan_of [of camera_tools] by (simp add: doc)
  have written: "with_blob ''video-jobs/j/clipset.json'' (Doc (JObj d)) (tick (world_of unplanned_scratch)) = tick (world_of recorded_scratch)"
    by (simp add: with_blob_def tick_def world_of_def unplanned_scratch_def recorded_scratch_def doc fun_upd_twist)
  have bare: "sc_blobs unplanned_scratch ''video-jobs/j/clipset.json'' = None" by (simp add: unplanned_scratch_def)
  show ?thesis
    using False assms alone_plan.read_known [of camera_tools "''j''", OF plan] written bare
    by (simp add: plan_or_load_clipset_def io_bind_lift one_segment_planned d Let_def io_bind_def [of "update_bytes _ _ _"]
        io_bind_def [of "get_bytes _"] alone_update plan_callback_def nonempty_def world_of_def recorded_scratch_def doc)
qed

lemma example_run_assembled:
  assumes "plan_or_load_clipset camera_tools ''j'' segments (Some example_parent) (alone 0) w
    = (Inr example_plan, tick (tick (world_of recorded_scratch)))"
  shows "\<exists>w'. record_via_fanout (Suc n) example_cutting ''j'' segments 1200 15 None (Some example_parent) False None (alone 0) w
    = (Inr (Some [example_segment]), w')"
proof -
  obtain w1 where begun: "(tick ^^ 11) (world_of recorded_scratch) = w1" "w_mono w1 = 0" "w_scratch w1 = recorded_scratch"
    by (simp add: eval_nat_numeral world_of_def)
  obtain w2 where clip: "assemble_clip example_cutting example_assembly ''j'' example_entry (alone 0) w1 = (Inr example_segment, w2)"
    using clip_run begun by blast
  have manifest: "sc_blobs recorded_scratch ''video-jobs/j/clips/000.manifest.json'' \<noteq> None"
    by (simp add: recorded_scratch_def)
  have zero: "w_mono (world_of recorded_scratch) = 0" "w_scratch (world_of recorded_scratch) = recorded_scratch"
    by (simp_all add: world_of_def)
  have rec: "assemble_recording example_cutting example_assembly example_plan (alone 0) w1 = (Inr [example_segment], w2)"
    by (simp add: assemble_recording_def example_indices io_bind_def refuse_when_def clip)
  have "min 30 (of_int (stage_deadline FALLBACK)) = (30::rat)" by simp
  then show ?thesis
    using rec begun(1)
    by (simp add: record_via_fanout_def fresh_recording_def io_bind_def assms zero time_run enqueue_run barrier_run manifest
        example_indices example_assembly_def eval_nat_numeral)
qed

section \<open>The theorems at these runs\<close>

lemma alone_plan_respected: "plan_respected T (alone t) job q"
  by (auto simp: plan_respected_def alone_def plan_open_def)

lemma recorded_simps [simp]:
  "w_mono (world_of s) = 0" "w_scratch (world_of s) = s" "vb_projection example_parent = example_budget"
  "sc_blobs recorded_scratch ''video-jobs/j/clipset.json'' = Some (Doc (encode_clipset example_plan))"
  "sc_blobs recorded_scratch ''video-jobs/j/clips/000.manifest.json'' = Some (Doc (JObj example_manifest))"
  by (simp_all add: world_of_def recorded_scratch_def example_parent_def)

theorem fanout_terminates_witness:
  "\<exists>r w'. record_via_fanout (fanin_fuel 1200 15) example_cutting ''j'' [] 1200 15 (Some (fanout_heartbeat ''j'' ''a''))
      (Some example_parent) False None (alone 0) (world_of recorded_scratch) = (r, w') \<and> r \<noteq> Inr None"
  by (rule fanout_terminates [of 15 1200 "fanin_fuel 1200 15" _ "''j''" "''a''"]) simp_all

theorem complete_fanin_is_settled_witness:
  "\<exists>w'. wait_for_fanin 1 example_plan [0] 1200 15 (check_authority None) (Some example_parent) (alone 0) (world_of recorded_scratch)
      = (Inr (Some (True, [0])), w')
    \<and> (\<forall>i \<in> set (indices example_plan). \<exists>p. clip_manifest_blob_path (cs_job example_plan) i = Inr p \<and> sc_blobs (w_scratch w') p \<noteq> None)"
proof -
  obtain w' where run: "wait_for_fanin 1 example_plan [0] 1200 15 (check_authority None) (Some example_parent) (alone 0)
      (world_of recorded_scratch) = (Inr (Some (True, [0])), w')"
    using barrier_run [of "world_of recorded_scratch" 0] by simp
  have "clipset_ok example_plan" using clipset_from_dict_ok example_plan_decoded by blast
  from complete_fanin_is_settled [OF this _ _ _ run, of "''j''" "[]"] run show ?thesis
    by (simp add: example_indices alone_respects)
qed

text \<open>Two editors of a job without a plan, the second with other segments.\<close>

theorem editors_agree_on_the_plan_witness:
  "\<exists>c1 w1 c2 w2. plan_or_load_clipset camera_tools ''j'' [one_segment] (Some example_parent) (alone 0)
        (world_of \<lparr>sc_blobs = Map.empty, sc_media = Map.empty\<rparr>) = (Inr c1, w1)
    \<and> plan_or_load_clipset camera_tools ''j'' [] (Some sample_run) (alone 0) w1 = (Inr c2, w2)
    \<and> c2 = c1 \<and> plan_of camera_tools ''j'' (sc_blobs (w_scratch w2) ''video-jobs/j/clipset.json'') = Some c1"
proof -
  let ?w = "world_of \<lparr>sc_blobs = Map.empty, sc_media = Map.empty\<rparr>"
  have segments: "\<exists>c. clipset_from_segments ''j'' [one_segment] (Some b) = Inr c" "\<exists>c. clipset_from_segments ''j'' [] (Some b) = Inr c" for b
    by (simp_all add: clipset_from_segments_def clean_job_id_def entry_from_segment_def one_segment_def check_index_def)
  have b: "projection_ok (vb_projection example_parent)" "projection_ok (vb_projection sample_run)"
    by (simp_all add: example_budget_ok sample_run_def sample_projection_ok)
  have empty_there: "nonempty (sc_blobs (w_scratch ?w) ''video-jobs/j/clipset.json'') = None" by (simp add: nonempty_def)
  then have open_there: "plan_open camera_tools ''j'' (sc_blobs (w_scratch ?w) ''video-jobs/j/clipset.json'')" by (simp add: plan_open_def)
  obtain c1 w1 where run1: "plan_or_load_clipset camera_tools ''j'' [one_segment] (Some example_parent) (alone 0) ?w = (Inr c1, w1)"
    using first_plan_run [OF empty_there b(1)] segments(1) by blast
  have "plan_of camera_tools ''j'' (sc_blobs (w_scratch w1) ''video-jobs/j/clipset.json'') = Some c1"
    using tripleD [OF alone_plan.planning_tells [OF job_paths(1) b(1)] open_there run1] by simp
  then obtain w2 where run2: "plan_or_load_clipset camera_tools ''j'' [] (Some sample_run) (alone 0) w1 = (Inr c1, w2)"
    using planned_run b(2) segments(2) by blast
  from editors_agree_on_the_plan [OF job_paths(1) alone_plan_respected open_there b run1 run2] run1 run2
  show ?thesis by blast
qed

text \<open>The fan-out that plans the job itself, and the fan-out that finds the plan.\<close>

theorem fanout_assembles_the_plan_witness:
  "(\<exists>w' c. record_via_fanout 1 example_cutting ''j'' [one_segment] 1200 15 None (Some example_parent) False None (alone 0)
        (world_of unplanned_scratch) = (Inr (Some [example_segment]), w')
      \<and> plan_of camera_tools ''j'' (sc_blobs (w_scratch w') ''video-jobs/j/clipset.json'') = Some c
      \<and> list_all2 (cut_from example_cutting (cs_job c) (w_scratch w')) (cs_clips c) [example_segment])
   \<and> (\<exists>w'. record_via_fanout 1 example_cutting ''j'' [one_segment] 1200 15 None (Some example_parent) False None (alone 0)
        (world_of recorded_scratch) = (Inr (Some [example_segment]), w')
      \<and> plan_of camera_tools ''j'' (sc_blobs (w_scratch w') ''video-jobs/j/clipset.json'') = Some example_plan
      \<and> list_all2 (cut_from example_cutting ''j'' (w_scratch w')) [example_entry] [example_segment])"
proof -
  have runs: "\<exists>w'. record_via_fanout 1 example_cutting ''j'' [one_segment] 1200 15 None (Some example_parent) False None (alone 0)
      (world_of s) = (Inr (Some [example_segment]), w')" if "s \<in> {unplanned_scratch, recorded_scratch}" for s
    using example_run_assembled [OF planning_runs [OF that], of 0] by simp
  have opened: "plan_open (ct_tools example_cutting) ''j'' (sc_blobs (w_scratch (world_of s)) ''video-jobs/j/clipset.json'')"
    if "s \<in> {unplanned_scratch, recorded_scratch}" for s
    using that by (auto simp: plan_open_def example_plan_of unplanned_scratch_def nonempty_def)
  note told = fanout_assembles_the_plan [OF job_paths(1) alone_plan_respected opened]
  obtain w1 w2 where run: "record_via_fanout 1 example_cutting ''j'' [one_segment] 1200 15 None (Some example_parent) False None (alone 0)
        (world_of unplanned_scratch) = (Inr (Some [example_segment]), w1)"
      "record_via_fanout 1 example_cutting ''j'' [one_segment] 1200 15 None (Some example_parent) False None (alone 0)
        (world_of recorded_scratch) = (Inr (Some [example_segment]), w2)"
    using runs by blast
  from told [OF _ _ _ _ _ _ run(1)] told [OF _ _ _ _ _ _ run(2)] run show ?thesis
    by (auto simp: example_budget_ok alone_respects example_indices example_plan_of)
qed


end
