(* ===== verification/CostGate.thy ===== *)
theory CostGate
  imports Json
begin

text \<open>
  The cost gate of \<open>podcaster/costs.py\<close>: what a cost ledger must hold before synthesis may be paid
  for.  Money is a decimal literal in a string; \<open>py_decimal\<close> is \<open>decimal.Decimal\<close> on strings, exact,
  without the limits on exponents.  Building a ledger and the monthly ledger are not modelled.
\<close>

section \<open>Decimal literals\<close>

datatype decimal = Finite rat | NonFinite

definition all_digits :: "string \<Rightarrow> bool" where
  "all_digits s \<longleftrightarrow> list_all is_digit s"

definition signed_digits :: "string \<Rightarrow> int option" where
  "signed_digits s = (case s of
       [] \<Rightarrow> None
     | c # cs \<Rightarrow>
         (let body = (if c = CHR ''+'' \<or> c = CHR ''-'' then cs else s)
          in if body = [] then None
             else map_option (\<lambda>n. if c = CHR ''-'' then - int n else int n) (digits_value 0 body)))"

definition shifted :: "nat \<Rightarrow> int \<Rightarrow> rat" where
  "shifted n k = (if 0 \<le> k then of_nat n * 10 ^ nat k else of_nat n / 10 ^ nat (- k))"

text \<open>Digits with an optional point and an optional exponent, in lower case.\<close>

definition finite_decimal :: "string \<Rightarrow> rat option" where
  "finite_decimal body =
     (let mantissa = takeWhile (\<lambda>c. c \<noteq> CHR ''e'') body;
          tail = dropWhile (\<lambda>c. c \<noteq> CHR ''e'') body;
          whole = takeWhile (\<lambda>c. c \<noteq> CHR ''.'') mantissa;
          fraction = drop 1 (dropWhile (\<lambda>c. c \<noteq> CHR ''.'') mantissa)
      in if whole @ fraction = [] then None
         else case (digits_value 0 (whole @ fraction), if tail = [] then Some 0 else signed_digits (drop 1 tail)) of
                (Some n, Some k) \<Rightarrow> Some (shifted n (k - int (length fraction)))
              | _ \<Rightarrow> None)"

definition is_nan :: "string \<Rightarrow> bool" where
  "is_nan body \<longleftrightarrow> starts_with ''nan'' body \<and> all_digits (drop 3 body)
     \<or> starts_with ''snan'' body \<and> all_digits (drop 4 body)"

text \<open>\<open>Decimal(s)\<close>; \<open>None\<close> is \<open>InvalidOperation\<close>.\<close>

definition py_decimal :: "string \<Rightarrow> decimal option" where
  "py_decimal text =
     (let s = py_lower (filter (\<lambda>c. c \<noteq> CHR ''_'') (py_strip text));
          signed = (s \<noteq> [] \<and> (hd s = CHR ''+'' \<or> hd s = CHR ''-''));
          body = (if signed then tl s else s)
      in if body \<in> {''inf'', ''infinity''} \<or> is_nan body then Some NonFinite
         else map_option (\<lambda>r. Finite (if signed \<and> hd s = CHR ''-'' then - r else r)) (finite_decimal body))"

lemma py_decimal_examples:
  "py_decimal ''0.00'' = Some (Finite 0)" "py_decimal '' -1.50 '' = Some (Finite (- 3 / 2))"
  "py_decimal ''2.5E1'' = Some (Finite 25)" "py_decimal ''.5'' = Some (Finite (1 / 2))"
  "py_decimal ''1.2.3'' = None" "py_decimal '''' = None" "py_decimal ''NaN'' = Some NonFinite" "py_decimal ''1e'' = None"
  by code_simp+

section \<open>What a ledger must hold\<close>

definition COST_CATEGORIES :: "string list" where
  "COST_CATEGORIES = [''script_generation'', ''validation'', ''tts'', ''staging_storage'', ''egress_download'', ''platform_provider'']"

fun lookup :: "json \<Rightarrow> string list \<Rightarrow> json" where
  "lookup j [] = j"
| "lookup (JObj d) (p # ps) = (case map_of d p of None \<Rightarrow> JNull | Some v \<Rightarrow> lookup v ps)"
| "lookup _ (p # ps) = JNull"

lemma lookup_JNull [simp]: "lookup JNull ps = JNull"
  by (cases ps) simp_all

lemma lookup_append: "lookup j (ps @ qs) = lookup (lookup j ps) qs"
  by (induction j ps rule: lookup.induct) (auto split: option.splits)

definition is_missing :: "json \<Rightarrow> bool" where
  "is_missing v = (case v of JNull \<Rightarrow> True | JStr s \<Rightarrow> py_strip s = [] | _ \<Rightarrow> False)"

definition is_missing_money :: "json \<Rightarrow> bool" where
  "is_missing_money v = (case v of
       JStr s \<Rightarrow> is_missing v \<or> (case py_decimal s of Some (Finite r) \<Rightarrow> r < 0 | _ \<Rightarrow> True)
     | _ \<Rightarrow> True)"

fun dotted :: "string list \<Rightarrow> string" where
  "dotted [] = []"
| "dotted [p] = p"
| "dotted (p # ps) = p @ ''.'' @ dotted ps"

definition required_paths :: "string list list" where
  "required_paths = [[''week''], [''month''], [''provider''], [''voice''], [''voice_config_hash''], [''billable_characters''],
     [''duration_seconds''], [''audio_byte_length''], [''staged_byte_length''], [''costs''], [''budget''],
     [''budget'', ''status''], [''budget'', ''projected_episode_count''], [''budget'', ''projected_monthly_spend_usd''],
     [''durable_monthly_state'', ''source''], [''durable_monthly_state'', ''enforced''],
     [''privacy'', ''secrets_recorded''], [''privacy'', ''provider_credentials_recorded''], [''privacy'', ''full_prompts_recorded'']]"

definition budget_money_paths :: "string list list" where
  "budget_money_paths = [[''budget'', ''max_monthly_spend_usd''], [''budget'', ''prior_monthly_spend_usd''],
     [''budget'', ''projected_episode_cost_usd''], [''budget'', ''projected_monthly_spend_usd'']]"

definition missing_in_category :: "dict \<Rightarrow> string \<Rightarrow> string list" where
  "missing_in_category costs c = (case map_of costs c of
       None \<Rightarrow> [''costs.'' @ c]
     | Some (JObj e) \<Rightarrow>
         (if is_missing_money (dget e ''estimated_usd'') then [''costs.'' @ c @ ''.estimated_usd''] else [])
         @ (if is_missing_money (dget e ''actual_usd'') then [''costs.'' @ c @ ''.actual_usd''] else [])
     | Some _ \<Rightarrow> [''costs.'' @ c @ ''.estimated_usd'', ''costs.'' @ c @ ''.actual_usd''])"

definition missing_costs :: "json \<Rightarrow> string list" where
  "missing_costs costs = (case costs of
       JObj d \<Rightarrow> concat (map (missing_in_category d) COST_CATEGORIES)
     | _ \<Rightarrow> map (\<lambda>c. ''costs.'' @ c) COST_CATEGORIES)"

definition missing_cost_ledger_fields :: "dict \<Rightarrow> string list" where
  "missing_cost_ledger_fields d =
     (let missing = map dotted (filter (\<lambda>p. is_missing (lookup (JObj d) p)) required_paths);
          money = map dotted (filter (\<lambda>p. is_missing_money (lookup (JObj d) p)) budget_money_paths)
      in missing @ filter (\<lambda>p. p \<notin> set missing) money @ missing_costs (dget d ''costs''))"

text \<open>
  \<open>status not in {...}\<close> asks for the hash of the status, so a status that is a list or a dictionary is
  a \<open>TypeError\<close>.
\<close>

definition cost_gate_blockers :: "json \<Rightarrow> string list res" where
  "cost_gate_blockers ledger = (case ledger of
       JObj d \<Rightarrow>
         (if missing_cost_ledger_fields d \<noteq> [] then Inr [''cost_ledger_incomplete'']
          else case (case dget d ''budget'' of JObj b \<Rightarrow> dget b ''status'' | _ \<Rightarrow> JNull) of
                 JStr s \<Rightarrow> Inr (if s = ''over_budget'' then [''monthly_budget_exceeded'']
                               else if s \<notin> {''within_budget'', ''override_recorded''} then [''cost_budget_unknown''] else [])
               | JList _ \<Rightarrow> Inl (Raise TypeErr ''unhashable type'')
               | JObj _ \<Rightarrow> Inl (Raise TypeErr ''unhashable type'')
               | _ \<Rightarrow> Inr [''cost_budget_unknown''])
     | _ \<Rightarrow> Inr [''cost_ledger_missing''])"

section \<open>An open gate\<close>

text \<open>The gate opens only for a complete ledger, whose budget was met or whose override was recorded.\<close>

lemma gate_open:
  assumes "cost_gate_blockers j = Inr []"
  obtains d where "j = JObj d" "missing_cost_ledger_fields d = []"
    "lookup j [''budget'', ''status''] \<in> {JStr ''within_budget'', JStr ''override_recorded''}"
proof -
  obtain d b where "j = JObj d" "missing_cost_ledger_fields d = []" "dget d ''budget'' = JObj b"
      "dget b ''status'' = JStr ''within_budget'' \<or> dget b ''status'' = JStr ''override_recorded''"
    using assms by (auto simp: cost_gate_blockers_def split: json.splits if_splits)
  then show ?thesis
    using that by (auto simp: dget_def split: option.splits)
qed

lemma nothing_missing: "missing_in_category costs c = [] \<longleftrightarrow> (\<exists>e. map_of costs c = Some (JObj e)
    \<and> \<not> is_missing_money (dget e ''estimated_usd'') \<and> \<not> is_missing_money (dget e ''actual_usd''))"
  by (auto simp: missing_in_category_def split: option.splits json.splits)

text \<open>Then every category has an estimated and an actual amount, both finite and not negative.\<close>

definition money_of :: "json \<Rightarrow> rat option" where
  "money_of v = (case v of JStr s \<Rightarrow> (case py_decimal s of Some (Finite r) \<Rightarrow> Some r | _ \<Rightarrow> None) | _ \<Rightarrow> None)"

lemma money_present: "\<not> is_missing_money v \<longleftrightarrow> (\<exists>r. money_of v = Some r \<and> 0 \<le> r) \<and> \<not> is_missing v"
  by (auto simp: is_missing_money_def money_of_def not_less split: json.splits option.splits decimal.splits)

lemma gate_open_costs:
  assumes "cost_gate_blockers j = Inr []" "c \<in> set COST_CATEGORIES" "k = ''estimated_usd'' \<or> k = ''actual_usd''"
  shows "\<exists>r. money_of (lookup j [''costs'', c, k]) = Some r \<and> 0 \<le> r"
proof -
  obtain d where d: "j = JObj d" "missing_cost_ledger_fields d = []" using gate_open [OF assms(1)] by metis
  then have none: "missing_costs (dget d ''costs'') = []" by (simp add: missing_cost_ledger_fields_def Let_def)
  moreover have "COST_CATEGORIES \<noteq> []" by (simp add: COST_CATEGORIES_def)
  ultimately obtain e where e: "dget d ''costs'' = JObj e" by (auto simp: missing_costs_def split: json.splits)
  then have "map_of d ''costs'' = Some (JObj e)" by (auto simp: dget_def split: option.splits)
  moreover have "\<exists>x. map_of e c = Some (JObj x) \<and> \<not> is_missing_money (dget x ''estimated_usd'') \<and> \<not> is_missing_money (dget x ''actual_usd'')"
    using none assms(2) by (simp add: missing_costs_def e nothing_missing)
  moreover have "lookup (JObj x) [k] = dget x k" for x by (simp add: dget_def split: option.splits)
  ultimately show ?thesis using assms(3) money_present by (auto simp: d(1))
qed

end
