(* ===== verification/Review.thy ===== *)
theory Review
  imports CostGate BlobStore
begin

text \<open>
  The human review of a staged episode (\<open>podcaster/review.py\<close>): when a manifest is blocked, what a
  decision changes, and when staged content counts as reviewed.  A manifest is a JSON dictionary.  The
  SHA-256 digests, the text form of a document, the digest of the provider settings and the podcast
  configuration of a request are parameters (\<open>reviewing\<close>).
\<close>

section \<open>Python on documents\<close>

text \<open>\<open>x == y\<close> of documents: numbers by value, dictionaries whatever their order.\<close>

fun json_same :: "json \<Rightarrow> json \<Rightarrow> bool"
  and list_same :: "json list \<Rightarrow> json list \<Rightarrow> bool"
  and dict_same :: "dict \<Rightarrow> dict \<Rightarrow> bool" where
  "json_same (JList xs) y = (case y of JList ys \<Rightarrow> list_same xs ys | _ \<Rightarrow> False)"
| "json_same (JObj d) y = (case y of JObj e \<Rightarrow> length d = length e \<and> dict_same d e | _ \<Rightarrow> False)"
| "json_same x y = py_eq x y"
| "list_same [] ys = (ys = [])"
| "list_same (x # xs) ys = (case ys of [] \<Rightarrow> False | y # zs \<Rightarrow> json_same x y \<and> list_same xs zs)"
| "dict_same [] e = True"
| "dict_same ((k, v) # d) e = ((case map_of e k of None \<Rightarrow> False | Some w \<Rightarrow> json_same v w) \<and> dict_same d e)"

lemma json_same_JStr [simp]: "json_same x (JStr s) \<longleftrightarrow> x = JStr s" "json_same (JStr s) x \<longleftrightarrow> x = JStr s"
proof -
  show "json_same x (JStr s) \<longleftrightarrow> x = JStr s" by (cases x) simp_all
  show "json_same (JStr s) x \<longleftrightarrow> x = JStr s" by (simp only: json_same.simps py_eq_simps)
qed

text \<open>\<open>c1 or c2 or ...\<close>: the first that holds or raises ends the evaluation.\<close>

fun any_res :: "bool res list \<Rightarrow> bool res" where
  "any_res [] = Inr False"
| "any_res (c # cs) = and_then c (\<lambda>b. if b then Inr True else any_res cs)"

lemma any_res_False: "any_res cs = Inr False \<longleftrightarrow> (\<forall>c \<in> set cs. c = Inr False)"
  by (induction cs) (auto simp: and_then_Inr_conv)

text \<open>\<open>x[k]\<close>, and \<open>except cs: raise e\<close>.\<close>

definition sub :: "json \<Rightarrow> string \<Rightarrow> json res" where
  "sub j k = and_then (as_dict j) (\<lambda>d. dindex d k)"

definition rebound :: "exn_class list \<Rightarrow> exn \<Rightarrow> 'a res \<Rightarrow> 'a res" where
  "rebound cs e r = (case r of Inl x \<Rightarrow> Inl (if catches cs x then e else x) | Inr x \<Rightarrow> Inr x)"

lemma rebound_Inr [simp]: "rebound cs e r = Inr x \<longleftrightarrow> r = Inr x"
  by (auto simp: rebound_def split: sum.splits)

definition unbound :: "string \<Rightarrow> exn" where
  "unbound reason = Raise ReviewBindingErr reason"

text \<open>
  \<open>d.setdefault(k, {})\<close> followed by a change \<open>f\<close> of that dictionary; \<open>cls\<close> is what the first access
  raises on another value.  \<open>d.setdefault(k, []).append(x)\<close>.
\<close>

definition on_section :: "exn_class \<Rightarrow> string \<Rightarrow> (dict \<Rightarrow> dict res) \<Rightarrow> dict \<Rightarrow> dict res" where
  "on_section cls k f d = (case dget_or d k (JObj []) of
       JObj e \<Rightarrow> and_then (f e) (\<lambda>e'. Inr (dset k (JObj e') d))
     | _ \<Rightarrow> Inl (Raise cls k))"

definition append_to :: "string \<Rightarrow> json \<Rightarrow> dict \<Rightarrow> dict res" where
  "append_to k x d = (case dget_or d k (JList []) of
       JList xs \<Rightarrow> Inr (dset k (JList (xs @ [x])) d)
     | _ \<Rightarrow> Inl (Raise AttributeErr ''append''))"

section \<open>Constants and parameters\<close>

definition APPROVED :: string where "APPROVED = ''approved''"
definition CHANGES_REQUESTED :: string where "CHANGES_REQUESTED = ''changes_requested''"
definition REJECTED :: string where "REJECTED = ''rejected''"
definition VALID_DECISIONS :: "string set" where "VALID_DECISIONS = {APPROVED, CHANGES_REQUESTED, REJECTED}"

definition PROVIDER_TTS_BLOCKERS :: "string list" where
  "PROVIDER_TTS_BLOCKERS = [''provider_not_selected'', ''provider_privacy_review_required'', ''rai_security_signoff_required'']"

definition PROVIDER_AUTHORIZATION_FIELDS :: "string list" where
  "PROVIDER_AUTHORIZATION_FIELDS = [''selected_provider'', ''fallback_provider'', ''provider_selection_reference'',
     ''provider_privacy_review_reference'', ''rai_security_signoff_reference'', ''disclosure_reference'', ''region'']"

record reviewing =
  rv_text :: "json \<Rightarrow> string"
  rv_sha :: "string \<Rightarrow> string"
  rv_checksum :: "blob \<Rightarrow> string"
  rv_settings :: string
  rv_ready :: bool
  rv_podcast :: "json \<Rightarrow> json res"

section \<open>What a manifest says\<close>

definition is_exact_script_job :: "dict \<Rightarrow> bool" where
  "is_exact_script_job m =
     (case (dget_or m ''review'' (JObj []), dget_or m ''generation'' (JObj [])) of
        (JObj r, JObj g) \<Rightarrow> dhas r ''snapshot'' \<or> dhas r ''synthesis_approval'' \<or> dhas g ''provider_settings_sha256''
      | _ \<Rightarrow> True)"

text \<open>\<open>checksum(manifest_bytes(...))\<close> of the named fields of the manifest and of its generation record.\<close>

definition pick :: "json \<Rightarrow> string list \<Rightarrow> dict res" where
  "pick j ks = map_res (\<lambda>k. and_then (sub j k) (\<lambda>v. Inr (k, v))) ks"

definition content_snapshot_sha256 :: "reviewing \<Rightarrow> dict \<Rightarrow> string res" where
  "content_snapshot_sha256 R m =
     and_then (dindex m ''generation'') (\<lambda>g.
     and_then (pick (JObj m) [''job_id'', ''created_at'', ''expires_at'', ''request'', ''artifacts'', ''cost_ledger'']) (\<lambda>a.
     and_then (pick g [''engine'', ''resolved_podcast_config'', ''provider_settings'', ''provider_settings_sha256'']) (\<lambda>b.
     Inr (rv_sha R (rv_text R (JObj (a @ b)))))))"

definition private_media_input_sha256 :: "reviewing \<Rightarrow> dict \<Rightarrow> string res" where
  "private_media_input_sha256 R m =
     and_then (dindex m ''generation'') (\<lambda>g.
     and_then (pick (JObj m) [''job_id'', ''created_at'', ''expires_at'', ''request'', ''cost_ledger'']) (\<lambda>a.
     and_then (and_then (dindex m ''review'') (\<lambda>r. sub r ''snapshot'')) (\<lambda>s.
     and_then (pick g [''resolved_podcast_config'', ''provider_settings'', ''provider_settings_sha256'']) (\<lambda>b.
     Inr (rv_sha R (rv_text R (JObj (a @ [(''snapshot'', s)] @ b))))))))"

definition text_present :: "json \<Rightarrow> bool" where
  "text_present v = (case v of JStr s \<Rightarrow> py_strip s \<noteq> [] | _ \<Rightarrow> False)"

text \<open>The condition under which the provider gates stay closed.\<close>

definition unauthorized :: "json \<Rightarrow> dict \<Rightarrow> dict \<Rightarrow> bool res" where
  "unauthorized generation approval au = any_res
     [Inr (dget approval ''status'' \<noteq> JStr APPROVED),
      Inr (\<not> truthy (dget approval ''approved_by'')),
      Inr (\<not> truthy (dget approval ''approved_at'')),
      and_then (attr_dict generation) (\<lambda>g.
        Inr (\<not> json_same (dget au ''provider_settings_sha256'') (dget g ''provider_settings_sha256''))),
      and_then (attr_dict generation) (\<lambda>g. Inr (\<not> truthy (dget g ''provider_settings_sha256''))),
      Inr (\<not> list_all (\<lambda>f. text_present (dget au f)) PROVIDER_AUTHORIZATION_FIELDS),
      Inr (set (map fst au) \<noteq> insert ''provider_settings_sha256'' (set PROVIDER_AUTHORIZATION_FIELDS)),
      and_then (attr_dict generation) (\<lambda>g.
        and_then (attr_dict (dget_or g ''provider_settings'' (JObj []))) (\<lambda>s.
        Inr (\<not> json_same (dget au ''selected_provider'') (dget s ''provider''))))]"

definition provider_authorization_blockers :: "dict \<Rightarrow> string list res" where
  "provider_authorization_blockers m =
     and_then (attr_dict (dget_or m ''review'' (JObj []))) (\<lambda>r.
     and_then (attr_dict (dget_or r ''synthesis_approval'' (JObj []))) (\<lambda>approval.
     case dget_or approval ''provider_authorization'' (JObj []) of
       JObj au \<Rightarrow> and_then (unauthorized (dget_or m ''generation'' (JObj [])) approval au) (\<lambda>closed.
          Inr (if closed then PROVIDER_TTS_BLOCKERS else []))
     | _ \<Rightarrow> Inr PROVIDER_TTS_BLOCKERS))"

definition generation_or_empty :: "dict \<Rightarrow> dict" where
  "generation_or_empty m = (case dget m ''generation'' of JObj g \<Rightarrow> g | _ \<Rightarrow> [])"

definition has_synthesized_audio :: "dict \<Rightarrow> bool" where
  "has_synthesized_audio m =
     (let g = generation_or_empty m
      in dget g ''audio_mode'' = JStr ''synthesized''
         \<or> (case dget g ''synthesis_runner'' of JObj r \<Rightarrow> dget r ''status'' = JStr ''completed'' | _ \<Rightarrow> False))"

definition audio_validation_ready :: "dict \<Rightarrow> bool" where
  "audio_validation_ready m = (case dget (generation_or_empty m) ''audio_validation'' of
       JObj v \<Rightarrow> dget v ''ready'' = JBool True \<and> dget v ''status'' = JStr ''passed'' | _ \<Rightarrow> False)"

definition has_value :: "json \<Rightarrow> bool" where
  "has_value v = (case v of JStr s \<Rightarrow> py_strip s \<noteq> [] | JNull \<Rightarrow> False | _ \<Rightarrow> True)"

text \<open>\<open>x or y\<close>.\<close>

definition py_or :: "json \<Rightarrow> json \<Rightarrow> json" where
  "py_or x y = (if truthy x then x else y)"

definition provider_selection_complete :: "dict \<Rightarrow> bool res" where
  "provider_selection_complete m =
     (let g = generation_or_empty m;
          tts = (case dget g ''tts_synthesis'' of JObj t \<Rightarrow> t | _ \<Rightarrow> []);
          selection = py_or (dget g ''provider_selection'') (dget tts ''provider_selection'');
          provider = py_or (dget g ''tts_provider'') (dget m ''tts_provider'');
          fallback = py_or (dget g ''tts_fallback_provider'') (py_or (dget g ''fallback_tts_provider'')
            (py_or (dget m ''tts_fallback_provider'') (dget m ''fallback_tts_provider'')));
          fallbacks = py_or (dget g ''tts_fallbacks'') (dget m ''tts_fallbacks'');
          has_fallback = (has_value fallback \<or> (case fallbacks of JList xs \<Rightarrow> list_ex has_value xs | _ \<Rightarrow> False));
          explicit = (dget tts ''provider_selection_complete'' = JBool True
            \<or> dget g ''provider_selection_complete'' = JBool True);
          rest = explicit \<or> (has_value provider \<and> has_fallback)
      in case selection of
           JObj s \<Rightarrow>
             (case dget s ''status'' of
                JStr t \<Rightarrow> Inr (t \<in> {''complete'', ''completed'', ''configured'', ''selected''} \<or> rest)
              | JList _ \<Rightarrow> Inl (Raise TypeErr ''unhashable type'')
              | JObj _ \<Rightarrow> Inl (Raise TypeErr ''unhashable type'')
              | _ \<Rightarrow> Inr rest)
         | _ \<Rightarrow> Inr rest)"

section \<open>Is the staged content what was reviewed?\<close>

text \<open>\<open>storage.get_bytes\<close> as a function of the path at the time of the call; it may raise.\<close>

type_synonym reader = "string \<Rightarrow> blob option res"

definition script_path :: "string \<Rightarrow> string" where
  "script_path job = ''jobs/'' @ job @ ''/script.txt''"

text \<open>\<open>not script\<close>: no such blob, or no bytes.\<close>

definition no_bytes :: "blob option \<Rightarrow> bool" where
  "no_bytes b \<longleftrightarrow> b = None \<or> b = Some Empty"

definition checksum_differs :: "reviewing \<Rightarrow> blob option \<Rightarrow> json \<Rightarrow> bool" where
  "checksum_differs R b v = (case b of None \<Rightarrow> True | Some x \<Rightarrow> v \<noteq> JStr (rv_checksum R x))"

fun check_artifacts :: "reviewing \<Rightarrow> reader \<Rightarrow> string \<Rightarrow> dict \<Rightarrow> unit res" where
  "check_artifacts R read job [] = Inr ()"
| "check_artifacts R read job ((path, artifact) # rest) =
     (if \<not> starts_with (''jobs/'' @ job @ ''/'') path then Inl (unbound ''review artifact escapes the staged job'')
      else
        and_then (read path) (\<lambda>b.
        and_then (if b = None then Inr True else and_then (sub artifact ''sha256'') (\<lambda>h. Inr (checksum_differs R b h))) (\<lambda>bad.
        if bad then Inl (unbound ''review artifact content changed or is missing'')
        else check_artifacts R read job rest)))"

definition snapshot_changed :: "reviewing \<Rightarrow> dict \<Rightarrow> string \<Rightarrow> blob option \<Rightarrow> json \<Rightarrow> json \<Rightarrow> json \<Rightarrow> bool res" where
  "snapshot_changed R m job script request generation snapshot = any_res
     [and_then (dindex m ''job_id'') (\<lambda>v. Inr (v \<noteq> JStr job)),
      and_then (sub request ''dry_run'') (\<lambda>v. Inr (v \<noteq> JBool False)),
      Inr (ends_with ''-dry-run'' job),
      and_then (sub generation ''engine'') (\<lambda>v. Inr (v \<noteq> JStr ''llm-script-gen'')),
      and_then (sub generation ''cost_ledger_persisted'') (\<lambda>v. Inr (v \<noteq> JBool True)),
      Inr (\<not> rv_ready R),
      Inr (no_bytes script),
      and_then (sub snapshot ''script_sha256'') (\<lambda>v. Inr (checksum_differs R script v)),
      and_then (sub snapshot ''manifest_sha256'') (\<lambda>v.
        and_then (content_snapshot_sha256 R m) (\<lambda>h. Inr (v \<noteq> JStr h))),
      and_then (sub generation ''provider_settings_sha256'') (\<lambda>v. Inr (v \<noteq> JStr (rv_settings R))),
      and_then (sub generation ''resolved_podcast_config'') (\<lambda>v.
        and_then (rv_podcast R request) (\<lambda>c. Inr (rv_text R v \<noteq> rv_text R c)))]"

definition snapshot_blockers :: "dict \<Rightarrow> json \<Rightarrow> json list res" where
  "snapshot_blockers m generation =
     and_then (cost_gate_blockers (dget m ''cost_ledger'')) (\<lambda>cost.
     and_then (provider_authorization_blockers m) (\<lambda>provider.
     and_then (and_then (sub generation ''tts_synthesis'') attr_dict) (\<lambda>tts.
     and_then (iter_field tts ''blocked_by'') (\<lambda>items.
     Inr (map JStr (cost @ provider) @ filter (\<lambda>x. x \<noteq> JStr ''human_review'') items)))))"

definition validate_review_snapshot :: "reviewing \<Rightarrow> reader \<Rightarrow> string \<Rightarrow> json \<Rightarrow> blob option res" where
  "validate_review_snapshot R read job manifest =
     rebound [KeyErr, TypeErr, AttributeErr] (unbound ''missing or malformed exact-content review snapshot'')
       (and_then (as_dict manifest) (\<lambda>m.
        and_then (dindex m ''request'') (\<lambda>request.
        and_then (dindex m ''generation'') (\<lambda>generation.
        and_then (and_then (dindex m ''review'') (\<lambda>r. sub r ''snapshot'')) (\<lambda>snapshot.
        and_then (read (script_path job)) (\<lambda>script.
        and_then (snapshot_changed R m job script request generation snapshot) (\<lambda>changed.
        if changed then Inl (unbound ''review snapshot changed or production configuration missing'')
        else
          and_then (and_then (dindex m ''artifacts'') attr_dict) (\<lambda>artifacts.
          and_then (check_artifacts R read job artifacts) (\<lambda>_.
          and_then (snapshot_blockers m generation) (\<lambda>blockers.
          if blockers \<noteq> [] then Inl (unbound ''synthesis blocked'') else Inr script))))))))))"

section \<open>Is there a human approval of it?\<close>

definition not_a_person :: "json \<Rightarrow> bool" where
  "not_a_person v = (case v of
       JStr s \<Rightarrow> py_strip s = [] \<or> starts_with ''system:'' (py_lower (py_strip s))
     | _ \<Rightarrow> True)"

text \<open>\<open>x in xs\<close> for a dictionary \<open>x\<close>, which has no hash.\<close>

definition dict_in :: "json \<Rightarrow> json \<Rightarrow> bool res" where
  "dict_in x xs = (case xs of
       JList ys \<Rightarrow> Inr (list_ex (json_same x) ys)
     | _ \<Rightarrow> Inl (Raise TypeErr ''argument of type is not iterable''))"

text \<open>\<open>x[k] != y[l]\<close>.\<close>

definition differ :: "json \<Rightarrow> string \<Rightarrow> json \<Rightarrow> string \<Rightarrow> bool res" where
  "differ x k y l = and_then (sub x k) (\<lambda>v. and_then (sub y l) (\<lambda>w. Inr (\<not> json_same v w)))"

definition not_approved :: "dict \<Rightarrow> json \<Rightarrow> json \<Rightarrow> json \<Rightarrow> bool res" where
  "not_approved m publication review binding = any_res
     [and_then (sub review ''status'') (\<lambda>v. Inr (v \<noteq> JStr APPROVED)),
      and_then (sub review ''approved_by'') (\<lambda>v. Inr (not_a_person v)),
      and_then (sub review ''approved_at'') (\<lambda>v. Inr (\<not> is_str v)),
      differ binding ''reviewer'' review ''approved_by'',
      differ binding ''reviewed_at'' review ''approved_at'',
      and_then (sub binding ''decision'') (\<lambda>v. Inr (v \<noteq> JStr APPROVED)),
      and_then (sub binding ''scope'') (\<lambda>v. Inr (v \<noteq> JStr ''pre_tts'')),
      and_then (sub review ''review_checks_confirmed'') (\<lambda>v. Inr (v \<noteq> JBool True)),
      and_then (sub binding ''script_sha256'') (\<lambda>v. and_then (sub publication ''snapshot'') (\<lambda>s.
        and_then (sub s ''script_sha256'') (\<lambda>w. Inr (\<not> json_same v w)))),
      and_then (sub binding ''manifest_sha256'') (\<lambda>v. and_then (sub publication ''snapshot'') (\<lambda>s.
        and_then (sub s ''manifest_sha256'') (\<lambda>w. Inr (\<not> json_same v w)))),
      differ binding ''provider_authorization'' review ''provider_authorization'',
      and_then (sub binding ''review_checks_confirmed'') (\<lambda>v. Inr (v \<noteq> JBool True)),
      and_then (sub review ''audit_trail'') (\<lambda>t. and_then (dict_in binding t) (\<lambda>b. Inr (\<not> b))),
      and_then (provider_authorization_blockers m) (\<lambda>bs. Inr (bs \<noteq> []))]"

definition check_approval_time :: "json \<Rightarrow> unit res" where
  "check_approval_time v = (case v of
       JStr s \<Rightarrow>
         (case fromisoformat (py_replace ''Z'' ''+00:00'' s) of
            Some (Aware t) \<Rightarrow> Inr ()
          | _ \<Rightarrow> Inl (Raise ValueErr ''review timestamp requires timezone''))
     | _ \<Rightarrow> Inl (Raise AttributeErr ''replace''))"

definition validate_review_binding :: "json \<Rightarrow> unit res" where
  "validate_review_binding manifest =
     rebound [KeyErr, TypeErr, AttributeErr, ValueErr] (unbound ''missing or invalid exact-content human approval'')
       (and_then (as_dict manifest) (\<lambda>m.
        and_then (dindex m ''review'') (\<lambda>publication.
        and_then (sub publication ''synthesis_approval'') (\<lambda>review.
        and_then (sub review ''binding'') (\<lambda>binding.
        and_then (not_approved m publication review binding) (\<lambda>bad.
        if bad then Inl (unbound ''human approval is absent or not bound to staged content'')
        else and_then (sub review ''approved_at'') check_approval_time))))))"

section \<open>A decision\<close>

record decision_call =
  dc_reviewer :: string
  dc_reviewed_at :: string
  dc_decision :: string
  dc_notes :: string
  dc_run_url :: "string option"
  dc_authorization :: "dict option"
  dc_confirmed :: bool

definition approved :: "decision_call \<Rightarrow> bool" where
  "approved a \<longleftrightarrow> dc_decision a = APPROVED"

definition audit_entry :: "decision_call \<Rightarrow> json" where
  "audit_entry a = JObj [(''at'', JStr (dc_reviewed_at a)), (''actor'', JStr (dc_reviewer a)), (''decision'', JStr (dc_decision a)),
     (''notes'', JStr (dc_notes a)), (''run_url'', json_of_opt_str (dc_run_url a))]"

definition set_status :: "string \<Rightarrow> dict \<Rightarrow> dict res" where
  "set_status s d = Inr (dset ''status'' (JStr s) d)"

text \<open>What is recorded in the section the decision is about.\<close>

definition record_decision :: "decision_call \<Rightarrow> dict \<Rightarrow> dict res" where
  "record_decision a r =
     and_then (append_to ''audit_trail'' (audit_entry a)
       (dset ''approved_at'' (if approved a then JStr (dc_reviewed_at a) else JNull)
       (dset ''approved_by'' (if approved a then JStr (dc_reviewer a) else JNull)
       (dset ''status'' (JStr (dc_decision a)) r))))
     (on_section TypeErr ''gate'' (set_status (if approved a then ''approved'' else ''blocked'')))"

text \<open>
  A job with an exact script keeps its publication review pending: its approvals go to a section of
  their own.
\<close>

definition reopen_publication :: "dict \<Rightarrow> dict res" where
  "reopen_publication r =
     on_section TypeErr ''gate'' (set_status ''blocked'')
       (dset ''approved_at'' JNull (dset ''approved_by'' JNull (dset ''status'' (JStr ''pending'') r)))"

definition authorize_provider :: "decision_call \<Rightarrow> dict \<Rightarrow> dict" where
  "authorize_provider a r =
     dset ''review_checks_confirmed'' (JBool (dc_confirmed a))
       (dset ''provider_authorization'' (JObj (case dc_authorization a of None \<Rightarrow> [] | Some d \<Rightarrow> d)) r)"

definition review_section :: "bool \<Rightarrow> bool \<Rightarrow> decision_call \<Rightarrow> dict \<Rightarrow> dict res" where
  "review_section exact script a publication =
     (if \<not> exact then record_decision a publication
      else
        (let k = (if script then ''synthesis_approval'' else ''audio_approval'');
             opened = dset k (dget_or publication k (JObj [])) publication
         in and_then (reopen_publication opened)
              (on_section TypeErr k (\<lambda>r. record_decision a (if script then authorize_provider a r else r)))))"

definition append_blocker :: "string list \<Rightarrow> string \<Rightarrow> string list" where
  "append_blocker bs b = (if b \<in> set bs then bs else bs @ [b])"

definition blocked_by :: "dict \<Rightarrow> string list" where
  "blocked_by section = (case dget_or section ''blocked_by'' (JList []) of
       JList xs \<Rightarrow> concat (map (\<lambda>x. case x of JStr s \<Rightarrow> if s = [] then [] else [s] | _ \<Rightarrow> []) xs)
     | _ \<Rightarrow> [])"

definition texts :: "string list \<Rightarrow> json" where
  "texts ss = JList (map JStr ss)"

definition synthesis_blockers :: "bool \<Rightarrow> bool \<Rightarrow> dict \<Rightarrow> string list \<Rightarrow> string list res" where
  "synthesis_blockers script synthesized m cost =
     and_then (provider_selection_complete m) (\<lambda>complete.
     if synthesized then Inr cost
     else if script then and_then (provider_authorization_blockers m) (\<lambda>p. Inr (p @ cost))
     else Inr ((if complete then [''provider_privacy_review_required'', ''rai_security_signoff_required'']
                else PROVIDER_TTS_BLOCKERS) @ cost))"

definition remaining_blockers :: "dict \<Rightarrow> string list \<Rightarrow> string list \<Rightarrow> string list" where
  "remaining_blockers tts cost extra =
     fold (\<lambda>b bs. append_blocker bs b) extra
       (filter (\<lambda>b. b \<noteq> ''human_review'' \<and> b \<notin> set cost \<and> b \<notin> set PROVIDER_TTS_BLOCKERS) (blocked_by tts))"

definition gate_synthesis :: "bool \<Rightarrow> bool \<Rightarrow> string list \<Rightarrow> dict \<Rightarrow> dict" where
  "gate_synthesis ok synthesized remaining tts =
     (let (status, allowed, blockers) =
        (if ok \<and> synthesized then (''completed'', True, [])
         else if ok then (if remaining = [] then ''review_approved'' else ''blocked'', remaining = [], remaining)
         else (''blocked'', False, ''human_review'' # remaining))
      in dset ''blocked_by'' (texts blockers) (dset ''allowed'' (JBool allowed) (dset ''status'' (JStr status) tts)))"

definition publishing_blockers :: "bool \<Rightarrow> bool \<Rightarrow> bool \<Rightarrow> bool \<Rightarrow> string list \<Rightarrow> string list" where
  "publishing_blockers ok exact synthesized valid cost =
     fold (\<lambda>b bs. append_blocker bs b) cost
       ((if \<not> ok \<or> exact then [''human_review''] else [])
        @ (if \<not> synthesized then [''synthesis_not_completed'', ''audio_validation_not_passed'']
           else if \<not> valid then [''audio_validation_not_passed''] else []))"

definition gate_publishing :: "bool \<Rightarrow> bool \<Rightarrow> bool \<Rightarrow> bool \<Rightarrow> string list \<Rightarrow> dict \<Rightarrow> dict res" where
  "gate_publishing ok exact synthesized valid cost p =
     (let blockers = publishing_blockers ok exact synthesized valid cost
      in on_section TypeErr ''readiness_checks'' (\<lambda>c. Inr
           (dset ''audio_validation_passed'' (JBool valid)
           (dset ''real_audio_available'' (JBool synthesized)
           (dset ''editorial_review_complete'' (JBool (ok \<and> \<not> exact))
           (dset ''cost_ledger_complete'' (JBool (cost = [])) c)))))
         (dset ''eligible'' (JBool (ok \<and> blockers = []))
         (dset ''packet_ready'' (JBool (ok \<and> synthesized))
         (dset ''blocked_by'' (texts blockers) p))))"

definition apply_review_decision :: "dict \<Rightarrow> decision_call \<Rightarrow> dict res" where
  "apply_review_decision m a =
     (if dc_decision a \<notin> VALID_DECISIONS then Inl (Raise ValueErr ''decision must be one of'')
      else if py_strip (dc_reviewer a) = [] then Inl (Raise ValueErr ''reviewer is required'')
      else
        (let synthesized = has_synthesized_audio m; exact = is_exact_script_job m; script = (exact \<and> \<not> synthesized);
             status = (if approved a then ''review_approved'' else dc_decision a)
         in and_then (on_section AttributeErr ''review'' (review_section exact script a) m) (\<lambda>m1.
            let m2 = dset ''status'' (JStr status)
                  (if exact then dset ''review_status'' (JStr ''pending'') m1
                   else dset ''review_status'' (JStr (dc_decision a)) (dset ''reviewer'' (JStr (dc_reviewer a))
                          (dset ''reviewed_at'' (JStr (dc_reviewed_at a)) m1)))
            in and_then (on_section TypeErr ''lifecycle'' (\<lambda>l. append_to ''transitions''
                   (JObj [(''at'', JStr (dc_reviewed_at a)), (''to'', JStr status),
                          (''reason'', JStr (''human_review_'' @ dc_decision a)), (''actor'', JStr (dc_reviewer a))])
                   (dset ''status'' (JStr status) l)) m2) (\<lambda>m3.
               and_then (on_section AttributeErr ''generation'' (\<lambda>g. Inr (dset ''tts_synthesis'' (dget_or g ''tts_synthesis'' (JObj [])) g)) m3) (\<lambda>m4.
               and_then (cost_gate_blockers (dget m4 ''cost_ledger'')) (\<lambda>cost.
               and_then (synthesis_blockers script synthesized m4 cost) (\<lambda>extra.
               and_then (on_section AttributeErr ''generation'' (on_section AttributeErr ''tts_synthesis'' (\<lambda>tts.
                   Inr (gate_synthesis (approved a) synthesized (remaining_blockers tts cost extra) tts))) m4) (\<lambda>m5.
               on_section TypeErr ''publishing''
                 (gate_publishing (approved a) exact synthesized (audio_validation_ready m5) cost) m5))))))))"

section \<open>What a decision leaves alone\<close>

lemma lookup_dset [simp]:
  "lookup (JObj (dset k v d)) (p # ps) = (if p = k then lookup v ps else lookup (JObj d) (p # ps))"
  by simp

lemma lookup_dget: "lookup (JObj d) (p # ps) = lookup (dget d p) ps"
  by (cases ps; cases "dget d p") (auto simp: dget_def split: option.splits)

lemma on_section_Inr:
  assumes "on_section cls k f d = Inr d'"
  obtains e e' where "dget_or d k (JObj []) = JObj e" "f e = Inr e'" "d' = dset k (JObj e') d"
  using assms by (auto simp: on_section_def and_then_Inr_conv split: json.splits)

lemma on_section_other: "on_section cls k f d = Inr d' \<Longrightarrow> p \<noteq> k \<Longrightarrow> lookup (JObj d') (p # ps) = lookup (JObj d) (p # ps)"
  by (auto elim!: on_section_Inr)

lemma append_to_Inr: "append_to k x d = Inr d' \<Longrightarrow> \<exists>xs. d' = dset k (JList (xs @ [x])) d"
  by (auto simp: append_to_def split: json.splits)

lemma section_lookup: "dget_or d k (JObj []) = JObj e \<Longrightarrow> lookup (JObj d) (k # p # ps) = lookup (JObj e) (p # ps)"
  by (auto simp: dget_or_def split: option.splits)

text \<open>The steps of a decision that went through.\<close>

lemma decision_steps:
  assumes "apply_review_decision m a = Inr m'"
  obtains m1 m2 m3 m4 m5 cost extra where
    "dc_decision a \<in> VALID_DECISIONS" "py_strip (dc_reviewer a) \<noteq> []"
    "on_section AttributeErr ''review'' (review_section (is_exact_script_job m) (is_exact_script_job m \<and> \<not> has_synthesized_audio m) a) m
      = Inr m1"
    "\<And>p ps. p \<notin> {''status'', ''review_status'', ''reviewer'', ''reviewed_at''} \<Longrightarrow> lookup (JObj m2) (p # ps) = lookup (JObj m1) (p # ps)"
    "\<And>p ps. p \<noteq> ''lifecycle'' \<Longrightarrow> lookup (JObj m3) (p # ps) = lookup (JObj m2) (p # ps)"
    "on_section AttributeErr ''generation'' (\<lambda>g. Inr (dset ''tts_synthesis'' (dget_or g ''tts_synthesis'' (JObj [])) g)) m3 = Inr m4"
    "cost_gate_blockers (dget m4 ''cost_ledger'') = Inr cost"
    "synthesis_blockers (is_exact_script_job m \<and> \<not> has_synthesized_audio m) (has_synthesized_audio m) m4 cost = Inr extra"
    "on_section AttributeErr ''generation'' (on_section AttributeErr ''tts_synthesis'' (\<lambda>tts.
       Inr (gate_synthesis (approved a) (has_synthesized_audio m) (remaining_blockers tts cost extra) tts))) m4 = Inr m5"
    "on_section TypeErr ''publishing'' (gate_publishing (approved a) (is_exact_script_job m) (has_synthesized_audio m)
       (audio_validation_ready m5) cost) m5 = Inr m'"
proof -
  let ?exact = "is_exact_script_job m" and ?syn = "has_synthesized_audio m"
  let ?status = "if approved a then ''review_approved'' else dc_decision a"
  have valid: "dc_decision a \<in> VALID_DECISIONS" "py_strip (dc_reviewer a) \<noteq> []"
    using assms by (auto simp: apply_review_decision_def split: if_splits)
  note run = assms [unfolded apply_review_decision_def Let_def, simplified valid, simplified, unfolded and_then_Inr_conv]
  obtain m1 m3 m4 cost extra m5 where steps:
    "on_section AttributeErr ''review'' (review_section ?exact (?exact \<and> \<not> ?syn) a) m = Inr m1"
    "on_section TypeErr ''lifecycle'' (\<lambda>l. append_to ''transitions''
       (JObj [(''at'', JStr (dc_reviewed_at a)), (''to'', JStr ?status), (''reason'', JStr (''human_review_'' @ dc_decision a)),
          (''actor'', JStr (dc_reviewer a))]) (dset ''status'' (JStr ?status) l))
       (dset ''status'' (JStr ?status) (if ?exact then dset ''review_status'' (JStr ''pending'') m1
          else dset ''review_status'' (JStr (dc_decision a)) (dset ''reviewer'' (JStr (dc_reviewer a))
                 (dset ''reviewed_at'' (JStr (dc_reviewed_at a)) m1)))) = Inr m3"
    "on_section AttributeErr ''generation'' (\<lambda>g. Inr (dset ''tts_synthesis'' (dget_or g ''tts_synthesis'' (JObj [])) g)) m3 = Inr m4"
    "cost_gate_blockers (dget m4 ''cost_ledger'') = Inr cost"
    "synthesis_blockers (?exact \<and> \<not> ?syn) ?syn m4 cost = Inr extra"
    "on_section AttributeErr ''generation'' (on_section AttributeErr ''tts_synthesis'' (\<lambda>tts.
       Inr (gate_synthesis (approved a) ?syn (remaining_blockers tts cost extra) tts))) m4 = Inr m5"
    "on_section TypeErr ''publishing'' (gate_publishing (approved a) ?exact ?syn (audio_validation_ready m5) cost) m5 = Inr m'"
    using run by auto
  show ?thesis
    by (rule that [OF valid steps(1) _ _ steps(3-7)], rule_tac [2] on_section_other [OF steps(2)]) auto
qed

text \<open>Of the generation record only the synthesis gate changes, of the rest only what the decision is about.\<close>

lemma decision_keeps_generation:
  assumes "apply_review_decision m a = Inr m'" "k \<noteq> ''tts_synthesis''"
  shows "lookup (JObj m') (''generation'' # k # ps) = lookup (JObj m) (''generation'' # k # ps)"
proof -
  obtain m1 m2 m3 m4 m5 cost extra where steps:
    "on_section AttributeErr ''review'' (review_section (is_exact_script_job m) (is_exact_script_job m \<and> \<not> has_synthesized_audio m) a) m
      = Inr m1"
    "\<And>p ps. p \<notin> {''status'', ''review_status'', ''reviewer'', ''reviewed_at''} \<Longrightarrow> lookup (JObj m2) (p # ps) = lookup (JObj m1) (p # ps)"
    "\<And>p ps. p \<noteq> ''lifecycle'' \<Longrightarrow> lookup (JObj m3) (p # ps) = lookup (JObj m2) (p # ps)"
    "on_section AttributeErr ''generation'' (\<lambda>g. Inr (dset ''tts_synthesis'' (dget_or g ''tts_synthesis'' (JObj [])) g)) m3 = Inr m4"
    "on_section AttributeErr ''generation'' (on_section AttributeErr ''tts_synthesis'' (\<lambda>tts.
       Inr (gate_synthesis (approved a) (has_synthesized_audio m) (remaining_blockers tts cost extra) tts))) m4 = Inr m5"
    "on_section TypeErr ''publishing'' (gate_publishing (approved a) (is_exact_script_job m) (has_synthesized_audio m)
       (audio_validation_ready m5) cost) m5 = Inr m'"
    by (rule decision_steps [OF assms(1)]) blast
  have "lookup (JObj m4) (''generation'' # k # ps) = lookup (JObj m3) (''generation'' # k # ps)"
    by (rule on_section_Inr [OF steps(4)]) (use assms(2) section_lookup in auto)
  moreover have "lookup (JObj m5) (''generation'' # k # ps) = lookup (JObj m4) (''generation'' # k # ps)"
    by (rule on_section_Inr [OF steps(5)], erule on_section_Inr) (use assms(2) section_lookup in auto)
  moreover have "lookup (JObj m') (''generation'' # k # ps) = lookup (JObj m5) (''generation'' # k # ps)"
    by (rule on_section_other [OF steps(6)]) simp
  moreover have "lookup (JObj m1) (''generation'' # k # ps) = lookup (JObj m) (''generation'' # k # ps)"
    by (rule on_section_other [OF steps(1)]) simp
  ultimately show ?thesis using steps(2,3) by (simp del: lookup.simps)
qed

section \<open>What a decision can open\<close>

lemma append_blockers_set: "set (fold (\<lambda>b bs. append_blocker bs b) xs bs) = set bs \<union> set xs"
  by (induction xs arbitrary: bs) (auto simp: append_blocker_def)

lemma gate_synthesis_allowed:
  "dget (gate_synthesis ok syn remaining tts) ''allowed'' = JBool True \<longleftrightarrow> ok \<and> (syn \<or> remaining = [])"
  by (auto simp: gate_synthesis_def)

lemma gate_publishing_Inr:
  assumes "gate_publishing ok exact syn valid cost p = Inr p'"
  shows "dget p' ''eligible'' = JBool (ok \<and> publishing_blockers ok exact syn valid cost = [])"
    and "dget p' ''blocked_by'' = texts (publishing_blockers ok exact syn valid cost)"
  using assms by (auto simp: gate_publishing_def Let_def elim!: on_section_Inr)

lemma exact_blocked: "''human_review'' \<in> set (publishing_blockers ok True syn valid cost)"
  by (simp add: publishing_blockers_def append_blockers_set)

lemma reopened: "reopen_publication r = Inr r' \<Longrightarrow>
    dget r' ''status'' = JStr ''pending'' \<and> lookup (JObj r') [''gate'', ''status''] = JStr ''blocked''"
  by (auto simp: reopen_publication_def set_status_def elim!: on_section_Inr)

lemma exact_review_pending:
  assumes "review_section True script a r = Inr r'"
  shows "dget r' ''status'' = JStr ''pending'' \<and> lookup (JObj r') [''gate'', ''status''] = JStr ''blocked''"
  using assms
  by (auto simp: review_section_def Let_def and_then_Inr_conv dest!: reopened elim!: on_section_Inr)

text \<open>Claim C39: a decision on an exact script never publishes.  Whatever the decision and whatever the manifest
  held, after a decision on a job with an exact script the publication is not eligible, names the human
  review as a blocker, and the publication review is pending with a blocked gate: approving the script, or
  the audio, opens neither.\<close>

theorem exact_script_stays_unpublished:
  assumes "apply_review_decision m a = Inr m'" "is_exact_script_job m"
  shows "lookup (JObj m') [''publishing'', ''eligible''] = JBool False
    \<and> (\<exists>bs. lookup (JObj m') [''publishing'', ''blocked_by''] = texts bs \<and> ''human_review'' \<in> set bs)
    \<and> lookup (JObj m') [''review'', ''status''] = JStr ''pending''
    \<and> lookup (JObj m') [''review'', ''gate'', ''status''] = JStr ''blocked''"
proof -
  obtain m1 m2 m3 m4 m5 cost extra where steps:
    "on_section AttributeErr ''review'' (review_section (is_exact_script_job m) (is_exact_script_job m \<and> \<not> has_synthesized_audio m) a) m
      = Inr m1"
    "\<And>p ps. p \<notin> {''status'', ''review_status'', ''reviewer'', ''reviewed_at''} \<Longrightarrow> lookup (JObj m2) (p # ps) = lookup (JObj m1) (p # ps)"
    "\<And>p ps. p \<noteq> ''lifecycle'' \<Longrightarrow> lookup (JObj m3) (p # ps) = lookup (JObj m2) (p # ps)"
    "on_section AttributeErr ''generation'' (\<lambda>g. Inr (dset ''tts_synthesis'' (dget_or g ''tts_synthesis'' (JObj [])) g)) m3 = Inr m4"
    "on_section AttributeErr ''generation'' (on_section AttributeErr ''tts_synthesis'' (\<lambda>tts.
       Inr (gate_synthesis (approved a) (has_synthesized_audio m) (remaining_blockers tts cost extra) tts))) m4 = Inr m5"
    "on_section TypeErr ''publishing'' (gate_publishing (approved a) (is_exact_script_job m) (has_synthesized_audio m)
       (audio_validation_ready m5) cost) m5 = Inr m'"
    by (rule decision_steps [OF assms(1)]) blast
  obtain r r' where "review_section True (\<not> has_synthesized_audio m) a r = Inr r'" "m1 = dset ''review'' (JObj r') m"
    using steps(1) assms(2) by (auto elim!: on_section_Inr)
  moreover have review: "lookup (JObj m') (''review'' # ps) = lookup (JObj m1) (''review'' # ps)" for ps
    using on_section_other [OF steps(4), of "''review''"] on_section_other [OF steps(5), of "''review''"]
      on_section_other [OF steps(6), of "''review''"] steps(2,3) by (simp del: lookup.simps)
  moreover obtain p p' where "gate_publishing (approved a) True (has_synthesized_audio m) (audio_validation_ready m5) cost p = Inr p'"
      "m' = dset ''publishing'' (JObj p') m5"
    using steps(6) assms(2) by (auto elim!: on_section_Inr)
  moreover have "publishing_blockers (approved a) True (has_synthesized_audio m) (audio_validation_ready m5) cost \<noteq> []"
    using exact_blocked by (metis empty_iff list.set(1))
  ultimately show ?thesis
    using exact_review_pending exact_blocked gate_publishing_Inr
    by (auto simp: lookup_dget simp del: lookup.simps(2))
qed

lemma dget_or_dset [simp]: "dget_or (dset k v d) j x = (if j = k then v else dget_or d j x)"
  by (simp add: dget_or_def)

text \<open>The provider gates do not look at the synthesis gate or at the publication.\<close>

lemma provider_gates_local:
  assumes "dget_or m ''generation'' (JObj []) = JObj g"
  shows "provider_authorization_blockers (dset ''publishing'' p (dset ''generation'' (JObj (dset ''tts_synthesis'' t g)) m))
    = provider_authorization_blockers m"
proof -
  have "unauthorized (JObj (dset ''tts_synthesis'' t g)) approval au = unauthorized (JObj g) approval au" for approval au
    by (simp add: unauthorized_def)
  then show ?thesis
    by (simp add: provider_authorization_blockers_def assms cong: json.case_cong)
qed

text \<open>Claim C40: synthesis is opened only by evidence.  When a decision on a staged exact script leaves synthesis
  allowed, the decision is an approval by a named reviewer, the cost gate of the manifest is open, and the
  recorded authorization opens the provider gates.\<close>

theorem synthesis_needs_evidence:
  assumes "apply_review_decision m a = Inr m'" "is_exact_script_job m" "\<not> has_synthesized_audio m"
    and "lookup (JObj m') [''generation'', ''tts_synthesis'', ''allowed''] = JBool True"
  shows "approved a \<and> py_strip (dc_reviewer a) \<noteq> [] \<and> cost_gate_blockers (dget m' ''cost_ledger'') = Inr []
    \<and> provider_authorization_blockers m' = Inr []"
proof -
  obtain m1 m2 m3 m4 m5 cost extra where named: "py_strip (dc_reviewer a) \<noteq> []" and steps:
    "cost_gate_blockers (dget m4 ''cost_ledger'') = Inr cost"
    "synthesis_blockers (is_exact_script_job m \<and> \<not> has_synthesized_audio m) (has_synthesized_audio m) m4 cost = Inr extra"
    "on_section AttributeErr ''generation'' (on_section AttributeErr ''tts_synthesis'' (\<lambda>tts.
       Inr (gate_synthesis (approved a) (has_synthesized_audio m) (remaining_blockers tts cost extra) tts))) m4 = Inr m5"
    "on_section TypeErr ''publishing'' (gate_publishing (approved a) (is_exact_script_job m) (has_synthesized_audio m)
       (audio_validation_ready m5) cost) m5 = Inr m'"
    by (rule decision_steps [OF assms(1)]) blast
  obtain p where m': "m' = dset ''publishing'' (JObj p) m5" using steps(4) by (auto elim!: on_section_Inr)
  obtain g t where g: "dget_or m4 ''generation'' (JObj []) = JObj g"
      "m5 = dset ''generation'' (JObj (dset ''tts_synthesis''
        (JObj (gate_synthesis (approved a) False (remaining_blockers t cost extra) t)) g)) m4"
    using steps(3) assms(3) by (auto elim!: on_section_Inr)
  have "dget (gate_synthesis (approved a) False (remaining_blockers t cost extra) t) ''allowed'' = JBool True"
    using assms(4) by (auto simp: m' g(2) lookup_dget simp del: lookup.simps(2))
  then have ok: "approved a" "remaining_blockers t cost extra = []" by (simp_all add: gate_synthesis_allowed)
  moreover have "set extra \<subseteq> set (remaining_blockers t cost extra)" by (simp add: remaining_blockers_def append_blockers_set)
  ultimately have "extra = []" by simp
  then have open_gates: "cost = []" "provider_authorization_blockers m4 = Inr []"
    using steps(2) assms(2,3) by (auto simp: synthesis_blockers_def and_then_Inr_conv)
  have "dget m' ''cost_ledger'' = dget m4 ''cost_ledger''" by (simp add: m' g(2))
  moreover have "provider_authorization_blockers m' = provider_authorization_blockers m4"
    unfolding m' g(2) by (rule provider_gates_local [OF g(1)])
  ultimately show ?thesis using ok(1) named open_gates steps(1) by simp
qed

end
