(* ===== verification/ReviewDispatch.thy ===== *)
theory ReviewDispatch
  imports Review
begin

text \<open>
  Review decisions on the stored manifest and the dispatch of synthesis (\<open>process_review_decision\<close> of
  \<open>podcaster/orchestration.py\<close>, without the review of prepared media and the publication that may follow),
  and the claim of the synthesis runner (\<open>claim_synthesis\<close> in \<open>podcaster/job_runner.py\<close>).  The manifest
  is updated by compare-and-swap, so a conditional update is one step here, as \<^theory_text>\<open>BlobStore\<close> justifies.
  Several decisions and runners act on one manifest; the theorems are about every order of their steps.
\<close>

section \<open>The callbacks\<close>

definition load_json :: "blob \<Rightarrow> json res" where
  "load_json b = (case loads b of None \<Rightarrow> Inl (Raise ValueErr ''invalid JSON'') | Some j \<Rightarrow> Inr j)"

record decision_request =
  rq_call :: decision_call
  rq_script_sha :: "string option"
  rq_manifest_sha :: "string option"

text \<open>\<open>status not in {None, "awaiting_review"}\<close>.\<close>

definition already_requested :: "json \<Rightarrow> bool res" where
  "already_requested status = (case status of
       JNull \<Rightarrow> Inr False
     | JStr s \<Rightarrow> Inr (s \<noteq> ''awaiting_review'')
     | JList _ \<Rightarrow> Inl (Raise TypeErr ''unhashable type'')
     | JObj _ \<Rightarrow> Inl (Raise TypeErr ''unhashable type'')
     | _ \<Rightarrow> Inr True)"

text \<open>The digests that the reviewer names are those of the snapshot.\<close>

definition names_digest :: "string option \<Rightarrow> json \<Rightarrow> bool" where
  "names_digest sha v \<longleftrightarrow> (case sha of None \<Rightarrow> False | Some s \<Rightarrow> s \<noteq> [] \<and> v = JStr s)"

definition check_dispatch :: "decision_request \<Rightarrow> dict \<Rightarrow> dict \<Rightarrow> unit res" where
  "check_dispatch rq m generation =
     and_then (attr_dict (dget_or generation ''synthesis_queue'' (JObj []))) (\<lambda>queue.
     and_then (already_requested (dget queue ''status'')) (\<lambda>requested.
     if requested then Inl (unbound ''dispatch already requested; reconciliation required, not retry'')
     else
       and_then (attr_dict (dget_or m ''review'' (JObj []))) (\<lambda>r. case dget r ''snapshot'' of
         JObj snapshot \<Rightarrow>
           (if \<not> names_digest (rq_script_sha rq) (dget snapshot ''script_sha256'')
               \<or> \<not> names_digest (rq_manifest_sha rq) (dget snapshot ''manifest_sha256'')
            then Inl (unbound ''script_sha256 and manifest_sha256 must match review.snapshot'')
            else if \<not> dc_confirmed (rq_call rq) then Inl (unbound ''explicit script/artifact review checks are required'')
            else Inr ())
       | _ \<Rightarrow> Inl (unbound ''missing exact-content review snapshot''))))"

text \<open>The approval is bound to the snapshot: the binding is stored and enters the audit trail.\<close>

definition bind_approval :: "decision_call \<Rightarrow> dict \<Rightarrow> dict res" where
  "bind_approval a m =
     and_then (and_then (dindex m ''review'') as_dict) (\<lambda>r.
     and_then (and_then (dindex r ''synthesis_approval'') as_dict) (\<lambda>approval.
     and_then (and_then (dindex r ''snapshot'') as_dict) (\<lambda>snapshot.
     and_then (dindex approval ''provider_authorization'') (\<lambda>au.
     let binding = JObj (dupdate snapshot [(''reviewer'', JStr (dc_reviewer a)), (''reviewed_at'', JStr (dc_reviewed_at a)),
           (''decision'', JStr (dc_decision a)), (''scope'', JStr ''pre_tts''), (''provider_authorization'', au),
           (''review_checks_confirmed'', JBool True)])
     in and_then (dindex approval ''audit_trail'') (\<lambda>trail. case trail of
          JList xs \<Rightarrow>
            Inr (dset ''review'' (JObj (dset ''synthesis_approval''
              (JObj (dset ''audit_trail'' (JList (xs @ [binding])) (dset ''binding'' binding approval))) r)) m)
        | _ \<Rightarrow> Inl (Raise AttributeErr ''append''))))))"

definition dispatch_intent :: "string \<Rightarrow> string \<Rightarrow> json" where
  "dispatch_intent dispatch moment = JObj [(''status'', JStr ''dispatching''), (''dispatch_id'', JStr dispatch),
     (''requested_at'', JStr moment), (''enqueued_at'', JNull), (''detail'', JStr ''dispatch intent consumed; never blindly retry'')]"

definition consume_intent :: "reviewing \<Rightarrow> reader \<Rightarrow> string \<Rightarrow> decision_call \<Rightarrow> string \<Rightarrow> dict \<Rightarrow> dict res" where
  "consume_intent R read job a dispatch m =
     and_then (bind_approval a m) (\<lambda>m1.
     and_then (validate_review_snapshot R read job (JObj m1)) (\<lambda>_.
     and_then (validate_review_binding (JObj m1)) (\<lambda>_.
     and_then (and_then (dindex m1 ''generation'') as_dict) (\<lambda>g.
     Inr (dset ''generation'' (JObj (dset ''synthesis_queue'' (dispatch_intent dispatch (dc_reviewed_at a)) g)) m1)))))"

definition decide :: "reviewing \<Rightarrow> reader \<Rightarrow> string \<Rightarrow> decision_request \<Rightarrow> string \<Rightarrow> dict \<Rightarrow> dict res" where
  "decide R read job rq dispatch m =
     and_then (attr_dict (dget_or m ''request'' (JObj []))) (\<lambda>request.
     if truthy (dget request ''dry_run'') \<or> ends_with ''-dry-run'' job
     then Inl (unbound ''dry-run artifacts cannot be approved or adopted'')
     else
       and_then (attr_dict (dget_or m ''generation'' (JObj []))) (\<lambda>generation.
       let dispatching = (dget generation ''audio_mode'' \<noteq> JStr ''synthesized'' \<and> approved (rq_call rq))
       in and_then (if dispatching then check_dispatch rq m generation else Inr ()) (\<lambda>_.
          and_then (apply_review_decision m (rq_call rq)) (\<lambda>m1.
          if dispatching then consume_intent R read job (rq_call rq) dispatch m1 else Inr m1))))"

definition record_callback :: "reviewing \<Rightarrow> reader \<Rightarrow> string \<Rightarrow> decision_request \<Rightarrow> string \<Rightarrow> unit callback" where
  "record_callback R read job rq dispatch u current = ((), case current of
       None \<Rightarrow> Inl (Raise ValueErr ''no manifest found'')
     | Some b \<Rightarrow> and_then (load_json b) (\<lambda>j. case j of
         JObj m \<Rightarrow> and_then (decide R read job rq dispatch m) (\<lambda>m'. Inr (Doc (JObj m')))
       | _ \<Rightarrow> Inl (unbound ''invalid staged manifest'')))"

text \<open>\<open>load_manifest\<close>, and the test after the update that this call is the one to send.\<close>

definition load_manifest :: "blob option \<Rightarrow> dict res" where
  "load_manifest current = (case current of
       None \<Rightarrow> Inl (Raise ValueErr ''no manifest found'')
     | Some b \<Rightarrow> and_then (load_json b) (\<lambda>j. case j of
         JObj m \<Rightarrow> Inr m | _ \<Rightarrow> Inl (Raise ValueErr ''manifest is not a JSON object'')))"

definition must_send :: "string \<Rightarrow> dict \<Rightarrow> bool res" where
  "must_send dispatch m =
     and_then (attr_dict (dget_or m ''generation'' (JObj []))) (\<lambda>g.
     and_then (attr_dict (dget_or g ''synthesis_queue'' (JObj []))) (\<lambda>q.
     Inr (dget q ''dispatch_id'' = JStr dispatch)))"

text \<open>What became of the message: sent, no queue configured, or an exception.\<close>

datatype send_outcome = Sent | NotConfigured | SendRaised

fun send_status :: "send_outcome \<Rightarrow> string" where
  "send_status Sent = ''enqueued''"
| "send_status NotConfigured = ''not_configured''"
| "send_status SendRaised = ''unknown''"

definition finish_dispatch :: "string \<Rightarrow> string \<Rightarrow> string \<Rightarrow> unit callback" where
  "finish_dispatch dispatch status moment u current = ((), case current of
       None \<Rightarrow> Inl (unbound ''dispatch manifest missing; reconciliation required'')
     | Some b \<Rightarrow>
         and_then (load_json b) (\<lambda>j.
         and_then (and_then (as_dict j) (\<lambda>m. and_then (dindex m ''generation'') (\<lambda>g.
           and_then (as_dict g) (\<lambda>g. Inr (m, g))))) (\<lambda>(m, g).
         and_then (and_then (dindex g ''synthesis_queue'') attr_dict) (\<lambda>state.
         if dget state ''dispatch_id'' \<noteq> JStr dispatch then Inl (unbound ''dispatch ownership changed; reconciliation required'')
         else
           (let state' = dset ''detail'' (if status = ''enqueued'' then JNull
                  else JStr ''dispatch blocked; operator reconciliation required'')
                  (dset ''enqueued_at'' (if status = ''enqueued'' then JStr moment else JNull)
                  (dset ''status'' (JStr status) state))
            in Inr (Doc (JObj (dset ''generation'' (JObj (dset ''synthesis_queue'' (JObj state') g)) m))))))))"

section \<open>The claim of the runner\<close>

definition dispatch_usable :: "dict \<Rightarrow> dict \<Rightarrow> bool res" where
  "dispatch_usable generation queue =
     (if dget generation ''synthesis_claim'' \<noteq> JNull \<or> \<not> truthy (dget queue ''dispatch_id'') then Inr False
      else case dget queue ''status'' of
             JStr s \<Rightarrow> Inr (s \<in> {''dispatching'', ''enqueued'', ''unknown''})
           | JList _ \<Rightarrow> Inl (Raise TypeErr ''unhashable type'')
           | JObj _ \<Rightarrow> Inl (Raise TypeErr ''unhashable type'')
           | _ \<Rightarrow> Inr False)"

definition start_claim :: "reviewing \<Rightarrow> string \<Rightarrow> string \<Rightarrow> dict \<Rightarrow> dict res" where
  "start_claim R claim moment m =
     and_then (and_then (dindex m ''generation'') as_dict) (\<lambda>g.
     and_then (and_then (dindex g ''synthesis_queue'') attr_dict) (\<lambda>queue.
     and_then (dispatch_usable g queue) (\<lambda>usable.
     if \<not> usable then Inl (unbound ''synthesis dispatch consumed or ambiguous; never retry TTS'')
     else
       and_then (dindex queue ''dispatch_id'') (\<lambda>dispatch.
       and_then (and_then (and_then (and_then (dindex m ''review'') (\<lambda>r. sub r ''synthesis_approval''))
         (\<lambda>s. sub s ''binding'')) (\<lambda>bd. sub bd ''manifest_sha256'')) (\<lambda>sha.
       and_then (private_media_input_sha256 R m) (\<lambda>input.
       Inr (dset ''generation'' (JObj (dset ''synthesis_claim''
         (JObj [(''status'', JStr ''started''), (''claim_id'', JStr claim), (''dispatch_id'', dispatch), (''started_at'', JStr moment),
                (''manifest_sha256'', sha), (''review_input_sha256'', JStr input)]) g)) m)))))))"

definition claim_synthesis :: "reviewing \<Rightarrow> reader \<Rightarrow> string \<Rightarrow> string \<Rightarrow> string \<Rightarrow> unit callback" where
  "claim_synthesis R read job claim moment u current = ((), case current of
       None \<Rightarrow> Inl (unbound ''missing staged manifest'')
     | Some b \<Rightarrow>
         and_then (load_json b) (\<lambda>j.
         and_then (validate_review_snapshot R read job j) (\<lambda>_.
         and_then (validate_review_binding j) (\<lambda>_.
         and_then (as_dict j) (\<lambda>m.
         and_then (start_claim R claim moment m) (\<lambda>m'. Inr (Doc (JObj m'))))))))"

section \<open>What the callbacks change\<close>

text \<open>The part of the manifest that decides about the dispatch.\<close>

definition manifest_field :: "blob option \<Rightarrow> string list \<Rightarrow> json" where
  "manifest_field b ps = (case b of Some (Doc j) \<Rightarrow> lookup j ps | _ \<Rightarrow> JNull)"

definition intent_of :: "blob option \<Rightarrow> json" where
  "intent_of b = manifest_field b [''generation'', ''synthesis_queue'', ''dispatch_id'']"

definition consumed :: "blob option \<Rightarrow> bool" where
  "consumed b \<longleftrightarrow> manifest_field b [''generation'', ''synthesis_queue'', ''status''] \<notin> {JNull, JStr ''awaiting_review''}"

definition claimed :: "blob option \<Rightarrow> bool" where
  "claimed b \<longleftrightarrow> manifest_field b [''generation'', ''synthesis_claim''] \<noteq> JNull"

lemma load_json_Inr: "load_json b = Inr j \<longleftrightarrow> b = Doc j"
  by (cases b) (auto simp: load_json_def)

lemma json_dict_Inr: "(case j of JObj d \<Rightarrow> f d | _ \<Rightarrow> Inl e) = Inr x \<longleftrightarrow> (\<exists>d. j = JObj d \<and> f d = Inr x)"
  by (cases j) auto

lemma json_list_Inr: "(case j of JList xs \<Rightarrow> f xs | _ \<Rightarrow> Inl e) = Inr x \<longleftrightarrow> (\<exists>xs. j = JList xs \<and> f xs = Inr x)"
  by (cases j) auto

lemma as_dict_Inr: "as_dict j = Inr d \<longleftrightarrow> j = JObj d" "attr_dict j = Inr d \<longleftrightarrow> j = JObj d"
  by (auto simp: as_dict_def attr_dict_def split: json.splits)

lemma dindex_Inr: "dindex d k = Inr v \<longleftrightarrow> map_of d k = Some v"
  by (auto simp: dindex_def split: option.splits)

lemma field_Doc: "manifest_field (Some (Doc j)) ps = lookup j ps"
  by (simp add: manifest_field_def)

lemma already_requested_Inr: "already_requested v = Inr False \<longleftrightarrow> v \<in> {JNull, JStr ''awaiting_review''}"
  by (cases v) (auto simp: already_requested_def)

lemma lookup_default: "dget_or d k (JObj []) = JObj e \<Longrightarrow> lookup (JObj d) [k, p] = dget e p"
  by (auto simp: dget_or_def dget_def split: option.splits)

lemma bind_approval_Inr: "bind_approval a m = Inr m' \<Longrightarrow> \<exists>r. m' = dset ''review'' (JObj r) m"
  by (auto simp: bind_approval_def Let_def and_then_Inr_conv json_list_Inr)

lemma consume_intent_Inr:
  assumes "consume_intent R read job a d m = Inr m'"
  shows "lookup (JObj m') [''generation'', ''synthesis_queue''] = dispatch_intent d (dc_reviewed_at a)
    \<and> lookup (JObj m') [''generation'', ''synthesis_claim''] = lookup (JObj m) [''generation'', ''synthesis_claim'']"
  using assms
  by (auto simp: consume_intent_def and_then_Inr_conv as_dict_Inr dindex_Inr lookup_dget dget_def dest!: bind_approval_Inr
      simp del: lookup.simps(2))

text \<open>A recorded decision leaves the dispatch alone, or consumes the intent of a manifest that has none.\<close>

lemma decide_Inr:
  assumes "decide R read job rq d m = Inr m'"
  shows "lookup (JObj m') [''generation'', ''synthesis_claim''] = lookup (JObj m) [''generation'', ''synthesis_claim'']
    \<and> ((\<forall>ps. lookup (JObj m') (''generation'' # ''synthesis_queue'' # ps) = lookup (JObj m) (''generation'' # ''synthesis_queue'' # ps))
       \<or> \<not> consumed (Some (Doc (JObj m))) \<and> intent_of (Some (Doc (JObj m'))) = JStr d \<and> consumed (Some (Doc (JObj m'))))"
proof -
  obtain g m1 where g: "dget_or m ''generation'' (JObj []) = JObj g"
    and checked: "dget g ''audio_mode'' \<noteq> JStr ''synthesized'' \<and> approved (rq_call rq) \<longrightarrow> check_dispatch rq m g = Inr ()"
    and m1: "apply_review_decision m (rq_call rq) = Inr m1"
    and m': "(if dget g ''audio_mode'' \<noteq> JStr ''synthesized'' \<and> approved (rq_call rq)
      then consume_intent R read job (rq_call rq) d m1 else Inr m1) = Inr m'"
    using assms by (fastforce simp: decide_def Let_def and_then_Inr_conv as_dict_Inr split: if_splits)
  note kept = decision_keeps_generation [OF m1]
  show ?thesis
  proof (cases "dget g ''audio_mode'' \<noteq> JStr ''synthesized'' \<and> approved (rq_call rq)")
    case True
    then have after: "consume_intent R read job (rq_call rq) d m1 = Inr m'" using m' by simp
    obtain q where q: "dget_or g ''synthesis_queue'' (JObj []) = JObj q" "dget q ''status'' \<in> {JNull, JStr ''awaiting_review''}"
      using checked True by (auto simp: check_dispatch_def and_then_Inr_conv as_dict_Inr already_requested_Inr split: if_splits)
    have "lookup (JObj m) [''generation'', ''synthesis_queue'', ''status''] = dget q ''status''"
      using section_lookup [OF g, of "''synthesis_queue''" "[''status'']"] lookup_default [OF q(1), of "''status''"] by simp
    then have "\<not> consumed (Some (Doc (JObj m)))" using q(2) by (auto simp: consumed_def field_Doc)
    moreover have "lookup (JObj m') [''generation'', ''synthesis_queue'', p] = lookup (dispatch_intent d (dc_reviewed_at (rq_call rq))) [p]" for p
      using consume_intent_Inr [OF after] lookup_append [of "JObj m'" "[''generation'', ''synthesis_queue'']" "[p]"]
      by (simp del: lookup.simps(2))
    ultimately show ?thesis
      using consume_intent_Inr [OF after] kept [of "''synthesis_claim''" "[]"]
      by (simp add: intent_of_def consumed_def field_Doc dispatch_intent_def del: lookup.simps(2)) simp
  next
    case False
    then have "m' = m1" using m' by (auto split: if_splits)
    then show ?thesis using kept [of "''synthesis_claim''" "[]"] kept [of "''synthesis_queue''"] by (simp del: lookup.simps(2))
  qed
qed

text \<open>Recording the outcome of the message keeps the intent consumed; a claim leaves the intent alone.\<close>

lemma finish_Inr:
  assumes "finish_dispatch d (send_status oc) moment u (Some b) = (u', Inr b')"
  shows "manifest_field (Some b') [''generation'', ''synthesis_claim''] = manifest_field (Some b) [''generation'', ''synthesis_claim'']
    \<and> intent_of (Some b') = intent_of (Some b) \<and> consumed (Some b')"
proof -
  obtain m g q where b: "b = Doc (JObj m)" "map_of m ''generation'' = Some (JObj g)" "map_of g ''synthesis_queue'' = Some (JObj q)"
    and b': "b' = Doc (JObj (dset ''generation'' (JObj (dset ''synthesis_queue''
      (JObj (dset ''detail'' (if send_status oc = ''enqueued'' then JNull else JStr ''dispatch blocked; operator reconciliation required'')
        (dset ''enqueued_at'' (if send_status oc = ''enqueued'' then JStr moment else JNull)
        (dset ''status'' (JStr (send_status oc)) q)))) g)) m))"
    using assms
    by (auto simp: finish_dispatch_def Let_def and_then_Inr_conv load_json_Inr as_dict_Inr dindex_Inr split: if_splits prod.splits)
  have "send_status oc \<noteq> ''awaiting_review''" by (cases oc) auto
  then show ?thesis by (simp add: b b' intent_of_def consumed_def field_Doc)
qed

lemma claim_Inr:
  assumes "claim_synthesis R read job c moment u (Some b) = (u', Inr b')"
  shows "\<not> claimed (Some b) \<and> claimed (Some b')
    \<and> (\<forall>ps. manifest_field (Some b') (''generation'' # ''synthesis_queue'' # ps) = manifest_field (Some b) (''generation'' # ''synthesis_queue'' # ps))"
proof -
  obtain m g q v where b: "b = Doc (JObj m)" "map_of m ''generation'' = Some (JObj g)" "dispatch_usable g q = Inr True"
    and b': "b' = Doc (JObj (dset ''generation'' (JObj (dset ''synthesis_claim'' (JObj v) g)) m))"
    using assms
    by (auto simp: claim_synthesis_def start_claim_def and_then_Inr_conv load_json_Inr as_dict_Inr dindex_Inr split: if_splits)
  have "dget g ''synthesis_claim'' = JNull" using b(3) by (auto simp: dispatch_usable_def split: if_splits)
  then show ?thesis by (auto simp: b b' claimed_def field_Doc dget_def split: option.splits)
qed

section \<open>Every order of the steps\<close>

text \<open>
  The stored manifest, the identifiers handed out so far (\<open>uuid4\<close> never repeats one), the calls of
  \<open>process_review_decision\<close> that recorded a decision, the messages that were tried, and the runners that
  hold a claim.
\<close>

record desk =
  dk_manifest :: "blob option"
  dk_used :: "string set"
  dk_calls :: "string set"
  dk_sent :: "string list"
  dk_claims :: "string list"

text \<open>What every other writer of the manifest respects.\<close>

definition others_respect :: "blob option \<Rightarrow> blob option \<Rightarrow> bool" where
  "others_respect old new \<longleftrightarrow>
     (consumed old \<longrightarrow> consumed new \<and> intent_of new = intent_of old) \<and> intent_of new \<in> {intent_of old, JNull}
     \<and> (claimed old \<longrightarrow> claimed new)"

inductive desk_step :: "reviewing \<Rightarrow> string \<Rightarrow> desk \<Rightarrow> desk \<Rightarrow> bool" for R :: reviewing and job :: string where
  Decide: "d \<notin> dk_used s \<Longrightarrow> record_callback R read job rq d () (dk_manifest s) = ((), Inr b) \<Longrightarrow>
    desk_step R job s (s\<lparr>dk_manifest := Some b, dk_used := insert d (dk_used s), dk_calls := insert d (dk_calls s)\<rparr>)"
| Send: "d \<in> dk_calls s \<Longrightarrow> d \<notin> set (dk_sent s) \<Longrightarrow> load_manifest (dk_manifest s) = Inr m \<Longrightarrow> must_send d m = Inr True \<Longrightarrow>
    desk_step R job s (s\<lparr>dk_sent := d # dk_sent s\<rparr>)"
| Finish: "d \<in> set (dk_sent s) \<Longrightarrow> finish_dispatch d (send_status oc) moment () (dk_manifest s) = ((), Inr b) \<Longrightarrow>
    desk_step R job s (s\<lparr>dk_manifest := Some b\<rparr>)"
| Claim: "c \<notin> dk_used s \<Longrightarrow> claim_synthesis R read job c moment () (dk_manifest s) = ((), Inr b) \<Longrightarrow>
    desk_step R job s (s\<lparr>dk_manifest := Some b, dk_used := insert c (dk_used s), dk_claims := c # dk_claims s\<rparr>)"
| Other: "others_respect (dk_manifest s) new \<Longrightarrow> desk_step R job s (s\<lparr>dk_manifest := new\<rparr>)"

text \<open>Before the first decision: the identifier that an earlier dispatch left in the manifest is used.\<close>

definition untouched :: "desk \<Rightarrow> bool" where
  "untouched s \<longleftrightarrow> dk_calls s = {} \<and> dk_sent s = [] \<and> dk_claims s = [] \<and> (\<forall>d. intent_of (dk_manifest s) = JStr d \<longrightarrow> d \<in> dk_used s)"

definition one_dispatch :: "desk \<Rightarrow> bool" where
  "one_dispatch s \<longleftrightarrow> dk_calls s \<subseteq> dk_used s
     \<and> (\<forall>d. intent_of (dk_manifest s) = JStr d \<longrightarrow> d \<in> dk_used s \<and> (d \<in> dk_calls s \<longrightarrow> consumed (dk_manifest s)))
     \<and> (dk_sent s = [] \<or> (\<exists>d. dk_sent s = [d] \<and> intent_of (dk_manifest s) = JStr d \<and> consumed (dk_manifest s)))
     \<and> (dk_claims s = [] \<or> claimed (dk_manifest s) \<and> (\<exists>c. dk_claims s = [c]))"

lemma untouched_one: "untouched s \<Longrightarrow> one_dispatch s"
  by (simp add: untouched_def one_dispatch_def)

lemma field_JNull: "intent_of None = JNull" "\<not> consumed None" "\<not> claimed None"
  by (simp_all add: intent_of_def consumed_def claimed_def manifest_field_def)

lemma must_send_intent:
  assumes "load_manifest b = Inr m" "must_send d m = Inr True"
  shows "intent_of b = JStr d"
proof -
  have b: "b = Some (Doc (JObj m))"
    using assms(1) by (auto simp: load_manifest_def and_then_Inr_conv load_json_Inr json_dict_Inr split: option.splits)
  obtain g q where "dget_or m ''generation'' (JObj []) = JObj g" "dget_or g ''synthesis_queue'' (JObj []) = JObj q"
      "dget q ''dispatch_id'' = JStr d"
    using assms(2) by (auto simp: must_send_def and_then_Inr_conv as_dict_Inr)
  then show ?thesis
    using section_lookup [of m "''generation''" g "''synthesis_queue''" "[''dispatch_id'']"] lookup_default [of g "''synthesis_queue''" q]
    by (simp add: b intent_of_def field_Doc)
qed

lemma record_Inr:
  assumes "record_callback R read job rq d () b = ((), Inr b')"
  shows "(claimed b \<longrightarrow> claimed (Some b')) \<and> (intent_of (Some b') = intent_of b \<and> consumed (Some b') = consumed b
    \<or> \<not> consumed b \<and> intent_of (Some b') = JStr d \<and> consumed (Some b'))"
proof -
  obtain m m' where m: "b = Some (Doc (JObj m))" "b' = Doc (JObj m')" "decide R read job rq d m = Inr m'"
    using assms by (auto simp: record_callback_def and_then_Inr_conv load_json_Inr json_dict_Inr split: option.splits)
  from decide_Inr [OF m(3)] show ?thesis
    by (auto simp: m(1,2) claimed_def intent_of_def consumed_def field_Doc simp del: lookup.simps(2))
qed

lemma step_one: "desk_step R job s s' \<Longrightarrow> one_dispatch s \<Longrightarrow> one_dispatch s'"
proof (induction rule: desk_step.induct)
  case (Decide d s read rq b)
  then show ?case using record_Inr [OF Decide.hyps(2)] by (auto simp: one_dispatch_def)
next
  case (Send d s m)
  then show ?case using must_send_intent [OF Send.hyps(3,4)] by (auto simp: one_dispatch_def)
next
  case (Finish d s oc moment b)
  then obtain b0 where b0: "dk_manifest s = Some b0" by (cases "dk_manifest s") (auto simp: finish_dispatch_def)
  show ?case using Finish finish_Inr [OF Finish.hyps(2) [unfolded b0]] by (auto simp: one_dispatch_def b0 claimed_def)
next
  case (Claim c s read moment b)
  then obtain b0 where b0: "dk_manifest s = Some b0" by (cases "dk_manifest s") (auto simp: claim_synthesis_def)
  show ?case using Claim claim_Inr [OF Claim.hyps(2) [unfolded b0]]
    by (auto simp: one_dispatch_def b0 intent_of_def consumed_def)
next
  case (Other s new)
  then show ?case by (auto simp: one_dispatch_def others_respect_def)
qed

text \<open>Claim C7: synthesis is dispatched and claimed at most once.  However many reviewers decide about one
  staged manifest, however many runners claim it, and in whatever order their steps interleave with writers
  that respect the dispatch: at most one message is sent, and at most one runner gets the claim.\<close>

theorem synthesis_dispatched_once:
  assumes "(desk_step R job)\<^sup>*\<^sup>* s s'" "untouched s"
  shows "length (dk_sent s') \<le> 1 \<and> length (dk_claims s') \<le> 1"
proof -
  have "one_dispatch s'" using assms(1) untouched_one [OF assms(2)] by (induction rule: rtranclp_induct) (auto intro: step_one)
  then show ?thesis by (auto simp: one_dispatch_def)
qed

section \<open>What a claim rests on\<close>

lemma sub_lookup: "sub j k = Inr v \<Longrightarrow> lookup j (k # ps) = lookup v ps"
  by (auto simp: sub_def and_then_Inr_conv as_dict_Inr dindex_Inr)

lemma dindex_lookup: "dindex d k = Inr v \<Longrightarrow> lookup (JObj d) (k # ps) = lookup v ps"
  by (simp add: dindex_Inr)

text \<open>The script that the snapshot names, and the content that the snapshot names.\<close>

lemma snapshot_Inr:
  assumes "validate_review_snapshot R read job (JObj m) = Inr script"
  obtains x h where "script = Some x" "read (script_path job) = Inr (Some x)"
    "lookup (JObj m) [''review'', ''snapshot'', ''script_sha256''] = JStr (rv_checksum R x)"
    "content_snapshot_sha256 R m = Inr h" "lookup (JObj m) [''review'', ''snapshot'', ''manifest_sha256''] = JStr h"
    "lookup (JObj m) [''request'', ''dry_run''] = JBool False"
    "cost_gate_blockers (dget m ''cost_ledger'') = Inr []" "provider_authorization_blockers m = Inr []"
proof -
  obtain request generation review snapshot where parts:
      "dindex m ''request'' = Inr request" "dindex m ''review'' = Inr review" "sub review ''snapshot'' = Inr snapshot"
      "read (script_path job) = Inr script" "snapshot_changed R m job script request generation snapshot = Inr False"
      "snapshot_blockers m generation = Inr []"
    using assms by (auto simp: validate_review_snapshot_def and_then_Inr_conv split: if_splits)
  note unchanged = parts(5) [unfolded snapshot_changed_def any_res_False, simplified, unfolded and_then_Inr_conv]
  obtain x where x: "script = Some x" using unchanged by (auto simp: no_bytes_def)
  have dry: "sub request ''dry_run'' = Inr (JBool False)" using unchanged by auto
  have sha: "sub snapshot ''script_sha256'' = Inr (JStr (rv_checksum R x))"
    using unchanged by (auto simp: checksum_differs_def x)
  obtain h where h: "content_snapshot_sha256 R m = Inr h" "sub snapshot ''manifest_sha256'' = Inr (JStr h)"
    using unchanged by (auto simp: and_then_Inr_conv)
  have gates: "cost_gate_blockers (dget m ''cost_ledger'') = Inr []" "provider_authorization_blockers m = Inr []"
    using parts(6) by (auto simp: snapshot_blockers_def and_then_Inr_conv)
  show ?thesis
    by (rule that [OF x _ _ h(1) _ _ gates])
      (use parts(4) x sub_lookup [OF parts(3)] sub_lookup [OF sha] sub_lookup [OF h(2)] sub_lookup [OF dry]
        dindex_lookup [OF parts(1)] dindex_lookup [OF parts(2)] in \<open>simp_all del: lookup.simps(2)\<close>)
qed

text \<open>The person who approved, and the digests that were approved.\<close>

lemma binding_person:
  assumes "validate_review_binding (JObj m) = Inr u"
  obtains r where "\<not> not_a_person (JStr r)"
    "lookup (JObj m) [''review'', ''synthesis_approval'', ''binding'', ''reviewer''] = JStr r"
proof -
  obtain publication review binding where parts:
      "dindex m ''review'' = Inr publication" "sub publication ''synthesis_approval'' = Inr review"
      "sub review ''binding'' = Inr binding" "not_approved m publication review binding = Inr False"
    using assms(1) by (auto simp: validate_review_binding_def and_then_Inr_conv split: if_splits)
  note bound = parts(4) [unfolded not_approved_def any_res_False, simplified, unfolded differ_def and_then_Inr_conv]
  obtain v where v: "sub review ''approved_by'' = Inr v" "\<not> not_a_person v" "differ binding ''reviewer'' review ''approved_by'' = Inr False"
    using bound by (auto simp: differ_def and_then_Inr_conv)
  then obtain r where r: "v = JStr r" by (auto simp: not_a_person_def split: json.splits)
  have reviewer: "sub binding ''reviewer'' = Inr (JStr r)" using v r by (auto simp: differ_def and_then_Inr_conv)
  show ?thesis
  proof (rule that)
    show "\<not> not_a_person (JStr r)" using v(2) r by simp
    show "lookup (JObj m) [''review'', ''synthesis_approval'', ''binding'', ''reviewer''] = JStr r"
      using dindex_lookup [OF parts(1), of "[''synthesis_approval'', ''binding'', ''reviewer'']"]
        sub_lookup [OF parts(2), of "[''binding'', ''reviewer'']"] sub_lookup [OF parts(3), of "[''reviewer'']"]
        sub_lookup [OF reviewer, of "[]"]
      by simp
  qed
qed

lemma binding_digest:
  assumes "validate_review_binding (JObj m) = Inr u" "k \<in> {''script_sha256'', ''manifest_sha256''}"
    "lookup (JObj m) [''review'', ''snapshot'', k] = JStr s"
  shows "lookup (JObj m) [''review'', ''synthesis_approval'', ''binding'', k] = JStr s"
proof -
  obtain publication review binding where parts:
      "dindex m ''review'' = Inr publication" "sub publication ''synthesis_approval'' = Inr review"
      "sub review ''binding'' = Inr binding" "not_approved m publication review binding = Inr False"
    using assms(1) by (auto simp: validate_review_binding_def and_then_Inr_conv split: if_splits)
  note bound = parts(4) [unfolded not_approved_def any_res_False, simplified, unfolded differ_def and_then_Inr_conv]
  have "\<exists>x y w. sub binding k = Inr x \<and> sub publication ''snapshot'' = Inr y \<and> sub y k = Inr w \<and> json_same x w"
  proof (cases "k = ''script_sha256''")
    case True
    then show ?thesis using bound by (auto simp: and_then_Inr_conv)
  next
    case False
    then have "k = ''manifest_sha256''" using assms(2) by simp
    then show ?thesis using bound by (auto simp: and_then_Inr_conv)
  qed
  then obtain x y w where same: "sub binding k = Inr x" "sub publication ''snapshot'' = Inr y" "sub y k = Inr w" "json_same x w"
    by blast
  have "w = JStr s"
    using assms(3) dindex_lookup [OF parts(1), of "[''snapshot'', k]"] sub_lookup [OF same(2), of "[k]"] sub_lookup [OF same(3), of "[]"]
    by simp
  then have "sub binding k = Inr (JStr s)" using same by simp
  then show ?thesis
    using dindex_lookup [OF parts(1), of "[''synthesis_approval'', ''binding'', k]"] sub_lookup [OF parts(2), of "[''binding'', k]"]
      sub_lookup [OF parts(3), of "[k]"] sub_lookup [of binding k "JStr s" "[]"]
    by simp
qed

text \<open>Claim C8: nobody is paid for words that no person approved.  When a runner gets the claim, the stored script
  has the digest that a named person -- not the system -- approved, everything that was shown to that person
  still has the digest that was approved with it, it is no dry run, the cost gate is open and the provider
  gates are.\<close>

theorem claim_rests_on_approval:
  assumes "claim_synthesis R read job c moment () (Some (Doc (JObj m))) = ((), Inr b)"
  shows "\<exists>script h r. read (script_path job) = Inr (Some script) \<and> content_snapshot_sha256 R m = Inr h
    \<and> lookup (JObj m) [''review'', ''synthesis_approval'', ''binding'', ''script_sha256''] = JStr (rv_checksum R script)
    \<and> lookup (JObj m) [''review'', ''synthesis_approval'', ''binding'', ''manifest_sha256''] = JStr h
    \<and> lookup (JObj m) [''review'', ''synthesis_approval'', ''binding'', ''reviewer''] = JStr r \<and> \<not> not_a_person (JStr r)
    \<and> lookup (JObj m) [''request'', ''dry_run''] = JBool False
    \<and> cost_gate_blockers (dget m ''cost_ledger'') = Inr [] \<and> provider_authorization_blockers m = Inr []"
proof -
  obtain script u where valid: "validate_review_snapshot R read job (JObj m) = Inr script" "validate_review_binding (JObj m) = Inr u"
    using assms by (auto simp: claim_synthesis_def and_then_Inr_conv load_json_Inr)
  obtain x h where snap: "script = Some x" "read (script_path job) = Inr (Some x)"
    "lookup (JObj m) [''review'', ''snapshot'', ''script_sha256''] = JStr (rv_checksum R x)"
    "content_snapshot_sha256 R m = Inr h" "lookup (JObj m) [''review'', ''snapshot'', ''manifest_sha256''] = JStr h"
    "lookup (JObj m) [''request'', ''dry_run''] = JBool False"
    "cost_gate_blockers (dget m ''cost_ledger'') = Inr []" "provider_authorization_blockers m = Inr []"
    by (rule snapshot_Inr [OF valid(1)])
  obtain r where person: "\<not> not_a_person (JStr r)"
    "lookup (JObj m) [''review'', ''synthesis_approval'', ''binding'', ''reviewer''] = JStr r"
    by (rule binding_person [OF valid(2)])
  show ?thesis
    by (intro exI [of _ x] exI [of _ h] exI [of _ r] conjI binding_digest [OF valid(2)] snap person; (rule snap)?) simp_all
qed

end
