(* ===== verification/ReviewMedia.thy ===== *)
theory ReviewMedia
  imports ReviewDispatch
begin

text \<open>
  The admission of synthesized audio to the private video (\<open>validate_private_media_inputs\<close> of
  \<open>podcaster/review.py\<close>): audio counts only as the completed synthesis of an approved script.  A media
  file is its bytes; \<open>fetch\<close> is the artifact reader, which may raise.
\<close>

section \<open>Paths\<close>

fun join_with :: "string \<Rightarrow> string list \<Rightarrow> string" where
  "join_with sep [] = []"
| "join_with sep [x] = x"
| "join_with sep (x # xs) = x @ sep @ join_with sep xs"

text \<open>\<open>PurePosixPath(p)\<close>: its parts without the root, and its text.\<close>

definition posix_parts :: "string \<Rightarrow> string list" where
  "posix_parts p = filter (\<lambda>x. x \<noteq> [] \<and> x \<noteq> ''.'') (py_split_on (CHR ''/'') p)"

definition posix_root :: "string \<Rightarrow> string" where
  "posix_root p = (if starts_with ''//'' p \<and> \<not> starts_with ''///'' p then ''//'' else if starts_with ''/'' p then ''/'' else [])"

definition posix_text :: "string \<Rightarrow> string" where
  "posix_text p = (let s = posix_root p @ join_with ''/'' (posix_parts p) in if s = [] then ''.'' else s)"

text \<open>The path is written plainly, inside the directory of the job, with the extension of its kind.\<close>

definition staged_path :: "string \<Rightarrow> string \<Rightarrow> json \<Rightarrow> bool" where
  "staged_path job kind v = (case v of
       JStr p \<Rightarrow> starts_with (''jobs/'' @ job @ ''/'') p \<and> posix_text p = p \<and> ''..'' \<notin> set (posix_parts p)
                 \<and> ends_with (CHR ''.'' # kind) p
     | _ \<Rightarrow> False)"

section \<open>The checks\<close>

type_synonym media_reader = "string \<Rightarrow> json \<Rightarrow> json \<Rightarrow> string option res"

record verified_audio =
  va_path :: string
  va_content :: string

definition unbound_synthesis :: "reviewing \<Rightarrow> dict \<Rightarrow> string \<Rightarrow> blob option \<Rightarrow> json \<Rightarrow> json \<Rightarrow> json \<Rightarrow> bool res" where
  "unbound_synthesis R m job script generation runner claim =
     (let field = (\<lambda>k l. and_then (dindex m k) (\<lambda>v. sub v l));
          snapshot = field ''review'' ''snapshot''
      in any_res
        [and_then (dindex m ''job_id'') (\<lambda>v. Inr (v \<noteq> JStr job)),
         and_then (field ''request'' ''dry_run'') (\<lambda>v. Inr (v \<noteq> JBool False)),
         Inr (ends_with ''-dry-run'' job),
         Inr (no_bytes script),
         and_then (and_then snapshot (\<lambda>s. sub s ''script_sha256'')) (\<lambda>v. Inr (checksum_differs R script v)),
         and_then (sub generation ''audio_mode'') (\<lambda>v. Inr (v \<noteq> JStr ''synthesized'')),
         and_then (sub runner ''status'') (\<lambda>v. Inr (v \<noteq> JStr ''completed'')),
         and_then (sub claim ''status'') (\<lambda>v. Inr (v \<noteq> JStr ''completed'')),
         and_then (sub claim ''dispatch_id'') (\<lambda>v. and_then (sub generation ''synthesis_queue'') (\<lambda>q.
           and_then (sub q ''dispatch_id'') (\<lambda>w. Inr (\<not> json_same v w)))),
         and_then (sub claim ''manifest_sha256'') (\<lambda>v. and_then (and_then snapshot (\<lambda>s. sub s ''manifest_sha256'')) (\<lambda>w.
           Inr (\<not> json_same v w))),
         and_then (sub runner ''review_input_sha256'') (\<lambda>v. and_then (private_media_input_sha256 R m) (\<lambda>h. Inr (v \<noteq> JStr h))),
         differ claim ''review_input_sha256'' runner ''review_input_sha256'',
         Inr (\<not> audio_validation_ready m),
         and_then (cost_gate_blockers (dget m ''cost_ledger'')) (\<lambda>bs. Inr (bs \<noteq> []))])"

text \<open>
  One entry of the proof: \<open>staged\<close> are the artifacts of the manifest.  A size must be an integer proper
  and positive.
\<close>

definition check_media :: "reviewing \<Rightarrow> media_reader \<Rightarrow> string \<Rightarrow> dict \<Rightarrow> string \<Rightarrow> json \<Rightarrow> string res" where
  "check_media R fetch job staged kind artifact =
     and_then (sub artifact ''path'') (\<lambda>path.
     if \<not> staged_path job kind path then Inl (unbound ''synthesized media escapes the staged job'')
     else
       (let p = (case path of JStr s \<Rightarrow> s | _ \<Rightarrow> [])
        in and_then (dindex staged p) (\<lambda>entry.
           and_then (any_res
             [and_then (sub artifact ''size_bytes'') (\<lambda>v. Inr (\<not> is_exact_int v \<or> int_value v \<le> 0)),
              differ entry ''sha256'' artifact ''sha256'',
              differ entry ''size_bytes'' artifact ''size_bytes'']) (\<lambda>bad.
           if bad then Inl (unbound ''staged media does not match complete synthesis proof'')
           else
             and_then (sub artifact ''sha256'') (\<lambda>sha.
             and_then (sub artifact ''size_bytes'') (\<lambda>size.
             and_then (fetch p sha size) (\<lambda>content. case content of
               None \<Rightarrow> Inl (unbound ''synthesized media is missing or changed'')
             | Some c \<Rightarrow>
                 (if c = [] \<or> sha \<noteq> JStr (rv_sha R c) \<or> size \<noteq> JInt (int (length c))
                  then Inl (unbound ''synthesized media is missing or changed'')
                  else Inr c))))))))"

fun check_proofs :: "reviewing \<Rightarrow> media_reader \<Rightarrow> string \<Rightarrow> dict \<Rightarrow> dict \<Rightarrow> string \<Rightarrow> string res" where
  "check_proofs R fetch job staged [] mp3 = Inr mp3"
| "check_proofs R fetch job staged ((kind, artifact) # rest) mp3 =
     and_then (check_media R fetch job staged kind artifact) (\<lambda>c.
     check_proofs R fetch job staged rest (if kind = ''mp3'' then c else mp3))"

definition mp3_paths :: "dict \<Rightarrow> string set" where
  "mp3_paths staged = set (filter (ends_with ''.mp3'') (map fst staged))"

text \<open>
  Artifacts that are not a dictionary fail in the source at the latest when one is looked up; here they
  fail at once, with the same exception.
\<close>

definition admit_audio :: "reviewing \<Rightarrow> reader \<Rightarrow> media_reader \<Rightarrow> string \<Rightarrow> dict \<Rightarrow> verified_audio res" where
  "admit_audio R read fetch job m =
       (and_then (dindex m ''generation'') (\<lambda>generation.
        and_then (sub generation ''synthesis_runner'') (\<lambda>runner.
        and_then (sub generation ''synthesis_claim'') (\<lambda>claim.
        and_then (read (script_path job)) (\<lambda>script.
        and_then (unbound_synthesis R m job script generation runner claim) (\<lambda>bad.
        if bad then Inl (unbound ''completed synthesis is not bound to reviewed inputs'')
        else
          and_then (sub runner ''audio'') (\<lambda>audio.
          and_then (sub audio ''artifacts'') (\<lambda>proofs. case proofs of
            JObj ps \<Rightarrow>
              (if set (map fst ps) \<noteq> {''mp3'', ''wav''} then Inl (unbound ''complete MP3 and WAV synthesis proof is required'')
               else
                 and_then (dindex ps ''mp3'') (\<lambda>selected.
                 and_then (any_res (map (\<lambda>f. differ audio f selected f) [''path'', ''sha256'', ''size_bytes''])) (\<lambda>other.
                 if other then Inl (unbound ''selected audio does not match synthesis proof'')
                 else
                   and_then (and_then (dindex m ''artifacts'') as_dict) (\<lambda>staged.
                   and_then (sub selected ''path'') (\<lambda>v. case v of
                     JStr path \<Rightarrow>
                       (if mp3_paths staged \<noteq> {path} then Inl (unbound ''synthesized MP3 selection is missing or ambiguous'')
                        else and_then (check_proofs R fetch job staged ps []) (\<lambda>mp3. Inr \<lparr>va_path = path, va_content = mp3\<rparr>))
                   | _ \<Rightarrow> Inl (unbound ''synthesized MP3 selection is missing or ambiguous''))))))
          | _ \<Rightarrow> Inl (unbound ''complete MP3 and WAV synthesis proof is required'')))))))))"

definition validate_private_media_inputs :: "reviewing \<Rightarrow> reader \<Rightarrow> media_reader \<Rightarrow> string \<Rightarrow> dict \<Rightarrow> verified_audio res" where
  "validate_private_media_inputs R read fetch job m =
     rebound [KeyErr, TypeErr, AttributeErr] (unbound ''missing completed synthesis continuation proof'')
       (and_then (validate_review_binding (JObj m)) (\<lambda>_. admit_audio R read fetch job m))"

section \<open>What is admitted\<close>

lemma check_media_Inr:
  assumes "check_media R fetch job staged kind artifact = Inr c"
  obtains p where "sub artifact ''path'' = Inr (JStr p)" "staged_path job kind (JStr p)"
    "fetch p (JStr (rv_sha R c)) (JInt (int (length c))) = Inr (Some c)" "c \<noteq> []"
    "sub artifact ''sha256'' = Inr (JStr (rv_sha R c))" "lookup (JObj staged) [p, ''sha256''] = JStr (rv_sha R c)"
    "sub artifact ''size_bytes'' = Inr (JInt (int (length c)))" "json_same (lookup (JObj staged) [p, ''size_bytes'']) (JInt (int (length c)))"
proof -
  obtain v where v: "sub artifact ''path'' = Inr v" "staged_path job kind v"
    using assms by (auto simp: check_media_def and_then_Inr_conv split: if_splits)
  then obtain p where p: "v = JStr p" by (auto simp: staged_path_def split: json.splits)
  obtain entry sha size content where rest: "dindex staged p = Inr entry" "sub artifact ''sha256'' = Inr sha"
      "differ entry ''sha256'' artifact ''sha256'' = Inr False" "differ entry ''size_bytes'' artifact ''size_bytes'' = Inr False"
      "sub artifact ''size_bytes'' = Inr size"
      "fetch p sha size = Inr (Some content)" "content \<noteq> []" "sha = JStr (rv_sha R content)" "size = JInt (int (length content))" "content = c"
    using assms v unfolding p
    by (auto simp: check_media_def Let_def and_then_Inr_conv any_res_False split: if_splits option.splits)
  have "sub entry ''sha256'' = Inr (JStr (rv_sha R c))" using rest(2,3,8,10) by (auto simp: differ_def and_then_Inr_conv)
  then have sha: "lookup (JObj staged) [p, ''sha256''] = JStr (rv_sha R c)"
    using dindex_lookup [OF rest(1), of "[''sha256'']"] sub_lookup [of entry "''sha256''" "JStr (rv_sha R c)" "[]"] by simp
  obtain n where "sub entry ''size_bytes'' = Inr n" "json_same n (JInt (int (length c)))"
    using rest(4,5,9,10) by (auto simp: differ_def and_then_Inr_conv)
  then have "json_same (lookup (JObj staged) [p, ''size_bytes'']) (JInt (int (length c)))"
    using dindex_lookup [OF rest(1), of "[''size_bytes'']"] sub_lookup [of entry "''size_bytes''" n "[]"] by simp
  then show ?thesis using that v p rest sha by (simp del: lookup.simps(2))
qed

lemma check_proofs_mp3:
  assumes "check_proofs R fetch job staged ps c0 = Inr c" "distinct (map fst ps)" "map_of ps ''mp3'' = Some artifact"
  shows "check_media R fetch job staged ''mp3'' artifact = Inr c"
proof -
  have kept: "check_proofs R fetch job staged qs d = Inr c \<Longrightarrow> ''mp3'' \<notin> set (map fst qs) \<Longrightarrow> d = c" for qs d
    by (induction qs arbitrary: d) (auto simp: and_then_Inr_conv)
  show ?thesis
    using assms
  proof (induction ps arbitrary: c0)
    case (Cons q qs)
    obtain kind a where q: "q = (kind, a)" by fastforce
    show ?case
      using Cons kept [of qs] by (cases "kind = ''mp3''") (auto simp: q and_then_Inr_conv)
  qed simp
qed

text \<open>Claim C9: private video uses reviewed audio only.  Audio that is admitted is the file that the proof of the
  synthesis names, lies inside the directory of its job, and its bytes have the digest and the size that this proof
  records and that the artifacts of the manifest list.  The synthesis and the claim of its dispatch are completed,
  the synthesis ran on the reviewed inputs that the manifest still has, and the stored script has the digest
  that a named person approved.  (The keys of the proof are distinct, as in every dictionary.)\<close>

theorem admitted_audio_is_reviewed:
  assumes "validate_private_media_inputs R read fetch job m = Inr va"
    and "\<forall>ps. lookup (JObj m) [''generation'', ''synthesis_runner'', ''audio'', ''artifacts''] = JObj ps \<longrightarrow> distinct (map fst ps)"
  shows "\<exists>script r. read (script_path job) = Inr (Some script)
    \<and> lookup (JObj m) [''review'', ''synthesis_approval'', ''binding'', ''script_sha256''] = JStr (rv_checksum R script)
    \<and> lookup (JObj m) [''review'', ''synthesis_approval'', ''binding'', ''reviewer''] = JStr r \<and> \<not> not_a_person (JStr r)
    \<and> lookup (JObj m) [''generation'', ''synthesis_runner'', ''status''] = JStr ''completed''
    \<and> lookup (JObj m) [''generation'', ''synthesis_claim'', ''status''] = JStr ''completed''
    \<and> (\<exists>h. private_media_input_sha256 R m = Inr h
         \<and> lookup (JObj m) [''generation'', ''synthesis_runner'', ''review_input_sha256''] = JStr h)
    \<and> (let proof = (\<lambda>k. lookup (JObj m) [''generation'', ''synthesis_runner'', ''audio'', ''artifacts'', ''mp3'', k])
         in proof ''path'' = JStr (va_path va) \<and> proof ''sha256'' = JStr (rv_sha R (va_content va))
            \<and> proof ''size_bytes'' = JInt (int (length (va_content va))))
    \<and> staged_path job ''mp3'' (JStr (va_path va))
    \<and> fetch (va_path va) (JStr (rv_sha R (va_content va))) (JInt (int (length (va_content va)))) = Inr (Some (va_content va))
    \<and> lookup (JObj m) [''artifacts'', va_path va, ''sha256''] = JStr (rv_sha R (va_content va))
    \<and> json_same (lookup (JObj m) [''artifacts'', va_path va, ''size_bytes'']) (JInt (int (length (va_content va))))"
proof -
  obtain u generation runner claim script audio ps selected staged path mp3 where parts:
      "validate_review_binding (JObj m) = Inr u" "dindex m ''generation'' = Inr generation"
      "sub generation ''synthesis_runner'' = Inr runner" "sub generation ''synthesis_claim'' = Inr claim"
      "read (script_path job) = Inr script" "unbound_synthesis R m job script generation runner claim = Inr False"
      "sub runner ''audio'' = Inr audio" "sub audio ''artifacts'' = Inr (JObj ps)" "dindex ps ''mp3'' = Inr selected"
      "dindex m ''artifacts'' = Inr (JObj staged)" "sub selected ''path'' = Inr (JStr path)"
      "check_proofs R fetch job staged ps [] = Inr mp3" "va = \<lparr>va_path = path, va_content = mp3\<rparr>"
    using assms(1)
    by (auto simp: validate_private_media_inputs_def admit_audio_def and_then_Inr_conv json_dict_Inr as_dict_Inr split: if_splits json.splits)
  note bound = parts(6) [unfolded unbound_synthesis_def Let_def any_res_False, simplified, unfolded and_then_Inr_conv]
  obtain x where x: "script = Some x" using bound by (auto simp: no_bytes_def)
  obtain review snapshot where sha: "dindex m ''review'' = Inr review" "sub review ''snapshot'' = Inr snapshot"
      "sub snapshot ''script_sha256'' = Inr (JStr (rv_checksum R x))"
    using bound by (auto simp: checksum_differs_def x and_then_Inr_conv)
  have done_both: "sub runner ''status'' = Inr (JStr ''completed'')" "sub claim ''status'' = Inr (JStr ''completed'')"
    using bound by auto
  have script: "lookup (JObj m) [''review'', ''snapshot'', ''script_sha256''] = JStr (rv_checksum R x)"
    using dindex_lookup [OF sha(1)] sub_lookup [OF sha(2)] sub_lookup [OF sha(3), of "[]"] by simp
  obtain r where person: "\<not> not_a_person (JStr r)" "lookup (JObj m) [''review'', ''synthesis_approval'', ''binding'', ''reviewer''] = JStr r"
    by (rule binding_person [OF parts(1)])
  have bound_script: "lookup (JObj m) [''review'', ''synthesis_approval'', ''binding'', ''script_sha256''] = JStr (rv_checksum R x)"
    by (rule binding_digest [OF parts(1) _ script]) simp
  have "lookup (JObj m) [''generation'', ''synthesis_runner'', ''audio'', ''artifacts''] = JObj ps"
    using dindex_lookup [OF parts(2)] sub_lookup [OF parts(3)] sub_lookup [OF parts(7)] sub_lookup [OF parts(8), of "[]"] by simp
  then have "check_media R fetch job staged ''mp3'' selected = Inr mp3"
    using check_proofs_mp3 [OF parts(12)] parts(9) assms(2) by (simp add: dindex_Inr)
  then obtain p where media: "sub selected ''path'' = Inr (JStr p)" "staged_path job ''mp3'' (JStr p)"
      "fetch p (JStr (rv_sha R mp3)) (JInt (int (length mp3))) = Inr (Some mp3)" "lookup (JObj staged) [p, ''sha256''] = JStr (rv_sha R mp3)"
      "json_same (lookup (JObj staged) [p, ''size_bytes'']) (JInt (int (length mp3)))"
      "sub selected ''sha256'' = Inr (JStr (rv_sha R mp3))" "sub selected ''size_bytes'' = Inr (JInt (int (length mp3)))"
    by (rule check_media_Inr) blast
  have "p = path" using media(1) parts(11) by simp
  then have listed: "lookup (JObj m) [''artifacts'', path, k] = lookup (JObj staged) [p, k]" for k
    using dindex_lookup [OF parts(10), of "[path, k]"] by (simp del: lookup.simps(2))
  have proved: "lookup (JObj m) [''generation'', ''synthesis_runner'', ''audio'', ''artifacts'', ''mp3'', k] = lookup selected [k]" for k
    using dindex_lookup [OF parts(2)] sub_lookup [OF parts(3)] sub_lookup [OF parts(7)] sub_lookup [OF parts(8)]
      dindex_lookup [OF parts(9)] by (simp del: lookup.simps(2))
  have selected: "lookup selected [''path''] = JStr path" "lookup selected [''sha256''] = JStr (rv_sha R mp3)"
      "lookup selected [''size_bytes''] = JInt (int (length mp3))"
    using sub_lookup [OF parts(11), of "[]"] sub_lookup [OF media(6), of "[]"] sub_lookup [OF media(7), of "[]"] by simp_all
  obtain h where h: "private_media_input_sha256 R m = Inr h" "sub runner ''review_input_sha256'' = Inr (JStr h)"
    using bound by (auto simp: and_then_Inr_conv)
  have ran: "lookup (JObj m) [''generation'', ''synthesis_runner'', ''status''] = JStr ''completed''"
      "lookup (JObj m) [''generation'', ''synthesis_claim'', ''status''] = JStr ''completed''"
      "lookup (JObj m) [''generation'', ''synthesis_runner'', ''review_input_sha256''] = JStr h"
    using dindex_lookup [OF parts(2)] sub_lookup [OF parts(3)] sub_lookup [OF parts(4)] sub_lookup [OF done_both(1), of "[]"]
      sub_lookup [OF done_both(2), of "[]"] sub_lookup [OF h(2), of "[]"] by simp_all
  show ?thesis
    using person bound_script media(2-5) \<open>p = path\<close> parts(5) x h(1) ran selected
    by (intro exI [of _ x] exI [of _ r]) (simp add: parts(13) listed proved del: lookup.simps(2))
qed

end
