(* ===== verification/ReviewExample.thy ===== *)
theory ReviewExample
  imports ReviewMedia
begin

text \<open>
  One staged episode, from the approval of its script to the claim of the runner, and the statements
  about reviews at that episode.
\<close>

section \<open>A staged manifest\<close>

text \<open>Digests are constant here; what matters is that the fields agree.\<close>

definition example_reviewing :: reviewing where
  "example_reviewing = \<lparr>rv_text = (\<lambda>_. ''t''), rv_sha = (\<lambda>_. ''m''), rv_checksum = (\<lambda>_. ''s''), rv_settings = ''p'', rv_ready = True,
     rv_podcast = (\<lambda>_. Inr JNull)\<rparr>"

definition example_read :: reader where
  "example_read path = (if path = ''jobs/e/script.txt'' then Inr (Some Corrupt) else Inr None)"

definition zero_cost :: json where
  "zero_cost = JObj [(''estimated_usd'', JStr ''0''), (''actual_usd'', JStr ''0'')]"

definition example_ledger :: json where
  "example_ledger = JObj [(''week'', JStr ''w''), (''month'', JStr ''m''), (''provider'', JStr ''p''), (''voice'', JStr ''v''),
     (''voice_config_hash'', JStr ''h''), (''billable_characters'', JInt 1), (''duration_seconds'', JInt 1),
     (''audio_byte_length'', JInt 1), (''staged_byte_length'', JInt 1),
     (''costs'', JObj (map (\<lambda>c. (c, zero_cost)) COST_CATEGORIES)),
     (''budget'', JObj [(''status'', JStr ''within_budget''), (''projected_episode_count'', JInt 1),
        (''projected_monthly_spend_usd'', JStr ''0''), (''max_monthly_spend_usd'', JStr ''0''),
        (''prior_monthly_spend_usd'', JStr ''0''), (''projected_episode_cost_usd'', JStr ''0'')]),
     (''durable_monthly_state'', JObj [(''source'', JStr ''blob''), (''enforced'', JBool True)]),
     (''privacy'', JObj [(''secrets_recorded'', JBool False), (''provider_credentials_recorded'', JBool False),
        (''full_prompts_recorded'', JBool False)])]"

definition staged_manifest :: dict where
  "staged_manifest = [(''job_id'', JStr ''e''), (''created_at'', JStr ''c''), (''expires_at'', JStr ''x''),
     (''request'', JObj [(''dry_run'', JBool False)]),
     (''review'', JObj [(''snapshot'', JObj [(''script_sha256'', JStr ''s''), (''manifest_sha256'', JStr ''m'')])]),
     (''cost_ledger'', example_ledger), (''artifacts'', JObj []),
     (''generation'', JObj [(''engine'', JStr ''llm-script-gen''), (''cost_ledger_persisted'', JBool True),
        (''resolved_podcast_config'', JNull), (''provider_settings'', JObj [(''provider'', JStr ''az'')]),
        (''provider_settings_sha256'', JStr ''p''), (''audio_mode'', JStr ''placeholder''),
        (''synthesis_queue'', JObj [(''status'', JStr ''awaiting_review'')])])]"

definition example_authorization :: dict where
  "example_authorization = (''provider_settings_sha256'', JStr ''p'') # (''selected_provider'', JStr ''az'')
     # map (\<lambda>f. (f, JStr ''ok'')) (tl PROVIDER_AUTHORIZATION_FIELDS)"


definition example_call :: "string \<Rightarrow> decision_call" where
  "example_call ts = \<lparr>dc_reviewer = ''Ann'', dc_reviewed_at = ts, dc_decision = ''approved'',
       dc_notes = [], dc_run_url = None, dc_authorization = Some example_authorization, dc_confirmed = True\<rparr>"

definition approval_request :: "string \<Rightarrow> decision_request" where
  "approval_request ts = \<lparr>rq_call = example_call ts, rq_script_sha = Some ''s'', rq_manifest_sha = Some ''m''\<rparr>"

lemma example_gate: "cost_gate_blockers example_ledger = Inr []"
  by code_simp

section \<open>The approval\<close>

definition decided_manifest :: "string \<Rightarrow> dict" where
  "decided_manifest ts = (case apply_review_decision staged_manifest (example_call ts) of Inr m \<Rightarrow> m | Inl _ \<Rightarrow> [])"

definition bound_manifest :: "string \<Rightarrow> dict" where
  "bound_manifest ts = (case bind_approval (example_call ts) (decided_manifest ts) of Inr m \<Rightarrow> m | Inl _ \<Rightarrow> [])"

definition dispatched_manifest :: "string \<Rightarrow> string \<Rightarrow> dict" where
  "dispatched_manifest d ts = (case dindex (bound_manifest ts) ''generation'' of
     Inr (JObj g) \<Rightarrow> dset ''generation'' (JObj (dset ''synthesis_queue'' (dispatch_intent d ts) g)) (bound_manifest ts) | _ \<Rightarrow> [])"

text \<open>Whether a manifest passes the checks, up to the time of the approval, which is \<open>ts\<close>.\<close>

definition passes :: "string \<Rightarrow> dict \<Rightarrow> bool" where
  "passes ts m \<longleftrightarrow> validate_review_snapshot example_reviewing example_read ''e'' (JObj m) = Inr (Some Corrupt)
     \<and> (case and_then (dindex m ''review'') (\<lambda>p. and_then (sub p ''synthesis_approval'') (\<lambda>r.
           and_then (sub r ''binding'') (\<lambda>b. and_then (not_approved m p r b) (\<lambda>bad. and_then (sub r ''approved_at'') (\<lambda>v. Inr (bad, v)))))) of
          Inr (bad, v) \<Rightarrow> \<not> bad \<and> v = JStr ts | Inl _ \<Rightarrow> False)"

lemma passes_valid:
  assumes "passes ts m" "check_approval_time (JStr ts) = Inr ()"
  shows "validate_review_snapshot example_reviewing example_read ''e'' (JObj m) = Inr (Some Corrupt)"
    and "validate_review_binding (JObj m) = Inr ()"
  using assms
  by (auto simp: passes_def validate_review_binding_def and_then_Inr_conv split: sum.splits)

lemma bound_passes: "passes (c # ts) (bound_manifest (c # ts))"
  by code_simp

lemma dispatched_passes: "passes (c # ts) (dispatched_manifest d (c # ts))"
  by code_simp

lemma example_time: "\<exists>c ts. check_approval_time (JStr (c # ts)) = Inr ()"
proof -
  have "valid_instant 0" by (simp add: valid_instant_def micros_per_day_def)
  then have "check_approval_time (JStr (iso_z 0)) = Inr ()"
    by (simp add: check_approval_time_def iso_z_offset fromisoformat_isoformat)
  moreover obtain c ts where "iso_z 0 = c # ts" by (cases "iso_z 0") (simp_all add: iso_z_eq)
  ultimately show ?thesis by metis
qed

lemma decided_run: "apply_review_decision staged_manifest (example_call (c # ts)) = Inr (decided_manifest (c # ts))"
  by code_simp

lemma bound_run: "bind_approval (example_call (c # ts)) (decided_manifest (c # ts)) = Inr (bound_manifest (c # ts))"
  by code_simp

lemma bound_generation: "case dindex (bound_manifest (c # ts)) ''generation'' of Inr (JObj g) \<Rightarrow> True | _ \<Rightarrow> False"
  by code_simp

section \<open>Dispatch and claim\<close>

lemma staged_checks:
  "ends_with ''-dry-run'' ''e'' = False" "dget_or staged_manifest ''request'' (JObj []) = JObj [(''dry_run'', JBool False)]"
  "case dget_or staged_manifest ''generation'' (JObj []) of JObj g \<Rightarrow>
     dget g ''audio_mode'' \<noteq> JStr ''synthesized'' \<and> check_dispatch (approval_request (c # ts)) staged_manifest g = Inr () | _ \<Rightarrow> False"
  "intent_of (Some (Doc (JObj staged_manifest))) = JNull"
  by code_simp+

lemma dispatched_claimable: "case start_claim example_reviewing ''c1'' ''now'' (dispatched_manifest ''d1'' (c # ts)) of Inr m \<Rightarrow> True | Inl _ \<Rightarrow> False"
  by code_simp

lemma dispatched_sends: "must_send ''d1'' (dispatched_manifest ''d1'' (c # ts)) = Inr True"
  by code_simp

lemma dispatch_run:
  assumes "check_approval_time (JStr (c # ts)) = Inr ()"
  shows "record_callback example_reviewing example_read ''e'' (approval_request (c # ts)) d () (Some (Doc (JObj staged_manifest)))
    = ((), Inr (Doc (JObj (dispatched_manifest d (c # ts)))))"
proof -
  obtain g where g: "dget_or staged_manifest ''generation'' (JObj []) = JObj g" "dget g ''audio_mode'' \<noteq> JStr ''synthesized''"
      "check_dispatch (approval_request (c # ts)) staged_manifest g = Inr ()"
    using staged_checks(3) [of c ts] by (auto split: json.splits)
  obtain g' where g': "dindex (bound_manifest (c # ts)) ''generation'' = Inr (JObj g')"
    using bound_generation [of c ts] by (auto split: sum.splits json.splits)
  note valid = passes_valid [OF bound_passes assms]
  have call: "rq_call (approval_request (c # ts)) = example_call (c # ts)" "approved (example_call (c # ts))"
      "dc_reviewed_at (example_call (c # ts)) = c # ts"
    by (simp_all add: approval_request_def example_call_def approved_def APPROVED_def)
  have "consume_intent example_reviewing example_read ''e'' (example_call (c # ts)) d (decided_manifest (c # ts))
      = Inr (dispatched_manifest d (c # ts))"
    by (simp add: consume_intent_def bound_run valid g' dispatched_manifest_def call)
  then show ?thesis
    by (simp add: record_callback_def load_json_def decide_def staged_checks(1,2) g call decided_run)
qed

lemma claim_run:
  assumes "check_approval_time (JStr (c # ts)) = Inr ()"
  shows "\<exists>b. claim_synthesis example_reviewing example_read ''e'' ''c1'' ''now'' () (Some (Doc (JObj (dispatched_manifest ''d1'' (c # ts))))) = ((), Inr b)"
proof -
  note valid = passes_valid [OF dispatched_passes assms]
  show ?thesis
    using dispatched_claimable [of c ts] by (auto simp: claim_synthesis_def load_json_def valid split: sum.splits)
qed

section \<open>The statements at this episode\<close>

theorem exact_script_stays_unpublished_witness:
  "apply_review_decision staged_manifest (example_call ''1'') = Inr (decided_manifest ''1'')
    \<and> lookup (JObj (decided_manifest ''1'')) [''publishing'', ''eligible''] = JBool False"
proof -
  have "is_exact_script_job staged_manifest" by code_simp
  from exact_script_stays_unpublished [OF decided_run [of "CHR ''1''" "[]"] this] decided_run [of "CHR ''1''" "[]"]
  show ?thesis by blast
qed

theorem synthesis_needs_evidence_witness:
  "apply_review_decision staged_manifest (example_call ''1'') = Inr (decided_manifest ''1'')
    \<and> approved (example_call ''1'') \<and> provider_authorization_blockers (decided_manifest ''1'') = Inr []"
proof -
  have "is_exact_script_job staged_manifest" "\<not> has_synthesized_audio staged_manifest"
      "lookup (JObj (decided_manifest ''1'')) [''generation'', ''tts_synthesis'', ''allowed''] = JBool True"
    by code_simp+
  from synthesis_needs_evidence [OF decided_run [of "CHR ''1''" "[]"] this] decided_run [of "CHR ''1''" "[]"]
  show ?thesis by blast
qed

theorem synthesis_dispatched_once_witness:
  "\<exists>s s'. (desk_step example_reviewing ''e'')\<^sup>*\<^sup>* s s' \<and> dk_sent s' = [''d1''] \<and> dk_claims s' = [''c1'']
    \<and> length (dk_sent s') \<le> 1 \<and> length (dk_claims s') \<le> 1"
proof -
  obtain c ts where time: "check_approval_time (JStr (c # ts)) = Inr ()" using example_time by blast
  obtain b where b: "claim_synthesis example_reviewing example_read ''e'' ''c1'' ''now'' ()
      (Some (Doc (JObj (dispatched_manifest ''d1'' (c # ts))))) = ((), Inr b)" using claim_run [OF time] by blast
  define s0 where "s0 = \<lparr>dk_manifest = Some (Doc (JObj staged_manifest)), dk_used = {}, dk_calls = {}, dk_sent = [], dk_claims = []\<rparr>"
  define s1 where "s1 = s0\<lparr>dk_manifest := Some (Doc (JObj (dispatched_manifest ''d1'' (c # ts)))), dk_used := {''d1''}, dk_calls := {''d1''}\<rparr>"
  define s2 where "s2 = s1\<lparr>dk_sent := [''d1'']\<rparr>"
  define s3 where "s3 = s2\<lparr>dk_manifest := Some b, dk_used := {''c1'', ''d1''}, dk_claims := [''c1'']\<rparr>"
  have "desk_step example_reviewing ''e'' s0 s1"
    using desk_step.Decide [of "''d1''" s0 example_reviewing example_read "''e''" "approval_request (c # ts)"]
      dispatch_run [OF time] by (simp add: s0_def s1_def)
  moreover have "desk_step example_reviewing ''e'' s1 s2"
    using desk_step.Send [of "''d1''" s1 "dispatched_manifest ''d1'' (c # ts)"] dispatched_sends
    by (simp add: s0_def s1_def s2_def load_manifest_def load_json_def)
  moreover have "desk_step example_reviewing ''e'' s2 s3"
    using desk_step.Claim [of "''c1''" s2 example_reviewing example_read "''e''" "''now''" b] b by (simp add: s0_def s1_def s2_def s3_def)
  ultimately have run: "(desk_step example_reviewing ''e'')\<^sup>*\<^sup>* s0 s3" by simp
  have "untouched s0" using staged_checks(4) by (simp add: untouched_def s0_def)
  from synthesis_dispatched_once [OF run this] run show ?thesis
    by (intro exI [of _ s0] exI [of _ s3]) (simp add: s3_def s2_def)
qed

theorem claim_rests_on_approval_witness:
  "\<exists>m script r. example_read ''jobs/e/script.txt'' = Inr (Some script)
    \<and> lookup (JObj m) [''review'', ''synthesis_approval'', ''binding'', ''script_sha256''] = JStr (rv_checksum example_reviewing script)
    \<and> lookup (JObj m) [''review'', ''synthesis_approval'', ''binding'', ''reviewer''] = JStr r \<and> \<not> not_a_person (JStr r)"
proof -
  obtain c ts where time: "check_approval_time (JStr (c # ts)) = Inr ()" using example_time by blast
  obtain b where "claim_synthesis example_reviewing example_read ''e'' ''c1'' ''now'' ()
      (Some (Doc (JObj (dispatched_manifest ''d1'' (c # ts))))) = ((), Inr b)" using claim_run [OF time] by blast
  from claim_rests_on_approval [OF this] show ?thesis by (auto simp: script_path_def simp del: lookup.simps(2))
qed

section \<open>The audio of the episode\<close>

definition media_proof :: "string \<Rightarrow> json" where
  "media_proof path = JObj [(''path'', JStr path), (''sha256'', JStr ''m''), (''size_bytes'', JInt 1)]"

definition media_generation :: dict where
  "media_generation = [(''resolved_podcast_config'', JNull), (''provider_settings'', JObj [(''provider'', JStr ''az'')]),
     (''provider_settings_sha256'', JStr ''p''), (''audio_mode'', JStr ''synthesized''),
     (''synthesis_queue'', JObj [(''dispatch_id'', JStr ''d1'')]),
     (''synthesis_claim'', JObj [(''status'', JStr ''completed''), (''dispatch_id'', JStr ''d1''), (''manifest_sha256'', JStr ''m''),
        (''review_input_sha256'', JStr ''m'')]),
     (''synthesis_runner'', JObj [(''status'', JStr ''completed''), (''review_input_sha256'', JStr ''m''),
        (''audio'', JObj [(''path'', JStr ''jobs/e/a.mp3''), (''sha256'', JStr ''m''), (''size_bytes'', JInt 1),
          (''artifacts'', JObj [(''mp3'', media_proof ''jobs/e/a.mp3''), (''wav'', media_proof ''jobs/e/a.wav'')])])]),
     (''audio_validation'', JObj [(''ready'', JBool True), (''status'', JStr ''passed'')])]"

text \<open>The approved manifest, once the synthesis has completed.\<close>

definition media_manifest :: "string \<Rightarrow> dict" where
  "media_manifest ts = dset ''artifacts'' (JObj (map (\<lambda>p. (p, media_proof p)) [''jobs/e/a.mp3'', ''jobs/e/a.wav'']))
     (dset ''generation'' (JObj (dset ''tts_synthesis'' (dget (generation_or_empty (bound_manifest ts)) ''tts_synthesis'') media_generation))
        (bound_manifest ts))"

definition example_fetch :: media_reader where
  "example_fetch path sha n = Inr (Some ''a'')"

lemma media_approved:
  "case and_then (dindex (media_manifest (c # ts)) ''review'') (\<lambda>p. and_then (sub p ''synthesis_approval'') (\<lambda>r.
       and_then (sub r ''binding'') (\<lambda>b. and_then (not_approved (media_manifest (c # ts)) p r b) (\<lambda>bad.
       and_then (sub r ''approved_at'') (\<lambda>v. Inr (bad, v)))))) of
     Inr (bad, v) \<Rightarrow> \<not> bad \<and> v = JStr (c # ts) | Inl _ \<Rightarrow> False"
  by code_simp

lemma media_admitted:
  "admit_audio example_reviewing example_read example_fetch ''e'' (media_manifest (c # ts)) = Inr \<lparr>va_path = ''jobs/e/a.mp3'', va_content = ''a''\<rparr>"
  by code_simp

lemma media_proofs:
  "lookup (JObj (media_manifest (c # ts))) [''generation'', ''synthesis_runner'', ''audio'', ''artifacts'']
    = JObj [(''mp3'', media_proof ''jobs/e/a.mp3''), (''wav'', media_proof ''jobs/e/a.wav'')]"
  by code_simp

theorem admitted_audio_is_reviewed_witness:
  "\<exists>m va script r. validate_private_media_inputs example_reviewing example_read example_fetch ''e'' m = Inr va \<and> va_content va = ''a''
    \<and> example_read ''jobs/e/script.txt'' = Inr (Some script) \<and> staged_path ''e'' ''mp3'' (JStr (va_path va))
    \<and> lookup (JObj m) [''review'', ''synthesis_approval'', ''binding'', ''reviewer''] = JStr r \<and> \<not> not_a_person (JStr r)"
proof -
  obtain c ts where time: "check_approval_time (JStr (c # ts)) = Inr ()" using example_time by blast
  have run: "validate_private_media_inputs example_reviewing example_read example_fetch ''e'' (media_manifest (c # ts))
      = Inr \<lparr>va_path = ''jobs/e/a.mp3'', va_content = ''a''\<rparr>"
    using media_approved [of c ts] time
    by (auto simp: validate_private_media_inputs_def validate_review_binding_def and_then_Inr_conv media_admitted split: sum.splits)
  from admitted_audio_is_reviewed [OF run] run show ?thesis
    by (fastforce simp: media_proofs script_path_def simp del: lookup.simps(2))
qed

end
