(* ===== verification/Spec2Isabelle.thy ===== *)
theory Spec2Isabelle
  imports Retry Publication ClipManifest AudioMetadata Edl Budget Quota PipelineLock Progress Ownership Scheduler OutboxExample RecorderExample EditorExample ReviewExample
begin

text \<open>
  A verification library for SquadScope Podcaster, a Python service that turns a repository digest
  into a narrated podcast and a matching video.  The audio pipeline writes a script plan, synthesises
  speech and records when every turn is spoken; the video pipeline plans one clip per topic against
  that timeline, composes the video and hands it to distribution.  The two pipelines run in stateless
  containers: everything they agree on is a JSON document in a blob store, updated by compare-and-swap.
  The library models the parts that decide, and leaves out the ones that call out.

  Theories and the code they model (all under \<open>src/podcaster/\<close>):

  \<^item> \<open>Prelude\<close>, \<open>PyText\<close>, \<open>Datetime\<close>, \<open>Json\<close>: what the code uses of Python.  Exceptions are values of
    the type \<open>exn\<close>, fallible code returns \<open>exn + 'a\<close>; decimal printing and parsing, string methods,
    ISO-8601 timestamps; JSON values and dicts as association lists with the operations the code
    calls.  \<open>Json\<close> also states two interfaces as locales: \<open>codec\<close> (a value written as JSON reads
    back) and \<open>instant_notation\<close> (a printed instant reads back).  They are interpreted where the
    code defines such a pair.
  \<^item> \<open>BlobStore\<close> (\<open>storage.py\<close>): the local backend's \<open>update_bytes\<close> as one step on a store, the Azure
    backend's read, callback, conditional write and retry loop against a cloud with other writers,
    and the refinement of the second to the first: a successful update is one write of what the callback computed
    from the content of that moment, whatever it had captured before.  The locale \<open>atomic_store\<close> holds the laws that
    the lock, the quota ledger, the progress log and the ownership record rely on.
  \<^item> \<open>Retry\<close> (\<open>retry.py\<close>): bounded retries with back-off.
  \<^item> \<open>ClipManifest\<close> (\<open>video/clip_manifest.py\<close>): clips with safe-to-cut ranges and their invariant.
  \<^item> \<open>AudioMetadata\<close> (\<open>audio_metadata.py\<close>, \<open>audio.py\<close>, parts of \<open>script_plan.py\<close>): the realised timeline,
    word timings, speaker roles, topic ranges, and their JSON form.
  \<^item> \<open>Edl\<close> (\<open>video/edl.py\<close>): planning the edit decision list, its validator, fallbacks, JSON form.
  \<^item> \<open>Budget\<close> (\<open>video/budget.py\<close>): stage deadlines of one video run and who may start what when.
  \<^item> \<open>Quota\<close> (\<open>youtube_quota.py\<close>): the daily ledger of provider units and its atomic reservation.
  \<^item> \<open>PipelineLock\<close> (\<open>pipeline_lock.py\<close>): the claim that keeps the two pipelines apart.
  \<^item> \<open>Progress\<close> (\<open>progress.py\<close>, \<open>stage_progress.py\<close>): the durable event log, polling and estimates.
  \<^item> \<open>Ownership\<close> (\<open>video/ownership.py\<close>): the fenced claim on the work after composition.

  \<^item> \<open>CreateSafety\<close>, \<open>Publication\<close> (\<open>publication_state.py\<close>): what is known of a provider object that may have
    been created (closed sets of tags through the locale \<open>closed_set\<close>, and the one reading of untrusted
    records), and the append-only evidence log with its claims and retry gates on both backends.
  \<^item> \<open>TaskGraph\<close>, \<open>Scheduler\<close> (\<open>scheduler.py\<close>): task graphs, their validation by depth-first search, the
    canonical pipeline; the run of a graph by one scheduler and many workers under a lock, with stage
    caps, failure isolation and a persisted checkpoint.
  \<^item> \<open>OutboxDocument\<close>, \<open>Outbox\<close> (\<open>distribution_outbox.py\<close>): the durable item of one distribution, what every
    operation checks of it, and the operations: enqueueing, claims, intents, receipts, dispatch, verification,
    reconciliation and its notifications, release.  \<open>OutboxSafety\<close> proves what they guarantee together along
    every interleaving (\<open>outbox_step\<close>).  \<open>OutboxBackfill\<close> adds the import of old publication evidence and proves
    what a verified result rests on along the whole history of an item (\<open>history_step\<close>): the operations, backfills,
    and the writers that are not modelled (media reviews, recovery authorizations) by what they keep.
    \<open>OutboxExample\<close> computes one distribution from its creation to a verified publication, at which the statements
    are applied.

  \<^item> \<open>Media\<close> (\<open>video/process.py\<close>), \<open>Clipset\<close> (\<open>video/clipset.py\<close>): the evidence about a media file and the
    fan-out plan of a video job, with its blob paths and both schema versions.
  \<^item> \<open>Scratch\<close>: the world of the workers of one video job -- the scratch container, the clip queue, the clocks --
    and how programs act on it: a request may fail before or after its effect, and the other workers act
    before every request.  Both are data of the \<open>surroundings\<close>, so a theorem about all surroundings is about
    every interleaving and every fault.  It also holds the Hoare triples in which these programs are verified.
  \<^item> \<open>Recorder\<close> (\<open>video/recorder.py\<close>, \<open>parse_clip_job\<close> of \<open>queue.py\<close>): one clip message from receipt to settlement.
    \<open>RecorderSafety\<close> proves that a terminal manifest is final and that a message is deleted only when its clip
    is settled, \<open>RecorderMedia\<close> that the media of a recorded clip are stored and verified; \<open>RecorderExample\<close>
    computes one run from an empty container.
  \<^item> \<open>EditorLease\<close>, \<open>Editor\<close> (\<open>video/editor.py\<close>, the heartbeat of \<open>video/job_runner.py\<close>, the clip message of
    \<open>queue.py\<close>): the lease of the editor of a video job, and its run -- plan once, send out the clips, wait for the
    recorders, settle what is missing, assemble.  A live lease excludes other runs (\<open>EditorLease\<close>); the wait ends
    and a complete one is settled (\<open>EditorFanin\<close>); all editors of a job agree on its plan (\<open>EditorPlan\<close>); the
    recording is the plan, clip by clip, and terminal manifests stay as they are (\<open>EditorAssembly\<close>).
    \<open>EditorExample\<close> computes the run at which these statements are applied.  The editor meets the recorders only
    in the container, so the guarantees of one side are the rely conditions of the other (the locales
    \<open>manifest_guard\<close>, \<open>plan_guard\<close>, \<open>lease_held\<close>).
  \<^item> \<open>CostGate\<close> (the gate of \<open>costs.py\<close>), \<open>Review\<close> (\<open>review.py\<close>), \<open>ReviewDispatch\<close> (the decision and the dispatch in
    \<open>orchestration.py\<close>, the claim of the runner in \<open>job_runner.py\<close>), \<open>ReviewMedia\<close> (the admission of audio in
    \<open>review.py\<close>): a person approves the exact content of a staged episode before anyone pays for its speech.
    \<open>Review\<close> proves which gates a decision can open; \<open>ReviewDispatch\<close> that speech is dispatched and claimed once
    along every interleaving (\<open>desk_step\<close>) and that a claim rests on an approval; \<open>ReviewMedia\<close> that admitted audio is
    reviewed.  \<open>ReviewExample\<close> computes one episode from its approval to its audio.

  Conventions.  A Python function that raises returns \<open>Inl\<close> of the exception; one that mutates its
  argument returns the new value; one that updates a blob takes and returns the store.  Definitions
  keep the source's names, with a suffix where HOL has the name already.  Clocks, UUIDs, jitter, the
  Pacific calendar and \<open>repr\<close> are parameters.  A storage fault is a parameter (\<open>fault\<close>) and may come
  before or after the write.  The browser, the fallback renderer, the media probe, SHA-256, the environment and the
  texts of exceptions are the parameters \<open>tools\<close> of a recorder, with the fallback card and the gap filler the
  \<open>cutting\<close> of an editor; the digests and settings a review compares are its parameter \<open>reviewing\<close>.  A queue message is what its body decodes to.  Strings are lists of 8-bit characters.  Floats are exact rationals, so a
  statement about a rounded value is about the rounding of the exact value.  Only ISO timestamps in the
  extended format are parsed.  Member order of a JSON object is not observed by any property.

  Bounds.  \<open>azure_loop\<close> runs the five attempts of the source.  \<open>loop_sections_fill\<close> takes the source's own
  guard of 100000 rounds as its fuel.  \<open>run_loop\<close> takes a number of scheduler turns as fuel; one more than
  the number of tasks is enough (\<open>run_dag_terminates\<close>), since a turn that waits ends with a task finishing.  The event log keeps \<open>MAX_EVENTS\<close> events.  \<open>exn_is\<close> follows the
  class hierarchy for five steps, the depth of the classes named.  \<open>cas_rounds\<close>
  runs the five attempts of a conditional update; \<open>drain\<close> consumes the list of what the receives return.
  \<open>fanin_loop\<close> takes a number of passes as fuel; \<open>fanin_fuel\<close> is enough (\<open>fanout_terminates\<close>), since a pass that
  goes on brings the monotonic clock forward by the poll interval or a microsecond, the resolution of the
  UTC clock, or to the point where the next check stops the wait.  Every recursion is structural or has a
  termination proof, so every operation modelled returns.

  What the groups of lemmas show.  For planners: the result is inside its bounds, has no gaps and no overlaps,
  and passes the validator of the code.  For documents: reading back what was written gives the value.
  For shared records: an operation that succeeds had the right to, one that fails wrote nothing, and
  invariants hold along every interleaving of operations and faults (\<open>lock_step\<close>, \<open>own_step\<close>, \<open>careful_step\<close>, \<open>history_step\<close>,
  \<open>sd_step\<close>, \<open>desk_step\<close>, the runs of \<open>Quota\<close> and \<open>Progress\<close>).

  Not modelled: the HTTP and queue entry points (\<open>api\<close>, the job runners, \<open>monitoring\<close>), code that drives
  other programs or services (ffmpeg, browsers, speech and language models, YouTube and other
  publishers), the evidence that authorizes a recovery attempt of the outbox (the verdict is the parameter
  \<open>oe_recovery\<close>, so statements hold for any verdict, within one attempt), the review of prepared media and the publication of a staged job
  (\<open>publish_staged_job\<close>, whose blind writes of the manifest \<open>desk_step\<close> admits only where they keep the dispatch),
  the building of cost ledgers, prompt and text generation, Unicode normalisation, rendering of pictures, the user
  interface and the infrastructure files.
\<close>

end
